(* ===== verification/Prelude.thy ===== *)
theory Prelude
  imports Complex_Main "HOL-Library.Monad_Syntax" "HOL-Library.Log_Nat"
begin

text \<open>
  Vocabulary shared by every component of the development: Python's ordered
  dictionaries as association lists in insertion order, ascending integer lists
  maintained by the \<^verbatim>\<open>bisect\<close> module, SQLAlchemy sessions (a committed and a
  working copy of a database), and the generic list lemmas the component proofs
  use. The collection \<open>dict_simps\<close> holds the dictionary laws.
\<close>

named_theorems dict_simps \<open>laws of insertion-ordered dictionaries\<close>
named_theorems step_simps \<open>unfolding equations of the state-changing operations\<close>

section \<open>Insertion-ordered dictionaries\<close>

text \<open>
  A Python dict: assignment to a present key keeps its place, assignment to a
  new key appends, \<^verbatim>\<open>pop\<close> and \<^verbatim>\<open>del\<close> remove the key.
\<close>

type_synonym ('k, 'v) dict = "('k \<times> 'v) list"

abbreviation dict_get :: "('k, 'v) dict \<Rightarrow> 'k \<Rightarrow> 'v option" where
  "dict_get \<equiv> map_of"

fun dict_set :: "'k \<Rightarrow> 'v \<Rightarrow> ('k, 'v) dict \<Rightarrow> ('k, 'v) dict" where
  "dict_set k v [] = [(k, v)]"
| "dict_set k v ((k', v') # d) = (if k' = k then (k, v) # d else (k', v') # dict_set k v d)"

definition dict_pop :: "'k \<Rightarrow> ('k, 'v) dict \<Rightarrow> ('k, 'v) dict" where
  "dict_pop k d = filter (\<lambda>p. fst p \<noteq> k) d"

definition dict_keys :: "('k, 'v) dict \<Rightarrow> 'k list" where
  "dict_keys d = map fst d"

definition wf_dict :: "('k, 'v) dict \<Rightarrow> bool" where
  "wf_dict d \<longleftrightarrow> distinct (dict_keys d)"

lemma dict_get_set [dict_simps, simp]:
  "dict_get (dict_set k v d) = (dict_get d)(k \<mapsto> v)"
  by (induction d) (auto simp: fun_eq_iff)

lemma dict_get_pop [dict_simps, simp]:
  "dict_get (dict_pop k d) = (dict_get d)(k := None)"
  by (induction d) (auto simp: dict_pop_def fun_eq_iff)

lemma set_dict_keys [dict_simps, simp]: "set (dict_keys d) = dom (dict_get d)"
  by (simp add: dict_keys_def dom_map_of_conv_image_fst)

lemma dict_keys_set:
  "dict_keys (dict_set k v d) = (if k \<in> dom (dict_get d) then dict_keys d else dict_keys d @ [k])"
proof (induction d)
  case Nil
  then show ?case by (simp add: dict_keys_def)
next
  case (Cons p d)
  then show ?case by (cases p) (auto simp: dict_keys_def domIff split: if_splits)
qed

lemma dict_keys_pop: "dict_keys (dict_pop k d) = filter (\<lambda>x. x \<noteq> k) (dict_keys d)"
  by (induction d) (auto simp: dict_keys_def dict_pop_def)

lemma wf_dict_Nil [simp]: "wf_dict []"
  by (simp add: wf_dict_def dict_keys_def)

lemma wf_dict_set [dict_simps, simp]: "wf_dict d \<Longrightarrow> wf_dict (dict_set k v d)"
  by (auto simp: wf_dict_def dict_keys_set domIff)

lemma wf_dict_pop [dict_simps, simp]: "wf_dict d \<Longrightarrow> wf_dict (dict_pop k d)"
  by (simp add: wf_dict_def dict_keys_pop)

lemma wf_dict_in_set: "wf_dict d \<Longrightarrow> (k, v) \<in> set d \<longleftrightarrow> dict_get d k = Some v"
  by (simp add: wf_dict_def dict_keys_def)

text \<open>The contract a dictionary offers its clients, as an interface.\<close>

locale ordered_dict =
  fixes get :: "'d \<Rightarrow> 'k \<Rightarrow> 'v option"
    and put :: "'k \<Rightarrow> 'v \<Rightarrow> 'd \<Rightarrow> 'd"
    and pop :: "'k \<Rightarrow> 'd \<Rightarrow> 'd"
    and keys :: "'d \<Rightarrow> 'k list"
    and wf :: "'d \<Rightarrow> bool"
  assumes get_put: "get (put k v d) = (get d)(k \<mapsto> v)"
    and get_pop: "get (pop k d) = (get d)(k := None)"
    and keys_dom: "set (keys d) = dom (get d)"
    and wf_keys: "wf d \<Longrightarrow> distinct (keys d)"
    and wf_put: "wf d \<Longrightarrow> wf (put k v d)"
    and wf_pop: "wf d \<Longrightarrow> wf (pop k d)"
begin

lemma put_put_get: "get (put k w (put k v d)) = get (put k w d)"
  by (simp add: get_put)

lemma pop_put_get: "get d k = None \<Longrightarrow> get (pop k (put k v d)) = get d"
  by (auto simp: get_put get_pop)

lemma put_size:
  assumes "wf d"
  shows "length (keys (put k v d)) = (if k \<in> dom (get d) then length (keys d) else Suc (length (keys d)))"
proof -
  have "length (keys (put k v d)) = card (dom (get (put k v d)))"
    using wf_keys [OF wf_put [OF assms]] by (metis distinct_card keys_dom)
  also have "\<dots> = card (insert k (dom (get d)))"
    by (simp add: get_put)
  also have "\<dots> = (if k \<in> dom (get d) then length (keys d) else Suc (length (keys d)))"
    using wf_keys [OF assms] by (metis List.finite_set card_insert_disjoint distinct_card
        insert_absorb keys_dom)
  finally show ?thesis .
qed

end

interpretation pydict: ordered_dict dict_get dict_set dict_pop dict_keys wf_dict
  by unfold_locales (auto simp: wf_dict_def dict_keys_set dict_keys_pop domIff)

section \<open>Ascending lists of keys\<close>

text \<open>\<^verbatim>\<open>bisect.insort\<close> inserts after equal elements; on a list without the
  element, before the first larger one.\<close>

fun bisect_insort :: "int \<Rightarrow> int list \<Rightarrow> int list" where
  "bisect_insort x [] = [x]"
| "bisect_insort x (y # ys) = (if x < y then x # y # ys else y # bisect_insort x ys)"

lemma set_bisect_insort [simp]: "set (bisect_insort x ys) = insert x (set ys)"
  by (induction ys) auto

lemma sorted_wrt_bisect_insort:
  "sorted_wrt (<) ys \<Longrightarrow> x \<notin> set ys \<Longrightarrow> sorted_wrt (<) (bisect_insort x ys)"
  by (induction ys) auto

section \<open>HTTP errors\<close>

text \<open>\<^verbatim>\<open>fastapi.HTTPException\<close>: the status code (the detail text is left out).\<close>

datatype http_error = HTTP nat

section \<open>Database sessions\<close>

text \<open>
  A SQLAlchemy session over a database of type \<open>'d\<close>: statements change the
  working copy, \<^verbatim>\<open>commit\<close> publishes it, \<^verbatim>\<open>rollback\<close> discards it.
\<close>

record 'd session =
  committed :: 'd
  working :: 'd

definition fresh_session :: "'d \<Rightarrow> 'd session" where
  "fresh_session d = \<lparr>committed = d, working = d\<rparr>"

definition commit :: "'d session \<Rightarrow> 'd session" where
  "commit s = s\<lparr>committed := working s\<rparr>"

definition rollback :: "'d session \<Rightarrow> 'd session" where
  "rollback s = s\<lparr>working := committed s\<rparr>"

definition upd :: "('d \<Rightarrow> 'd) \<Rightarrow> 'd session \<Rightarrow> 'd session" where
  "upd f s = s\<lparr>working := f (working s)\<rparr>"

lemma session_simps [simp]:
  "committed (commit s) = working s" "working (commit s) = working s"
  "committed (rollback s) = committed s" "working (rollback s) = committed s"
  "committed (upd f s) = committed s" "working (upd f s) = f (working s)"
  "committed (fresh_session d) = d" "working (fresh_session d) = d"
  by (simp_all add: commit_def rollback_def upd_def fresh_session_def)

section \<open>Conditional updates of tables\<close>

text \<open>
  A table is the list of its rows. \<open>sql_update p f t\<close> is
  \<^verbatim>\<open>UPDATE t SET f WHERE p\<close>; \<open>rowcount p t\<close> is the number of rows it touches.
\<close>

definition sql_update :: "('r \<Rightarrow> bool) \<Rightarrow> ('r \<Rightarrow> 'r) \<Rightarrow> 'r list \<Rightarrow> 'r list" where
  "sql_update p f t = map (\<lambda>r. if p r then f r else r) t"

definition rowcount :: "('r \<Rightarrow> bool) \<Rightarrow> 'r list \<Rightarrow> nat" where
  "rowcount p t = length (filter p t)"

lemma sql_update_no_rows: "rowcount p t = 0 \<Longrightarrow> sql_update p f t = t"
  by (auto simp: rowcount_def sql_update_def filter_empty_conv intro: map_idI)

lemma length_sql_update [simp]: "length (sql_update p f t) = length t"
  by (simp add: sql_update_def)

lemma map_sql_update: "(\<And>r. p r \<Longrightarrow> g (f r) = g r) \<Longrightarrow> map g (sql_update p f t) = map g t"
  by (simp add: sql_update_def)

lemma in_sql_update:
  "r \<in> set (sql_update p f t) \<longleftrightarrow> (\<exists>r0 \<in> set t. r = (if p r0 then f r0 else r0))"
  by (auto simp: sql_update_def)

lemma ex_sql_update: "(\<exists>r \<in> set (sql_update p f t). Q r) \<longleftrightarrow> (\<exists>r \<in> set t. Q (if p r then f r else r))"
  by (simp only: sql_update_def set_map bex_simps)

lemma rowcount_le_1:
  assumes "distinct (map k t)" "\<And>r. p r \<Longrightarrow> k r = x"
  shows "rowcount p t \<le> 1"
  using assms
proof (induction t)
  case (Cons r t)
  show ?case
  proof (cases "p r")
    case True
    then have "\<And>r'. r' \<in> set t \<Longrightarrow> \<not> p r'"
      using Cons.prems by (metis distinct.simps(2) image_eqI list.set_map list.simps(9))
    then have "filter p t = []" by (simp add: filter_empty_conv)
    then show ?thesis by (simp add: rowcount_def True)
  qed (use Cons in \<open>simp add: rowcount_def\<close>)
qed (simp add: rowcount_def)

lemma rowcount_pos_iff: "0 < rowcount p t \<longleftrightarrow> (\<exists>r \<in> set t. p r)"
  by (auto simp: rowcount_def filter_empty_conv)

lemma rowcount_1_ex: "rowcount p t = 1 \<Longrightarrow> \<exists>r \<in> set t. p r"
  using rowcount_pos_iff [of p t] by simp

lemma rowcount_eq_1:
  assumes "distinct (map k t)" "\<And>r. p r \<Longrightarrow> k r = x" "r \<in> set t" "p r"
  shows "rowcount p t = 1"
proof -
  have "rowcount p t \<le> 1" using assms(1,2) by (rule rowcount_le_1)
  moreover have "0 < rowcount p t" using assms(3,4) rowcount_pos_iff by blast
  ultimately show ?thesis by simp
qed

lemma rowcount_1_iff:
  assumes "distinct (map k t)" "\<And>r. p r \<Longrightarrow> k r = x" "r \<in> set t" "k r = x"
  shows "rowcount p t = 1 \<longleftrightarrow> p r"
proof
  assume "rowcount p t = 1"
  then obtain r' where r': "r' \<in> set t" "p r'" using rowcount_1_ex by metis
  then have "r' = r" using assms by (metis (mono_tags, lifting) distinct_map inj_on_def)
  then show "p r" using r' by simp
qed (use rowcount_eq_1 assms in metis)

text \<open>Reading the row with a given key from a table whose key is unique.\<close>

definition find_row :: "('r \<Rightarrow> 'k) \<Rightarrow> 'k \<Rightarrow> 'r list \<Rightarrow> 'r option" where
  "find_row key k t = find (\<lambda>r. key r = k) t"

lemma find_row_Some: "find_row key k t = Some r \<Longrightarrow> r \<in> set t \<and> key r = k"
  by (auto simp: find_row_def find_Some_iff)

lemma find_row_in:
  assumes "distinct (map key t)" "r \<in> set t"
  shows "find_row key (key r) t = Some r"
  using assms by (induction t) (auto simp: find_row_def)

lemma find_row_None: "find_row key k t = None \<longleftrightarrow> k \<notin> key ` set t"
  by (auto simp: find_row_def find_None_iff)

lemma find_row_update:
  assumes "\<And>r. key (f r) = key r"
  shows "find_row key k (sql_update p f t) = map_option (\<lambda>r. if p r then f r else r) (find_row key k t)"
  using assms by (induction t) (auto simp: find_row_def sql_update_def)

lemma find_row_append:
  "find_row key k (t @ u) = (case find_row key k t of Some r \<Rightarrow> Some r | None \<Rightarrow> find_row key k u)"
  by (induction t) (auto simp: find_row_def)

section \<open>Machines with an invariant\<close>

text \<open>
  The contract of a component whose state changes only through a fixed set of
  operations: every admissible operation keeps the invariant. A sealed machine
  also has facts about single records that no operation can undo (an order that
  reached a terminal status, a revoked token, a stored result).
\<close>

fun admissible :: "('op \<Rightarrow> 's \<Rightarrow> bool) \<Rightarrow> ('op \<Rightarrow> 's \<Rightarrow> 's) \<Rightarrow> 'op list \<Rightarrow> 's \<Rightarrow> bool" where
  "admissible ok step [] s = True"
| "admissible ok step (p # ps) s = (ok p s \<and> admissible ok step ps (step p s))"

lemma admissible_True [simp]: "admissible (\<lambda>_ _. True) step ps s"
  by (induction ps arbitrary: s) simp_all

locale guarded_machine =
  fixes step :: "'op \<Rightarrow> 's \<Rightarrow> 's"
    and inv :: "'s \<Rightarrow> bool"
    and ok :: "'op \<Rightarrow> 's \<Rightarrow> bool"
  assumes inv_step: "inv s \<Longrightarrow> ok p s \<Longrightarrow> inv (step p s)"
begin

lemma inv_run: "inv s \<Longrightarrow> admissible ok step ps s \<Longrightarrow> inv (fold step ps s)"
  by (induction ps arbitrary: s) (auto intro: inv_step)

end

locale sealed_machine = guarded_machine +
  fixes sealed :: "'k \<Rightarrow> 's \<Rightarrow> bool"
  assumes sealed_step: "inv s \<Longrightarrow> ok p s \<Longrightarrow> sealed k s \<Longrightarrow> sealed k (step p s)"
begin

lemma sealed_run: "inv s \<Longrightarrow> admissible ok step ps s \<Longrightarrow> sealed k s \<Longrightarrow> sealed k (fold step ps s)"
  by (induction ps arbitrary: s) (auto intro: inv_step sealed_step)

end

end
