(* ===== verification/Numerics.thy ===== *)
theory Numerics
  imports Prelude
begin

text \<open>
  Python's numbers. A finite \<^verbatim>\<open>float\<close> is the rational it denotes and every float
  operation is the exact operation followed by rounding to binary64 (\<open>fl\<close>,
  round-half-even, gradual underflow); overflow to infinity and NaN are outside
  the model, as the request schemas refuse non-finite numbers. A \<^verbatim>\<open>Decimal\<close> is
  the rational it denotes and every Decimal operation rounds to the 28
  significant digits of the default context (\<open>dec\<close>). \<open>repr_dec\<close> is
  \<^verbatim>\<open>Decimal(str(x))\<close> of a float: the shortest decimal that reads back as \<open>x\<close>.
\<close>

section \<open>Rounding\<close>

definition round_half_even :: "rat \<Rightarrow> int" where
  "round_half_even x =
     (let f = \<lfloor>x\<rfloor>; r = x - of_int f
      in if r < 1/2 then f else if 1/2 < r then f + 1 else if even f then f else f + 1)"

text \<open>\<^verbatim>\<open>Decimal.to_integral_value(ROUND_HALF_UP)\<close>: ties go away from zero.\<close>

definition round_half_up :: "rat \<Rightarrow> int" where
  "round_half_up x = (if 0 \<le> x then \<lfloor>x + 1/2\<rfloor> else - \<lfloor>1/2 - x\<rfloor>)"

lemma round_half_even_nonneg: "0 \<le> x \<Longrightarrow> 0 \<le> round_half_even x"
  by (auto simp: round_half_even_def Let_def)

lemma round_half_even_nonpos: "x \<le> 0 \<Longrightarrow> round_half_even x \<le> 0"
proof -
  assume "x \<le> 0"
  show ?thesis
  proof (cases "x = 0")
    case False
    with \<open>x \<le> 0\<close> have "\<lfloor>x\<rfloor> < 0" by simp
    then show ?thesis by (auto simp: round_half_even_def Let_def)
  qed (simp add: round_half_even_def)
qed

lemma round_half_even_of_int [simp]: "round_half_even (of_int n) = n"
  by (simp add: round_half_even_def)

lemma round_half_even_mono:
  assumes "x \<le> y"
  shows "round_half_even x \<le> round_half_even y"
proof (cases "\<lfloor>x\<rfloor> = \<lfloor>y\<rfloor>")
  case True
  then show ?thesis using assms by (auto simp: round_half_even_def Let_def)
next
  case False
  then have "\<lfloor>x\<rfloor> + 1 \<le> \<lfloor>y\<rfloor>" using floor_mono [OF assms] by linarith
  then show ?thesis by (auto simp: round_half_even_def Let_def)
qed

lemma round_half_even_error: "\<bar>of_int (round_half_even x) - x\<bar> \<le> 1/2"
proof -
  have "of_int \<lfloor>x\<rfloor> \<le> x" "x < of_int \<lfloor>x\<rfloor> + 1" by linarith+
  then show ?thesis unfolding round_half_even_def Let_def abs_if by (simp split: if_splits) linarith
qed

lemma round_half_up_nonneg: "0 \<le> x \<Longrightarrow> 0 \<le> round_half_up x"
  by (simp add: round_half_up_def)

lemma round_half_up_of_int [simp]: "round_half_up (of_int n) = n"
  by (simp add: round_half_up_def) linarith

lemma round_half_up_error: "\<bar>of_int (round_half_up x) - x\<bar> \<le> 1/2"
proof (cases "0 \<le> x")
  case True
  have "of_int \<lfloor>x + 1/2\<rfloor> \<le> x + 1/2" "x + 1/2 < of_int \<lfloor>x + 1/2\<rfloor> + 1" by linarith+
  then have "\<bar>of_int \<lfloor>x + 1/2\<rfloor> - x\<bar> \<le> 1/2" unfolding abs_le_iff by linarith
  then show ?thesis using True unfolding round_half_up_def by simp
next
  case False
  have "of_int \<lfloor>1/2 - x\<rfloor> \<le> 1/2 - x" "1/2 - x < of_int \<lfloor>1/2 - x\<rfloor> + 1" by linarith+
  then have "\<bar>- of_int \<lfloor>1/2 - x\<rfloor> - x\<bar> \<le> 1/2" unfolding abs_le_iff by linarith
  then show ?thesis using False unfolding round_half_up_def by simp
qed

section \<open>Significant digits\<close>

text \<open>\<open>ilog b x\<close> is the exponent \<open>e\<close> with \<open>b powi e \<le> x < b powi (e + 1)\<close>, for
  positive \<open>x\<close> and a base \<open>b\<close> above 1.\<close>

definition ilog :: "nat \<Rightarrow> rat \<Rightarrow> int" where
  "ilog b x = (if 1 \<le> x then int (floorlog b (nat \<lfloor>x\<rfloor>)) - 1
               else - int (floorlog b (nat (\<lceil>1 / x\<rceil> - 1))))"

lemma ilog_bounds:
  assumes b: "1 < b" and x: "0 < x"
  shows "of_nat b powi ilog b x \<le> x" and "x < of_nat b powi (ilog b x + 1)"
proof -
  have "of_nat b powi ilog b x \<le> x \<and> x < of_nat b powi (ilog b x + 1)"
  proof (cases "1 \<le> x")
    case True
    define n where "n = nat \<lfloor>x\<rfloor>"
    have n: "0 < n" and nx: "of_nat n \<le> x" and xn: "x < of_nat n + 1"
      using True floor_correct [of x] unfolding n_def by (simp_all add: of_nat_nat)
    have lo: "b ^ (floorlog b n - 1) \<le> n" and hi: "n < b ^ floorlog b n"
      using floorlog_bounds [OF n b] by auto
    have fl1: "1 \<le> floorlog b n"
      using n b by (simp add: floorlog_def)
    have "of_nat b powi ilog b x = (of_nat (b ^ (floorlog b n - 1)) :: rat)"
      using True fl1 by (simp add: ilog_def n_def [symmetric] power_int_def nat_diff_distrib)
    also have "\<dots> \<le> of_nat n" using lo by (simp only: of_nat_le_iff)
    finally have 1: "of_nat b powi ilog b x \<le> x" using nx by simp
    have "(of_nat (n + 1) :: rat) \<le> of_nat (b ^ floorlog b n)"
      using hi by (simp only: of_nat_le_iff Suc_eq_plus1 [symmetric] Suc_le_eq)
    then have "x < of_nat (b ^ floorlog b n)" using xn by simp
    then have 2: "x < of_nat b powi (ilog b x + 1)"
      using True by (simp add: ilog_def n_def [symmetric] power_int_def)
    from 1 2 show ?thesis ..
  next
    case False
    define n where "n = nat (\<lceil>1 / x\<rceil> - 1)"
    define k where "k = floorlog b n"
    have gt: "1 < 1 / x" using x False by (simp add: field_simps)
    then have n: "0 < n" unfolding n_def by linarith
    have "int n = \<lceil>1 / x\<rceil> - 1" using n unfolding n_def by linarith
    then have "(of_int (int n) :: rat) = of_int (\<lceil>1 / x\<rceil> - 1)" by (simp only:)
    then have "of_nat n = of_int \<lceil>1 / x\<rceil> - (1 :: rat)" by (simp only: of_int_of_nat_eq of_int_diff of_int_1)
    then have nlt: "of_nat n < 1 / x" and len: "1 / x \<le> of_nat n + 1" by linarith+
    have lo: "b ^ (k - 1) \<le> n" and hi: "n < b ^ k"
      using floorlog_bounds [OF n b] by (auto simp: k_def)
    have k1: "1 \<le> k" using n b by (simp add: k_def floorlog_def)
    have "of_nat n + 1 \<le> (of_nat (b ^ k) :: rat)"
      using hi by (metis Suc_leI of_nat_Suc of_nat_le_iff add.commute)
    then have "1 / x \<le> of_nat b ^ k" using len by simp
    then have 1: "1 / of_nat b ^ k \<le> x" using x b by (simp add: field_simps)
    have "(of_nat (b ^ (k - 1)) :: rat) < 1 / x"
      using lo nlt by (metis le_less_trans of_nat_le_iff)
    then have 2: "x < 1 / of_nat b ^ (k - 1)" using x b by (simp add: field_simps)
    have il: "ilog b x = - int k" using False by (simp add: ilog_def k_def n_def)
    have e1: "of_nat b powi ilog b x = (1 / of_nat b ^ k :: rat)"
      by (simp add: il power_int_minus divide_inverse)
    have "ilog b x + 1 = - int (k - 1)" using k1 by (simp add: il)
    then have e2: "of_nat b powi (ilog b x + 1) = (1 / of_nat b ^ (k - 1) :: rat)"
      by (simp add: power_int_minus divide_inverse)
    from 1 2 show ?thesis by (simp add: e1 e2)
  qed
  then show "of_nat b powi ilog b x \<le> x" "x < of_nat b powi (ilog b x + 1)" by auto
qed

definition sig_round :: "nat \<Rightarrow> int \<Rightarrow> rat \<Rightarrow> rat" where
  "sig_round b e x = of_int (round_half_even (x / of_nat b powi e)) * of_nat b powi e"

text \<open>Rounding to binary64: 53 significant bits, least exponent \<open>-1074\<close>.\<close>

definition fl :: "rat \<Rightarrow> rat" where
  "fl x = (if x = 0 then 0 else sig_round 2 (max (ilog 2 \<bar>x\<bar> - 52) (-1074)) x)"

text \<open>Rounding to the 28 digits of the default decimal context.\<close>

definition dec :: "rat \<Rightarrow> rat" where
  "dec x = (if x = 0 then 0 else sig_round 10 (ilog 10 \<bar>x\<bar> - 27) x)"

lemma sig_round_nonneg: "0 \<le> x \<Longrightarrow> 0 \<le> sig_round b e x"
  by (simp add: sig_round_def round_half_even_nonneg)

lemma sig_round_nonpos: "x \<le> 0 \<Longrightarrow> sig_round b e x \<le> 0"
  by (auto simp: sig_round_def mult_nonpos_nonneg round_half_even_nonpos divide_nonpos_nonneg)

lemma fl_0 [simp]: "fl 0 = 0"
  by (simp add: fl_def)

lemma dec_0 [simp]: "dec 0 = 0"
  by (simp add: dec_def)

lemma fl_nonneg: "0 \<le> x \<Longrightarrow> 0 \<le> fl x"
  by (simp add: fl_def sig_round_nonneg)

lemma fl_nonpos: "x \<le> 0 \<Longrightarrow> fl x \<le> 0"
  by (simp add: fl_def sig_round_nonpos)

lemma dec_nonneg: "0 \<le> x \<Longrightarrow> 0 \<le> dec x"
  by (simp add: dec_def sig_round_nonneg)

lemma dec_nonpos: "x \<le> 0 \<Longrightarrow> dec x \<le> 0"
  by (simp add: dec_def sig_round_nonpos)

text \<open>A number that already has the digits is left alone.\<close>

lemma sig_round_exact:
  assumes "1 < b" "x = of_int m * of_nat b powi k" "e \<le> k"
  shows "sig_round b e x = x"
proof -
  have b0: "(of_nat b :: rat) \<noteq> 0" using assms by simp
  have "x / of_nat b powi e = of_int m * of_nat b powi (k - e)"
    using b0 by (simp add: assms power_int_diff)
  also have "\<dots> = of_int (m * int b ^ nat (k - e))"
    using \<open>e \<le> k\<close> by (simp add: power_int_def)
  finally have "sig_round b e x = of_int (m * int b ^ nat (k - e)) * of_nat b powi e"
    by (simp only: sig_round_def round_half_even_of_int)
  also have "\<dots> = of_int m * (of_nat b powi (k - e) * of_nat b powi e)"
    using \<open>e \<le> k\<close> by (simp add: power_int_def)
  also have "\<dots> = x"
    using b0 by (simp add: assms flip: power_int_add)
  finally show ?thesis .
qed

lemma ilog_le:
  assumes "1 < b" "0 < x" "x < of_nat b powi n"
  shows "ilog b x < n"
proof (rule ccontr)
  assume "\<not> ilog b x < n"
  then have "(of_nat b :: rat) powi n \<le> of_nat b powi ilog b x"
    using assms by (intro power_int_increasing) auto
  with ilog_bounds(1) [OF assms(1,2)] assms(3) show False by simp
qed

lemma dec_exact:
  assumes "\<bar>m\<bar> < 10 ^ 28"
  shows "dec (of_int m * 10 powi k) = of_int m * 10 powi k"
proof (cases "m = 0")
  case False
  let ?x = "of_int m * 10 powi k :: rat"
  have "\<bar>?x\<bar> = of_int \<bar>m\<bar> * 10 powi k" by (simp add: abs_mult)
  also have "\<dots> < 10 powi 28 * 10 powi k"
    using assms by (intro mult_strict_right_mono) (simp_all flip: of_int_power)
  also have "\<dots> = of_nat 10 powi (k + 28)" by (simp add: power_int_add)
  finally have "ilog 10 \<bar>?x\<bar> < k + 28" using False by (intro ilog_le) auto
  then have "ilog 10 \<bar>?x\<bar> - 27 \<le> k" by simp
  from sig_round_exact [of 10 ?x m k, OF _ _ this] False show ?thesis
    by (simp add: dec_def)
qed simp

lemma fl_exact:
  assumes "\<bar>m\<bar> < 2 ^ 53" "-1074 \<le> k"
  shows "fl (of_int m * 2 powi k) = of_int m * 2 powi k"
proof (cases "m = 0")
  case False
  let ?x = "of_int m * 2 powi k :: rat"
  have "\<bar>?x\<bar> = of_int \<bar>m\<bar> * 2 powi k" by (simp add: abs_mult)
  also have "\<dots> < 2 powi 53 * 2 powi k"
    using assms(1) by (intro mult_strict_right_mono) (simp_all flip: of_int_power)
  also have "\<dots> = of_nat 2 powi (k + 53)" by (simp add: power_int_add)
  finally have "ilog 2 \<bar>?x\<bar> < k + 53" using False by (intro ilog_le) auto
  then have "max (ilog 2 \<bar>?x\<bar> - 52) (-1074) \<le> k" using assms(2) by simp
  from sig_round_exact [of 2 ?x m k, OF _ _ this] False show ?thesis
    by (simp add: fl_def)
qed simp

lemma fl_of_int: "\<bar>m\<bar> < 2 ^ 53 \<Longrightarrow> fl (of_int m) = of_int m"
  using fl_exact [of m 0] by simp

lemma dec_of_int: "\<bar>m\<bar> < 10 ^ 28 \<Longrightarrow> dec (of_int m) = of_int m"
  using dec_exact [of m 0] by simp

lemma fl_numeral [simp]:
  "(numeral n :: int) < 2 ^ 53 \<Longrightarrow> fl (numeral n) = numeral n"
  "(numeral n :: int) < 2 ^ 53 \<Longrightarrow> fl (- numeral n) = - numeral n"
  using fl_of_int [of "numeral n"] fl_of_int [of "- numeral n"] by simp_all

lemma fl_1 [simp]: "fl 1 = 1"
  using fl_of_int [of 1] by simp

lemma dec_numeral [simp]: "(numeral n :: int) < 10 ^ 28 \<Longrightarrow> dec (numeral n) = numeral n"
  using dec_of_int [of "numeral n"] by simp

lemma dec_1 [simp]: "dec 1 = 1"
  using dec_of_int [of 1] by simp

text \<open>Rounding is monotone.\<close>

lemma ilog_mono:
  assumes "1 < b" "0 < x" "x \<le> y"
  shows "ilog b x \<le> ilog b y"
proof -
  have "0 < y" using assms by simp
  then have "x < of_nat b powi (ilog b y + 1)"
    using ilog_bounds(2) [OF assms(1), of y] assms(3) by simp
  then show ?thesis using ilog_le [OF assms(1,2)] by fastforce
qed

lemma sig_round_mono: "x \<le> y \<Longrightarrow> sig_round b e x \<le> sig_round b e y"
  by (simp add: sig_round_def mult_right_mono round_half_even_mono divide_right_mono)

lemma fl_mono_pos:
  assumes "0 < x" "x \<le> y"
  shows "fl x \<le> fl y"
proof -
  define ex where "ex = max (ilog 2 x - 52) (-1074)"
  define ey where "ey = max (ilog 2 y - 52) (-1074)"
  have fx: "fl x = sig_round 2 ex x" and fy: "fl y = sig_round 2 ey y"
    using assms by (simp_all add: fl_def ex_def ey_def)
  have le: "ex \<le> ey" using ilog_mono [of 2 x y] assms by (simp add: ex_def ey_def)
  show ?thesis
  proof (cases "ex = ey")
    case True
    then show ?thesis using assms by (simp add: fx fy sig_round_mono)
  next
    case False
    then have lt: "ex < ey" using le by simp
    then have ey: "ey = ilog 2 y - 52" and "ilog 2 x < ilog 2 y"
      by (auto simp: ex_def ey_def max_def split: if_splits)
    define B where "B = (of_int (2 ^ 52) :: rat) * of_nat 2 powi ey"
    have B: "B = 2 powi (ey + 52)" by (simp add: B_def power_int_add)
    have "x < 2 powi (ilog 2 x + 1)" using ilog_bounds(2) [of 2 x] assms by simp
    also have "\<dots> \<le> B" using \<open>ilog 2 x < ilog 2 y\<close> unfolding B ey
      by (intro power_int_increasing) auto
    finally have xB: "x \<le> B" by simp
    have yB: "B \<le> y" using ilog_bounds(1) [of 2 y] assms by (simp add: B ey)
    have "fl x \<le> sig_round 2 ex B" unfolding fx by (rule sig_round_mono [OF xB])
    also have "\<dots> = B" using lt by (intro sig_round_exact [of 2 B "2 ^ 52" ey]) (auto simp: B_def)
    also have "\<dots> = sig_round 2 ey B"
      by (intro sig_round_exact [of 2 B "2 ^ 52" ey, symmetric]) (auto simp: B_def)
    also have "\<dots> \<le> fl y" unfolding fy by (rule sig_round_mono [OF yB])
    finally show ?thesis .
  qed
qed

lemma round_half_even_minus: "round_half_even (- x) = - round_half_even x"
proof (cases "x \<in> \<int>")
  case True
  then obtain n where "x = of_int n" by (rule Ints_cases)
  then show ?thesis using round_half_even_of_int [of "- n"] by simp
next
  case False
  then have x: "\<lfloor>- x\<rfloor> = - \<lfloor>x\<rfloor> - 1"
    by (metis Ints_of_int ceiling_altdef ceiling_def diff_minus_eq_add minus_diff_eq
        add.commute add_diff_cancel_left' minus_add_distrib uminus_add_conv_diff)
  show ?thesis unfolding round_half_even_def Let_def x by auto
qed

lemma fl_minus: "fl (- x) = - fl x"
  by (simp add: fl_def sig_round_def round_half_even_minus)

lemma fl_mono:
  assumes "x \<le> y"
  shows "fl x \<le> fl y"
proof -
  consider "0 < x" | "x \<le> 0" "0 \<le> y" | "y < 0" by linarith
  then show ?thesis
  proof cases
    case 1
    then show ?thesis using assms by (rule fl_mono_pos)
  next
    case 2
    then show ?thesis using fl_nonneg [of y] fl_nonpos [of x] by simp
  next
    case 3
    then have "fl (- y) \<le> fl (- x)" using assms by (intro fl_mono_pos) auto
    then show ?thesis by (simp add: fl_minus)
  qed
qed

section \<open>Float arithmetic\<close>

type_synonym pyfloat = rat

definition fadd :: "pyfloat \<Rightarrow> pyfloat \<Rightarrow> pyfloat" where "fadd x y = fl (x + y)"
definition fsub :: "pyfloat \<Rightarrow> pyfloat \<Rightarrow> pyfloat" where "fsub x y = fl (x - y)"
definition fmul :: "pyfloat \<Rightarrow> pyfloat \<Rightarrow> pyfloat" where "fmul x y = fl (x * y)"
definition fdiv :: "pyfloat \<Rightarrow> pyfloat \<Rightarrow> pyfloat" where "fdiv x y = fl (x / y)"

text \<open>
  \<^verbatim>\<open>sum\<close> of floats, as Python 3.12 (the version of the repository's image) computes it:
  a running total and a running compensation of the rounding errors, added at the end.
\<close>

definition sum_step :: "pyfloat \<times> pyfloat \<Rightarrow> pyfloat \<Rightarrow> pyfloat \<times> pyfloat" where
  "sum_step st x =
     (case st of (run, carry) \<Rightarrow>
        let t = fadd run x
        in (t, fadd carry (if \<bar>x\<bar> \<le> \<bar>run\<bar> then fadd (fsub run t) x else fadd (fsub x t) run)))"

fun fsum :: "pyfloat list \<Rightarrow> pyfloat" where
  "fsum [] = 0"
| "fsum (x # xs) = (case foldl sum_step (x, 0) xs of (run, carry) \<Rightarrow>
     if carry = 0 then run else fadd run carry)"

text \<open>\<^verbatim>\<open>round(x, n)\<close> of a float: the nearest decimal with \<open>n\<close> places (ties to even), read back.\<close>

definition pyround :: "pyfloat \<Rightarrow> nat \<Rightarrow> pyfloat" where
  "pyround x n = fl (of_int (round_half_even (x * 10 ^ n)) / 10 ^ n)"

lemma fadd_nonneg: "0 \<le> x \<Longrightarrow> 0 \<le> y \<Longrightarrow> 0 \<le> fadd x y"
  by (simp add: fadd_def fl_nonneg)

lemma fsub_nonneg: "y \<le> x \<Longrightarrow> 0 \<le> fsub x y"
  by (simp add: fsub_def fl_nonneg)

lemma fsub_self [simp]: "fsub x x = 0"
  by (simp add: fsub_def)

lemma fmul_nonneg: "0 \<le> x \<Longrightarrow> 0 \<le> y \<Longrightarrow> 0 \<le> fmul x y"
  by (simp add: fmul_def fl_nonneg)

lemma pyround_mono: "x \<le> y \<Longrightarrow> pyround x n \<le> pyround y n"
  unfolding pyround_def
  by (intro fl_mono divide_right_mono) (simp_all add: round_half_even_mono)

lemma pyround_of_int: "\<bar>m\<bar> < 2 ^ 53 \<Longrightarrow> pyround (of_int m) n = of_int m"
proof -
  assume m: "\<bar>m\<bar> < 2 ^ 53"
  have "(of_int m * 10 ^ n :: rat) = of_int (m * 10 ^ n)" by simp
  then have "round_half_even (of_int m * 10 ^ n) = m * 10 ^ n" by (simp only: round_half_even_of_int)
  then show ?thesis using m by (simp add: pyround_def fl_of_int)
qed

lemma fsub_le_self: "fl x = x \<Longrightarrow> 0 \<le> y \<Longrightarrow> fsub x y \<le> x"
  using fl_mono [of "x - y" x] by (simp add: fsub_def)

lemma pyround_nonneg: "0 \<le> x \<Longrightarrow> 0 \<le> pyround x n"
  by (simp add: pyround_def fl_nonneg round_half_even_nonneg)

section \<open>Decimal arithmetic\<close>

definition dadd :: "rat \<Rightarrow> rat \<Rightarrow> rat" where "dadd x y = dec (x + y)"
definition dsub :: "rat \<Rightarrow> rat \<Rightarrow> rat" where "dsub x y = dec (x - y)"
definition dmul :: "rat \<Rightarrow> rat \<Rightarrow> rat" where "dmul x y = dec (x * y)"

lemma dadd_nonneg: "0 \<le> x \<Longrightarrow> 0 \<le> y \<Longrightarrow> 0 \<le> dadd x y"
  by (simp add: dadd_def dec_nonneg)

lemma dmul_nonneg: "0 \<le> x \<Longrightarrow> 0 \<le> y \<Longrightarrow> 0 \<le> dmul x y"
  by (simp add: dmul_def dec_nonneg)

section \<open>Shortest decimal of a float\<close>

text \<open>The two decimals with \<open>n\<close> significant digits around \<open>x\<close>.\<close>

definition sig_floor :: "nat \<Rightarrow> rat \<Rightarrow> rat" where
  "sig_floor n x = (let e = ilog 10 \<bar>x\<bar> - int n + 1 in of_int \<lfloor>x / 10 powi e\<rfloor> * 10 powi e)"

definition sig_ceiling :: "nat \<Rightarrow> rat \<Rightarrow> rat" where
  "sig_ceiling n x = (let e = ilog 10 \<bar>x\<bar> - int n + 1 in of_int \<lceil>x / 10 powi e\<rceil> * 10 powi e)"

definition repr_candidates :: "nat \<Rightarrow> rat \<Rightarrow> rat list" where
  "repr_candidates n x = filter (\<lambda>c. fl c = x)
     (let d = sig_floor n x; u = sig_ceiling n x
      in if \<bar>x - d\<bar> \<le> \<bar>u - x\<bar> then [d, u] else [u, d])"

definition repr_dec :: "pyfloat \<Rightarrow> rat" where
  "repr_dec x = (if x = 0 then 0
     else (case concat (map (\<lambda>n. repr_candidates n x) [1..<18]) of [] \<Rightarrow> x | c # _ \<Rightarrow> c))"

text \<open>Printing a float and reading the decimal back gives the float.\<close>

lemma fl_repr_dec:
  assumes "fl x = x"
  shows "fl (repr_dec x) = x"
proof (cases "x = 0 \<or> concat (map (\<lambda>n. repr_candidates n x) [1..<18]) = []")
  case True
  then show ?thesis using assms by (auto simp: repr_dec_def simp del: concat_eq_Nil_conv)
next
  case False
  then obtain c cs where cs: "concat (map (\<lambda>n. repr_candidates n x) [1..<18]) = c # cs"
    by (meson neq_Nil_conv)
  then have "c \<in> set (concat (map (\<lambda>n. repr_candidates n x) [1..<18]))" by simp
  then have "fl c = x" by (auto simp: repr_candidates_def)
  then show ?thesis using False cs by (simp add: repr_dec_def)
qed

lemma sig_floor_nonneg: "0 \<le> x \<Longrightarrow> 0 \<le> sig_floor n x"
  by (simp add: sig_floor_def Let_def)

lemma sig_ceiling_nonneg: "0 \<le> x \<Longrightarrow> 0 \<le> sig_ceiling n x"
proof -
  assume "0 \<le> x"
  then have "0 \<le> x / 10 powi (ilog 10 \<bar>x\<bar> - int n + 1)" by simp
  then have "0 \<le> \<lceil>x / 10 powi (ilog 10 \<bar>x\<bar> - int n + 1)\<rceil>" by linarith
  then show ?thesis by (simp add: sig_ceiling_def Let_def)
qed

lemma repr_candidates_nonneg:
  assumes "0 \<le> x" "c \<in> set (repr_candidates n x)"
  shows "0 \<le> c"
proof -
  have "c = sig_floor n x \<or> c = sig_ceiling n x"
    using assms(2) by (auto simp: repr_candidates_def Let_def split: if_splits)
  then show ?thesis using assms(1) sig_floor_nonneg sig_ceiling_nonneg by metis
qed

lemma repr_dec_nonneg: "0 \<le> x \<Longrightarrow> 0 \<le> repr_dec x"
proof -
  assume x: "0 \<le> x"
  let ?L = "concat (map (\<lambda>n. repr_candidates n x) [1..<18])"
  have nn: "\<And>c. c \<in> set ?L \<Longrightarrow> 0 \<le> c"
    using repr_candidates_nonneg [OF x] by auto
  show ?thesis
  proof (cases ?L)
    case Nil
    then show ?thesis using x by (simp add: repr_dec_def del: concat_eq_Nil_conv)
  next
    case (Cons c cs)
    then have "0 \<le> c" using nn by (metis list.set_intros(1))
    then show ?thesis using Cons by (simp add: repr_dec_def)
  qed
qed

text \<open>An integer below \<open>10 ^ 15\<close> prints as itself.\<close>

lemma int_times_powi:
  "0 \<le> e \<Longrightarrow> \<exists>i :: int. of_int z * (10 :: rat) powi e = of_int i"
  by (metis of_int_mult of_int_numeral of_int_power power_int_def)

lemma sig_bounds_int:
  fixes m :: int
  assumes m: "0 < m" "m < 10 ^ 15" and c: "c = sig_floor n (of_int m) \<or> c = sig_ceiling n (of_int m)"
  shows "fl c = c"
proof -
  let ?x = "of_int m :: rat"
  define e where "e = ilog 10 \<bar>?x\<bar> - int n + 1"
  have cz: "\<exists>z. c = of_int z * 10 powi e \<and> (z = \<lfloor>?x / 10 powi e\<rfloor> \<or> z = \<lceil>?x / 10 powi e\<rceil>)"
    using c by (auto simp: sig_floor_def sig_ceiling_def Let_def e_def)
  then obtain z where z: "c = of_int z * 10 powi e" "z = \<lfloor>?x / 10 powi e\<rfloor> \<or> z = \<lceil>?x / 10 powi e\<rceil>"
    by blast
  have il: "ilog 10 \<bar>?x\<bar> < 15"
    using m by (intro ilog_le) (simp_all flip: of_int_power)
  show ?thesis
  proof (cases "0 \<le> e")
    case True
    have e15: "e \<le> 15" using il by (simp add: e_def)
    obtain i where i: "c = of_int i" using int_times_powi [OF True, of z] z by auto
    have p: "(10::rat) powi e \<le> 10 ^ 15"
      using True e15 power_int_increasing [of e 15 "10::rat"] by simp
    have p0: "(0::rat) < 10 powi e" by simp
    define q where "q = ?x / 10 powi e"
    have d: "q * 10 powi e = ?x" by (simp add: q_def)
    have "of_int z \<le> q + 1" "q - 1 \<le> of_int z"
      using z(2) unfolding q_def by linarith+
    then have "of_int z * 10 powi e \<le> (q + 1) * 10 powi e" "(q - 1) * 10 powi e \<le> of_int z * 10 powi e"
      using p0 by (simp_all add: mult_right_mono)
    then have "c \<le> ?x + 10 powi e" "?x - 10 powi e \<le> c"
      using d z(1) by (simp_all add: distrib_right left_diff_distrib)
    moreover have "0 < ?x" "?x < 10 ^ 15" using m by (simp_all flip: of_int_power)
    ultimately have "c < 2 * 10 ^ 15" "- (10 ^ 15) < c" using p by linarith+
    then have "i < 2 * 10 ^ 15" "- (10 ^ 15) < i"
      using i by (simp_all flip: of_int_power of_int_minus of_int_mult)
    then have "\<bar>i\<bar> < 2 ^ 53" by simp
    then show ?thesis using fl_of_int i by simp
  next
    case False
    then have "10 powi e = inverse ((10 :: rat) ^ nat (- e))"
      by (simp only: power_int_def if_False power_inverse)
    then have "?x / 10 powi e = of_int (m * 10 ^ nat (- e))" by (simp add: divide_inverse)
    then have "of_int z = ?x / 10 powi e" using z(2) by (metis ceiling_of_int floor_of_int)
    then have "c = ?x / 10 powi e * 10 powi e" using z(1) by (simp only:)
    then have "c = ?x" by (simp only: nonzero_eq_divide_eq [symmetric]) simp
    then show ?thesis using m by (simp add: fl_of_int)
  qed
qed

lemma repr_dec_int:
  fixes m :: int
  assumes m: "0 < m" "m < 10 ^ 15"
  shows "repr_dec (of_int m) = of_int m"
proof -
  let ?x = "of_int m :: rat"
  let ?L = "concat (map (\<lambda>n. repr_candidates n ?x) [1..<18])"
  have all: "c = ?x" if "c \<in> set ?L" for c
  proof -
    from that obtain n where "c \<in> set (repr_candidates n ?x)" by auto
    then have "(c = sig_floor n ?x \<or> c = sig_ceiling n ?x) \<and> fl c = ?x"
      by (auto simp: repr_candidates_def Let_def split: if_splits)
    then show ?thesis using sig_bounds_int [OF m] by metis
  qed
  show ?thesis
  proof (cases ?L)
    case Nil
    then show ?thesis using m by (simp add: repr_dec_def del: concat_eq_Nil_conv)
  next
    case (Cons c cs)
    then have "c = ?x" using all by (metis list.set_intros(1))
    then show ?thesis using Cons m by (simp add: repr_dec_def)
  qed
qed

lemma repr_dec_numeral [simp]:
  "(numeral n :: int) < 10 ^ 15 \<Longrightarrow> repr_dec (numeral n) = numeral n"
  using repr_dec_int [of "numeral n"] by simp

text \<open>Powers of ten that a double holds print as themselves.\<close>

lemma powi_between:
  assumes "(10 :: rat) powi i \<le> 10 powi j" "(10 :: rat) powi j < 10 powi (i + 1)"
  shows "i = j"
proof (rule ccontr)
  assume "i \<noteq> j"
  then consider "j < i" | "i + 1 \<le> j" by linarith
  then show False
  proof cases
    case 1
    have "(10 :: rat) powi j < 10 powi i" by (rule power_int_strict_increasing [OF 1]) simp
    then show False using assms(1) by linarith
  next
    case 2
    have "(10 :: rat) powi (i + 1) \<le> 10 powi j" by (rule power_int_increasing [OF 2]) simp
    then show False using assms(2) by linarith
  qed
qed

lemma ilog_pow: "ilog 10 (10 ^ k) = int k"
proof (rule powi_between)
  have x: "(10 :: rat) powi int k = 10 ^ k" by (rule power_int_of_nat)
  have "1 < (10 :: nat)" "(0 :: rat) < 10 ^ k" by simp_all
  note b = ilog_bounds [OF this, unfolded of_nat_numeral]
  show "(10 :: rat) powi ilog 10 (10 ^ k) \<le> 10 powi int k" unfolding x by (rule b(1))
  show "(10 :: rat) powi int k < 10 powi (ilog 10 (10 ^ k) + 1)" unfolding x by (rule b(2))
qed

lemma repr_dec_pow:
  assumes "fl (10 ^ k) = 10 ^ k"
  shows "repr_dec (10 ^ k) = 10 ^ k"
proof -
  have "sig_floor 1 (10 ^ k) = 10 ^ k" "sig_ceiling 1 (10 ^ k) = 10 ^ k"
    by (simp_all add: sig_floor_def sig_ceiling_def ilog_pow)
  then have c: "repr_candidates 1 (10 ^ k) = [10 ^ k, 10 ^ k]" using assms by (simp add: repr_candidates_def Let_def)
  have "[1..<18] = 1 # [2..<18]" by (simp add: upt_rec)
  then show ?thesis using c by (simp add: repr_dec_def)
qed

text \<open>A Python value on its way into \<^verbatim>\<open>Decimal(str(v))\<close>: a float or a Decimal.\<close>

datatype pynum = FloatV pyfloat | DecimalV rat

fun to_decimal :: "pynum \<Rightarrow> rat" where
  "to_decimal (FloatV x) = repr_dec x"
| "to_decimal (DecimalV d) = d"

fun num_val :: "pynum \<Rightarrow> rat" where
  "num_val (FloatV x) = x"
| "num_val (DecimalV d) = d"

lemma to_decimal_nonneg: "0 \<le> num_val v \<Longrightarrow> 0 \<le> to_decimal v"
  by (cases v) (auto simp: repr_dec_nonneg)

end
