(* ===== verification/Trading_Service.thy ===== *)
theory Trading_Service
  imports Numerics
begin

text \<open>
  \<^verbatim>\<open>src/backend/services/trading_service.py\<close>: the quote cache with its failure
  memory, the executable price, the valuation mark, and the paper broker's fill
  rules. The Yahoo Finance calls (\<^verbatim>\<open>_live_quote\<close>, \<^verbatim>\<open>_fast_info_price\<close>,
  \<^verbatim>\<open>_last_close\<close>) are the argument \<open>fetch\<close> of the operations that use them.
\<close>

section \<open>Orders\<close>

datatype side = Buy | Sell

datatype order_type = MarketOrder | LimitOrder | StopOrder | StopLimitOrder

section \<open>Quote cache\<close>

record quote_cache =
  price_cache :: "(string, pyfloat \<times> pyfloat \<times> pyfloat option) dict"
  quote_failures :: "(string, pyfloat) dict"

datatype market_error = MarketDataUnavailable | StaleMarketData pyfloat "pyfloat option"

definition PRICE_CACHE_TTL :: pyfloat where "PRICE_CACHE_TTL = 20"
definition QUOTE_FAILURE_TTL :: pyfloat where "QUOTE_FAILURE_TTL = 20"
definition QUOTE_FAILURES_PRUNE_AT :: nat where "QUOTE_FAILURES_PRUNE_AT = 1024"

text \<open>What the provider gives: a live trade (price and exchange time), else an
  undated price, else nothing.\<close>

record fetched =
  live_quote :: "(pyfloat \<times> pyfloat) option"
  fast_info_price :: "pyfloat option"
  last_close :: "pyfloat option"

definition fresh_quote ::
  "quote_cache \<Rightarrow> string \<Rightarrow> pyfloat \<Rightarrow> market_error + (pyfloat \<times> pyfloat option) option" where
  "fresh_quote c asset now =
     (case dict_get (price_cache c) asset of
        Some (price, fetched_at, market_time) \<Rightarrow>
          if fsub now fetched_at < PRICE_CACHE_TTL then Inr (Some (price, market_time))
          else (case dict_get (quote_failures c) asset of
                  Some failed_at \<Rightarrow> if fsub now failed_at < QUOTE_FAILURE_TTL
                    then Inl MarketDataUnavailable else Inr None
                | None \<Rightarrow> Inr None)
      | None \<Rightarrow> (case dict_get (quote_failures c) asset of
                  Some failed_at \<Rightarrow> if fsub now failed_at < QUOTE_FAILURE_TTL
                    then Inl MarketDataUnavailable else Inr None
                | None \<Rightarrow> Inr None))"

definition remember_failure :: "quote_cache \<Rightarrow> string \<Rightarrow> pyfloat \<Rightarrow> quote_cache" where
  "remember_failure c asset now =
     (let kept = (if QUOTE_FAILURES_PRUNE_AT \<le> length (quote_failures c)
                  then filter (\<lambda>(k, failed_at). fsub now failed_at < QUOTE_FAILURE_TTL) (quote_failures c)
                  else quote_failures c)
      in c\<lparr>quote_failures := dict_set asset now kept\<rparr>)"

text \<open>\<^verbatim>\<open>a or b\<close> on an optional price: prices are positive, so only \<^verbatim>\<open>None\<close> is falsy here.\<close>

definition undated_price :: "fetched \<Rightarrow> pyfloat option" where
  "undated_price r = (case fast_info_price r of
      Some p \<Rightarrow> if p \<noteq> 0 then Some p else last_close r
    | None \<Rightarrow> last_close r)"

text \<open>\<open>now0\<close> and \<open>now\<close> are the two clock reads, before and after waiting for the
  asset's lock; \<open>c\<close> is the cache once the lock is held and \<open>c0\<close> before.\<close>

definition quote ::
  "(string \<Rightarrow> fetched) \<Rightarrow> quote_cache \<Rightarrow> quote_cache \<Rightarrow> string \<Rightarrow> pyfloat \<Rightarrow> pyfloat
     \<Rightarrow> quote_cache \<times> (market_error + pyfloat \<times> pyfloat option)" where
  "quote fetch c0 c asset now0 now =
     (case fresh_quote c0 asset now0 of
        Inl e \<Rightarrow> (c, Inl e)
      | Inr (Some q) \<Rightarrow> (c, Inr q)
      | Inr None \<Rightarrow>
         (case fresh_quote c asset now of
            Inl e \<Rightarrow> (c, Inl e)
          | Inr (Some q) \<Rightarrow> (c, Inr q)
          | Inr None \<Rightarrow>
             (case live_quote (fetch asset) of
                Some (price, market_time) \<Rightarrow>
                  (c\<lparr>price_cache := dict_set asset (price, now, Some market_time) (price_cache c),
                     quote_failures := dict_pop asset (quote_failures c)\<rparr>, Inr (price, Some market_time))
              | None \<Rightarrow>
                 (case undated_price (fetch asset) of
                    None \<Rightarrow> (remember_failure c asset now, Inl MarketDataUnavailable)
                  | Some price \<Rightarrow>
                     (c\<lparr>price_cache := dict_set asset (price, now, None) (price_cache c),
                        quote_failures := dict_pop asset (quote_failures c)\<rparr>, Inr (price, None))))))"

text \<open>\<open>max_age\<close> is \<^verbatim>\<open>MAX_QUOTE_AGE_SECONDS\<close>, \<open>now'\<close> the clock read after the quote.\<close>

definition get_last_price ::
  "pyfloat \<Rightarrow> (string \<Rightarrow> fetched) \<Rightarrow> quote_cache \<Rightarrow> quote_cache \<Rightarrow> string \<Rightarrow> pyfloat \<Rightarrow> pyfloat \<Rightarrow> pyfloat
     \<Rightarrow> quote_cache \<times> (market_error + pyfloat)" where
  "get_last_price max_age fetch c0 c asset now0 now now' =
     (case quote fetch c0 c asset now0 now of
        (c', Inl e) \<Rightarrow> (c', Inl e)
      | (c', Inr (price, market_time)) \<Rightarrow>
          (case market_time of
             None \<Rightarrow> (c', Inl (StaleMarketData price None))
           | Some mt \<Rightarrow> if max_age < fsub now' mt then (c', Inl (StaleMarketData price (Some mt)))
                        else (c', Inr price)))"

definition get_mark_price ::
  "pyfloat \<Rightarrow> (string \<Rightarrow> fetched) \<Rightarrow> quote_cache \<Rightarrow> quote_cache \<Rightarrow> string \<Rightarrow> pyfloat \<Rightarrow> pyfloat \<Rightarrow> pyfloat
     \<Rightarrow> quote_cache \<times> pyfloat option \<times> bool" where
  "get_mark_price max_age fetch c0 c asset now0 now now' =
     (case get_last_price max_age fetch c0 c asset now0 now now' of
        (c', Inr price) \<Rightarrow> (c', Some price, False)
      | (c', Inl (StaleMarketData price _)) \<Rightarrow> (c', Some price, True)
      | (c', Inl MarketDataUnavailable) \<Rightarrow>
          (c', map_option fst (dict_get (price_cache c') asset), True))"

section \<open>Fill rules\<close>

text \<open>The dict \<^verbatim>\<open>{"status": ..., "filled_price": ...}\<close>: \<open>Some p\<close> is FILLED at \<open>p\<close>,
  \<open>None\<close> is ACCEPTED with no price.\<close>

definition fill_digits :: "pyfloat \<Rightarrow> nat" where
  "fill_digits p = (if p < 1 then 6 else 2)"

definition sim_triggered :: "side \<Rightarrow> pyfloat option \<Rightarrow> pyfloat \<Rightarrow> bool" where
  "sim_triggered sd stop last_price =
     ((sd = Buy \<and> (case stop of None \<Rightarrow> False | Some s \<Rightarrow> s \<noteq> 0 \<and> s \<le> last_price)) \<or>
      (sd = Sell \<and> last_price \<le> (case stop of None \<Rightarrow> 0 | Some s \<Rightarrow> s)))"

definition simulate_fill ::
  "side \<Rightarrow> order_type \<Rightarrow> pyfloat option \<Rightarrow> pyfloat option \<Rightarrow> pyfloat \<Rightarrow> pyfloat option" where
  "simulate_fill sd ot limit_price stop_price last_price =
     (if ot = MarketOrder then Some last_price
      else if ot \<in> {StopOrder, StopLimitOrder} \<and> \<not> sim_triggered sd stop_price last_price then None
      else if ot = StopOrder then Some last_price
      else (case limit_price of
              None \<Rightarrow> Some last_price
            | Some limit \<Rightarrow>
                if (sd = Buy \<and> last_price \<le> limit) \<or> (sd = Sell \<and> limit \<le> last_price)
                then (let fill_px = (if sd = Buy then min last_price limit else max last_price limit)
                      in Some (pyround fill_px (fill_digits fill_px)))
                else None))"

definition check_pending_limit_fill :: "side \<Rightarrow> pyfloat \<Rightarrow> pyfloat \<Rightarrow> pyfloat option" where
  "check_pending_limit_fill sd limit_price last_price =
     (if sd = Buy \<and> last_price \<le> limit_price
      then Some (pyround (min last_price limit_price) (fill_digits last_price))
      else if sd = Sell \<and> limit_price \<le> last_price
      then Some (pyround (max last_price limit_price) (fill_digits last_price))
      else None)"

section \<open>What the cache promises\<close>

lemma fresh_quote_young:
  assumes "fresh_quote c asset now = Inr (Some (price, mt))"
  shows "\<exists>t. dict_get (price_cache c) asset = Some (price, t, mt) \<and> fsub now t < PRICE_CACHE_TTL"
  using assms by (auto simp: fresh_quote_def split: option.splits if_splits)

lemma fresh_quote_failure:
  assumes "fresh_quote c asset now = Inl e"
  shows "e = MarketDataUnavailable"
  using assms by (auto simp: fresh_quote_def split: option.splits if_splits)

lemma quote_error: "quote fetch c0 c asset now0 now = (c', Inl e) \<Longrightarrow> e = MarketDataUnavailable"
  by (auto simp: quote_def split: option.splits sum.splits prod.splits dest: fresh_quote_failure)

lemma get_last_price_Inr:
  assumes "get_last_price max_age fetch c0 c asset now0 now now' = (c', Inr price)"
  obtains mt where "quote fetch c0 c asset now0 now = (c', Inr (price, Some mt))"
    and "fsub now' mt \<le> max_age"
  using assms by (auto simp: get_last_price_def not_less split: prod.splits sum.splits option.splits if_splits)

text \<open>A failed fetch never replaces the last_price good observation.\<close>

lemma quote_keeps_observation:
  assumes "quote fetch c0 c asset now0 now = (c', Inl e)"
  shows "price_cache c' = price_cache c"
  using assms by (auto simp: quote_def remember_failure_def Let_def
      split: option.splits sum.splits prod.splits)

section \<open>What the fill rules promise\<close>

lemma simulate_fill_market: "simulate_fill sd MarketOrder l s last_price = Some last_price"
  by (simp add: simulate_fill_def)

lemma simulate_fill_stop:
  "simulate_fill sd StopOrder l s last_price = (if sim_triggered sd s last_price then Some last_price else None)"
  by (simp add: simulate_fill_def)

lemma simulate_fill_limit:
  "simulate_fill sd LimitOrder (Some l) s last_price =
     (case sd of Buy \<Rightarrow> if last_price \<le> l then Some (pyround last_price (fill_digits last_price)) else None
               | Sell \<Rightarrow> if l \<le> last_price then Some (pyround last_price (fill_digits last_price)) else None)"
  by (cases sd) (auto simp: simulate_fill_def Let_def min_def max_def)

lemma check_pending_eq_simulate:
  "check_pending_limit_fill sd l last_price = simulate_fill sd LimitOrder (Some l) s last_price"
  by (cases sd) (auto simp: check_pending_limit_fill_def simulate_fill_limit min_def max_def)

lemma pyround_below_one: "x < 1 \<Longrightarrow> pyround x 6 \<le> 1"
  using pyround_mono [of x 1 6] pyround_of_int [of 1 6] by simp

lemma pyround_above_one: "1 \<le> x \<Longrightarrow> 1 \<le> pyround x 2"
  using pyround_mono [of 1 x 2] pyround_of_int [of 1 2] by simp

lemma round_fill_le:
  assumes "last_price \<le> l" "pyround l (fill_digits l) = l"
  shows "pyround last_price (fill_digits last_price) \<le> l"
proof (cases "fill_digits last_price = fill_digits l")
  case True
  then show ?thesis using assms pyround_mono by metis
next
  case False
  with assms have "last_price < 1" "1 \<le> l" by (auto simp: fill_digits_def split: if_splits)
  then show ?thesis using pyround_below_one [of last_price] by (simp add: fill_digits_def)
qed

lemma round_fill_ge:
  assumes "l \<le> last_price" "pyround l (fill_digits l) = l"
  shows "l \<le> pyround last_price (fill_digits last_price)"
proof (cases "fill_digits last_price = fill_digits l")
  case True
  then show ?thesis using assms pyround_mono by metis
next
  case False
  with assms have "l < 1" "1 \<le> last_price" by (auto simp: fill_digits_def split: if_splits)
  then show ?thesis using pyround_above_one [of last_price] by (simp add: fill_digits_def)
qed

text \<open>
  C6: an order that carries a limit and fills, fills no worse than its limit,
  whenever the limit itself is a price the broker can print (two decimals, six
  below one dollar): a buy pays at most the limit, a sell receives at least it.
\<close>

theorem limit_fill_respects_limit:
  assumes "ot = LimitOrder \<or> ot = StopLimitOrder"
    and "pyround l (fill_digits l) = l"
    and "simulate_fill sd ot (Some l) s last_price = Some p"
  shows "(sd = Buy \<longrightarrow> p \<le> l) \<and> (sd = Sell \<longrightarrow> l \<le> p)"
proof -
  have "p = pyround last_price (fill_digits last_price)"
    and "sd = Buy \<longrightarrow> last_price \<le> l" and "sd = Sell \<longrightarrow> l \<le> last_price"
    using assms(1,3) by (auto simp: simulate_fill_def Let_def min_def max_def split: if_splits)
  then show ?thesis using assms(2) round_fill_le round_fill_ge by blast
qed

theorem limit_fill_respects_limit_witness:
  "simulate_fill Buy LimitOrder (Some 100) None 99 = Some 99 \<and> (99 :: rat) \<le> 100"
proof -
  have l: "pyround 100 (fill_digits 100) = (100 :: rat)" "pyround 99 (fill_digits 99) = (99 :: rat)"
    using pyround_of_int [of 100] pyround_of_int [of 99] by simp_all
  then have f: "simulate_fill Buy LimitOrder (Some 100) None 99 = Some 99"
    by (simp add: simulate_fill_limit)
  from limit_fill_respects_limit [OF _ l(1) f] f show ?thesis by simp
qed

text \<open>
  Without that proviso the promise in the code's comment fails: the fill price
  is rounded to cents after the comparison with the limit, so a buy limited at
  511/256 (1.99609375) executes at 2.00, above its limit.
\<close>

theorem limit_fill_rounds_above_limit:
  "simulate_fill Buy LimitOrder (Some (511/256)) None (511/256) = Some 2 \<and> (511/256 :: rat) < 2"
proof -
  have "\<lfloor>12775/64 :: rat\<rfloor> = 199" by (simp add: floor_eq_iff)
  then have "round_half_even (511/256 * 10 ^ 2) = 200"
    by (simp add: round_half_even_def Let_def)
  then have "pyround (511/256) 2 = 2" by (simp add: pyround_def)
  then show ?thesis by (simp add: simulate_fill_limit fill_digits_def)
qed

text \<open>
  An executable price is never older than the configured age: it comes with an
  exchange trade time within \<open>max_age\<close> of the clock, and is either the live trade
  just fetched or an observation cached less than the cache's lifetime ago.
\<close>

theorem executable_price_is_recent:
  assumes "get_last_price max_age fetch c0 c asset now0 now now' = (c', Inr price)"
  shows "\<exists>mt. fsub now' mt \<le> max_age \<and>
    (live_quote (fetch asset) = Some (price, mt) \<or>
     (\<exists>t. dict_get (price_cache c0) asset = Some (price, t, Some mt) \<and> fsub now0 t < PRICE_CACHE_TTL) \<or>
     (\<exists>t. dict_get (price_cache c) asset = Some (price, t, Some mt) \<and> fsub now t < PRICE_CACHE_TTL))"
proof -
  obtain mt where q: "quote fetch c0 c asset now0 now = (c', Inr (price, Some mt))"
    and age: "fsub now' mt \<le> max_age"
    using get_last_price_Inr [OF assms] .
  have "live_quote (fetch asset) = Some (price, mt) \<or>
     fresh_quote c0 asset now0 = Inr (Some (price, Some mt)) \<or>
     fresh_quote c asset now = Inr (Some (price, Some mt))"
    using q by (auto simp: quote_def split: option.splits sum.splits prod.splits)
  then show ?thesis using age fresh_quote_young by blast
qed

theorem executable_price_is_recent_witness:
  "\<exists>mt. fsub 1100 mt \<le> 1200 \<and> live_quote (\<lparr>live_quote = Some (5, 1000), fast_info_price = None, last_close = None\<rparr>) = Some (5 :: rat, mt)"
proof -
  let ?c = "\<lparr>price_cache = [], quote_failures = []\<rparr> :: quote_cache"
  let ?r = "\<lparr>live_quote = Some (5, 1000), fast_info_price = None, last_close = None\<rparr> :: fetched"
  have "get_last_price 1200 (\<lambda>_. ?r) ?c ?c ''X'' 1100 1100 1100 =
      (\<lparr>price_cache = [(''X'', 5, 1100, Some 1000)], quote_failures = []\<rparr>, Inr 5)"
    by (simp add: get_last_price_def quote_def fresh_quote_def fsub_def dict_pop_def)
  from executable_price_is_recent [OF this] show ?thesis by auto
qed

end
