(* ===== verification/Portfolio_Service.thy ===== *)
theory Portfolio_Service
  imports Trading_Service
begin

text \<open>
  The trading tables of \<^verbatim>\<open>src/backend/models.py\<close> and
  \<^verbatim>\<open>src/backend/services/portfolio_service.py\<close>: the positions projection rebuilt
  from filled trades, marked positions, the equity curve and round-trip counts.
  Numeric columns hold exact decimals (\<open>rat\<close>); \<open>num\<close>, the database driver's
  conversion of a float parameter to a numeric value, is an argument of the
  operations that store floats. Row ids and the columns no modelled operation
  reads (signature text, broker id) are left out.
\<close>

section \<open>Tables\<close>

datatype trade_status = PENDING | ACCEPTED | FILLED | CANCELLED | REJECTED | EXPIRED

record trade =
  t_id :: string
  t_user :: string
  t_asset :: string
  t_side :: side
  t_quantity :: rat
  t_order_type :: order_type
  t_limit :: "rat option"
  t_stop :: "rat option"
  t_tif :: string
  t_status :: trade_status
  t_filled_price :: "rat option"
  t_submitted_at :: int
  t_filled_at :: "int option"

record position =
  p_user :: string
  p_asset :: string
  p_quantity :: rat
  p_avg_entry :: rat
  p_realized :: rat

record account =
  a_user :: string
  cash_micros :: int
  reserved_micros :: int
  a_updated_at :: int

record broker_db =
  accounts :: "account list"
  trades :: "trade list"
  positions :: "position list"

text \<open>\<^verbatim>\<open>ORDER BY filled_at\<close>: ascending, NULLs last, ties in table order.\<close>

definition by_filled_at :: "trade list \<Rightarrow> trade list" where
  "by_filled_at ts =
     sort_key (\<lambda>t. the (t_filled_at t)) (filter (\<lambda>t. t_filled_at t \<noteq> None) ts)
       @ filter (\<lambda>t. t_filled_at t = None) ts"

definition filled_trades :: "broker_db \<Rightarrow> string \<Rightarrow> trade list" where
  "filled_trades d u = by_filled_at (filter (\<lambda>t. t_user t = u \<and> t_status t = FILLED) (trades d))"

section \<open>Positions rebuild\<close>

record book_entry =
  b_qty :: pyfloat
  b_cost :: pyfloat
  b_realized :: pyfloat

text \<open>\<^verbatim>\<open>float(t.quantity)\<close> and \<^verbatim>\<open>float(t.filled_price or 0)\<close>.\<close>

definition trade_qty :: "trade \<Rightarrow> pyfloat" where
  "trade_qty t = fl (t_quantity t)"

definition trade_price :: "trade \<Rightarrow> pyfloat" where
  "trade_price t = (case t_filled_price t of None \<Rightarrow> 0 | Some p \<Rightarrow> fl p)"

definition book_apply :: "book_entry \<Rightarrow> trade \<Rightarrow> book_entry" where
  "book_apply b t =
     (let qty = trade_qty t; price = trade_price t
      in if t_side t = Buy
         then b\<lparr>b_cost := fadd (b_cost b) (fmul qty price), b_qty := fadd (b_qty b) qty\<rparr>
         else let avg_cost = (if b_qty b \<noteq> 0 then fdiv (b_cost b) (b_qty b) else 0);
                  sell_qty = min qty (b_qty b);
                  qty' = fsub (b_qty b) sell_qty
              in b\<lparr>b_realized := fadd (b_realized b) (fmul (fsub price avg_cost) sell_qty),
                   b_qty := qty', b_cost := fmul avg_cost (max 0 qty')\<rparr>)"

definition book_step :: "(string, book_entry) dict \<Rightarrow> trade \<Rightarrow> (string, book_entry) dict" where
  "book_step book t =
     dict_set (t_asset t)
       (book_apply (case dict_get book (t_asset t) of
                      Some b \<Rightarrow> b | None \<Rightarrow> \<lparr>b_qty = 0, b_cost = 0, b_realized = 0\<rparr>) t) book"

definition position_rows :: "(pyfloat \<Rightarrow> rat) \<Rightarrow> string \<Rightarrow> (string, book_entry) dict \<Rightarrow> position list" where
  "position_rows num u book =
     map (\<lambda>(asset, b). \<lparr>p_user = u, p_asset = asset, p_quantity = num (pyround (b_qty b) 6),
              p_avg_entry = num (pyround (fdiv (b_cost b) (b_qty b)) 4),
              p_realized = num (pyround (b_realized b) 2)\<rparr>)
       (filter (\<lambda>(asset, b). 0 < b_qty b) book)"

definition rebuild_positions :: "(pyfloat \<Rightarrow> rat) \<Rightarrow> string \<Rightarrow> broker_db \<Rightarrow> broker_db" where
  "rebuild_positions num u d =
     d\<lparr>positions := filter (\<lambda>p. p_user p \<noteq> u) (positions d)
         @ position_rows num u (foldl book_step [] (filled_trades d u))\<rparr>"

definition recompute_positions :: "(pyfloat \<Rightarrow> rat) \<Rightarrow> string \<Rightarrow> broker_db session \<Rightarrow> broker_db session" where
  "recompute_positions num u s = commit (upd (rebuild_positions num u) s)"

section \<open>Marked positions\<close>

record position_view =
  v_asset :: string
  v_quantity :: pyfloat
  v_avg_entry :: pyfloat
  v_current_price :: pyfloat
  v_stale :: bool
  v_unrealized :: pyfloat
  v_realized :: pyfloat
  v_market_value :: pyfloat

text \<open>\<open>mark\<close> is \<^verbatim>\<open>trading_service.get_mark_price\<close> at the time of the read.\<close>

definition get_positions_with_pnl ::
  "(string \<Rightarrow> pyfloat option \<times> bool) \<Rightarrow> broker_db \<Rightarrow> string \<Rightarrow> position_view list" where
  "get_positions_with_pnl mark d u =
     map (\<lambda>p. let quantity = fl (p_quantity p); avg_entry = fl (p_avg_entry p);
                  m = mark (p_asset p);
                  current = (case fst m of None \<Rightarrow> avg_entry | Some c \<Rightarrow> c)
              in \<lparr>v_asset = p_asset p, v_quantity = quantity, v_avg_entry = avg_entry,
                  v_current_price = current, v_stale = snd m,
                  v_unrealized = pyround (fmul (fsub current avg_entry) quantity) 2,
                  v_realized = fl (p_realized p),
                  v_market_value = pyround (fmul current quantity) 2\<rparr>)
       (filter (\<lambda>p. p_user p = u \<and> 0 < p_quantity p) (positions d))"

section \<open>Equity curve\<close>

definition last_fills :: "trade list \<Rightarrow> (string, pyfloat) dict" where
  "last_fills ts = foldl (\<lambda>m t. dict_set (t_asset t) (trade_price t) m) [] ts"

definition current_prices ::
  "(string \<Rightarrow> pyfloat option \<times> bool) \<Rightarrow> (string, pyfloat) dict \<Rightarrow> (string, pyfloat) dict" where
  "current_prices mark fills =
     map (\<lambda>(asset, p). (asset, case fst (mark asset) of Some m \<Rightarrow> m | None \<Rightarrow> p)) fills"

text \<open>One trade: cash equity and the held quantities.\<close>

definition curve_apply ::
  "pyfloat \<times> (string, pyfloat) dict \<Rightarrow> trade \<Rightarrow> pyfloat \<times> (string, pyfloat) dict" where
  "curve_apply st t =
     (case st of (equity, book) \<Rightarrow>
       let qty = trade_qty t; price = trade_price t;
           held = (case dict_get book (t_asset t) of Some h \<Rightarrow> h | None \<Rightarrow> 0)
       in if t_side t = Buy
          then (fsub equity (fmul qty price), dict_set (t_asset t) (fadd held qty) book)
          else let sell_qty = min qty held
               in (fadd equity (fmul sell_qty price), dict_set (t_asset t) (fsub held sell_qty) book))"

definition open_value :: "(string, pyfloat) dict \<Rightarrow> (string, pyfloat) dict \<Rightarrow> pyfloat" where
  "open_value prices book =
     fsum (map (\<lambda>(asset, q). fmul q (case dict_get prices asset of Some p \<Rightarrow> p | None \<Rightarrow> 0))
            (filter (\<lambda>(asset, q). 0 < q) book))"

fun curve_points ::
  "(string, pyfloat) dict \<Rightarrow> pyfloat \<times> (string, pyfloat) dict \<Rightarrow> trade list \<Rightarrow> pyfloat list" where
  "curve_points prices st [] = []"
| "curve_points prices st (t # ts) =
     (let st' = curve_apply st t
      in fadd (fst st') (open_value prices (snd st')) # curve_points prices st' ts)"

definition equity_curve_from_trades ::
  "(string \<Rightarrow> pyfloat option \<times> bool) \<Rightarrow> broker_db \<Rightarrow> string \<Rightarrow> pyfloat \<Rightarrow> pyfloat list" where
  "equity_curve_from_trades mark d u starting_capital =
     (let ts = filled_trades d u
      in starting_capital # curve_points (current_prices mark (last_fills ts)) (starting_capital, []) ts)"

section \<open>Round trips\<close>

definition round_trip_step ::
  "(string, pyfloat \<times> pyfloat) dict \<times> nat \<times> nat \<Rightarrow> trade \<Rightarrow> (string, pyfloat \<times> pyfloat) dict \<times> nat \<times> nat" where
  "round_trip_step st t =
     (case st of (book, wins, n_closed) \<Rightarrow>
       let qty = trade_qty t; price = trade_price t;
           cur = (case dict_get book (t_asset t) of Some c \<Rightarrow> c | None \<Rightarrow> (0, 0))
       in if t_side t = Buy
          then (dict_set (t_asset t) (fadd (fst cur) qty, fadd (snd cur) (fmul qty price)) book, wins, n_closed)
          else if 0 < fst cur
          then let avg = fdiv (snd cur) (fst cur); remaining = max 0 (fsub (fst cur) qty)
               in (dict_set (t_asset t) (remaining, fmul avg remaining) book,
                   (if avg < price then wins + 1 else wins), n_closed + 1)
          else (book, wins, n_closed))"

definition closed_trade_results :: "trade list \<Rightarrow> nat \<times> nat" where
  "closed_trade_results ts = snd (foldl round_trip_step ([], 0, 0) ts)"

section \<open>Maximum drawdown\<close>

definition drawdown_step :: "pyfloat \<times> pyfloat \<Rightarrow> pyfloat \<Rightarrow> pyfloat \<times> pyfloat" where
  "drawdown_step st v =
     (let peak = max (fst st) v;
          dd = (if peak \<noteq> 0 then fdiv (fsub peak v) peak else 0)
      in (peak, max (snd st) dd))"

definition max_drawdown :: "pyfloat list \<Rightarrow> pyfloat" where
  "max_drawdown curve = (case curve of [] \<Rightarrow> 0 | v # _ \<Rightarrow> snd (foldl drawdown_step (v, 0) curve))"

section \<open>Lemmas\<close>

lemma by_filled_at_set [simp]: "set (by_filled_at ts) = set ts"
  by (auto simp: by_filled_at_def)

lemma rebuild_frame [simp]:
  "accounts (rebuild_positions num u d) = accounts d"
  "trades (rebuild_positions num u d) = trades d"
  by (simp_all add: rebuild_positions_def)

lemma filled_trades_frame [simp]:
  "filled_trades (d\<lparr>accounts := a\<rparr>) u = filled_trades d u"
  "filled_trades (d\<lparr>positions := ps\<rparr>) u = filled_trades d u"
  by (simp_all add: filled_trades_def)

text \<open>The rebuilt book never holds a negative quantity.\<close>

lemma book_apply_nonneg:
  assumes "0 \<le> b_qty b" "0 \<le> t_quantity t"
  shows "0 \<le> b_qty (book_apply b t)"
  using assms by (auto simp: book_apply_def Let_def trade_qty_def fadd_nonneg fl_nonneg fsub_nonneg)

definition book_nonneg :: "(string, book_entry) dict \<Rightarrow> bool" where
  "book_nonneg book \<longleftrightarrow> (\<forall>asset b. dict_get book asset = Some b \<longrightarrow> 0 \<le> b_qty b)"

lemma book_step_nonneg:
  assumes "book_nonneg book" "0 \<le> t_quantity t"
  shows "book_nonneg (book_step book t)"
  using assms unfolding book_nonneg_def book_step_def
  by (auto intro!: book_apply_nonneg split: option.splits)

lemma book_fold_nonneg:
  "book_nonneg book \<Longrightarrow> (\<And>t. t \<in> set ts \<Longrightarrow> 0 \<le> t_quantity t) \<Longrightarrow> book_nonneg (foldl book_step book ts)"
  by (induction ts arbitrary: book) (auto simp: book_step_nonneg)

lemma book_step_wf: "wf_dict book \<Longrightarrow> wf_dict (book_step book t)"
  by (simp add: book_step_def)

lemma book_fold_wf: "wf_dict book \<Longrightarrow> wf_dict (foldl book_step book ts)"
  by (induction ts arbitrary: book) (auto simp: book_step_wf)

lemma position_rows_assets:
  "map p_asset (position_rows num u book) = dict_keys (filter (\<lambda>(asset, b). 0 < b_qty b) book)"
  by (auto simp: position_rows_def dict_keys_def)

lemma wf_dict_filter: "wf_dict d \<Longrightarrow> wf_dict (filter P d)"
  by (simp add: wf_dict_def dict_keys_def distinct_map_filter)

lemma position_rows_distinct: "wf_dict book \<Longrightarrow> distinct (map p_asset (position_rows num u book))"
  using wf_dict_filter [of book "\<lambda>(asset, b). 0 < b_qty b"]
  by (simp add: position_rows_assets wf_dict_def)

lemma max_drawdown_fold_nonneg: "0 \<le> m \<Longrightarrow> 0 \<le> snd (foldl drawdown_step (p, m) vs)"
  by (induction vs arbitrary: p m) (auto simp: drawdown_step_def Let_def)

lemma round_trip_wins_le: "snd (foldl round_trip_step (book, w, c) ts) = (w', c') \<Longrightarrow> w \<le> c \<Longrightarrow> w' \<le> c'"
proof (induction ts arbitrary: book w c)
  case (Cons t ts)
  obtain book1 w1 c1 where st: "round_trip_step (book, w, c) t = (book1, w1, c1)"
    by (metis prod_cases3)
  then have "w1 \<le> c1" using Cons.prems(2)
    by (auto simp: round_trip_step_def Let_def split: if_splits)
  then show ?case using Cons st by simp
qed simp

lemma length_curve_points: "length (curve_points prices st ts) = length ts"
  by (induction ts arbitrary: st) (auto simp: Let_def)

end
