(* ===== verification/Paper_Broker.thy ===== *)
theory Paper_Broker
  imports Portfolio_Service
begin

text \<open>
  \<^verbatim>\<open>src/backend/services/paper_broker.py\<close>: the cash ledger in integer micro-dollars,
  reservations, the compare-and-set order transitions, fills and the resting-order
  sweeper; and the part of \<^verbatim>\<open>main.place_order\<close> and \<^verbatim>\<open>main.cancel_order\<close> that
  writes the ledger. An operation takes a session and the ORM object it was
  handed: the object's column values may be older than the row, which is how a
  race with another process appears. Clock readings are arguments.
\<close>

section \<open>Money\<close>

definition to_micros :: "pynum \<Rightarrow> int" where
  "to_micros amount = round_half_up (dmul (to_decimal amount) 1000000)"

definition from_micros :: "int \<Rightarrow> pyfloat" where
  "from_micros m = fl (dec (of_int m / 1000000))"

definition notional_micros :: "pynum \<Rightarrow> pynum \<Rightarrow> int" where
  "notional_micros quantity price = to_micros (DecimalV (dmul (to_decimal quantity) (to_decimal price)))"

definition reservation_micros ::
  "side \<Rightarrow> pynum \<Rightarrow> order_type \<Rightarrow> pynum option \<Rightarrow> pynum option \<Rightarrow> pynum option \<Rightarrow> int" where
  "reservation_micros sd quantity ot limit_price stop_price market_price =
     (if sd \<noteq> Buy then 0
      else let reference = (if ot \<in> {LimitOrder, StopLimitOrder} then limit_price
                            else if ot = StopOrder then stop_price
                            else market_price)
           in (case reference of None \<Rightarrow> 0 | Some r \<Rightarrow> notional_micros quantity r))"

definition trade_reservation_micros :: "trade \<Rightarrow> int" where
  "trade_reservation_micros t =
     (if t_order_type t = MarketOrder then 0
      else reservation_micros (t_side t) (DecimalV (t_quantity t)) (t_order_type t)
             (map_option DecimalV (t_limit t)) (map_option DecimalV (t_stop t)) None)"

definition open_status :: "trade_status \<Rightarrow> bool" where
  "open_status st \<longleftrightarrow> st = PENDING \<or> st = ACCEPTED"

section \<open>Account\<close>

text \<open>The fold over the user's trades that opens a ledger row.\<close>

definition migrate_trade :: "int \<times> int \<Rightarrow> trade \<Rightarrow> int \<times> int" where
  "migrate_trade st t =
     (case st of (cash, reserved) \<Rightarrow>
       (case (t_status t, t_filled_price t) of
          (FILLED, Some p) \<Rightarrow>
            let amount = notional_micros (DecimalV (t_quantity t)) (DecimalV p)
            in (if t_side t = Sell then cash + amount else cash - amount, reserved)
        | _ \<Rightarrow> if open_status (t_status t) then (cash, reserved + trade_reservation_micros t)
               else (cash, reserved)))"

text \<open>\<open>concurrent\<close> is the row another request committed between the read and the
  insert, if any: the insert then violates the primary key and is rolled back.\<close>

definition get_or_create_account ::
  "pyfloat \<Rightarrow> account option \<Rightarrow> int \<Rightarrow> broker_db session \<Rightarrow> string \<Rightarrow> broker_db session \<times> account option" where
  "get_or_create_account initial_cash concurrent now s u =
     (case find_row a_user u (accounts (working s)) of
        Some a \<Rightarrow> (s, Some a)
      | None \<Rightarrow>
         (let (cash0, reserved) = foldl migrate_trade (to_micros (FloatV initial_cash), 0)
                                    (filter (\<lambda>t. t_user t = u) (trades (working s)));
              cash = max 0 cash0;
              row = \<lparr>a_user = u, cash_micros = cash, reserved_micros = min reserved cash, a_updated_at = now\<rparr>;
              s' = (case concurrent of
                      None \<Rightarrow> commit (upd (\<lambda>d. d\<lparr>accounts := accounts d @ [row]\<rparr>) s)
                    | Some other \<Rightarrow>
                        (let s0 = rollback s
                         in s0\<lparr>committed := (committed s0)\<lparr>accounts := accounts (committed s0) @ [other]\<rparr>,
                               working := (working s0)\<lparr>accounts := accounts (working s0) @ [other]\<rparr>\<rparr>))
          in (s', find_row a_user u (accounts (working s')))))"

definition reserve_guard :: "string \<Rightarrow> int \<Rightarrow> account \<Rightarrow> bool" where
  "reserve_guard u amount a \<longleftrightarrow> a_user a = u \<and> amount \<le> cash_micros a - reserved_micros a"

definition try_reserve :: "int \<Rightarrow> broker_db session \<Rightarrow> string \<Rightarrow> int \<Rightarrow> broker_db session \<times> bool" where
  "try_reserve now s u amount =
     (if amount \<le> 0 then (s, True)
      else (upd (\<lambda>d. d\<lparr>accounts := sql_update (reserve_guard u amount)
                  (\<lambda>a. a\<lparr>reserved_micros := reserved_micros a + amount, a_updated_at := now\<rparr>) (accounts d)\<rparr>) s,
            rowcount (reserve_guard u amount) (accounts (working s)) = 1))"

definition released :: "int \<Rightarrow> account \<Rightarrow> int" where
  "released amount a = (if amount \<le> reserved_micros a then reserved_micros a - amount else 0)"

definition release_stmt :: "int \<Rightarrow> string \<Rightarrow> int \<Rightarrow> broker_db \<Rightarrow> broker_db" where
  "release_stmt now u amount d =
     d\<lparr>accounts := sql_update (\<lambda>a. a_user a = u)
         (\<lambda>a. a\<lparr>reserved_micros := released amount a, a_updated_at := now\<rparr>) (accounts d)\<rparr>"

section \<open>Order transitions\<close>

definition cas_guard :: "string \<Rightarrow> trade \<Rightarrow> bool" where
  "cas_guard i t \<longleftrightarrow> t_id t = i \<and> open_status (t_status t)"

definition cas_status ::
  "broker_db session \<Rightarrow> string \<Rightarrow> (trade \<Rightarrow> trade) \<Rightarrow> broker_db session \<times> bool" where
  "cas_status s i f =
     (upd (\<lambda>d. d\<lparr>trades := sql_update (cas_guard i) f (trades d)\<rparr>) s,
      rowcount (cas_guard i) (trades (working s)) = 1)"

definition default_reserved :: "int option \<Rightarrow> trade \<Rightarrow> int" where
  "default_reserved reserved t = (case reserved of None \<Rightarrow> trade_reservation_micros t | Some r \<Rightarrow> r)"

definition close_order ::
  "int \<Rightarrow> broker_db session \<Rightarrow> trade \<Rightarrow> trade_status \<Rightarrow> int option \<Rightarrow> broker_db session \<times> bool" where
  "close_order now s t to_status reserved =
     (let r = default_reserved reserved t;
          (s1, won) = cas_status s (t_id t) (\<lambda>x. x\<lparr>t_status := to_status\<rparr>)
      in if \<not> won then (rollback s1, False)
         else (commit (if 0 < r then upd (release_stmt now (t_user t) r) s1 else s1), True))"

definition accept_guard :: "string \<Rightarrow> trade \<Rightarrow> bool" where
  "accept_guard i t \<longleftrightarrow> t_id t = i \<and> t_status t = PENDING"

definition accept_order :: "broker_db session \<Rightarrow> trade \<Rightarrow> broker_db session \<times> bool" where
  "accept_order s t =
     (commit (upd (\<lambda>d. d\<lparr>trades := sql_update (accept_guard (t_id t)) (\<lambda>x. x\<lparr>t_status := ACCEPTED\<rparr>) (trades d)\<rparr>) s),
      rowcount (accept_guard (t_id t)) (trades (working s)) = 1)"

datatype fill_outcome = Filled | NotOpen | Rejected string

definition held_step :: "rat \<Rightarrow> trade \<Rightarrow> rat" where
  "held_step held t =
     (if t_side t = Buy then dadd held (t_quantity t) else max 0 (dsub held (t_quantity t)))"

definition held_quantity :: "broker_db \<Rightarrow> string \<Rightarrow> string \<Rightarrow> string option \<Rightarrow> rat" where
  "held_quantity d u asset exclude =
     foldl held_step 0 (by_filled_at
       (filter (\<lambda>t. t_user t = u \<and> t_asset t = asset \<and> t_status t = FILLED
                  \<and> (case exclude of None \<Rightarrow> True | Some i \<Rightarrow> t_id t \<noteq> i)) (trades d)))"

definition pay_guard :: "string \<Rightarrow> int \<Rightarrow> int \<Rightarrow> account \<Rightarrow> bool" where
  "pay_guard u cost reserved a \<longleftrightarrow> a_user a = u \<and> released reserved a \<le> cash_micros a - cost"

definition pay :: "int \<Rightarrow> string \<Rightarrow> int \<Rightarrow> int \<Rightarrow> broker_db \<Rightarrow> broker_db" where
  "pay now u cost reserved d =
     d\<lparr>accounts := sql_update (pay_guard u cost reserved)
         (\<lambda>a. a\<lparr>cash_micros := cash_micros a - cost, reserved_micros := released reserved a,
                a_updated_at := now\<rparr>) (accounts d)\<rparr>"

definition credit :: "int \<Rightarrow> string \<Rightarrow> int \<Rightarrow> broker_db \<Rightarrow> broker_db" where
  "credit now u amount d =
     d\<lparr>accounts := sql_update (\<lambda>a. a_user a = u)
         (\<lambda>a. a\<lparr>cash_micros := cash_micros a + amount, a_updated_at := now\<rparr>) (accounts d)\<rparr>"

definition mark_filled :: "(pyfloat \<Rightarrow> rat) \<Rightarrow> int \<Rightarrow> pyfloat \<Rightarrow> trade \<Rightarrow> trade" where
  "mark_filled num now price t =
     t\<lparr>t_status := FILLED, t_filled_price := Some (num price), t_filled_at := Some now\<rparr>"

definition fill_order ::
  "(pyfloat \<Rightarrow> rat) \<Rightarrow> int \<Rightarrow> broker_db session \<Rightarrow> trade \<Rightarrow> pyfloat \<Rightarrow> int option
     \<Rightarrow> broker_db session \<times> fill_outcome" where
  "fill_order num now s t fill_price reserved =
     (let r = default_reserved reserved t;
          cost = notional_micros (DecimalV (t_quantity t)) (FloatV fill_price);
          (s1, won) = cas_status s (t_id t) (mark_filled num now fill_price)
      in if \<not> won then (rollback s1, NotOpen)
         else if t_side t = Buy
         then (if rowcount (pay_guard (t_user t) cost r) (accounts (working s1)) \<noteq> 1
               then (fst (close_order now (rollback s1) t REJECTED (Some r)),
                     Rejected ''insufficient available cash at fill'')
               else (commit (upd (\<lambda>d. rebuild_positions num (t_user t) (pay now (t_user t) cost r d)) s1), Filled))
         else (if held_quantity (working s1) (t_user t) (t_asset t) (Some (t_id t)) < t_quantity t
               then (fst (close_order now (rollback s1) t REJECTED (Some r)),
                     Rejected ''sell quantity exceeds the current position'')
               else (commit (upd (\<lambda>d. rebuild_positions num (t_user t) (credit now (t_user t) cost d)) s1), Filled)))"

section \<open>Read models\<close>

definition open_order_exposure ::
  "broker_db \<Rightarrow> string \<Rightarrow> (string, int) dict \<times> (string, pyfloat) dict" where
  "open_order_exposure d u =
     foldl (\<lambda>(buys, sells) t.
        if t_side t = Buy
        then (dict_set (t_asset t)
                ((case dict_get buys (t_asset t) of Some x \<Rightarrow> x | None \<Rightarrow> 0) + trade_reservation_micros t) buys, sells)
        else (buys, dict_set (t_asset t)
                (fadd (case dict_get sells (t_asset t) of Some x \<Rightarrow> x | None \<Rightarrow> 0) (fl (t_quantity t))) sells))
       ([], []) (filter (\<lambda>t. t_user t = u \<and> open_status (t_status t)) (trades d))"

record snapshot =
  s_initial_cash :: pyfloat
  s_cash :: pyfloat
  s_reserved_cash :: pyfloat
  s_available_cash :: pyfloat
  s_positions_value :: pyfloat
  s_equity :: pyfloat
  s_total_pnl :: pyfloat
  s_gross_exposure :: pyfloat
  s_net_exposure :: pyfloat
  s_long_exposure :: pyfloat
  s_short_exposure :: pyfloat
  s_prices_stale :: bool

text \<open>\<^verbatim>\<open>account_snapshot\<close> on the account row that \<open>get_or_create_account\<close> returned.\<close>

definition account_snapshot :: "pyfloat \<Rightarrow> account \<Rightarrow> position_view list \<Rightarrow> snapshot" where
  "account_snapshot initial_cash a ps =
     (let values = map (\<lambda>p. fmul (v_quantity p) (v_current_price p)) ps;
          long = fsum (filter (\<lambda>v. 0 < v) values);
          short = - fsum (filter (\<lambda>v. v < 0) values);
          equity = fadd (from_micros (cash_micros a)) (fsum values)
      in \<lparr>s_initial_cash = initial_cash, s_cash = from_micros (cash_micros a),
          s_reserved_cash = from_micros (reserved_micros a),
          s_available_cash = from_micros (cash_micros a - reserved_micros a),
          s_positions_value = pyround (fsum values) 6, s_equity = pyround equity 6,
          s_total_pnl = pyround (fsub equity initial_cash) 6,
          s_gross_exposure = pyround (fadd long short) 6,
          s_net_exposure = pyround (fsub long short) 6,
          s_long_exposure = pyround long 6, s_short_exposure = pyround short 6,
          s_prices_stale = list_ex v_stale ps\<rparr>)"

section \<open>Sweeper\<close>

definition stop_triggered :: "side \<Rightarrow> pyfloat \<Rightarrow> pyfloat \<Rightarrow> bool" where
  "stop_triggered sd stop px = (if sd = Buy then stop \<le> px else px \<le> stop)"

text \<open>The SQL predicate, with the columns cast to double precision as the comparison
  with a float8 parameter does.\<close>

definition actionable :: "pyfloat \<Rightarrow> trade \<Rightarrow> bool" where
  "actionable px t =
     (let has_limit = (t_order_type t = LimitOrder \<and> t_limit t \<noteq> None);
          has_stop = (t_order_type t \<in> {StopOrder, StopLimitOrder} \<and> t_stop t \<noteq> None);
          limit = fl (the (t_limit t)); stop = fl (the (t_stop t))
      in (has_limit \<and> ((t_side t = Buy \<and> px \<le> limit) \<or> (t_side t = Sell \<and> limit \<le> px)))
         \<or> (has_stop \<and> ((t_side t = Buy \<and> stop \<le> px) \<or> (t_side t = Sell \<and> px \<le> stop)))
         \<or> (\<not> has_limit \<and> \<not> has_stop))"

text \<open>Reading an attribute of an expired ORM object reloads its row.\<close>

definition refresh_trade :: "broker_db session \<Rightarrow> trade \<Rightarrow> trade" where
  "refresh_trade s t = (case find_row t_id (t_id t) (trades (working s)) of Some r \<Rightarrow> r | None \<Rightarrow> t)"

definition sweep_convert :: "broker_db session \<Rightarrow> trade \<Rightarrow> broker_db session" where
  "sweep_convert s t =
     commit (upd (\<lambda>d. d\<lparr>trades := sql_update (\<lambda>x. t_id x = t_id t \<and> t_status x = ACCEPTED)
                          (\<lambda>x. x\<lparr>t_order_type := LimitOrder\<rparr>) (trades d)\<rparr>) s)"

definition sweep_fill_price :: "trade \<Rightarrow> pyfloat \<Rightarrow> pyfloat option" where
  "sweep_fill_price t px =
     (if t_order_type t = LimitOrder \<and> t_limit t \<noteq> None
      then check_pending_limit_fill (t_side t) (fl (the (t_limit t))) px
      else if t_order_type t \<in> {StopOrder, StopLimitOrder} \<and> t_stop t \<noteq> None
      then simulate_fill (t_side t) (t_order_type t) (map_option fl (t_limit t)) (map_option fl (t_stop t)) px
      else Some px)"

definition sweep_one ::
  "(pyfloat \<Rightarrow> rat) \<Rightarrow> int \<Rightarrow> pyfloat \<Rightarrow> broker_db session \<times> (trade \<times> fill_outcome) list \<Rightarrow> trade
     \<Rightarrow> broker_db session \<times> (trade \<times> fill_outcome) list" where
  "sweep_one num now px st t0 =
     (case st of (s, outcomes) \<Rightarrow>
       let t = refresh_trade s t0;
           fill_price = sweep_fill_price t px;
           s1 = (if t_order_type t = StopLimitOrder \<and> t_stop t \<noteq> None \<and> fill_price = None
                    \<and> stop_triggered (t_side t) (fl (the (t_stop t))) px
                 then sweep_convert s t else s)
       in (case fill_price of
             None \<Rightarrow> (s1, outcomes)
           | Some p \<Rightarrow> (let (s2, out) = fill_order num now s1 (refresh_trade s1 t) p None
                        in (s2, outcomes @ [(t, out)]))))"

text \<open>\<open>price\<close> is \<^verbatim>\<open>get_last_price\<close>, \<open>None\<close> where it raises; \<^verbatim>\<open>DISTINCT\<close> assets in table order.\<close>

definition sweep_asset ::
  "(pyfloat \<Rightarrow> rat) \<Rightarrow> int \<Rightarrow> (string \<Rightarrow> pyfloat option) \<Rightarrow> broker_db session \<times> (trade \<times> fill_outcome) list
     \<Rightarrow> string \<Rightarrow> broker_db session \<times> (trade \<times> fill_outcome) list" where
  "sweep_asset num now price st asset =
     (case price asset of
        None \<Rightarrow> st
      | Some px \<Rightarrow> foldl (sweep_one num now px) st
          (sort_key t_submitted_at
             (filter (\<lambda>t. t_status t = ACCEPTED \<and> t_asset t = asset \<and> actionable px t) (trades (working (fst st))))))"

definition process_open_orders ::
  "(pyfloat \<Rightarrow> rat) \<Rightarrow> int \<Rightarrow> (string \<Rightarrow> pyfloat option) \<Rightarrow> broker_db session
     \<Rightarrow> broker_db session \<times> (trade \<times> fill_outcome) list" where
  "process_open_orders num now price s =
     foldl (sweep_asset num now price) (s, [])
       (remdups (map t_asset (filter (\<lambda>t. t_status t = ACCEPTED) (trades (working s)))))"

section \<open>Placing and cancelling\<close>

text \<open>
  The ledger part of \<^verbatim>\<open>place_order\<close>: reserve, insert the PENDING order, commit
  both. \<open>None\<close> is an order refused for cash or for an id already taken.
\<close>

definition place_reserved ::
  "int \<Rightarrow> broker_db session \<Rightarrow> trade \<Rightarrow> int \<Rightarrow> broker_db session \<times> bool" where
  "place_reserved now s t reserve =
     (if find_row t_id (t_id t) (trades (working s)) \<noteq> None then (s, False)
      else let (s1, got) = try_reserve now s (t_user t) reserve
           in if \<not> got then (rollback s1, False)
              else (commit (upd (\<lambda>d. d\<lparr>trades := trades d @ [t\<lparr>t_status := PENDING, t_filled_price := None,
                                                                t_filled_at := None\<rparr>]\<rparr>) s1), True))"

text \<open>\<^verbatim>\<open>DELETE /api/trading/orders/{id}\<close>.\<close>

definition cancel_trade ::
  "int \<Rightarrow> broker_db session \<Rightarrow> string \<Rightarrow> string \<Rightarrow> broker_db session \<times> (http_error + trade)" where
  "cancel_trade now s u order_id =
     (case find_row t_id order_id (trades (working s)) of
        None \<Rightarrow> (s, Inl (HTTP 404))
      | Some t \<Rightarrow>
          if t_user t \<noteq> u then (s, Inl (HTTP 404))
          else if t_status t = PENDING then (s, Inl (HTTP 409))
          else if t_status t \<noteq> ACCEPTED then (s, Inl (HTTP 400))
          else let (s1, done) = close_order now s t CANCELLED None
               in if \<not> done then (s1, Inl (HTTP 409)) else (s1, Inr (refresh_trade s1 t)))"

end
