(* ===== verification/Ledger_Invariants.thy ===== *)
theory Ledger_Invariants
  imports Paper_Broker
begin

text \<open>
  What the paper broker's ledger promises, over every sequence of its operations:
  reservations stay between zero and the cash, a terminal order row never changes
  again, and an account's cash is what the filled trades make it.
\<close>

section \<open>The ledger as a machine\<close>

datatype broker_op =
    OpOpen string pyfloat int
  | OpPlace trade int int
  | OpAccept trade
  | OpClose trade trade_status "int option" int
  | OpFill trade pyfloat "int option" int
  | OpConvert trade
  | OpCancel string string int

fun broker_step :: "(pyfloat \<Rightarrow> rat) \<Rightarrow> broker_op \<Rightarrow> broker_db session \<Rightarrow> broker_db session" where
  "broker_step num (OpOpen u initial now) s = fst (get_or_create_account initial None now s u)"
| "broker_step num (OpPlace t reserve now) s = fst (place_reserved now s t reserve)"
| "broker_step num (OpAccept t) s = fst (accept_order s t)"
| "broker_step num (OpClose t st reserved now) s = fst (close_order now s t st reserved)"
| "broker_step num (OpFill t price reserved now) s = fst (fill_order num now s t price reserved)"
| "broker_step num (OpConvert t) s = sweep_convert s t"
| "broker_step num (OpCancel u i now) s = fst (cancel_trade now s u i)"

text \<open>A trade object carries the columns no operation writes, as its row has them.\<close>

definition agrees :: "trade \<Rightarrow> broker_db session \<Rightarrow> bool" where
  "agrees t s \<longleftrightarrow> (\<forall>r \<in> set (trades (working s)). t_id r = t_id t \<longrightarrow>
     t_user r = t_user t \<and> t_side r = t_side t \<and> t_quantity r = t_quantity t \<and> t_asset r = t_asset t)"

definition nonneg_trade :: "trade \<Rightarrow> bool" where
  "nonneg_trade t \<longleftrightarrow> 0 \<le> t_quantity t \<and> (\<forall>p. t_limit t = Some p \<longrightarrow> 0 \<le> p)
     \<and> (\<forall>p. t_stop t = Some p \<longrightarrow> 0 \<le> p)"

fun broker_ok :: "broker_op \<Rightarrow> broker_db session \<Rightarrow> bool" where
  "broker_ok (OpOpen u initial now) s = (0 \<le> initial)"
| "broker_ok (OpPlace t reserve now) s =
     nonneg_trade t"
| "broker_ok (OpAccept t) s = True"
| "broker_ok (OpClose t st reserved now) s = (\<not> open_status st \<and> st \<noteq> FILLED)"
| "broker_ok (OpFill t price reserved now) s =
     (0 \<le> price \<and> agrees t s \<and> nonneg_trade t \<and> (\<forall>r. reserved = Some r \<longrightarrow> 0 \<le> r))"
| "broker_ok (OpConvert t) s = True"
| "broker_ok (OpCancel u i now) s = True"

section \<open>Invariant\<close>

definition ledger_inv :: "broker_db \<Rightarrow> bool" where
  "ledger_inv d \<longleftrightarrow> (\<forall>a \<in> set (accounts d). 0 \<le> reserved_micros a \<and> reserved_micros a \<le> cash_micros a)"

definition tables_inv :: "broker_db \<Rightarrow> bool" where
  "tables_inv d \<longleftrightarrow> distinct (map a_user (accounts d)) \<and> distinct (map t_id (trades d))
     \<and> (\<forall>t \<in> set (trades d). nonneg_trade t)"

definition broker_inv :: "broker_db session \<Rightarrow> bool" where
  "broker_inv s \<longleftrightarrow> committed s = working s \<and> ledger_inv (working s) \<and> tables_inv (working s)"

subsection \<open>Money is not negative\<close>

lemma notional_nonneg: "0 \<le> num_val q \<Longrightarrow> 0 \<le> num_val p \<Longrightarrow> 0 \<le> notional_micros q p"
  by (simp add: notional_micros_def to_micros_def round_half_up_nonneg dmul_nonneg to_decimal_nonneg)

lemma reservation_nonneg:
  assumes "nonneg_trade t"
  shows "0 \<le> trade_reservation_micros t"
  using assms by (auto simp: trade_reservation_micros_def reservation_micros_def nonneg_trade_def Let_def
      split: option.splits intro: notional_nonneg)

lemma to_micros_nonneg: "0 \<le> num_val v \<Longrightarrow> 0 \<le> to_micros v"
  by (simp add: to_micros_def round_half_up_nonneg dmul_nonneg to_decimal_nonneg)

subsection \<open>Statements keep the invariant\<close>

lemma ledger_inv_accounts: "ledger_inv (d\<lparr>trades := ts\<rparr>) = ledger_inv d"
  "ledger_inv (d\<lparr>positions := ps\<rparr>) = ledger_inv d"
  by (simp_all add: ledger_inv_def)

lemma released_bounds:
  "0 \<le> reserved_micros a \<Longrightarrow> 0 \<le> amount \<Longrightarrow> 0 \<le> released amount a \<and> released amount a \<le> reserved_micros a"
  by (simp add: released_def)

lemma reserve_inv:
  "ledger_inv d \<Longrightarrow> 0 < amount \<Longrightarrow>
   ledger_inv (d\<lparr>accounts := sql_update (reserve_guard u amount)
      (\<lambda>a. a\<lparr>reserved_micros := reserved_micros a + amount, a_updated_at := now\<rparr>) (accounts d)\<rparr>)"
  by (fastforce simp: ledger_inv_def in_sql_update reserve_guard_def)

lemma release_inv: "ledger_inv d \<Longrightarrow> 0 \<le> amount \<Longrightarrow> ledger_inv (release_stmt now u amount d)"
  by (fastforce simp: ledger_inv_def release_stmt_def in_sql_update released_def)

lemma pay_inv: "ledger_inv d \<Longrightarrow> 0 \<le> r \<Longrightarrow> ledger_inv (pay now u cost r d)"
  by (auto simp: ledger_inv_def pay_def in_sql_update pay_guard_def released_def)

lemma credit_inv: "ledger_inv d \<Longrightarrow> 0 \<le> c \<Longrightarrow> ledger_inv (credit now u c d)"
  by (fastforce simp: ledger_inv_def credit_def in_sql_update)

lemma statement_users [simp]:
  "map a_user (accounts (release_stmt now u r d)) = map a_user (accounts d)"
  "map a_user (accounts (pay now u c r d)) = map a_user (accounts d)"
  "map a_user (accounts (credit now u c d)) = map a_user (accounts d)"
  "trades (release_stmt now u r d) = trades d"
  "trades (pay now u c r d) = trades d"
  "trades (credit now u c d) = trades d"
  by (simp_all add: release_stmt_def pay_def credit_def map_sql_update)

lemma tables_inv_cong:
  "map a_user (accounts d') = map a_user (accounts d) \<Longrightarrow> trades d' = trades d \<Longrightarrow> tables_inv d' = tables_inv d"
  by (simp add: tables_inv_def)

lemma tables_inv_update:
  assumes "tables_inv d" "\<And>t. t_id (f t) = t_id t" "\<And>t. nonneg_trade t \<Longrightarrow> nonneg_trade (f t)"
  shows "tables_inv (d\<lparr>trades := sql_update p f (trades d)\<rparr>)"
  using assms by (auto simp: tables_inv_def map_sql_update in_sql_update)

lemma cas_status_eq:
  "cas_status s i f = (s1, won) \<longleftrightarrow>
     s1 = upd (\<lambda>d. d\<lparr>trades := sql_update (cas_guard i) f (trades d)\<rparr>) s
     \<and> won = (rowcount (cas_guard i) (trades (working s)) = 1)"
  by (auto simp: cas_status_def)

subsection \<open>Operations keep the invariant\<close>

lemma nonneg_trade_upd [simp]:
  "nonneg_trade (t\<lparr>t_status := st\<rparr>) = nonneg_trade t"
  "nonneg_trade (t\<lparr>t_order_type := ot\<rparr>) = nonneg_trade t"
  "nonneg_trade (mark_filled num now price t) = nonneg_trade t"
  by (simp_all add: nonneg_trade_def mark_filled_def)

lemma t_id_mark_filled [simp]: "t_id (mark_filled num now price t) = t_id t"
  by (simp add: mark_filled_def)

lemma close_inv:
  assumes "broker_inv s"
  shows "broker_inv (fst (close_order now s t st reserved))"
proof -
  let ?r = "default_reserved reserved t"
  let ?f = "\<lambda>x. x\<lparr>t_status := st\<rparr>"
  let ?d = "(working s)\<lparr>trades := sql_update (cas_guard (t_id t)) ?f (trades (working s))\<rparr>"
  have t: "tables_inv ?d" using assms by (intro tables_inv_update) (auto simp: broker_inv_def)
  have l: "ledger_inv ?d" using assms by (simp add: broker_inv_def ledger_inv_accounts)
  have "tables_inv (release_stmt now (t_user t) ?r ?d)" using t by (simp add: tables_inv_def)
  moreover have "0 < ?r \<Longrightarrow> ledger_inv (release_stmt now (t_user t) ?r ?d)" using l by (simp add: release_inv)
  ultimately show ?thesis using assms t l
    by (auto simp: close_order_def Let_def cas_status_def broker_inv_def)
qed

lemma rollback_inv: "broker_inv s \<Longrightarrow> broker_inv (rollback (upd f s))"
  by (simp add: broker_inv_def)

lemma rollback_upd: "broker_inv s \<Longrightarrow> rollback (upd f s) = s"
  by (cases s) (simp add: broker_inv_def rollback_def upd_def)

lemma accept_inv: "broker_inv s \<Longrightarrow> broker_inv (fst (accept_order s t))"
  by (simp add: accept_order_def broker_inv_def ledger_inv_accounts tables_inv_update)

lemma convert_inv: "broker_inv s \<Longrightarrow> broker_inv (sweep_convert s t)"
  by (simp add: sweep_convert_def broker_inv_def ledger_inv_accounts tables_inv_update)

lemma place_inv:
  assumes "broker_inv s" "nonneg_trade t"
  shows "broker_inv (fst (place_reserved now s t reserve))"
proof (cases "find_row t_id (t_id t) (trades (working s)) \<noteq> None \<or> \<not> snd (try_reserve now s (t_user t) reserve)")
  case True
  then show ?thesis using assms
    by (auto simp: place_reserved_def try_reserve_def broker_inv_def Let_def)
next
  case False
  let ?d = "working (fst (try_reserve now s (t_user t) reserve))"
  have "map a_user (accounts ?d) = map a_user (accounts (working s))" "trades ?d = trades (working s)"
    by (auto simp: try_reserve_def map_sql_update)
  moreover have "ledger_inv ?d"
    using assms reserve_inv [of "working s" reserve] by (auto simp: try_reserve_def broker_inv_def)
  moreover have "t_id t \<notin> t_id ` set (trades (working s))" using False by (simp add: find_row_None)
  ultimately show ?thesis using assms False
    by (auto simp: place_reserved_def broker_inv_def tables_inv_def ledger_inv_accounts
        nonneg_trade_def split: prod.splits)
qed

lemma fill_inv:
  assumes inv: "broker_inv s" and price: "0 \<le> price"
    and res: "\<And>r. reserved = Some r \<Longrightarrow> 0 \<le> r" and ot: "nonneg_trade t"
  shows "broker_inv (fst (fill_order num now s t price reserved))"
proof -
  define r where "r = default_reserved reserved t"
  define cost where "cost = notional_micros (DecimalV (t_quantity t)) (FloatV price)"
  define d where "d = (working s)\<lparr>trades :=
      sql_update (cas_guard (t_id t)) (mark_filled num now price) (trades (working s))\<rparr>"
  have r: "0 \<le> r"
    using res reservation_nonneg [OF ot] by (auto simp: r_def default_reserved_def split: option.splits)
  have c: "0 \<le> cost" using ot price by (auto simp: cost_def nonneg_trade_def intro: notional_nonneg)
  have t: "tables_inv d" unfolding d_def using inv by (intro tables_inv_update) (auto simp: broker_inv_def)
  have l: "ledger_inv d" using inv by (simp add: d_def broker_inv_def ledger_inv_accounts)
  have "ledger_inv (rebuild_positions num (t_user t) (pay now (t_user t) cost r d))"
    "ledger_inv (rebuild_positions num (t_user t) (credit now (t_user t) cost d))"
    using pay_inv [OF l r] credit_inv [OF l c] by (simp_all add: ledger_inv_def)
  moreover have "tables_inv (rebuild_positions num (t_user t) (pay now (t_user t) cost r d))"
    "tables_inv (rebuild_positions num (t_user t) (credit now (t_user t) cost d))"
    using t by (simp_all add: tables_inv_def)
  moreover have "broker_inv (fst (close_order now s t REJECTED (Some r)))" using inv by (rule close_inv)
  ultimately show ?thesis using inv
    by (auto simp: fill_order_def Let_def cas_status_def rollback_upd d_def [symmetric]
        r_def [symmetric] cost_def [symmetric] broker_inv_def split: if_splits)
qed

lemma migrate_reserved_nonneg:
  "0 \<le> r \<Longrightarrow> (\<And>t. t \<in> set ts \<Longrightarrow> nonneg_trade t) \<Longrightarrow> 0 \<le> snd (foldl migrate_trade (c, r) ts)"
proof (induction ts arbitrary: c r)
  case (Cons t ts)
  obtain c1 r1 where m: "migrate_trade (c, r) t = (c1, r1)" by fastforce
  have "0 \<le> r1" using m Cons.prems reservation_nonneg [of t]
    by (auto simp: migrate_trade_def Let_def split: option.splits trade_status.splits if_splits)
  then show ?case using Cons m by simp
qed simp

lemma open_inv:
  assumes "broker_inv s"
  shows "broker_inv (fst (get_or_create_account initial None now s u))"
proof (cases "find_row a_user u (accounts (working s))")
  case None
  obtain c r where m: "foldl migrate_trade (to_micros (FloatV initial), 0)
      (filter (\<lambda>t. t_user t = u) (trades (working s))) = (c, r)" by fastforce
  have "0 \<le> r" using migrate_reserved_nonneg [of 0 "filter (\<lambda>t. t_user t = u) (trades (working s))"] assms m
    by (force simp: broker_inv_def tables_inv_def dest: arg_cong [where f = snd])
  moreover have "u \<notin> a_user ` set (accounts (working s))" using None by (simp add: find_row_None)
  ultimately show ?thesis using assms None m
    by (auto simp: get_or_create_account_def broker_inv_def ledger_inv_def tables_inv_def Let_def)
qed (use assms in \<open>simp add: get_or_create_account_def\<close>)

lemma cancel_inv: "broker_inv s \<Longrightarrow> broker_inv (fst (cancel_trade now s u i))"
  using close_inv [of s now _ CANCELLED None]
  by (auto simp: cancel_trade_def split: option.splits prod.splits) (metis fst_conv)+

lemma broker_step_inv: "broker_inv s \<Longrightarrow> broker_ok op s \<Longrightarrow> broker_inv (broker_step num op s)"
  by (cases op) (auto simp: open_inv place_inv accept_inv close_inv fill_inv convert_inv cancel_inv)

section \<open>Terminal rows\<close>

definition settled :: "trade \<Rightarrow> broker_db session \<Rightarrow> bool" where
  "settled t s \<longleftrightarrow> t \<in> set (trades (working s)) \<and> \<not> open_status (t_status t)"

lemma settled_update:
  assumes "settled t s" "\<And>x. p x \<Longrightarrow> open_status (t_status x)"
  shows "t \<in> set (sql_update p f (trades (working s)))"
  using assms by (force simp: settled_def in_sql_update)

lemma close_settled:
  assumes "broker_inv s" "settled t s"
  shows "settled t (fst (close_order now s t' st reserved))"
proof -
  have "t \<in> set (sql_update (cas_guard (t_id t')) (\<lambda>x. x\<lparr>t_status := st\<rparr>) (trades (working s)))"
    using assms(2) by (rule settled_update) (simp add: cas_guard_def)
  then show ?thesis using assms
    by (auto simp: close_order_def Let_def cas_status_def settled_def rollback_upd)
qed

lemma fill_settled:
  assumes "broker_inv s" "settled t s"
  shows "settled t (fst (fill_order num now s t' price reserved))"
proof -
  have "t \<in> set (sql_update (cas_guard (t_id t')) (mark_filled num now price) (trades (working s)))"
    using assms(2) by (rule settled_update) (simp add: cas_guard_def)
  moreover have "settled t (fst (close_order now s t' REJECTED r))" for r
    using assms by (rule close_settled)
  ultimately show ?thesis using assms
    by (auto simp: fill_order_def Let_def cas_status_def settled_def rollback_upd)
qed

lemma place_trades:
  "set (trades (working s)) \<subseteq> set (trades (working (fst (place_reserved now s t reserve))))"
  if "broker_inv s"
  using that by (auto simp: place_reserved_def try_reserve_def broker_inv_def Let_def)

lemma broker_step_settled:
  assumes "broker_inv s" "broker_ok op s" "settled t s"
  shows "settled t (broker_step num op s)"
proof (cases op)
  case (OpOpen u initial now)
  then show ?thesis using assms(3)
    by (auto simp: get_or_create_account_def settled_def Let_def split: option.splits prod.splits)
next
  case (OpPlace t' reserve now)
  then show ?thesis using place_trades [OF assms(1)] assms(3) by (auto simp: settled_def)
next
  case (OpAccept t')
  then show ?thesis using settled_update [OF assms(3), of "accept_guard (t_id t')"] assms(3)
    by (auto simp: accept_order_def settled_def accept_guard_def open_status_def)
next
  case (OpConvert t')
  then show ?thesis
    using settled_update [OF assms(3), of "\<lambda>x. t_id x = t_id t' \<and> t_status x = ACCEPTED"] assms(3)
    by (auto simp: sweep_convert_def settled_def open_status_def)
next
  case (OpCancel u i now)
  then show ?thesis using close_settled [OF assms(1,3), of now _ CANCELLED None] assms(3)
    by (auto simp: cancel_trade_def split: option.splits prod.splits) (metis fst_conv)+
qed (use assms close_settled fill_settled in auto)

interpretation ledger: sealed_machine "broker_step num" broker_inv broker_ok settled for num
  by unfold_locales (auto simp: broker_step_inv broker_step_settled)

section \<open>Cash is what the fills made it\<close>

definition flow :: "string \<Rightarrow> trade \<Rightarrow> int" where
  "flow u t = (if t_user t = u \<and> t_status t = FILLED
     then (case t_filled_price t of
             None \<Rightarrow> 0
           | Some p \<Rightarrow> (let n = notional_micros (DecimalV (t_quantity t)) (DecimalV p)
                        in if t_side t = Sell then n else - n))
     else 0)"

definition net :: "string \<Rightarrow> trade list \<Rightarrow> int" where
  "net u ts = sum_list (map (flow u) ts)"

definition drift :: "string \<times> int \<Rightarrow> broker_db session \<Rightarrow> bool" where
  "drift k s \<longleftrightarrow> (\<exists>a. find_row a_user (fst k) (accounts (working s)) = Some a
     \<and> cash_micros a = snd k + net (fst k) (trades (working s)))"

fun priced_ok :: "(pyfloat \<Rightarrow> rat) \<Rightarrow> broker_op \<Rightarrow> broker_db session \<Rightarrow> bool" where
  "priced_ok num (OpFill t price reserved now) s =
     (broker_ok (OpFill t price reserved now) s \<and> num price = repr_dec price)"
| "priced_ok num op s = broker_ok op s"

lemma priced_ok_ok: "priced_ok num op s \<Longrightarrow> broker_ok op s"
  by (cases op) auto

lemma flow_open: "open_status (t_status t) \<Longrightarrow> flow u t = 0"
  by (auto simp: flow_def open_status_def)

lemma net_update_same:
  assumes "\<And>t. t \<in> set ts \<Longrightarrow> p t \<Longrightarrow> flow u (f t) = flow u t"
  shows "net u (sql_update p f ts) = net u ts"
  using assms by (induction ts) (auto simp: net_def sql_update_def)

lemma net_update_one:
  assumes "distinct (map t_id ts)" "r \<in> set ts" "\<And>x. p x \<Longrightarrow> t_id x = t_id r" "p r"
  shows "net u (sql_update p f ts) = net u ts - flow u r + flow u (f r)"
  using assms
proof (induction ts)
  case (Cons x ts)
  have notin: "t_id x \<notin> t_id ` set ts" using Cons.prems(1) by simp
  show ?case
  proof (cases "x = r")
    case True
    have "\<not> p y" if "y \<in> set ts" for y
      using notin Cons.prems(3) that True by (metis imageI)
    then have "sql_update p f ts = ts" by (simp add: sql_update_def map_idI)
    then have "sql_update p f (x # ts) = f r # ts" using True Cons.prems(4) by (simp add: sql_update_def)
    then show ?thesis using True by (simp add: net_def)
  next
    case False
    then have r: "r \<in> set ts" using Cons.prems(2) by simp
    have "\<not> p x" using notin Cons.prems(3) r by (metis imageI)
    then have "sql_update p f (x # ts) = x # sql_update p f ts" by (simp add: sql_update_def)
    moreover have "net u (sql_update p f ts) = net u ts - flow u r + flow u (f r)"
    proof (rule Cons.IH)
      show "distinct (map t_id ts)" using Cons.prems(1) by simp
    qed (fact r Cons.prems(3,4))+
    ultimately show ?thesis by (simp add: net_def)
  qed
qed simp

lemma drift_same:
  assumes "drift k s"
    and "map_option cash_micros (find_row a_user (fst k) (accounts (working s'))) =
         map_option cash_micros (find_row a_user (fst k) (accounts (working s)))"
    and "net (fst k) (trades (working s')) = net (fst k) (trades (working s))"
  shows "drift k s'"
  using assms by (auto simp: drift_def)

lemma release_cash:
  "map_option cash_micros (find_row a_user v (accounts (release_stmt now u r d))) =
   map_option cash_micros (find_row a_user v (accounts d))"
  by (simp add: release_stmt_def find_row_update option.map_comp comp_def if_distrib cong: if_cong)

lemma close_drift:
  assumes "broker_inv s" "st \<noteq> FILLED" "drift k s"
  shows "drift k (fst (close_order now s t st reserved))"
proof -
  let ?d = "(working s)\<lparr>trades := sql_update (cas_guard (t_id t)) (\<lambda>x. x\<lparr>t_status := st\<rparr>) (trades (working s))\<rparr>"
  have n: "net (fst k) (trades ?d) = net (fst k) (trades (working s))"
  proof -
    have "flow (fst k) (x\<lparr>t_status := st\<rparr>) = flow (fst k) x" if "cas_guard (t_id t) x" for x
      using that assms(2) by (auto simp: cas_guard_def flow_def open_status_def)
    then have "net (fst k) (sql_update (cas_guard (t_id t)) (\<lambda>x. x\<lparr>t_status := st\<rparr>) (trades (working s))) =
        net (fst k) (trades (working s))" by (rule net_update_same)
    then show ?thesis by simp
  qed
  have "map_option cash_micros (find_row a_user (fst k) (accounts (release_stmt now u r ?d))) =
        map_option cash_micros (find_row a_user (fst k) (accounts (working s)))" for u r
    by (simp only: release_cash) simp
  then show ?thesis using n assms(1)
    by (intro drift_same [OF assms(3)]) (auto simp: close_order_def Let_def cas_status_def rollback_upd)
qed

lemma flow_mark_filled:
  assumes "num price = repr_dec price"
  shows "flow u (mark_filled num now price r) =
    (if t_user r = u
     then (let n = notional_micros (DecimalV (t_quantity r)) (FloatV price)
           in if t_side r = Sell then n else - n) else 0)"
  using assms by (simp add: flow_def mark_filled_def notional_micros_def Let_def)

lemma won_row:
  assumes "rowcount (cas_guard i) ts = 1"
  obtains r where "r \<in> set ts" "t_id r = i" "open_status (t_status r)"
  using rowcount_1_ex [OF assms] by (auto simp: cas_guard_def)

lemma guarded_account:
  assumes "distinct (map a_user as)" "rowcount p as = 1" "\<And>a. p a \<Longrightarrow> a_user a = u"
    and "find_row a_user u as = Some a"
  shows "p a"
proof -
  obtain b where "b \<in> set as" "p b" using rowcount_1_ex [OF assms(2)] by auto
  then have "find_row a_user u as = Some b" using find_row_in [OF assms(1)] assms(3) by metis
  then show ?thesis using \<open>p b\<close> assms(4) by simp
qed

lemma fill_net:
  assumes inv: "broker_inv s" and ag: "agrees t s" and num: "num price = repr_dec price"
    and won: "rowcount (cas_guard (t_id t)) (trades (working s)) = 1"
  shows "net u (sql_update (cas_guard (t_id t)) (mark_filled num now price) (trades (working s))) =
    net u (trades (working s)) +
    (if t_user t = u then (let n = notional_micros (DecimalV (t_quantity t)) (FloatV price)
                           in if t_side t = Sell then n else - n) else 0)"
proof -
  obtain r where r: "r \<in> set (trades (working s))" "t_id r = t_id t" "open_status (t_status r)"
    using won_row [OF won] .
  have "t_user r = t_user t" "t_side r = t_side t" "t_quantity r = t_quantity t"
    using ag r by (auto simp: agrees_def)
  then show ?thesis
    using net_update_one [of "trades (working s)" r "cas_guard (t_id t)" u "mark_filled num now price"] inv r
    by (simp add: broker_inv_def tables_inv_def cas_guard_def flow_open flow_mark_filled [where num = num] num)
qed

lemma side_not_Buy: "sd \<noteq> Buy \<longleftrightarrow> sd = Sell"
  by (cases sd) auto

lemma fill_order_result:
  assumes "broker_inv s" "rowcount (cas_guard (t_id t)) (trades (working s)) = 1"
    and "r = default_reserved reserved t"
    and "cost = notional_micros (DecimalV (t_quantity t)) (FloatV price)"
    and "d = (working s)\<lparr>trades :=
           sql_update (cas_guard (t_id t)) (mark_filled num now price) (trades (working s))\<rparr>"
  shows "(fst (fill_order num now s t price reserved) = fst (close_order now s t REJECTED (Some r))
          \<and> snd (fill_order num now s t price reserved) \<noteq> Filled) \<or>
    (t_side t = Buy \<and> rowcount (pay_guard (t_user t) cost r) (accounts (working s)) = 1 \<and>
      working (fst (fill_order num now s t price reserved)) =
        rebuild_positions num (t_user t) (pay now (t_user t) cost r d)) \<or>
    (t_side t = Sell \<and> t_quantity t \<le> held_quantity d (t_user t) (t_asset t) (Some (t_id t)) \<and>
      working (fst (fill_order num now s t price reserved)) =
        rebuild_positions num (t_user t) (credit now (t_user t) cost d))"
  using assms by (simp add: fill_order_def Let_def cas_status_def rollback_upd side_not_Buy)

lemma pay_cash:
  assumes "broker_inv s" "find_row a_user u (accounts (working s)) = Some a"
    and "rowcount (pay_guard v cost r) (accounts (working s)) = 1" "accounts d = accounts (working s)"
  shows "map_option cash_micros (find_row a_user u (accounts (pay now v cost r d))) =
    Some (if v = u then cash_micros a - cost else cash_micros a)"
proof -
  have au: "a_user a = u" using find_row_Some [OF assms(2)] by simp
  have "v = u \<Longrightarrow> pay_guard v cost r a"
    using guarded_account [OF _ assms(3), of u a] assms(1,2)
    by (auto simp: broker_inv_def tables_inv_def pay_guard_def)
  moreover have "v \<noteq> u \<Longrightarrow> \<not> pay_guard v cost r a" using au by (simp add: pay_guard_def)
  ultimately show ?thesis using assms(2,4) by (auto simp: pay_def find_row_update)
qed

lemma credit_cash:
  assumes "find_row a_user u (accounts d) = Some a"
  shows "map_option cash_micros (find_row a_user u (accounts (credit now v cost d))) =
    Some (if v = u then cash_micros a + cost else cash_micros a)"
  using assms find_row_Some [OF assms] by (auto simp: credit_def find_row_update)

lemma fill_drift:
  assumes inv: "broker_inv s" and ok: "priced_ok num (OpFill t price reserved now) s" and dr: "drift k s"
  shows "drift k (fst (fill_order num now s t price reserved))"
proof (cases "rowcount (cas_guard (t_id t)) (trades (working s)) = 1")
  case False
  then show ?thesis using dr inv by (simp add: fill_order_def Let_def cas_status_def rollback_upd)
next
  case True
  obtain u c where k: "k = (u, c)" by fastforce
  obtain a where a: "find_row a_user u (accounts (working s)) = Some a"
    and cash: "cash_micros a = c + net u (trades (working s))"
    using dr k by (auto simp: drift_def)
  define cost where "cost = notional_micros (DecimalV (t_quantity t)) (FloatV price)"
  define r where "r = default_reserved reserved t"
  define d where "d = (working s)\<lparr>trades :=
           sql_update (cas_guard (t_id t)) (mark_filled num now price) (trades (working s))\<rparr>"
  have da: "accounts d = accounts (working s)" by (simp add: d_def)
  have n: "net u (trades d) =
      net u (trades (working s)) + (if t_user t = u then (if t_side t = Sell then cost else - cost) else 0)"
    using fill_net [OF inv _ _ True, of num price u now] ok by (simp add: cost_def d_def)
  have rej: "drift k (fst (close_order now s t REJECTED (Some r)))"
    using close_drift [OF inv _ dr] by simp
  note p = pay_cash [OF inv a _ da, of "t_user t" cost r now]
  note cr = credit_cash [of u d a now "t_user t" cost, unfolded da, OF a]
  from fill_order_result [OF inv True r_def cost_def d_def] show ?thesis
  proof (elim disjE conjE)
    assume "fst (fill_order num now s t price reserved) = fst (close_order now s t REJECTED (Some r))"
    then show ?thesis using rej by simp
  next
    assume "t_side t = Buy" and g: "rowcount (pay_guard (t_user t) cost r) (accounts (working s)) = 1"
      and "working (fst (fill_order num now s t price reserved)) =
        rebuild_positions num (t_user t) (pay now (t_user t) cost r d)"
    then show ?thesis using p [OF g] n cash by (auto simp: drift_def k split: if_splits)
  next
    assume "t_side t = Sell"
      and "working (fst (fill_order num now s t price reserved)) =
        rebuild_positions num (t_user t) (credit now (t_user t) cost d)"
    then show ?thesis using cr n cash by (auto simp: drift_def k split: if_splits)
  qed
qed

lemma convert_drift:
  assumes "drift k s"
  shows "drift k (sweep_convert s t)"
proof -
  have "net (fst k) (sql_update (\<lambda>x. t_id x = t_id t \<and> t_status x = ACCEPTED)
      (\<lambda>x. x\<lparr>t_order_type := LimitOrder\<rparr>) (trades (working s))) = net (fst k) (trades (working s))"
    by (rule net_update_same) (simp add: flow_def)
  then show ?thesis by (intro drift_same [OF assms]) (simp_all add: sweep_convert_def)
qed

lemma accept_drift:
  assumes "drift k s"
  shows "drift k (fst (accept_order s t))"
proof -
  have "net (fst k) (sql_update (accept_guard (t_id t)) (\<lambda>x. x\<lparr>t_status := ACCEPTED\<rparr>) (trades (working s)))
      = net (fst k) (trades (working s))"
    by (rule net_update_same) (simp add: flow_def accept_guard_def)
  then show ?thesis by (intro drift_same [OF assms]) (simp_all add: accept_order_def)
qed

lemma place_drift:
  assumes "broker_inv s" "drift k s"
  shows "drift k (fst (place_reserved now s t reserve))"
proof -
  have "map_option cash_micros (find_row a_user (fst k)
      (accounts (working (fst (try_reserve now s (t_user t) reserve))))) =
    map_option cash_micros (find_row a_user (fst k) (accounts (working s)))"
    by (simp add: try_reserve_def find_row_update option.map_comp comp_def if_distrib cong: if_cong)
  moreover have "trades (working (fst (try_reserve now s (t_user t) reserve))) = trades (working s)"
    by (simp add: try_reserve_def)
  moreover have "rollback (fst (try_reserve now s (t_user t) reserve)) = s"
    using assms(1) by (cases s) (auto simp: try_reserve_def rollback_upd broker_inv_def rollback_def)
  ultimately show ?thesis using assms(2)
    by (intro drift_same [OF assms(2)])
      (auto simp: place_reserved_def net_def flow_def split: prod.splits)
qed

lemma open_drift:
  assumes "drift k s"
  shows "drift k (fst (get_or_create_account initial None now s u))"
  using assms by (auto simp: get_or_create_account_def drift_def Let_def find_row_append
      split: option.splits prod.splits)

lemma cancel_drift: "broker_inv s \<Longrightarrow> drift k s \<Longrightarrow> drift k (fst (cancel_trade now s u i))"
  using close_drift [of s CANCELLED k now _ None]
  by (auto simp: cancel_trade_def split: option.splits prod.splits) (metis fst_conv)+

lemma broker_step_drift:
  "broker_inv s \<Longrightarrow> priced_ok num op s \<Longrightarrow> drift k s \<Longrightarrow> drift k (broker_step num op s)"
  by (cases op) (auto simp: open_drift place_drift accept_drift close_drift fill_drift convert_drift cancel_drift)

interpretation cashbook: sealed_machine "broker_step num" broker_inv "priced_ok num" drift for num
  by unfold_locales (auto simp: broker_step_inv broker_step_drift dest: priced_ok_ok)

section \<open>Fills happen once\<close>

lemma fill_order_filled:
  assumes "broker_inv s" "fill_order num now s t price reserved = (s', Filled)"
  shows "\<exists>r. t_id r = t_id t \<and> t_status r = FILLED \<and> settled r s'"
proof -
  have won: "rowcount (cas_guard (t_id t)) (trades (working s)) = 1"
    using assms(2) by (auto simp: fill_order_def Let_def cas_status_def split: if_splits)
  obtain r where r: "r \<in> set (trades (working s))" "t_id r = t_id t" "open_status (t_status r)"
    using won_row [OF won] .
  have s': "trades (working s') =
      sql_update (cas_guard (t_id t)) (mark_filled num now price) (trades (working s))"
    using fill_order_result [OF assms(1) won refl refl refl, where num = num and now = now
        and price = price and reserved = reserved] assms(2) by auto
  have "mark_filled num now price r \<in> set (trades (working s'))"
    using r by (auto simp: s' in_sql_update cas_guard_def intro!: bexI [of _ r])
  then show ?thesis using r
    by (intro exI [of _ "mark_filled num now price r"])
      (auto simp: settled_def open_status_def mark_filled_def)
qed

lemma settled_not_won:
  assumes "broker_inv s" "settled r s" "t_id r = i"
  shows "rowcount (cas_guard i) (trades (working s)) \<noteq> 1"
proof
  assume "rowcount (cas_guard i) (trades (working s)) = 1"
  then obtain x where x: "x \<in> set (trades (working s))" "t_id x = i" "open_status (t_status x)"
    by (rule won_row)
  have "distinct (map t_id (trades (working s)))" using assms(1) by (simp add: broker_inv_def tables_inv_def)
  then have "x = r" using x assms(2,3) by (auto simp: settled_def distinct_map inj_on_def)
  then show False using x assms(2) by (simp add: settled_def)
qed

lemma settled_refuses:
  assumes "broker_inv s" "settled r s" "t_id r = t_id t"
  shows "fill_order num now s t price reserved = (s, NotOpen)"
    and "close_order now s t st reserved = (s, False)"
  using settled_not_won [OF assms] assms(1)
  by (simp_all add: fill_order_def close_order_def Let_def cas_status_def rollback_upd)

end
