(* ===== verification/Ledger_Properties.thy ===== *)
theory Ledger_Properties
  imports Ledger_Invariants
begin

text \<open>
  The properties of the paper broker, over the two interpretations of
  \<open>Ledger_Invariants\<close>, with the concrete runs on which they are exercised.
\<close>

section \<open>A concrete run\<close>

definition demo_order :: trade where
  "demo_order = \<lparr>t_id = ''o1'', t_user = ''u'', t_asset = ''X'', t_side = Buy, t_quantity = 2,
     t_order_type = LimitOrder, t_limit = Some 100, t_stop = None, t_tif = ''day'', t_status = PENDING,
     t_filled_price = None, t_submitted_at = 1, t_filled_at = None\<rparr>"

definition demo_account :: "int \<Rightarrow> int \<Rightarrow> account" where
  "demo_account cash reserved =
     \<lparr>a_user = ''u'', cash_micros = cash, reserved_micros = reserved, a_updated_at = 0\<rparr>"

definition demo_session :: "int \<Rightarrow> int \<Rightarrow> trade list \<Rightarrow> broker_db session" where
  "demo_session cash reserved ts =
     fresh_session \<lparr>accounts = [demo_account cash reserved], trades = ts, positions = []\<rparr>"

lemma round_half_up_numeral [simp]: "round_half_up (numeral n) = numeral n"
  using round_half_up_of_int [of "numeral n"] by simp

lemma demo_order_simps [simp]:
  "t_id demo_order = ''o1''" "t_user demo_order = ''u''" "t_side demo_order = Buy" "t_asset demo_order = ''X''"
  "t_quantity demo_order = 2" "t_status demo_order = PENDING"
  "trade_reservation_micros demo_order = 200000000" "nonneg_trade demo_order"
  "notional_micros (DecimalV 2) (FloatV 99) = 198000000"
  "notional_micros (DecimalV 2) (FloatV 600) = 1200000000"
  by (simp_all add: demo_order_def trade_reservation_micros_def reservation_micros_def
      notional_micros_def to_micros_def dmul_def nonneg_trade_def)

lemma demo_inv:
  "0 \<le> r \<Longrightarrow> r \<le> c \<Longrightarrow> broker_inv (demo_session c r [demo_order])"
  "0 \<le> r \<Longrightarrow> r \<le> c \<Longrightarrow> broker_inv (demo_session c r [])"
  by (simp_all add: demo_session_def demo_account_def broker_inv_def ledger_inv_def tables_inv_def)

lemma demo_fill_paid:
  "snd (fill_order num 5 (demo_session 1000000000 200000000 [demo_order]) demo_order 99 None) = Filled"
  by (simp add: fill_order_def demo_session_def default_reserved_def cas_status_def rowcount_def cas_guard_def
      open_status_def pay_guard_def released_def demo_account_def)

section \<open>Properties\<close>

text \<open>
  C1: over every sequence of ledger operations, whatever their interleaving and
  however stale the order objects they are handed, no account is overdrawn:
  the reserved cash stays between zero and the cash, so cash and available
  cash are never negative.
\<close>

theorem ledger_never_overdrawn:
  assumes "broker_inv s" "admissible broker_ok (broker_step num) ops s"
    and "a \<in> set (accounts (committed (fold (broker_step num) ops s)))"
  shows "0 \<le> reserved_micros a \<and> reserved_micros a \<le> cash_micros a"
  using ledger.inv_run [OF assms(1,2)] assms(3) by (auto simp: broker_inv_def ledger_inv_def)

theorem ledger_never_overdrawn_witness:
  "\<exists>a. accounts (committed (fold (broker_step repr_dec)
          [OpPlace demo_order 200000000 3, OpFill demo_order 99 None 5] (demo_session 1000000000 0 []))) = [a]
     \<and> cash_micros a = 802000000 \<and> 0 \<le> reserved_micros a \<and> reserved_micros a \<le> cash_micros a"
proof -
  let ?ops = "[OpPlace demo_order 200000000 3, OpFill demo_order 99 None 5]"
  let ?s = "demo_session 1000000000 0 []"
  let ?a = "\<lparr>a_user = ''u'', cash_micros = 802000000, reserved_micros = 0, a_updated_at = 5\<rparr>"
  have p: "place_reserved 3 ?s demo_order 200000000 =
      (fresh_session \<lparr>accounts = [\<lparr>a_user = ''u'', cash_micros = 1000000000, reserved_micros = 200000000,
          a_updated_at = 3\<rparr>], trades = [demo_order], positions = []\<rparr>, True)" (is "_ = (?s1, _)")
    by (simp add: place_reserved_def find_row_def demo_session_def try_reserve_def rowcount_def reserve_guard_def
        demo_account_def sql_update_def commit_def upd_def fresh_session_def demo_order_def)
  have f: "accounts (committed (fst (fill_order repr_dec 5 ?s1 demo_order 99 None))) = [?a]"
    by (simp add: fill_order_def default_reserved_def cas_status_def rowcount_def cas_guard_def sql_update_def
        open_status_def pay_guard_def released_def pay_def)
  have ok: "admissible broker_ok (broker_step repr_dec) ?ops ?s"
    by (simp add: p agrees_def)
  have a: "accounts (committed (fold (broker_step repr_dec) ?ops ?s)) = [?a]"
    by (simp add: p f)
  have "?a \<in> set (accounts (committed (fold (broker_step repr_dec) ?ops ?s)))" by (simp only: a) simp
  from ledger_never_overdrawn [OF demo_inv(2) ok this] a show ?thesis by simp
qed

text \<open>
  C3: a fill happens exactly once. When \<open>fill_order\<close> reports FILLED, then after
  any further operations every later attempt to fill the same order id reports
  that it is not open and every attempt to cancel or reject it fails, with the
  database unchanged, and the FILLED row is still there.
\<close>

theorem fill_exactly_once:
  assumes "broker_inv s" "broker_ok (OpFill t price reserved now) s"
    and "fill_order num now s t price reserved = (s1, Filled)"
    and "admissible broker_ok (broker_step num) ops s1" "s2 = fold (broker_step num) ops s1"
    and "t_id t' = t_id t"
  shows "fill_order num now' s2 t' price' reserved' = (s2, NotOpen)
    \<and> close_order now' s2 t' st reserved' = (s2, False)
    \<and> (\<exists>r \<in> set (trades (committed s2)). t_id r = t_id t \<and> t_status r = FILLED)"
proof -
  have inv1: "broker_inv s1" using broker_step_inv [OF assms(1,2), of num] assms(3) by simp
  obtain r where r: "t_id r = t_id t" "t_status r = FILLED" "settled r s1"
    using fill_order_filled [OF assms(1,3)] by blast
  have s2: "broker_inv s2" "settled r s2"
    using ledger.inv_run [OF inv1 assms(4)] ledger.sealed_run [OF inv1 assms(4) r(3)] assms(5) by simp_all
  then have "r \<in> set (trades (committed s2))" by (simp add: settled_def broker_inv_def)
  then show ?thesis using settled_refuses [OF s2] r assms(6) by auto
qed

theorem fill_exactly_once_witness:
  "\<exists>s1. fill_order repr_dec 5 (demo_session 1000000000 200000000 [demo_order]) demo_order 99 None = (s1, Filled)
     \<and> fill_order repr_dec 6 s1 demo_order 99 None = (s1, NotOpen)"
proof -
  let ?s = "demo_session 1000000000 200000000 [demo_order]"
  have ok: "broker_ok (OpFill demo_order 99 None 5) ?s" by (simp add: agrees_def demo_session_def)
  obtain s1 where s1: "fill_order repr_dec 5 ?s demo_order 99 None = (s1, Filled)"
    using demo_fill_paid [of repr_dec] by (cases "fill_order repr_dec 5 ?s demo_order 99 None") auto
  have "admissible broker_ok (broker_step repr_dec) [] s1" "s1 = fold (broker_step repr_dec) [] s1" by simp_all
  from fill_exactly_once [OF demo_inv(1) ok s1 this refl] s1 show ?thesis by auto
qed

text \<open>
  C4: an account's cash is its opening balance plus what its filled trades paid:
  every operation keeps the difference between the cash and the net proceeds of
  the FILLED rows, each row counted once at the price it was filled at (the
  driver storing the shortest decimal of the fill price).
\<close>

theorem cash_is_net_of_fills:
  assumes "broker_inv s" "admissible (priced_ok num) (broker_step num) ops s"
    and "find_row a_user u (accounts (working s)) = Some a"
    and "s' = fold (broker_step num) ops s"
  shows "\<exists>a'. find_row a_user u (accounts (working s')) = Some a' \<and>
    cash_micros a' - cash_micros a = net u (trades (working s')) - net u (trades (working s))"
proof -
  have "drift (u, cash_micros a - net u (trades (working s))) s" using assms(3) by (simp add: drift_def)
  from cashbook.sealed_run [OF assms(1,2) this] show ?thesis using assms(4) by (auto simp: drift_def)
qed

theorem cash_is_net_of_fills_witness:
  "\<exists>a'. find_row a_user ''u'' (accounts (working (fold (broker_step repr_dec)
          [OpFill demo_order 99 None 5] (demo_session 1000000000 200000000 [demo_order])))) = Some a'
     \<and> cash_micros a' = 802000000"
proof -
  let ?s = "demo_session 1000000000 200000000 [demo_order]"
  have ok: "admissible (priced_ok repr_dec) (broker_step repr_dec) [OpFill demo_order 99 None 5] ?s"
    by (simp add: agrees_def demo_session_def)
  have "find_row a_user ''u'' (accounts (working ?s)) = Some (demo_account 1000000000 200000000)"
    by (simp add: find_row_def demo_session_def demo_account_def)
  from cash_is_net_of_fills [OF demo_inv(1) ok this refl] show ?thesis
    by (simp add: fill_order_def default_reserved_def cas_status_def rowcount_def cas_guard_def sql_update_def
        open_status_def pay_guard_def released_def demo_session_def demo_account_def net_def flow_def
        mark_filled_def pay_def notional_micros_def to_micros_def dmul_def)
qed

lemma open_row_won:
  assumes "broker_inv s" "row \<in> set (trades (working s))" "t_id row = i" "open_status (t_status row)"
  shows "rowcount (cas_guard i) (trades (working s)) = 1"
  using assms by (intro rowcount_eq_1 [of t_id _ _ i row]) (auto simp: cas_guard_def broker_inv_def tables_inv_def)

lemma fill_rejected_iff:
  assumes "broker_inv s" "rowcount (cas_guard (t_id t)) (trades (working s)) = 1"
    and "a \<in> set (accounts (working s))" "a_user a = t_user t" "r = default_reserved reserved t"
  shows "(\<exists>m. snd (fill_order num now s t price reserved) = Rejected m) \<longleftrightarrow>
     (if t_side t = Buy
      then cash_micros a - notional_micros (DecimalV (t_quantity t)) (FloatV price) < released r a
      else held_quantity ((working s)\<lparr>trades := sql_update (cas_guard (t_id t)) (mark_filled num now price)
             (trades (working s))\<rparr>) (t_user t) (t_asset t) (Some (t_id t)) < t_quantity t)"
proof -
  have "distinct (map a_user (accounts (working s)))" using assms(1) by (simp add: broker_inv_def tables_inv_def)
  then have "rowcount (pay_guard (t_user t) cost r) (accounts (working s)) = 1 \<longleftrightarrow> pay_guard (t_user t) cost r a" for cost
    using assms(3,4) by (intro rowcount_1_iff [of a_user _ _ "t_user t"]) (auto simp: pay_guard_def)
  then show ?thesis using assms(2,4,5) by (auto simp: fill_order_def Let_def cas_status_def pay_guard_def)
qed

lemma fill_rejected_effect:
  assumes "broker_inv s" "fill_order num now s t price reserved = (s', Rejected m)"
  shows "s' = fst (close_order now s t REJECTED (Some (default_reserved reserved t)))
    \<and> rowcount (cas_guard (t_id t)) (trades (working s)) = 1"
  using assms by (auto simp: fill_order_def Let_def cas_status_def rollback_upd split: if_splits)

text \<open>
  A fill is refused exactly when it cannot be settled. On an open order
  \<open>fill_order\<close> reports a rejection if and only if a buyer's account, after
  releasing this order's own reservation, cannot pay the cost without touching
  the cash other orders reserved, or a seller holds less than the quantity; the
  row is then REJECTED, the reservation is released, and no cash and no position
  has changed.
\<close>

theorem rejection_is_exact:
  assumes "broker_inv s" "row \<in> set (trades (working s))" "t_id row = t_id t" "open_status (t_status row)"
    and "a \<in> set (accounts (working s))" "a_user a = t_user t"
    and "r = default_reserved reserved t"
    and "fill_order num now s t price reserved = (s', outcome)"
  shows "((\<exists>m. outcome = Rejected m) \<longleftrightarrow>
     (if t_side t = Buy
      then cash_micros a - notional_micros (DecimalV (t_quantity t)) (FloatV price) < released r a
      else held_quantity ((working s)\<lparr>trades := sql_update (cas_guard (t_id t)) (mark_filled num now price)
             (trades (working s))\<rparr>) (t_user t) (t_asset t) (Some (t_id t)) < t_quantity t))
    \<and> ((\<exists>m. outcome = Rejected m) \<longrightarrow>
     trades (committed s') =
        sql_update (cas_guard (t_id t)) (\<lambda>x. x\<lparr>t_status := REJECTED\<rparr>) (trades (committed s))
     \<and> accounts (committed s') =
        (if 0 < r then sql_update (\<lambda>x. a_user x = t_user t)
            (\<lambda>x. x\<lparr>reserved_micros := released r x, a_updated_at := now\<rparr>) (accounts (committed s))
         else accounts (committed s))
     \<and> positions (committed s') = positions (committed s))"
proof -
  have won: "rowcount (cas_guard (t_id t)) (trades (working s)) = 1" using assms(1-4) by (rule open_row_won)
  have "committed s = working s" using assms(1) by (simp add: broker_inv_def)
  then show ?thesis
    using fill_rejected_iff [OF assms(1) won assms(5-7), of num now price] assms(7,8)
      fill_rejected_effect [OF assms(1), of num now t price reserved s'] won
    by (auto simp: close_order_def default_reserved_def release_stmt_def Let_def cas_status_def)
qed

theorem rejection_is_exact_witness:
  "\<exists>m. snd (fill_order repr_dec 5 (demo_session 1000000000 200000000 [demo_order]) demo_order 600 None) = Rejected m"
proof -
  let ?s = "demo_session 1000000000 200000000 [demo_order]"
  have "demo_order \<in> set (trades (working ?s))" "open_status (t_status demo_order)"
    "demo_account 1000000000 200000000 \<in> set (accounts (working ?s))"
    "a_user (demo_account 1000000000 200000000) = t_user demo_order"
    by (simp_all add: demo_session_def open_status_def demo_account_def)
  note rejection_is_exact [OF demo_inv(1) this(1) refl this(2,3,4) refl surjective_pairing,
      where num = repr_dec and now = 5 and price = 600 and reserved = None]
  then show ?thesis by (simp add: default_reserved_def released_def demo_account_def)
qed

text \<open>
  Reserving and releasing is a round trip. Cancelling (or rejecting, or
  expiring) an order right after it was placed with the reservation it was
  placed with succeeds and restores every account's cash and reserved cash.
\<close>

theorem reserve_release_roundtrip:
  assumes "broker_inv s" "place_reserved now s t reserve = (s1, True)"
    and "t_id t' = t_id t" "t_user t' = t_user t"
    and "close_order now' s1 t' st (Some reserve) = (s2, won)"
  shows "won \<and> map (\<lambda>a. (a_user a, cash_micros a, reserved_micros a)) (accounts (committed s2)) =
    map (\<lambda>a. (a_user a, cash_micros a, reserved_micros a)) (accounts (committed s))"
proof -
  have "find_row t_id (t_id t) (trades (working s)) = None"
    using assms(2) by (auto simp: place_reserved_def split: if_splits)
  then have "t_id t \<notin> t_id ` set (trades (working s))" by (simp only: find_row_None simp_thms)
  then have new: "filter (cas_guard (t_id t)) (trades (working s)) = []"
    unfolding filter_empty_conv cas_guard_def by (metis imageI)
  have inv: "committed s = working s" and d: "distinct (map a_user (accounts (working s)))"
    using assms(1) by (simp_all add: broker_inv_def tables_inv_def)
  have tr: "trades (working s1) = trades (working s) @ [t\<lparr>t_status := PENDING, t_filled_price := None, t_filled_at := None\<rparr>]"
    and ac: "accounts (working s1) = accounts (working (fst (try_reserve now s (t_user t) reserve)))"
    and got: "snd (try_reserve now s (t_user t) reserve)"
    using assms(2) by (auto simp: place_reserved_def try_reserve_def Let_def split: if_splits prod.splits)
  have "rowcount (cas_guard (t_id t')) (trades (working s1)) = 1"
    using new assms(3) by (simp add: tr rowcount_def cas_guard_def [of "t_id t" "_\<lparr>t_status := _, t_filled_price := _, t_filled_at := _\<rparr>"] open_status_def)
  then have won: won and a2: "accounts (committed s2) =
      (if 0 < reserve then accounts (release_stmt now' (t_user t) reserve (working s1)) else accounts (working s1))"
    using assms(4,5) by (auto simp: close_order_def default_reserved_def cas_status_def Let_def release_stmt_def)
  have "reserve_guard (t_user t) reserve a" if "0 < reserve" "a \<in> set (accounts (working s))" "a_user a = t_user t" for a
    using guarded_account [OF d, of "reserve_guard (t_user t) reserve" "t_user t" a] got that
      find_row_in [OF d that(2)] by (auto simp: try_reserve_def reserve_guard_def)
  moreover have "0 \<le> reserved_micros a" if "a \<in> set (accounts (working s))" for a
    using assms(1) that by (simp add: broker_inv_def ledger_inv_def)
  ultimately show ?thesis using won
    by (auto simp: a2 ac inv try_reserve_def release_stmt_def sql_update_def released_def reserve_guard_def)
qed

theorem reserve_release_roundtrip_witness:
  "\<exists>s1 s2. place_reserved 3 (demo_session 1000000000 0 []) demo_order 200000000 = (s1, True)
     \<and> close_order 4 s1 demo_order CANCELLED (Some 200000000) = (s2, True)
     \<and> map reserved_micros (accounts (committed s2)) = [0]"
proof -
  let ?s = "demo_session 1000000000 0 []"
  have "snd (place_reserved 3 ?s demo_order 200000000)"
    by (simp add: place_reserved_def find_row_def demo_session_def try_reserve_def rowcount_def reserve_guard_def
        demo_account_def)
  then obtain s1 where s1: "place_reserved 3 ?s demo_order 200000000 = (s1, True)"
    by (cases "place_reserved 3 ?s demo_order 200000000") auto
  obtain s2 w where s2: "close_order 4 s1 demo_order CANCELLED (Some 200000000) = (s2, w)" by fastforce
  from reserve_release_roundtrip [OF demo_inv(2) s1 refl refl s2]
  have r: w "map (\<lambda>a. (a_user a, cash_micros a, reserved_micros a)) (accounts (committed s2)) = [(''u'', 1000000000, 0)]"
    by (simp_all add: demo_session_def demo_account_def)
  have "map reserved_micros (accounts (committed s2)) =
      map (snd \<circ> snd) (map (\<lambda>a. (a_user a, cash_micros a, reserved_micros a)) (accounts (committed s2)))"
    by (simp add: comp_def)
  then show ?thesis using s1 s2 r by auto
qed

text \<open>
  C5: the sweeper's SQL predicate selects exactly the resting orders the sweeper
  then acts on: at price \<open>px\<close> a row is actionable if and only if the loop body
  computes a fill price for it or converts a triggered stop-limit to a limit.
\<close>

theorem sweep_acts_exactly_on_actionable:
  assumes "case t_stop t of None \<Rightarrow> True | Some s \<Rightarrow> 0 < fl s"
  shows "actionable px t \<longleftrightarrow>
    sweep_fill_price t px \<noteq> None \<or>
    (t_order_type t = StopLimitOrder \<and> (\<exists>s. t_stop t = Some s \<and> stop_triggered (t_side t) (fl s) px))"
  using assms
  by (cases "t_order_type t"; cases "t_side t"; cases "t_limit t"; cases "t_stop t")
     (auto simp: actionable_def sweep_fill_price_def check_pending_limit_fill_def simulate_fill_def
        sim_triggered_def stop_triggered_def Let_def)

theorem sweep_acts_exactly_on_actionable_witness:
  "let t = demo_order\<lparr>t_order_type := StopLimitOrder, t_stop := Some 110\<rparr>
   in actionable 120 t \<and> sweep_fill_price t 120 = None \<and> \<not> actionable 105 t"
proof -
  let ?t = "demo_order\<lparr>t_order_type := StopLimitOrder, t_stop := Some 110\<rparr>"
  have "case t_stop ?t of None \<Rightarrow> True | Some s \<Rightarrow> 0 < fl s" by simp
  note this [THEN sweep_acts_exactly_on_actionable]
  from this [of 120] this [of 105] show ?thesis
    by (simp add: sweep_fill_price_def simulate_fill_def sim_triggered_def stop_triggered_def demo_order_def)
qed

end
