(* ===== verification/Json_Values.thy ===== *)
theory Json_Values
  imports Numerics "HOL-Library.List_Lexorder" "HOL-Library.Char_ord"
begin

text \<open>
  JSON values as Python holds them after decoding, with the operations the
  services use: equality, \<^verbatim>\<open>dict.get\<close>, the removal of non-finite floats
  (\<^verbatim>\<open>research_jobs._finite\<close>) and the deterministic text
  \<^verbatim>\<open>json.dumps(v, sort_keys=True, separators=(",", ":"))\<close> that the hashes are taken
  of (\<open>ascii\<close> is \<^verbatim>\<open>ensure_ascii\<close>). Strings are character lists with code points below 256. The text of a
  float is an argument.
\<close>

datatype json =
    JNull
  | JBool bool
  | JInt int
  | JFloat pyfloat
  | JNonFinite
  | JStr string
  | JArr "json list"
  | JObj "(string \<times> json) list"

definition jget :: "json \<Rightarrow> string \<Rightarrow> json option" where
  "jget v k = (case v of JObj d \<Rightarrow> dict_get d k | _ \<Rightarrow> None)"

definition jput :: "string \<Rightarrow> json \<Rightarrow> json \<Rightarrow> json" where
  "jput k x v = (case v of JObj d \<Rightarrow> JObj (dict_set k x d) | _ \<Rightarrow> v)"

fun jnumber :: "json \<Rightarrow> rat option" where
  "jnumber (JBool b) = Some (if b then 1 else 0)"
| "jnumber (JInt n) = Some (of_int n)"
| "jnumber (JFloat x) = Some x"
| "jnumber _ = None"

lemma size_obj_mem: "p \<in> set d \<Longrightarrow> size (snd p :: json) < Suc (size_list (size_prod (\<lambda>_. 0) size) d)"
proof (induction d)
  case (Cons q d)
  then show ?case by (cases q) (auto simp: size_prod_simp)
qed simp

lemma size_arr_mem: "x \<in> set xs \<Longrightarrow> size (x :: json) < Suc (size_list size xs)"
  by (induction xs) auto

text \<open>Python's \<^verbatim>\<open>==\<close> on decoded JSON: numbers (and bools) compare by value, dicts
  without regard to order.\<close>

function (sequential) py_eq :: "json \<Rightarrow> json \<Rightarrow> bool" where
  "py_eq JNull JNull = True"
| "py_eq (JStr a) (JStr b) = (a = b)"
| "py_eq (JArr xs) (JArr ys) =
     (length xs = length ys \<and> list_all (\<lambda>p. py_eq (fst p) (snd p)) (zip xs ys))"
| "py_eq (JObj d) (JObj e) =
     (length d = length e \<and>
      list_all (\<lambda>p. case dict_get e (fst p) of None \<Rightarrow> False | Some w \<Rightarrow> py_eq (snd p) w) d)"
| "py_eq a b = (case (jnumber a, jnumber b) of (Some x, Some y) \<Rightarrow> x = y | _ \<Rightarrow> False)"
  by pat_completeness auto

termination
proof (relation "measure (\<lambda>(a, b). size a)")
  fix xs ys :: "json list" and p
  assume "p \<in> set (zip xs ys)"
  then have "fst p \<in> set xs" by (metis in_set_zipE prod.collapse)
  then show "((fst p, snd p), JArr xs, JArr ys) \<in> measure (\<lambda>(a, b). size a)"
    using size_arr_mem [of "fst p" xs] by (cases p) simp
next
  fix d e :: "(string \<times> json) list" and p w
  assume "p \<in> set d"
  then show "((snd p, w), JObj d, JObj e) \<in> measure (\<lambda>(a, b). size a)"
    using size_obj_mem [of p d] by simp
qed simp

fun finite_json :: "json \<Rightarrow> json" where
  "finite_json JNonFinite = JNull"
| "finite_json (JArr xs) = JArr (map finite_json xs)"
| "finite_json (JObj d) = JObj (map (\<lambda>(k, v). (k, finite_json v)) d)"
| "finite_json v = v"

fun no_nonfinite :: "json \<Rightarrow> bool" where
  "no_nonfinite JNonFinite = False"
| "no_nonfinite (JArr xs) = list_all no_nonfinite xs"
| "no_nonfinite (JObj d) = list_all (\<lambda>(k, v). no_nonfinite v) d"
| "no_nonfinite v = True"

lemma finite_json_finite: "no_nonfinite (finite_json v)"
  by (induction v rule: finite_json.induct) (auto simp: list_all_iff)

lemma finite_json_id: "no_nonfinite v \<Longrightarrow> finite_json v = v"
  by (induction v rule: finite_json.induct) (auto simp: list_all_iff intro!: map_idI)

section \<open>Deterministic text\<close>

definition hex_digit :: "nat \<Rightarrow> char" where
  "hex_digit n = ''0123456789abcdef'' ! (n mod 16)"

fun digits_of :: "nat \<Rightarrow> string" where
  "digits_of n = (if n < 10 then [hex_digit n] else digits_of (n div 10) @ [hex_digit (n mod 10)])"

declare digits_of.simps [simp del]

definition int_text :: "int \<Rightarrow> string" where
  "int_text n = (if n < 0 then CHR ''-'' # digits_of (nat (- n)) else digits_of (nat n))"

definition escape_char :: "bool \<Rightarrow> char \<Rightarrow> string" where
  "escape_char ascii c =
     (let n = of_char c :: nat in
      if c = CHR 0x22 then [CHR 0x5C, CHR 0x22]
      else if c = CHR 0x5C then [CHR 0x5C, CHR 0x5C]
      else if n = 10 then [CHR 0x5C, CHR ''n'']
      else if n = 13 then [CHR 0x5C, CHR ''r'']
      else if n = 9 then [CHR 0x5C, CHR ''t'']
      else if n = 8 then [CHR 0x5C, CHR ''b'']
      else if n = 12 then [CHR 0x5C, CHR ''f'']
      else if n < 32 \<or> (ascii \<and> 126 < n)
      then CHR 0x5C # ''u00'' @ [hex_digit (n div 16), hex_digit n]
      else [c])"

definition string_text :: "bool \<Rightarrow> string \<Rightarrow> string" where
  "string_text ascii s = CHR 0x22 # concat (map (escape_char ascii) s) @ [CHR 0x22]"

fun join :: "string \<Rightarrow> string list \<Rightarrow> string" where
  "join sep [] = []"
| "join sep [x] = x"
| "join sep (x # xs) = x @ sep @ join sep xs"

fun json_text :: "bool \<Rightarrow> (pyfloat \<Rightarrow> string) \<Rightarrow> json \<Rightarrow> string" where
  "json_text ascii ft JNull = ''null''"
| "json_text ascii ft (JBool b) = (if b then ''true'' else ''false'')"
| "json_text ascii ft (JInt n) = int_text n"
| "json_text ascii ft (JFloat x) = ft x"
| "json_text ascii ft JNonFinite = ''NaN''"
| "json_text ascii ft (JStr s) = string_text ascii s"
| "json_text ascii ft (JArr xs) = ''['' @ join '','' (map (json_text ascii ft) xs) @ '']''"
| "json_text ascii ft (JObj d) =
     ''{'' @ join '','' (map (\<lambda>(k, t). string_text ascii k @ '':'' @ t)
                    (sort_key fst (map (\<lambda>(k, v). (k, json_text ascii ft v)) d))) @ ''}''"

section \<open>String operations\<close>

definition char_upper :: "char \<Rightarrow> char" where
  "char_upper c = (let n = of_char c :: nat in if 97 \<le> n \<and> n \<le> 122 then char_of (n - 32) else c)"

definition str_upper :: "string \<Rightarrow> string" where
  "str_upper s = map char_upper s"

definition is_space :: "char \<Rightarrow> bool" where
  "is_space c \<longleftrightarrow> (of_char c :: nat) \<in> {9, 10, 11, 12, 13, 28, 29, 30, 31, 32, 133, 160}"

definition strip :: "string \<Rightarrow> string" where
  "strip s = rev (dropWhile is_space (rev (dropWhile is_space s)))"

definition starts_with :: "string \<Rightarrow> string \<Rightarrow> bool" where
  "starts_with p s \<longleftrightarrow> take (length p) s = p"

end
