(* ===== verification/Research_Trials.thy ===== *)
theory Research_Trials
  imports Json_Values
begin

text \<open>
  \<^verbatim>\<open>src/backend/services/research_trials.py\<close>: the ledger of evaluated strategy
  configurations. SHA-256 is an argument (\<open>sha\<close>), as is the text of a float; the
  rows another request commits while this one writes are an argument of each
  attempt.
\<close>

record trial =
  tr_user :: string
  tr_family :: string
  tr_config :: string
  tr_source :: string

definition RECORD_ATTEMPTS :: nat where
  "RECORD_ATTEMPTS = 3"

definition digest :: "(string \<Rightarrow> string) \<Rightarrow> (pyfloat \<Rightarrow> string) \<Rightarrow> json \<Rightarrow> string" where
  "digest sha ft v = sha (json_text True ft v)"

definition family_hash ::
  "(string \<Rightarrow> string) \<Rightarrow> (pyfloat \<Rightarrow> string) \<Rightarrow> string \<Rightarrow> string list \<Rightarrow> string" where
  "family_hash sha ft strategy assets =
     digest sha ft (JObj [(''strategy'', JStr strategy),
       (''assets'', JArr (map JStr (sort (remdups (map (\<lambda>a. str_upper (strip a)) assets)))))])"

definition trial_key :: "trial \<Rightarrow> string \<times> string \<times> string" where
  "trial_key r = (tr_user r, tr_family r, tr_config r)"

definition trial_count :: "trial list \<Rightarrow> string \<Rightarrow> string \<Rightarrow> nat" where
  "trial_count ts u family = length (filter (\<lambda>r. tr_user r = u \<and> tr_family r = family) ts)"

text \<open>
  The retry loop. \<open>others\<close> lists, for each attempt, the rows committed by other
  requests between its read and its commit; a shared key fails the commit, which
  is rolled back and the rows re-read.
\<close>

fun record_loop ::
  "nat \<Rightarrow> (nat \<Rightarrow> trial list) \<Rightarrow> string \<Rightarrow> string \<Rightarrow> string list \<Rightarrow> string \<Rightarrow> trial list \<Rightarrow> trial list" where
  "record_loop 0 others u family hashes source ts = ts"
| "record_loop (Suc n) others u family hashes source ts =
     (let fresh = filter (\<lambda>h. (u, family, h) \<notin> trial_key ` set ts) hashes in
      if fresh = [] then ts
      else let rows = map (\<lambda>h. \<lparr>tr_user = u, tr_family = family, tr_config = h, tr_source = source\<rparr>) fresh;
               ts' = ts @ others n
           in if list_ex (\<lambda>r. trial_key r \<in> trial_key ` set ts') rows
              then record_loop n others u family hashes source ts'
              else ts' @ rows)"

text \<open>\<^verbatim>\<open>list(dict.fromkeys(xs))\<close> keeps the first occurrence of each element.\<close>

fun first_occurrences :: "'a list \<Rightarrow> 'a list" where
  "first_occurrences [] = []"
| "first_occurrences (x # xs) = x # filter (\<lambda>y. y \<noteq> x) (first_occurrences xs)"

definition record_trials ::
  "(string \<Rightarrow> string) \<Rightarrow> (pyfloat \<Rightarrow> string) \<Rightarrow> (nat \<Rightarrow> trial list) \<Rightarrow> trial list
     \<Rightarrow> string \<Rightarrow> string \<Rightarrow> json list \<Rightarrow> string \<Rightarrow> trial list \<times> nat" where
  "record_trials sha ft others ts u family configs source =
     (let hashes = first_occurrences (map (digest sha ft) configs);
          ts' = record_loop RECORD_ATTEMPTS others u family hashes source ts
      in (ts', trial_count ts' u family))"

section \<open>Properties\<close>

lemma set_first_occurrences [simp]: "set (first_occurrences xs) = set xs"
  by (induction xs) auto

lemma distinct_first_occurrences [simp]: "distinct (first_occurrences xs)"
  by (induction xs) auto

lemma trial_key_mem:
  "h \<in> {h. (u, family, h) \<in> trial_key ` set ts} \<longleftrightarrow>
   (\<exists>r. r \<in> set ts \<and> tr_user r = u \<and> tr_family r = family \<and> tr_config r = h)"
  unfolding trial_key_def image_iff mem_Collect_eq prod.inject Bex_def by metis

lemma record_loop_unique:
  assumes "distinct (map trial_key ts)" "distinct hashes"
    and "\<And>n ts. distinct (map trial_key ts) \<Longrightarrow> distinct (map trial_key (ts @ others n))"
  shows "distinct (map trial_key (record_loop n others u family hashes source ts))"
  using assms
proof (induction n others u family hashes source ts rule: record_loop.induct)
  case (2 n others u family hashes source ts)
  let ?fresh = "filter (\<lambda>h. (u, family, h) \<notin> trial_key ` set ts) hashes"
  let ?row = "\<lambda>h. \<lparr>tr_user = u, tr_family = family, tr_config = h, tr_source = source\<rparr>"
  have d: "distinct (map trial_key (ts @ others n))" using 2 by blast
  have "distinct (map trial_key (map ?row ?fresh))"
    using 2(3) by (simp add: distinct_map inj_on_def trial_key_def)
  then have "\<not> list_ex (\<lambda>r. trial_key r \<in> trial_key ` set (ts @ others n)) (map ?row ?fresh) \<Longrightarrow>
      distinct (map trial_key ((ts @ others n) @ map ?row ?fresh))"
    using d by (auto simp: list_ex_iff)
  then show ?case using 2 d by (auto simp: Let_def)
qed simp

lemma record_loop_mono: "set ts \<subseteq> set (record_loop n others u family hashes source ts)"
  by (induction n others u family hashes source ts rule: record_loop.induct) (auto simp: Let_def)

lemma record_loop_alone:
  "trial_key ` set (record_loop (Suc n) (\<lambda>_. []) u family hashes source ts) =
   trial_key ` set ts \<union> (\<lambda>h. (u, family, h)) ` set hashes"
proof -
  let ?fresh = "filter (\<lambda>h. (u, family, h) \<notin> trial_key ` set ts) hashes"
  let ?rows = "map (\<lambda>h. \<lparr>tr_user = u, tr_family = family, tr_config = h, tr_source = source\<rparr>) ?fresh"
  have k: "trial_key ` set ?rows = (\<lambda>h. (u, family, h)) ` set ?fresh"
    by (simp add: trial_key_def image_image)
  have "trial_key r \<notin> trial_key ` set ts" if "r \<in> set ?rows" for r
  proof -
    have "trial_key r \<in> (\<lambda>h. (u, family, h)) ` set ?fresh" unfolding k [symmetric] using that by (rule imageI)
    then obtain h where "trial_key r = (u, family, h)" "h \<in> set ?fresh" by (rule imageE)
    then show ?thesis by simp
  qed
  then have "\<not> list_ex (\<lambda>r. trial_key r \<in> trial_key ` set ts) ?rows"
    unfolding list_ex_iff by blast
  then have "set (record_loop (Suc n) (\<lambda>_. []) u family hashes source ts) = set ts \<union> set ?rows"
    by (cases "?fresh = []") (simp_all only: record_loop.simps Let_def append_Nil2 if_True if_False simp_thms
        list.map set_append set_simps Un_empty_right)
  then have "trial_key ` set (record_loop (Suc n) (\<lambda>_. []) u family hashes source ts) =
      trial_key ` set ts \<union> (\<lambda>h. (u, family, h)) ` set ?fresh" by (simp only: image_Un k)
  then show ?thesis by auto
qed

lemma record_loop_only:
  assumes "r \<in> set (record_loop n (\<lambda>_. []) u family hashes source ts)"
  shows "r \<in> set ts \<or> (tr_user r = u \<and> tr_family r = family \<and> tr_config r \<in> set hashes)"
  using assms
  by (induction n "\<lambda>_ :: nat. [] :: trial list" u family hashes source ts rule: record_loop.induct)
     (auto simp: Let_def split: if_splits)

lemma trial_count_card:
  assumes "distinct (map trial_key ts)"
  shows "trial_count ts u family = card {h. (u, family, h) \<in> trial_key ` set ts}"
proof -
  let ?f = "filter (\<lambda>r. tr_user r = u \<and> tr_family r = family) ts"
  have "distinct (map trial_key ?f)" using assms distinct_map_filter by blast
  then have "inj_on trial_key (set ?f)" "distinct ts" using assms by (simp_all add: distinct_map)
  moreover have "trial_key r = (u, family, tr_config r)" if "r \<in> set ?f" for r
    using that by (simp add: trial_key_def)
  ultimately have "distinct (map tr_config ?f)" unfolding distinct_map
    by (metis (no_types, lifting) distinct_filter inj_on_def)
  then have "length ?f = card (tr_config ` set ?f)" using distinct_card [of "map tr_config ?f"] by simp
  also have "tr_config ` set ?f = {h. (u, family, h) \<in> trial_key ` set ts}"
    unfolding set_eq_iff trial_key_mem unfolding image_iff set_filter Bex_def mem_Collect_eq by metis
  finally show ?thesis by (simp add: trial_count_def)
qed

text \<open>
  The trial count is the number of distinct configurations ever evaluated.
  Recording a batch adds exactly the digests that were not yet in the ledger for
  this user and research family, so re-running a configuration never inflates the
  count and no evaluated configuration is left out of it.
\<close>

theorem trial_count_is_distinct_configs:
  assumes "distinct (map trial_key ts)"
    and "record_trials sha ft (\<lambda>_. []) ts u family configs source = (ts', n)"
  shows "distinct (map trial_key ts') \<and>
    n = card ({h. (u, family, h) \<in> trial_key ` set ts} \<union> digest sha ft ` set configs)"
proof -
  let ?hs = "first_occurrences (map (digest sha ft) configs)"
  have ts': "ts' = record_loop (Suc 2) (\<lambda>_. []) u family ?hs source ts" and n: "n = trial_count ts' u family"
    using assms(2) by (auto simp: record_trials_def Let_def RECORD_ATTEMPTS_def numeral_3_eq_3 numeral_2_eq_2)
  have d: "distinct (map trial_key ts')" unfolding ts' using assms(1) by (intro record_loop_unique) auto
  have "{h. (u, family, h) \<in> trial_key ` set ts'} = {h. (u, family, h) \<in> trial_key ` set ts} \<union> digest sha ft ` set configs"
    unfolding ts' record_loop_alone by auto
  then show ?thesis using d n trial_count_card [OF d] by simp
qed

theorem trial_count_is_distinct_configs_witness:
  "snd (record_trials (\<lambda>s. s) (\<lambda>_. []) (\<lambda>_. []) [] ''u'' ''f'' [JInt 1, JInt 2, JInt 1] ''backtest'') = 2"
proof -
  obtain ts' n where r: "record_trials (\<lambda>s. s) (\<lambda>_. []) (\<lambda>_. []) [] ''u'' ''f'' [JInt 1, JInt 2, JInt 1] ''backtest'' = (ts', n)"
    by fastforce
  have "digest (\<lambda>s. s) (\<lambda>_. []) (JInt 1) = ''1''" "digest (\<lambda>s. s) (\<lambda>_. []) (JInt 2) = ''2''"
    by (simp_all add: digest_def int_text_def digits_of.simps hex_digit_def)
  then have "n = card {''1'', ''2'', ''1''}" using trial_count_is_distinct_configs [OF _ r] by simp
  also have "\<dots> = 2" by (subst insert_commute) simp
  finally show ?thesis using r by simp
qed

end
