(* ===== verification/Research_Jobs.thy ===== *)
theory Research_Jobs
  imports Research_Trials
begin

text \<open>
  \<^verbatim>\<open>src/backend/services/research_jobs.py\<close>: the research job queue. The database is
  the jobs, workers and trials tables and the rest (\<open>'x\<close>: datasets, experiments,
  backtests, audit rows), which only the hooks of \<open>complete\<close> touch: the kind's
  finalizer, the market-data recorder, the backtest history row and the audit
  writer are arguments. FastAPI's encoder is an argument (\<open>encode\<close>). Times are
  microseconds; row ids and clock readings are arguments.
\<close>

section \<open>Tables\<close>

datatype job_status = QUEUED | RUNNING | SUCCEEDED | FAILED | JCANCELLED

definition active :: "job_status \<Rightarrow> bool" where
  "active st \<longleftrightarrow> st = QUEUED \<or> st = RUNNING"

definition terminal :: "job_status \<Rightarrow> bool" where
  "terminal st \<longleftrightarrow> st = SUCCEEDED \<or> st = FAILED \<or> st = JCANCELLED"

record job =
  j_id :: string
  j_user :: string
  j_kind :: string
  j_params :: json
  j_status :: job_status
  j_cancel :: bool
  j_attempts :: int
  j_max_attempts :: int
  j_worker :: "string option"
  j_lease :: "int option"
  j_created :: int
  j_started :: "int option"
  j_finished :: "int option"
  j_result :: "json option"
  j_error_status :: "int option"
  j_error_detail :: "string option"

record worker_row =
  w_id :: string
  w_hostname :: string
  w_pid :: int
  w_started :: int
  w_seen :: int
  w_job :: "string option"

record 'x jobs_db =
  jobs :: "job list"
  workers :: "worker_row list"
  trial_rows :: "trial list"
  rest :: 'x

abbreviation upd_jobs :: "(job list \<Rightarrow> job list) \<Rightarrow> 'x jobs_db session \<Rightarrow> 'x jobs_db session" where
  "upd_jobs f \<equiv> upd (\<lambda>d. d\<lparr>jobs := f (jobs d)\<rparr>)"

section \<open>Job kinds\<close>

record job_kind =
  k_target :: string
  k_audit :: string
  k_finalize :: "string option"
  k_market :: bool

definition task_kind :: "string \<Rightarrow> string \<Rightarrow> job_kind" where
  "task_kind f audit =
     \<lparr>k_target = ''backend.services.research_tasks:'' @ f, k_audit = audit, k_finalize = None, k_market = True\<rparr>"

definition experiment_kind :: "string \<Rightarrow> string \<Rightarrow> job_kind" where
  "experiment_kind audit final =
     \<lparr>k_target = ''backend.services.research_tasks:experiment_execution'', k_audit = audit,
      k_finalize = Some (''backend.services.experiment_registry:'' @ final), k_market = False\<rparr>"

definition KINDS :: "(string, job_kind) dict" where
  "KINDS =
    [(''ma_backtest'', task_kind ''ma_backtest'' ''BACKTEST_COMPLETED''),
     (''advanced_backtest'', task_kind ''advanced_backtest'' ''ADVANCED_BACKTEST''),
     (''walk_forward'', task_kind ''walk_forward'' ''WALK_FORWARD''),
     (''event_backtest'', task_kind ''event_backtest'' ''EVENT_BACKTEST''),
     (''alpha'', task_kind ''alpha_research'' ''ALPHA_RESEARCH''),
     (''factor_model'', task_kind ''factor_model'' ''FACTOR_MODEL''),
     (''correlation'', task_kind ''correlation'' ''CORRELATION_ANALYSIS''),
     (''optimize'', task_kind ''portfolio_optimization'' ''PORTFOLIO_OPT''),
     (''regime'', task_kind ''regime_detection'' ''REGIME_DETECTION''),
     (''neutral_strategy'', task_kind ''neutral_strategy'' ''NEUTRAL_STRATEGY''),
     (''pairs_trading'', task_kind ''pairs_trading'' ''PAIRS_TRADING''),
     (''latency_benchmark'', task_kind ''latency_benchmark'' ''LATENCY_BENCHMARK''),
     (''report'', task_kind ''research_report'' ''RESEARCH_REPORT''),
     (''stat_test'', (task_kind ''statistical_tests'' ''STAT_TEST'')\<lparr>k_market := False\<rparr>),
     (''experiment_run'', experiment_kind ''EXPERIMENT_RUN'' ''finalize_run_job''),
     (''experiment_validate'', experiment_kind ''EXPERIMENT_VALIDATED'' ''finalize_validate_job''),
     (''experiment_replay'', experiment_kind ''EXPERIMENT_REPLAYED'' ''finalize_replay_job''),
     (''dataset_snapshot'',
       \<lparr>k_target = ''backend.services.research_tasks:dataset_snapshot'', k_audit = ''DATASET_SNAPSHOT'',
        k_finalize = Some ''backend.services.dataset_registry:finalize_snapshot_job'', k_market = False\<rparr>)]"

definition json_safe :: "('v \<Rightarrow> json) \<Rightarrow> 'v \<Rightarrow> json" where
  "json_safe encode v = finite_json (encode v)"

section \<open>API side\<close>

datatype enqueue_error = UnknownKind | QueueFull nat int

definition active_jobs :: "job list \<Rightarrow> string \<Rightarrow> nat" where
  "active_jobs js u = length (filter (\<lambda>j. j_user j = u \<and> active (j_status j)) js)"

definition same_params :: "string list \<Rightarrow> json \<Rightarrow> json \<Rightarrow> bool" where
  "same_params names p q \<longleftrightarrow>
     list_all (\<lambda>f. case (jget p f, jget q f) of
        (None, None) \<Rightarrow> True
      | (Some a, Some b) \<Rightarrow> py_eq a b
      | (None, Some b) \<Rightarrow> b = JNull
      | (Some a, None) \<Rightarrow> a = JNull) names"

definition new_job :: "string \<Rightarrow> string \<Rightarrow> string \<Rightarrow> json \<Rightarrow> int \<Rightarrow> int \<Rightarrow> job" where
  "new_job i u kind params max_attempts now =
     \<lparr>j_id = i, j_user = u, j_kind = kind, j_params = params, j_status = QUEUED, j_cancel = False,
      j_attempts = 0, j_max_attempts = max_attempts, j_worker = None, j_lease = None, j_created = now,
      j_started = None, j_finished = None, j_result = None, j_error_status = None, j_error_detail = None\<rparr>"

definition enqueue ::
  "int \<Rightarrow> int \<Rightarrow> ('v \<Rightarrow> json) \<Rightarrow> string \<Rightarrow> int \<Rightarrow> 'x jobs_db session \<Rightarrow> string \<Rightarrow> string \<Rightarrow> 'v \<Rightarrow> string list
     \<Rightarrow> 'x jobs_db session \<times> (enqueue_error + job)" where
  "enqueue max_active max_attempts encode new_id now s u kind raw same_as =
     (if dict_get KINDS kind = None then (s, Inl UnknownKind)
      else
        let params = json_safe encode raw;
            existing = (if same_as = [] then None
                        else find (\<lambda>j. same_params same_as (j_params j) params)
                          (sort_key j_created (filter (\<lambda>j. j_user j = u \<and> j_kind j = kind \<and> active (j_status j))
                             (jobs (working s)))));
            n = active_jobs (jobs (working s)) u
        in (case existing of
              Some j \<Rightarrow> (commit s, Inr j)
            | None \<Rightarrow>
                if max_active \<le> int n then (rollback s, Inl (QueueFull n max_active))
                else let j = new_job new_id u kind params max_attempts now
                     in (commit (upd_jobs (\<lambda>js. js @ [j]) s), Inr j)))"

definition get_for_user :: "'x jobs_db session \<Rightarrow> string \<Rightarrow> string \<Rightarrow> job option" where
  "get_for_user s u i =
     (case find_row j_id i (jobs (working s)) of
        Some j \<Rightarrow> if j_user j = u then Some j else None
      | None \<Rightarrow> None)"

definition list_for_user :: "'x jobs_db session \<Rightarrow> string \<Rightarrow> nat \<Rightarrow> job list" where
  "list_for_user s u limit =
     take limit (sort_key (\<lambda>j. - j_created j) (filter (\<lambda>j. j_user j = u) (jobs (working s))))"

text \<open>
  \<open>between\<close> is what other processes committed between reading the row and the
  conditional update.
\<close>

definition cancel_queued :: "int \<Rightarrow> string \<Rightarrow> 'x jobs_db session \<Rightarrow> 'x jobs_db session \<times> nat" where
  "cancel_queued now i s =
     (commit (upd_jobs (sql_update (\<lambda>j. j_id j = i \<and> j_status j = QUEUED)
                (\<lambda>j. j\<lparr>j_status := JCANCELLED, j_finished := Some now\<rparr>)) s),
      rowcount (\<lambda>j. j_id j = i \<and> j_status j = QUEUED) (jobs (working s)))"

definition flag_running :: "string \<Rightarrow> 'x jobs_db session \<Rightarrow> 'x jobs_db session" where
  "flag_running i s =
     commit (upd_jobs (sql_update (\<lambda>j. j_id j = i \<and> j_status j = RUNNING) (\<lambda>j. j\<lparr>j_cancel := True\<rparr>)) s)"

definition request_cancel ::
  "int \<Rightarrow> ('x jobs_db session \<Rightarrow> 'x jobs_db session) \<Rightarrow> 'x jobs_db session \<Rightarrow> string \<Rightarrow> string
     \<Rightarrow> 'x jobs_db session \<times> job option" where
  "request_cancel now between s u i =
     (case get_for_user s u i of
        None \<Rightarrow> (s, None)
      | Some j \<Rightarrow>
         (let (s1, j1, done) =
                (if j_status j = QUEUED
                 then (let (s', n) = cancel_queued now i (between s)
                       in (s', find_row j_id i (jobs (working s')), n \<noteq> 0))
                 else (between s, Some j, False))
          in if done then (s1, j1)
             else if map_option j_status j1 = Some RUNNING
             then (let s2 = flag_running i s1 in (s2, find_row j_id i (jobs (working s2))))
             else (s1, j1)))"

definition WORKER_ONLINE :: int where
  "WORKER_ONLINE = 30 * 1000000"

definition workers_online :: "int \<Rightarrow> 'x jobs_db session \<Rightarrow> nat" where
  "workers_online now s = length (filter (\<lambda>w. now - WORKER_ONLINE \<le> w_seen w) (workers (working s)))"

record job_view =
  v_status :: job_status
  v_cancel :: bool
  v_attempts :: int
  v_workers_online :: "nat option"
  v_queue_position :: "nat option"
  v_error :: "(int \<times> string) option"
  v_result :: "json option"

definition view :: "int \<Rightarrow> 'x jobs_db session \<Rightarrow> job \<Rightarrow> bool \<Rightarrow> job_view" where
  "view now s j include_result =
     \<lparr>v_status = j_status j, v_cancel = j_cancel j, v_attempts = j_attempts j,
      v_workers_online = (if active (j_status j) then Some (workers_online now s) else None),
      v_queue_position = (if j_status j = QUEUED
        then Some (1 + length (filter (\<lambda>r. j_status r = QUEUED \<and> j_created r < j_created j) (jobs (working s))))
        else None),
      v_error = (if j_status j = FAILED
        then Some ((case j_error_status j of Some c \<Rightarrow> if c = 0 then 500 else c | None \<Rightarrow> 500),
                   (case j_error_detail j of Some t \<Rightarrow> if t = [] then ''Research job failed'' else t
                                           | None \<Rightarrow> ''Research job failed''))
        else None),
      v_result = (if j_status j = SUCCEEDED \<and> include_result then j_result j else None)\<rparr>"

text \<open>Queued and running counts, age of the oldest queued job (microseconds), online workers.\<close>

definition queue_stats :: "int \<Rightarrow> 'x jobs_db session \<Rightarrow> nat \<times> nat \<times> int option \<times> nat" where
  "queue_stats now s =
     (let queued = filter (\<lambda>j. j_status j = QUEUED) (jobs (working s))
      in (length queued, length (filter (\<lambda>j. j_status j = RUNNING) (jobs (working s))),
          (if queued = [] then None else Some (now - Min (set (map j_created queued)))),
          workers_online now s))"

section \<open>Worker side\<close>

definition claim_read :: "(string \<Rightarrow> bool) \<Rightarrow> 'x jobs_db session \<Rightarrow> string option" where
  "claim_read locked s =
     (case sort_key j_created (filter (\<lambda>j. j_status j = QUEUED \<and> \<not> locked (j_id j)) (jobs (working s))) of
        [] \<Rightarrow> None | j # _ \<Rightarrow> Some (j_id j))"

definition claim_cas :: "string \<Rightarrow> int \<Rightarrow> int \<Rightarrow> string \<Rightarrow> 'x jobs_db session \<Rightarrow> 'x jobs_db session \<times> bool" where
  "claim_cas w lease now i s =
     (commit (upd_jobs (sql_update (\<lambda>j. j_id j = i \<and> j_status j = QUEUED)
                (\<lambda>j. j\<lparr>j_status := RUNNING, j_worker := Some w, j_attempts := j_attempts j + 1,
                       j_started := Some now, j_lease := Some (now + lease)\<rparr>)) s),
      0 < rowcount (\<lambda>j. j_id j = i \<and> j_status j = QUEUED) (jobs (working s)))"

text \<open>
  The claim loop: \<open>locked n\<close> are the rows other transactions hold locked at the
  n-th read (SKIP LOCKED passes over them) and \<open>between n\<close> what they commit
  before the update.
\<close>

fun claim_loop ::
  "nat \<Rightarrow> (nat \<Rightarrow> string \<Rightarrow> bool) \<Rightarrow> (nat \<Rightarrow> 'x jobs_db session \<Rightarrow> 'x jobs_db session) \<Rightarrow> string \<Rightarrow> int \<Rightarrow> int
     \<Rightarrow> 'x jobs_db session \<Rightarrow> 'x jobs_db session \<times> job option" where
  "claim_loop 0 locked between w lease now s = (s, None)"
| "claim_loop (Suc n) locked between w lease now s =
     (case claim_read (locked n) s of
        None \<Rightarrow> (rollback s, None)
      | Some i \<Rightarrow>
          (let (s1, won) = claim_cas w lease now i (between n s)
           in if won then (s1, find_row j_id i (jobs (working s1)))
              else claim_loop n locked between w lease now s1))"

definition claim_next ::
  "(nat \<Rightarrow> string \<Rightarrow> bool) \<Rightarrow> (nat \<Rightarrow> 'x jobs_db session \<Rightarrow> 'x jobs_db session) \<Rightarrow> string \<Rightarrow> int \<Rightarrow> int
     \<Rightarrow> 'x jobs_db session \<Rightarrow> 'x jobs_db session \<times> job option" where
  "claim_next = claim_loop 5"

definition owned :: "string \<Rightarrow> string \<Rightarrow> int \<Rightarrow> job \<Rightarrow> bool" where
  "owned i w attempt j \<longleftrightarrow>
     j_id j = i \<and> j_worker j = Some w \<and> j_attempts j = attempt \<and> j_status j = RUNNING"

definition cancel_requested :: "'x jobs_db session \<Rightarrow> string \<Rightarrow> 'x jobs_db session \<times> bool" where
  "cancel_requested s i =
     (commit s, (case find_row j_id i (jobs (working s)) of Some j \<Rightarrow> j_cancel j | None \<Rightarrow> False))"

datatype lease_state = LeaseOk | LeaseCancel | LeaseLost

definition renew_lease ::
  "int \<Rightarrow> int \<Rightarrow> 'x jobs_db session \<Rightarrow> string \<Rightarrow> string \<Rightarrow> int \<Rightarrow> 'x jobs_db session \<times> lease_state" where
  "renew_lease now lease s i w attempt =
     (let s1 = commit (upd_jobs (sql_update (owned i w attempt) (\<lambda>j. j\<lparr>j_lease := Some (now + lease)\<rparr>)) s)
      in if rowcount (owned i w attempt) (jobs (working s)) = 0 then (s1, LeaseLost)
         else (let (s2, c) = cancel_requested s1 i in (s2, if c then LeaseCancel else LeaseOk)))"

definition finish ::
  "int \<Rightarrow> (job \<Rightarrow> job) \<Rightarrow> 'x jobs_db session \<Rightarrow> string \<Rightarrow> string \<Rightarrow> int \<Rightarrow> 'x jobs_db session \<times> bool" where
  "finish now vals s i w attempt =
     (upd_jobs (sql_update (owned i w attempt) (\<lambda>j. vals (j\<lparr>j_finished := Some now, j_lease := None\<rparr>))) s,
      0 < rowcount (owned i w attempt) (jobs (working s)))"

definition fail ::
  "int \<Rightarrow> 'x jobs_db session \<Rightarrow> string \<Rightarrow> string \<Rightarrow> int \<Rightarrow> int \<Rightarrow> string \<Rightarrow> 'x jobs_db session \<times> bool" where
  "fail now s i w attempt code detail =
     (let (s1, won) = finish now (\<lambda>j. j\<lparr>j_status := FAILED, j_error_status := Some code,
                                      j_error_detail := Some (take 2000 detail)\<rparr>) s i w attempt
      in (commit s1, won))"

definition mark_cancelled ::
  "int \<Rightarrow> 'x jobs_db session \<Rightarrow> string \<Rightarrow> string \<Rightarrow> int \<Rightarrow> 'x jobs_db session \<times> bool" where
  "mark_cancelled now s i w attempt =
     (let (s1, won) = finish now (\<lambda>j. j\<lparr>j_status := JCANCELLED\<rparr>) s i w attempt in (commit s1, won))"

definition release ::
  "'x jobs_db session \<Rightarrow> string \<Rightarrow> string \<Rightarrow> int \<Rightarrow> 'x jobs_db session \<times> bool" where
  "release s i w attempt =
     (commit (upd_jobs (sql_update (owned i w attempt)
                (\<lambda>j. j\<lparr>j_status := QUEUED, j_worker := None, j_lease := None, j_attempts := j_attempts j - 1\<rparr>)) s),
      0 < rowcount (owned i w attempt) (jobs (working s)))"

subsection \<open>Completion\<close>

datatype task_error = TaskError int string | OtherError

record trial_batch =
  b_family :: string
  b_configs :: "json list"
  b_source :: string

text \<open>What \<open>complete\<close> calls in other services, on the tables it does not know.\<close>

record 'x job_hooks =
  h_trials :: "string \<Rightarrow> trial_batch \<Rightarrow> trial list \<Rightarrow> trial list \<times> nat"
  h_market :: "job \<Rightarrow> json \<Rightarrow> json \<Rightarrow> 'x \<Rightarrow> 'x \<times> (task_error + json \<times> json)"
  h_finalize :: "string \<Rightarrow> job \<Rightarrow> json \<Rightarrow> json \<Rightarrow> 'x
     \<Rightarrow> 'x \<times> (task_error + json \<times> (string \<times> string option) \<times> json)"
  h_backtest_row :: "string \<Rightarrow> json \<Rightarrow> 'x \<Rightarrow> 'x \<times> (task_error + string)"
  h_audit :: "string \<Rightarrow> string \<Rightarrow> string \<Rightarrow> string option \<Rightarrow> json \<Rightarrow> 'x \<Rightarrow> 'x"

definition run_hook :: "('x \<Rightarrow> 'x \<times> 'r) \<Rightarrow> 'x jobs_db session \<Rightarrow> 'x jobs_db session \<times> 'r" where
  "run_hook f s = (upd (\<lambda>d. d\<lparr>rest := fst (f (rest d))\<rparr>) s, snd (f (rest (working s))))"

definition market_stage ::
  "'x job_hooks \<Rightarrow> job_kind \<Rightarrow> job \<Rightarrow> json \<Rightarrow> json \<Rightarrow> 'x jobs_db session
     \<Rightarrow> 'x jobs_db session \<times> (task_error + json \<times> json)" where
  "market_stage h k j result audit s =
     (if k_market k then run_hook (h_market h j result audit) s else (s, Inr (result, audit)))"

definition finalize_stage ::
  "'x job_hooks \<Rightarrow> job_kind \<Rightarrow> job \<Rightarrow> json \<Rightarrow> json \<Rightarrow> 'x jobs_db session
     \<Rightarrow> 'x jobs_db session \<times> (task_error + json \<times> (string \<times> string option) \<times> json)" where
  "finalize_stage h k j result audit s =
     (case k_finalize k of
        Some target \<Rightarrow> run_hook (h_finalize h target j result audit) s
      | None \<Rightarrow> (s, Inr (result, (''research'', None), audit)))"

definition backtest_stage ::
  "'x job_hooks \<Rightarrow> job \<Rightarrow> json \<Rightarrow> string \<times> string option \<Rightarrow> 'x jobs_db session
     \<Rightarrow> 'x jobs_db session \<times> (task_error + json \<times> (string \<times> string option))" where
  "backtest_stage h j result res s =
     (if j_kind j = ''ma_backtest''
      then let safe = finite_json result;
               (s1, r) = run_hook (h_backtest_row h (j_user j) safe) s
           in (case r of
                 Inl e \<Rightarrow> (s1, Inl e)
               | Inr row_id \<Rightarrow>
                   (s1, Inr (JObj (case safe of
                       JObj d \<Rightarrow> if dict_get d ''id'' = None then (''id'', JStr row_id) # d
                                 else (''id'', the (dict_get d ''id'')) # dict_pop ''id'' d
                     | _ \<Rightarrow> [(''id'', JStr row_id)]), (''backtest'', Some row_id))))
      else (s, Inr (result, res)))"

definition store_result ::
  "int \<Rightarrow> 'x job_hooks \<Rightarrow> job_kind \<Rightarrow> 'x jobs_db session \<Rightarrow> job \<Rightarrow> string \<Rightarrow> int \<Rightarrow> json \<Rightarrow> json
     \<Rightarrow> 'x jobs_db session \<times> (task_error + (bool \<times> (string \<times> string option) \<times> json))" where
  "store_result now h k s j w attempt result audit =
     (let (s1, r1) = market_stage h k j result audit s in
      case r1 of Inl e \<Rightarrow> (s1, Inl e) | Inr (result1, audit1) \<Rightarrow>
     (let (s2, r2) = finalize_stage h k j result1 audit1 s1 in
      case r2 of Inl e \<Rightarrow> (s2, Inl e) | Inr (result2, res2, audit2) \<Rightarrow>
     (let (s3, r3) = backtest_stage h j result2 res2 s2 in
      case r3 of Inl e \<Rightarrow> (s3, Inl e) | Inr (result3, res3) \<Rightarrow>
     (let (s4, won) = finish now (\<lambda>x. x\<lparr>j_status := SUCCEEDED, j_result := Some (finite_json result3)\<rparr>)
                        s3 (j_id j) w attempt
      in (s4, Inr (won, res3, audit2))))))"

definition record_stage ::
  "'x job_hooks \<Rightarrow> job \<Rightarrow> json \<Rightarrow> trial_batch option \<Rightarrow> 'x jobs_db session \<Rightarrow> 'x jobs_db session \<times> json" where
  "record_stage h j result trials s =
     (case trials of
        None \<Rightarrow> (s, result)
      | Some b \<Rightarrow>
          (let (ts, n) = h_trials h (j_user j) b (trial_rows (working s))
           in (commit (upd (\<lambda>d. d\<lparr>trial_rows := ts\<rparr>) s),
               jput ''trials_in_family'' (JInt (int n)) (jput ''trial_family'' (JStr (b_family b)) result))))"

text \<open>
  \<open>Inl ()\<close>: an exception other than a task's own refusal, re-raised after the
  rollback.
\<close>

definition complete ::
  "int \<Rightarrow> 'x job_hooks \<Rightarrow> 'x jobs_db session \<Rightarrow> job \<Rightarrow> string \<Rightarrow> int \<Rightarrow> json \<Rightarrow> json \<Rightarrow> trial_batch option
     \<Rightarrow> 'x jobs_db session \<times> (unit + bool)" where
  "complete now h s j w attempt result0 audit0 trials =
     (case dict_get KINDS (j_kind j) of
        None \<Rightarrow> (s, Inl ())
      | Some k \<Rightarrow>
         (let (s0, result) = record_stage h j result0 trials s;
              (s1, r) = store_result now h k s0 j w attempt result audit0
          in (case r of
                Inl (TaskError code detail) \<Rightarrow>
                  (let (s2, won) = fail now (rollback s1) (j_id j) w attempt code detail in (s2, Inr won))
              | Inl OtherError \<Rightarrow> (rollback s1, Inl ())
              | Inr (won, (rtype, rid), audit) \<Rightarrow>
                  if \<not> won then (rollback s1, Inr False)
                  else (commit (upd (\<lambda>d. d\<lparr>rest := h_audit h (j_user j) (k_audit k) rtype rid
                                  (jput ''job_id'' (JStr (j_id j)) (finite_json audit)) (rest d)\<rparr>) (commit s1)),
                        Inr True))))"

subsection \<open>Reaping and housekeeping\<close>

definition WORKER_LOST_DETAIL :: string where
  "WORKER_LOST_DETAIL = ''The research worker stopped responding while running this job.''"

definition lapsed :: "int \<Rightarrow> job \<Rightarrow> bool" where
  "lapsed now j \<longleftrightarrow> j_status j = RUNNING \<and> (case j_lease j of Some t \<Rightarrow> t < now | None \<Rightarrow> False)"

definition reap_values :: "int \<Rightarrow> job \<Rightarrow> job \<Rightarrow> job" where
  "reap_values now seen j =
     (if j_cancel seen then j\<lparr>j_status := JCANCELLED, j_finished := Some now, j_lease := None\<rparr>
      else if j_attempts seen < j_max_attempts seen
      then j\<lparr>j_status := QUEUED, j_worker := None, j_lease := None\<rparr>
      else j\<lparr>j_status := FAILED, j_finished := Some now, j_lease := None,
             j_error_status := Some 500, j_error_detail := Some WORKER_LOST_DETAIL\<rparr>)"

definition reap_guard :: "int \<Rightarrow> job \<Rightarrow> job \<Rightarrow> bool" where
  "reap_guard now seen j \<longleftrightarrow>
     j_id j = j_id seen \<and> lapsed now j \<and> j_worker j = j_worker seen
     \<and> j_attempts j = j_attempts seen"

definition reap_one :: "int \<Rightarrow> job \<Rightarrow> 'x jobs_db session \<times> nat \<Rightarrow> 'x jobs_db session \<times> nat" where
  "reap_one now seen st =
     (upd_jobs (sql_update (reap_guard now seen) (reap_values now seen)) (fst st),
      snd st + rowcount (reap_guard now seen) (jobs (working (fst st))))"

definition reap_expired :: "int \<Rightarrow> 'x jobs_db session \<Rightarrow> 'x jobs_db session \<times> nat" where
  "reap_expired now s =
     (let (s1, n) = fold (reap_one now) (filter (lapsed now) (jobs (working s))) (s, 0) in (commit s1, n))"

definition heartbeat_worker ::
  "int \<Rightarrow> 'x jobs_db session \<Rightarrow> string \<Rightarrow> string \<Rightarrow> int \<Rightarrow> string option \<Rightarrow> 'x jobs_db session" where
  "heartbeat_worker now s w hostname pid current =
     commit (upd (\<lambda>d. d\<lparr>workers :=
        (let ws = sql_update (\<lambda>r. w_id r = w) (\<lambda>r. r\<lparr>w_seen := now, w_job := current\<rparr>) (workers d)
         in if rowcount (\<lambda>r. w_id r = w) (workers d) = 0
            then ws @ [\<lparr>w_id = w, w_hostname = take 255 hostname, w_pid = pid, w_started = now, w_seen = now,
                        w_job = current\<rparr>]
            else ws)\<rparr>) s)"

definition remove_worker :: "'x jobs_db session \<Rightarrow> string \<Rightarrow> 'x jobs_db session" where
  "remove_worker s w = commit (upd (\<lambda>d. d\<lparr>workers := filter (\<lambda>r. w_id r \<noteq> w) (workers d)\<rparr>) s)"

definition purgeable :: "int \<Rightarrow> int \<Rightarrow> job \<Rightarrow> bool" where
  "purgeable now retention j \<longleftrightarrow>
     terminal (j_status j) \<and> (case j_finished j of Some t \<Rightarrow> t < now - retention | None \<Rightarrow> False)"

definition purge_finished :: "int \<Rightarrow> int \<Rightarrow> 'x jobs_db session \<Rightarrow> 'x jobs_db session \<times> nat" where
  "purge_finished now retention s =
     (commit (upd (\<lambda>d. d\<lparr>jobs := filter (\<lambda>j. \<not> purgeable now retention j) (jobs d),
                         workers := filter (\<lambda>r. now - 86400 * 1000000 \<le> w_seen r) (workers d)\<rparr>) s),
      rowcount (purgeable now retention) (jobs (working s)))"

end
