(* ===== verification/Job_Invariants.thy ===== *)
theory Job_Invariants
  imports Research_Jobs
begin

text \<open>
  What the job queue promises over every interleaving of its transactions. A
  transaction of the API, of a worker or of the reaper is one step; the claim and
  cancel statements are steps of their own, so any interleaving of their reads
  and writes with other processes is a sequence of these steps.
\<close>

section \<open>The queue as a machine\<close>

datatype job_op =
    JEnqueue string int string string json "string list"
  | JCancelQueued int string
  | JFlag string
  | JClaim string int int string
  | JRenew int int string string int
  | JFail int string string int int string
  | JMarkCancelled int string string int
  | JRelease string string int
  | JComplete int job string int json json "trial_batch option"
  | JReap int
  | JReapRow int job
  | JHeartbeat int string string int "string option"
  | JRemoveWorker string
  | JPurge int int

record 'x queue_env =
  e_max_active :: int
  e_max_attempts :: int
  e_hooks :: "'x job_hooks"

fun job_step :: "'x queue_env \<Rightarrow> job_op \<Rightarrow> 'x jobs_db session \<Rightarrow> 'x jobs_db session" where
  "job_step e (JEnqueue i now u kind params same) s =
     fst (enqueue (e_max_active e) (e_max_attempts e) (\<lambda>v. v) i now s u kind params same)"
| "job_step e (JCancelQueued now i) s = fst (cancel_queued now i s)"
| "job_step e (JFlag i) s = flag_running i s"
| "job_step e (JClaim w lease now i) s = fst (claim_cas w lease now i s)"
| "job_step e (JRenew now lease i w a) s = fst (renew_lease now lease s i w a)"
| "job_step e (JFail now i w a code detail) s = fst (fail now s i w a code detail)"
| "job_step e (JMarkCancelled now i w a) s = fst (mark_cancelled now s i w a)"
| "job_step e (JRelease i w a) s = fst (release s i w a)"
| "job_step e (JComplete now j w a result audit trials) s =
     fst (complete now (e_hooks e) s j w a result audit trials)"
| "job_step e (JReap now) s = fst (reap_expired now s)"
| "job_step e (JReapRow now seen) s = commit (fst (reap_one now seen (s, 0)))"
| "job_step e (JHeartbeat now w host pid cur) s = heartbeat_worker now s w host pid cur"
| "job_step e (JRemoveWorker w) s = remove_worker s w"
| "job_step e (JPurge now retention) s = fst (purge_finished now retention s)"

text \<open>
  Row ids are fresh; \<open>i\<close> is an id no new job is given. The reaper acts on a row
  image it read earlier: only \<open>max_attempts\<close>, which nothing writes, must still agree.
\<close>

fun job_ok_op :: "string option \<Rightarrow> job_op \<Rightarrow> 'x jobs_db session \<Rightarrow> bool" where
  "job_ok_op i (JEnqueue n now u kind params same) s =
     (n \<notin> j_id ` set (jobs (working s)) \<and> Some n \<noteq> i)"
| "job_ok_op i (JReapRow now seen) s =
     list_all (\<lambda>j. j_id j = j_id seen \<longrightarrow> j_max_attempts j = j_max_attempts seen) (jobs (working s))"
| "job_ok_op i op s = True"

section \<open>Invariant\<close>

definition job_wf :: "job \<Rightarrow> bool" where
  "job_wf j \<longleftrightarrow> 0 \<le> j_attempts j \<and> j_attempts j \<le> j_max_attempts j
     \<and> (j_status j = QUEUED \<longrightarrow> j_attempts j < j_max_attempts j \<and> j_worker j = None \<and> j_lease j = None)
     \<and> (j_status j = RUNNING \<longrightarrow> 1 \<le> j_attempts j \<and> j_worker j \<noteq> None \<and> j_lease j \<noteq> None)
     \<and> (terminal (j_status j) \<longrightarrow> j_finished j \<noteq> None \<and> j_lease j = None)
     \<and> (j_status j = SUCCEEDED \<longrightarrow> j_result j \<noteq> None)"

definition queue_inv :: "'x queue_env \<Rightarrow> job list \<Rightarrow> bool" where
  "queue_inv e js \<longleftrightarrow> distinct (map j_id js) \<and> list_all job_wf js
     \<and> (\<forall>u. int (active_jobs js u) \<le> e_max_active e)"

definition jobs_inv :: "'x queue_env \<Rightarrow> 'x jobs_db session \<Rightarrow> bool" where
  "jobs_inv e s \<longleftrightarrow> committed s = working s \<and> 0 \<le> e_max_active e \<and> 1 \<le> e_max_attempts e
     \<and> queue_inv e (jobs (working s))"

text \<open>
  An attempt number is fenced once a job can no longer run under it: queued, the
  job has used it up; running, it is past it.
\<close>

definition past_attempt :: "int \<Rightarrow> job \<Rightarrow> bool" where
  "past_attempt a j \<longleftrightarrow> (j_status j = QUEUED \<longrightarrow> a \<le> j_attempts j) \<and> (j_status j = RUNNING \<longrightarrow> a < j_attempts j)"

text \<open>Every statement on the jobs table is an update of this shape.\<close>

definition benign :: "(job \<Rightarrow> bool) \<Rightarrow> (job \<Rightarrow> job) \<Rightarrow> bool" where
  "benign p f \<longleftrightarrow> (\<forall>j. p j \<longrightarrow> active (j_status j) \<and> j_id (f j) = j_id j \<and> j_user (f j) = j_user j
     \<and> (job_wf j \<longrightarrow> job_wf (f j)) \<and> (\<forall>a. past_attempt a j \<longrightarrow> past_attempt a (f j)))"

lemma active_jobs_update:
  assumes "benign p f"
  shows "active_jobs (sql_update p f js) u \<le> active_jobs js u"
  using assms by (induction js) (auto simp: active_jobs_def sql_update_def benign_def)

lemma queue_inv_update:
  assumes "queue_inv e js" "benign p f"
  shows "queue_inv e (sql_update p f js)"
proof -
  have "map j_id (sql_update p f js) = map j_id js"
    using assms(2) by (intro map_sql_update) (simp add: benign_def)
  moreover have "list_all job_wf (sql_update p f js)"
    using assms by (auto simp: queue_inv_def list_all_iff in_sql_update benign_def)
  moreover have "int (active_jobs (sql_update p f js) u) \<le> e_max_active e" for u
    using assms active_jobs_update [OF assms(2), of js u] by (meson of_nat_le_iff order_trans queue_inv_def)
  ultimately show ?thesis using assms(1) by (simp add: queue_inv_def)
qed

lemma queue_inv_filter: "queue_inv e js \<Longrightarrow> queue_inv e (filter P js)"
proof -
  assume q: "queue_inv e js"
  have "active_jobs (filter P js) u \<le> active_jobs js u" for u
    by (induction js) (auto simp: active_jobs_def)
  then have "int (active_jobs (filter P js) u) \<le> e_max_active e" for u
    using q by (meson of_nat_le_iff order_trans queue_inv_def)
  then show ?thesis using q by (simp add: queue_inv_def distinct_map_filter list_all_iff)
qed

lemma queue_inv_append:
  assumes "queue_inv e js" "i \<notin> j_id ` set js" "int (active_jobs js u) < e_max_active e" "1 \<le> m"
  shows "queue_inv e (js @ [new_job i u kind params m now])"
  using assms
  by (auto simp: queue_inv_def new_job_def job_wf_def active_jobs_def terminal_def active_def)

lemma status_facts [simp]:
  "active QUEUED" "active RUNNING" "\<not> active SUCCEEDED" "\<not> active FAILED" "\<not> active JCANCELLED"
  "\<not> terminal QUEUED" "\<not> terminal RUNNING" "terminal SUCCEEDED" "terminal FAILED" "terminal JCANCELLED"
  by (simp_all add: active_def terminal_def)

lemma benign_statements:
  "benign (\<lambda>j. j_id j = i \<and> j_status j = QUEUED) (\<lambda>j. j\<lparr>j_status := JCANCELLED, j_finished := Some now\<rparr>)"
  "benign (\<lambda>j. j_id j = i \<and> j_status j = RUNNING) (\<lambda>j. j\<lparr>j_cancel := True\<rparr>)"
  "benign (\<lambda>j. j_id j = i \<and> j_status j = QUEUED)
     (\<lambda>j. j\<lparr>j_status := RUNNING, j_worker := Some w, j_attempts := j_attempts j + 1,
            j_started := Some now, j_lease := Some lease\<rparr>)"
  "benign (owned i w a) (\<lambda>j. j\<lparr>j_lease := Some lease\<rparr>)"
  "benign (owned i w a) (\<lambda>j. j\<lparr>j_finished := Some now, j_lease := None, j_status := FAILED,
     j_error_status := Some c, j_error_detail := Some d\<rparr>)"
  "benign (owned i w a) (\<lambda>j. j\<lparr>j_finished := Some now, j_lease := None, j_status := JCANCELLED\<rparr>)"
  "benign (owned i w a) (\<lambda>j. j\<lparr>j_finished := Some now, j_lease := None, j_status := SUCCEEDED, j_result := Some r\<rparr>)"
  "benign (owned i w a)
     (\<lambda>j. j\<lparr>j_status := QUEUED, j_worker := None, j_lease := None, j_attempts := j_attempts j - 1\<rparr>)"
  "benign (\<lambda>j. reap_guard now seen j \<and> j_max_attempts j = j_max_attempts seen) (reap_values now seen)"
  "benign (lapsed now) (\<lambda>j. reap_values now j j)"
  by (auto simp: benign_def job_wf_def past_attempt_def owned_def reap_guard_def reap_values_def lapsed_def split: option.splits)

subsection \<open>The reaper\<close>

lemma sql_update_cong:
  assumes "\<And>j. j \<in> set js \<Longrightarrow> p j = q j" "\<And>j. j \<in> set js \<Longrightarrow> q j \<Longrightarrow> f j = g j"
  shows "sql_update p f js = sql_update q g js"
  using assms by (auto simp: sql_update_def)

lemma same_id_row:
  "distinct (map j_id js) \<Longrightarrow> a \<in> set js \<Longrightarrow> b \<in> set js \<Longrightarrow> j_id a = j_id b \<Longrightarrow> a = b"
  by (auto simp: distinct_map inj_on_def)

lemma reap_one_row:
  assumes "distinct (map j_id js)" "seen \<in> set js" "lapsed now seen"
  shows "sql_update (reap_guard now seen) (reap_values now seen) js =
    sql_update (\<lambda>j. j = seen) (\<lambda>j. reap_values now j j) js"
  using assms same_id_row [OF assms(1) _ assms(2)] by (intro sql_update_cong) (auto simp: reap_guard_def)

lemma reap_values_id [simp]: "j_id (reap_values now seen j) = j_id j"
  by (simp add: reap_values_def)

lemma reap_fold_jobs:
  assumes "distinct (map j_id (jobs (working s)))" "distinct (map j_id seens)"
    and "set seens \<subseteq> set (jobs (working s))" "\<And>j. j \<in> set seens \<Longrightarrow> lapsed now j"
  shows "jobs (working (fst (fold (reap_one now) seens (s, n)))) =
    sql_update (\<lambda>j. j \<in> set seens) (\<lambda>j. reap_values now j j) (jobs (working s))"
  using assms
proof (induction seens arbitrary: s n)
  case (Cons seen seens)
  let ?js = "jobs (working s)"
  let ?g = "\<lambda>j. reap_values now j j"
  let ?s1 = "upd_jobs (sql_update (reap_guard now seen) (reap_values now seen)) s"
  have js1: "jobs (working ?s1) = sql_update (\<lambda>j. j = seen) ?g ?js"
    using Cons.prems by (simp add: reap_one_row)
  have new: "reap_values now seen seen \<notin> set seens"
  proof
    assume "reap_values now seen seen \<in> set seens"
    then have "j_id (reap_values now seen seen) \<in> j_id ` set seens" by (rule imageI)
    then show False using Cons.prems(2) by simp
  qed
  have "jobs (working (fst (fold (reap_one now) seens (?s1, m)))) =
      sql_update (\<lambda>j. j \<in> set seens) ?g (jobs (working ?s1))" for m
  proof (rule Cons.IH)
    show "distinct (map j_id (jobs (working ?s1)))"
      using Cons.prems(1) by (simp only: js1) (simp add: map_sql_update)
    show "set seens \<subseteq> set (jobs (working ?s1))"
      using Cons.prems(2,3) by (auto simp only: js1 in_sql_update) auto
  qed (use Cons.prems in auto)
  moreover have "sql_update (\<lambda>j. j \<in> set seens) ?g (sql_update (\<lambda>j. j = seen) ?g ?js) =
      sql_update (\<lambda>j. j \<in> set (seen # seens)) ?g ?js"
    using new by (auto simp: sql_update_def)
  ultimately show ?case by (simp only: fold.simps comp_apply reap_one_def [of now seen "(s, n)"] fst_conv js1)
qed (simp add: sql_update_def)

lemma reap_fold_frame:
  "committed (fst (fold (reap_one now) seens (s, n))) = committed s \<and>
   workers (working (fst (fold (reap_one now) seens (s, n)))) = workers (working s) \<and>
   trial_rows (working (fst (fold (reap_one now) seens (s, n)))) = trial_rows (working s) \<and>
   rest (working (fst (fold (reap_one now) seens (s, n)))) = rest (working s)"
  by (induction seens arbitrary: s n) (simp_all add: reap_one_def)

lemma reap_expired_jobs:
  assumes "distinct (map j_id (jobs (working s)))"
  shows "jobs (working (fst (reap_expired now s))) =
    sql_update (lapsed now) (\<lambda>j. reap_values now j j) (jobs (working s))"
proof -
  have "jobs (working (fst (fold (reap_one now) (filter (lapsed now) (jobs (working s))) (s, 0)))) =
      sql_update (\<lambda>j. j \<in> set (filter (lapsed now) (jobs (working s)))) (\<lambda>j. reap_values now j j) (jobs (working s))"
    by (rule reap_fold_jobs) (use assms distinct_map_filter in auto)
  also have "\<dots> = sql_update (lapsed now) (\<lambda>j. reap_values now j j) (jobs (working s))"
    by (rule sql_update_cong) auto
  finally show ?thesis by (simp add: reap_expired_def case_prod_unfold Let_def)
qed

subsection \<open>Shape of a step\<close>

lemma hook_frame [simp]:
  "jobs (working (fst (run_hook f s))) = jobs (working s)" "committed (fst (run_hook f s)) = committed s"
  "trial_rows (working (fst (run_hook f s))) = trial_rows (working s)"
  "workers (working (fst (run_hook f s))) = workers (working s)"
  by (simp_all add: run_hook_def)

lemma market_frame:
  assumes "market_stage h k j result audit s = (s', r)"
  shows "jobs (working s') = jobs (working s) \<and> committed s' = committed s"
  using assms by (auto simp: market_stage_def run_hook_def split: if_splits)

lemma finalize_frame:
  assumes "finalize_stage h k j result audit s = (s', r)"
  shows "jobs (working s') = jobs (working s) \<and> committed s' = committed s"
  using assms by (auto simp: finalize_stage_def run_hook_def split: option.splits)

lemma backtest_frame:
  assumes "backtest_stage h j result res s = (s', r)"
  shows "jobs (working s') = jobs (working s) \<and> committed s' = committed s"
  using assms by (auto simp: backtest_stage_def run_hook_def Let_def split: if_splits sum.splits)

lemma store_result_effect:
  assumes "store_result now h k s j w attempt result audit = (s', r)"
  shows "committed s' = committed s \<and>
    (case r of
       Inl _ \<Rightarrow> jobs (working s') = jobs (working s)
     | Inr (won, _) \<Rightarrow> won = (0 < rowcount (owned (j_id j) w attempt) (jobs (working s))) \<and>
        (\<exists>v. jobs (working s') = sql_update (owned (j_id j) w attempt)
           (\<lambda>j. j\<lparr>j_finished := Some now, j_lease := None, j_status := SUCCEEDED, j_result := Some v\<rparr>)
           (jobs (working s))))"
proof -
  obtain s1 r1 where 1: "market_stage h k j result audit s = (s1, r1)" by fastforce
  note f1 = market_frame [OF 1]
  show ?thesis
  proof (cases r1)
    case (Inl e)
    then show ?thesis using assms 1 f1 by (auto simp: store_result_def)
  next
    case (Inr ra)
    obtain result1 audit1 where ra: "ra = (result1, audit1)" by fastforce
    obtain s2 r2 where 2: "finalize_stage h k j result1 audit1 s1 = (s2, r2)" by fastforce
    note f2 = finalize_frame [OF 2]
    show ?thesis
    proof (cases r2)
      case (Inl e)
      then show ?thesis using assms 1 2 f1 f2 Inr ra by (auto simp: store_result_def)
    next
      case (Inr rb)
      obtain result2 res2 audit2 where rb: "rb = (result2, res2, audit2)" by (cases rb) auto
      obtain s3 r3 where 3: "backtest_stage h j result2 res2 s2 = (s3, r3)" by fastforce
      note f3 = backtest_frame [OF 3]
      have "store_result now h k s j w attempt result audit =
         (case r3 of Inl e \<Rightarrow> (s3, Inl e) | Inr (result3, res3) \<Rightarrow>
         (let (s4, won) = finish now (\<lambda>x. x\<lparr>j_status := SUCCEEDED, j_result := Some (finite_json result3)\<rparr>)
                        s3 (j_id j) w attempt in (s4, Inr (won, res3, audit2))))"
        using 1 2 3 Inr rb \<open>r1 = Inr ra\<close> ra
        by (cases r3) (auto simp: store_result_def)
      then show ?thesis using assms f1 f2 f3 by (auto simp: finish_def split: sum.splits prod.splits)
    qed
  qed
qed

lemma record_frame:
  assumes "record_stage h j result trials s = (s0, r)" "committed s = working s"
  shows "committed s0 = working s0 \<and> jobs (working s0) = jobs (working s)
    \<and> rest (working s0) = rest (working s) \<and> workers (working s0) = workers (working s)"
  using assms by (auto simp: record_stage_def split: option.splits prod.splits)

text \<open>What a statement that neither claims nor releases leaves alone in every row.\<close>

definition attempt_counter :: "job \<Rightarrow> string \<times> int \<times> int" where
  "attempt_counter j = (j_id j, j_attempts j, j_max_attempts j)"

lemma fail_effect:
  "committed (fst (fail now s i w a c d)) = working (fst (fail now s i w a c d)) \<and>
   (\<exists>f. benign (owned i w a) f \<and> (\<forall>x. attempt_counter (f x) = attempt_counter x) \<and>
     jobs (working (fst (fail now s i w a c d))) = sql_update (owned i w a) f (jobs (working s)))"
  using benign_statements(5) by (fastforce simp: fail_def finish_def attempt_counter_def)

lemma complete_jobs:
  assumes "committed s = working s" "complete now h s j w attempt result audit trials = (s', out)"
  shows "committed s' = working s' \<and>
    (jobs (working s') = jobs (working s) \<or> (\<exists>f. benign (owned (j_id j) w attempt) f \<and>
       (\<forall>x. attempt_counter (f x) = attempt_counter x) \<and> jobs (working s') = sql_update (owned (j_id j) w attempt) f (jobs (working s))))"
proof (cases "dict_get KINDS (j_kind j)")
  case None
  then show ?thesis using assms by (auto simp: complete_def)
next
  case (Some k)
  obtain s0 r0 where 0: "record_stage h j result trials s = (s0, r0)" by fastforce
  obtain s1 r where 1: "store_result now h k s0 j w attempt r0 audit = (s1, r)" by fastforce
  note f0 = record_frame [OF 0 assms(1)]
  note f1 = store_result_effect [OF 1]
  show ?thesis
  proof (cases r)
    case (Inl e)
    show ?thesis
    proof (cases e)
      case (TaskError c d)
      then have "s' = fst (fail now (rollback s1) (j_id j) w attempt c d)"
        using assms(2) 0 1 Some Inl by (auto simp: complete_def case_prod_unfold Let_def)
      moreover have "jobs (working (rollback s1)) = jobs (working s)" using f0 f1 Inl by simp
      ultimately show ?thesis using fail_effect [of now "rollback s1" "j_id j" w attempt c d] by auto
    qed (use assms(2) 0 1 Some Inl f0 f1 in \<open>auto simp: complete_def\<close>)
  next
    case (Inr q)
    obtain won rt rid au where q: "q = (won, (rt, rid), au)" by (cases q) auto
    obtain v where v: "jobs (working s1) = sql_update (owned (j_id j) w attempt)
           (\<lambda>j. j\<lparr>j_finished := Some now, j_lease := None, j_status := SUCCEEDED, j_result := Some v\<rparr>)
           (jobs (working s0))" using f1 Inr q by auto
    show ?thesis using assms(2) 0 1 Some f0 f1 v Inr q benign_statements(7) [where i = "j_id j" and w = w and a = attempt and now = now and r = v]
      by (auto simp: complete_def attempt_counter_def split: if_splits)
  qed
qed

definition step_shape :: "'x queue_env \<Rightarrow> string option \<Rightarrow> job list \<Rightarrow> job list \<Rightarrow> bool" where
  "step_shape e i js js' \<longleftrightarrow>
     js' = js \<or> (\<exists>p f. benign p f \<and> js' = sql_update p f js)
     \<or> (\<exists>P. (\<forall>j. \<not> P j \<longrightarrow> terminal (j_status j)) \<and> js' = filter P js)
     \<or> (\<exists>n u kind params now. n \<notin> j_id ` set js \<and> Some n \<noteq> i \<and> int (active_jobs js u) < e_max_active e
          \<and> js' = js @ [new_job n u kind params (e_max_attempts e) now])"

lemma shape_update: "benign p f \<Longrightarrow> step_shape e i js (sql_update p f js)"
  by (auto simp: step_shape_def)

lemma shape_same: "step_shape e i js js"
  by (simp add: step_shape_def)

lemma shape_filter:
  assumes "\<forall>j. \<not> P j \<longrightarrow> terminal (j_status j)"
  shows "step_shape e i js (filter P js)"
  unfolding step_shape_def by (rule disjI2, rule disjI2, rule disjI1, rule exI [of _ P]) (simp add: assms)

lemma shape_append:
  assumes "n \<notin> j_id ` set js" "Some n \<noteq> i" "int (active_jobs js u) < e_max_active e"
  shows "step_shape e i js (js @ [new_job n u kind params (e_max_attempts e) now])"
  unfolding step_shape_def
  by (rule disjI2, rule disjI2, rule disjI2, rule exI [of _ n], rule exI [of _ u], rule exI [of _ kind],
      rule exI [of _ params], rule exI [of _ now]) (simp add: assms)

lemma enqueue_cases:
  assumes "enqueue m a enc n now s u kind raw same = (s', r)"
  shows "s' = s \<or> s' = commit s \<or> s' = rollback s \<or>
    (\<exists>params. s' = commit (upd_jobs (\<lambda>js. js @ [new_job n u kind params a now]) s)
       \<and> int (active_jobs (jobs (working s)) u) < m)"
proof (cases "dict_get KINDS kind = None")
  case True
  then show ?thesis using assms by (simp add: enqueue_def)
next
  case False
  define ex where "ex = (if same = [] then None else find (\<lambda>j. same_params same (j_params j) (json_safe enc raw))
     (sort_key j_created (filter (\<lambda>j. j_user j = u \<and> j_kind j = kind \<and> active (j_status j)) (jobs (working s)))))"
  have "enqueue m a enc n now s u kind raw same =
     (case ex of Some j \<Rightarrow> (commit s, Inr j)
      | None \<Rightarrow> if m \<le> int (active_jobs (jobs (working s)) u)
          then (rollback s, Inl (QueueFull (active_jobs (jobs (working s)) u) m))
          else (commit (upd_jobs (\<lambda>js. js @ [new_job n u kind (json_safe enc raw) a now]) s),
                Inr (new_job n u kind (json_safe enc raw) a now)))"
    using False unfolding enqueue_def Let_def ex_def [symmetric] by (simp only: if_False)
  then show ?thesis using assms by (cases ex) (auto split: if_splits)
qed

lemma enqueue_shape:
  assumes "committed s = working s" "n \<notin> j_id ` set (jobs (working s))" "Some n \<noteq> i"
    and "enqueue (e_max_active e) (e_max_attempts e) enc n now s u kind raw same = (s', r)"
  shows "committed s' = working s' \<and> step_shape e i (jobs (working s)) (jobs (working s'))"
proof -
  consider "s' = s" | "s' = commit s" | "s' = rollback s" | params where
    "s' = commit (upd_jobs (\<lambda>js. js @ [new_job n u kind params (e_max_attempts e) now]) s)"
    "int (active_jobs (jobs (working s)) u) < e_max_active e"
    using enqueue_cases [OF assms(4)] by blast
  then show ?thesis
  proof cases
    case 4
    then show ?thesis using shape_append [OF assms(2,3) 4(2)] by simp
  qed (use assms(1) shape_same in simp_all)
qed

lemma job_step_shape:
  assumes "jobs_inv e s" "job_ok_op i op s"
  shows "committed (job_step e op s) = working (job_step e op s) \<and>
    step_shape e i (jobs (working s)) (jobs (working (job_step e op s)))"
proof (cases op)
  case (JEnqueue n now u kind params same)
  have "committed s = working s" "n \<notin> j_id ` set (jobs (working s))" "Some n \<noteq> i"
    using assms JEnqueue by (simp_all add: jobs_inv_def)
  from enqueue_shape [OF this surjective_pairing] show ?thesis by (simp add: JEnqueue)
next
  case (JComplete now j w a result audit trials)
  obtain s' out where c: "complete now (e_hooks e) s j w a result audit trials = (s', out)" by fastforce
  from complete_jobs [OF _ c] assms show ?thesis
    using JComplete c shape_update shape_same by (fastforce simp: jobs_inv_def)
next
  case (JReap now)
  have "committed (fst (reap_expired now s)) = working (fst (reap_expired now s))"
    by (simp add: reap_expired_def case_prod_unfold Let_def)
  moreover have "distinct (map j_id (jobs (working s)))" using assms by (simp add: jobs_inv_def queue_inv_def)
  ultimately show ?thesis using JReap by (simp add: reap_expired_jobs shape_update benign_statements)
next
  case (JReapRow now seen)
  have "sql_update (reap_guard now seen) (reap_values now seen) (jobs (working s)) =
      sql_update (\<lambda>j. reap_guard now seen j \<and> j_max_attempts j = j_max_attempts seen) (reap_values now seen)
        (jobs (working s))"
    using assms(2) JReapRow by (intro sql_update_cong) (auto simp: reap_guard_def list_all_iff)
  then show ?thesis using JReapRow by (simp add: reap_one_def shape_update benign_statements)
next
  case (JPurge now retention)
  have "\<forall>j. \<not> \<not> purgeable now retention j \<longrightarrow> terminal (j_status j)" by (simp add: purgeable_def)
  then have "step_shape e i (jobs (working s)) (filter (\<lambda>j. \<not> purgeable now retention j) (jobs (working s)))"
    by (rule shape_filter)
  then show ?thesis using JPurge by (simp add: purge_finished_def)
qed (use assms in \<open>simp_all add: cancel_queued_def flag_running_def claim_cas_def renew_lease_def cancel_requested_def
      fail_def finish_def mark_cancelled_def release_def heartbeat_worker_def remove_worker_def jobs_inv_def Let_def
      shape_same shape_update benign_statements\<close>)

end
