(* ===== verification/Job_Properties.thy ===== *)
theory Job_Properties
  imports Job_Invariants
begin

text \<open>
  The queue's invariant, the facts about a job that no transaction undoes
  (interpretations of \<open>sealed_machine\<close>), and the properties of the queue.
\<close>

section \<open>The invariant is kept\<close>

lemma shape_inv:
  assumes "step_shape e i js js'" "queue_inv e js" "1 \<le> e_max_attempts e"
  shows "queue_inv e js'"
  using assms(1) unfolding step_shape_def
proof (elim disjE exE conjE)
  fix p f assume "benign p f" "js' = sql_update p f js"
  then show ?thesis using queue_inv_update [OF assms(2)] by simp
next
  fix P assume "js' = filter P js"
  then show ?thesis using queue_inv_filter [OF assms(2)] by simp
next
  fix n u kind params now
  assume "n \<notin> j_id ` set js" "int (active_jobs js u) < e_max_active e"
    and "js' = js @ [new_job n u kind params (e_max_attempts e) now]"
  then show ?thesis using queue_inv_append [OF assms(2) _ _ assms(3)] by simp
qed (use assms(2) in simp)

lemma job_step_inv:
  assumes "jobs_inv e s" "job_ok_op i op s"
  shows "jobs_inv e (job_step e op s)"
  using job_step_shape [OF assms] shape_inv assms(1) unfolding jobs_inv_def by blast

section \<open>Facts no transaction undoes\<close>

definition fenced :: "string \<Rightarrow> int \<Rightarrow> 'x jobs_db session \<Rightarrow> bool" where
  "fenced i a s \<longleftrightarrow> (\<forall>j \<in> set (jobs (working s)). j_id j = i \<longrightarrow> past_attempt a j)"

definition final_row :: "string \<Rightarrow> job \<Rightarrow> 'x jobs_db session \<Rightarrow> bool" where
  "final_row i r s \<longleftrightarrow> terminal (j_status r) \<and> (\<forall>j \<in> set (jobs (working s)). j_id j = i \<longrightarrow> j = r)"

lemma terminal_not_active: "terminal st \<Longrightarrow> \<not> active st"
  by (cases st) simp_all

lemma shape_rows:
  assumes "step_shape e (Some i) js js'" "j' \<in> set js'" "j_id j' = i"
  obtains j where "j \<in> set js" "j_id j = i" "j' = j \<or> (active (j_status j) \<and> (\<forall>a. past_attempt a j \<longrightarrow> past_attempt a j'))"
  using assms(1) unfolding step_shape_def
proof (elim disjE exE conjE)
  fix p f assume b: "benign p f" and "js' = sql_update p f js"
  with assms(2) obtain j where j: "j \<in> set js" "j' = (if p j then f j else j)" by (auto simp: in_sql_update)
  show thesis
  proof (rule that [OF j(1)])
    show "j_id j = i" using j(2) assms(3) b unfolding benign_def by metis
    show "j' = j \<or> (active (j_status j) \<and> (\<forall>a. past_attempt a j \<longrightarrow> past_attempt a j'))"
      using j(2) b unfolding benign_def by metis
  qed
next
  fix n u kind params now
  assume "Some n \<noteq> Some i" "js' = js @ [new_job n u kind params (e_max_attempts e) now]"
  then show thesis using assms(2,3) that by (auto simp: new_job_def)
qed (use assms(2,3) that in auto)

lemma fenced_step:
  assumes "jobs_inv e s" "job_ok_op (Some i) op s" "fenced i a s"
  shows "fenced i a (job_step e op s)"
  unfolding fenced_def
proof (intro ballI impI)
  fix j' assume "j' \<in> set (jobs (working (job_step e op s)))" "j_id j' = i"
  then show "past_attempt a j'"
    using job_step_shape [OF assms(1,2)] assms(3) by (metis shape_rows fenced_def)
qed

lemma final_step:
  assumes "jobs_inv e s" "job_ok_op (Some i) op s" "final_row i r s"
  shows "final_row i r (job_step e op s)"
proof -
  have "j' = r" if "j' \<in> set (jobs (working (job_step e op s)))" "j_id j' = i" for j'
    using job_step_shape [OF assms(1,2)] assms(3) that
    by (metis shape_rows final_row_def terminal_not_active)
  then show ?thesis using assms(3) by (simp add: final_row_def)
qed

interpretation fence: sealed_machine "job_step e" "jobs_inv e" "job_ok_op (Some i)" "fenced i" for e i
  by unfold_locales (auto intro: job_step_inv fenced_step)

interpretation finality: sealed_machine "job_step e" "jobs_inv e" "job_ok_op (Some i)" "final_row i" for e i
  by unfold_locales (auto intro: job_step_inv final_step)

interpretation queue: guarded_machine "job_step e" "jobs_inv e" "job_ok_op None" for e
  by unfold_locales (rule job_step_inv)

section \<open>Writes by a worker that does not own the job\<close>

lemma not_owned_update:
  "rowcount (owned i w a) js = 0 \<Longrightarrow> sql_update (owned i w a) f js = js"
  by (rule sql_update_no_rows)

lemma upd_jobs_same: "f (jobs (working s)) = jobs (working s) \<Longrightarrow> upd_jobs f s = s"
  by (cases s) (simp add: upd_def)

lemma commit_same: "committed s = working s \<Longrightarrow> commit s = s"
  by (cases s) (simp add: commit_def)

lemma rollback_same: "committed s = working s \<Longrightarrow> rollback s = s"
  by (cases s) (simp add: rollback_def)

lemma stray_writes:
  assumes "committed s = working s" "rowcount (owned i w a) (jobs (working s)) = 0"
  shows "renew_lease now lease s i w a = (s, LeaseLost)"
    and "fail now s i w a code detail = (s, False)"
    and "mark_cancelled now s i w a = (s, False)"
    and "release s i w a = (s, False)"
  using assms
  by (simp_all add: renew_lease_def fail_def finish_def mark_cancelled_def release_def not_owned_update
      upd_jobs_same commit_same Let_def)

lemma fenced_not_owned: "fenced i a s \<Longrightarrow> rowcount (owned i w a) (jobs (working s)) = 0"
  by (auto simp: fenced_def rowcount_def filter_empty_conv owned_def past_attempt_def)

lemma stray_complete:
  assumes "committed s = working s" "rowcount (owned (j_id j) w a) (jobs (working s)) = 0"
    and "complete now h s j w a result audit trials = (s', out)"
  shows "out \<noteq> Inr True \<and> committed s' = working s' \<and>
    s' = s\<lparr>committed := (committed s)\<lparr>trial_rows := trial_rows (committed s')\<rparr>,
           working := (working s)\<lparr>trial_rows := trial_rows (working s')\<rparr>\<rparr>
    \<and> (trials = None \<longrightarrow> s' = s)"
proof (cases "dict_get KINDS (j_kind j)")
  case None
  then show ?thesis using assms by (cases s) (auto simp: complete_def)
next
  case (Some k)
  obtain s0 r0 where 0: "record_stage h j result trials s = (s0, r0)" by fastforce
  obtain s1 r where 1: "store_result now h k s0 j w a r0 audit = (s1, r)" by fastforce
  note f0 = record_frame [OF 0 assms(1)]
  note f1 = store_result_effect [OF 1]
  have c1: "rollback s1 = s0" using f0 f1 by (cases s0; cases s1) (simp add: rollback_def)
  have "s' = s0 \<and> out \<noteq> Inr True"
  proof (cases r)
    case (Inl e)
    then show ?thesis using assms(2,3) 0 1 Some f0 f1 c1 stray_writes(2) [of s0 "j_id j" w a now]
      by (cases e) (auto simp: complete_def)
  next
    case (Inr q)
    then show ?thesis using assms(2,3) 0 1 Some f0 f1 c1
      by (cases q) (auto simp: complete_def split: if_splits prod.splits)
  qed
  moreover have "s0 = s\<lparr>committed := (committed s)\<lparr>trial_rows := trial_rows (committed s0)\<rparr>,
           working := (working s)\<lparr>trial_rows := trial_rows (working s0)\<rparr>\<rparr> \<and> (trials = None \<longrightarrow> s0 = s)"
    using 0 assms(1) by (cases s) (auto simp: record_stage_def commit_def upd_def split: option.splits prod.splits)
  ultimately show ?thesis using f0 by simp
qed

section \<open>A concrete queue\<close>

definition demo_env :: "unit queue_env" where
  "demo_env = \<lparr>e_max_active = 3, e_max_attempts = 2,
     e_hooks = \<lparr>h_trials = (\<lambda>u b ts. (ts, 0)), h_market = (\<lambda>j r a x. (x, Inr (r, a))),
                h_finalize = (\<lambda>t j r a x. (x, Inr (r, (''research'', None), a))),
                h_backtest_row = (\<lambda>u r x. (x, Inr ''b1'')), h_audit = (\<lambda>u k t r a x. x)\<rparr>\<rparr>"

definition demo_job :: job where
  "demo_job = (new_job ''j1'' ''u'' ''stat_test'' JNull 2 5)\<lparr>j_status := RUNNING, j_worker := Some ''w1'',
     j_attempts := 1, j_started := Some 10, j_lease := Some 100\<rparr>"

definition demo_queue :: "job list \<Rightarrow> unit jobs_db session" where
  "demo_queue js = fresh_session \<lparr>jobs = js, workers = [], trial_rows = [], rest = ()\<rparr>"

lemma demo_job_inv: "jobs_inv demo_env (demo_queue [demo_job])"
  by (simp add: jobs_inv_def demo_queue_def demo_env_def queue_inv_def demo_job_def new_job_def job_wf_def
      active_jobs_def)

lemma demo_queued_inv: "jobs_inv demo_env (demo_queue [new_job ''j1'' ''u'' ''stat_test'' JNull 2 5])"
  by (simp add: jobs_inv_def demo_queue_def demo_env_def queue_inv_def new_job_def job_wf_def active_jobs_def)

section \<open>Properties\<close>

lemma reaped_fenced:
  assumes "jobs_inv e s" "j \<in> set (jobs (working s))" "lapsed now j"
  shows "fenced (j_id j) (j_attempts j) (fst (reap_expired now s))"
proof -
  have d: "distinct (map j_id (jobs (working s)))" using assms(1) by (simp add: jobs_inv_def queue_inv_def)
  have "past_attempt (j_attempts j) r'"
    if r': "r' \<in> set (jobs (working (fst (reap_expired now s))))" "j_id r' = j_id j" for r'
  proof -
    obtain r where r: "r \<in> set (jobs (working s))" "r' = (if lapsed now r then reap_values now r r else r)"
      using r'(1) by (auto simp: reap_expired_jobs [OF d] in_sql_update)
    then have "r = j" using same_id_row [OF d _ assms(2)] r'(2) by (metis reap_values_id)
    then show ?thesis using r(2) assms(3) by (auto simp: reap_values_def past_attempt_def)
  qed
  then show ?thesis by (simp add: fenced_def)
qed

text \<open>
  C2: a worker presumed dead can never overwrite a newer attempt. Once the reaper
  has taken back a job whose lease lapsed in attempt \<open>a\<close>, then after any further
  transactions every write made for attempt \<open>a\<close>, by whichever worker, is refused:
  renewing reports the lease lost, failing, cancelling and releasing do nothing,
  and completing neither succeeds nor changes any job.
\<close>

theorem stale_worker_cannot_write:
  assumes "jobs_inv e s" "j \<in> set (jobs (working s))" "lapsed now j"
    and "admissible (job_ok_op (Some (j_id j))) (job_step e) ops (fst (reap_expired now s))"
    and "s2 = fold (job_step e) ops (fst (reap_expired now s))"
    and "j_id j' = j_id j"
    and "complete now' h s2 j' w (j_attempts j) result audit trials = (s3, out)"
  shows "renew_lease now' lease s2 (j_id j) w (j_attempts j) = (s2, LeaseLost)
    \<and> fail now' s2 (j_id j) w (j_attempts j) code detail = (s2, False)
    \<and> mark_cancelled now' s2 (j_id j) w (j_attempts j) = (s2, False)
    \<and> release s2 (j_id j) w (j_attempts j) = (s2, False)
    \<and> out \<noteq> Inr True \<and> jobs (committed s3) = jobs (committed s2)"
proof -
  have "jobs_inv e (fst (reap_expired now s))"
    using job_step_inv [OF assms(1), of None "JReap now"] by simp
  from fence.inv_run [OF this assms(4)]
    fence.sealed_run [OF this assms(4) reaped_fenced [OF assms(1-3)]]
  have inv: "committed s2 = working s2" and f: "rowcount (owned (j_id j) w (j_attempts j)) (jobs (working s2)) = 0"
    using assms(5) fenced_not_owned by (auto simp: jobs_inv_def)
  have "rowcount (owned (j_id j') w (j_attempts j)) (jobs (working s2)) = 0" using f assms(6) by simp
  from stray_complete [OF inv this assms(7)] have "out \<noteq> Inr True"
    and "jobs (committed s3) = jobs (committed s2)" by (auto dest: arg_cong [where f = "\<lambda>s. jobs (committed s)"])
  then show ?thesis using stray_writes [OF inv f] by simp
qed

theorem stale_worker_cannot_write_witness:
  "snd (renew_lease 300 60 (fst (reap_expired 200 (demo_queue [demo_job]))) ''j1'' ''w1'' 1) = LeaseLost"
proof -
  have "demo_job \<in> set (jobs (working (demo_queue [demo_job])))" "lapsed 200 demo_job"
    by (simp_all add: demo_queue_def lapsed_def demo_job_def)
  moreover have "j_id demo_job = ''j1''" "j_attempts demo_job = 1" by (simp_all add: demo_job_def new_job_def)
  ultimately show ?thesis
    using stale_worker_cannot_write [where ops = "[]" and j = demo_job and j' = demo_job and now' = 300 and lease = 60
        and w = "''w1''", OF demo_job_inv _ _ _ _ _ surjective_pairing] by simp
qed

text \<open>
  No user ever has more active (queued or running) jobs than the limit, and
  \<open>enqueue\<close> refuses a new job exactly when the user is at it: over every
  interleaving of transactions.
\<close>

theorem active_jobs_within_limit:
  assumes "jobs_inv e s" "admissible (job_ok_op None) (job_step e) ops s"
    and "s' = fold (job_step e) ops s" "dict_get KINDS kind \<noteq> None"
  shows "int (active_jobs (jobs (committed s')) u) \<le> e_max_active e \<and>
    (snd (enqueue (e_max_active e) (e_max_attempts e) enc i now s' u kind raw []) =
       Inl (QueueFull (active_jobs (jobs (committed s')) u) (e_max_active e)) \<longleftrightarrow>
     int (active_jobs (jobs (committed s')) u) = e_max_active e)"
proof -
  have "jobs_inv e s'" using queue.inv_run [OF assms(1,2)] assms(3) by simp
  then have "int (active_jobs (jobs (committed s')) u) \<le> e_max_active e" "committed s' = working s'"
    by (auto simp: jobs_inv_def queue_inv_def)
  then show ?thesis using assms(4) by (auto simp: enqueue_def Let_def)
qed

theorem active_jobs_within_limit_witness:
  "int (active_jobs (jobs (committed (demo_queue [demo_job]))) ''u'') \<le> e_max_active demo_env"
proof -
  have k: "dict_get KINDS ''stat_test'' \<noteq> None" by (simp add: KINDS_def)
  have "admissible (job_ok_op None) (job_step demo_env) [] (demo_queue [demo_job])"
    "demo_queue [demo_job] = fold (job_step demo_env) [] (demo_queue [demo_job])" by simp_all
  from active_jobs_within_limit [OF demo_job_inv this k, where u = "''u''"] show ?thesis by (rule conjunct1)
qed

text \<open>
  A finished job is final. Once a job has succeeded, failed or been cancelled,
  no transaction changes any of its columns; its row stays as it is until
  retention deletes it.
\<close>

theorem finished_job_is_final:
  assumes "jobs_inv e s" "r \<in> set (jobs (working s))" "terminal (j_status r)"
    and "admissible (job_ok_op (Some (j_id r))) (job_step e) ops s"
    and "j \<in> set (jobs (committed (fold (job_step e) ops s)))" "j_id j = j_id r"
  shows "j = r"
proof -
  have "distinct (map j_id (jobs (working s)))" using assms(1) by (simp add: jobs_inv_def queue_inv_def)
  then have "final_row (j_id r) r s" using assms(2,3) same_id_row by (auto simp: final_row_def)
  from finality.sealed_run [OF assms(1,4) this] fence.inv_run [OF assms(1,4)] assms(5,6)
  show ?thesis by (auto simp: final_row_def jobs_inv_def)
qed

theorem finished_job_is_final_witness:
  "let r = demo_job\<lparr>j_status := FAILED, j_finished := Some 20, j_lease := None\<rparr>;
       s' = fold (job_step demo_env) [JClaim ''w2'' 60 30 ''j1'', JReap 500] (demo_queue [r])
   in length (jobs (committed s')) = 1 \<and> hd (jobs (committed s')) = r"
proof -
  let ?r = "demo_job\<lparr>j_status := FAILED, j_finished := Some 20, j_lease := None\<rparr>"
  let ?ops = "[JClaim ''w2'' 60 30 ''j1'', JReap 500]"
  have "jobs_inv demo_env (demo_queue [?r])" "?r \<in> set (jobs (working (demo_queue [?r])))" "terminal (j_status ?r)"
    by (simp_all add: jobs_inv_def demo_queue_def demo_env_def queue_inv_def demo_job_def new_job_def job_wf_def
        active_jobs_def)
  moreover have "admissible (job_ok_op (Some (j_id ?r))) (job_step demo_env) ?ops (demo_queue [?r])" by simp
  moreover have "hd (jobs (committed (fold (job_step demo_env) ?ops (demo_queue [?r]))))
      \<in> set (jobs (committed (fold (job_step demo_env) ?ops (demo_queue [?r]))))"
    "j_id (hd (jobs (committed (fold (job_step demo_env) ?ops (demo_queue [?r]))))) = j_id ?r"
    "length (jobs (committed (fold (job_step demo_env) ?ops (demo_queue [?r])))) = 1"
    by (simp_all add: demo_queue_def demo_job_def new_job_def reap_expired_def lapsed_def sql_update_def claim_cas_def)
  ultimately show ?thesis unfolding Let_def using finished_job_is_final [of demo_env "demo_queue [?r]" ?r ?ops]
    by blast
qed

text \<open>
  A result that arrives after the lease was lost leaves no trace except the
  trial count. When \<open>complete\<close> runs for an attempt that is no longer the
  owner's, whatever the finalizer and the other hooks did is rolled back: no job,
  worker, dataset, experiment, backtest or audit row changes; only the trials the
  run evaluated stay recorded.
\<close>

theorem late_result_is_discarded:
  assumes "jobs_inv e s" "\<forall>r \<in> set (jobs (working s)). \<not> owned (j_id j) w a r"
    and "complete now h s j w a result audit trials = (s', out)"
  shows "out \<noteq> Inr True \<and> jobs (committed s') = jobs (committed s) \<and> workers (committed s') = workers (committed s)
    \<and> rest (committed s') = rest (committed s) \<and> (trials = None \<longrightarrow> s' = s)"
proof -
  have "committed s = working s" "rowcount (owned (j_id j) w a) (jobs (working s)) = 0"
    using assms(1,2) by (auto simp: jobs_inv_def rowcount_def filter_empty_conv)
  from stray_complete [OF this assms(3)] show ?thesis
    by (metis (no_types, lifting) jobs_db.select_convs(1,2,4) jobs_db.surjective jobs_db.update_convs(3)
        session.select_convs(1) session.surjective session.update_convs(1,2))
qed

theorem late_result_is_discarded_witness:
  "rest (committed (fst (complete 300 (e_hooks demo_env) (demo_queue [demo_job]) demo_job ''w0'' 1 (JObj []) (JObj []) None))) = ()
   \<and> jobs (committed (fst (complete 300 (e_hooks demo_env) (demo_queue [demo_job]) demo_job ''w0'' 1 (JObj []) (JObj []) None)))
     = [demo_job]"
proof -
  have "\<forall>r \<in> set (jobs (working (demo_queue [demo_job]))). \<not> owned (j_id demo_job) ''w0'' 1 r"
    by (simp add: demo_queue_def owned_def demo_job_def)
  from late_result_is_discarded [OF demo_job_inv this surjective_pairing] show ?thesis
    by (simp add: demo_queue_def)
qed

lemma claim_read_alone:
  "(claim_read (\<lambda>_. False) s = None \<longleftrightarrow> (\<forall>j \<in> set (jobs (working s)). j_status j \<noteq> QUEUED)) \<and>
   (\<forall>i. claim_read (\<lambda>_. False) s = Some i \<longrightarrow>
      (\<exists>j \<in> set (jobs (working s)). j_id j = i \<and> j_status j = QUEUED \<and>
         (\<forall>r \<in> set (jobs (working s)). j_status r = QUEUED \<longrightarrow> j_created j \<le> j_created r)))"
proof (cases "sort_key j_created (filter (\<lambda>j. j_status j = QUEUED) (jobs (working s)))")
  case Nil
  then have "filter (\<lambda>j. j_status j = QUEUED) (jobs (working s)) = []" by (metis set_empty set_sort)
  then show ?thesis by (auto simp: claim_read_def filter_empty_conv)
next
  case (Cons j js)
  have "j \<in> set (filter (\<lambda>j. j_status j = QUEUED) (jobs (working s)))"
    by (metis Cons list.set_intros(1) set_sort)
  moreover have "sorted (map j_created (j # js))" by (metis Cons sorted_sort_key)
  then have "\<forall>r \<in> set (filter (\<lambda>j. j_status j = QUEUED) (jobs (working s))). j_created j \<le> j_created r"
    by (subst set_sort [of j_created, symmetric]) (simp add: Cons)
  ultimately show ?thesis using Cons by (auto simp: claim_read_def)
qed

text \<open>
  With no other process in the way, \<open>claim_next\<close> takes the oldest queued job
  in its first round, and returns nothing only when no job is queued: the job is
  marked running, owned by this worker under a new attempt number with a fresh
  lease, and no other job changes.
\<close>

theorem claim_takes_oldest:
  assumes "jobs_inv e s"
    and "claim_next (\<lambda>_ _. False) (\<lambda>_ s. s) w lease now s = (s', r)"
  shows "case r of
      None \<Rightarrow> s' = s \<and> (\<forall>j \<in> set (jobs (committed s)). j_status j \<noteq> QUEUED)
    | Some j' \<Rightarrow> \<exists>j \<in> set (jobs (committed s)). j_status j = QUEUED
        \<and> (\<forall>q \<in> set (jobs (committed s)). j_status q = QUEUED \<longrightarrow> j_created j \<le> j_created q)
        \<and> j' = j\<lparr>j_status := RUNNING, j_worker := Some w, j_attempts := j_attempts j + 1,
                 j_started := Some now, j_lease := Some (now + lease)\<rparr>
        \<and> jobs (committed s') = sql_update (\<lambda>x. x = j) (\<lambda>_. j') (jobs (committed s))"
proof -
  have c: "committed s = working s" and d: "distinct (map j_id (jobs (working s)))"
    using assms(1) by (simp_all add: jobs_inv_def queue_inv_def)
  note read = claim_read_alone [of s]
  show ?thesis
  proof (cases "claim_read (\<lambda>_. False) s")
    case None
    then have "claim_next (\<lambda>_ _. False) (\<lambda>_ s. s) w lease now s = (rollback s, None)"
      by (simp add: claim_next_def eval_nat_numeral)
    then show ?thesis using assms(2) read None c by (auto simp: rollback_same)
  next
    case (Some i)
    obtain j where j: "j \<in> set (jobs (working s))" "j_id j = i" "j_status j = QUEUED"
      "\<forall>q \<in> set (jobs (working s)). j_status q = QUEUED \<longrightarrow> j_created j \<le> j_created q"
      using read Some by blast
    let ?f = "\<lambda>j. j\<lparr>j_status := RUNNING, j_worker := Some w, j_attempts := j_attempts j + 1,
                 j_started := Some now, j_lease := Some (now + lease)\<rparr>"
    have "0 < rowcount (\<lambda>j. j_id j = i \<and> j_status j = QUEUED) (jobs (working s))"
      unfolding rowcount_pos_iff using j by blast
    then have "claim_next (\<lambda>_ _. False) (\<lambda>_ s. s) w lease now s =
        (let s1 = fst (claim_cas w lease now i s) in (s1, find_row j_id i (jobs (working s1))))"
      using Some by (simp add: claim_next_def eval_nat_numeral claim_cas_def)
    moreover have js: "jobs (working (fst (claim_cas w lease now i s))) = sql_update (\<lambda>x. x = j) (\<lambda>_. ?f j) (jobs (working s))"
    proof -
      have "(j_id x = i \<and> j_status x = QUEUED) = (x = j)" if "x \<in> set (jobs (working s))" for x
        using same_id_row [OF d that j(1)] j(2,3) by metis
      then show ?thesis unfolding claim_cas_def by (simp del: job.update_convs) (rule sql_update_cong, simp_all)
    qed
    moreover have "find_row j_id i (jobs (working (fst (claim_cas w lease now i s)))) = Some (?f j)"
      using find_row_in [OF d j(1)] j(2,3) by (simp add: claim_cas_def find_row_update)
    moreover have "committed (fst (claim_cas w lease now i s)) = working (fst (claim_cas w lease now i s))"
      by (simp add: claim_cas_def)
    ultimately have "s' = fst (claim_cas w lease now i s)" "r = Some (?f j)" using assms(2) by (auto simp: Let_def)
    moreover have "jobs (committed s') = sql_update (\<lambda>x. x = j) (\<lambda>_. ?f j) (jobs (committed s))"
      using \<open>s' = _\<close> js c by (simp add: claim_cas_def)
    ultimately show ?thesis using j unfolding c by (simp only: option.case) (intro bexI [of _ j]; simp)
  qed
qed

theorem claim_takes_oldest_witness:
  "\<exists>j'. snd (claim_next (\<lambda>_ _. False) (\<lambda>_ s. s) ''w1'' 60 20
      (demo_queue [new_job ''j1'' ''u'' ''stat_test'' JNull 2 5])) = Some j' \<and> j_attempts j' = 1 \<and> j_worker j' = Some ''w1''"
proof -
  let ?j = "new_job ''j1'' ''u'' ''stat_test'' JNull 2 5"
  have j: "jobs (committed (demo_queue [?j])) = [?j]" "j_status ?j = QUEUED" "j_attempts ?j = 0"
    by (simp_all add: demo_queue_def new_job_def)
  from claim_takes_oldest [OF demo_queued_inv surjective_pairing, of "''w1''" 60 20] show ?thesis
    by (cases "snd (claim_next (\<lambda>_ _. False) (\<lambda>_ s. s) ''w1'' 60 20 (demo_queue [?j]))") (simp_all add: j)
qed

end
