(* ===== verification/Job_Starts.thy ===== *)
theory Job_Starts
  imports Job_Properties
begin

text \<open>
  How often a job is started: the claims that win a job, counted over a history of
  the queue, against its \<open>max_attempts\<close> (\<^verbatim>\<open>services/research_jobs.py\<close>: claim_next,
  release; a worker runs a job exactly after winning its claim, and gives it back with
  \<^verbatim>\<open>release\<close> when it is told to stop).
\<close>

section \<open>Counting events of a history\<close>

fun wins_claim :: "string \<Rightarrow> job_op \<Rightarrow> 'x jobs_db session \<Rightarrow> bool" where
  "wins_claim i (JClaim w lease now k) s = (k = i \<and> snd (claim_cas w lease now k s))"
| "wins_claim i op s = False"

fun hands_back :: "string \<Rightarrow> job_op \<Rightarrow> 'x jobs_db session \<Rightarrow> bool" where
  "hands_back i (JRelease k w a) s = (k = i \<and> snd (release s k w a))"
| "hands_back i op s = False"

fun times :: "('op \<Rightarrow> 's \<Rightarrow> bool) \<Rightarrow> ('op \<Rightarrow> 's \<Rightarrow> 's) \<Rightarrow> 'op list \<Rightarrow> 's \<Rightarrow> nat" where
  "times p step [] s = 0"
| "times p step (op # ops) s = of_bool (p op s) + times p step ops (step op s)"

definition starts :: "'x queue_env \<Rightarrow> string \<Rightarrow> job_op list \<Rightarrow> 'x jobs_db session \<Rightarrow> nat" where
  "starts e i = times (wins_claim i) (job_step e)"

definition hand_backs :: "'x queue_env \<Rightarrow> string \<Rightarrow> job_op list \<Rightarrow> 'x jobs_db session \<Rightarrow> nat" where
  "hand_backs e i = times (hands_back i) (job_step e)"

section \<open>One step and the attempt counter\<close>

definition counted :: "string \<Rightarrow> int \<Rightarrow> int \<Rightarrow> job list \<Rightarrow> bool" where
  "counted i m n js \<longleftrightarrow> (\<forall>j \<in> set js. j_id j = i \<longrightarrow> j_attempts j = n \<and> j_max_attempts j = m)"

lemma counted_steady:
  assumes "counted i m n js" "\<And>x. attempt_counter (f x) = attempt_counter x"
  shows "counted i m n (sql_update p f js)"
  using assms by (auto simp: counted_def in_sql_update attempt_counter_def)

lemma counted_sub: "counted i m n js \<Longrightarrow> set js' \<subseteq> set js \<Longrightarrow> counted i m n js'"
  by (auto simp: counted_def)

lemma counted_one:
  assumes "distinct (map j_id js)" "counted i m n js" "\<And>j. p j \<Longrightarrow> j_id j = k"
    and "\<And>j. j_id (f j) = j_id j \<and> j_max_attempts (f j) = j_max_attempts j \<and> j_attempts (f j) = j_attempts j + d"
  shows "counted i m (n + (if k = i \<and> 0 < rowcount p js then d else 0)) (sql_update p f js)"
proof -
  have row: "p j \<longleftrightarrow> k = i \<and> 0 < rowcount p js" if "j \<in> set js" "j_id j = i" for j
  proof
    assume "p j"
    then show "k = i \<and> 0 < rowcount p js" using assms(3) that by (auto simp: rowcount_def filter_empty_conv)
  next
    assume "k = i \<and> 0 < rowcount p js"
    then obtain j0 where j0: "j0 \<in> set js" "p j0" "k = i" by (auto simp: rowcount_def filter_empty_conv)
    then have "j0 = j" using same_id_row [OF assms(1) j0(1) that(1)] assms(3) [OF j0(2)] that(2) by simp
    then show "p j" using j0(2) by simp
  qed
  show ?thesis unfolding counted_def
  proof (intro ballI impI)
    fix j' assume "j' \<in> set (sql_update p f js)" "j_id j' = i"
    then obtain j where j: "j \<in> set js" "j' = (if p j then f j else j)" by (auto simp: in_sql_update)
    then have "j_id j = i" using \<open>j_id j' = i\<close> assms(4) by (metis (full_types))
    then show "j_attempts j' = n + (if k = i \<and> 0 < rowcount p js then d else 0) \<and> j_max_attempts j' = m"
      using j row [OF j(1)] assms(2,4) by (auto simp: counted_def)
  qed
qed

lemma owned_id: "owned k w a j \<Longrightarrow> j_id j = k"
  by (simp add: owned_def)

lemma counted_step:
  assumes "jobs_inv e s" "job_ok_op (Some i) op s" "counted i m n (jobs (working s))"
  shows "counted i m (n + of_bool (wins_claim i op s) - of_bool (hands_back i op s)) (jobs (working (job_step e op s)))"
proof -
  have cw: "committed s = working s" and d: "distinct (map j_id (jobs (working s)))"
    using assms(1) by (simp_all add: jobs_inv_def queue_inv_def)
  note steady = counted_steady [OF assms(3)]
  show ?thesis
  proof (cases op)
    case (JEnqueue k now u kind params same)
    obtain s' r where e: "enqueue (e_max_active e) (e_max_attempts e) (\<lambda>v. v) k now s u kind params same = (s', r)"
      by fastforce
    from enqueue_cases [OF e] show ?thesis
      using JEnqueue e assms(2,3) cw by (auto simp: counted_def new_job_def)
  next
    case (JClaim w lease now k)
    show ?thesis
      using counted_one [OF d assms(3), of "\<lambda>j. j_id j = k \<and> j_status j = QUEUED" k
          "\<lambda>j. j\<lparr>j_status := RUNNING, j_worker := Some w, j_attempts := j_attempts j + 1,
                 j_started := Some now, j_lease := Some (now + lease)\<rparr>" 1] JClaim
      by (simp add: claim_cas_def of_bool_def)
  next
    case (JRelease k w a)
    show ?thesis
      using counted_one [OF d assms(3), of "owned k w a" k
          "\<lambda>j. j\<lparr>j_status := QUEUED, j_worker := None, j_lease := None, j_attempts := j_attempts j - 1\<rparr>" "-1"]
        JRelease owned_id
      by (auto simp: release_def of_bool_def split: if_splits)
  next
    case (JFail now k w a code detail)
    then show ?thesis using fail_effect [of now s k w a code detail] steady by fastforce
  next
    case (JComplete now j w a result audit trials)
    obtain s' out where c: "complete now (e_hooks e) s j w a result audit trials = (s', out)" by fastforce
    from complete_jobs [OF cw c] show ?thesis using JComplete c assms(3) steady by fastforce
  next
    case (JReap now)
    have "attempt_counter (reap_values now x x) = attempt_counter x" for x
      by (simp add: reap_values_def attempt_counter_def)
    then show ?thesis using JReap steady by (simp add: reap_expired_jobs [OF d])
  next
    case (JReapRow now seen)
    have "attempt_counter (reap_values now seen x) = attempt_counter x" for x
      by (simp add: reap_values_def attempt_counter_def)
    then show ?thesis using JReapRow steady by (simp add: reap_one_def)
  next
    case (JPurge now retention)
    then show ?thesis using counted_sub [OF assms(3)] by (simp add: purge_finished_def)
  qed (use assms(3) in \<open>simp_all add: cancel_queued_def flag_running_def renew_lease_def cancel_requested_def
      finish_def mark_cancelled_def heartbeat_worker_def remove_worker_def Let_def steady attempt_counter_def\<close>)
qed

lemma won_below:
  assumes "jobs_inv e s" "wins_claim i op s" "counted i m n (jobs (working s))"
  shows "n < m"
proof (cases op)
  case (JClaim w lease now k)
  then obtain j where "j \<in> set (jobs (working s))" "j_id j = i" "j_status j = QUEUED"
    using assms(2) by (auto simp: claim_cas_def rowcount_def filter_empty_conv)
  then show ?thesis using assms(1,3) by (auto simp: jobs_inv_def queue_inv_def list_all_iff job_wf_def counted_def)
qed (use assms(2) in simp_all)

lemma starts_bound:
  assumes "jobs_inv e s" "admissible (job_ok_op (Some i)) (job_step e) ops s"
    and "counted i m n (jobs (working s))" "n \<le> m"
  shows "n + int (starts e i ops s) \<le> m + int (hand_backs e i ops s) \<and>
    counted i m (n + int (starts e i ops s) - int (hand_backs e i ops s)) (jobs (working (fold (job_step e) ops s)))"
  using assms
proof (induction ops arbitrary: s n)
  case (Cons op ops)
  let ?n = "n + of_bool (wins_claim i op s) - of_bool (hands_back i op s) :: int"
  have "wins_claim i op s \<Longrightarrow> n + 1 \<le> m" using won_below [OF Cons.prems(1) _ Cons.prems(3)] by force
  then have "?n \<le> m" using Cons.prems(4) by (simp add: of_bool_def)
  moreover have "job_ok_op (Some i) op s" using Cons.prems(2) by simp
  ultimately have "?n + int (starts e i ops (job_step e op s)) \<le> m + int (hand_backs e i ops (job_step e op s)) \<and>
    counted i m (?n + int (starts e i ops (job_step e op s)) - int (hand_backs e i ops (job_step e op s)))
      (jobs (working (fold (job_step e) ops (job_step e op s))))"
    using Cons.IH [OF job_step_inv [OF Cons.prems(1)] _ counted_step [OF Cons.prems(1) _ Cons.prems(3)]] Cons.prems(2)
    by simp
  then show ?case by (simp add: starts_def hand_backs_def algebra_simps)
qed (simp add: starts_def hand_backs_def)

section \<open>Property\<close>

text \<open>
  C7: over every interleaving of transactions a job is started - a claim statement
  wins it - at most \<open>max_attempts\<close> times, not counting the starts that its worker
  handed back with \<open>release\<close>; and the attempt counter of its row is at every moment
  exactly the starts less the hand-backs, with one attempt left while the job waits.
\<close>

theorem starts_within_limit:
  assumes "jobs_inv e s" "admissible (job_ok_op (Some (j_id j))) (job_step e) ops s" "j \<in> set (jobs (working s))"
  shows "j_attempts j + int (starts e (j_id j) ops s) \<le> j_max_attempts j + int (hand_backs e (j_id j) ops s)
    \<and> (\<forall>j' \<in> set (jobs (committed (fold (job_step e) ops s))). j_id j' = j_id j \<longrightarrow>
         j_attempts j' = j_attempts j + int (starts e (j_id j) ops s) - int (hand_backs e (j_id j) ops s)
         \<and> j_max_attempts j' = j_max_attempts j \<and> (j_status j' = QUEUED \<longrightarrow> j_attempts j' < j_max_attempts j'))"
proof -
  have c: "counted (j_id j) (j_max_attempts j) (j_attempts j) (jobs (working s))"
    using assms(1,3) same_id_row unfolding counted_def jobs_inv_def queue_inv_def by blast
  have le: "j_attempts j \<le> j_max_attempts j"
    using assms(1,3) by (auto simp: jobs_inv_def queue_inv_def list_all_iff job_wf_def)
  have inv: "jobs_inv e (fold (job_step e) ops s)" by (rule fence.inv_run [OF assms(1,2)])
  show ?thesis using starts_bound [OF assms(1,2) c le] inv
    by (auto simp: counted_def jobs_inv_def queue_inv_def list_all_iff job_wf_def)
qed

text \<open>
  A job with two attempts: started, handed back, started, lost to the reaper, started
  again; the fourth claim is no start, since the row is not waiting.
\<close>

definition demo_starts :: "job_op list" where
  "demo_starts = [JClaim ''w1'' 60 10 ''j1'', JRelease ''j1'' ''w1'' 1, JClaim ''w2'' 60 20 ''j1'', JReap 200,
     JClaim ''w3'' 60 210 ''j1'', JClaim ''w4'' 60 220 ''j1'']"

lemma demo_starts_count:
  "starts demo_env ''j1'' demo_starts (demo_queue [new_job ''j1'' ''u'' ''stat_test'' JNull 2 5]) = 3 \<and>
   hand_backs demo_env ''j1'' demo_starts (demo_queue [new_job ''j1'' ''u'' ''stat_test'' JNull 2 5]) = 1"
  by (simp add: starts_def hand_backs_def demo_starts_def demo_queue_def new_job_def claim_cas_def release_def
      owned_def rowcount_def sql_update_def reap_expired_def lapsed_def reap_one_def reap_guard_def reap_values_def)

theorem starts_within_limit_witness:
  "let s = demo_queue [new_job ''j1'' ''u'' ''stat_test'' JNull 2 5]
   in starts demo_env ''j1'' demo_starts s = 3 \<and> hand_backs demo_env ''j1'' demo_starts s = 1
    \<and> (0::int) + int (starts demo_env ''j1'' demo_starts s) \<le> 2 + int (hand_backs demo_env ''j1'' demo_starts s)"
proof -
  have "admissible (job_ok_op (Some ''j1'')) (job_step demo_env) demo_starts
      (demo_queue [new_job ''j1'' ''u'' ''stat_test'' JNull 2 5])"
    by (simp add: demo_starts_def del: job_step.simps)
  with starts_within_limit [OF demo_queued_inv, of "new_job ''j1'' ''u'' ''stat_test'' JNull 2 5" demo_starts]
  show ?thesis using demo_starts_count by (simp add: demo_queue_def new_job_def Let_def)
qed

end
