(* ===== verification/Worker.thy ===== *)
theory Worker
  imports Job_Properties
begin

text \<open>
  \<^verbatim>\<open>src/backend/worker.py\<close>: what a job process keeps of the environment, the loop
  that runs one task in the child with its time limits, and the dispatch of the
  outcome to the queue. Pipes, processes and signals are outside: each turn of the
  loop is an input (what the pipe gave, whether the child lives, the clocks, whether
  the worker was told to stop).
\<close>

section \<open>Environment of a job process\<close>

definition JOB_ENVIRONMENT :: "string list" where
  "JOB_ENVIRONMENT =
    [''PATH'', ''HOME'', ''USER'', ''LOGNAME'', ''LANG'', ''LANGUAGE'', ''TZ'', ''TMPDIR'', ''TEMP'', ''TMP'',
     ''XDG_CACHE_HOME'', ''XDG_CONFIG_HOME'', ''MPLCONFIGDIR'',
     ''SYSTEMROOT'', ''SYSTEMDRIVE'', ''WINDIR'', ''COMSPEC'', ''PATHEXT'', ''USERPROFILE'', ''APPDATA'',
     ''LOCALAPPDATA'', ''PROGRAMDATA'', ''__CF_USER_TEXT_ENCODING'',
     ''VIRTUAL_ENV'', ''PYTHONHOME'', ''PYTHONPATH'', ''PYTHONUTF8'', ''PYTHONIOENCODING'', ''PYTHONUNBUFFERED'',
     ''PYTHONDONTWRITEBYTECODE'', ''PYTHONHASHSEED'',
     ''HTTP_PROXY'', ''HTTPS_PROXY'', ''NO_PROXY'', ''ALL_PROXY'',
     ''SSL_CERT_FILE'', ''SSL_CERT_DIR'', ''REQUESTS_CA_BUNDLE'', ''CURL_CA_BUNDLE'',
     ''OMP_NUM_THREADS'', ''OPENBLAS_NUM_THREADS'', ''MKL_NUM_THREADS'', ''NUMEXPR_NUM_THREADS'',
     ''NUMEXPR_MAX_THREADS'', ''ENVIRONMENT'', ''DATASET_ROOT'']"

definition env_allowed :: "string \<Rightarrow> bool" where
  "env_allowed name \<longleftrightarrow> str_upper name \<in> set JOB_ENVIRONMENT \<or> starts_with ''LC_'' (str_upper name)"

definition job_environment :: "(string, string) dict \<Rightarrow> (string, string) dict" where
  "job_environment environ =
     dict_set ''QS_PROCESS_ROLE'' ''research-job'' (filter (\<lambda>(name, value). env_allowed name) environ)"

section \<open>Running one task in the child\<close>

datatype task_outcome =
    TaskOk json json "trial_batch option"
  | TaskFailed int string
  | TimedOut
  | Crashed "int option"
  | Stopped string

text \<open>What a task does in the child, and what \<^verbatim>\<open>_run_target\<close> sends back.\<close>

datatype 'v task_run = Returned 'v 'v "(string \<times> 'v list \<times> string) option" | RaisedTaskError int string | Raised

definition GENERIC_FAILURE :: string where "GENERIC_FAILURE = ''Research job failed''"

definition run_target :: "('v \<Rightarrow> json) \<Rightarrow> (json \<Rightarrow> 'v task_run) \<Rightarrow> json \<Rightarrow> task_outcome" where
  "run_target encode target params =
     (case target params of
        RaisedTaskError code detail \<Rightarrow> TaskFailed code detail
      | Raised \<Rightarrow> TaskFailed 500 GENERIC_FAILURE
      | Returned result audit trials \<Rightarrow>
          TaskOk (json_safe encode result) (json_safe encode audit)
            (case trials of None \<Rightarrow> None
             | Some (family, configs, source) \<Rightarrow> Some \<lparr>b_family = family, b_configs = map (json_safe encode) configs, b_source = source\<rparr>))"

datatype pipe_read = Nothing | Ready | Eof | Outcome task_outcome

text \<open>
  One turn: what \<^verbatim>\<open>poll\<close>/\<^verbatim>\<open>recv\<close> gave, whether the child is alive after an empty
  poll, the clock compared with the limits, the child's exit code at a crash; and for
  \<^verbatim>\<open>on_tick\<close> the stop event, its clock, the database clock and the clock of the heartbeat.
\<close>

record turn =
  tu_read :: pipe_read
  tu_alive :: bool
  tu_clock :: pyfloat
  tu_exit :: "int option"
  tu_stopping :: bool
  tu_tick_clock :: pyfloat
  tu_now :: int
  tu_beat_clock :: pyfloat

record job_process =
  jp_running :: bool
  jp_jobs :: nat
  jp_recycle :: nat

definition CHILD_BOOT_SECONDS :: pyfloat where "CHILD_BOOT_SECONDS = 120"
definition RECYCLE_AFTER_JOBS :: nat where "RECYCLE_AFTER_JOBS = 50"

definition new_process :: job_process where
  "new_process = \<lparr>jp_running = False, jp_jobs = 0, jp_recycle = RECYCLE_AFTER_JOBS\<rparr>"

definition stopped :: "job_process \<Rightarrow> job_process" where
  "stopped p = p\<lparr>jp_running := False\<rparr>"

text \<open>
  The loop of \<^verbatim>\<open>JobProcess.run\<close> with its callback \<open>tick\<close>, which reads and changes a state
  of its own: \<open>deadline\<close> is \<open>None\<close> until the child is ready, and \<open>boot\<close> then bounds its
  start. \<open>None\<close>: the inputs are used up and it still waits.
\<close>

fun run_loop ::
  "(turn \<Rightarrow> 's \<Rightarrow> 's \<times> string option) \<Rightarrow> pyfloat \<Rightarrow> pyfloat \<Rightarrow> pyfloat option \<Rightarrow> job_process \<times> 's \<Rightarrow> turn list
     \<Rightarrow> ((job_process \<times> 's) \<times> task_outcome) option" where
  "run_loop tick timeout boot deadline (p, st) [] = None"
| "run_loop tick timeout boot deadline (p, st) (t # ts) =
     (case tu_read t of
        Eof \<Rightarrow> Some ((stopped p, st), Crashed (tu_exit t))
      | Ready \<Rightarrow> run_loop tick timeout boot (Some (fadd (tu_clock t) timeout)) (p, st) ts
      | Outcome out \<Rightarrow>
          (let p1 = p\<lparr>jp_jobs := jp_jobs p + 1\<rparr>
           in Some ((if jp_recycle p \<le> jp_jobs p1 then stopped p1 else p1, st), out))
      | Nothing \<Rightarrow>
          if \<not> tu_alive t then Some ((stopped p, st), Crashed (tu_exit t))
          else if deadline = None \<and> boot \<le> tu_clock t then Some ((stopped p, st), Crashed (tu_exit t))
          else if (case deadline of None \<Rightarrow> False | Some d \<Rightarrow> d \<le> tu_clock t) then Some ((stopped p, st), TimedOut)
          else (case tick t st of
                  (st1, answer) \<Rightarrow>
                    (case answer of
                       Some reason \<Rightarrow> if reason \<noteq> [] then Some ((stopped p, st1), Stopped reason)
                                      else run_loop tick timeout boot deadline (p, st1) ts
                     | None \<Rightarrow> run_loop tick timeout boot deadline (p, st1) ts)))"

text \<open>\<open>alive\<close>: whether the process kept from the last job still runs.\<close>

definition run_task ::
  "(turn \<Rightarrow> 's \<Rightarrow> 's \<times> string option) \<Rightarrow> pyfloat \<Rightarrow> pyfloat \<Rightarrow> bool \<Rightarrow> job_process \<times> 's \<Rightarrow> turn list
     \<Rightarrow> ((job_process \<times> 's) \<times> task_outcome) option" where
  "run_task tick timeout start alive ps ts =
     (case ps of (p, st) \<Rightarrow>
        if \<not> jp_running p \<or> \<not> alive
        then run_loop tick timeout (fadd start CHILD_BOOT_SECONDS) None (p\<lparr>jp_running := True, jp_jobs := 0\<rparr>, st) ts
        else run_loop tick timeout 0 (Some (fadd start timeout)) (p, st) ts)"

section \<open>The worker\<close>

record worker =
  wk_id :: string
  wk_hostname :: string
  wk_pid :: int
  wk_lease :: pyfloat
  wk_timeout :: pyfloat
  wk_heartbeat :: pyfloat
  wk_purge :: pyfloat

definition WORKER_HEARTBEAT_SECONDS :: pyfloat where "WORKER_HEARTBEAT_SECONDS = 5"
definition PURGE_INTERVAL_SECONDS :: pyfloat where "PURGE_INTERVAL_SECONDS = 3600"

text \<open>\<^verbatim>\<open>timedelta(seconds=lease)\<close>, in microseconds.\<close>

definition lease_us :: "worker \<Rightarrow> int" where
  "lease_us wk = round_half_even (wk_lease wk * 10 ^ 6)"

definition worker_heartbeat ::
  "int \<Rightarrow> pyfloat \<Rightarrow> string option \<Rightarrow> bool \<Rightarrow> worker \<times> 'x jobs_db session \<Rightarrow> worker \<times> 'x jobs_db session" where
  "worker_heartbeat now clock current force st =
     (case st of (wk, s) \<Rightarrow>
        if force \<or> WORKER_HEARTBEAT_SECONDS \<le> fsub clock (wk_heartbeat wk)
        then (wk\<lparr>wk_heartbeat := clock\<rparr>, heartbeat_worker now s (wk_id wk) (wk_hostname wk) (wk_pid wk) current)
        else st)"

definition housekeeping ::
  "int \<Rightarrow> pyfloat \<Rightarrow> int \<Rightarrow> worker \<times> 'x jobs_db session \<Rightarrow> worker \<times> 'x jobs_db session" where
  "housekeeping now clock retention st =
     (case st of (wk, s) \<Rightarrow>
        let s1 = fst (reap_expired now s)
        in if PURGE_INTERVAL_SECONDS \<le> fsub clock (wk_purge wk)
           then (wk\<lparr>wk_purge := clock\<rparr>, fst (purge_finished now retention s1))
           else (wk, s1))"

text \<open>\<^verbatim>\<open>on_tick\<close>, with the clock of the last lease renewal.\<close>

definition on_tick ::
  "job \<Rightarrow> int \<Rightarrow> turn \<Rightarrow> pyfloat \<times> worker \<times> 'x jobs_db session
     \<Rightarrow> (pyfloat \<times> worker \<times> 'x jobs_db session) \<times> string option" where
  "on_tick j attempt t st =
     (case st of (last_renew, wk, s) \<Rightarrow>
       if tu_stopping t then (st, Some ''shutdown'')
       else if fsub (tu_tick_clock t) last_renew < max 1 (fdiv (wk_lease wk) 3)
       then (let (s1, c) = cancel_requested s (j_id j)
             in ((last_renew, wk, s1), if c then Some ''cancelled'' else None))
       else (let (s1, state) = renew_lease (tu_now t) (lease_us wk) s (j_id j) (wk_id wk) attempt;
                 (wk2, s2) = worker_heartbeat (tu_now t) (tu_beat_clock t) (Some (j_id j)) False (wk, s1)
             in ((tu_tick_clock t, wk2, s2),
                 (case state of LeaseCancel \<Rightarrow> Some ''cancelled'' | LeaseLost \<Rightarrow> Some ''lost'' | LeaseOk \<Rightarrow> None))))"

text \<open>What \<^verbatim>\<open>_execute\<close> does with the outcome.\<close>

definition dispatch ::
  "int \<Rightarrow> 'x job_hooks \<Rightarrow> string \<Rightarrow> string \<Rightarrow> job \<Rightarrow> int \<Rightarrow> task_outcome \<Rightarrow> 'x jobs_db session \<Rightarrow> 'x jobs_db session" where
  "dispatch now h timeout_detail w j attempt out s =
     (case out of
        TaskOk result audit trials \<Rightarrow> fst (complete now h s j w attempt result audit trials)
      | TaskFailed code detail \<Rightarrow> fst (fail now s (j_id j) w attempt code detail)
      | TimedOut \<Rightarrow> fst (fail now s (j_id j) w attempt 504 timeout_detail)
      | Crashed _ \<Rightarrow> fst (fail now s (j_id j) w attempt 500 ''The research job process stopped unexpectedly.'')
      | Stopped reason \<Rightarrow>
          if reason = ''cancelled'' then fst (mark_cancelled now s (j_id j) w attempt)
          else if reason = ''shutdown'' then fst (release s (j_id j) w attempt)
          else s)"

text \<open>The clocks of one execution: at its start, of the child, and when its outcome is written.\<close>

record attempt_clocks =
  at_now :: int
  at_beat :: pyfloat
  at_renew :: pyfloat
  at_start :: pyfloat
  at_end :: int
  at_end_beat :: pyfloat

definition execute ::
  "'x job_hooks \<Rightarrow> string \<Rightarrow> attempt_clocks \<Rightarrow> bool \<Rightarrow> turn list \<Rightarrow> job
     \<Rightarrow> worker \<times> job_process \<times> 'x jobs_db session \<Rightarrow> (worker \<times> job_process \<times> 'x jobs_db session) option" where
  "execute h timeout_detail c alive ts j st =
     (case st of (wk, p, s) \<Rightarrow>
       let attempt = j_attempts j in
       if dict_get KINDS (j_kind j) = None
       then Some (wk, p, fst (fail (at_now c) s (j_id j) (wk_id wk) attempt 500 ''Unknown research job kind''))
       else (let (wk1, s1) = worker_heartbeat (at_now c) (at_beat c) (Some (j_id j)) True (wk, s)
             in (case run_task (on_tick j attempt) (wk_timeout wk) (at_start c) alive (p, (at_renew c, wk1, s1)) ts of
                   None \<Rightarrow> None
                 | Some ((p2, (last_renew, wk2, s2)), out) \<Rightarrow>
                     (let s3 = dispatch (at_end c) h timeout_detail (wk_id wk) j attempt out s2;
                          (wk4, s4) = worker_heartbeat (at_end c) (at_end_beat c) None True (wk2, s3)
                      in Some (wk4, p2, s4)))))"

text \<open>
  \<^verbatim>\<open>run_once\<close>: the claimed job if there was one. \<open>held\<close> and \<open>race\<close> are the other workers
  at the claim, \<open>c0\<close>, \<open>now\<close> the clocks before it.
\<close>

definition run_once ::
  "'x job_hooks \<Rightarrow> string \<Rightarrow> (nat \<Rightarrow> string \<Rightarrow> bool) \<Rightarrow> (nat \<Rightarrow> 'x jobs_db session \<Rightarrow> 'x jobs_db session) \<Rightarrow> int
     \<Rightarrow> int \<Rightarrow> pyfloat \<Rightarrow> attempt_clocks \<Rightarrow> bool \<Rightarrow> turn list \<Rightarrow> worker \<times> job_process \<times> 'x jobs_db session
     \<Rightarrow> ((worker \<times> job_process \<times> 'x jobs_db session) \<times> bool) option" where
  "run_once h timeout_detail held race retention now clock c alive ts st =
     (case st of (wk, p, s) \<Rightarrow>
       let (wk1, s1) = worker_heartbeat now clock None False (wk, s);
           (wk2, s2) = housekeeping now clock retention (wk1, s1)
       in (case claim_next held race (wk_id wk) now (lease_us wk) s2 of
             (s3, None) \<Rightarrow> Some ((wk2, p, s3), False)
           | (s3, Some j) \<Rightarrow> map_option (\<lambda>st. (st, True)) (execute h timeout_detail c alive ts j (wk2, p, s3))))"

section \<open>Properties\<close>

text \<open>
  A job process sees nothing but the allowed environment. Every variable it
  starts with is on the list of platform and library settings (or a locale setting),
  with the worker's own value, or is the process role, which is always
  \<^verbatim>\<open>research-job\<close>; so no variable of another name (database URL, key, secret file
  pointer) ever reaches research code.
\<close>

theorem job_environment_is_closed:
  "dict_get (job_environment environ) name =
     (if name = ''QS_PROCESS_ROLE'' then Some ''research-job''
      else if env_allowed name then dict_get environ name else None)
   \<and> \<not> env_allowed ''DATABASE_URL'' \<and> \<not> env_allowed ''SECRET_KEY'' \<and> \<not> env_allowed ''SECRET_KEY_FILE''"
proof -
  have "dict_get (filter (\<lambda>(name, value). env_allowed name) environ) name =
      (if env_allowed name then dict_get environ name else None)"
    by (induction environ) auto
  moreover have "\<not> env_allowed ''DATABASE_URL''" "\<not> env_allowed ''SECRET_KEY''" "\<not> env_allowed ''SECRET_KEY_FILE''"
    by (simp_all add: env_allowed_def JOB_ENVIRONMENT_def str_upper_def char_upper_def starts_with_def)
  ultimately show ?thesis by (simp add: job_environment_def)
qed

lemma run_loop_ends:
  assumes "\<exists>t \<in> set ts. tu_read t \<noteq> Ready \<and>
      (tu_read t = Nothing \<longrightarrow> \<not> tu_alive t \<or> (boot \<le> tu_clock t \<and> limit \<le> tu_clock t))"
    and "\<And>d. deadline = Some d \<Longrightarrow> d \<le> limit"
    and "\<And>t. t \<in> set ts \<Longrightarrow> tu_read t = Ready \<Longrightarrow> fadd (tu_clock t) timeout \<le> limit"
  shows "run_loop tick timeout boot deadline (p, st) ts \<noteq> None"
  using assms
proof (induction ts arbitrary: deadline st)
  case (Cons t ts)
  have rest: "run_loop tick timeout boot d (p, st') ts \<noteq> None"
    if "\<not> (tu_read t \<noteq> Ready \<and> (tu_read t = Nothing \<longrightarrow> \<not> tu_alive t \<or> (boot \<le> tu_clock t \<and> limit \<le> tu_clock t)))"
      "\<And>x. d = Some x \<Longrightarrow> x \<le> limit" for d st'
    using Cons.IH [of d st'] Cons.prems(1,3) that by auto
  show ?case
  proof (cases "tu_read t")
    case Ready
    then have "run_loop tick timeout boot (Some (fadd (tu_clock t) timeout)) (p, st) ts \<noteq> None"
      using rest [of "Some (fadd (tu_clock t) timeout)"] Cons.prems(3) by simp
    then show ?thesis using Ready by simp
  next
    case Nothing
    show ?thesis
    proof (cases "\<not> tu_alive t \<or> (boot \<le> tu_clock t \<and> limit \<le> tu_clock t)")
      case True
      show ?thesis
      proof (cases deadline)
        case (Some d)
        then have "limit \<le> tu_clock t \<Longrightarrow> d \<le> tu_clock t" using Cons.prems(2) [of d] by simp
        then show ?thesis using True Nothing Some by auto
      qed (use True Nothing in auto)
    next
      case False
      obtain st1 answer where "tick t st = (st1, answer)" by fastforce
      moreover have "run_loop tick timeout boot deadline (p, st1) ts \<noteq> None" using rest Nothing Cons.prems(2) False by simp
      ultimately show ?thesis using Nothing by (auto split: option.splits)
    qed
  qed (simp_all add: Let_def)
qed simp

text \<open>
  C20: a job cannot outlive its time limit. Once the clock is past every limit the
  loop could be waiting for (the boot limit, and the job's own limit from whenever
  the child became ready), the loop has returned an outcome: it never waits
  for a silent child beyond them, whatever the pipe gave and the ticks answered before.
\<close>

theorem task_ends_by_deadline:
  assumes "t \<in> set ts" "tu_read t = Nothing" "fadd start CHILD_BOOT_SECONDS \<le> tu_clock t" "0 \<le> tu_clock t"
    and "fadd start timeout \<le> tu_clock t"
    and "\<And>r. r \<in> set ts \<Longrightarrow> tu_read r = Ready \<Longrightarrow> fadd (tu_clock r) timeout \<le> tu_clock t"
  shows "run_task tick timeout start alive (p, st) ts \<noteq> None"
proof -
  have "run_loop tick timeout boot deadline (q, st) ts \<noteq> None"
    if "boot \<le> tu_clock t" "\<And>d. deadline = Some d \<Longrightarrow> d \<le> tu_clock t" for boot deadline q
  proof (rule run_loop_ends [where limit = "tu_clock t"])
    show "\<exists>r \<in> set ts. tu_read r \<noteq> Ready \<and>
        (tu_read r = Nothing \<longrightarrow> \<not> tu_alive r \<or> (boot \<le> tu_clock r \<and> tu_clock t \<le> tu_clock r))"
      using assms(1,2) that(1) by (intro bexI [of _ t]) auto
  qed (use that(2) assms(6) in auto)
  note ends = this
  have "run_loop tick timeout 0 (Some (fadd start timeout)) (p, st) ts \<noteq> None"
    by (rule ends) (use assms(4,5) in auto)
  moreover have "run_loop tick timeout (fadd start CHILD_BOOT_SECONDS) None (p\<lparr>jp_running := True, jp_jobs := 0\<rparr>, st) ts \<noteq> None"
    by (rule ends) (use assms(3) in auto)
  ultimately show ?thesis by (simp add: run_task_def)
qed

definition demo_turn :: "pipe_read \<Rightarrow> pyfloat \<Rightarrow> turn" where
  "demo_turn r c = \<lparr>tu_read = r, tu_alive = True, tu_clock = c, tu_exit = None, tu_stopping = False,
     tu_tick_clock = c, tu_now = 300, tu_beat_clock = c\<rparr>"

theorem task_ends_by_deadline_witness:
  "run_task (\<lambda>t st. (st, None)) 900 0 False (new_process, ()) [demo_turn Ready 10, demo_turn Nothing 2000] \<noteq> None"
proof -
  have f: "fadd 0 CHILD_BOOT_SECONDS = 120" "fadd 0 900 = 900" "fadd 10 900 = 910"
    by (simp_all add: fadd_def CHILD_BOOT_SECONDS_def)
  have "fadd (tu_clock r) 900 \<le> tu_clock (demo_turn Nothing 2000)"
    if "r \<in> set [demo_turn Ready 10, demo_turn Nothing 2000]" "tu_read r = Ready" for r
    using that f by (auto simp: demo_turn_def)
  then show ?thesis
    by (intro task_ends_by_deadline [of "demo_turn Nothing 2000"]) (auto simp: demo_turn_def f)
qed

text \<open>A session whose jobs table is \<open>js\<close> and stays so.\<close>

definition jobs_are :: "job list \<Rightarrow> 'x jobs_db session \<Rightarrow> bool" where
  "jobs_are js s \<longleftrightarrow> committed s = working s \<and> jobs (working s) = js"

lemma dispatch_stray:
  assumes "jobs_are js s" "rowcount (owned (j_id j) w a) js = 0"
  shows "jobs_are js (dispatch now h detail w j a out s)"
proof -
  have c: "committed s = working s" "rowcount (owned (j_id j) w a) (jobs (working s)) = 0"
    using assms by (auto simp: jobs_are_def)
  show ?thesis
  proof (cases out)
    case (TaskOk result audit trials)
    obtain s' r where e: "complete now h s j w a result audit trials = (s', r)" by fastforce
    from stray_complete [OF c e] have "committed s' = working s'" "jobs (working s') = jobs (working s)"
      by (auto dest: arg_cong [where f = "\<lambda>s. jobs (working s)"])
    then show ?thesis using TaskOk e assms(1) by (simp add: dispatch_def jobs_are_def)
  qed (use stray_writes [OF c] assms(1) in \<open>auto simp: dispatch_def\<close>)
qed

lemma heartbeat_jobs: "jobs_are js s \<Longrightarrow> jobs_are js (snd (worker_heartbeat now clock current force (wk, s)))"
  by (simp add: jobs_are_def worker_heartbeat_def heartbeat_worker_def upd_def commit_def)

lemma heartbeat_id: "wk_id (fst (worker_heartbeat now clock current force (wk, s))) = wk_id wk"
  by (simp add: worker_heartbeat_def)

lemma on_tick_jobs:
  assumes "jobs_are js s" "rowcount (owned (j_id j) (wk_id wk) a) js = 0"
  shows "jobs_are js (snd (snd (fst (on_tick j a t (last_renew, wk, s))))) \<and>
    wk_id (fst (snd (fst (on_tick j a t (last_renew, wk, s))))) = wk_id wk"
proof -
  have c: "committed s = working s" "rowcount (owned (j_id j) (wk_id wk) a) (jobs (working s)) = 0"
    using assms by (auto simp: jobs_are_def)
  show ?thesis
    using assms(1) heartbeat_jobs [OF assms(1)] commit_same [OF c(1)]
    by (simp add: on_tick_def cancel_requested_def stray_writes(1) [OF c] case_prod_beta heartbeat_id)
qed

lemma run_loop_jobs:
  assumes "run_loop (on_tick j a) timeout boot deadline (p, (r, wk, s)) ts = Some ((p', (r', wk', s')), out)"
    and "jobs_are js s" "rowcount (owned (j_id j) (wk_id wk) a) js = 0"
  shows "jobs_are js s' \<and> wk_id wk' = wk_id wk"
  using assms
proof (induction ts arbitrary: deadline r wk s)
  case (Cons t ts)
  obtain r1 wk1 s1 answer where t: "on_tick j a t (r, wk, s) = ((r1, wk1, s1), answer)" by (metis surj_pair)
  have k: "jobs_are js s1" "wk_id wk1 = wk_id wk"
    using on_tick_jobs [OF Cons.prems(2,3), of t r] t by auto
  note more = Cons.IH [of _ r wk s] Cons.IH [of deadline r1 wk1 s1]
  show ?case
  proof (cases "tu_read t")
    case Nothing
    then show ?thesis using Cons.prems t k more(2) by (auto split: if_splits option.splits)
  qed (use Cons.prems more(1) in \<open>auto simp: Let_def split: if_splits\<close>)
qed simp

lemma execute_stray:
  assumes "execute h detail c alive ts j (wk, p, s) = Some (wk', p', s')"
    and "jobs_are js s" "rowcount (owned (j_id j) (wk_id wk) (j_attempts j)) js = 0"
  shows "jobs_are js s'"
proof (cases "dict_get KINDS (j_kind j)")
  case None
  have "committed s = working s" "rowcount (owned (j_id j) (wk_id wk) (j_attempts j)) (jobs (working s)) = 0"
    using assms by (auto simp: jobs_are_def)
  note same = stray_writes(2) [OF this]
  show ?thesis using assms(1,2) None by (auto simp: execute_def same)
next
  case (Some k)
  obtain wk1 s1 where b: "worker_heartbeat (at_now c) (at_beat c) (Some (j_id j)) True (wk, s) = (wk1, s1)" by fastforce
  have 1: "jobs_are js s1" "wk_id wk1 = wk_id wk"
    using heartbeat_jobs [OF assms(2)] heartbeat_id b by (metis snd_conv) (metis b fst_conv heartbeat_id)
  obtain p2 r2 wk2 s2 out where
      r: "run_task (on_tick j (j_attempts j)) (wk_timeout wk) (at_start c) alive (p, (at_renew c, wk1, s1)) ts
         = Some ((p2, (r2, wk2, s2)), out)"
    and s': "s' = snd (worker_heartbeat (at_end c) (at_end_beat c) None True
        (wk2, dispatch (at_end c) h detail (wk_id wk) j (j_attempts j) out s2))"
    using assms(1) Some b by (auto simp: execute_def Let_def case_prod_beta split: option.splits)
  have "jobs_are js s2"
    using r run_loop_jobs [OF _ 1(1)] assms(3) 1(2) unfolding run_task_def by (auto split: if_splits)
  then show ?thesis unfolding s' by (intro heartbeat_jobs dispatch_stray) (use assms(3) in auto)
qed

text \<open>
  A worker that no longer owns a job does not touch it. Running the job to any
  end under an attempt the job is past (result, error, time-out, crash, cancellation,
  shutdown, loss), with every tick, lease renewal and heartbeat on the way, changes no
  job row.
\<close>

theorem worker_without_lease_changes_no_job:
  assumes "jobs_inv e s" "fenced (j_id j) (j_attempts j) s"
    and "execute h detail c alive ts j (wk, p, s) = Some (wk', p', s')"
  shows "jobs (committed s') = jobs (committed s)"
  using execute_stray [OF assms(3), of "jobs (working s)"] assms(1) fenced_not_owned [OF assms(2)]
  by (auto simp: jobs_are_def jobs_inv_def)

definition demo_clocks :: attempt_clocks where
  "demo_clocks = \<lparr>at_now = 300, at_beat = 0, at_renew = 0, at_start = 0, at_end = 300, at_end_beat = 0\<rparr>"

definition demo_worker :: worker where
  "demo_worker = \<lparr>wk_id = ''w1'', wk_hostname = ''h'', wk_pid = 1, wk_lease = 60, wk_timeout = 900, wk_heartbeat = 0,
     wk_purge = 0\<rparr>"

theorem worker_without_lease_changes_no_job_witness:
  "let r = demo_job\<lparr>j_worker := Some ''w2'', j_attempts := 2\<rparr>
   in case execute (e_hooks demo_env) ''late'' demo_clocks True [demo_turn Eof 1] demo_job
        (demo_worker, new_process, demo_queue [r]) of
        None \<Rightarrow> False
      | Some (wk, p, s) \<Rightarrow> jobs (committed s) = [r]"
proof -
  let ?r = "demo_job\<lparr>j_worker := Some ''w2'', j_attempts := 2\<rparr>"
  let ?e = "execute (e_hooks demo_env) ''late'' demo_clocks True [demo_turn Eof 1] demo_job
        (demo_worker, new_process, demo_queue [?r])"
  have inv: "jobs_inv demo_env (demo_queue [?r])"
    by (simp add: jobs_inv_def demo_queue_def demo_env_def queue_inv_def demo_job_def new_job_def job_wf_def
        active_jobs_def)
  have f: "fenced (j_id demo_job) (j_attempts demo_job) (demo_queue [?r])"
    by (simp add: fenced_def demo_queue_def past_attempt_def demo_job_def)
  have "?e \<noteq> None"
    by (simp add: execute_def run_task_def new_process_def demo_turn_def Let_def case_prod_unfold)
  then obtain wk p s where e: "?e = Some (wk, p, s)" by (cases ?e) auto
  have "jobs (committed s) = [?r]"
    using worker_without_lease_changes_no_job [OF inv f e] by (simp add: demo_queue_def)
  then show ?thesis using e by simp
qed

end
