(* ===== verification/Order_Book.thy ===== *)
theory Order_Book
  imports Numerics
begin

text \<open>
  \<^verbatim>\<open>src/backend/services/order_book.py\<close>: the L2 limit order book of the research
  exchange. Python's order objects are shared between a level's queue, the index by
  id and the caller, so they live in a heap and everything else holds references.
  Generated ids are arguments.
\<close>

section \<open>Orders\<close>

datatype trade_side = BUY | SELL
datatype book_order_type = OT_MARKET | OT_LIMIT | OT_STOP | OT_STOP_LIMIT
datatype order_status = SUBMITTED | OACCEPTED | OQUEUED | PARTIALLY_FILLED | OFILLED | OCANCELLED | OREJECTED | OEXPIRED
datatype time_in_force = TIF_DAY | TIF_GTC | TIF_IOC | TIF_FOK
datatype owner = MARKET | PAPER

definition opposite :: "trade_side \<Rightarrow> trade_side" where
  "opposite sd = (case sd of BUY \<Rightarrow> SELL | SELL \<Rightarrow> BUY)"

definition EPS :: pyfloat where "EPS = fl (1 / 10 ^ 9)"

record order =
  b_id :: string
  b_side :: trade_side
  b_type :: book_order_type
  b_quantity :: pyfloat
  b_limit :: "pyfloat option"
  b_stop :: "pyfloat option"
  b_tif :: time_in_force
  b_expires :: "pyfloat option"
  b_owner :: owner
  b_status :: order_status
  b_filled :: pyfloat
  b_avg :: pyfloat
  b_ahead :: pyfloat
  b_ahead_entry :: pyfloat
  b_ahead_peak :: pyfloat
  b_entered_at :: "pyfloat option"
  b_filled_at :: "pyfloat option"

definition blank_order :: order where
  "blank_order = \<lparr>b_id = [], b_side = BUY, b_type = OT_LIMIT, b_quantity = 0, b_limit = None, b_stop = None,
      b_tif = TIF_GTC, b_expires = None, b_owner = MARKET, b_status = SUBMITTED, b_filled = 0, b_avg = 0,
      b_ahead = 0, b_ahead_entry = 0, b_ahead_peak = 0, b_entered_at = None, b_filled_at = None\<rparr>"

definition remaining :: "order \<Rightarrow> pyfloat" where
  "remaining o' = fsub (b_quantity o') (b_filled o')"

definition is_active :: "order \<Rightarrow> bool" where
  "is_active o' \<longleftrightarrow> b_status o' \<in> {OACCEPTED, OQUEUED, PARTIALLY_FILLED}"

definition record_fill :: "pyfloat \<Rightarrow> pyfloat \<Rightarrow> pyfloat \<Rightarrow> order \<Rightarrow> order" where
  "record_fill price quantity timestamp o' =
     (let previous = b_filled o';
          o1 = o'\<lparr>b_filled := fadd previous quantity,
                 b_avg := fdiv (fadd (fmul (b_avg o') previous) (fmul price quantity)) (fadd previous quantity),
                 b_filled_at := Some timestamp\<rparr>
      in o1\<lparr>b_status := (if remaining o1 \<le> EPS then OFILLED else PARTIALLY_FILLED)\<rparr>)"

record fill =
  f_order :: string
  f_price :: pyfloat
  f_quantity :: pyfloat
  f_time :: pyfloat
  f_partial :: bool
  f_side :: trade_side

section \<open>Book\<close>

record level =
  l_price :: pyfloat
  l_orders :: "nat list"

record half =
  h_levels :: "(int, level) dict"
  h_ticks :: "int list"

record book =
  tick_size :: pyfloat
  decimals :: nat
  bids :: half
  asks :: half
  index :: "(string, nat) dict"
  heap :: "nat \<Rightarrow> order"
  next_ref :: nat
  last_trade_price :: "pyfloat option"
  last_trade_size :: "pyfloat option"
  last_event_time :: pyfloat

definition new_book :: "pyfloat \<Rightarrow> nat \<Rightarrow> book option" where
  "new_book tick digits =
     (if tick \<le> 0 then None
      else Some \<lparr>tick_size = tick, decimals = digits, bids = \<lparr>h_levels = [], h_ticks = []\<rparr>,
                 asks = \<lparr>h_levels = [], h_ticks = []\<rparr>, index = [], heap = (\<lambda>r. blank_order),
                 next_ref = 0, last_trade_price = None, last_trade_size = None, last_event_time = 0\<rparr>)"

definition to_ticks :: "book \<Rightarrow> pyfloat \<Rightarrow> int" where
  "to_ticks b price = round_half_even (fdiv price (tick_size b))"

definition from_ticks :: "book \<Rightarrow> int \<Rightarrow> pyfloat" where
  "from_ticks b t = pyround (fmul (of_int t) (tick_size b)) (decimals b)"

definition is_on_grid :: "book \<Rightarrow> pyfloat \<Rightarrow> bool" where
  "is_on_grid b price =
     (let units = fdiv price (tick_size b) in \<bar>fsub units (of_int (round_half_even units))\<bar> < fl (1 / 10 ^ 6))"

definition half_of :: "book \<Rightarrow> trade_side \<Rightarrow> half" where
  "half_of b sd = (case sd of BUY \<Rightarrow> bids b | SELL \<Rightarrow> asks b)"

definition set_half :: "trade_side \<Rightarrow> half \<Rightarrow> book \<Rightarrow> book" where
  "set_half sd h b = (case sd of BUY \<Rightarrow> b\<lparr>bids := h\<rparr> | SELL \<Rightarrow> b\<lparr>asks := h\<rparr>)"

definition level_at :: "book \<Rightarrow> trade_side \<Rightarrow> int \<Rightarrow> level option" where
  "level_at b sd t = dict_get (h_levels (half_of b sd)) t"

definition set_level :: "trade_side \<Rightarrow> int \<Rightarrow> level \<Rightarrow> book \<Rightarrow> book" where
  "set_level sd t l b = set_half sd ((half_of b sd)\<lparr>h_levels := dict_set t l (h_levels (half_of b sd))\<rparr>) b"

definition ensure_level :: "trade_side \<Rightarrow> int \<Rightarrow> book \<Rightarrow> book" where
  "ensure_level sd t b =
     (case level_at b sd t of
        Some _ \<Rightarrow> b
      | None \<Rightarrow> set_half sd
          \<lparr>h_levels = dict_set t \<lparr>l_price = from_ticks b t, l_orders = []\<rparr> (h_levels (half_of b sd)),
           h_ticks = bisect_insort t (h_ticks (half_of b sd))\<rparr> b)"

definition total_size :: "(nat \<Rightarrow> order) \<Rightarrow> nat list \<Rightarrow> pyfloat" where
  "total_size h rs = fsum (map (\<lambda>r. remaining (h r)) rs)"

definition market_size :: "(nat \<Rightarrow> order) \<Rightarrow> nat list \<Rightarrow> pyfloat" where
  "market_size h rs = fsum (map (\<lambda>r. remaining (h r)) (filter (\<lambda>r. b_owner (h r) = MARKET) rs))"

text \<open>\<^verbatim>\<open>refresh_queue_positions\<close>.\<close>

fun refresh_queue :: "pyfloat \<Rightarrow> nat list \<Rightarrow> (nat \<Rightarrow> order) \<Rightarrow> nat \<Rightarrow> order" where
  "refresh_queue ahead [] h = h"
| "refresh_queue ahead (r # rs) h =
     (let h1 = (if b_owner (h r) = PAPER
                then h(r := (h r)\<lparr>b_ahead := ahead, b_ahead_peak := max (b_ahead_peak (h r)) ahead\<rparr>) else h)
      in refresh_queue (fadd ahead (remaining (h1 r))) rs h1)"

definition resting :: "order \<Rightarrow> bool" where
  "resting o' \<longleftrightarrow> EPS < remaining o' \<and> is_active o'"

definition prune :: "trade_side \<Rightarrow> int \<Rightarrow> book \<Rightarrow> book" where
  "prune sd t b =
     (case level_at b sd t of
        None \<Rightarrow> b
      | Some l \<Rightarrow>
         (let kept = filter (\<lambda>r. resting (heap b r)) (l_orders l);
              dropped = filter (\<lambda>r. \<not> resting (heap b r) \<and> b_owner (heap b r) = MARKET) (l_orders l);
              b1 = b\<lparr>index := fold (\<lambda>r. dict_pop (b_id (heap b r))) dropped (index b),
                     heap := refresh_queue 0 kept (heap b)\<rparr>
          in if kept = []
             then set_half sd \<lparr>h_levels = dict_pop t (h_levels (half_of b sd)),
                               h_ticks = removeAll t (h_ticks (half_of b sd))\<rparr> b1
             else set_level sd t (l\<lparr>l_orders := kept\<rparr>) b1))"

definition best_bid :: "book \<Rightarrow> pyfloat option" where
  "best_bid b = (if h_ticks (bids b) = [] then None else Some (from_ticks b (last (h_ticks (bids b)))))"

definition best_ask :: "book \<Rightarrow> pyfloat option" where
  "best_ask b = (if h_ticks (asks b) = [] then None else Some (from_ticks b (hd (h_ticks (asks b)))))"

definition mid_price :: "book \<Rightarrow> pyfloat option" where
  "mid_price b = (case (best_bid b, best_ask b) of (Some x, Some y) \<Rightarrow> Some (fdiv (fadd x y) 2) | _ \<Rightarrow> None)"

definition spread :: "book \<Rightarrow> pyfloat option" where
  "spread b = (case (best_bid b, best_ask b) of (Some x, Some y) \<Rightarrow> Some (fsub y x) | _ \<Rightarrow> None)"

text \<open>The ticks of a side, best price first.\<close>

definition best_first :: "book \<Rightarrow> trade_side \<Rightarrow> int list" where
  "best_first b sd = (case sd of BUY \<Rightarrow> rev (h_ticks (bids b)) | SELL \<Rightarrow> h_ticks (asks b))"

section \<open>Resting orders\<close>

definition add_order :: "nat \<Rightarrow> pyfloat \<Rightarrow> book \<Rightarrow> book" where
  "add_order r timestamp b =
     (case b_limit (heap b r) of
        None \<Rightarrow> b
      | Some p \<Rightarrow>
         (let t = to_ticks b p; sd = b_side (heap b r);
              b1 = ensure_level sd t b;
              l = (case level_at b1 sd t of Some l \<Rightarrow> l | None \<Rightarrow> \<lparr>l_price = from_ticks b t, l_orders = []\<rparr>);
              ahead = total_size (heap b) (l_orders l);
              o0 = heap b r;
              o1 = o0\<lparr>b_limit := (if b_owner o0 = MARKET then Some (from_ticks b t) else b_limit o0),
                      b_ahead := ahead, b_ahead_entry := ahead, b_ahead_peak := ahead,
                      b_entered_at := Some timestamp,
                      b_status := (if b_filled o0 \<le> 0 then OQUEUED else b_status o0)\<rparr>
          in set_level sd t (l\<lparr>l_orders := l_orders l @ [r]\<rparr>)
               (b1\<lparr>heap := (heap b)(r := o1), index := dict_set (b_id o0) r (index b)\<rparr>)))"

text \<open>Python removes the first order of that id from the level.\<close>

fun remove_id :: "(nat \<Rightarrow> order) \<Rightarrow> string \<Rightarrow> nat list \<Rightarrow> nat list" where
  "remove_id h i [] = []"
| "remove_id h i (r # rs) = (if b_id (h r) = i then rs else r # remove_id h i rs)"

definition book_cancel :: "string \<Rightarrow> book \<Rightarrow> book \<times> nat option" where
  "book_cancel i b =
     (case dict_get (index b) i of
        None \<Rightarrow> (b, None)
      | Some r \<Rightarrow>
          (case b_limit (heap b r) of
             None \<Rightarrow> (b, None)
           | Some p \<Rightarrow>
               if \<not> is_active (heap b r) then (b, None)
               else let t = to_ticks b p; sd = b_side (heap b r);
                        b1 = b\<lparr>heap := (heap b)(r := (heap b r)\<lparr>b_status := OCANCELLED\<rparr>)\<rparr>
                    in (case level_at b sd t of
                          None \<Rightarrow> (b1, Some r)
                        | Some l \<Rightarrow>
                            (prune sd t (set_level sd t (l\<lparr>l_orders := remove_id (heap b1) i (l_orders l)\<rparr>) b1), Some r))))"

section \<open>Aggressive execution\<close>

text \<open>One level's queue: the remaining quantity, the heap and the fills so far.\<close>

fun sweep_queue ::
  "bool \<Rightarrow> pyfloat \<Rightarrow> pyfloat \<Rightarrow> nat list \<Rightarrow> pyfloat \<times> (nat \<Rightarrow> order) \<times> fill list
     \<Rightarrow> pyfloat \<times> (nat \<Rightarrow> order) \<times> fill list" where
  "sweep_queue skip_paper price timestamp [] st = st"
| "sweep_queue skip_paper price timestamp (r # rs) (left, h, fills) =
     (if left \<le> EPS then (left, h, fills)
      else if skip_paper \<and> b_owner (h r) = PAPER then sweep_queue skip_paper price timestamp rs (left, h, fills)
      else let qty = min left (remaining (h r)) in
           if qty \<le> EPS then sweep_queue skip_paper price timestamp rs (left, h, fills)
           else let o1 = record_fill price qty timestamp (h r)
                in sweep_queue skip_paper price timestamp rs
                     (fsub left qty, h(r := o1),
                      fills @ [\<lparr>f_order = b_id o1, f_price = price, f_quantity = qty, f_time = timestamp,
                                f_partial = (b_status o1 \<noteq> OFILLED), f_side = b_side o1\<rparr>]))"

definition beyond :: "trade_side \<Rightarrow> int option \<Rightarrow> int \<Rightarrow> bool" where
  "beyond sd limit t = (case limit of None \<Rightarrow> False | Some l \<Rightarrow> (case sd of BUY \<Rightarrow> l < t | SELL \<Rightarrow> t < l))"

fun sweep_levels ::
  "bool \<Rightarrow> trade_side \<Rightarrow> int option \<Rightarrow> pyfloat \<Rightarrow> int list \<Rightarrow> pyfloat \<times> book \<times> fill list
     \<Rightarrow> pyfloat \<times> book \<times> fill list" where
  "sweep_levels skip_paper sd limit timestamp [] st = st"
| "sweep_levels skip_paper sd limit timestamp (t # ts) (left, b, fills) =
     (if left \<le> EPS \<or> beyond sd limit t then (left, b, fills)
      else (case level_at b (opposite sd) t of
              None \<Rightarrow> (left, b, fills)
            | Some l \<Rightarrow>
                (case sweep_queue skip_paper (l_price l) timestamp (l_orders l) (left, heap b, fills) of
                   (left1, h1, fills1) \<Rightarrow>
                     sweep_levels skip_paper sd limit timestamp ts
                       (left1, prune (opposite sd) t (b\<lparr>heap := h1\<rparr>), fills1))))"

definition consume_liquidity ::
  "trade_side \<Rightarrow> pyfloat \<Rightarrow> pyfloat \<Rightarrow> pyfloat option \<Rightarrow> bool \<Rightarrow> book \<Rightarrow> book \<times> fill list" where
  "consume_liquidity sd quantity timestamp limit_price skip_paper b =
     (case sweep_levels skip_paper sd (map_option (to_ticks b) limit_price) timestamp
             (best_first b (opposite sd)) (quantity, b, []) of
        (left, b1, fills) \<Rightarrow>
          (if fills = [] then b1
           else b1\<lparr>last_trade_price := Some (f_price (last fills)),
                   last_trade_size := Some (fsum (map f_quantity fills))\<rparr>, fills))"

section \<open>Market data\<close>

datatype book_event_type = EV_ADD | EV_CANCEL | EV_MODIFY | EV_TRADE

record book_event =
  ev_time :: pyfloat
  ev_type :: book_event_type
  ev_side :: trade_side
  ev_price :: pyfloat
  ev_size :: pyfloat
  ev_order :: "string option"

definition market_depth :: "book \<Rightarrow> trade_side \<Rightarrow> pyfloat \<Rightarrow> pyfloat" where
  "market_depth b sd price =
     (case level_at b sd (to_ticks b price) of None \<Rightarrow> 0 | Some l \<Rightarrow> market_size (heap b) (l_orders l))"

definition feed_order :: "string \<Rightarrow> trade_side \<Rightarrow> pyfloat \<Rightarrow> pyfloat \<Rightarrow> order" where
  "feed_order i sd price sz =
     \<lparr>b_id = i, b_side = sd, b_type = OT_LIMIT, b_quantity = sz, b_limit = Some price, b_stop = None,
      b_tif = TIF_GTC, b_expires = None, b_owner = MARKET, b_status = SUBMITTED, b_filled = 0, b_avg = 0,
      b_ahead = 0, b_ahead_entry = 0, b_ahead_peak = 0, b_entered_at = None, b_filled_at = None\<rparr>"

definition allocate :: "order \<Rightarrow> book \<Rightarrow> book \<times> nat" where
  "allocate o' b = (b\<lparr>heap := (heap b)(next_ref b := o'), next_ref := next_ref b + 1\<rparr>, next_ref b)"

definition add_feed :: "string \<Rightarrow> trade_side \<Rightarrow> pyfloat \<Rightarrow> pyfloat \<Rightarrow> pyfloat \<Rightarrow> book \<Rightarrow> book" where
  "add_feed i sd price sz timestamp b =
     (let (b1, r) = allocate (feed_order i sd price sz) b in add_order r timestamp b1)"

definition event_id :: "string \<Rightarrow> book_event \<Rightarrow> string" where
  "event_id new_id ev = (case ev_order ev of Some i \<Rightarrow> if i \<noteq> [] then i else new_id | None \<Rightarrow> new_id)"

definition apply_add :: "string \<Rightarrow> book_event \<Rightarrow> book \<Rightarrow> book" where
  "apply_add new_id ev b =
     (if EPS < ev_size ev
      then add_feed (event_id new_id ev) (ev_side ev) (from_ticks b (to_ticks b (ev_price ev))) (ev_size ev) (ev_time ev) b
      else b)"

text \<open>The reduction of a level's market orders in proportion to their size.\<close>

definition reduce_market :: "pyfloat \<Rightarrow> nat list \<Rightarrow> (nat \<Rightarrow> order) \<Rightarrow> nat \<Rightarrow> order" where
  "reduce_market amount rs h =
     (let market = filter (\<lambda>r. b_owner (h r) = MARKET \<and> EPS < remaining (h r)) rs;
          total = fsum (map (\<lambda>r. remaining (h r)) market);
          share = min 1 (fdiv amount total)
      in if total \<le> EPS then h
         else fold (\<lambda>r h. h(r := (h r)\<lparr>b_quantity := fsub (b_quantity (h r)) (fmul (remaining (h r)) share)\<rparr>)) market h)"

definition known_order :: "book \<Rightarrow> book_event \<Rightarrow> level \<Rightarrow> nat option" where
  "known_order b ev l =
     (case ev_order ev of
        None \<Rightarrow> None
      | Some i \<Rightarrow>
          if i = [] then None
          else (case dict_get (index b) i of
                  None \<Rightarrow> None
                | Some r \<Rightarrow> if b_owner (heap b r) = MARKET \<and> r \<in> set (l_orders l) then Some r else None))"

definition change_known :: "book_event \<Rightarrow> int \<Rightarrow> level \<Rightarrow> nat \<Rightarrow> book \<Rightarrow> book" where
  "change_known ev t l r b =
     (let o' = heap b r in
      if ev_type ev = EV_CANCEL
      then b\<lparr>heap := (heap b)(r := o'\<lparr>b_quantity := max (b_filled o') (fsub (b_quantity o') (ev_size ev))\<rparr>)\<rparr>
      else if ev_size ev \<le> remaining o'
      then b\<lparr>heap := (heap b)(r := o'\<lparr>b_quantity := fadd (b_filled o') (ev_size ev)\<rparr>)\<rparr>
      else set_level (ev_side ev) t (l\<lparr>l_orders := remove_id (heap b) (b_id o') (l_orders l) @ [r]\<rparr>)
             (b\<lparr>heap := (heap b)(r := o'\<lparr>b_quantity := fadd (b_filled o') (ev_size ev)\<rparr>)\<rparr>))"

definition change_aggregate :: "string \<Rightarrow> book_event \<Rightarrow> level \<Rightarrow> book \<Rightarrow> book" where
  "change_aggregate new_id ev l b =
     (let current = market_size (heap b) (l_orders l);
          target = (if ev_type ev = EV_CANCEL then max 0 (fsub current (ev_size ev)) else ev_size ev)
      in if target < current
         then b\<lparr>heap := reduce_market (fsub current target) (l_orders l) (heap b)\<rparr>
         else if fadd current EPS < target
         then add_feed (event_id new_id ev) (ev_side ev) (l_price l) (fsub target current) (ev_time ev) b
         else b)"

definition apply_change :: "string \<Rightarrow> book_event \<Rightarrow> book \<Rightarrow> book" where
  "apply_change new_id ev b =
     (let t = to_ticks b (ev_price ev) in
      case level_at b (ev_side ev) t of
        None \<Rightarrow> (if ev_type ev = EV_MODIFY \<and> EPS < ev_size ev then apply_add new_id ev b else b)
      | Some l \<Rightarrow>
          prune (ev_side ev) t
            (case known_order b ev l of
               Some r \<Rightarrow> change_known ev t l r b
             | None \<Rightarrow> change_aggregate new_id ev l b))"

text \<open>A trade print walking one level: paper orders are filled, market orders reduced.\<close>

fun print_queue ::
  "pyfloat \<Rightarrow> pyfloat \<Rightarrow> nat list \<Rightarrow> pyfloat \<times> (nat \<Rightarrow> order) \<times> fill list \<Rightarrow> pyfloat \<times> (nat \<Rightarrow> order) \<times> fill list" where
  "print_queue price timestamp [] st = st"
| "print_queue price timestamp (r # rs) (left, h, fills) =
     (if left \<le> EPS then (left, h, fills)
      else let qty = min left (remaining (h r)) in
           if qty \<le> EPS then print_queue price timestamp rs (left, h, fills)
           else if b_owner (h r) = PAPER
           then let o1 = record_fill price qty timestamp (h r)
                in print_queue price timestamp rs
                     (fsub left qty, h(r := o1),
                      fills @ [\<lparr>f_order = b_id o1, f_price = price, f_quantity = qty, f_time = timestamp,
                                f_partial = (b_status o1 \<noteq> OFILLED), f_side = b_side o1\<rparr>])
           else print_queue price timestamp rs
                  (fsub left qty, h(r := (h r)\<lparr>b_quantity := fsub (b_quantity (h r)) qty\<rparr>), fills))"

fun print_levels ::
  "trade_side \<Rightarrow> pyfloat \<Rightarrow> int list \<Rightarrow> pyfloat \<times> book \<times> fill list \<Rightarrow> pyfloat \<times> book \<times> fill list" where
  "print_levels passive timestamp [] st = st"
| "print_levels passive timestamp (t # ts) (left, b, fills) =
     (if left \<le> EPS then (left, b, fills)
      else (case level_at b passive t of
              None \<Rightarrow> (left, b, fills)
            | Some l \<Rightarrow>
                (case print_queue (l_price l) timestamp (l_orders l) (left, heap b, fills) of
                   (left1, h1, fills1) \<Rightarrow>
                     print_levels passive timestamp ts (left1, prune passive t (b\<lparr>heap := h1\<rparr>), fills1))))"

definition apply_trade :: "book_event \<Rightarrow> book \<Rightarrow> book \<times> fill list" where
  "apply_trade ev b =
     (let t = to_ticks b (ev_price ev);
          b0 = b\<lparr>last_trade_price := Some (from_ticks b t), last_trade_size := Some (ev_size ev)\<rparr>;
          passive = opposite (ev_side ev);
          path = filter (\<lambda>x. \<not> beyond (ev_side ev) (Some t) x) (best_first b passive)
      in (case print_levels passive (ev_time ev) path (ev_size ev, b0, []) of (left, b1, fills) \<Rightarrow> (b1, fills)))"

definition apply_market_event :: "string \<Rightarrow> book_event \<Rightarrow> book \<Rightarrow> book \<times> fill list" where
  "apply_market_event new_id ev b =
     (let b0 = b\<lparr>last_event_time := ev_time ev\<rparr> in
      case ev_type ev of
        EV_ADD \<Rightarrow> (apply_add new_id ev b0, [])
      | EV_CANCEL \<Rightarrow> (apply_change new_id ev b0, [])
      | EV_MODIFY \<Rightarrow> (apply_change new_id ev b0, [])
      | EV_TRADE \<Rightarrow> apply_trade ev b0)"

definition book_snapshot :: "nat \<Rightarrow> book \<Rightarrow> (pyfloat \<times> pyfloat) list \<times> (pyfloat \<times> pyfloat) list" where
  "book_snapshot n b =
     (let quote = (\<lambda>sd t. case level_at b sd t of None \<Rightarrow> (from_ticks b t, 0)
                          | Some l \<Rightarrow> (l_price l, total_size (heap b) (l_orders l)))
      in (map (quote BUY) (take n (best_first b BUY)), map (quote SELL) (take n (best_first b SELL))))"

end
