(* ===== verification/Book_Properties.thy ===== *)
theory Book_Properties
  imports Order_Book
begin

text \<open>
  The structure of the order book (its price grid and levels) under every sequence
  of operations, and the rules of execution: price limits, price-time priority,
  self-trade prevention and queue positions.
\<close>

section \<open>Structure\<close>

text \<open>A side of the book: distinct sorted ticks, one level for each, and every level
  satisfies \<open>P\<close>.\<close>

definition grid_ok :: "(int \<Rightarrow> level \<Rightarrow> bool) \<Rightarrow> (int, level) dict \<Rightarrow> int list \<Rightarrow> bool" where
  "grid_ok P ls ts \<longleftrightarrow> sorted_wrt (<) ts \<and> wf_dict ls \<and> set ts = dom (dict_get ls)
     \<and> (\<forall>t l. dict_get ls t = Some l \<longrightarrow> P t l)"

lemma grid_ok_set:
  assumes "grid_ok P ls ts" "t \<in> dom (dict_get ls)" "Q t l" "\<And>x m. P x m \<Longrightarrow> Q x m"
  shows "grid_ok Q (dict_set t l ls) ts"
proof -
  have "set ts = dom (dict_get (dict_set t l ls))" using assms(1,2) by (auto simp: grid_ok_def)
  moreover have "Q x m" if "dict_get (dict_set t l ls) x = Some m" for x m
    using that assms unfolding grid_ok_def by (metis dict_get_set fun_upd_apply option.inject)
  ultimately show ?thesis using assms(1) by (simp add: grid_ok_def)
qed

lemma grid_ok_insert:
  assumes "grid_ok P ls ts" "t \<notin> dom (dict_get ls)" "P t l"
  shows "grid_ok P (dict_set t l ls) (bisect_insort t ts)"
proof -
  have "set (bisect_insort t ts) = dom (dict_get (dict_set t l ls))" using assms(1) by (auto simp: grid_ok_def)
  moreover have "P x m" if "dict_get (dict_set t l ls) x = Some m" for x m
    using that assms unfolding grid_ok_def by (metis dict_get_set fun_upd_apply option.inject)
  moreover have "sorted_wrt (<) (bisect_insort t ts)"
    using assms(1,2) by (intro sorted_wrt_bisect_insort) (auto simp: grid_ok_def)
  ultimately show ?thesis using assms(1) by (simp add: grid_ok_def)
qed

lemma grid_ok_pop:
  assumes "grid_ok P ls ts" "\<And>x m. P x m \<Longrightarrow> x \<noteq> t \<Longrightarrow> Q x m"
  shows "grid_ok Q (dict_pop t ls) (removeAll t ts)"
proof -
  have "set (removeAll t ts) = dom (dict_get (dict_pop t ls))"
    using assms(1) by (auto simp: grid_ok_def split: if_splits)
  moreover have "Q x m" if "dict_get (dict_pop t ls) x = Some m" for x m
    using that assms unfolding grid_ok_def by (simp split: if_splits)
  moreover have "sorted_wrt (<) (removeAll t ts)"
    using assms(1) by (simp add: grid_ok_def removeAll_filter_not_eq sorted_wrt_filter)
  ultimately show ?thesis using assms(1) by (simp add: grid_ok_def)
qed

lemma grid_ok_mono: "grid_ok P ls ts \<Longrightarrow> (\<And>x m. dict_get ls x = Some m \<Longrightarrow> P x m \<Longrightarrow> Q x m) \<Longrightarrow> grid_ok Q ls ts"
  by (simp add: grid_ok_def)

lemma grid_ok_level: "grid_ok P ls ts \<Longrightarrow> dict_get ls t = Some l \<Longrightarrow> P t l"
  by (simp add: grid_ok_def)

text \<open>A level is priced by its tick and holds an order, except perhaps at the tick \<open>ex\<close>.\<close>

definition level_ok :: "(int \<Rightarrow> pyfloat) \<Rightarrow> int option \<Rightarrow> int \<Rightarrow> level \<Rightarrow> bool" where
  "level_ok p ex t l \<longleftrightarrow> l_price l = p t \<and> (l_orders l \<noteq> [] \<or> ex = Some t)"

definition half_but :: "int option \<Rightarrow> (int \<Rightarrow> pyfloat) \<Rightarrow> half \<Rightarrow> bool" where
  "half_but ex p h \<longleftrightarrow> grid_ok (level_ok p ex) (h_levels h) (h_ticks h)"

abbreviation half_ok :: "(int \<Rightarrow> pyfloat) \<Rightarrow> half \<Rightarrow> bool" where "half_ok \<equiv> half_but None"

definition book_inv :: "book \<Rightarrow> bool" where
  "book_inv b \<longleftrightarrow> half_ok (from_ticks b) (bids b) \<and> half_ok (from_ticks b) (asks b)"

lemma half_frames [simp]:
  "half_of (set_half sd h b) sd' = (if sd' = sd then h else half_of b sd')"
  "half_of (b\<lparr>heap := hp\<rparr>) sd = half_of b sd" "half_of (b\<lparr>index := ix\<rparr>) sd = half_of b sd"
  "half_of (b\<lparr>next_ref := n\<rparr>) sd = half_of b sd" "half_of (b\<lparr>last_event_time := x\<rparr>) sd = half_of b sd"
  "half_of (b\<lparr>last_trade_price := y\<rparr>) sd = half_of b sd" "half_of (b\<lparr>last_trade_size := y\<rparr>) sd = half_of b sd"
  "heap (set_half sd h b) = heap b" "index (set_half sd h b) = index b" "next_ref (set_half sd h b) = next_ref b"
  by (cases sd; cases sd'; simp add: half_of_def set_half_def)+

lemma grid_frames [simp]:
  "from_ticks (set_half sd h b) = from_ticks b" "from_ticks (b\<lparr>heap := hp\<rparr>) = from_ticks b"
  "from_ticks (b\<lparr>index := ix\<rparr>) = from_ticks b" "from_ticks (b\<lparr>next_ref := n\<rparr>) = from_ticks b"
  "from_ticks (b\<lparr>last_event_time := x\<rparr>) = from_ticks b" "from_ticks (b\<lparr>last_trade_price := y\<rparr>) = from_ticks b"
  "from_ticks (b\<lparr>last_trade_size := y\<rparr>) = from_ticks b"
  by (cases sd; simp add: from_ticks_def set_half_def fun_eq_iff)+

lemma book_inv_halves: "book_inv b \<longleftrightarrow> half_ok (from_ticks b) (half_of b BUY) \<and> half_ok (from_ticks b) (half_of b SELL)"
  by (simp add: book_inv_def half_of_def)

lemma book_inv_half: "book_inv b \<Longrightarrow> half_ok (from_ticks b) (half_of b sd)"
  by (cases sd) (simp_all add: book_inv_halves)

lemma book_inv_cong:
  "\<lbrakk>book_inv b; from_ticks b' = from_ticks b; \<And>sd. half_of b' sd = half_of b sd\<rbrakk> \<Longrightarrow> book_inv b'"
  by (simp add: book_inv_halves)

lemma book_inv_set_half: "book_inv b \<Longrightarrow> half_ok (from_ticks b) h \<Longrightarrow> book_inv (set_half sd h b)"
  by (cases sd) (simp_all add: book_inv_halves)

lemma level_ok_None: "level_ok p None t l \<Longrightarrow> level_ok p ex t l"
  by (simp add: level_ok_def)

lemma half_ok_but: "half_ok p h \<Longrightarrow> half_but ex p h"
  unfolding half_but_def by (erule grid_ok_mono) (rule level_ok_None)

lemma half_but_set:
  assumes "half_ok p h" "t \<in> dom (dict_get (h_levels h))" "level_ok p ex t l"
  shows "half_but ex p (h\<lparr>h_levels := dict_set t l (h_levels h)\<rparr>)"
  using grid_ok_set [of "level_ok p None" _ _ t "level_ok p ex" l] assms level_ok_None
  by (simp add: half_but_def)

lemma half_ok_insert:
  assumes "half_ok p h" "t \<notin> dom (dict_get (h_levels h))" "level_ok p None t l"
  shows "half_ok p \<lparr>h_levels = dict_set t l (h_levels h), h_ticks = bisect_insort t (h_ticks h)\<rparr>"
  using grid_ok_insert [OF assms(1) [unfolded half_but_def] assms(2,3)] by (simp add: half_but_def)

lemma dict_set_twice: "dict_set t l (dict_set t m d) = dict_set t l d"
  by (induction d) auto

lemma set_level_inv:
  assumes "book_inv b" "level_at b sd t \<noteq> None" "l_orders l \<noteq> []" "l_price l = from_ticks b t"
  shows "book_inv (set_level sd t l b)"
  unfolding set_level_def
  by (intro book_inv_set_half assms(1) half_but_set book_inv_half) (use assms in \<open>auto simp: level_at_def level_ok_def\<close>)

lemma ensure_set_level_inv:
  assumes "book_inv b" "l_orders l \<noteq> []" "l_price l = from_ticks b t"
  shows "book_inv (set_level sd t l (ensure_level sd t b))"
proof (cases "level_at b sd t")
  case None
  let ?h = "half_of b sd"
  have "set_level sd t l (ensure_level sd t b) =
      set_half sd \<lparr>h_levels = dict_set t l (h_levels ?h), h_ticks = bisect_insort t (h_ticks ?h)\<rparr>
        (set_half sd \<lparr>h_levels = dict_set t \<lparr>l_price = from_ticks b t, l_orders = []\<rparr> (h_levels ?h),
           h_ticks = bisect_insort t (h_ticks ?h)\<rparr> b)"
    using None by (simp add: set_level_def ensure_level_def dict_set_twice)
  also have "\<dots> = set_half sd \<lparr>h_levels = dict_set t l (h_levels ?h), h_ticks = bisect_insort t (h_ticks ?h)\<rparr> b"
    by (cases sd) (simp_all add: set_half_def)
  finally show ?thesis using None assms
    by (simp add: book_inv_set_half half_ok_insert book_inv_half level_at_def domIff level_ok_def)
next
  case (Some m)
  then show ?thesis using set_level_inv [of b sd t l] assms by (simp add: ensure_level_def)
qed

lemma level_price: "book_inv b \<Longrightarrow> level_at b sd t = Some l \<Longrightarrow> l_price l = from_ticks b t \<and> l_orders l \<noteq> []"
  using grid_ok_level [OF book_inv_half [of b sd, unfolded half_but_def]] by (auto simp: level_at_def level_ok_def)

lemma level_at_frames [simp]:
  "level_at (b\<lparr>heap := hp\<rparr>) = level_at b" "level_at (b\<lparr>index := ix\<rparr>) = level_at b"
  "level_at (b\<lparr>next_ref := n\<rparr>) = level_at b" "level_at (b\<lparr>last_event_time := x\<rparr>) = level_at b"
  "level_at (b\<lparr>last_trade_price := y\<rparr>) = level_at b" "level_at (b\<lparr>last_trade_size := y\<rparr>) = level_at b"
  by (simp_all add: level_at_def fun_eq_iff)

lemma level_at_set [simp]:
  "level_at (set_level sd t l b) sd' t' = (if sd' = sd \<and> t' = t then Some l else level_at b sd' t')"
  by (auto simp: level_at_def set_level_def)

lemma set_level_frames [simp]:
  "heap (set_level sd t l b) = heap b" "index (set_level sd t l b) = index b"
  "from_ticks (set_level sd t l b) = from_ticks b" "next_ref (set_level sd t l b) = next_ref b"
  by (simp_all add: set_level_def)

text \<open>Pruning restores the structure also when the level it visits was emptied.\<close>

definition inv_but :: "trade_side \<Rightarrow> int \<Rightarrow> book \<Rightarrow> bool" where
  "inv_but sd t b \<longleftrightarrow> half_but (Some t) (from_ticks b) (half_of b sd) \<and> half_ok (from_ticks b) (half_of b (opposite sd))"

lemma opposite_simps [simp]: "opposite BUY = SELL" "opposite SELL = BUY" "opposite (opposite sd) = sd"
  "opposite sd \<noteq> sd" "sd \<noteq> opposite sd"
  by (cases sd; simp add: opposite_def)+

lemma book_inv_sides: "book_inv b \<longleftrightarrow> half_ok (from_ticks b) (half_of b sd) \<and> half_ok (from_ticks b) (half_of b (opposite sd))"
  by (cases sd) (auto simp: book_inv_halves)

lemma inv_but_inv: "book_inv b \<Longrightarrow> inv_but sd t b"
  unfolding inv_but_def book_inv_sides [of b sd] by (blast intro: half_ok_but)

lemma inv_but_set_level:
  assumes "book_inv b" "level_at b sd t \<noteq> None" "l_price l = from_ticks b t"
  shows "inv_but sd t (set_level sd t l b)"
proof -
  have "half_but (Some t) (from_ticks b) ((half_of b sd)\<lparr>h_levels := dict_set t l (h_levels (half_of b sd))\<rparr>)"
    using assms(2,3) by (intro half_but_set book_inv_half [OF assms(1)]) (auto simp: level_at_def level_ok_def)
  then show ?thesis using book_inv_half [OF assms(1), of "opposite sd"]
    by (simp add: inv_but_def set_level_def)
qed

lemma prune_inv:
  assumes "inv_but sd t b"
  shows "book_inv (prune sd t b)"
proof -
  let ?h = "half_of b sd"
  have i: "grid_ok (level_ok (from_ticks b) (Some t)) (h_levels ?h) (h_ticks ?h)"
    and o': "half_ok (from_ticks b) (half_of b (opposite sd))"
    using assms unfolding inv_but_def half_but_def by blast+
  show ?thesis
  proof (cases "level_at b sd t")
    case None
    then have "half_ok (from_ticks b) ?h" unfolding half_but_def
      by (intro grid_ok_mono [OF i]) (auto simp: level_at_def level_ok_def)
    then show ?thesis using None o' by (simp add: prune_def book_inv_sides [of _ sd])
  next
    case (Some l)
    let ?kept = "filter (\<lambda>r. resting (heap b r)) (l_orders l)"
    let ?b1 = "b\<lparr>index := fold (\<lambda>r. dict_pop (b_id (heap b r)))
        (filter (\<lambda>r. \<not> resting (heap b r) \<and> b_owner (heap b r) = MARKET) (l_orders l)) (index b),
        heap := refresh_queue 0 ?kept (heap b)\<rparr>"
    have keep: "book_inv (set_half sd h ?b1)" if "half_ok (from_ticks b) h" for h
      using that o' by (simp add: book_inv_sides [of _ sd])
    show ?thesis
    proof (cases "?kept = []")
      case True
      have "grid_ok (level_ok (from_ticks b) None) (dict_pop t (h_levels ?h)) (removeAll t (h_ticks ?h))"
        by (rule grid_ok_pop [OF i]) (simp add: level_ok_def)
      then have "half_ok (from_ticks b) \<lparr>h_levels = dict_pop t (h_levels ?h), h_ticks = removeAll t (h_ticks ?h)\<rparr>"
        by (simp add: half_but_def)
      then show ?thesis using keep Some True by (simp add: prune_def Let_def)
    next
      case False
      let ?ls = "dict_set t (l\<lparr>l_orders := ?kept\<rparr>) (h_levels ?h)"
      have "level_ok (from_ticks b) (Some t) t (l\<lparr>l_orders := ?kept\<rparr>)" "t \<in> dom (dict_get (h_levels ?h))"
        using Some grid_ok_level [OF i] by (auto simp: level_ok_def level_at_def)
      then have "grid_ok (level_ok (from_ticks b) (Some t)) ?ls (h_ticks ?h)" using grid_ok_set [OF i] by blast
      then have "grid_ok (level_ok (from_ticks b) None) ?ls (h_ticks ?h)"
        by (rule grid_ok_mono) (use False in \<open>auto simp: level_ok_def split: if_splits\<close>)
      then have "half_ok (from_ticks b) (?h\<lparr>h_levels := ?ls\<rparr>)" by (simp add: half_but_def)
      then show ?thesis using keep Some False by (simp add: prune_def Let_def set_level_def)
    qed
  qed
qed


section \<open>Every operation keeps the structure\<close>

lemma book_inv_frames [simp]:
  "book_inv (b\<lparr>heap := hp\<rparr>) = book_inv b" "book_inv (b\<lparr>index := ix\<rparr>) = book_inv b"
  "book_inv (b\<lparr>next_ref := n\<rparr>) = book_inv b" "book_inv (b\<lparr>last_event_time := x\<rparr>) = book_inv b"
  "book_inv (b\<lparr>last_trade_price := y\<rparr>) = book_inv b" "book_inv (b\<lparr>last_trade_size := y\<rparr>) = book_inv b"
  by (simp_all only: book_inv_halves half_frames grid_frames)

lemma set_level_heap: "set_level sd t l (b\<lparr>heap := hp, index := ix\<rparr>) = (set_level sd t l b)\<lparr>heap := hp, index := ix\<rparr>"
  by (cases sd) (simp_all add: set_level_def set_half_def half_of_def)

lemma level_at_ensure: "level_at (ensure_level sd t b) sd t \<noteq> None"
proof (cases "level_at b sd t")
  case None
  then show ?thesis by (simp add: ensure_level_def) (simp add: level_at_def)
next
  case (Some l)
  then show ?thesis by (simp add: ensure_level_def)
qed

lemma ensure_level_price:
  assumes "book_inv b" "level_at (ensure_level sd t b) sd t = Some l"
  shows "l_price l = from_ticks b t"
proof (cases "level_at b sd t")
  case None
  then have "level_at (ensure_level sd t b) sd t = Some \<lparr>l_price = from_ticks b t, l_orders = []\<rparr>"
    by (simp add: ensure_level_def) (simp add: level_at_def)
  then show ?thesis using assms(2) by simp
next
  case (Some m)
  then show ?thesis using assms level_price [of b sd t m] by (simp add: ensure_level_def)
qed

lemma add_order_inv: "book_inv b \<Longrightarrow> book_inv (add_order r ts b)"
proof (cases "b_limit (heap b r)")
  case None
  assume "book_inv b" with None show ?thesis by (simp add: add_order_def)
next
  case (Some p)
  assume i: "book_inv b"
  let ?t = "to_ticks b p" and ?sd = "b_side (heap b r)"
  obtain l where l: "level_at (ensure_level ?sd ?t b) ?sd ?t = Some l" using level_at_ensure by blast
  have "book_inv (set_level ?sd ?t (l\<lparr>l_orders := l_orders l @ [r]\<rparr>) (ensure_level ?sd ?t b))"
    by (rule ensure_set_level_inv [OF i]) (simp_all add: ensure_level_price [OF i l])
  then show ?thesis using Some l by (simp add: add_order_def Let_def set_level_heap)
qed

lemma book_cancel_inv: "book_inv b \<Longrightarrow> book_inv (fst (book_cancel i b))"
proof -
  assume b: "book_inv b"
  have "book_inv (prune sd t (set_level sd t (l\<lparr>l_orders := rs\<rparr>) (b\<lparr>heap := hp\<rparr>)))"
    if "level_at b sd t = Some l" for sd t l rs hp
    by (rule prune_inv, rule inv_but_set_level) (use b that level_price [OF b that] in simp_all)
  then show ?thesis using b by (simp add: book_cancel_def Let_def split: option.splits)
qed

lemma prune_heap_inv: "book_inv b \<Longrightarrow> book_inv (prune sd t (b\<lparr>heap := hp\<rparr>))"
  by (rule prune_inv, rule inv_but_inv) simp

lemma sweep_levels_inv: "book_inv b \<Longrightarrow> book_inv (fst (snd (sweep_levels skip sd bound ts path (left, b, fills))))"
proof (induction path arbitrary: left b fills)
  case (Cons t path)
  show ?case
  proof (cases "level_at b (opposite sd) t")
    case (Some l)
    obtain left1 h1 fills1 where q: "sweep_queue skip (l_price l) ts (l_orders l) (left, heap b, fills) = (left1, h1, fills1)"
      by (metis prod_cases3)
    then show ?thesis using Some Cons.prems Cons.IH [OF prune_heap_inv [OF Cons.prems]] by simp
  qed (use Cons.prems in simp)
qed simp

lemma print_levels_inv: "book_inv b \<Longrightarrow> book_inv (fst (snd (print_levels sd ts path (left, b, fills))))"
proof (induction path arbitrary: left b fills)
  case (Cons t path)
  show ?case
  proof (cases "level_at b sd t")
    case (Some l)
    obtain left1 h1 fills1 where q: "print_queue (l_price l) ts (l_orders l) (left, heap b, fills) = (left1, h1, fills1)"
      by (metis prod_cases3)
    then show ?thesis using Some Cons.prems Cons.IH [OF prune_heap_inv [OF Cons.prems]] by simp
  qed (use Cons.prems in simp)
qed simp

lemma consume_inv: "book_inv b \<Longrightarrow> book_inv (fst (consume_liquidity sd q ts bound skip b))"
  using sweep_levels_inv [of b skip sd "map_option (to_ticks b) bound" ts "best_first b (opposite sd)" q "[]"]
  by (auto simp: consume_liquidity_def split: prod.splits)

lemma allocate_inv: "book_inv b \<Longrightarrow> book_inv (fst (allocate x b))"
  by (simp add: allocate_def)

lemma add_feed_inv: "book_inv b \<Longrightarrow> book_inv (add_feed i sd p sz ts b)"
  unfolding add_feed_def Let_def by (simp add: case_prod_beta add_order_inv allocate_inv)

lemma apply_add_inv: "book_inv b \<Longrightarrow> book_inv (apply_add i ev b)"
  by (simp add: apply_add_def add_feed_inv)

lemma change_known_inv:
  assumes "book_inv b" "level_at b (ev_side ev) t = Some l"
  shows "book_inv (change_known ev t l r b)"
proof -
  have "book_inv (set_level (ev_side ev) t (l\<lparr>l_orders := rs @ [r]\<rparr>) (b\<lparr>heap := hp\<rparr>))" for rs hp
    by (rule set_level_inv) (use assms level_price [OF assms] in simp_all)
  then show ?thesis using assms(1) by (simp add: change_known_def Let_def)
qed

lemma change_aggregate_inv: "book_inv b \<Longrightarrow> book_inv (change_aggregate i ev l b)"
  by (simp add: change_aggregate_def Let_def add_feed_inv)

lemma apply_change_inv: "book_inv b \<Longrightarrow> book_inv (apply_change i ev b)"
  unfolding apply_change_def Let_def
  by (auto intro!: prune_inv inv_but_inv apply_add_inv change_known_inv change_aggregate_inv split: option.split)

lemma apply_trade_inv: "book_inv b \<Longrightarrow> book_inv (fst (apply_trade ev b))"
  unfolding apply_trade_def Let_def using print_levels_inv
  by (auto split: prod.splits) (metis book_inv_frames(5,6) fst_conv snd_conv)

lemma apply_market_event_inv: "book_inv b \<Longrightarrow> book_inv (fst (apply_market_event i ev b))"
  unfolding apply_market_event_def Let_def
  by (cases "ev_type ev") (simp_all add: apply_add_inv apply_change_inv apply_trade_inv)

text \<open>
  The calls that change a book. \<open>NewOrder\<close> is the caller creating an order object,
  \<open>Mark\<close> the caller changing its status and type.
\<close>

datatype book_op =
    NewOrder order
  | Mark nat order_status book_order_type
  | AddOrder nat pyfloat
  | CancelOrder string
  | Consume trade_side pyfloat pyfloat "pyfloat option" bool
  | FeedEvent string book_event

fun order_book_step :: "book_op \<Rightarrow> book \<Rightarrow> book" where
  "order_book_step (NewOrder o') b = fst (allocate o' b)"
| "order_book_step (Mark r st ty) b = b\<lparr>heap := (heap b)(r := (heap b r)\<lparr>b_status := st, b_type := ty\<rparr>)\<rparr>"
| "order_book_step (AddOrder r ts) b = add_order r ts b"
| "order_book_step (CancelOrder i) b = fst (book_cancel i b)"
| "order_book_step (Consume sd q ts lp skip) b = fst (consume_liquidity sd q ts lp skip b)"
| "order_book_step (FeedEvent i ev) b = fst (apply_market_event i ev b)"

interpretation book_machine: guarded_machine order_book_step book_inv "\<lambda>_ _. True"
proof
  fix b p
  assume "book_inv b"
  then show "book_inv (order_book_step p b)"
    by (cases p) (simp_all add: allocate_inv add_order_inv book_cancel_inv consume_inv apply_market_event_inv)
qed

lemma book_structure_start: "new_book tick digits = Some b \<Longrightarrow> book_inv b"
  by (auto simp: new_book_def book_inv_def half_but_def grid_ok_def split: if_splits)

text \<open>
  C18: the structure of the book holds after every sequence of operations. From a new
  book, whatever orders are added, cancelled, swept and whatever feed events arrive,
  each side's tick list is strictly sorted and lists exactly the ticks that have a
  level, no level is empty, and each level carries the price of its tick. A book with
  no positive tick size is refused.
\<close>

theorem book_structure_holds:
  "case new_book tick digits of
     None \<Rightarrow> tick \<le> 0
   | Some b \<Rightarrow> book_inv (fold order_book_step ops b)"
proof (cases "tick \<le> 0")
  case False
  then obtain b where b: "new_book tick digits = Some b" by (simp add: new_book_def)
  then have "book_inv b" by (rule book_structure_start)
  then have "book_inv (fold order_book_step ops b)" by (rule book_machine.inv_run) (rule admissible_True)
  then show ?thesis using b by simp
qed (simp add: new_book_def)

section \<open>Execution\<close>

lemma from_ticks_prune [simp]: "from_ticks (prune sd t b) = from_ticks b"
  by (simp add: prune_def Let_def split: option.split)

text \<open>\<open>x\<close> is at least as good as \<open>y\<close> for an aggressor of the side.\<close>

definition no_worse :: "trade_side \<Rightarrow> int \<Rightarrow> int \<Rightarrow> bool" where
  "no_worse sd x y \<longleftrightarrow> (case sd of BUY \<Rightarrow> x \<le> y | SELL \<Rightarrow> y \<le> x)"

text \<open>
  The orders an aggressor may take, with their prices: the levels of the opposite side
  that are within the limit from the best price on, each level's orders in the order of
  its queue, without the paper orders where those are skipped.
\<close>

definition level_queue :: "book \<Rightarrow> trade_side \<Rightarrow> bool \<Rightarrow> int \<Rightarrow> (pyfloat \<times> nat) list" where
  "level_queue b sd skip t =
     (case level_at b (opposite sd) t of
        None \<Rightarrow> []
      | Some l \<Rightarrow> map (Pair (from_ticks b t)) (filter (\<lambda>r. \<not> (skip \<and> b_owner (heap b r) = PAPER)) (l_orders l)))"

definition price_time_queue :: "book \<Rightarrow> trade_side \<Rightarrow> int option \<Rightarrow> bool \<Rightarrow> (pyfloat \<times> nat) list" where
  "price_time_queue b sd limit skip =
     concat (map (level_queue b sd skip) (filter (\<lambda>t. \<not> beyond sd limit t) (best_first b (opposite sd))))"

text \<open>Taking a quantity from a queue: from the front, as much as there is of each order, until it is used up.\<close>

fun take_in_order :: "pyfloat \<Rightarrow> pyfloat \<Rightarrow> (pyfloat \<times> nat) list \<Rightarrow> (nat \<Rightarrow> order) \<Rightarrow> fill list" where
  "take_in_order ts left [] h = []"
| "take_in_order ts left ((p, r) # q) h =
     (if left \<le> EPS then []
      else if remaining (h r) \<le> EPS then take_in_order ts left q h
      else let qty = min left (remaining (h r)); o1 = record_fill p qty ts (h r)
           in \<lparr>f_order = b_id o1, f_price = p, f_quantity = qty, f_time = ts, f_partial = (b_status o1 \<noteq> OFILLED),
               f_side = b_side o1\<rparr> # take_in_order ts (fsub left qty) q (h(r := o1)))"

lemma take_nothing: "left \<le> EPS \<Longrightarrow> take_in_order ts left q h = []"
  by (cases "(ts, left, q, h)" rule: take_in_order.cases) simp_all

text \<open>What the execution of an order depends on; its place in the queue is no part of it.\<close>

definition execution_core :: "order \<Rightarrow> order" where
  "execution_core o' = o'\<lparr>b_ahead := 0, b_ahead_peak := 0\<rparr>"

lemma core_fields:
  assumes "execution_core x = execution_core y"
  shows "remaining x = remaining y" "b_owner x = b_owner y" "b_id x = b_id y" "b_side x = b_side y"
    "b_status (record_fill p q ts x) = b_status (record_fill p q ts y)"
    "execution_core (record_fill p q ts x) = execution_core (record_fill p q ts y)"
  using assms
  by (cases x; cases y; simp add: execution_core_def remaining_def record_fill_def Let_def)+

lemma record_fill_frame [simp]:
  "b_owner (record_fill p q ts o') = b_owner o'" "b_id (record_fill p q ts o') = b_id o'" "b_side (record_fill p q ts o') = b_side o'"
  by (simp_all add: record_fill_def Let_def)

lemma take_core:
  "(\<And>r. execution_core (h r) = execution_core (g r)) \<Longrightarrow> take_in_order ts left q h = take_in_order ts left q g"
proof (induction q arbitrary: left h g)
  case (Cons x q)
  obtain p r where x: "x = (p, r)" by fastforce
  note c = core_fields [OF Cons.prems [of r]]
  let ?qty = "min left (remaining (g r))"
  have "execution_core ((h(r := record_fill p ?qty ts (h r))) y) = execution_core ((g(r := record_fill p ?qty ts (g r))) y)" for y
    using Cons.prems c(6) by simp
  note step = Cons.IH [OF this] and same = Cons.IH [OF Cons.prems]
  show ?case unfolding x take_in_order.simps c(1) Let_def step same record_fill_frame c(3,4,5) ..
qed simp

lemma sweep_queue_take:
  "sweep_queue skip p ts rs (left, h, fs) = (left', h', fs') \<Longrightarrow>
     fs' @ take_in_order ts left' rest h' =
       fs @ take_in_order ts left (map (Pair p) (filter (\<lambda>r. \<not> (skip \<and> b_owner (h r) = PAPER)) rs) @ rest) h
     \<and> (\<forall>r. b_owner (h' r) = b_owner (h r))"
proof (induction rs arbitrary: left h fs)
  case (Cons r rs)
  consider "left \<le> EPS" | "\<not> left \<le> EPS" "skip \<and> b_owner (h r) = PAPER \<or> remaining (h r) \<le> EPS"
    | "\<not> left \<le> EPS" "\<not> (skip \<and> b_owner (h r) = PAPER)" "\<not> remaining (h r) \<le> EPS" by blast
  then show ?case
  proof cases
    case 1
    then show ?thesis using Cons.prems by (auto simp: take_nothing)
  next
    case 2
    then have "sweep_queue skip p ts rs (left, h, fs) = (left', h', fs')"
      using Cons.prems by (auto simp: Let_def min_def split: if_splits)
    from Cons.IH [OF this] show ?thesis using 2 by auto
  next
    case 3
    let ?q = "min left (remaining (h r))" let ?o = "record_fill p ?q ts (h r)"
    let ?f = "\<lparr>f_order = b_id ?o, f_price = p, f_quantity = ?q, f_time = ts,
        f_partial = (b_status ?o \<noteq> OFILLED), f_side = b_side ?o\<rparr>"
    have "sweep_queue skip p ts rs (fsub left ?q, h(r := ?o), fs @ [?f]) = (left', h', fs')"
      using Cons.prems 3 by (simp add: Let_def min_def split: if_splits)
    note ih = Cons.IH [OF this]
    have owner: "b_owner ((h(r := ?o)) x) = b_owner (h x)" for x by simp
    show ?thesis using ih 3 unfolding owner by (simp add: Let_def fun_upd_def)
  qed
qed simp

lemma refresh_queue_core: "execution_core (refresh_queue a rs h r) = execution_core (h r)"
proof (induction a rs h rule: refresh_queue.induct)
  case (2 a r' rs h)
  then show ?case by (auto simp: Let_def execution_core_def)
qed simp

lemma prune_core: "execution_core (heap (prune sd t b) r) = execution_core (heap b r)"
  by (simp add: prune_def Let_def refresh_queue_core split: option.split)

lemma set_half_level: "sd' \<noteq> sd \<or> dict_get (h_levels h) t = dict_get (h_levels (half_of b sd)) t \<Longrightarrow>
    level_at (set_half sd h b) sd' t = level_at b sd' t"
  by (auto simp: level_at_def)

lemma prune_other_level: "t' \<noteq> t \<Longrightarrow> level_at (prune sd t b) sd t' = level_at b sd t'"
  by (simp add: prune_def Let_def split: option.split) (simp add: level_at_def)

lemma beyond_later: "no_worse sd t x \<Longrightarrow> beyond sd limit t \<Longrightarrow> beyond sd limit x"
  by (auto simp: no_worse_def beyond_def split: option.splits trade_side.splits)

lemma sweep_levels_take:
  assumes "sweep_levels skip sd limit ts ticks (left, b, fs) = (left', b', fs')" "book_inv b"
    and "sorted_wrt (no_worse sd) ticks" "distinct ticks" "\<And>t. t \<in> set ticks \<Longrightarrow> level_at b (opposite sd) t \<noteq> None"
  shows "fs' = fs @ take_in_order ts left
      (concat (map (level_queue b sd skip) (filter (\<lambda>t. \<not> beyond sd limit t) ticks))) (heap b)"
  using assms
proof (induction ticks arbitrary: left b fs)
  case (Cons t ticks)
  show ?case
  proof (cases "left \<le> EPS \<or> beyond sd limit t")
    case True
    then have "left \<le> EPS \<or> filter (\<lambda>t. \<not> beyond sd limit t) (t # ticks) = []"
      using Cons.prems(3) beyond_later by (auto simp: filter_empty_conv)
    then show ?thesis using Cons.prems(1) True by (auto simp: take_nothing)
  next
    case False
    obtain l where l: "level_at b (opposite sd) t = Some l" using Cons.prems(5) by fastforce
    obtain left1 h1 fs1 where q: "sweep_queue skip (l_price l) ts (l_orders l) (left, heap b, fs) = (left1, h1, fs1)"
      by (metis prod_cases3)
    let ?b1 = "b\<lparr>heap := h1\<rparr>"
    let ?b = "prune (opposite sd) t ?b1"
    let ?rest = "concat (map (level_queue b sd skip) (filter (\<lambda>t. \<not> beyond sd limit t) ticks))"
    note step = sweep_queue_take [OF q, of ?rest]
    have core: "execution_core (heap ?b r) = execution_core (h1 r)" for r using prune_core [of "opposite sd" t ?b1 r] by simp
    have same: "level_at ?b (opposite sd) x = level_at b (opposite sd) x" if "x \<in> set ticks" for x
      using prune_other_level [of x t "opposite sd" ?b1] Cons.prems(4) that by auto
    have owner: "b_owner (heap ?b r) = b_owner (heap b r)" for r using core_fields(2) [OF core [of r]] step by simp
    have queue: "level_queue ?b sd skip x = level_queue b sd skip x" if "x \<in> set ticks" for x
      using same [OF that] owner by (simp add: level_queue_def split: option.split)
    have "sweep_levels skip sd limit ts ticks (left1, ?b, fs1) = (left', b', fs')"
      using Cons.prems(1) False l q by simp
    from Cons.IH [OF this prune_heap_inv [OF Cons.prems(2)]] Cons.prems(3-5) same
    have "fs' = fs1 @ take_in_order ts left1
        (concat (map (level_queue ?b sd skip) (filter (\<lambda>t. \<not> beyond sd limit t) ticks))) (heap ?b)" by simp
    also have "map (level_queue ?b sd skip) (filter (\<lambda>t. \<not> beyond sd limit t) ticks) =
        map (level_queue b sd skip) (filter (\<lambda>t. \<not> beyond sd limit t) ticks)"
      using queue by simp
    also have "take_in_order ts left1 ?rest (heap ?b) = take_in_order ts left1 ?rest h1" by (rule take_core [OF core])
    also have "fs1 @ \<dots> = fs @ take_in_order ts left (level_queue b sd skip t @ ?rest) (heap b)"
      using step l level_price [OF Cons.prems(2) l] by (simp add: level_queue_def)
    finally show ?thesis using False by simp
  qed
qed simp

lemma best_first_sorted: "book_inv b \<Longrightarrow> sorted_wrt (no_worse sd) (best_first b (opposite sd))"
proof -
  assume "book_inv b"
  then have s: "sorted_wrt (<) (h_ticks (bids b))" "sorted_wrt (<) (h_ticks (asks b))"
    by (simp_all add: book_inv_def half_but_def grid_ok_def)
  show ?thesis
  proof (cases sd)
    case BUY
    then show ?thesis using sorted_wrt_mono_rel [OF _ s(2)] by (simp add: best_first_def no_worse_def)
  next
    case SELL
    then show ?thesis using sorted_wrt_mono_rel [OF _ s(1)] by (simp add: best_first_def no_worse_def sorted_wrt_rev)
  qed
qed

lemma best_first_levels:
  assumes "book_inv b"
  shows "distinct (best_first b sd)" "t \<in> set (best_first b sd) \<longleftrightarrow> level_at b sd t \<noteq> None"
proof -
  have "grid_ok (level_ok (from_ticks b) None) (h_levels (half_of b sd)) (h_ticks (half_of b sd))"
    using book_inv_half [OF assms, of sd] by (simp add: half_but_def)
  then have "sorted_wrt (<) (h_ticks (half_of b sd))" "set (h_ticks (half_of b sd)) = dom (dict_get (h_levels (half_of b sd)))"
    by (simp_all add: grid_ok_def)
  then show "distinct (best_first b sd)" "t \<in> set (best_first b sd) \<longleftrightarrow> level_at b sd t \<noteq> None"
    by (cases sd; auto simp: best_first_def half_of_def level_at_def strict_sorted_iff)+
qed

text \<open>
  C19: an aggressor takes liquidity in price-time priority and never beyond its limit.
  Its fills are exactly those of taking its quantity from the front of one queue: all
  the orders it may take of all the levels of the opposite side within its limit, the
  best price first and each level's orders in the order they queue - so no order is
  traded through or passed over while the aggressor has anything left, and none
  behind it trades before it is used up. The prices of the queue are those of the
  levels, and they go from the best to strictly worse ones.
\<close>

theorem fills_in_price_priority:
  assumes "book_inv b"
  shows "snd (consume_liquidity sd q ts limit skip b) =
      take_in_order ts q (price_time_queue b sd (map_option (to_ticks b) limit) skip) (heap b)
    \<and> sorted_wrt (\<lambda>x y. no_worse sd x y \<and> x \<noteq> y) (best_first b (opposite sd))
    \<and> set (best_first b (opposite sd)) = {t. level_at b (opposite sd) t \<noteq> None}"
proof -
  let ?lim = "map_option (to_ticks b) limit"
  obtain left b' fills where s: "sweep_levels skip sd ?lim ts (best_first b (opposite sd)) (q, b, []) = (left, b', fills)"
    by (metis prod_cases3)
  then have "snd (consume_liquidity sd q ts limit skip b) = fills" by (simp add: consume_liquidity_def)
  moreover have "fills = take_in_order ts q (price_time_queue b sd ?lim skip) (heap b)"
    using sweep_levels_take [OF s assms best_first_sorted [OF assms] best_first_levels(1) [OF assms]]
      best_first_levels(2) [OF assms] by (simp add: price_time_queue_def)
  moreover have "sorted_wrt (\<lambda>x y. no_worse sd x y \<and> x \<noteq> y) (best_first b (opposite sd))"
    using best_first_sorted [OF assms, of sd] best_first_levels(1) [OF assms, of "opposite sd"]
    by (simp add: sorted_wrt_iff_nth_less distinct_conv_nth)
  ultimately show ?thesis using best_first_levels(2) [OF assms] by blast
qed

definition demo_book :: book where
  "demo_book = \<lparr>tick_size = 1, decimals = 0, bids = \<lparr>h_levels = [], h_ticks = []\<rparr>,
     asks = \<lparr>h_levels = [(7, \<lparr>l_price = 7, l_orders = [0]\<rparr>)], h_ticks = [7]\<rparr>, index = [(''m'', 0)],
     heap = (\<lambda>r. (feed_order ''m'' SELL 7 2)\<lparr>b_status := OQUEUED\<rparr>), next_ref = 1, last_trade_price = None,
     last_trade_size = None, last_event_time = 0\<rparr>"

lemma from_ticks_demo: "from_ticks demo_book 7 = 7"
  using pyround_of_int [of 7 0] by (simp add: from_ticks_def demo_book_def fmul_def)

lemma demo_book_inv: "book_inv demo_book"
proof -
  have "from_ticks demo_book 7 = 7" by (rule from_ticks_demo)
  then show ?thesis
    by (simp add: book_inv_def half_but_def grid_ok_def level_ok_def demo_book_def wf_dict_def dict_keys_def fun_eq_iff
        dom_def)
qed

text \<open>Two sellers of 2, the better one queued later; a buyer of 4 takes 2 at 6 and then 2 at 7.\<close>

definition demo_ladder :: book where
  "demo_ladder = demo_book\<lparr>asks := \<lparr>h_levels = [(7, \<lparr>l_price = 7, l_orders = [0]\<rparr>), (6, \<lparr>l_price = 6, l_orders = [1]\<rparr>)],
     h_ticks = [6, 7]\<rparr>\<rparr>"

lemma demo_ladder_inv: "book_inv demo_ladder" "from_ticks demo_ladder 6 = 6" "from_ticks demo_ladder 7 = 7"
proof -
  have "pyround (fmul 6 1) 0 = 6" "pyround (fmul 7 1) 0 = 7"
    using pyround_of_int [of 6 0] pyround_of_int [of 7 0] by (simp_all add: fmul_def)
  then show ft: "from_ticks demo_ladder 6 = 6" "from_ticks demo_ladder 7 = 7"
    by (simp_all add: from_ticks_def demo_ladder_def demo_book_def)
  show "book_inv demo_ladder"
    using ft by (auto simp: book_inv_def half_but_def grid_ok_def level_ok_def demo_ladder_def demo_book_def wf_dict_def
        dict_keys_def fun_eq_iff dom_def split: if_splits)
qed

lemma EPS_less: "EPS < 2"
  unfolding EPS_def using fl_mono [of "1 / 10 ^ 9" 1] by simp

theorem fills_in_price_priority_witness:
  "map (\<lambda>f. (f_price f, f_quantity f)) (snd (consume_liquidity BUY 4 0 None True demo_ladder)) = [(6, 2), (7, 2)]"
proof -
  have "EPS < 4" using EPS_less by simp
  moreover have "price_time_queue demo_ladder BUY None True = [(6, 1), (7, 0)]"
  proof -
    have "level_at demo_ladder SELL 6 = Some \<lparr>l_price = 6, l_orders = [1]\<rparr>"
      "level_at demo_ladder SELL 7 = Some \<lparr>l_price = 7, l_orders = [0]\<rparr>" "best_first demo_ladder SELL = [6, 7]"
      "b_owner (heap demo_ladder r) = MARKET" for r
      by (simp_all add: level_at_def half_of_def best_first_def demo_ladder_def demo_book_def feed_order_def)
    then show ?thesis using demo_ladder_inv(2,3) by (simp add: price_time_queue_def level_queue_def beyond_def)
  qed
  moreover have "remaining (heap demo_ladder r) = 2" for r
    by (simp add: demo_ladder_def demo_book_def feed_order_def remaining_def fsub_def)
  moreover have "fsub 4 2 = 2" by (simp add: fsub_def)
  ultimately show ?thesis
    using fills_in_price_priority [OF demo_ladder_inv(1), of BUY 4 0 None True] EPS_less
    by (simp add: Let_def not_le)
qed

text \<open>What an execution may not change of an order.\<close>

definition same_execution :: "order \<Rightarrow> order \<Rightarrow> bool" where
  "same_execution x y \<longleftrightarrow> b_owner y = b_owner x \<and> b_filled y = b_filled x \<and> b_avg y = b_avg x
     \<and> b_status y = b_status x \<and> b_quantity y = b_quantity x"

lemma refresh_queue_same: "same_execution (h r) (refresh_queue a rs h r)"
proof (induction a rs h rule: refresh_queue.induct)
  case (2 a r' rs h)
  then show ?case by (auto simp: Let_def same_execution_def split: if_splits)
qed (simp add: same_execution_def)

lemma prune_same: "same_execution (heap b r) (heap (prune sd t b) r)"
  using refresh_queue_same by (auto simp: prune_def Let_def same_execution_def split: option.split)

lemma sweep_queue_paper:
  "sweep_queue True p ts rs (left, h, fs) = (left', h', fs') \<Longrightarrow> b_owner (h r) = PAPER \<Longrightarrow> h' r = h r"
proof (induction rs arbitrary: left h fs)
  case (Cons x rs)
  then show ?case by (cases "x = r") (auto simp: Let_def split: if_splits)
qed simp

lemma sweep_levels_paper:
  "sweep_levels True sd limit ts ticks (left, b, fs) = (left', b', fs') \<Longrightarrow> b_owner (heap b r) = PAPER
     \<Longrightarrow> same_execution (heap b r) (heap b' r)"
proof (induction ticks arbitrary: left b fs)
  case (Cons t ticks)
  show ?case
  proof (cases "left \<le> EPS \<or> beyond sd limit t \<or> level_at b (opposite sd) t = None")
    case True
    then show ?thesis using Cons.prems by (auto simp: same_execution_def split: if_splits)
  next
    case False
    then obtain l where l: "level_at b (opposite sd) t = Some l" by auto
    obtain left1 h1 fs1 where q: "sweep_queue True (l_price l) ts (l_orders l) (left, heap b, fs) = (left1, h1, fs1)"
      by (metis prod_cases3)
    let ?b = "prune (opposite sd) t (b\<lparr>heap := h1\<rparr>)"
    have n: "sweep_levels True sd limit ts ticks (left1, ?b, fs1) = (left', b', fs')"
      using Cons.prems(1) False l q by simp
    have "same_execution (heap b r) (heap ?b r)"
      using prune_same [of "b\<lparr>heap := h1\<rparr>" r] sweep_queue_paper [OF q Cons.prems(2)] by simp
    then show ?thesis using Cons.IH [OF n] Cons.prems(2) by (simp add: same_execution_def)
  qed
qed (simp add: same_execution_def)

lemma consume_paper_same:
  assumes "b_owner (heap b r) = PAPER"
  shows "same_execution (heap b r) (heap (fst (consume_liquidity sd q ts limit True b)) r)"
proof -
  obtain left b' fills where s: "sweep_levels True sd (map_option (to_ticks b) limit) ts (best_first b (opposite sd)) (q, b, [])
      = (left, b', fills)" by (metis prod_cases3)
  then show ?thesis using sweep_levels_paper [OF s assms] by (simp add: consume_liquidity_def)
qed

text \<open>
  No self-trade. An aggressor that skips paper orders leaves every paper order
  as it was: its fills, average price, quantity and status do not change, whichever
  levels it rests on; only its queue position may.
\<close>

theorem no_self_trade:
  assumes "b_owner (heap b r) = PAPER"
  shows "same_execution (heap b r) (heap (fst (consume_liquidity sd q ts limit True b)) r)"
  by (rule consume_paper_same [OF assms])

theorem no_self_trade_witness:
  "let b = demo_book\<lparr>heap := (\<lambda>r. (heap demo_book 0)\<lparr>b_owner := PAPER\<rparr>)\<rparr>
   in b_filled (heap (fst (consume_liquidity BUY 1 0 None True b)) 0) = 0"
  using no_self_trade [of "demo_book\<lparr>heap := (\<lambda>r. (heap demo_book 0)\<lparr>b_owner := PAPER\<rparr>)\<rparr>" 0 BUY 1 0 None]
  by (simp add: same_execution_def demo_book_def feed_order_def)

section \<open>Queue positions\<close>

lemma refresh_queue_other: "r \<notin> set rs \<Longrightarrow> refresh_queue a rs h r = h r"
  by (induction a rs h rule: refresh_queue.induct) (auto simp: Let_def)

text \<open>
  First in, first out. After a level's queue was refreshed, the \<open>queue_ahead\<close> of
  a paper order is the size still to be executed of exactly the orders standing before
  it in the queue, market and paper ones, added up from the front.
\<close>

theorem queue_ahead_is_size_in_front:
  assumes "distinct rs" "i < length rs" "b_owner (h (rs ! i)) = PAPER"
  shows "b_ahead (refresh_queue 0 rs h (rs ! i)) = foldl fadd 0 (map (\<lambda>r. remaining (h r)) (take i rs))"
proof -
  have "b_ahead (refresh_queue a rs h (rs ! i)) = foldl fadd a (map (\<lambda>r. remaining (h r)) (take i rs))" for a
    using assms
  proof (induction a rs h arbitrary: i rule: refresh_queue.induct)
    case (2 a r rs h)
    let ?h1 = "if b_owner (h r) = PAPER
      then h(r := (h r)\<lparr>b_ahead := a, b_ahead_peak := max (b_ahead_peak (h r)) a\<rparr>) else h"
    have rem: "remaining (?h1 x) = remaining (h x)" for x by (simp add: remaining_def)
    show ?case
    proof (cases i)
      case 0
      then show ?thesis using 2 by (simp add: Let_def refresh_queue_other)
    next
      case (Suc k)
      have "b_owner (?h1 (rs ! k)) = PAPER" "distinct rs" "k < length rs" using 2 Suc by auto
      from "2.IH" [OF refl this(2,3,1)] show ?thesis
        unfolding Suc by (simp add: Let_def rem del: fun_upd_apply)
    qed
  qed simp
  then show ?thesis .
qed

theorem queue_ahead_is_size_in_front_witness:
  "b_ahead (refresh_queue 0 [0, 1] (\<lambda>r. (heap demo_book 0)\<lparr>b_owner := (if r = 0 then MARKET else PAPER)\<rparr>) 1) = 2"
proof -
  let ?h = "\<lambda>r::nat. (heap demo_book 0)\<lparr>b_owner := (if r = 0 then MARKET else PAPER)\<rparr>"
  have "b_ahead (refresh_queue 0 [0, 1] ?h ([0, 1] ! 1)) = foldl fadd 0 (map (\<lambda>r. remaining (?h r)) (take 1 [0, 1]))"
    by (rule queue_ahead_is_size_in_front) simp_all
  then show ?thesis by (simp add: demo_book_def feed_order_def remaining_def fadd_def fsub_def)
qed

end
