(* ===== verification/Matching_Engine.thy ===== *)
theory Matching_Engine
  imports Book_Properties
begin

text \<open>
  \<^verbatim>\<open>src/backend/services/matching_engine.py\<close>: submission, execution, stop triggers and
  expiry of paper orders against the book, with the events they produce. An order is a
  reference into the book's heap. Ids the code generates are arguments.
\<close>

section \<open>Events\<close>

datatype exchange_event_type =
    ORDER_SUBMITTED | ORDER_ACCEPTED | ORDER_QUEUED | ORDER_TRIGGERED | ORDER_PARTIALLY_FILLED | ORDER_FILLED
  | ORDER_CANCELLED | ORDER_REJECTED | ORDER_EXPIRED

datatype reason =
    QuantityNotPositive | LimitPriceMissing | StopPriceMissing | PriceOffGrid | InsufficientLiquidity
  | FokLiquidity | MarketRemainder | TifRemainder time_in_force | InsufficientCash | NotSellable | InFlight

text \<open>The \<^verbatim>\<open>details\<close> dictionaries, one constructor for each set of keys.\<close>

datatype details =
    NoDetails
  | Submission trade_side book_order_type pyfloat
  | Execution pyfloat pyfloat trade_side bool pyfloat pyfloat pyfloat pyfloat
  | Because reason
  | BecauseFilled reason pyfloat
  | Filled pyfloat
  | Resting "pyfloat option" pyfloat pyfloat
  | Trigger pyfloat
  | Arrives pyfloat

record exchange_event =
  x_time :: pyfloat
  x_type :: exchange_event_type
  x_order :: string
  x_details :: details

definition event_of :: "pyfloat \<Rightarrow> exchange_event_type \<Rightarrow> order \<Rightarrow> details \<Rightarrow> exchange_event" where
  "event_of now ty o' d = \<lparr>x_time = now, x_type = ty, x_order = b_id o', x_details = d\<rparr>"

text \<open>\<open>taker\<close> is the key \<^verbatim>\<open>liquidity\<close>.\<close>

definition fill_event :: "order \<Rightarrow> pyfloat \<Rightarrow> pyfloat \<Rightarrow> pyfloat \<Rightarrow> bool \<Rightarrow> exchange_event" where
  "fill_event o' price qty now taker =
     event_of now (if b_status o' = OFILLED then ORDER_FILLED else ORDER_PARTIALLY_FILLED) o'
       (Execution price qty (b_side o') taker (pyround (b_avg o') 8) (b_quantity o') (b_filled o') (remaining o'))"

section \<open>Execution\<close>

text \<open>A change of the order \<open>r\<close>.\<close>

definition on_order :: "nat \<Rightarrow> (order \<Rightarrow> order) \<Rightarrow> book \<Rightarrow> book" where
  "on_order r f b = b\<lparr>heap := (heap b)(r := f (heap b r))\<rparr>"

definition set_status :: "order_status \<Rightarrow> order \<Rightarrow> order" where
  "set_status st o' = o'\<lparr>b_status := st\<rparr>"

definition reject :: "nat \<Rightarrow> pyfloat \<Rightarrow> reason \<Rightarrow> book \<Rightarrow> book \<times> exchange_event list" where
  "reject r now why b =
     (let b1 = on_order r (set_status OREJECTED) b
      in (b1, [event_of now ORDER_REJECTED (heap b1 r) (Because why)]))"

fun take_fills :: "nat \<Rightarrow> pyfloat \<Rightarrow> fill list \<Rightarrow> book \<Rightarrow> book \<times> exchange_event list" where
  "take_fills r now [] b = (b, [])"
| "take_fills r now (f # fs) b =
     (let b1 = on_order r (record_fill (f_price f) (f_quantity f) now) b;
          e = fill_event (heap b1 r) (f_price f) (f_quantity f) now True;
          (b2, es) = take_fills r now fs b1
      in (b2, e # es))"

text \<open>\<^verbatim>\<open>_take\<close>.\<close>

definition engine_take :: "nat \<Rightarrow> pyfloat \<Rightarrow> pyfloat option \<Rightarrow> book \<Rightarrow> book \<times> exchange_event list" where
  "engine_take r now limit b =
     (case consume_liquidity (b_side (heap b r)) (remaining (heap b r)) now limit True b of
        (b1, fills) \<Rightarrow> take_fills r now fills b1)"

fun available_in :: "trade_side \<Rightarrow> pyfloat option \<Rightarrow> pyfloat \<Rightarrow> book \<Rightarrow> level list \<Rightarrow> pyfloat" where
  "available_in sd limit total' b [] = total'"
| "available_in sd limit total' b (l # ls) =
     (if (case limit of None \<Rightarrow> False
          | Some p \<Rightarrow> (case sd of BUY \<Rightarrow> fadd p EPS < l_price l | SELL \<Rightarrow> l_price l < fsub p EPS))
      then total'
      else available_in sd limit (fadd total' (market_size (heap b) (l_orders l))) b ls)"

definition levels_of :: "book \<Rightarrow> trade_side \<Rightarrow> level list" where
  "levels_of b sd = List.map_filter (level_at b sd) (best_first b sd)"

definition available :: "trade_side \<Rightarrow> pyfloat option \<Rightarrow> book \<Rightarrow> pyfloat" where
  "available sd limit b = available_in sd limit 0 b (levels_of b (opposite sd))"

definition is_marketable :: "order \<Rightarrow> book \<Rightarrow> bool" where
  "is_marketable o' b =
     (case b_limit o' of
        None \<Rightarrow> False
      | Some p \<Rightarrow>
         (case b_side o' of
            BUY \<Rightarrow> (case best_ask b of None \<Rightarrow> False | Some q \<Rightarrow> fsub q EPS \<le> p)
          | SELL \<Rightarrow> (case best_bid b of None \<Rightarrow> False | Some q \<Rightarrow> p \<le> fadd q EPS)))"

definition execute_market :: "nat \<Rightarrow> pyfloat \<Rightarrow> book \<Rightarrow> book \<times> exchange_event list" where
  "execute_market r now b =
     (let (b1, es) = engine_take r now None b in
      if b_filled (heap b1 r) \<le> EPS
      then (let (b2, e) = reject r now InsufficientLiquidity b1 in (b2, es @ e))
      else if EPS < remaining (heap b1 r)
      then (let b2 = on_order r (set_status OCANCELLED) b1
            in (b2, es @ [event_of now ORDER_CANCELLED (heap b2 r)
                            (BecauseFilled MarketRemainder (b_filled (heap b2 r)))]))
      else (b1, es))"

definition execute_limit :: "nat \<Rightarrow> pyfloat \<Rightarrow> book \<Rightarrow> book \<times> exchange_event list" where
  "execute_limit r now b =
     (let o0 = heap b r in
      if b_tif o0 = TIF_FOK \<and> fadd (available (b_side o0) (b_limit o0) b) EPS < b_quantity o0
      then reject r now FokLiquidity b
      else (let (b1, es) = (if is_marketable o0 b then engine_take r now (b_limit o0) b else (b, [])) in
            if remaining (heap b1 r) \<le> EPS then (b1, es)
            else if b_tif o0 = TIF_IOC \<or> b_tif o0 = TIF_FOK
            then (let b2 = on_order r (set_status OCANCELLED) b1
                  in (b2, es @ [event_of now ORDER_CANCELLED (heap b2 r)
                                  (BecauseFilled (TifRemainder (b_tif o0)) (b_filled (heap b2 r)))]))
            else (let b2 = add_order r now b1; o2 = heap b2 r
                  in (b2, es @ [event_of now ORDER_QUEUED o2 (Resting (b_limit o2) (remaining o2) (b_ahead o2))]))))"

section \<open>Engine\<close>

record engine =
  en_book :: book
  en_stops :: "nat list"
  en_log :: "exchange_event list"

definition new_engine :: "book \<Rightarrow> engine" where
  "new_engine b = \<lparr>en_book = b, en_stops = [], en_log = []\<rparr>"

definition logged :: "engine \<times> exchange_event list \<Rightarrow> engine \<times> exchange_event list" where
  "logged st = (case st of (en, es) \<Rightarrow> (en\<lparr>en_log := en_log en @ es\<rparr>, es))"

definition bad_price :: "book \<Rightarrow> pyfloat option \<Rightarrow> bool" where
  "bad_price b p' = (case p' of None \<Rightarrow> False | Some p \<Rightarrow> p \<le> 0 \<or> \<not> is_on_grid b p)"

definition refusal :: "order \<Rightarrow> book \<Rightarrow> reason option" where
  "refusal o' b =
     (if b_quantity o' \<le> 0 then Some QuantityNotPositive
      else if b_type o' \<in> {OT_LIMIT, OT_STOP_LIMIT} \<and> b_limit o' = None then Some LimitPriceMissing
      else if b_type o' \<in> {OT_STOP, OT_STOP_LIMIT} \<and> b_stop o' = None then Some StopPriceMissing
      else if bad_price b (b_limit o') \<or> bad_price b (b_stop o') then Some PriceOffGrid
      else None)"

definition engine_submit :: "nat \<Rightarrow> pyfloat \<Rightarrow> engine \<Rightarrow> engine \<times> exchange_event list" where
  "engine_submit r now en =
     (let b0 = on_order r (\<lambda>o'. o'\<lparr>b_owner := PAPER\<rparr>) (en_book en);
          o0 = heap b0 r;
          submitted = event_of now ORDER_SUBMITTED o0 (Submission (b_side o0) (b_type o0) (b_quantity o0))
      in logged
          (case refusal o0 b0 of
             Some why \<Rightarrow> (let (b1, es) = reject r now why b0 in (en\<lparr>en_book := b1\<rparr>, submitted # es))
           | None \<Rightarrow>
              (let b1 = on_order r (set_status OACCEPTED) b0;
                   accepted = event_of now ORDER_ACCEPTED (heap b1 r) NoDetails
               in case b_type o0 of
                    OT_MARKET \<Rightarrow> (let (b2, es) = execute_market r now b1 in (en\<lparr>en_book := b2\<rparr>, submitted # accepted # es))
                  | OT_LIMIT \<Rightarrow> (let (b2, es) = execute_limit r now b1 in (en\<lparr>en_book := b2\<rparr>, submitted # accepted # es))
                  | _ \<Rightarrow> (en\<lparr>en_book := b1, en_stops := en_stops en @ [r]\<rparr>, [submitted, accepted]))))"

definition engine_cancel :: "string \<Rightarrow> pyfloat \<Rightarrow> engine \<Rightarrow> engine \<times> exchange_event list" where
  "engine_cancel i now en =
     logged
      (case find (\<lambda>r. b_id (heap (en_book en) r) = i) (en_stops en) of
         Some r \<Rightarrow>
           (let b1 = on_order r (set_status OCANCELLED) (en_book en)
            in (en\<lparr>en_book := b1, en_stops := remove_id (heap b1) i (en_stops en)\<rparr>,
                [event_of now ORDER_CANCELLED (heap b1 r) NoDetails]))
       | None \<Rightarrow>
           (case book_cancel i (en_book en) of
              (b1, Some r) \<Rightarrow> (en\<lparr>en_book := b1\<rparr>,
                               [event_of now ORDER_CANCELLED (heap b1 r) (Filled (b_filled (heap b1 r)))])
            | (b1, None) \<Rightarrow> (en\<lparr>en_book := b1\<rparr>, [])))"

section \<open>Market data\<close>

text \<open>A pending stop has a stop price: \<open>refusal\<close> asked for it.\<close>

definition triggers :: "pyfloat \<Rightarrow> order \<Rightarrow> bool" where
  "triggers trade_price o' =
     (case b_stop o' of
        None \<Rightarrow> False
      | Some p \<Rightarrow> (case b_side o' of BUY \<Rightarrow> fsub p EPS \<le> trade_price | SELL \<Rightarrow> trade_price \<le> fadd p EPS))"

definition trigger_one :: "pyfloat \<Rightarrow> pyfloat \<Rightarrow> nat \<Rightarrow> book \<Rightarrow> book \<times> exchange_event list" where
  "trigger_one trade_price now r b =
     (let o0 = heap b r;
          e = event_of now ORDER_TRIGGERED o0 (Trigger trade_price);
          (b2, es) = (if b_type o0 = OT_STOP
                      then execute_market r now (on_order r (\<lambda>o'. o'\<lparr>b_type := OT_MARKET\<rparr>) b)
                      else execute_limit r now (on_order r (\<lambda>o'. o'\<lparr>b_type := OT_LIMIT\<rparr>) b))
      in (b2, e # es))"

fun check_stops :: "pyfloat \<Rightarrow> pyfloat \<Rightarrow> nat list \<Rightarrow> book \<Rightarrow> book \<times> nat list \<times> exchange_event list" where
  "check_stops trade_price now [] b = (b, [], [])"
| "check_stops trade_price now (r # rs) b =
     (if triggers trade_price (heap b r)
      then (let (b1, es) = trigger_one trade_price now r b;
                (b2, pending, es2) = check_stops trade_price now rs b1
            in (b2, pending, es @ es2))
      else (let (b2, pending, es2) = check_stops trade_price now rs b in (b2, r # pending, es2)))"

definition maker_events :: "book \<Rightarrow> pyfloat \<Rightarrow> fill list \<Rightarrow> exchange_event list" where
  "maker_events b now fills =
     List.map_filter (\<lambda>f. map_option (\<lambda>r. fill_event (heap b r) (f_price f) (f_quantity f) now False)
        (dict_get (index b) (f_order f))) fills"

definition engine_event :: "string \<Rightarrow> book_event \<Rightarrow> engine \<Rightarrow> engine \<times> exchange_event list" where
  "engine_event new_id ev en =
     (let now = ev_time ev;
          (b1, fills) = apply_market_event new_id ev (en_book en);
          es = maker_events b1 now fills
      in logged
          (if ev_type ev = EV_TRADE
           then (let (b2, pending, es2) = check_stops (ev_price ev) now (en_stops en) b1
                 in (en\<lparr>en_book := b2, en_stops := pending\<rparr>, es @ es2))
           else (en\<lparr>en_book := b1\<rparr>, es)))"

section \<open>Expiry\<close>

definition order_expired :: "pyfloat \<Rightarrow> order \<Rightarrow> bool" where
  "order_expired now o' = (case b_expires o' of None \<Rightarrow> False | Some t \<Rightarrow> t \<noteq> 0 \<and> t \<le> now)"

fun expire_resting :: "pyfloat \<Rightarrow> (string \<times> nat) list \<Rightarrow> book \<Rightarrow> book \<times> exchange_event list" where
  "expire_resting now [] b = (b, [])"
| "expire_resting now ((i, r) # rest) b =
     (if b_owner (heap b r) = PAPER \<and> is_active (heap b r) \<and> order_expired now (heap b r)
      then (case book_cancel i b of
              (b1, None) \<Rightarrow> expire_resting now rest b1
            | (b1, Some _) \<Rightarrow>
                (let b2 = on_order r (set_status OEXPIRED) b1;
                     (b3, es) = expire_resting now rest b2
                 in (b3, event_of now ORDER_EXPIRED (heap b2 r) NoDetails # es)))
      else expire_resting now rest b)"

fun expire_stops :: "pyfloat \<Rightarrow> nat list \<Rightarrow> book \<Rightarrow> book \<times> nat list \<times> exchange_event list" where
  "expire_stops now [] b = (b, [], [])"
| "expire_stops now (r # rs) b =
     (if order_expired now (heap b r)
      then (let b1 = on_order r (set_status OEXPIRED) b;
                (b2, kept, es) = expire_stops now rs b1
            in (b2, kept, event_of now ORDER_EXPIRED (heap b1 r) NoDetails # es))
      else (let (b2, kept, es) = expire_stops now rs b in (b2, r # kept, es)))"

definition expire_orders :: "pyfloat \<Rightarrow> engine \<Rightarrow> engine \<times> exchange_event list" where
  "expire_orders now en =
     (let (b1, es1) = expire_resting now (index (en_book en)) (en_book en);
          (b2, kept, es2) = expire_stops now (en_stops en) b1
      in logged (en\<lparr>en_book := b2, en_stops := kept\<rparr>, es1 @ es2))"

end
