(* ===== verification/Matching_Properties.thy ===== *)
theory Matching_Properties
  imports Matching_Engine
begin

text \<open>
  What the engine promises of a paper order: every execution is reported by an event of
  its own, market and immediate orders never rest, and every call keeps the book's
  structure.
\<close>

section \<open>The order's own fills\<close>

lemma on_order_frames [simp]:
  "heap (on_order r f b) = (heap b)(r := f (heap b r))" "half_of (on_order r f b) = half_of b"
  "book_inv (on_order r f b) = book_inv b" "index (on_order r f b) = index b"
  by (simp_all add: on_order_def half_of_def fun_eq_iff split: trade_side.split)

text \<open>The executions an event list reports for an order.\<close>

fun execution :: "exchange_event \<Rightarrow> (pyfloat \<times> pyfloat) option" where
  "execution e = (case x_details e of Execution price qty sd taker avg q filled left \<Rightarrow> Some (price, qty) | _ \<Rightarrow> None)"

definition executions :: "exchange_event list \<Rightarrow> (pyfloat \<times> pyfloat) list" where
  "executions es = List.map_filter execution es"

lemma event_details [simp]: "x_details (event_of now ty o' d) = d"
  by (simp add: event_of_def)

lemma executions_simps [simp]:
  "executions [] = []"
  "executions (es @ es') = executions es @ executions es'"
  "executions (event_of now ty o' (Execution p q sd tk av qt fl' lf) # es) = (p, q) # executions es"
  "executions (fill_event o' p q now tk # es) = (p, q) # executions es"
  by (simp_all add: executions_def event_of_def fill_event_def map_filter_def)

lemma executions_other [simp]:
  "execution (event_of now ty o' d) = None \<Longrightarrow> executions (event_of now ty o' d # es) = executions es"
  by (simp add: executions_def map_filter_def)

lemma record_fill_simps [simp]:
  "b_filled (record_fill p q now o') = fadd (b_filled o') q" "b_quantity (record_fill p q now o') = b_quantity o'"
  "b_owner (record_fill p q now o') = b_owner o'" "b_id (record_fill p q now o') = b_id o'"
  "b_type (record_fill p q now o') = b_type o'" "b_tif (record_fill p q now o') = b_tif o'"
  "b_side (record_fill p q now o') = b_side o'" "b_limit (record_fill p q now o') = b_limit o'"
  by (simp_all add: record_fill_def Let_def)

lemma record_fill_status: "b_status (record_fill p q now o') = OFILLED \<longleftrightarrow> fsub (b_quantity o') (fadd (b_filled o') q) \<le> EPS"
  by (simp add: record_fill_def Let_def remaining_def)

text \<open>An order's own history: its filled quantity is what the events report, its status follows.\<close>

definition filled_by :: "order \<Rightarrow> (pyfloat \<times> pyfloat) list \<Rightarrow> order \<Rightarrow> bool" where
  "filled_by x ex y \<longleftrightarrow> b_filled y = foldl fadd (b_filled x) (map snd ex) \<and> b_quantity y = b_quantity x
     \<and> b_tif y = b_tif x \<and> b_owner y = b_owner x"

lemma filled_by_trans: "filled_by x ex y \<Longrightarrow> filled_by y ex' z \<Longrightarrow> filled_by x (ex @ ex') z"
  by (simp add: filled_by_def)

lemma take_fills_own:
  "take_fills r now fs b = (b', es) \<Longrightarrow>
     filled_by (heap b r) (executions es) (heap b' r)
     \<and> (fs = [] \<longrightarrow> b' = b \<and> es = []) \<and> (fs \<noteq> [] \<longrightarrow> (b_status (heap b' r) = OFILLED \<longleftrightarrow> remaining (heap b' r) \<le> EPS))"
proof (induction fs arbitrary: b es)
  case (Cons f fs)
  let ?b = "on_order r (record_fill (f_price f) (f_quantity f) now) b"
  obtain b2 es2 where t: "take_fills r now fs ?b = (b2, es2)" by fastforce
  then have e: "b2 = b'" "es = fill_event (heap ?b r) (f_price f) (f_quantity f) now True # es2"
    using Cons.prems by (auto simp: Let_def)
  from Cons.IH [OF t [unfolded e(1)]] show ?case
    by (cases fs) (auto simp: e filled_by_def record_fill_status remaining_def)
qed (simp add: filled_by_def)

lemma refresh_queue_tif: "b_tif (refresh_queue a rs h r) = b_tif (h r)"
  by (induction a rs h rule: refresh_queue.induct) (auto simp: Let_def)

lemma prune_tif: "b_tif (heap (prune sd t b) r) = b_tif (heap b r)"
  by (auto simp: prune_def Let_def refresh_queue_tif split: option.split)

lemma sweep_queue_tif:
  "sweep_queue skip p ts rs (left, h, fs) = (left', h', fs') \<Longrightarrow> b_tif (h' r) = b_tif (h r)"
proof (induction rs arbitrary: left h fs)
  case (Cons x rs)
  then show ?case by (cases "x = r") (auto simp: Let_def split: if_splits)
qed simp

lemma sweep_levels_tif:
  "sweep_levels skip sd limit ts ticks (left, b, fs) = (left', b', fs') \<Longrightarrow> b_tif (heap b' r) = b_tif (heap b r)"
proof (induction ticks arbitrary: left b fs)
  case (Cons t ticks)
  show ?case
  proof (cases "left \<le> EPS \<or> beyond sd limit t \<or> level_at b (opposite sd) t = None")
    case False
    then obtain l where l: "level_at b (opposite sd) t = Some l" by auto
    obtain left1 h1 fs1 where q: "sweep_queue skip (l_price l) ts (l_orders l) (left, heap b, fs) = (left1, h1, fs1)"
      by (metis prod_cases3)
    show ?thesis using Cons.IH [of left1 "prune (opposite sd) t (b\<lparr>heap := h1\<rparr>)" fs1] Cons.prems False l q
        sweep_queue_tif [OF q] by (simp add: prune_tif)
  qed (use Cons.prems in \<open>auto split: if_splits\<close>)
qed simp

lemma consume_tif: "b_tif (heap (fst (consume_liquidity sd q ts limit skip b)) r) = b_tif (heap b r)"
  using sweep_levels_tif by (auto simp: consume_liquidity_def split: prod.splits)

lemma consume_own:
  "b_owner (heap b r) = PAPER \<Longrightarrow> filled_by (heap b r) [] (heap (fst (consume_liquidity sd q ts limit True b)) r)
     \<and> b_status (heap (fst (consume_liquidity sd q ts limit True b)) r) = b_status (heap b r)"
  using consume_paper_same [of b r sd q ts limit] by (simp add: same_execution_def filled_by_def consume_tif)

lemma engine_take_own:
  assumes "engine_take r now limit b = (b', es)" "b_owner (heap b r) = PAPER"
  shows "filled_by (heap b r) (executions es) (heap b' r)
     \<and> (es = [] \<and> b_status (heap b' r) = b_status (heap b r)
        \<or> es \<noteq> [] \<and> (b_status (heap b' r) = OFILLED \<longleftrightarrow> remaining (heap b' r) \<le> EPS))"
proof -
  obtain b1 fills where c: "consume_liquidity (b_side (heap b r)) (remaining (heap b r)) now limit True b = (b1, fills)"
    by fastforce
  then have t: "take_fills r now fills b1 = (b', es)" using assms(1) by (simp add: engine_take_def)
  have own: "filled_by (heap b r) [] (heap b1 r)" "b_status (heap b1 r) = b_status (heap b r)"
    using consume_own [OF assms(2)] c by (metis fst_conv)+
  have "es = [] \<longleftrightarrow> fills = []" using t by (cases fills) (auto simp: Let_def split: prod.splits)
  then show ?thesis using take_fills_own [OF t] own filled_by_trans [OF own(1)] by auto
qed

text \<open>Changes of status, type and place in the book are no executions.\<close>

lemma filled_by_status [simp]: "filled_by x ex (y\<lparr>b_status := st\<rparr>) = filled_by x ex y"
  "filled_by x ex (set_status st y) = filled_by x ex y" "filled_by x ex (y\<lparr>b_type := ty\<rparr>) = filled_by x ex y"
  by (simp_all add: filled_by_def set_status_def)

lemma add_order_own: "filled_by (heap b r) [] (heap (add_order r ts b) r)"
  by (auto simp: add_order_def filled_by_def Let_def split: option.split)

lemma reject_own:
  "reject r now why b = (b', es) \<Longrightarrow> heap b' r = set_status OREJECTED (heap b r) \<and> executions es = []"
  by (auto simp: reject_def Let_def)

definition finished :: "order \<Rightarrow> bool" where
  "finished o' \<longleftrightarrow> b_status o' \<in> {OFILLED, OCANCELLED, OREJECTED}"

lemma execute_market_own:
  assumes "execute_market r now b = (b', es)" "b_owner (heap b r) = PAPER"
    and "b_filled (heap b r) = 0"
  shows "filled_by (heap b r) (executions es) (heap b' r) \<and> finished (heap b' r)"
proof -
  obtain b1 es1 where t: "engine_take r now None b = (b1, es1)" by fastforce
  from engine_take_own [OF t assms(2)] have o1: "filled_by (heap b r) (executions es1) (heap b1 r)"
    and st: "es1 = [] \<or> (b_status (heap b1 r) = OFILLED \<longleftrightarrow> remaining (heap b1 r) \<le> EPS)" by auto
  have eps: "0 \<le> EPS" by (simp add: EPS_def fl_nonneg)
  consider (none) "b_filled (heap b1 r) \<le> EPS"
    | (some) "\<not> b_filled (heap b1 r) \<le> EPS" "EPS < remaining (heap b1 r)"
    | (all) "\<not> b_filled (heap b1 r) \<le> EPS" "\<not> EPS < remaining (heap b1 r)" by blast
  then show ?thesis
  proof cases
    case none
    then obtain e where r: "reject r now InsufficientLiquidity b1 = (b', e)" "es = es1 @ e"
      using assms(1) t by (auto simp: execute_market_def split: prod.splits)
    then show ?thesis using reject_own [OF r(1)] o1 by (simp add: finished_def set_status_def)
  next
    case some
    then show ?thesis using assms(1) t o1 by (auto simp: execute_market_def Let_def finished_def set_status_def)
  next
    case all
    then have "b' = b1" "es = es1" using assms(1) t by (auto simp: execute_market_def)
    moreover have "es1 \<noteq> []"
    proof
      assume "es1 = []"
      then have "b_filled (heap b1 r) = 0" using o1 assms(3) by (simp add: filled_by_def)
      then show False using all(1) eps by simp
    qed
    ultimately show ?thesis using o1 st all by (auto simp: finished_def)
  qed
qed

lemma execute_limit_own:
  assumes "execute_limit r now b = (b', es)" "b_owner (heap b r) = PAPER"
    and "b_filled (heap b r) = 0"
  shows "filled_by (heap b r) (executions es) (heap b' r)
    \<and> (EPS < remaining (heap b r) \<longrightarrow> b_tif (heap b r) \<in> {TIF_IOC, TIF_FOK} \<longrightarrow> finished (heap b' r))"
proof (cases "b_tif (heap b r) = TIF_FOK \<and> fadd (available (b_side (heap b r)) (b_limit (heap b r)) b) EPS < b_quantity (heap b r)")
  case True
  then have "reject r now FokLiquidity b = (b', es)" using assms(1) by (simp add: execute_limit_def Let_def)
  then show ?thesis using reject_own by (fastforce simp: finished_def filled_by_def set_status_def)
next
  case False
  obtain b1 es1 where t: "(if is_marketable (heap b r) b then engine_take r now (b_limit (heap b r)) b else (b, [])) = (b1, es1)"
    by fastforce
  have o1: "filled_by (heap b r) (executions es1) (heap b1 r)"
    and st: "es1 = [] \<or> (b_status (heap b1 r) = OFILLED \<longleftrightarrow> remaining (heap b1 r) \<le> EPS)"
    using t engine_take_own [OF _ assms(2)] by (auto simp: filled_by_def split: if_splits)
  have tif: "b_tif (heap b1 r) = b_tif (heap b r)" using o1 by (simp add: filled_by_def)
  have r0: "remaining (heap b1 r) = remaining (heap b r)" if "es1 = []"
    using o1 that by (simp add: filled_by_def remaining_def)
  consider (all) "remaining (heap b1 r) \<le> EPS"
    | (drop) "\<not> remaining (heap b1 r) \<le> EPS" "b_tif (heap b r) \<in> {TIF_IOC, TIF_FOK}"
    | (rest') "\<not> remaining (heap b1 r) \<le> EPS" "b_tif (heap b r) \<notin> {TIF_IOC, TIF_FOK}" by blast
  then show ?thesis
  proof cases
    case all
    then have "b' = b1" "es = es1" using assms(1) t False by (auto simp: execute_limit_def Let_def)
    moreover have "EPS < remaining (heap b r) \<Longrightarrow> es1 \<noteq> []" using all r0 by auto
    ultimately show ?thesis using o1 st all by (auto simp: finished_def)
  next
    case drop
    then show ?thesis using assms(1) t False o1
      by (auto simp: execute_limit_def Let_def finished_def set_status_def)
  next
    case rest'
    then have e: "b' = add_order r now b1" "executions es = executions es1"
      using assms(1) t False by (auto simp: execute_limit_def Let_def)
    show ?thesis using rest' o1 filled_by_trans [OF o1 add_order_own] by (simp add: e)
  qed
qed

section \<open>Submission\<close>

lemma engine_submit_own:
  assumes "engine_submit r now en = (en', es)" "b_filled (heap (en_book en) r) = 0"
  defines "o0 \<equiv> heap (en_book en) r" and "o1 \<equiv> heap (en_book en') r"
  shows "b_filled o1 = foldl fadd 0 (map snd (executions es)) \<and>
    (EPS < remaining o0 \<longrightarrow> b_type o0 = OT_MARKET \<or> b_type o0 = OT_LIMIT \<and> b_tif o0 \<in> {TIF_IOC, TIF_FOK} \<longrightarrow> finished o1)"
proof -
  let ?b0 = "on_order r (\<lambda>o'. o'\<lparr>b_owner := PAPER\<rparr>) (en_book en)"
  let ?b1 = "on_order r (set_status OACCEPTED) ?b0"
  have h0: "b_filled (heap ?b0 r) = 0" "b_type (heap ?b0 r) = b_type o0" using assms(2) by (simp_all add: o0_def)
  have h1: "b_owner (heap ?b1 r) = PAPER" "b_filled (heap ?b1 r) = 0" "b_tif (heap ?b1 r) = b_tif o0"
    "remaining (heap ?b1 r) = remaining o0"
    using assms(2) by (simp_all add: o0_def set_status_def remaining_def)
  show ?thesis
  proof (cases "refusal (heap ?b0 r) ?b0")
    case (Some why)
    obtain b2 e where r: "reject r now why ?b0 = (b2, e)" by fastforce
    then have "en_book en' = b2" "executions es = executions e"
      using assms(1) Some by (auto simp: engine_submit_def logged_def Let_def)
    then show ?thesis using reject_own [OF r] assms(2) by (simp add: o1_def finished_def set_status_def)
  next
    case None
    show ?thesis
    proof (cases "b_type o0")
      case OT_MARKET
      obtain b2 e where x: "execute_market r now ?b1 = (b2, e)" by fastforce
      then have "en_book en' = b2" "executions es = executions e"
        using assms(1) None OT_MARKET h0 by (auto simp: engine_submit_def logged_def Let_def)
      then show ?thesis using execute_market_own [OF x h1(1,2)] h1 by (simp add: o1_def filled_by_def)
    next
      case OT_LIMIT
      obtain b2 e where x: "execute_limit r now ?b1 = (b2, e)" by fastforce
      then have "en_book en' = b2" "executions es = executions e"
        using assms(1) None OT_LIMIT h0 by (auto simp: engine_submit_def logged_def Let_def)
      then show ?thesis using execute_limit_own [OF x h1(1,2)] h1 OT_LIMIT by (simp add: o1_def filled_by_def)
    qed (use assms(1,2) None h0 in \<open>auto simp: engine_submit_def logged_def Let_def o1_def set_status_def\<close>)
  qed
qed

text \<open>
  Every execution is its own event. After a new paper order was submitted, of any
  type, its filled quantity is the sum of the quantities of exactly the fill events the
  submission returned, in their order: no fill is lost, none reported twice.
\<close>

theorem every_execution_is_reported:
  assumes "engine_submit r now en = (en', es)" "b_filled (heap (en_book en) r) = 0"
  shows "b_filled (heap (en_book en') r) = foldl fadd 0 (map snd (executions es))"
  using engine_submit_own [OF assms] by blast

definition demo_order :: order where
  "demo_order = (feed_order ''p'' BUY 8 1)\<lparr>b_owner := PAPER, b_tif := TIF_IOC\<rparr>"

definition demo_engine :: engine where
  "demo_engine = new_engine (demo_book\<lparr>heap := (heap demo_book)(1 := demo_order)\<rparr>)"

lemma demo_engine_fresh: "b_filled (heap (en_book demo_engine) 1) = 0"
  by (simp add: demo_engine_def new_engine_def demo_order_def feed_order_def)

theorem every_execution_is_reported_witness:
  "b_filled (heap (en_book (fst (engine_submit 1 5 demo_engine))) 1) =
     foldl fadd 0 (map snd (executions (snd (engine_submit 1 5 demo_engine))))"
  by (rule every_execution_is_reported [OF surjective_pairing demo_engine_fresh])

text \<open>
  Market and immediate orders never rest. A new order of more than the smallest
  size that is a market order, or a limit order marked immediate-or-cancel or
  fill-or-kill, is filled, cancelled or rejected when its submission returns, on every
  path.
\<close>

theorem immediate_orders_never_rest:
  assumes "engine_submit r now en = (en', es)" "b_filled (heap (en_book en) r) = 0"
    and "EPS < remaining (heap (en_book en) r)"
    and "b_type (heap (en_book en) r) = OT_MARKET
      \<or> b_type (heap (en_book en) r) = OT_LIMIT \<and> b_tif (heap (en_book en) r) \<in> {TIF_IOC, TIF_FOK}"
  shows "b_status (heap (en_book en') r) \<in> {OFILLED, OCANCELLED, OREJECTED}"
  using engine_submit_own [OF assms(1,2)] assms(3,4) unfolding finished_def by blast

theorem immediate_orders_never_rest_witness:
  "b_status (heap (en_book (fst (engine_submit 1 5 demo_engine))) 1) \<in> {OFILLED, OCANCELLED, OREJECTED}"
proof -
  have "EPS \<le> fl (1 / 2)" unfolding EPS_def by (rule fl_mono) simp
  moreover have "fl (1 / 2) \<le> fl 1" by (rule fl_mono) simp
  moreover have "EPS \<noteq> 1"
  proof
    assume "EPS = 1"
    then have "1 \<le> fl (1 / 2 :: rat)" using calculation(1) by simp
    moreover have "fl (1 / 2 :: rat) = 1 / 2" using fl_exact [of 1 "-1"] by (simp add: power_int_minus field_simps)
    ultimately show False by simp
  qed
  ultimately have "EPS < 1" by simp
  then have "EPS < remaining (heap (en_book demo_engine) 1)"
    by (simp add: demo_engine_def new_engine_def demo_order_def feed_order_def remaining_def fsub_def)
  then show ?thesis
    by (intro immediate_orders_never_rest [OF surjective_pairing demo_engine_fresh])
      (simp_all add: demo_engine_def new_engine_def demo_order_def feed_order_def)
qed

section \<open>Structure under the engine\<close>

lemma engine_take_inv: "book_inv b \<Longrightarrow> book_inv (fst (engine_take r now limit b))"
proof -
  assume b: "book_inv b"
  obtain b1 fills where c: "consume_liquidity (b_side (heap b r)) (remaining (heap b r)) now limit True b = (b1, fills)"
    by fastforce
  have "book_inv (fst (take_fills r now fs b))" if "book_inv b" for fs b
    using that by (induction fs arbitrary: b) (simp_all add: Let_def case_prod_beta)
  then show ?thesis using consume_inv [OF b] c by (metis case_prod_conv engine_take_def fst_conv)
qed

lemma engine_execute_inv:
  assumes "book_inv b"
  shows "book_inv (fst (reject r now why b))" "book_inv (fst (execute_market r now b))"
    "book_inv (fst (execute_limit r now b))"
  using assms engine_take_inv [OF assms]
  by (simp_all add: reject_def execute_market_def execute_limit_def Let_def case_prod_beta add_order_inv)

lemma check_stops_inv: "book_inv b \<Longrightarrow> book_inv (fst (check_stops price now rs b))"
  by (induction rs arbitrary: b) (simp_all add: Let_def case_prod_beta trigger_one_def engine_execute_inv)

lemma expire_inv:
  "book_inv b \<Longrightarrow> book_inv (fst (expire_resting now ix b))" "book_inv b \<Longrightarrow> book_inv (fst (expire_stops now rs b))"
proof (induction ix arbitrary: b)
  case (Cons x ix)
  {
    case 1
    obtain i r where x: "x = (i, r)" by fastforce
    obtain b1 o1 where c: "book_cancel i b = (b1, o1)" by fastforce
    have "book_inv b1" using book_cancel_inv [OF 1] c by (metis fst_conv)
    then show ?case using Cons(1) 1 c x by (cases o1) (simp_all add: Let_def case_prod_beta)
  next
    case 2
    then show ?case by (induction rs arbitrary: b) (simp_all add: Let_def case_prod_beta)
  }
next
  case Nil
  {
    case 1 then show ?case by simp
  next
    case 2
    then show ?case by (induction rs arbitrary: b) (simp_all add: Let_def case_prod_beta)
  }
qed

datatype engine_op =
    EngineSubmit order pyfloat
  | EngineCancel string pyfloat
  | EngineEvent string book_event
  | EngineExpire pyfloat

text \<open>\<open>EngineSubmit\<close> creates the order object and submits it.\<close>

fun engine_step :: "engine_op \<Rightarrow> engine \<Rightarrow> engine" where
  "engine_step (EngineSubmit o' now) en =
     (case allocate o' (en_book en) of (b, r) \<Rightarrow> fst (engine_submit r now (en\<lparr>en_book := b\<rparr>)))"
| "engine_step (EngineCancel i now) en = fst (engine_cancel i now en)"
| "engine_step (EngineEvent i ev) en = fst (engine_event i ev en)"
| "engine_step (EngineExpire now) en = fst (expire_orders now en)"

definition engine_inv :: "engine \<Rightarrow> bool" where
  "engine_inv en \<longleftrightarrow> book_inv (en_book en)"

lemma engine_op_inv:
  assumes "engine_inv en"
  shows "engine_inv (fst (engine_submit r now en))" "engine_inv (fst (engine_cancel i now en))"
    "engine_inv (fst (engine_event i ev en))" "engine_inv (fst (expire_orders now en))"
proof -
  have b: "book_inv (en_book en)" using assms by (simp add: engine_inv_def)
  show "engine_inv (fst (engine_submit r now en))"
    using b by (simp add: engine_inv_def engine_submit_def logged_def Let_def case_prod_beta engine_execute_inv
        split: option.split book_order_type.split)
  obtain b1 o1 where c: "book_cancel i (en_book en) = (b1, o1)" by fastforce
  have "book_inv b1" using book_cancel_inv [OF b] c by (metis fst_conv)
  then show "engine_inv (fst (engine_cancel i now en))"
    using b c by (cases o1) (simp_all add: engine_inv_def engine_cancel_def logged_def Let_def split: option.split)
  obtain b2 fills where e: "apply_market_event i ev (en_book en) = (b2, fills)" by fastforce
  have "book_inv b2" using apply_market_event_inv [OF b] e by (metis fst_conv)
  then show "engine_inv (fst (engine_event i ev en))"
    using e check_stops_inv by (simp add: engine_inv_def engine_event_def logged_def Let_def case_prod_beta)
  show "engine_inv (fst (expire_orders now en))"
    using expire_inv b by (simp add: engine_inv_def expire_orders_def logged_def Let_def case_prod_beta)
qed

interpretation engine_machine: guarded_machine engine_step engine_inv "\<lambda>_ _. True"
proof
  fix en p
  assume "engine_inv en"
  moreover have "engine_inv (en\<lparr>en_book := fst (allocate o' (en_book en))\<rparr>)" if "engine_inv en" for en o'
    using that by (simp add: engine_inv_def allocate_inv)
  ultimately show "engine_inv (engine_step p en)"
    by (cases p) (simp_all add: engine_op_inv case_prod_beta)
qed

end
