(* ===== verification/Paper_Exchange.thy ===== *)
theory Paper_Exchange
  imports Matching_Properties Json_Values
begin

text \<open>
  \<^verbatim>\<open>src/backend/services/paper_exchange.py\<close>: the research exchange, its cash account and
  position, pre-trade checks, latency queue, clock and settlement. \<^verbatim>\<open>positions\<close> only ever
  has the exchange's own symbol, so it is one optional position.
\<close>

section \<open>Position\<close>

record paper_position =
  pp_quantity :: pyfloat
  pp_avg :: pyfloat
  pp_realized :: pyfloat
  pp_unrealized :: pyfloat

definition new_position :: paper_position where
  "new_position = \<lparr>pp_quantity = 0, pp_avg = 0, pp_realized = 0, pp_unrealized = 0\<rparr>"

definition position_fill :: "pyfloat \<Rightarrow> pyfloat \<Rightarrow> trade_side \<Rightarrow> paper_position \<Rightarrow> paper_position" where
  "position_fill price qty sd pos =
     (let signed = (if sd = BUY then qty else - qty); q = pp_quantity pos in
      if (0 < q \<and> signed < 0) \<or> (q < 0 \<and> 0 < signed)
      then (let close = min \<bar>signed\<bar> \<bar>q\<bar>;
                d = fsub price (pp_avg pos);
                gain = (if q < 0 then - d else d);
                pos1 = pos\<lparr>pp_realized := fadd (pp_realized pos) (fmul close gain)\<rparr>;
                over = fsub \<bar>signed\<bar> close
            in if 0 < over
               then pos1\<lparr>pp_quantity := (if 0 < signed then over else - over), pp_avg := price\<rparr>
               else (let q1 = fadd q signed in
                     if \<bar>q1\<bar> < fl (1 / 10 ^ 10) then pos1\<lparr>pp_quantity := 0, pp_avg := 0\<rparr>
                     else pos1\<lparr>pp_quantity := q1\<rparr>))
      else (let cost = fadd (fmul \<bar>q\<bar> (pp_avg pos)) (fmul qty price);
                q1 = fadd q signed
            in if 0 < \<bar>q1\<bar> then pos\<lparr>pp_quantity := q1, pp_avg := fdiv cost \<bar>q1\<bar>\<rparr>
               else pos\<lparr>pp_quantity := q1\<rparr>))"

definition mark_to_market :: "pyfloat \<Rightarrow> paper_position \<Rightarrow> paper_position" where
  "mark_to_market price pos =
     pos\<lparr>pp_unrealized :=
       (if pp_quantity pos = 0 then 0
        else let d = fsub price (pp_avg pos)
             in fmul \<bar>pp_quantity pos\<bar> (if pp_quantity pos < 0 then - d else d))\<rparr>"

section \<open>State\<close>

record exchange_fill =
  xf_order :: string
  xf_price :: pyfloat
  xf_quantity :: pyfloat
  xf_time :: pyfloat
  xf_partial :: bool
  xf_taker :: bool
  xf_side :: trade_side

text \<open>
  \<open>pe_inflight\<close> is the heap of \<^verbatim>\<open>(arrival, sequence number, order)\<close>, kept sorted:
  its first element is the one \<^verbatim>\<open>heappop\<close> takes.
\<close>

record exchange =
  pe_latency :: pyfloat
  pe_initial :: pyfloat
  pe_cash :: pyfloat
  pe_engine :: engine
  pe_position :: "paper_position option"
  pe_fills :: "exchange_fill list"
  pe_orders :: "nat list"
  pe_log :: "exchange_event list"
  pe_decision :: "(string, pyfloat option) dict"
  pe_arrival :: "(string, pyfloat option) dict"
  pe_mids :: "(pyfloat \<times> pyfloat) list"
  pe_by_id :: "(string, nat) dict"
  pe_order_seq :: nat
  pe_inflight :: "(pyfloat \<times> nat \<times> nat) list"
  pe_cost :: "(string, pyfloat) dict"
  pe_seq :: nat
  pe_event_count :: nat
  pe_time :: pyfloat
  pe_expiring :: bool

definition new_exchange :: "pyfloat \<Rightarrow> pyfloat \<Rightarrow> pyfloat \<Rightarrow> nat \<Rightarrow> exchange option" where
  "new_exchange latency cash tick digits =
     (if latency < 0 then None
      else map_option (\<lambda>b.
        \<lparr>pe_latency = latency, pe_initial = cash, pe_cash = cash, pe_engine = new_engine b, pe_position = None,
         pe_fills = [], pe_orders = [], pe_log = [], pe_decision = [], pe_arrival = [], pe_mids = [], pe_by_id = [],
         pe_order_seq = 0, pe_inflight = [], pe_cost = [], pe_seq = 0, pe_event_count = 0, pe_time = 0,
         pe_expiring = False\<rparr>) (new_book tick digits))"

abbreviation pe_book :: "exchange \<Rightarrow> book" where "pe_book ex \<equiv> en_book (pe_engine ex)"
abbreviation pe_order :: "exchange \<Rightarrow> nat \<Rightarrow> order" where "pe_order ex r \<equiv> heap (pe_book ex) r"

definition position_quantity :: "exchange \<Rightarrow> pyfloat" where
  "position_quantity ex = (case pe_position ex of Some pos \<Rightarrow> pp_quantity pos | None \<Rightarrow> 0)"

definition working :: "exchange \<Rightarrow> trade_side \<Rightarrow> order list" where
  "working ex sd = filter (\<lambda>o'. b_side o' = sd \<and> b_status o' \<in> {SUBMITTED, OACCEPTED, OQUEUED, PARTIALLY_FILLED})
     (map (pe_order ex) (pe_orders ex))"

text \<open>\<^verbatim>\<open>price or 0.0\<close> of the limit, or else the stop.\<close>

definition worst_price :: "order \<Rightarrow> pyfloat" where
  "worst_price o' = (case b_limit o' of Some p \<Rightarrow> p | None \<Rightarrow> (case b_stop o' of Some p \<Rightarrow> p | None \<Rightarrow> 0))"

definition committed_for :: "exchange \<Rightarrow> order \<Rightarrow> pyfloat" where
  "committed_for ex o' =
     (if b_type o' = OT_MARKET then (case dict_get (pe_cost ex) (b_id o') of Some c \<Rightarrow> c | None \<Rightarrow> 0)
      else fmul (remaining o') (worst_price o'))"

definition committed_cash :: "exchange \<Rightarrow> pyfloat" where
  "committed_cash ex = foldl (\<lambda>t o'. fadd t (committed_for ex o')) 0 (working ex BUY)"

definition available_cash :: "exchange \<Rightarrow> pyfloat" where
  "available_cash ex = fsub (pe_cash ex) (committed_cash ex)"

definition sellable_quantity :: "exchange \<Rightarrow> pyfloat" where
  "sellable_quantity ex = fsub (position_quantity ex) (fsum (map remaining (working ex SELL)))"

text \<open>The loop of \<^verbatim>\<open>_estimate_market_buy_cost\<close>: remaining quantity, cost and last price.\<close>

fun estimate_levels :: "book \<Rightarrow> level list \<Rightarrow> pyfloat \<times> pyfloat \<times> pyfloat option \<Rightarrow> pyfloat \<times> pyfloat \<times> pyfloat option" where
  "estimate_levels b [] st = st"
| "estimate_levels b (l # ls) (left, cost, lp) =
     (let take' = min left (market_size (heap b) (l_orders l));
          left1 = fsub left take';
          st1 = (left1, fadd cost (fmul take' (l_price l)), Some (l_price l))
      in if left1 \<le> EPS then st1 else estimate_levels b ls st1)"

definition market_buy_cost :: "exchange \<Rightarrow> pyfloat \<Rightarrow> pyfloat option" where
  "market_buy_cost ex qty =
     (case estimate_levels (pe_book ex) (levels_of (pe_book ex) SELL) (qty, 0, None) of
        (left, cost, None) \<Rightarrow> None
      | (left, cost, Some p) \<Rightarrow> Some (fadd cost (fmul (max 0 left) p)))"

text \<open>\<^verbatim>\<open>_pretrade_reject_reason\<close>; it also notes the estimate of a market buy.\<close>

definition pretrade :: "order \<Rightarrow> exchange \<Rightarrow> exchange \<times> reason option" where
  "pretrade o' ex =
     (let slack = fl (1 / 10 ^ 6);
          check = (\<lambda>ex cost. if fadd (available_cash ex) slack < cost then Some InsufficientCash else None)
      in if b_side o' = BUY
         then if b_type o' = OT_MARKET
              then (case market_buy_cost ex (b_quantity o') of
                      None \<Rightarrow> (ex, None)
                    | Some cost \<Rightarrow>
                        (let ex1 = ex\<lparr>pe_cost := dict_set (b_id o') cost (pe_cost ex)\<rparr> in (ex1, check ex1 cost)))
              else (ex, check ex (fmul (b_quantity o') (worst_price o')))
         else (ex, if fadd (sellable_quantity ex) EPS < b_quantity o' then Some NotSellable else None))"

section \<open>Settlement\<close>

definition cash_after :: "pyfloat \<Rightarrow> exchange_fill \<Rightarrow> pyfloat" where
  "cash_after cash f =
     fadd cash (if xf_side f = BUY then fmul (- xf_price f) (xf_quantity f) else fmul (xf_price f) (xf_quantity f))"

definition apply_fill :: "exchange_fill \<Rightarrow> exchange \<Rightarrow> exchange" where
  "apply_fill f ex =
     (let pos = (case pe_position ex of Some pos \<Rightarrow> pos | None \<Rightarrow> new_position)
      in ex\<lparr>pe_position := Some (position_fill (xf_price f) (xf_quantity f) (xf_side f) pos),
            pe_cash := cash_after (pe_cash ex) f, pe_fills := pe_fills ex @ [f]\<rparr>)"

fun settle :: "exchange_event list \<Rightarrow> exchange \<Rightarrow> exchange" where
  "settle [] ex = ex"
| "settle (e # es) ex =
     (let ex1 = ex\<lparr>pe_log := pe_log ex @ [e]\<rparr> in
      settle es
        (case x_details e of
           Execution price qty sd taker avg q filled left \<Rightarrow>
             apply_fill \<lparr>xf_order = x_order e, xf_price = price, xf_quantity = qty, xf_time = x_time e,
                xf_partial = (case dict_get (pe_by_id ex) (x_order e) of
                                Some r \<Rightarrow> b_status (pe_order ex r) \<noteq> OFILLED | None \<Rightarrow> False),
                xf_taker = taker, xf_side = sd\<rparr> ex1
         | _ \<Rightarrow> ex1))"

section \<open>Orders\<close>

definition activate :: "pyfloat \<Rightarrow> nat \<Rightarrow> exchange \<Rightarrow> exchange" where
  "activate active_at r ex =
     (let i = b_id (pe_order ex r);
          ex1 = ex\<lparr>pe_arrival := dict_set i (mid_price (pe_book ex)) (pe_arrival ex)\<rparr>;
          (en, es) = engine_submit r active_at (pe_engine ex1);
          ex2 = settle es (ex1\<lparr>pe_engine := en\<rparr>)
      in ex2\<lparr>pe_cost := dict_pop i (pe_cost ex2)\<rparr>)"

definition order_name :: "nat \<Rightarrow> string" where
  "order_name n = (let d = digits_of n in CHR ''P'' # replicate (8 - length d) CHR ''0'' @ d)"

fun push_inflight :: "pyfloat \<times> nat \<times> nat \<Rightarrow> (pyfloat \<times> nat \<times> nat) list \<Rightarrow> (pyfloat \<times> nat \<times> nat) list" where
  "push_inflight x [] = [x]"
| "push_inflight x (y # ys) =
     (if fst x < fst y \<or> fst x = fst y \<and> fst (snd x) < fst (snd y) then x # y # ys else y # push_inflight x ys)"

definition exchange_submit ::
  "trade_side \<Rightarrow> pyfloat \<Rightarrow> book_order_type \<Rightarrow> pyfloat option \<Rightarrow> pyfloat option \<Rightarrow> time_in_force \<Rightarrow> pyfloat option
     \<Rightarrow> exchange \<Rightarrow> exchange" where
  "exchange_submit sd qty ty limit stop tif expires ex0 =
     (let ex = ex0\<lparr>pe_order_seq := pe_order_seq ex0 + 1\<rparr>;
          o' = \<lparr>b_id = order_name (pe_order_seq ex), b_side = sd, b_type = ty, b_quantity = qty, b_limit = limit,
                b_stop = stop, b_tif = tif, b_expires = expires, b_owner = PAPER, b_status = SUBMITTED, b_filled = 0,
                b_avg = 0, b_ahead = 0, b_ahead_entry = 0, b_ahead_peak = 0, b_entered_at = None, b_filled_at = None\<rparr>;
          (ex1, why) = pretrade o' ex;
          (b, r) = allocate o' (pe_book ex1);
          ex2 = ex1\<lparr>pe_engine := (pe_engine ex1)\<lparr>en_book := b\<rparr>, pe_orders := pe_orders ex1 @ [r],
                    pe_by_id := dict_set (b_id o') r (pe_by_id ex1),
                    pe_decision := dict_set (b_id o') (mid_price (pe_book ex1)) (pe_decision ex1)\<rparr>
      in case why of
           Some reason' \<Rightarrow>
             ex2\<lparr>pe_engine := (pe_engine ex2)\<lparr>en_book := on_order r (set_status OREJECTED) b\<rparr>,
                 pe_log := pe_log ex2 @ [event_of (pe_time ex2) ORDER_REJECTED o' (Because reason')]\<rparr>
         | None \<Rightarrow>
             (let active_at = fadd (pe_time ex2) (fdiv (pe_latency ex2) 1000);
                  ex3 = ex2\<lparr>pe_expiring := (pe_expiring ex2 \<or> expires \<noteq> None)\<rparr>
              in if 0 < pe_latency ex3
                 then ex3\<lparr>pe_inflight := push_inflight (active_at, pe_seq ex3, r) (pe_inflight ex3),
                          pe_seq := pe_seq ex3 + 1,
                          pe_log := pe_log ex3 @ [event_of (pe_time ex3) ORDER_SUBMITTED o' (Arrives active_at)]\<rparr>
                 else activate active_at r ex3))"

definition exchange_cancel :: "string \<Rightarrow> exchange \<Rightarrow> exchange" where
  "exchange_cancel i ex =
     (case find (\<lambda>(t, s, r). b_id (pe_order ex r) = i) (pe_inflight ex) of
        Some (t, s, r) \<Rightarrow>
          ex\<lparr>pe_inflight := remove1 (t, s, r) (pe_inflight ex),
             pe_engine := (pe_engine ex)\<lparr>en_book := on_order r (set_status OCANCELLED) (pe_book ex)\<rparr>,
             pe_cost := dict_pop i (pe_cost ex),
             pe_log := pe_log ex @ [event_of (pe_time ex) ORDER_CANCELLED (pe_order ex r) (Because InFlight)]\<rparr>
      | None \<Rightarrow>
          (case engine_cancel i (pe_time ex) (pe_engine ex) of
             (en, es) \<Rightarrow> ex\<lparr>pe_engine := en, pe_log := pe_log ex @ es\<rparr>))"

section \<open>Clock\<close>

lemma settle_inflight [simp]: "pe_inflight (settle es ex) = pe_inflight ex"
  by (induction es arbitrary: ex) (simp_all add: Let_def apply_fill_def split: details.split)

lemma activate_inflight [simp]: "pe_inflight (activate t r ex) = pe_inflight ex"
  by (simp add: activate_def Let_def case_prod_beta)

text \<open>The loop of \<^verbatim>\<open>advance_to\<close>: each round takes the first order in flight off the heap.\<close>

function release_due :: "pyfloat \<Rightarrow> exchange \<Rightarrow> exchange" where
  "release_due timestamp ex =
     (case pe_inflight ex of
        [] \<Rightarrow> ex
      | (arrival, s, r) # rest' \<Rightarrow>
          if arrival \<le> fadd timestamp EPS
          then release_due timestamp
            (activate arrival r (ex\<lparr>pe_inflight := rest', pe_time := max (pe_time ex) arrival\<rparr>))
          else ex)"
  by pat_completeness auto
termination by (relation "measure (\<lambda>(t, ex). length (pe_inflight ex))") auto

declare release_due.simps [simp del]

definition advance_to :: "pyfloat \<Rightarrow> exchange \<Rightarrow> exchange" where
  "advance_to timestamp ex =
     (let ex1 = release_due timestamp ex;
          ex2 = ex1\<lparr>pe_time := max (pe_time ex1) timestamp\<rparr>
      in if pe_expiring ex2
         then (case expire_orders (pe_time ex2) (pe_engine ex2) of (en, es) \<Rightarrow> settle es (ex2\<lparr>pe_engine := en\<rparr>))
         else ex2)"

definition exchange_event_in :: "string \<Rightarrow> book_event \<Rightarrow> exchange \<Rightarrow> exchange" where
  "exchange_event_in new_id ev ex =
     (let ex1 = advance_to (ev_time ev) ex;
          (en, es) = engine_event new_id ev (pe_engine ex1);
          ex2 = settle es (ex1\<lparr>pe_engine := en, pe_event_count := pe_event_count ex1 + 1\<rparr>)
      in case mid_price (pe_book ex2) of
           None \<Rightarrow> ex2
         | Some m \<Rightarrow>
             if pe_mids ex2 = [] \<or> snd (last (pe_mids ex2)) \<noteq> m
             then ex2\<lparr>pe_mids := pe_mids ex2 @ [(ev_time ev, m)]\<rparr> else ex2)"

section \<open>Reporting\<close>

definition first_price :: "pyfloat option \<Rightarrow> pyfloat option \<Rightarrow> pyfloat option" where
  "first_price p q = (case p of Some x \<Rightarrow> if x \<noteq> 0 then p else q | None \<Rightarrow> q)"

text \<open>Equity before rounding, as \<^verbatim>\<open>portfolio_summary\<close> computes it, with the price it is marked at.\<close>

definition exchange_equity :: "pyfloat option \<Rightarrow> exchange \<Rightarrow> pyfloat" where
  "exchange_equity price ex =
     (let mark = first_price price (first_price (mid_price (pe_book ex)) (last_trade_price (pe_book ex)))
      in fadd (pe_cash ex)
           (case pe_position ex of
              None \<Rightarrow> 0
            | Some pos \<Rightarrow> (case mark of Some m \<Rightarrow> fadd 0 (fmul (pp_quantity pos) m)
                                    | None \<Rightarrow> fadd 0 (fmul (pp_quantity pos) (pp_avg pos)))))"

definition status_count :: "order_status \<Rightarrow> exchange \<Rightarrow> nat" where
  "status_count st ex = length (filter (\<lambda>r. b_status (pe_order ex r) = st) (pe_orders ex))"

end
