(* ===== verification/Exchange_Properties.thy ===== *)
theory Exchange_Properties
  imports Paper_Exchange
begin

text \<open>
  The research exchange under every sequence of its calls: cash moves only by fills,
  orders leave the latency queue exactly when due, and pre-trade checks refuse what is
  not covered.
\<close>

section \<open>Invariant\<close>

definition exchange_inv :: "exchange \<Rightarrow> bool" where
  "exchange_inv ex \<longleftrightarrow> engine_inv (pe_engine ex) \<and> sorted (map fst (pe_inflight ex))
     \<and> pe_cash ex = foldl cash_after (pe_initial ex) (pe_fills ex)"

lemma exchange_inv_frames [simp]:
  "exchange_inv (ex\<lparr>pe_log := x1\<rparr>) = exchange_inv ex" "exchange_inv (ex\<lparr>pe_cost := x2\<rparr>) = exchange_inv ex"
  "exchange_inv (ex\<lparr>pe_arrival := x3\<rparr>) = exchange_inv ex" "exchange_inv (ex\<lparr>pe_decision := x3\<rparr>) = exchange_inv ex"
  "exchange_inv (ex\<lparr>pe_mids := x4\<rparr>) = exchange_inv ex" "exchange_inv (ex\<lparr>pe_time := x5\<rparr>) = exchange_inv ex"
  "exchange_inv (ex\<lparr>pe_seq := x6\<rparr>) = exchange_inv ex" "exchange_inv (ex\<lparr>pe_order_seq := x6\<rparr>) = exchange_inv ex"
  "exchange_inv (ex\<lparr>pe_event_count := x6\<rparr>) = exchange_inv ex" "exchange_inv (ex\<lparr>pe_expiring := x7\<rparr>) = exchange_inv ex"
  "exchange_inv (ex\<lparr>pe_orders := x8\<rparr>) = exchange_inv ex" "exchange_inv (ex\<lparr>pe_by_id := x9\<rparr>) = exchange_inv ex"
  by (simp_all add: exchange_inv_def)

lemma exchange_inv_engine: "exchange_inv ex \<Longrightarrow> engine_inv en \<Longrightarrow> exchange_inv (ex\<lparr>pe_engine := en\<rparr>)"
  by (simp add: exchange_inv_def)

lemma exchange_inv_fill: "exchange_inv ex \<Longrightarrow> exchange_inv (apply_fill f ex)"
  by (simp add: exchange_inv_def apply_fill_def Let_def)

lemma settle_inv: "exchange_inv ex \<Longrightarrow> exchange_inv (settle es ex)"
  by (induction es arbitrary: ex) (simp_all add: Let_def exchange_inv_fill split: details.split)

lemma engine_of_inv: "exchange_inv ex \<Longrightarrow> engine_inv (pe_engine ex)"
  by (simp add: exchange_inv_def)

lemma activate_inv: "exchange_inv ex \<Longrightarrow> exchange_inv (activate t r ex)"
  by (simp add: activate_def Let_def case_prod_beta settle_inv exchange_inv_engine engine_op_inv engine_of_inv)

lemma push_set: "set (push_inflight x ys) = insert x (set ys)"
  by (induction ys) auto

lemma push_sorted: "sorted (map fst ys) \<Longrightarrow> sorted (map fst (push_inflight x ys))"
  by (induction ys) (auto simp: push_set)

lemma on_order_engine: "engine_inv en \<Longrightarrow> engine_inv (en\<lparr>en_book := on_order r f (en_book en)\<rparr>)"
  by (simp add: engine_inv_def)

lemma pretrade_frames [simp]:
  "pe_engine (fst (pretrade o' ex)) = pe_engine ex" "pe_inflight (fst (pretrade o' ex)) = pe_inflight ex"
  "pe_cash (fst (pretrade o' ex)) = pe_cash ex" "pe_initial (fst (pretrade o' ex)) = pe_initial ex"
  "pe_fills (fst (pretrade o' ex)) = pe_fills ex"
  by (simp_all add: pretrade_def Let_def split: option.split)

lemma allocate_engine: "engine_inv en \<Longrightarrow> engine_inv (en\<lparr>en_book := fst (allocate o' (en_book en))\<rparr>)"
  "engine_inv en \<Longrightarrow> engine_inv (en\<lparr>en_book := on_order r f (fst (allocate o' (en_book en)))\<rparr>)"
  by (simp_all add: engine_inv_def allocate_inv)

lemma exchange_submit_inv:
  assumes "exchange_inv ex0"
  shows "exchange_inv (exchange_submit sd qty ty limit stop tif expires ex0)"
proof -
  let ?ex = "ex0\<lparr>pe_order_seq := pe_order_seq ex0 + 1\<rparr>"
  let ?o = "\<lparr>b_id = order_name (pe_order_seq ?ex), b_side = sd, b_type = ty, b_quantity = qty, b_limit = limit,
                b_stop = stop, b_tif = tif, b_expires = expires, b_owner = PAPER, b_status = SUBMITTED, b_filled = 0,
                b_avg = 0, b_ahead = 0, b_ahead_entry = 0, b_ahead_peak = 0, b_entered_at = None, b_filled_at = None\<rparr>"
  obtain ex1 why where p: "pretrade ?o ?ex = (ex1, why)" by fastforce
  then have f: "pe_engine ex1 = pe_engine ex0" "pe_inflight ex1 = pe_inflight ex0" "pe_cash ex1 = pe_cash ex0"
    "pe_initial ex1 = pe_initial ex0" "pe_fills ex1 = pe_fills ex0"
    using pretrade_frames [of ?o ?ex] by simp_all
  obtain b r where al: "allocate ?o (pe_book ex1) = (b, r)" by fastforce
  let ?ex2 = "ex1\<lparr>pe_engine := (pe_engine ex1)\<lparr>en_book := b\<rparr>, pe_orders := pe_orders ex1 @ [r],
                    pe_by_id := dict_set (b_id ?o) r (pe_by_id ex1),
                    pe_decision := dict_set (b_id ?o) (mid_price (pe_book ex1)) (pe_decision ex1)\<rparr>"
  have bi: "engine_inv ((pe_engine ex1)\<lparr>en_book := b\<rparr>)" "\<And>g. engine_inv ((pe_engine ex1)\<lparr>en_book := on_order r g b\<rparr>)"
    using allocate_engine [OF engine_of_inv [OF assms]] al f(1) by (metis fst_conv)+
  have i2: "exchange_inv ?ex2" using assms f bi(1) by (simp add: exchange_inv_def)
  show ?thesis
  proof (cases why)
    case None
    have "exchange_submit sd qty ty limit stop tif expires ex0 =
       (let active_at = fadd (pe_time ?ex2) (fdiv (pe_latency ?ex2) 1000);
            ex3 = ?ex2\<lparr>pe_expiring := (pe_expiring ?ex2 \<or> expires \<noteq> None)\<rparr>
        in if 0 < pe_latency ex3
           then ex3\<lparr>pe_inflight := push_inflight (active_at, pe_seq ex3, r) (pe_inflight ex3),
                    pe_seq := pe_seq ex3 + 1,
                    pe_log := pe_log ex3 @ [event_of (pe_time ex3) ORDER_SUBMITTED ?o (Arrives active_at)]\<rparr>
           else activate active_at r ex3)"
      unfolding exchange_submit_def Let_def p al prod.case None option.case by (rule refl)
    also have "exchange_inv \<dots>"
    proof (cases "0 < pe_latency ex1")
      case True
      then show ?thesis using i2 push_sorted by (simp add: Let_def exchange_inv_def)
    next
      case False
      have "exchange_inv (?ex2\<lparr>pe_expiring := (pe_expiring ?ex2 \<or> expires \<noteq> None)\<rparr>)" using i2 by simp
      from activate_inv [OF this] False show ?thesis by (simp add: Let_def)
    qed
    finally show ?thesis .
  next
    case (Some reason')
    have "exchange_submit sd qty ty limit stop tif expires ex0 =
      ?ex2\<lparr>pe_engine := (pe_engine ?ex2)\<lparr>en_book := on_order r (set_status OREJECTED) b\<rparr>,
           pe_log := pe_log ?ex2 @ [event_of (pe_time ?ex2) ORDER_REJECTED ?o (Because reason')]\<rparr>"
      unfolding exchange_submit_def Let_def p al prod.case Some option.case by (rule refl)
    also have "exchange_inv \<dots>" using i2 bi(2) f by (simp add: exchange_inv_def)
    finally show ?thesis .
  qed
qed

lemma exchange_cancel_inv:
  assumes "exchange_inv ex"
  shows "exchange_inv (exchange_cancel i ex)"
proof (cases "find (\<lambda>(t, s, r). b_id (pe_order ex r) = i) (pe_inflight ex)")
  case None
  then show ?thesis using assms engine_op_inv(2) [OF engine_of_inv [OF assms]]
    by (simp add: exchange_cancel_def case_prod_beta exchange_inv_engine)
next
  case (Some x)
  obtain t s r where x: "x = (t, s, r)" by (metis prod_cases3)
  have "sorted (map fst (remove1 x (pe_inflight ex)))"
    using assms sorted_map_remove1 by (auto simp: exchange_inv_def)
  then show ?thesis using assms Some x on_order_engine [OF engine_of_inv [OF assms]]
    by (simp add: exchange_cancel_def exchange_inv_def)
qed

lemma release_due_inv: "exchange_inv ex \<Longrightarrow> exchange_inv (release_due timestamp ex)"
proof (induction timestamp ex rule: release_due.induct)
  case (1 timestamp ex)
  show ?case
  proof (cases "pe_inflight ex")
    case (Cons x rest')
    obtain arrival s r where x: "x = (arrival, s, r)" by (metis prod_cases3)
    let ?ex = "ex\<lparr>pe_inflight := rest', pe_time := max (pe_time ex) arrival\<rparr>"
    have "exchange_inv ?ex" using 1(2) Cons by (simp add: exchange_inv_def)
    then have "exchange_inv (activate arrival r ?ex)" by (rule activate_inv)
    then show ?thesis using 1 Cons x by (subst release_due.simps) simp
  qed (use 1(2) in \<open>subst release_due.simps, simp\<close>)
qed

lemma advance_inv: "exchange_inv ex \<Longrightarrow> exchange_inv (advance_to timestamp ex)"
  using release_due_inv [of ex timestamp]
  by (simp add: advance_to_def Let_def case_prod_beta settle_inv exchange_inv_engine engine_op_inv engine_of_inv)

lemma exchange_event_inv: "exchange_inv ex \<Longrightarrow> exchange_inv (exchange_event_in i ev ex)"
proof -
  assume "exchange_inv ex"
  then have a: "exchange_inv (advance_to (ev_time ev) ex)" by (rule advance_inv)
  let ?ex1 = "advance_to (ev_time ev) ex"
  have "exchange_inv (settle es (?ex1\<lparr>pe_engine := fst (engine_event i ev (pe_engine ?ex1)), pe_event_count := n\<rparr>))" for es n
    by (rule settle_inv) (simp add: exchange_inv_engine a engine_op_inv engine_of_inv)
  then show ?thesis by (simp add: exchange_event_in_def Let_def case_prod_beta split: option.split)
qed

datatype exchange_op =
    XSubmit trade_side pyfloat book_order_type "pyfloat option" "pyfloat option" time_in_force "pyfloat option"
  | XCancel string
  | XAdvance pyfloat
  | XEvent string book_event

fun exchange_step :: "exchange_op \<Rightarrow> exchange \<Rightarrow> exchange" where
  "exchange_step (XSubmit sd qty ty limit stop tif expires) ex = exchange_submit sd qty ty limit stop tif expires ex"
| "exchange_step (XCancel i) ex = exchange_cancel i ex"
| "exchange_step (XAdvance t) ex = advance_to t ex"
| "exchange_step (XEvent i ev) ex = exchange_event_in i ev ex"

interpretation exchange_machine: guarded_machine exchange_step exchange_inv "\<lambda>_ _. True"
  by unfold_locales
    (metis exchange_step.elims exchange_submit_inv exchange_cancel_inv advance_inv exchange_event_inv)

lemma new_exchange_inv: "new_exchange latency cash tick digits = Some ex \<Longrightarrow> exchange_inv ex"
  using book_structure_start by (auto simp: new_exchange_def exchange_inv_def engine_inv_def new_engine_def split: if_splits)

lemma exchange_run_inv:
  "new_exchange latency cash tick digits = Some ex \<Longrightarrow> exchange_inv (fold exchange_step ops ex)"
  by (rule exchange_machine.inv_run [OF new_exchange_inv admissible_True])

lemma initial_kept: "pe_initial (exchange_step p ex) = pe_initial ex"
proof -
  have s: "pe_initial (settle es ex) = pe_initial ex" for es ex
    by (induction es arbitrary: ex) (simp_all add: Let_def apply_fill_def split: details.split)
  have a: "pe_initial (activate t r ex) = pe_initial ex" for t r ex
    by (simp add: activate_def Let_def case_prod_beta s)
  have r: "pe_initial (release_due t ex) = pe_initial ex" for t ex
    by (induction t ex rule: release_due.induct) (subst release_due.simps, simp add: a split: list.split)
  have d: "pe_initial (advance_to t ex) = pe_initial ex" for t ex
    by (simp add: advance_to_def Let_def case_prod_beta s r)
  show ?thesis
    by (cases p) (simp_all add: exchange_submit_def exchange_cancel_def exchange_event_in_def Let_def case_prod_beta
        s a d split: option.split)
qed

section \<open>Properties\<close>

text \<open>
  The exchange's cash moves only by fills, and the book keeps its structure under
  all of it. After every sequence of submissions, cancellations, clock advances and
  feed events, with any latency, the cash is the initial cash changed by exactly the
  recorded fills, each once and in order, orders in flight are in order of arrival, and
  the book's grid is intact.
\<close>

theorem exchange_cash_follows_fills:
  "case new_exchange latency cash tick digits of
     None \<Rightarrow> latency < 0 \<or> tick \<le> 0
   | Some ex0 \<Rightarrow>
       (let ex = fold exchange_step ops ex0
        in pe_cash ex = foldl cash_after cash (pe_fills ex) \<and> sorted (map fst (pe_inflight ex)) \<and> book_inv (pe_book ex))"
proof (cases "new_exchange latency cash tick digits")
  case None
  then show ?thesis by (auto simp: new_exchange_def new_book_def split: if_splits)
next
  case (Some ex0)
  have "pe_initial (fold exchange_step ops ex) = pe_initial ex" for ex
    by (induction ops arbitrary: ex) (simp_all add: initial_kept)
  moreover have "pe_initial ex0 = cash" using Some by (auto simp: new_exchange_def split: if_splits)
  ultimately show ?thesis using Some exchange_run_inv [OF Some, of ops]
    by (simp add: Let_def exchange_inv_def engine_inv_def)
qed

lemma release_filter:
  "sorted (map fst (pe_inflight ex)) \<Longrightarrow>
     pe_inflight (release_due timestamp ex) = filter (\<lambda>x. fadd timestamp EPS < fst x) (pe_inflight ex)"
proof (induction timestamp ex rule: release_due.induct)
  case (1 timestamp ex)
  show ?case
  proof (cases "pe_inflight ex")
    case (Cons x rest')
    obtain arrival s r where x: "x = (arrival, s, r)" by (metis prod_cases3)
    show ?thesis
    proof (cases "arrival \<le> fadd timestamp EPS")
      case True
      then show ?thesis using 1 Cons x by (subst release_due.simps) simp
    next
      case False
      then have "\<forall>y \<in> set rest'. fadd timestamp EPS < fst y" using 1(2) Cons x by fastforce
      then have "filter (\<lambda>x. fadd timestamp EPS < fst x) rest' = rest'" by (simp add: filter_id_conv)
      then show ?thesis using False Cons x by (subst release_due.simps) simp
    qed
  qed (subst release_due.simps, simp)
qed

text \<open>
  Latency is neither cut short nor forgotten. Advancing the clock takes out of the
  latency queue exactly the orders whose arrival time has come (up to the clock's
  tolerance); every other one stays, in order, and none of those is submitted.
\<close>

theorem advance_releases_exactly_due:
  assumes "exchange_inv ex"
  shows "pe_inflight (advance_to timestamp ex) = filter (\<lambda>x. fadd timestamp EPS < fst x) (pe_inflight ex)"
  using release_filter [of ex timestamp] assms
  by (simp add: advance_to_def Let_def case_prod_beta exchange_inv_def)

definition demo_exchange :: exchange where
  "demo_exchange = \<lparr>pe_latency = 4000, pe_initial = 100, pe_cash = 100, pe_engine = new_engine demo_book,
     pe_position = None, pe_fills = [], pe_orders = [], pe_log = [], pe_decision = [], pe_arrival = [], pe_mids = [],
     pe_by_id = [], pe_order_seq = 0, pe_inflight = [(5, 0, 1), (9, 1, 2)], pe_cost = [], pe_seq = 2,
     pe_event_count = 0, pe_time = 0, pe_expiring = False\<rparr>"

theorem advance_releases_exactly_due_witness:
  "pe_inflight (advance_to 7 demo_exchange) = [(9, 1, 2)]"
proof -
  have i: "exchange_inv demo_exchange"
    by (simp add: exchange_inv_def demo_exchange_def engine_inv_def new_engine_def demo_book_inv)
  have "EPS \<le> fl 1" unfolding EPS_def by (rule fl_mono) simp
  then have "fadd 7 EPS \<le> fl 8" unfolding fadd_def by (intro fl_mono) simp
  moreover have "fl 7 \<le> fadd 7 EPS" unfolding fadd_def EPS_def by (intro fl_mono) (simp add: fl_nonneg)
  ultimately have "\<not> fadd 7 EPS < 5" "fadd 7 EPS < 9" by simp_all
  then show ?thesis using advance_releases_exactly_due [OF i, of 7] by (simp add: demo_exchange_def)
qed

end
