(* ===== verification/Auth_Service.thy ===== *)
theory Auth_Service
  imports Json_Values
begin

text \<open>
  \<^verbatim>\<open>src/backend/services/auth_service.py\<close>: password verification, the login rate limiter,
  the cache of verified access tokens, refresh-token rotation with reuse detection, and
  the in-memory session and nonce stores. Argon2, PBKDF2, base64, PyJWT and SHA-256 are
  arguments; so are random tokens, ids and clock reads. The breach lookup (HTTP) is
  left out; the CSRF token is in \<open>Request_Gate\<close>.
\<close>

section \<open>Passwords\<close>

definition is_pbkdf2_hash :: "string \<Rightarrow> bool" where
  "is_pbkdf2_hash stored \<longleftrightarrow> \<not> starts_with ''$'' stored"

text \<open>What \<^verbatim>\<open>PasswordHasher.verify\<close> does: accept, mismatch, or another error.\<close>

datatype argon_answer = ArgonOk | ArgonMismatch | ArgonInvalid

text \<open>\<open>b64\<close> and \<open>pbkdf2\<close> give \<open>None\<close> when they raise.\<close>

definition verify_password ::
  "(string \<Rightarrow> string option) \<Rightarrow> (string \<Rightarrow> string \<Rightarrow> string option) \<Rightarrow> (string \<Rightarrow> string \<Rightarrow> argon_answer) \<Rightarrow> (string \<Rightarrow> bool)
     \<Rightarrow> string \<Rightarrow> string \<Rightarrow> bool \<times> bool" where
  "verify_password b64 pbkdf2 argon needs_rehash password stored =
     (if is_pbkdf2_hash stored
      then (case b64 stored of
              None \<Rightarrow> (False, False)
            | Some raw \<Rightarrow>
                (case pbkdf2 password (take 16 raw) of
                   None \<Rightarrow> (False, False)
                 | Some check \<Rightarrow> (let valid = (drop 16 raw = check) in (valid, valid))))
      else (case argon stored password of
              ArgonOk \<Rightarrow> (True, needs_rehash stored)
            | ArgonMismatch \<Rightarrow> (False, False)
            | ArgonInvalid \<Rightarrow> (False, False)))"

section \<open>Login rate limiter\<close>

definition FAIL_WINDOW_SECONDS :: pyfloat where "FAIL_WINDOW_SECONDS = 900"
definition MAX_ATTEMPTS :: nat where "MAX_ATTEMPTS = 5"
definition LOCKOUT_SECONDS :: pyfloat where "LOCKOUT_SECONDS = 900"

record limiter =
  fail_attempts :: "(string, pyfloat list) dict"
  locked_until :: "(string, pyfloat) dict"

text \<open>\<^verbatim>\<open>str.lower\<close> is an argument: it is Unicode's.\<close>

definition rate_key :: "(string \<Rightarrow> string) \<Rightarrow> string \<Rightarrow> string option \<Rightarrow> string" where
  "rate_key lower email ip =
     lower email @ '':'' @ (case ip of Some i \<Rightarrow> if i \<noteq> [] then i else ''unknown'' | None \<Rightarrow> ''unknown'')"

definition in_window :: "pyfloat \<Rightarrow> pyfloat \<Rightarrow> bool" where
  "in_window now t \<longleftrightarrow> fsub now t < FAIL_WINDOW_SECONDS"

text \<open>The two \<^verbatim>\<open>while\<close> loops drop entries from the front.\<close>

definition expire_lockout_state :: "pyfloat \<Rightarrow> limiter \<Rightarrow> limiter" where
  "expire_lockout_state now m =
     m\<lparr>fail_attempts := dropWhile (\<lambda>(k, ts). \<not> (ts \<noteq> [] \<and> in_window now (last ts))) (fail_attempts m),
       locked_until := dropWhile (\<lambda>(k, u). \<not> now < u) (locked_until m)\<rparr>"

definition recent_failures :: "string \<Rightarrow> pyfloat \<Rightarrow> limiter \<Rightarrow> limiter \<times> pyfloat list" where
  "recent_failures key now m =
     (let times = filter (in_window now) (case dict_get (fail_attempts m) key of Some ts \<Rightarrow> ts | None \<Rightarrow> [])
      in (m\<lparr>fail_attempts := (if times \<noteq> [] then dict_set key times (fail_attempts m)
                              else dict_pop key (fail_attempts m))\<rparr>, times))"

definition check_rate_limit :: "string \<Rightarrow> pyfloat \<Rightarrow> limiter \<Rightarrow> limiter \<times> bool \<times> int" where
  "check_rate_limit key now m =
     (let m1 = expire_lockout_state now m;
          until = (case dict_get (locked_until m1) key of Some u \<Rightarrow> u | None \<Rightarrow> 0)
      in if now < until then (m1, True, \<lfloor>fsub until now\<rfloor>)
         else (fst (recent_failures key now m1), False, 0))"

text \<open>\<^verbatim>\<open>d[key] = v\<close> followed by \<^verbatim>\<open>move_to_end(key)\<close>.\<close>

definition set_last :: "'k \<Rightarrow> 'v \<Rightarrow> ('k, 'v) dict \<Rightarrow> ('k, 'v) dict" where
  "set_last k v d = dict_pop k d @ [(k, v)]"

definition record_failed_attempt :: "string \<Rightarrow> pyfloat \<Rightarrow> limiter \<Rightarrow> limiter \<times> pyfloat option" where
  "record_failed_attempt key now m =
     (case recent_failures key now (expire_lockout_state now m) of
        (m1, recent) \<Rightarrow>
          (let times = recent @ [now];
               m2 = m1\<lparr>fail_attempts := set_last key times (fail_attempts m1)\<rparr>
           in if MAX_ATTEMPTS \<le> length times
              then (m2\<lparr>locked_until := set_last key (fadd now LOCKOUT_SECONDS) (locked_until m2),
                       fail_attempts := dict_pop key (fail_attempts m2)\<rparr>, Some LOCKOUT_SECONDS)
              else (m2, None)))"

definition clear_failed_attempts :: "string \<Rightarrow> limiter \<Rightarrow> limiter" where
  "clear_failed_attempts key m =
     m\<lparr>fail_attempts := dict_pop key (fail_attempts m), locked_until := dict_pop key (locked_until m)\<rparr>"

section \<open>Access tokens\<close>

record claims =
  c_iss :: string
  c_aud :: string
  c_sub :: string
  c_jti :: string
  c_tier :: string
  c_iat :: int
  c_exp :: int

definition access_claims :: "string \<Rightarrow> string \<Rightarrow> int \<Rightarrow> int \<Rightarrow> string \<Rightarrow> string \<Rightarrow> string \<Rightarrow> claims" where
  "access_claims issuer audience lifetime now user tier jti =
     \<lparr>c_iss = issuer, c_aud = audience, c_sub = user, c_jti = jti, c_tier = tier, c_iat = now,
      c_exp = now + lifetime\<rparr>"

definition VERIFIED_TOKENS_MAX :: nat where "VERIFIED_TOKENS_MAX = 10000"

text \<open>
  \<open>decode token\<close> is PyJWT's answer at the time of the call (\<open>now1\<close> is the clock of the
  cache lookup, \<open>now2\<close> the one read when the answer is stored).
\<close>

definition decode_access_token ::
  "(string \<Rightarrow> claims option) \<Rightarrow> pyfloat \<Rightarrow> pyfloat \<Rightarrow> string \<Rightarrow> (string, claims) dict
     \<Rightarrow> (string, claims) dict \<times> claims option" where
  "decode_access_token decode now1 now2 token cache =
     (case dict_get cache token of
        Some p \<Rightarrow> if now1 < of_int (c_exp p) then (cache, Some p) else (dict_pop token cache, None)
      | None \<Rightarrow>
          (case decode token of
             None \<Rightarrow> (cache, None)
           | Some p \<Rightarrow>
               (let c1 = dropWhile (\<lambda>(t, q). of_int (c_exp q) \<le> now2) cache;
                    c2 = dict_set token p c1
                in (if VERIFIED_TOKENS_MAX < length c2 then tl c2 else c2, Some p))))"

section \<open>Refresh tokens\<close>

record refresh_row =
  rt_user :: string
  rt_hash :: string
  rt_family :: string
  rt_used :: bool
  rt_revoked :: bool
  rt_created :: int
  rt_expires :: int

text \<open>Times are microseconds; \<open>IntegrityError\<close>: the hash is already stored.\<close>

datatype 'a refresh_result = Done 'a | Refused | IntegrityError

definition insert_refresh :: "refresh_row \<Rightarrow> 'a \<Rightarrow> refresh_row list session \<Rightarrow> refresh_row list session \<times> 'a refresh_result" where
  "insert_refresh row v s =
     (if find_row rt_hash (rt_hash row) (working s) \<noteq> None then (rollback s, IntegrityError)
      else (commit (upd (\<lambda>rows. rows @ [row]) s), Done v))"

definition create_refresh_token ::
  "(string \<Rightarrow> string) \<Rightarrow> int \<Rightarrow> int \<Rightarrow> int \<Rightarrow> string \<Rightarrow> string \<Rightarrow> string \<Rightarrow> refresh_row list session
     \<Rightarrow> refresh_row list session \<times> (string \<times> string) refresh_result" where
  "create_refresh_token sha lifetime now created raw family user s =
     insert_refresh \<lparr>rt_user = user, rt_hash = sha raw, rt_family = family, rt_used = False, rt_revoked = False,
        rt_created = created, rt_expires = now + lifetime * 1000000\<rparr> (raw, family) s"

definition revoke_family :: "string \<Rightarrow> refresh_row list session \<Rightarrow> refresh_row list session" where
  "revoke_family family s = commit (upd (sql_update (\<lambda>r. rt_family r = family) (\<lambda>r. r\<lparr>rt_revoked := True\<rparr>)) s)"

definition family_created :: "string \<Rightarrow> refresh_row list \<Rightarrow> int option" where
  "family_created family rows =
     (case map rt_created (filter (\<lambda>r. rt_family r = family) rows) of [] \<Rightarrow> None | t # ts \<Rightarrow> Some (fold min ts t))"

definition too_old :: "int \<Rightarrow> int \<Rightarrow> string \<Rightarrow> refresh_row list \<Rightarrow> bool" where
  "too_old absolute now family rows =
     (case family_created family rows of
        None \<Rightarrow> False
      | Some t \<Rightarrow> of_int absolute < fdiv (of_int (now - t)) 1000000)"

text \<open>
  \<open>t1\<close> to \<open>t3\<close> are the clock reads of the expiry check, the age check and the new
  expiry, \<open>created\<close> the new row's. The row lock makes the call one step.
\<close>

definition rotate_refresh_token ::
  "(string \<Rightarrow> string) \<Rightarrow> int \<Rightarrow> int \<Rightarrow> int \<Rightarrow> int \<Rightarrow> int \<Rightarrow> int \<Rightarrow> string \<Rightarrow> string \<Rightarrow> refresh_row list session
     \<Rightarrow> refresh_row list session \<times> (string \<times> string \<times> string) refresh_result" where
  "rotate_refresh_token sha lifetime absolute t1 t2 t3 created new_raw raw s =
     (case find_row rt_hash (sha raw) (working s) of
        None \<Rightarrow> (s, Refused)
      | Some r \<Rightarrow>
          if rt_expires r < t1 then (s, Refused)
          else if rt_revoked r then (s, Refused)
          else if rt_used r then (revoke_family (rt_family r) s, Refused)
          else if too_old absolute t2 (rt_family r) (working s) then (revoke_family (rt_family r) s, Refused)
          else insert_refresh
                 \<lparr>rt_user = rt_user r, rt_hash = sha new_raw, rt_family = rt_family r, rt_used = False,
                  rt_revoked = False, rt_created = created, rt_expires = t3 + lifetime * 1000000\<rparr>
                 (new_raw, rt_user r, rt_family r)
                 (upd (sql_update (\<lambda>x. rt_hash x = rt_hash r) (\<lambda>x. x\<lparr>rt_used := True\<rparr>)) s))"

definition revoke_refresh_token ::
  "(string \<Rightarrow> string) \<Rightarrow> string \<Rightarrow> refresh_row list session \<Rightarrow> refresh_row list session \<times> bool" where
  "revoke_refresh_token sha raw s =
     (case find_row rt_hash (sha raw) (working s) of
        None \<Rightarrow> (s, False)
      | Some r \<Rightarrow> (commit (upd (sql_update (\<lambda>x. rt_hash x = rt_hash r) (\<lambda>x. x\<lparr>rt_revoked := True\<rparr>)) s), True))"

definition revoke_user_refresh_tokens :: "string \<Rightarrow> refresh_row list session \<Rightarrow> refresh_row list session \<times> nat" where
  "revoke_user_refresh_tokens user s =
     (let p = (\<lambda>r. rt_user r = user \<and> \<not> rt_revoked r)
      in (commit (upd (sql_update p (\<lambda>r. r\<lparr>rt_revoked := True\<rparr>)) s), rowcount p (working s)))"

section \<open>Sessions and nonces in memory\<close>

record pqc_session =
  ps_user :: string
  ps_key :: string
  ps_created :: pyfloat
  ps_expires :: pyfloat

definition MAX_SESSIONS :: nat where "MAX_SESSIONS = 10000"
definition NONCE_TTL_SECONDS :: pyfloat where "NONCE_TTL_SECONDS = 300"

definition expire_sessions :: "pyfloat \<Rightarrow> (string, pqc_session) dict \<Rightarrow> (string, pqc_session) dict" where
  "expire_sessions now d =
     (let live = filter (\<lambda>(k, v). \<not> ps_expires v < now) d;
          oldest = map fst (take (length live - MAX_SESSIONS) (sort_key (\<lambda>(k, v). ps_created v) live))
      in if MAX_SESSIONS < length live then filter (\<lambda>(k, v). k \<notin> set oldest) live else live)"

definition consume_nonce_local ::
  "(string \<Rightarrow> string) \<Rightarrow> pyfloat \<Rightarrow> string \<Rightarrow> (string, pyfloat) dict \<Rightarrow> (string, pyfloat) dict \<times> bool" where
  "consume_nonce_local sha now nonce d =
     (let kept = filter (\<lambda>(k, t). \<not> t < fsub now NONCE_TTL_SECONDS) d in
      if dict_get kept (sha nonce) \<noteq> None then (kept, False) else (dict_set (sha nonce) now kept, True))"

text \<open>
  The guards and effects of \<^verbatim>\<open>perform_handshake\<close>: \<open>shared\<close> is the answer of the shared
  nonce store (\<open>None\<close>: no client; \<open>Some None\<close>: unreachable), \<open>derived\<close> the session key.
\<close>

definition accept_nonce ::
  "bool \<Rightarrow> (string \<Rightarrow> string) \<Rightarrow> pyfloat \<Rightarrow> string \<Rightarrow> bool option option \<Rightarrow> (string, pyfloat) dict
     \<Rightarrow> (string, pyfloat) dict \<times> (http_error + bool)" where
  "accept_nonce production sha now nonce shared nonces =
     (case shared of
        None \<Rightarrow> map_prod id Inr (consume_nonce_local sha now nonce nonces)
      | Some (Some accepted) \<Rightarrow> (nonces, Inr accepted)
      | Some None \<Rightarrow>
          if production then (nonces, Inl (HTTP 503))
          else map_prod id Inr (consume_nonce_local sha now nonce nonces))"

end
