(* ===== verification/Auth_Properties.thy ===== *)
theory Auth_Properties
  imports Auth_Service
begin

text \<open>
  What the authentication service promises: a lockout holds for its whole time, the
  token cache answers as PyJWT would, a refresh-token family has one live token at
  most, reuse of a spent token kills its family, and no family outlives its limit.
\<close>

section \<open>Rate limiter\<close>

lemma dict_get_dropWhile:
  "dict_get d k = Some v \<Longrightarrow> \<not> P (k, v) \<Longrightarrow> dict_get (dropWhile P d) k = Some v"
  by (induction d) (auto split: if_splits)

lemma dict_get_set_last [simp]: "dict_get (set_last k v d) = (dict_get d)(k \<mapsto> v)"
  by (rule ext) (simp add: set_last_def map_add_def split: option.split)

datatype limiter_op = LimCheck string pyfloat | LimFail string pyfloat | LimClear string

fun limiter_step :: "limiter_op \<Rightarrow> limiter \<Rightarrow> limiter" where
  "limiter_step (LimCheck k now) m = fst (check_rate_limit k now m)"
| "limiter_step (LimFail k now) m = fst (record_failed_attempt k now m)"
| "limiter_step (LimClear k) m = clear_failed_attempts k m"

text \<open>Calls during the lockout of a key that began at \<open>t\<close>: no successful login of that key.\<close>

fun during :: "string \<Rightarrow> pyfloat \<Rightarrow> limiter_op \<Rightarrow> limiter \<Rightarrow> bool" where
  "during key t (LimCheck k now) m = (t \<le> now \<and> now < fadd t LOCKOUT_SECONDS)"
| "during key t (LimFail k now) m = (t \<le> now \<and> now < fadd t LOCKOUT_SECONDS)"
| "during key t (LimClear k) m = (k \<noteq> key)"

definition locked_at_least :: "pyfloat \<Rightarrow> string \<Rightarrow> limiter \<Rightarrow> bool" where
  "locked_at_least u key m \<longleftrightarrow> (case dict_get (locked_until m) key of None \<Rightarrow> False | Some v \<Rightarrow> u \<le> v)"

lemma locked_expire:
  "locked_at_least u key m \<Longrightarrow> now < u \<Longrightarrow> locked_at_least u key (expire_lockout_state now m)"
  using dict_get_dropWhile [of "locked_until m" key _ "\<lambda>(k, u). \<not> now < u"]
  by (auto simp: locked_at_least_def expire_lockout_state_def split: option.splits)

lemma locked_recent: "locked_until (fst (recent_failures k now m)) = locked_until m"
  by (simp add: recent_failures_def Let_def)

lemma locked_step:
  assumes "locked_at_least (fadd t LOCKOUT_SECONDS) key m" "during key t p m"
  shows "locked_at_least (fadd t LOCKOUT_SECONDS) key (limiter_step p m)"
proof (cases p)
  case (LimCheck k now)
  then have "locked_at_least (fadd t LOCKOUT_SECONDS) key (expire_lockout_state now m)"
    using assms locked_expire by simp
  then show ?thesis using LimCheck by (simp add: check_rate_limit_def Let_def locked_at_least_def locked_recent)
next
  case (LimFail k now)
  then have e: "locked_at_least (fadd t LOCKOUT_SECONDS) key (expire_lockout_state now m)"
    and "fadd t LOCKOUT_SECONDS \<le> fadd now LOCKOUT_SECONDS"
    using assms locked_expire by (auto simp: fadd_def intro!: fl_mono)
  moreover obtain m1 recent where r: "recent_failures k now (expire_lockout_state now m) = (m1, recent)" by fastforce
  moreover have "locked_until m1 = locked_until (expire_lockout_state now m)"
    using locked_recent r by (metis fst_conv)
  ultimately show ?thesis using LimFail
    by (simp add: record_failed_attempt_def Let_def locked_at_least_def)
next
  case (LimClear k)
  then show ?thesis using assms by (simp add: clear_failed_attempts_def locked_at_least_def)
qed

interpretation lockout: sealed_machine limiter_step "\<lambda>m. True" "during key t"
    "\<lambda>k m. k = key \<longrightarrow> locked_at_least (fadd t LOCKOUT_SECONDS) key m" for key t
  by unfold_locales (auto intro: locked_step)

text \<open>
  A lockout holds for its whole time. Once a failed login locked a key, every check
  of it at any moment before fifteen minutes have passed answers locked, whatever
  checks, failures and successful logins of other keys happen meanwhile, and whatever
  the clean-up of stale entries drops.
\<close>

theorem lockout_holds:
  assumes "record_failed_attempt key t m = (m1, Some s)"
    and "admissible (during key t) limiter_step ops m1"
    and "now < fadd t LOCKOUT_SECONDS"
  shows "fst (snd (check_rate_limit key now (fold limiter_step ops m1)))"
proof -
  have "locked_at_least (fadd t LOCKOUT_SECONDS) key m1"
    using assms(1) by (auto simp: record_failed_attempt_def Let_def locked_at_least_def split: prod.splits if_splits)
  then have "locked_at_least (fadd t LOCKOUT_SECONDS) key (fold limiter_step ops m1)"
    using lockout.sealed_run [OF _ assms(2), of key] by simp
  from locked_expire [OF this assms(3)] show ?thesis using assms(3)
    by (auto simp: check_rate_limit_def Let_def locked_at_least_def split: option.splits)
qed

theorem lockout_holds_witness:
  "let m = \<lparr>fail_attempts = [(''a'', [1, 2, 3, 4])], locked_until = []\<rparr>
   in fst (snd (check_rate_limit ''a'' 800 (fold limiter_step [LimFail ''b'' 6, LimClear ''b''] (fst (record_failed_attempt ''a'' 5 m)))))"
proof -
  let ?m = "\<lparr>fail_attempts = [(''a'', [1, 2, 3, 4])], locked_until = []\<rparr>"
  have f: "fsub 5 1 = 4" "fsub 5 2 = 3" "fsub 5 3 = 2" "fsub 5 4 = 1" "fadd 5 LOCKOUT_SECONDS = 905"
    by (simp_all add: fsub_def fadd_def LOCKOUT_SECONDS_def)
  have "snd (record_failed_attempt ''a'' 5 ?m) = Some LOCKOUT_SECONDS"
    by (simp add: record_failed_attempt_def expire_lockout_state_def recent_failures_def in_window_def f
        FAIL_WINDOW_SECONDS_def MAX_ATTEMPTS_def Let_def dict_pop_def)
  then have r: "record_failed_attempt ''a'' 5 ?m = (fst (record_failed_attempt ''a'' 5 ?m), Some LOCKOUT_SECONDS)"
    by (metis surjective_pairing)
  have "admissible (during ''a'' 5) limiter_step [LimFail ''b'' 6, LimClear ''b''] (fst (record_failed_attempt ''a'' 5 ?m))"
    by (simp add: f)
  from lockout_holds [OF r this, of 800] show ?thesis by (simp add: f)
qed

section \<open>The cache of verified tokens\<close>

text \<open>
  PyJWT's documented rule: a token whose signature, issuer, audience and claims are in
  order is accepted from its issue time on, until it expires.
\<close>

definition jwt_decode :: "(string \<Rightarrow> claims option) \<Rightarrow> pyfloat \<Rightarrow> string \<Rightarrow> claims option" where
  "jwt_decode signed now token =
     (case signed token of
        None \<Rightarrow> None
      | Some c \<Rightarrow> if of_int (c_iat c) \<le> now \<and> now < of_int (c_exp c) then Some c else None)"

fun decode_run :: "(pyfloat \<Rightarrow> string \<Rightarrow> claims option) \<Rightarrow> (pyfloat \<times> string) list \<Rightarrow> (string, claims) dict \<Rightarrow> claims option list" where
  "decode_run decode [] cache = []"
| "decode_run decode ((now, token) # calls) cache =
     (case decode_access_token (decode now) now now token cache of
        (cache1, answer) \<Rightarrow> answer # decode_run decode calls cache1)"

definition cache_ok :: "(string \<Rightarrow> claims option) \<Rightarrow> pyfloat \<Rightarrow> (string, claims) dict \<Rightarrow> bool" where
  "cache_ok signed now cache \<longleftrightarrow> (\<forall>(token, c) \<in> set cache. signed token = Some c \<and> of_int (c_iat c) \<le> now)"

lemma dict_get_in: "dict_get d k = Some v \<Longrightarrow> (k, v) \<in> set d"
  by (induction d) (auto split: if_splits)

lemma dict_set_in: "set (dict_set k v d) \<subseteq> insert (k, v) (set d)"
  by (induction d) (auto split: if_splits)

lemma cache_ok_subset: "cache_ok signed now cache \<Longrightarrow> set c' \<subseteq> set cache \<Longrightarrow> now \<le> now' \<Longrightarrow> cache_ok signed now' c'"
  unfolding cache_ok_def by fastforce

lemma decode_step:
  fixes token :: string
  assumes "cache_ok signed t cache" "t \<le> now"
  defines "step \<equiv> decode_access_token (jwt_decode signed now) now now token cache"
  shows "snd step = jwt_decode signed now token \<and> cache_ok signed now (fst step)"
proof (cases "dict_get cache token")
  case (Some c)
  then have "signed token = Some c" "of_int (c_iat c) \<le> now"
    using assms(1,2) dict_get_in [OF Some] by (auto simp: cache_ok_def)
  moreover have "cache_ok signed now cache" "cache_ok signed now (dict_pop token cache)"
    using cache_ok_subset [OF assms(1) _ assms(2)] by (auto simp: dict_pop_def)
  ultimately show ?thesis using Some by (simp add: step_def decode_access_token_def jwt_decode_def)
next
  case None
  show ?thesis
  proof (cases "jwt_decode signed now token")
    case None
    then show ?thesis using \<open>dict_get cache token = None\<close> cache_ok_subset [OF assms(1) _ assms(2)]
      by (simp add: step_def decode_access_token_def)
  next
    case (Some c)
    then have c: "signed token = Some c" "of_int (c_iat c) \<le> now"
      by (auto simp: jwt_decode_def split: option.splits if_splits)
    let ?c1 = "dropWhile (\<lambda>(t, q). of_int (c_exp q) \<le> now) cache"
    have "set ?c1 \<subseteq> set cache" using set_dropWhileD by fastforce
    then have "cache_ok signed now (dict_set token c ?c1)"
      using c cache_ok_subset [OF assms(1) _ assms(2)] dict_set_in [of token c ?c1] unfolding cache_ok_def by fast
    moreover have "set (tl (dict_set token c ?c1)) \<subseteq> set (dict_set token c ?c1)" by (cases "dict_set token c ?c1") auto
    ultimately show ?thesis using Some None cache_ok_subset
      by (auto simp: step_def decode_access_token_def Let_def)
  qed
qed

text \<open>
  C14: the token cache is invisible. Over any calls at times that do not run backwards,
  however many tokens were cached, dropped or expired before, every call answers exactly
  what verifying the token anew would.
\<close>

theorem token_cache_is_transparent:
  assumes "sorted (map fst calls)"
  shows "decode_run (jwt_decode signed) calls [] = map (\<lambda>(now, token). jwt_decode signed now token) calls"
proof -
  have "decode_run (jwt_decode signed) calls cache = map (\<lambda>(now, token). jwt_decode signed now token) calls"
    if "sorted (map fst calls)" "cache_ok signed t cache" "\<forall>c \<in> set calls. t \<le> fst c" for t cache
    using that
  proof (induction calls arbitrary: t cache)
    case (Cons x calls)
    obtain now token where x: "x = (now, token)" by fastforce
    obtain c1 answer where s: "decode_access_token (jwt_decode signed now) now now token cache = (c1, answer)" by fastforce
    have "answer = jwt_decode signed now token" "cache_ok signed now c1"
      using decode_step [OF Cons.prems(2), of now token] Cons.prems(3) s x by auto
    then show ?case using Cons.IH [of now c1] Cons.prems(1) s x by simp
  qed simp
  from this [OF assms, of "if calls = [] then 0 else fst (hd calls)" "[]"] show ?thesis
    using assms by (cases calls) (auto simp: cache_ok_def)
qed

theorem token_cache_is_transparent_witness:
  "decode_run (jwt_decode (\<lambda>t. Some (access_claims ''i'' ''a'' 900 0 ''u'' ''free'' t))) [(5, ''x''), (6, ''x''), (901, ''x'')] []
     = [Some (access_claims ''i'' ''a'' 900 0 ''u'' ''free'' ''x''), Some (access_claims ''i'' ''a'' 900 0 ''u'' ''free'' ''x''), None]"
  by (subst token_cache_is_transparent) (simp_all add: jwt_decode_def access_claims_def)

section \<open>Refresh tokens\<close>

definition live :: "string \<Rightarrow> refresh_row \<Rightarrow> bool" where
  "live f r \<longleftrightarrow> rt_family r = f \<and> \<not> rt_used r \<and> \<not> rt_revoked r"

definition rows_inv :: "refresh_row list \<Rightarrow> bool" where
  "rows_inv rows \<longleftrightarrow> distinct (map rt_hash rows) \<and> (\<forall>f. length (filter (live f) rows) \<le> 1)"

definition refresh_inv :: "refresh_row list session \<Rightarrow> bool" where
  "refresh_inv s \<longleftrightarrow> committed s = working s \<and> rows_inv (working s)"

datatype refresh_op =
    RCreate int int string string string
  | RRotate int int int int string string
  | RRevoke string
  | RRevokeUser string

fun refresh_step ::
  "(string \<Rightarrow> string) \<Rightarrow> int \<Rightarrow> int \<Rightarrow> refresh_op \<Rightarrow> refresh_row list session \<Rightarrow> refresh_row list session" where
  "refresh_step sha lifetime absolute (RCreate now created raw family user) s =
     fst (create_refresh_token sha lifetime now created raw family user s)"
| "refresh_step sha lifetime absolute (RRotate t1 t2 t3 created new raw) s =
     fst (rotate_refresh_token sha lifetime absolute t1 t2 t3 created new raw s)"
| "refresh_step sha lifetime absolute (RRevoke raw) s = fst (revoke_refresh_token sha raw s)"
| "refresh_step sha lifetime absolute (RRevokeUser user) s = fst (revoke_user_refresh_tokens user s)"

text \<open>A family id is generated anew for every login.\<close>

fun refresh_ok :: "refresh_op \<Rightarrow> refresh_row list session \<Rightarrow> bool" where
  "refresh_ok (RCreate now created raw family user) s = (family \<notin> rt_family ` set (working s))"
| "refresh_ok p s = True"

text \<open>Marking rows used or revoked.\<close>

definition kills :: "(refresh_row \<Rightarrow> refresh_row) \<Rightarrow> bool" where
  "kills g \<longleftrightarrow> (\<forall>r. rt_hash (g r) = rt_hash r \<and> rt_family (g r) = rt_family r \<and> rt_created (g r) = rt_created r
     \<and> (rt_revoked r \<longrightarrow> rt_revoked (g r)) \<and> (rt_used r \<longrightarrow> rt_used (g r)))"

lemma kills_updates: "kills (\<lambda>r. r\<lparr>rt_revoked := True\<rparr>)" "kills (\<lambda>r. r\<lparr>rt_used := True\<rparr>)"
  by (simp_all add: kills_def)

lemma live_update: "kills g \<Longrightarrow> length (filter (live f) (sql_update p g rows)) \<le> length (filter (live f) rows)"
  by (induction rows) (auto simp: sql_update_def kills_def live_def le_SucI)

lemma rows_inv_update:
  assumes "kills g" "rows_inv rows"
  shows "rows_inv (sql_update p g rows)"
proof -
  have "map rt_hash (sql_update p g rows) = map rt_hash rows" using assms(1) by (intro map_sql_update) (simp add: kills_def)
  then show ?thesis using assms live_update [OF assms(1)] le_trans unfolding rows_inv_def by metis
qed

lemma only_live:
  assumes "length (filter P xs) \<le> 1" "x \<in> set xs" "P x" "y \<in> set xs" "P y"
  shows "x = y"
proof -
  have "x \<in> set (filter P xs)" "y \<in> set (filter P xs)" using assms by auto
  then show ?thesis using assms(1) by (cases "filter P xs") auto
qed

lemma no_live_after_use:
  assumes "rows_inv rows" "r \<in> set rows" "live (rt_family r) r"
  shows "filter (live (rt_family r)) (sql_update (\<lambda>x. rt_hash x = rt_hash r) (\<lambda>x. x\<lparr>rt_used := True\<rparr>) rows) = []"
proof -
  have "\<not> live (rt_family r) x"
    if x: "x \<in> set (sql_update (\<lambda>x. rt_hash x = rt_hash r) (\<lambda>x. x\<lparr>rt_used := True\<rparr>) rows)" for x
  proof
    assume l: "live (rt_family r) x"
    obtain y where y: "y \<in> set rows" "x = (if rt_hash y = rt_hash r then y\<lparr>rt_used := True\<rparr> else y)"
      using x by (auto simp: sql_update_def)
    then have "rt_hash y \<noteq> rt_hash r" "live (rt_family r) y" using l by (auto simp: live_def split: if_splits)
    moreover have "length (filter (live (rt_family r)) rows) \<le> 1" using assms(1) by (simp add: rows_inv_def)
    ultimately show False using only_live [of "live (rt_family r)" rows y r] y(1) assms(2,3) by auto
  qed
  then show ?thesis by (simp add: filter_empty_conv)
qed

lemma insert_refresh_cases:
  obtains "insert_refresh row v s = (rollback s, IntegrityError)"
    | "insert_refresh row v s = (commit (upd (\<lambda>rows. rows @ [row]) s), Done v)"
      "rt_hash row \<notin> rt_hash ` set (working s)"
  by (cases "find_row rt_hash (rt_hash row) (working s)") (auto simp: insert_refresh_def find_row_None)

lemma insert_refresh_inv:
  assumes "committed s = t" "rows_inv t" "rows_inv (working s)" "filter (live (rt_family row)) (working s) = []"
  shows "refresh_inv (fst (insert_refresh row v s))"
proof (cases rule: insert_refresh_cases [of row v s])
  case 1
  then show ?thesis using assms(1,2) by (simp add: refresh_inv_def)
next
  case 2
  have "length (filter (live f) (working s @ [row])) \<le> 1" for f
  proof (cases "f = rt_family row")
    case False
    then have "\<not> live f row" by (auto simp: live_def)
    then show ?thesis using assms(3) by (simp add: rows_inv_def)
  qed (use assms(4) in simp)
  then show ?thesis using 2 assms(3) by (simp add: refresh_inv_def rows_inv_def)
qed

lemma revoke_family_inv: "refresh_inv s \<Longrightarrow> refresh_inv (revoke_family f s)"
  by (simp add: refresh_inv_def revoke_family_def rows_inv_update kills_updates)

lemma rotate_cases:
  fixes s :: "refresh_row list session"
  assumes "refresh_inv s"
  obtains (same) "rotate_refresh_token sha lifetime absolute t1 t2 t3 created new raw s = (s, Refused)"
  | (revoked) r where "find_row rt_hash (sha raw) (working s) = Some r"
      "rotate_refresh_token sha lifetime absolute t1 t2 t3 created new raw s = (revoke_family (rt_family r) s, Refused)"
  | (insert) r where "find_row rt_hash (sha raw) (working s) = Some r" "r \<in> set (working s)" "live (rt_family r) r"
      "rotate_refresh_token sha lifetime absolute t1 t2 t3 created new raw s =
        insert_refresh
           \<lparr>rt_user = rt_user r, rt_hash = sha new, rt_family = rt_family r, rt_used = False,
            rt_revoked = False, rt_created = created, rt_expires = t3 + lifetime * 1000000\<rparr>
           (new, rt_user r, rt_family r)
           (upd (sql_update (\<lambda>x. rt_hash x = rt_hash r) (\<lambda>x. x\<lparr>rt_used := True\<rparr>)) s)"
proof (cases "find_row rt_hash (sha raw) (working s)")
  case None
  then show thesis by (intro same) (simp add: rotate_refresh_token_def)
next
  case (Some r)
  have m: "r \<in> set (working s)" using find_row_Some [OF Some] by simp
  show thesis
  proof (cases "rt_expires r < t1 \<or> rt_revoked r")
    case True
    then show thesis using Some by (intro same) (auto simp: rotate_refresh_token_def)
  next
    case False
    show thesis
    proof (cases "rt_used r \<or> too_old absolute t2 (rt_family r) (working s)")
      case True
      then show thesis using Some False by (intro revoked [of r]) (auto simp: rotate_refresh_token_def)
    next
      case False2: False
      then show thesis using Some False m by (intro insert [of r]) (auto simp: rotate_refresh_token_def live_def)
    qed
  qed
qed

lemma refresh_step_inv:
  assumes "refresh_inv s" "refresh_ok p s"
  shows "refresh_inv (refresh_step sha lifetime absolute p s)"
proof -
  have c: "committed s = working s" "rows_inv (working s)" using assms(1) by (simp_all add: refresh_inv_def)
  show ?thesis
  proof (cases p)
    case (RCreate now created raw family user)
    have "filter (live family) (working s) = []"
      using assms(2) RCreate by (force simp: filter_empty_conv live_def)
    then show ?thesis using RCreate c by (simp add: create_refresh_token_def insert_refresh_inv)
  next
    case (RRotate t1 t2 t3 created new raw)
    from assms(1) show ?thesis
    proof (cases rule: rotate_cases [of s sha lifetime absolute t1 t2 t3 created new raw])
      case (insert r)
      let ?u = "sql_update (\<lambda>x. rt_hash x = rt_hash r) (\<lambda>x. x\<lparr>rt_used := True\<rparr>)"
      have "filter (live (rt_family r)) (?u (working s)) = []" "rows_inv (?u (working s))"
        using no_live_after_use c(2) insert(2,3) rows_inv_update kills_updates(2) by blast+
      then show ?thesis using RRotate insert(4) c
        by (simp add: insert_refresh_inv [where t = "working s"])
    qed (use assms(1) RRotate in \<open>simp_all add: revoke_family_inv\<close>)
  next
    case (RRevoke raw)
    then show ?thesis using assms(1)
      by (auto simp: revoke_refresh_token_def refresh_inv_def rows_inv_update kills_updates split: option.split)
  next
    case (RRevokeUser user)
    then show ?thesis using assms(1)
      by (simp add: revoke_user_refresh_tokens_def refresh_inv_def rows_inv_update kills_updates Let_def)
  qed
qed

text \<open>Two facts about a family that no call can undo: it is revoked, or it had a token since \<open>c\<close>.\<close>

definition revoked_family :: "string \<Rightarrow> refresh_row list session \<Rightarrow> bool" where
  "revoked_family f s \<longleftrightarrow> f \<in> rt_family ` set (working s) \<and> (\<forall>r \<in> set (working s). rt_family r = f \<longrightarrow> rt_revoked r)"

definition had_token :: "string \<times> int \<Rightarrow> refresh_row list session \<Rightarrow> bool" where
  "had_token fc s \<longleftrightarrow> (\<exists>r \<in> set (working s). rt_family r = fst fc \<and> rt_created r = snd fc)"

lemma set_sql_update: "set (sql_update p g rows) = (\<lambda>r. if p r then g r else r) ` set rows"
  by (simp add: sql_update_def)

lemma revoked_update:
  assumes "kills g" "revoked_family f s"
  shows "revoked_family f (commit (upd (sql_update p g) s))"
proof -
  let ?h = "\<lambda>r. if p r then g r else r"
  have h: "rt_family (?h r) = rt_family r" "rt_revoked r \<Longrightarrow> rt_revoked (?h r)" for r
    using assms(1) by (auto simp: kills_def)
  have "rt_family ` ?h ` set (working s) = rt_family ` set (working s)" by (simp only: image_image h(1))
  moreover have "rt_revoked (?h r)" if "r \<in> set (working s)" "rt_family (?h r) = f" for r
    using assms(2) that h [of r] unfolding revoked_family_def by simp
  ultimately show ?thesis
    using assms(2) unfolding revoked_family_def session_simps set_sql_update by blast
qed

lemma had_update:
  assumes "kills g" "had_token fc s"
  shows "had_token fc (commit (upd (sql_update p g) s))"
proof -
  obtain r where r: "r \<in> set (working s)" "rt_family r = fst fc" "rt_created r = snd fc"
    using assms(2) by (auto simp: had_token_def)
  let ?h = "\<lambda>r. if p r then g r else r"
  have "rt_family (?h r) = fst fc" "rt_created (?h r) = snd fc" using assms(1) r(2,3) by (auto simp: kills_def)
  then show ?thesis using r(1) unfolding had_token_def session_simps set_sql_update by blast
qed

lemma revoked_step:
  assumes "refresh_inv s" "refresh_ok p s" "revoked_family f s"
  shows "revoked_family f (refresh_step sha lifetime absolute p s)"
proof -
  have c: "committed s = working s" using assms(1) by (simp add: refresh_inv_def)
  have ins: "revoked_family f (fst (insert_refresh row v s'))"
    if "committed s' = working s" "revoked_family f (commit s')" "rt_family row \<noteq> f" for row and v :: 'v and s'
    using that assms(3)
    by (cases rule: insert_refresh_cases [of row v s']) (auto simp: revoked_family_def)
  show ?thesis
  proof (cases p)
    case (RCreate now created raw family user)
    have "family \<noteq> f" using assms(2,3) RCreate by (auto simp: revoked_family_def)
    then show ?thesis using RCreate c assms(3)
      by (simp add: create_refresh_token_def) (intro ins, simp_all add: revoked_family_def)
  next
    case (RRotate t1 t2 t3 created new raw)
    from assms(1) show ?thesis
    proof (cases rule: rotate_cases [of s sha lifetime absolute t1 t2 t3 created new raw])
      case (insert r)
      have "rt_family r \<noteq> f" using insert(2,3) assms(3) by (auto simp: revoked_family_def live_def)
      then show ?thesis using RRotate insert(4) c revoked_update [OF kills_updates(2) assms(3)]
        by (simp add: ins)
    qed (use assms(3) RRotate revoked_update [OF kills_updates(1)] in \<open>simp_all add: revoke_family_def\<close>)
  next
    case (RRevoke raw)
    then show ?thesis using assms(3) revoked_update [OF kills_updates(1) assms(3)]
      by (simp add: revoke_refresh_token_def split: option.split)
  next
    case (RRevokeUser user)
    then show ?thesis using revoked_update [OF kills_updates(1) assms(3)]
      by (simp add: revoke_user_refresh_tokens_def Let_def)
  qed
qed

lemma had_step:
  assumes "refresh_inv s" "had_token fc s"
  shows "had_token fc (refresh_step sha lifetime absolute p s)"
proof -
  have c: "committed s = working s" using assms(1) by (simp add: refresh_inv_def)
  have ins: "had_token fc (fst (insert_refresh row v s'))"
    if "committed s' = working s" "had_token fc (commit s')" for row and v :: 'v and s'
    using that assms(2)
    by (cases rule: insert_refresh_cases [of row v s']) (auto simp: had_token_def)
  show ?thesis
  proof (cases p)
    case (RCreate now created raw family user)
    then show ?thesis using c assms(2)
      by (simp add: create_refresh_token_def) (intro ins, simp_all add: had_token_def)
  next
    case (RRotate t1 t2 t3 created new raw)
    from assms(1) show ?thesis
    proof (cases rule: rotate_cases [of s sha lifetime absolute t1 t2 t3 created new raw])
      case (insert r)
      then show ?thesis using RRotate c had_update [OF kills_updates(2) assms(2)] by (simp add: ins)
    qed (use assms(2) RRotate had_update [OF kills_updates(1)] in \<open>simp_all add: revoke_family_def\<close>)
  next
    case (RRevoke raw)
    then show ?thesis using assms(2) had_update [OF kills_updates(1) assms(2)]
      by (simp add: revoke_refresh_token_def split: option.split)
  next
    case (RRevokeUser user)
    then show ?thesis using had_update [OF kills_updates(1) assms(2)]
      by (simp add: revoke_user_refresh_tokens_def Let_def)
  qed
qed

interpretation families: sealed_machine "refresh_step sha lifetime absolute" refresh_inv refresh_ok revoked_family
  for sha lifetime absolute
  by unfold_locales (auto intro: refresh_step_inv revoked_step)

interpretation ages: sealed_machine "refresh_step sha lifetime absolute" refresh_inv refresh_ok had_token
  for sha lifetime absolute
  by unfold_locales (auto intro: refresh_step_inv had_step)

text \<open>
  A login session has one live refresh token at most. Starting from an empty table,
  after every sequence of logins, rotations (also refused and failed ones), logouts and
  revocations, no family has two tokens that are neither used nor revoked.
\<close>

theorem one_live_token_per_family:
  assumes "admissible refresh_ok (refresh_step sha lifetime absolute) ops (fresh_session [])"
  shows "length (filter (live f) (committed (fold (refresh_step sha lifetime absolute) ops (fresh_session [])))) \<le> 1"
proof -
  have "refresh_inv (fresh_session [])" by (simp add: refresh_inv_def rows_inv_def)
  from families.inv_run [OF this assms] show ?thesis by (simp add: refresh_inv_def rows_inv_def)
qed

theorem one_live_token_per_family_witness:
  "length (filter (live ''f'') (committed (fold (refresh_step id 10 100)
      [RCreate 0 0 ''a'' ''f'' ''u'', RRotate 1 1 1 1 ''b'' ''a''] (fresh_session [])))) \<le> 1"
  by (rule one_live_token_per_family) simp

lemma revoked_family_revokes:
  assumes "r \<in> set (working s)"
  shows "revoked_family (rt_family r) (revoke_family (rt_family r) s)"
proof -
  let ?h = "\<lambda>x. if rt_family x = rt_family r then x\<lparr>rt_revoked := True\<rparr> else x"
  have "?h r \<in> ?h ` set (working s)" using assms by blast
  then have "rt_family (?h r) \<in> rt_family ` ?h ` set (working s)" by (rule imageI)
  moreover have "rt_family (?h r) = rt_family r" by simp
  ultimately have "rt_family r \<in> rt_family ` ?h ` set (working s)" by metis
  moreover have "rt_family (?h x) = rt_family r \<Longrightarrow> rt_revoked (?h x)" for x by (simp split: if_splits)
  ultimately show ?thesis unfolding revoked_family_def revoke_family_def session_simps set_sql_update by blast
qed

lemma refused_if_revoked:
  assumes "find_row rt_hash (sha raw) (working s) = Some r" "rt_revoked r"
  shows "snd (rotate_refresh_token sha lifetime absolute t1 t2 t3 created new raw s) = Refused"
  using assms by (simp add: rotate_refresh_token_def)

text \<open>
  C13: a stolen token kills its family. If a token that was already rotated is presented
  again (not expired, not revoked), the call is refused, and from then on no token of
  that login session, the current one included, can ever be rotated again, whatever
  happens in between.
\<close>

theorem reuse_revokes_family:
  assumes "refresh_inv s" "find_row rt_hash (sha raw) (working s) = Some r"
    and "rt_used r" "\<not> rt_revoked r" "t1 \<le> rt_expires r"
    and "admissible refresh_ok (refresh_step sha lifetime absolute) ops
          (fst (rotate_refresh_token sha lifetime absolute t1 t2 t3 created new raw s))"
  defines "s' \<equiv> fold (refresh_step sha lifetime absolute) ops
          (fst (rotate_refresh_token sha lifetime absolute t1 t2 t3 created new raw s))"
  assumes "find_row rt_hash (sha raw') (working s') = Some r'" "rt_family r' = rt_family r"
  shows "snd (rotate_refresh_token sha lifetime absolute u1 u2 u3 created' new' raw' s') = Refused"
proof -
  have e: "rotate_refresh_token sha lifetime absolute t1 t2 t3 created new raw s = (revoke_family (rt_family r) s, Refused)"
    using assms(2-5) by (simp add: rotate_refresh_token_def)
  have m: "r \<in> set (working s)" using find_row_Some [OF assms(2)] by simp
  have "revoked_family (rt_family r) (revoke_family (rt_family r) s)"
    using revoked_family_revokes [OF m] .
  then have "revoked_family (rt_family r) s'"
    using families.sealed_run [OF revoke_family_inv [OF assms(1)]] assms(6) e by (simp add: s'_def)
  then have "rt_revoked r'" using find_row_Some [OF assms(8)] assms(9) by (auto simp: revoked_family_def)
  with assms(8) show ?thesis by (rule refused_if_revoked [of sha raw' s' r'])
qed

definition demo_row :: "string \<Rightarrow> bool \<Rightarrow> refresh_row" where
  "demo_row h used = \<lparr>rt_user = ''u'', rt_hash = h, rt_family = ''f'', rt_used = used, rt_revoked = False,
     rt_created = 0, rt_expires = 100\<rparr>"

lemma demo_rows_inv: "refresh_inv (fresh_session [demo_row ''a'' True, demo_row ''b'' False])"
  by (simp add: refresh_inv_def rows_inv_def demo_row_def live_def)

theorem reuse_revokes_family_witness:
  "snd (rotate_refresh_token id 10 100 2 2 2 2 ''d'' ''b''
     (fst (rotate_refresh_token id 10 100 1 1 1 1 ''c'' ''a'' (fresh_session [demo_row ''a'' True, demo_row ''b'' False])))) = Refused"
  using reuse_revokes_family [OF demo_rows_inv, of id "''a''" "demo_row ''a'' True" 1 10 100 "[]" 1 1 1 "''c''" "''b''"
      "(demo_row ''b'' False)\<lparr>rt_revoked := True\<rparr>" 2 2 2 2 "''d''"]
  by (simp add: demo_row_def find_row_def rotate_refresh_token_def revoke_family_def sql_update_def)

lemma family_created_le:
  assumes "r \<in> set rows" "rt_family r = f"
  shows "\<exists>t. family_created f rows = Some t \<and> t \<le> rt_created r"
proof -
  have fold_le: "fold min ts t \<le> x" if "x \<in> insert t (set ts)" for ts and t x :: int
  proof -
    have "fold min ts t = Min (set (t # ts))" by (simp only: Min.set_eq_fold)
    then show ?thesis using that by (simp add: Min_le)
  qed
  have "rt_created r \<in> set (map rt_created (filter (\<lambda>r. rt_family r = f) rows))" using assms by auto
  then show ?thesis using fold_le by (cases "map rt_created (filter (\<lambda>r. rt_family r = f) rows)") (auto simp: family_created_def)
qed

text \<open>
  No login session outlives its absolute limit. Once a family has had a token
  created at some moment, then whatever rotations kept it alive since, no rotation of
  any of its tokens succeeds when that moment is longer ago than the limit.
\<close>

theorem session_has_absolute_limit:
  assumes "refresh_inv s" "r0 \<in> set (working s)"
    and "admissible refresh_ok (refresh_step sha lifetime absolute) ops s"
  defines "s' \<equiv> fold (refresh_step sha lifetime absolute) ops s"
  assumes "find_row rt_hash (sha raw) (working s') = Some r" "rt_family r = rt_family r0"
    and "of_int absolute < fdiv (of_int (t2 - rt_created r0)) 1000000"
  shows "snd (rotate_refresh_token sha lifetime absolute t1 t2 t3 created new raw s') = Refused"
proof -
  have "had_token (rt_family r0, rt_created r0) s" using assms(2) by (auto simp: had_token_def)
  then have "had_token (rt_family r0, rt_created r0) s'"
    using ages.sealed_run [OF assms(1,3)] by (simp add: s'_def)
  then obtain t where t: "family_created (rt_family r) (working s') = Some t" "t \<le> rt_created r0"
    using family_created_le assms(6) unfolding had_token_def by fastforce
  have "fdiv (of_int (t2 - rt_created r0)) 1000000 \<le> fdiv (of_int (t2 - t)) 1000000"
    unfolding fdiv_def using t(2) by (intro fl_mono divide_right_mono) simp_all
  then have "too_old absolute t2 (rt_family r) (working s')" using t(1) assms(7) by (simp add: too_old_def)
  then show ?thesis using assms(5) by (simp add: rotate_refresh_token_def)
qed

theorem session_has_absolute_limit_witness:
  "snd (rotate_refresh_token id 10 1 3000000 3000000 3000000 3000000 ''d'' ''b''
     (fresh_session [demo_row ''a'' True, (demo_row ''b'' False)\<lparr>rt_expires := 9000000\<rparr>])) = Refused"
proof -
  let ?s = "fresh_session [demo_row ''a'' True, (demo_row ''b'' False)\<lparr>rt_expires := 9000000\<rparr>]"
  have "refresh_inv ?s" by (simp add: refresh_inv_def rows_inv_def demo_row_def live_def)
  then show ?thesis
    using session_has_absolute_limit [of ?s "demo_row ''a'' True" id 10 1 "[]" "''b''"
        "(demo_row ''b'' False)\<lparr>rt_expires := 9000000\<rparr>" 3000000 3000000 3000000 3000000 "''d''"]
    by (simp add: demo_row_def find_row_def fdiv_def)
qed

end
