(* ===== verification/Audit_Chain.thy ===== *)
theory Audit_Chain
  imports Json_Values
begin

text \<open>
  \<^verbatim>\<open>src/backend/services/security_service.py\<close>: the server's signing identity, the group
  commit of audit events into a signed hash chain, and the verification of single events
  and of the chain. SHA-256, ML-DSA key generation, signing and verification, the text of
  an instant and of a float are arguments. Keys and signatures stand for their base64
  text. Generated ids and clock reads are arguments.
\<close>

section \<open>Signing identity\<close>

datatype key_status = KeyActive | KeyRetired

record key_row =
  sk_id :: string
  sk_public :: string
  sk_fingerprint :: string
  sk_status :: key_status
  sk_created :: int
  sk_activated :: int
  sk_retired :: "int option"

record identity =
  i_pk :: "string option"
  i_sk :: "string option"
  i_created :: int
  i_key :: "string option"
  i_fingerprint :: "string option"
  i_registered :: bool

record audit_event =
  ev_id :: string
  ev_user :: "string option"
  ev_action :: string
  ev_rtype :: "string option"
  ev_rid :: "string option"
  ev_metadata :: json
  ev_signature :: string
  ev_key :: "string option"
  ev_created :: int

record chain_link =
  ln_seq :: int
  ln_event :: string
  ln_previous :: string
  ln_hash :: string
  ln_checkpoint :: string
  ln_key :: "string option"

record audit_db =
  ad_keys :: "key_row list"
  ad_events :: "audit_event list"
  ad_links :: "chain_link list"
  ad_users :: "string list"

definition configured_identity :: "(string \<Rightarrow> string) \<Rightarrow> (string \<times> string) option \<Rightarrow> int \<Rightarrow> identity" where
  "configured_identity sha keys created =
     \<lparr>i_pk = map_option fst keys, i_sk = map_option snd keys, i_created = created, i_key = None,
      i_fingerprint = map_option (\<lambda>k. sha (fst k)) keys, i_registered = False\<rparr>"

text \<open>\<open>fresh\<close>: the generated key pair, its id and the clock.\<close>

definition ensure_keypair :: "(string \<Rightarrow> string) \<Rightarrow> string \<times> string \<times> string \<times> int \<Rightarrow> identity \<Rightarrow> identity" where
  "ensure_keypair sha fresh i =
     (case fresh of (pk, sk, key, now) \<Rightarrow>
        i\<lparr>i_pk := Some pk, i_sk := Some sk, i_created := now, i_fingerprint := Some (sha pk), i_key := Some key,
          i_registered := False\<rparr>)"

definition register_in_db ::
  "(string \<Rightarrow> string) \<Rightarrow> string \<Rightarrow> int \<Rightarrow> identity \<Rightarrow> audit_db session \<Rightarrow> identity \<times> audit_db session \<times> string option" where
  "register_in_db sha new_id now i s =
     (case i_pk i of
        None \<Rightarrow> (i, s, None)
      | Some pk \<Rightarrow>
          (let fp = (case i_fingerprint i of Some f \<Rightarrow> if f \<noteq> [] then f else sha pk | None \<Rightarrow> sha pk);
               row = \<lparr>sk_id = (case i_key i of Some k \<Rightarrow> if k \<noteq> [] then k else new_id | None \<Rightarrow> new_id), sk_public = pk,
                      sk_fingerprint = fp, sk_status = KeyActive, sk_created = now, sk_activated = i_created i,
                      sk_retired = None\<rparr>;
               s1 = (if find_row sk_fingerprint fp (ad_keys (working s)) = None
                     then upd (\<lambda>d. d\<lparr>ad_keys := ad_keys d @ [row]\<rparr>) s else s);
               key = map_option sk_id (find_row sk_fingerprint fp (ad_keys (working s1)))
           in (i\<lparr>i_fingerprint := Some fp, i_key := key, i_registered := True\<rparr>, commit s1, key)))"

definition ensure_registered ::
  "(string \<Rightarrow> string) \<Rightarrow> string \<times> string \<times> string \<times> int \<Rightarrow> string \<Rightarrow> int \<Rightarrow> identity \<Rightarrow> audit_db session
     \<Rightarrow> identity \<times> audit_db session" where
  "ensure_registered sha fresh new_id now i s =
     (if i_registered i then (i, s)
      else let i1 = (if i_sk i = None then ensure_keypair sha fresh i else i);
               (i2, s2, key) = register_in_db sha new_id now i1 s
           in (i2\<lparr>i_registered := True\<rparr>, s2))"

definition retire_keys :: "string \<Rightarrow> int \<Rightarrow> key_row list \<Rightarrow> key_row list" where
  "retire_keys key now = sql_update (\<lambda>r. sk_id r = key) (\<lambda>r. r\<lparr>sk_status := KeyRetired, sk_retired := Some now\<rparr>)"

definition given :: "string option \<Rightarrow> bool" where
  "given x = (case x of Some y \<Rightarrow> y \<noteq> [] | None \<Rightarrow> False)"

definition rotate_identity ::
  "(string \<Rightarrow> string) \<Rightarrow> string \<times> string \<times> string \<times> int \<Rightarrow> string \<Rightarrow> int \<Rightarrow> identity \<Rightarrow> audit_db session
     \<Rightarrow> identity \<times> audit_db session" where
  "rotate_identity sha fresh new_id now i s =
     (let known = given (i_key i) \<and> find_row sk_id (the (i_key i)) (ad_keys (working s)) \<noteq> None;
          s1 = (if known then commit (upd (\<lambda>d. d\<lparr>ad_keys := retire_keys (the (i_key i)) now (ad_keys d)\<rparr>) s) else s);
          s2 = (if \<not> known \<and> given (i_pk i) \<and> given (i_fingerprint i)
                then commit (upd (\<lambda>d. d\<lparr>ad_keys := ad_keys d @
                   [\<lparr>sk_id = (if given (i_key i) then the (i_key i) else new_id), sk_public = the (i_pk i),
                     sk_fingerprint = the (i_fingerprint i), sk_status = KeyRetired, sk_created = i_created i,
                     sk_activated = i_created i, sk_retired = Some now\<rparr>]\<rparr>) s1)
                else s1);
          (i3, s3, key) = register_in_db sha new_id now (ensure_keypair sha fresh i) s2
      in (i3, s3))"

text \<open>\<open>False\<close>: the process refuses to run. \<open>lower\<close> is \<^verbatim>\<open>str.lower\<close>.\<close>

definition enforce_identity_pin :: "(string \<Rightarrow> string) \<Rightarrow> string option \<Rightarrow> identity \<Rightarrow> bool" where
  "enforce_identity_pin lower pinned i =
     (let pin = lower (strip (case pinned of Some p \<Rightarrow> p | None \<Rightarrow> [])) in
      if pin = [] then True
      else pin = lower (case i_fingerprint i of Some f \<Rightarrow> f | None \<Rightarrow> []))"

section \<open>Event text\<close>

definition opt_str :: "string option \<Rightarrow> json" where
  "opt_str x = (case x of Some y \<Rightarrow> JStr y | None \<Rightarrow> JNull)"

text \<open>\<^verbatim>\<open>metadata or {}\<close>.\<close>

definition or_empty :: "json \<Rightarrow> json" where
  "or_empty v = (if v = JNull then JObj [] else v)"

definition event_payload ::
  "string \<Rightarrow> string option \<Rightarrow> string option \<Rightarrow> string option \<Rightarrow> json \<Rightarrow> json" where
  "event_payload action user rtype rid metadata =
     JObj [(''action'', JStr action), (''user_id'', opt_str user), (''resource_type'', opt_str rtype),
           (''resource_id'', opt_str rid), (''metadata'', or_empty metadata)]"

text \<open>\<^verbatim>\<open>json.dumps(v, sort_keys=True)\<close>: the default separators have spaces.\<close>

fun spaced_text :: "(pyfloat \<Rightarrow> string) \<Rightarrow> json \<Rightarrow> string" where
  "spaced_text ft (JArr xs) = ''['' @ join '', '' (map (spaced_text ft) xs) @ '']''"
| "spaced_text ft (JObj d) =
     ''{'' @ join '', '' (map (\<lambda>(k, t). string_text True k @ '': '' @ t)
                    (sort_key fst (map (\<lambda>(k, v). (k, spaced_text ft v)) d))) @ ''}''"
| "spaced_text ft v = json_text True ft v"

text \<open>
  The text a link's hash is taken of. The code hashes \<^verbatim>\<open>json.loads\<close> of the payload's
  text, which is the payload up to the order of keys, which sorting removes.
\<close>

definition chain_text :: "(pyfloat \<Rightarrow> string) \<Rightarrow> string \<Rightarrow> string \<Rightarrow> json \<Rightarrow> string \<Rightarrow> string" where
  "chain_text ft i created payload previous =
     json_text True ft
       (JObj [(''audit_log_id'', JStr i), (''created_at'', JStr created), (''payload'', payload),
              (''previous_hash'', JStr previous)])"

definition chain_hash :: "(string \<Rightarrow> string) \<Rightarrow> (pyfloat \<Rightarrow> string) \<Rightarrow> string \<Rightarrow> string \<Rightarrow> json \<Rightarrow> string \<Rightarrow> string" where
  "chain_hash sha ft i created payload previous = sha (chain_text ft i created payload previous)"

definition payload_of :: "audit_event \<Rightarrow> json" where
  "payload_of e = event_payload (ev_action e) (ev_user e) (ev_rtype e) (ev_rid e) (ev_metadata e)"

section \<open>Appending\<close>

text \<open>
  What the functions need of the environment: \<open>e_iso\<close> renders an instant (in
  microseconds) in UTC, \<open>e_legacy\<close> gives the renderings of earlier releases.
\<close>

record audit_env =
  e_sha :: "string \<Rightarrow> string"
  e_float :: "pyfloat \<Rightarrow> string"
  e_iso :: "int \<Rightarrow> string"
  e_legacy :: "int \<Rightarrow> string list"
  e_sign :: "string \<Rightarrow> string \<Rightarrow> string"
  e_verify :: "string \<Rightarrow> string \<Rightarrow> string \<Rightarrow> bool"

definition GENESIS :: string where "GENESIS = replicate 64 (CHR ''0'')"
definition AUDIT_BATCH_MAX :: nat where "AUDIT_BATCH_MAX = 8"

definition chain_head :: "chain_link list \<Rightarrow> int \<times> string" where
  "chain_head links =
     (if links = [] then (0, GENESIS)
      else let l = last (sort_key ln_seq links) in (ln_seq l, ln_hash l))"

text \<open>
  The events of a batch (queued without their creation time) and their links; \<open>sk\<close> is
  the key the server signs with while the batch is written.
\<close>

fun chain_rows ::
  "audit_env \<Rightarrow> string \<Rightarrow> (string \<Rightarrow> int) \<Rightarrow> int \<Rightarrow> string \<Rightarrow> audit_event list \<Rightarrow> (audit_event \<times> chain_link) list" where
  "chain_rows e sk clock n previous [] = []"
| "chain_rows e sk clock n previous (p # ps) =
     (let ev = p\<lparr>ev_created := clock (ev_id p)\<rparr>;
          h = chain_hash (e_sha e) (e_float e) (ev_id ev) (e_iso e (ev_created ev)) (payload_of ev) previous
      in (ev, \<lparr>ln_seq = n + 1, ln_event = ev_id ev, ln_previous = previous, ln_hash = h,
               ln_checkpoint = e_sign e sk h, ln_key = ev_key ev\<rparr>)
         # chain_rows e sk clock (n + 1) h ps)"

text \<open>The constraints of the tables: known users, unique event ids.\<close>

definition insertable :: "audit_db \<Rightarrow> audit_event list \<Rightarrow> bool" where
  "insertable d ps \<longleftrightarrow> distinct (map ev_id ps) \<and> set (map ev_id ps) \<inter> set (map ev_id (ad_events d)) = {}
     \<and> (\<forall>p \<in> set ps. case ev_user p of None \<Rightarrow> True | Some u \<Rightarrow> u \<in> set (ad_users d))"

definition insert_chain_links ::
  "audit_env \<Rightarrow> string \<Rightarrow> (string \<Rightarrow> int) \<Rightarrow> audit_event list \<Rightarrow> audit_db session \<Rightarrow> audit_db session \<times> bool" where
  "insert_chain_links e sk clock ps s =
     (case chain_head (ad_links (working s)) of (n, previous) \<Rightarrow>
        let rows = chain_rows e sk clock n previous ps
        in if insertable (working s) ps
           then (commit (upd (\<lambda>d. d\<lparr>ad_events := ad_events d @ map fst rows, ad_links := ad_links d @ map snd rows\<rparr>) s),
                 True)
           else (rollback s, False))"

fun write_singly ::
  "audit_env \<Rightarrow> string \<Rightarrow> (string \<Rightarrow> int) \<Rightarrow> audit_event list \<Rightarrow> audit_db session \<Rightarrow> audit_db session \<times> bool list" where
  "write_singly e sk clock [] s = (s, [])"
| "write_singly e sk clock (p # ps) s =
     (let (s1, ok) = insert_chain_links e sk clock [p] s;
          (s2, oks) = write_singly e sk clock ps s1
      in (s2, ok # oks))"

text \<open>\<open>clock2\<close> is the clock of the second attempt. The result says which appends failed.\<close>

definition write_chain_batch ::
  "audit_env \<Rightarrow> string \<Rightarrow> (string \<Rightarrow> int) \<Rightarrow> (string \<Rightarrow> int) \<Rightarrow> audit_event list \<Rightarrow> audit_db session
     \<Rightarrow> audit_db session \<times> bool list" where
  "write_chain_batch e sk clock clock2 ps s =
     (case insert_chain_links e sk clock ps s of
        (s1, True) \<Rightarrow> (s1, map (\<lambda>p. True) ps)
      | (s1, False) \<Rightarrow> if length ps = 1 then (s1, [False]) else write_singly e sk clock2 ps s1)"

text \<open>A leader writes the queue batch by batch.\<close>

function drain ::
  "audit_env \<Rightarrow> string \<Rightarrow> (string \<Rightarrow> int) \<Rightarrow> (string \<Rightarrow> int) \<Rightarrow> audit_event list \<Rightarrow> audit_db session
     \<Rightarrow> audit_db session \<times> bool list" where
  "drain e sk clock clock2 queue s =
     (if queue = [] then (s, [])
      else let (s1, oks) = write_chain_batch e sk clock clock2 (take AUDIT_BATCH_MAX queue) s;
               (s2, oks2) = drain e sk clock clock2 (drop AUDIT_BATCH_MAX queue) s1
           in (s2, oks @ oks2))"
  by pat_completeness auto
termination by (relation "measure (\<lambda>(e, sk, c, c2, q, s). length q)") (auto simp: AUDIT_BATCH_MAX_def)

declare drain.simps [simp del]

text \<open>
  \<^verbatim>\<open>write_audit_log\<close> up to the append: the event as it is queued (its \<open>ev_created\<close> is
  set by the writer).
\<close>

definition queue_event ::
  "audit_env \<Rightarrow> string \<times> string \<times> string \<times> int \<Rightarrow> string \<Rightarrow> int \<Rightarrow> string \<Rightarrow> string option \<Rightarrow> string
     \<Rightarrow> string option \<Rightarrow> string option \<Rightarrow> json \<Rightarrow> identity \<Rightarrow> audit_db session
     \<Rightarrow> identity \<times> audit_db session \<times> audit_event option" where
  "queue_event e fresh new_id now log_id user action rtype rid metadata i s =
     (let (i1, s1) = ensure_registered (e_sha e) fresh new_id now i s in
      case i_sk i1 of
        None \<Rightarrow> (i1, s1, None)
      | Some sk \<Rightarrow>
          (i1, commit s1,
           Some \<lparr>ev_id = log_id, ev_user = user, ev_action = action, ev_rtype = rtype, ev_rid = rid,
                 ev_metadata = or_empty metadata,
                 ev_signature = e_sign e sk (spaced_text (e_float e) (event_payload action user rtype rid metadata)),
                 ev_key = i_key i1, ev_created = 0\<rparr>))"

section \<open>Verification\<close>

definition key_for :: "audit_db \<Rightarrow> string option \<Rightarrow> string option" where
  "key_for d key = (case key of None \<Rightarrow> None | Some k \<Rightarrow> map_option sk_public (find_row sk_id k (ad_keys d)))"

definition verify_audit_log :: "audit_env \<Rightarrow> identity \<Rightarrow> audit_db \<Rightarrow> string \<Rightarrow> bool" where
  "verify_audit_log e i d log_id =
     (case find_row ev_id log_id (ad_events d) of
        None \<Rightarrow> False
      | Some ev \<Rightarrow>
          if ev_signature ev = [] then False
          else (case (case key_for d (ev_key ev) of Some pk \<Rightarrow> Some pk | None \<Rightarrow> i_pk i) of
                  None \<Rightarrow> False
                | Some pk \<Rightarrow> e_verify e pk (spaced_text (e_float e) (payload_of ev)) (ev_signature ev)))"

datatype failure = EventMissing | WrongPredecessor | NoKey | ContentMismatch | BadCheckpoint

definition link_failure :: "audit_env \<Rightarrow> identity \<Rightarrow> audit_db \<Rightarrow> string \<Rightarrow> chain_link \<Rightarrow> failure option" where
  "link_failure e i d previous l =
     (case find_row ev_id (ln_event l) (ad_events d) of
        None \<Rightarrow> Some EventMissing
      | Some ev \<Rightarrow>
          if ln_previous l \<noteq> previous then Some WrongPredecessor
          else (case (case key_for d (ln_key l) of Some pk \<Rightarrow> if pk \<noteq> [] then Some pk else i_pk i | None \<Rightarrow> i_pk i) of
                  None \<Rightarrow> Some NoKey
                | Some pk \<Rightarrow>
                    let h = (\<lambda>t. chain_hash (e_sha e) (e_float e) (ev_id ev) t (payload_of ev) previous)
                    in if h (e_iso e (ev_created ev)) \<noteq> ln_hash l
                          \<and> \<not> list_ex (\<lambda>t. h t = ln_hash l) (e_legacy e (ev_created ev))
                       then Some ContentMismatch
                       else if \<not> e_verify e pk (ln_hash l) (ln_checkpoint l) then Some BadCheckpoint
                       else None))"

text \<open>The stream of links: the first failure, or the last link verified.\<close>

fun check_links ::
  "audit_env \<Rightarrow> identity \<Rightarrow> audit_db \<Rightarrow> string \<Rightarrow> (int \<times> string) option \<Rightarrow> chain_link list
     \<Rightarrow> (int \<times> failure) option \<times> (int \<times> string) option" where
  "check_links e i d previous seen [] = (None, seen)"
| "check_links e i d previous seen (l # ls) =
     (case link_failure e i d previous l of
        Some why \<Rightarrow> (Some (ln_seq l, why), seen)
      | None \<Rightarrow> check_links e i d (ln_hash l) (Some (ln_seq l, ln_hash l)) ls)"

record verified_state =
  vs_head :: "(int \<times> string) option"
  vs_full_at :: "int option"
  vs_generation :: nat

record chain_status =
  cs_valid :: bool
  cs_links :: nat
  cs_unchained :: nat
  cs_failure :: "(int \<times> failure) option"
  cs_full :: bool
  cs_from :: int
  cs_last :: "(int \<times> string) option"

definition start_at :: "bool \<Rightarrow> verified_state \<Rightarrow> audit_db \<Rightarrow> int \<times> string" where
  "start_at full v d =
     (case vs_head v of
        None \<Rightarrow> (0, GENESIS)
      | Some (n, h) \<Rightarrow>
          if \<not> full \<and> map_option ln_hash (find_row ln_seq n (ad_links d)) = Some h then (n, h) else (0, GENESIS))"

text \<open>The check itself, from the state read at its start.\<close>

definition check_chain :: "audit_env \<Rightarrow> identity \<Rightarrow> bool \<Rightarrow> verified_state \<Rightarrow> audit_db \<Rightarrow> chain_status" where
  "check_chain e i full v d =
     (case start_at full v d of (after, previous) \<Rightarrow>
        (case check_links e i d previous None (sort_key ln_seq (filter (\<lambda>l. after < ln_seq l) (ad_links d))) of
           (bad, seen) \<Rightarrow>
             \<lparr>cs_valid = (bad = None), cs_links = length (ad_links d),
              cs_unchained = length (filter (\<lambda>ev. \<not> list_ex (\<lambda>l. ln_event l = ev_id ev) (ad_links d)) (ad_events d)),
              cs_failure = bad, cs_full = (after = 0), cs_from = after + 1, cs_last = seen\<rparr>))"

text \<open>What is remembered of it; \<open>v0\<close> and \<open>v\<close> are the state at its start and at its end.\<close>

definition remember :: "int \<Rightarrow> verified_state \<Rightarrow> verified_state \<Rightarrow> chain_status \<Rightarrow> verified_state" where
  "remember started v0 v st =
     (if \<not> cs_valid st then v\<lparr>vs_head := None, vs_generation := vs_generation v + 1\<rparr>
      else if vs_generation v = vs_generation v0
      then (let v1 = (if cs_full st then v\<lparr>vs_full_at := Some started\<rparr> else v) in
            (case cs_last st of
               None \<Rightarrow> v1
             | Some (n, h) \<Rightarrow>
                 if (case vs_head v1 of None \<Rightarrow> True | Some (m, g) \<Rightarrow> m \<le> n) then v1\<lparr>vs_head := Some (n, h)\<rparr> else v1))
      else v)"

definition verify_audit_chain :: "audit_env \<Rightarrow> identity \<Rightarrow> verified_state \<Rightarrow> audit_db \<Rightarrow> bool" where
  "verify_audit_chain e i v d = cs_valid (check_chain e i True v d)"

section \<open>Health of users' keys\<close>

datatype health = GREEN | YELLOW | RED

definition ROTATION_DAYS :: int where "ROTATION_DAYS = 90"

text \<open>\<^verbatim>\<open>(now - created).days\<close> rounds down; times are in microseconds.\<close>

definition age_days :: "int \<Rightarrow> int \<Rightarrow> int" where
  "age_days now created = (now - created) div (86400 * 1000000)"

definition key_status_of :: "int \<Rightarrow> int \<Rightarrow> health" where
  "key_status_of now created =
     (let due = ROTATION_DAYS - age_days now created in if due \<le> 0 then RED else if due \<le> 14 then YELLOW else GREEN)"

definition raise_threat :: "health \<Rightarrow> health \<Rightarrow> health" where
  "raise_threat st threat = (if st = RED then RED else if st = YELLOW \<and> threat \<noteq> RED then YELLOW else threat)"

definition key_health :: "int \<Rightarrow> (string \<times> int) list \<Rightarrow> (string \<times> int \<times> int \<times> health) list \<times> health" where
  "key_health now keys =
     (map (\<lambda>(k, created). (k, age_days now created, ROTATION_DAYS - age_days now created, key_status_of now created)) keys,
      fold (\<lambda>(k, created). raise_threat (key_status_of now created)) keys GREEN)"

end
