(* ===== verification/Audit_Properties.thy ===== *)
theory Audit_Properties
  imports Audit_Chain
begin

text \<open>
  The audit chain: appends keep it verifiable, one bad append fails alone and the others
  of its group are written in order, and the hash
  of the newest link fixes the whole history before it.
\<close>

section \<open>Links in a row\<close>

definition prev_hash :: "string \<Rightarrow> chain_link list \<Rightarrow> string" where
  "prev_hash previous ls = (if ls = [] then previous else ln_hash (last ls))"

lemma check_links_seen: "fst (check_links e i d previous seen ks) = fst (check_links e i d previous seen' ks)"
  by (induction ks arbitrary: previous seen seen') (auto split: option.split)

lemma check_links_append:
  "fst (check_links e i d previous seen (ls @ ks)) = None \<longleftrightarrow>
     fst (check_links e i d previous seen ls) = None \<and> fst (check_links e i d (prev_hash previous ls) seen' ks) = None"
proof (induction ls arbitrary: previous seen)
  case Nil
  show ?case unfolding prev_hash_def by (simp, subst check_links_seen [of e i d previous seen ks seen'], rule refl)
next
  case (Cons l ls)
  show ?case by (cases "link_failure e i d previous l") (auto simp: Cons prev_hash_def)
qed

text \<open>A chain that verifies from the beginning.\<close>

definition verifies :: "audit_env \<Rightarrow> identity \<Rightarrow> audit_db \<Rightarrow> chain_link list \<Rightarrow> bool" where
  "verifies e i d ls \<longleftrightarrow> fst (check_links e i d GENESIS None ls) = None"

lemma verifies_snoc: "verifies e i d (ls @ [l]) \<longleftrightarrow> verifies e i d ls \<and> link_failure e i d (prev_hash GENESIS ls) l = None"
  unfolding verifies_def check_links_append [of e i d GENESIS None ls "[l]" None] by (simp split: option.split)

lemma check_chain_full: "cs_valid (check_chain e i True v d) \<longleftrightarrow> verifies e i d (sort_key ln_seq (filter (\<lambda>l. 0 < ln_seq l) (ad_links d)))"
  by (simp add: check_chain_def start_at_def verifies_def case_prod_beta split: option.split prod.split)

section \<open>The head fixes the history\<close>

definition hex64 :: "string \<Rightarrow> bool" where
  "hex64 h \<longleftrightarrow> length h = 64 \<and> set h \<subseteq> set ''0123456789abcdef''"

lemma hex_text:
  assumes "hex64 h"
  shows "string_text True h = CHR 0x22 # h @ [CHR 0x22]"
proof -
  have hex: "escape_char True c = [c]" if "c \<in> set ''0123456789abcdef''" for c
    using that by (auto simp: escape_char_def)
  have "concat (map f s) = s" if "\<And>c. c \<in> set s \<Longrightarrow> f c = [c]" for f and s :: string
    using that by (induction s) simp_all
  moreover have "escape_char True c = [c]" if "c \<in> set h" for c
    using assms that hex unfolding hex64_def by blast
  ultimately have "concat (map (escape_char True) h) = h" by blast
  then show ?thesis by (simp add: string_text_def)
qed

lemma chain_text_suffix: "\<exists>A. chain_text ft i t p h = A @ string_text True h @ ''}''"
proof -
  let ?kv = "[(''audit_log_id'', JStr i), (''created_at'', JStr t), (''payload'', p), (''previous_hash'', JStr h)]"
  have "sorted (map fst (map (\<lambda>(k, v). (k, json_text True ft v)) ?kv))" by simp
  then have s: "sort_key fst (map (\<lambda>(k, v). (k, json_text True ft v)) ?kv) = map (\<lambda>(k, v). (k, json_text True ft v)) ?kv"
    by (rule sort_key_id_if_sorted)
  show ?thesis unfolding chain_text_def json_text.simps s by simp
qed

lemma suffix_same_length:
  assumes "A @ x # p @ q = B @ x # p' @ q" "length p = length p'"
  shows "p = p'"
proof -
  have "(A @ [x]) @ p = (B @ [x]) @ p'" using assms(1) by simp
  then show ?thesis using assms(2) by (metis append_eq_append_conv)
qed

lemma chain_text_previous:
  assumes "chain_text ft i t p h = chain_text ft i' t' p' h'" "hex64 h" "hex64 h'"
  shows "h = h'"
proof -
  obtain A B where "chain_text ft i t p h = A @ string_text True h @ ''}''"
    "chain_text ft i' t' p' h' = B @ string_text True h' @ ''}''"
    using chain_text_suffix by metis
  then have "A @ CHR 0x22 # h @ [CHR 0x22, CHR ''}''] = B @ CHR 0x22 # h' @ [CHR 0x22, CHR ''}'']"
    using assms hex_text by simp
  then show ?thesis by (rule suffix_same_length) (use assms(2,3) in \<open>simp add: hex64_def\<close>)
qed

text \<open>The text the hash of a verified link was taken of.\<close>

definition link_text :: "audit_env \<Rightarrow> audit_db \<Rightarrow> chain_link \<Rightarrow> string" where
  "link_text e d l =
     (case find_row ev_id (ln_event l) (ad_events d) of
        None \<Rightarrow> []
      | Some ev \<Rightarrow>
          (case find (\<lambda>t. chain_hash (e_sha e) (e_float e) (ev_id ev) t (payload_of ev) (ln_previous l) = ln_hash l)
                  (e_iso e (ev_created ev) # e_legacy e (ev_created ev)) of
             None \<Rightarrow> []
           | Some t \<Rightarrow> chain_text (e_float e) (ev_id ev) t (payload_of ev) (ln_previous l)))"

lemma verified_link_text:
  assumes "link_failure e i d previous l = None"
  shows "e_sha e (link_text e d l) = ln_hash l \<and> ln_previous l = previous
    \<and> (\<exists>j t p. link_text e d l = chain_text (e_float e) j t p previous)"
proof -
  obtain ev where ev: "find_row ev_id (ln_event l) (ad_events d) = Some ev" and prev: "ln_previous l = previous"
    using assms by (auto simp: link_failure_def split: option.splits if_splits)
  let ?P = "\<lambda>t. chain_hash (e_sha e) (e_float e) (ev_id ev) t (payload_of ev) previous = ln_hash l"
  have "?P (e_iso e (ev_created ev)) \<or> list_ex ?P (e_legacy e (ev_created ev))"
    using assms ev prev by (auto simp: link_failure_def Let_def split: option.splits if_splits)
  then obtain t where t: "find ?P (e_iso e (ev_created ev) # e_legacy e (ev_created ev)) = Some t" "?P t"
    by (cases "find ?P (e_iso e (ev_created ev) # e_legacy e (ev_created ev))")
      (auto simp: find_None_iff list_ex_iff find_Some_iff split: if_splits)
  then have "link_text e d l = chain_text (e_float e) (ev_id ev) t (payload_of ev) previous"
    unfolding link_text_def ev option.case prev by simp
  then show ?thesis using t(2) prev by (auto simp: chain_hash_def)
qed

text \<open>What is asked of SHA-256 on a set of texts: no two of them share a hash, and none hashes
  to the value a chain starts from.\<close>

definition hash_sound :: "audit_env \<Rightarrow> string set \<Rightarrow> bool" where
  "hash_sound e T \<longleftrightarrow> inj_on (e_sha e) T \<and> GENESIS \<notin> e_sha e ` T"

lemma genesis_hex: "hex64 GENESIS"
  by (simp add: hex64_def GENESIS_def)

lemma history_from_head:
  assumes "\<And>t. hex64 (e_sha e t)" "hash_sound e T"
    and "link_text e d ` set ls \<subseteq> T" "link_text e d' ` set ls' \<subseteq> T" "verifies e i d ls" "verifies e i' d' ls'" "prev_hash GENESIS ls = prev_hash GENESIS ls'"
  shows "map (link_text e d) ls = map (link_text e d') ls'"
  using assms(3-)
proof (induction ls arbitrary: ls' rule: rev_induct)
  case Nil
  show ?case
  proof (cases ls' rule: rev_cases)
    case (snoc ks k)
    then have "e_sha e (link_text e d' k) = GENESIS"
      using Nil verified_link_text by (fastforce simp: verifies_snoc prev_hash_def)
    moreover have "link_text e d' k \<in> T" using Nil.prems(2) snoc by simp
    ultimately show ?thesis using assms(2) by (metis hash_sound_def image_eqI)
  qed simp
next
  case (snoc l ls)
  have l: "link_failure e i d (prev_hash GENESIS ls) l = None" "verifies e i d ls" using snoc.prems(3) by (simp_all add: verifies_snoc)
  have lT: "link_text e d l \<in> T" "link_text e d ` set ls \<subseteq> T" using snoc.prems(1) by auto
  note tl = verified_link_text [OF l(1)]
  show ?case
  proof (cases ls' rule: rev_cases)
    case Nil
    then have "e_sha e (link_text e d l) = GENESIS" using snoc.prems(5) tl by (simp add: prev_hash_def)
    then show ?thesis using assms(2) lT(1) by (metis hash_sound_def image_eqI)
  next
    case k: (snoc ks k)
    have lk: "link_failure e i' d' (prev_hash GENESIS ks) k = None" "verifies e i' d' ks"
      using snoc.prems(4) k by (simp_all add: verifies_snoc)
    have kT: "link_text e d' k \<in> T" "link_text e d' ` set ks \<subseteq> T" using snoc.prems(2) k by auto
    note tk = verified_link_text [OF lk(1)]
    have "ln_hash l = ln_hash k" using snoc.prems(5) k by (simp add: prev_hash_def)
    then have same: "link_text e d l = link_text e d' k"
      using tl tk assms(2) lT(1) kT(1) unfolding hash_sound_def by (metis inj_onD)
    have hexes: "hex64 (prev_hash GENESIS xs)" if "verifies e j c xs" for xs j c
    proof (cases xs rule: rev_cases)
      case (snoc ys y)
      then have "link_failure e j c (prev_hash GENESIS ys) y = None" using that by (simp add: verifies_snoc)
      then show ?thesis using verified_link_text assms(1) snoc by (metis last_snoc prev_hash_def snoc_eq_iff_butlast)
    qed (simp add: prev_hash_def genesis_hex)
    have "prev_hash GENESIS ls = prev_hash GENESIS ks"
      using same tl tk chain_text_previous hexes [OF l(2)] hexes [OF lk(2)] by metis
    then have "map (link_text e d) ls = map (link_text e d') ks" using snoc.IH [OF lT(2) kT(2) l(2) lk(2)] by simp
    then show ?thesis using same k by simp
  qed
qed

definition chain_of :: "audit_db \<Rightarrow> chain_link list" where
  "chain_of d = sort_key ln_seq (filter (\<lambda>l. 0 < ln_seq l) (ad_links d))"

text \<open>
  C15: the newest link fixes the whole history. If the chains of two databases (the one
  verified today and, say, a backup) both verify and end in the same hash, then link by
  link the hashed texts (event id, instant, content, predecessor) are the same, byte for
  byte: nothing was edited, removed, inserted or reordered. Of SHA-256 only this is asked:
  hexadecimal digests, and no collision among the texts of these two chains.
\<close>

theorem newest_link_fixes_history:
  assumes "\<And>t. hex64 (e_sha e t)"
    and "hash_sound e (link_text e d ` set (chain_of d) \<union> link_text e d' ` set (chain_of d'))"
    and "verify_audit_chain e i v d" "verify_audit_chain e i' v' d'"
    and "prev_hash GENESIS (chain_of d) = prev_hash GENESIS (chain_of d')"
  shows "map (link_text e d) (chain_of d) = map (link_text e d') (chain_of d')"
proof -
  have "verifies e i d (chain_of d)" "verifies e i' d' (chain_of d')"
    using assms(3,4) by (simp_all only: verify_audit_chain_def check_chain_full chain_of_def)
  from history_from_head [OF assms(1,2) _ _ this assms(5)] show ?thesis by blast
qed

section \<open>Appending\<close>

definition audit_inv :: "audit_env \<Rightarrow> identity \<Rightarrow> audit_db \<Rightarrow> bool" where
  "audit_inv e i d \<longleftrightarrow> sorted_wrt (\<lambda>a b. ln_seq a < ln_seq b) (ad_links d) \<and> (\<forall>l \<in> set (ad_links d). 0 < ln_seq l)
     \<and> verifies e i d (ad_links d)"

lemma audit_inv_sorted:
  assumes "audit_inv e i d"
  shows "sort_key ln_seq (ad_links d) = ad_links d" "filter (\<lambda>l. 0 < ln_seq l) (ad_links d) = ad_links d"
proof -
  have "sorted (map ln_seq (ad_links d))"
    using assms sorted_wrt_mono_rel [of "ad_links d" "\<lambda>a b. ln_seq a < ln_seq b" "\<lambda>a b. ln_seq a \<le> ln_seq b"]
    by (simp add: audit_inv_def sorted_wrt_map)
  then show "sort_key ln_seq (ad_links d) = ad_links d" by (rule sort_key_id_if_sorted)
  show "filter (\<lambda>l. 0 < ln_seq l) (ad_links d) = ad_links d"
    using assms by (simp add: audit_inv_def filter_id_conv)
qed

lemma audit_inv_verifies: "audit_inv e i d \<Longrightarrow> verify_audit_chain e i v d"
  using audit_inv_sorted [of e i d] by (simp add: verify_audit_chain_def check_chain_full) (simp add: audit_inv_def)

lemma chain_head_inv:
  assumes "audit_inv e i d"
  shows "chain_head (ad_links d) = (n, h) \<Longrightarrow> h = prev_hash GENESIS (ad_links d) \<and> 0 \<le> n \<and> (\<forall>l \<in> set (ad_links d). ln_seq l \<le> n)"
proof -
  assume c: "chain_head (ad_links d) = (n, h)"
  show ?thesis
  proof (cases "ad_links d" rule: rev_cases)
    case (snoc ls l)
    have "n = ln_seq l" "h = ln_hash l"
      using c snoc audit_inv_sorted(1) [OF assms] by (auto simp: chain_head_def)
    moreover have "\<forall>k \<in> set ls. ln_seq k < ln_seq l" "0 < ln_seq l"
      using assms snoc by (auto simp: audit_inv_def sorted_wrt_append)
    ultimately show ?thesis using snoc by (auto simp: prev_hash_def intro: less_imp_le)
  qed (use c in \<open>auto simp: chain_head_def prev_hash_def\<close>)
qed

lemma chain_rows_ids: "map ev_id (map fst (chain_rows e sk clock n previous ps)) = map ev_id ps"
  by (induction ps arbitrary: n previous) (simp_all add: Let_def)

lemma chain_rows_seqs:
  "sorted_wrt (\<lambda>a b. ln_seq a < ln_seq b) (map snd (chain_rows e sk clock n previous ps))
     \<and> (\<forall>l \<in> set (map snd (chain_rows e sk clock n previous ps)). n < ln_seq l)"
  by (induction ps arbitrary: n previous) (force simp: Let_def)+

lemma chain_rows_verify:
  assumes "\<And>m. e_verify e pk m (e_sign e sk m)" "pk \<noteq> []"
    and "\<And>p. p \<in> set ps \<Longrightarrow> key_for d (ev_key p) = Some pk"
    and "\<And>ev. ev \<in> fst ` set (chain_rows e sk clock n previous ps) \<Longrightarrow> find_row ev_id (ev_id ev) (ad_events d) = Some ev"
  shows "fst (check_links e i d previous seen (map snd (chain_rows e sk clock n previous ps))) = None"
  using assms(3,4)
proof (induction ps arbitrary: n previous seen)
  case (Cons p ps)
  let ?ev = "p\<lparr>ev_created := clock (ev_id p)\<rparr>"
  have "find_row ev_id (ev_id p) (ad_events d) = Some ?ev" using Cons.prems(2) [of ?ev] by (simp add: Let_def)
  then show ?case using Cons assms(1,2) by (simp add: Let_def link_failure_def)
qed simp

lemma link_failure_more:
  assumes "link_failure e i d previous l = None"
  shows "link_failure e i (d\<lparr>ad_events := ad_events d @ evs, ad_links := ls\<rparr>) previous l = None"
  using assms by (auto simp: link_failure_def find_row_append key_for_def Let_def split: option.splits)

lemma check_links_more:
  "fst (check_links e i d previous seen ks) = None \<Longrightarrow>
     fst (check_links e i (d\<lparr>ad_events := ad_events d @ evs, ad_links := ls\<rparr>) previous seen ks) = None"
proof (induction ks arbitrary: previous seen)
  case (Cons k ks)
  then have "link_failure e i d previous k = None" by (auto split: option.splits)
  then show ?case using Cons link_failure_more by simp
qed simp

text \<open>What the events of a queue need: unique new ids, and the key they name is the signing key's.\<close>

definition queue_ok :: "string \<Rightarrow> audit_db \<Rightarrow> audit_event list \<Rightarrow> bool" where
  "queue_ok pk d ps \<longleftrightarrow> distinct (map ev_id ps) \<and> set (map ev_id ps) \<inter> set (map ev_id (ad_events d)) = {}
     \<and> (\<forall>p \<in> set ps. key_for d (ev_key p) = Some pk)"

definition user_known :: "audit_db \<Rightarrow> audit_event \<Rightarrow> bool" where
  "user_known d p \<longleftrightarrow> (case ev_user p of None \<Rightarrow> True | Some u \<Rightarrow> u \<in> set (ad_users d))"

text \<open>
  What was written: the events as queued, with the time the writer gave them, in queue
  order, and one link for each.
\<close>

definition untimed :: "audit_event \<Rightarrow> audit_event" where
  "untimed ev = ev\<lparr>ev_created := 0\<rparr>"

definition written :: "audit_db \<Rightarrow> audit_db \<Rightarrow> audit_event list \<Rightarrow> bool" where
  "written d d' ps \<longleftrightarrow> (\<exists>evs ls. ad_events d' = ad_events d @ evs \<and> ad_links d' = ad_links d @ ls
     \<and> map untimed evs = map untimed ps \<and> map ln_event ls = map ev_id ps)"

lemma written_none: "written d d []"
  by (simp add: written_def)

lemma written_append:
  assumes "written d d1 ps" "written d1 d2 qs"
  shows "written d d2 (ps @ qs)"
proof -
  obtain es ls fs ms where "ad_events d1 = ad_events d @ es" "ad_links d1 = ad_links d @ ls"
    "map untimed es = map untimed ps" "map ln_event ls = map ev_id ps"
    "ad_events d2 = ad_events d1 @ fs" "ad_links d2 = ad_links d1 @ ms"
    "map untimed fs = map untimed qs" "map ln_event ms = map ev_id qs"
    using assms unfolding written_def by blast
  then show ?thesis unfolding written_def by (intro exI [of _ "es @ fs"] exI [of _ "ls @ ms"]) simp
qed

lemma chain_rows_written:
  "map untimed (map fst (chain_rows e sk clock n h ps)) = map untimed ps
   \<and> map ln_event (map snd (chain_rows e sk clock n h ps)) = map ev_id ps"
  by (induction ps arbitrary: n h) (simp_all add: Let_def untimed_def)

lemma key_for_frame [simp]: "key_for (d\<lparr>ad_events := x, ad_links := y\<rparr>) = key_for d"
  by (rule ext) (simp add: key_for_def split: option.split)

lemma insert_step:
  assumes "\<And>m. e_verify e pk m (e_sign e sk m)" "pk \<noteq> []"
    and "committed s = working s" "audit_inv e i (working s)" "queue_ok pk (working s) (ps @ qs)"
    and "insert_chain_links e sk clock ps s = (s', ok)"
  shows "committed s' = working s' \<and> audit_inv e i (working s') \<and> queue_ok pk (working s') qs
     \<and> ad_users (working s') = ad_users (working s) \<and> ok = list_all (user_known (working s)) ps
     \<and> (\<not> ok \<longrightarrow> s' = s) \<and> (ok \<longrightarrow> written (working s) (working s') ps)"
proof -
  let ?d = "working s"
  obtain n h where c: "chain_head (ad_links ?d) = (n, h)" by fastforce
  note head = chain_head_inv [OF assms(4) c]
  let ?rows = "chain_rows e sk clock n h ps"
  let ?d' = "?d\<lparr>ad_events := ad_events ?d @ map fst ?rows, ad_links := ad_links ?d @ map snd ?rows\<rparr>"
  have new: "distinct (map ev_id ps)" "set (map ev_id ps) \<inter> set (map ev_id (ad_events ?d)) = {}"
    using assms(5) by (auto simp: queue_ok_def)
  have ok: "ok = insertable ?d ps" "s' = (if ok then commit (upd (\<lambda>d. ?d') s) else rollback s)"
    using assms(6) c by (auto simp: insert_chain_links_def upd_def Let_def split: if_splits)
  have ins: "insertable ?d ps = list_all (user_known ?d) ps"
    using new by (auto simp: insertable_def list_all_iff user_known_def)
  show ?thesis
  proof (cases ok)
    case False
    then have "s' = s" using ok(2) assms(3) by (simp add: rollback_def)
    then show ?thesis using False ok(1) ins assms(3-5) by (auto simp: queue_ok_def)
  next
    case True
    have ids: "map ev_id (map fst ?rows) = map ev_id ps" by (rule chain_rows_ids)
    have found: "find_row ev_id (ev_id ev) (ad_events ?d') = Some ev" if "ev \<in> fst ` set ?rows" for ev
    proof -
      have ev: "ev \<in> set (map fst ?rows)" using that by simp
      then have "ev_id ev \<in> set (map ev_id ps)" using ids by (metis image_eqI image_set)
      then have "find_row ev_id (ev_id ev) (ad_events ?d) = None" using new(2) by (auto simp: find_row_None)
      moreover have "find_row ev_id (ev_id ev) (map fst ?rows) = Some ev"
        using find_row_in [of ev_id "map fst ?rows" ev] ev new(1) ids by simp
      ultimately show ?thesis by (simp add: find_row_append)
    qed
    have keys: "key_for ?d' (ev_key p) = Some pk" if "p \<in> set ps" for p
      using assms(5) that by (simp add: queue_ok_def)
    have "fst (check_links e i ?d' h None (map snd ?rows)) = None"
      by (rule chain_rows_verify [OF assms(1,2) keys found])
    moreover have "fst (check_links e i ?d' GENESIS None (ad_links ?d)) = None"
      using assms(4) by (intro check_links_more) (simp add: audit_inv_def verifies_def)
    ultimately have "verifies e i ?d' (ad_links ?d')"
      using head check_links_append [of e i ?d' GENESIS None "ad_links ?d" "map snd ?rows" None] by (simp add: verifies_def)
    moreover have "sorted_wrt (\<lambda>a b. ln_seq a < ln_seq b) (ad_links ?d')"
      using assms(4) chain_rows_seqs [of e sk clock n h ps] head by (fastforce simp: audit_inv_def sorted_wrt_append)
    moreover have "\<forall>l \<in> set (ad_links ?d'). 0 < ln_seq l"
      using assms(4) chain_rows_seqs [of e sk clock n h ps] head by (fastforce simp: audit_inv_def)
    ultimately have "audit_inv e i ?d'" by (simp add: audit_inv_def)
    moreover have "queue_ok pk ?d' qs"
      using assms(5) ids [unfolded map_map] unfolding queue_ok_def by (auto simp flip: set_map)
    moreover have "written ?d ?d' ps"
      unfolding written_def using chain_rows_written [of e sk clock n h ps]
      by (intro exI [of _ "map fst ?rows"] exI [of _ "map snd ?rows"]) simp
    ultimately show ?thesis using True ok ins by simp
  qed
qed

text \<open>The contract of a run of appends: the chain stays sound, the results say who was written.\<close>

definition appended :: "audit_env \<Rightarrow> identity \<Rightarrow> string \<Rightarrow> audit_db session \<Rightarrow> audit_event list \<Rightarrow> audit_db session \<times> bool list \<Rightarrow> bool" where
  "appended e i pk s ps r \<longleftrightarrow> committed (fst r) = working (fst r) \<and> audit_inv e i (working (fst r))
     \<and> (\<forall>qs. queue_ok pk (working s) (ps @ qs) \<longrightarrow> queue_ok pk (working (fst r)) qs)
     \<and> ad_users (working (fst r)) = ad_users (working s) \<and> snd r = map (user_known (working s)) ps
     \<and> written (working s) (working (fst r)) (filter (user_known (working s)) ps)"

lemma appended_append:
  assumes "appended e i pk s ps (s1, oks)" "appended e i pk s1 ps' (s2, oks')"
  shows "appended e i pk s (ps @ ps') (s2, oks @ oks')"
proof -
  have "ad_users (working s1) = ad_users (working s)" using assms(1) by (simp add: appended_def)
  then have "user_known (working s1) = user_known (working s)"
    by (simp add: fun_eq_iff user_known_def split: option.split)
  then show ?thesis using assms written_append by (auto simp: appended_def)
qed

lemma queue_ok_prefix: "queue_ok pk d (ps @ qs) \<Longrightarrow> queue_ok pk d ps"
  by (auto simp: queue_ok_def)

lemma queue_ok_append: "queue_ok pk d (ps @ qs @ rs) \<Longrightarrow> queue_ok pk d (ps @ qs)"
  using queue_ok_prefix [of pk d "ps @ qs" rs] by simp

lemma insert_appended:
  assumes "\<And>m. e_verify e pk m (e_sign e sk m)" "pk \<noteq> []"
    and "committed s = working s" "audit_inv e i (working s)" "queue_ok pk (working s) ps"
    and "insert_chain_links e sk clock ps s = (s', ok)" "ok \<or> length ps = 1"
  shows "appended e i pk s ps (s', map (\<lambda>p. ok) ps)"
proof -
  have st: "committed s' = working s' \<and> audit_inv e i (working s') \<and> ad_users (working s') = ad_users (working s)
      \<and> ok = list_all (user_known (working s)) ps \<and> (\<not> ok \<longrightarrow> s' = s) \<and> (ok \<longrightarrow> written (working s) (working s') ps)"
    using insert_step [OF assms(1-4) _ assms(6), of "[]"] assms(5) by simp
  have "map (\<lambda>p. ok) ps = map (user_known (working s)) ps
    \<and> written (working s) (working s') (filter (user_known (working s)) ps)"
  proof (cases ok)
    case False
    then obtain p where "ps = [p]" using assms(7) by (auto simp: length_Suc_conv)
    then show ?thesis using st False written_none by simp
  next
    case True
    then have "filter (user_known (working s)) ps = ps" using st by (simp add: list_all_iff filter_id_conv)
    then show ?thesis using st True by (simp add: list_all_iff)
  qed
  moreover have "queue_ok pk (working s') qs" if "queue_ok pk (working s) (ps @ qs)" for qs
    using insert_step [OF assms(1-4) that assms(6)] by simp
  ultimately show ?thesis using st by (simp add: appended_def)
qed

lemma singly_appended:
  assumes "\<And>m. e_verify e pk m (e_sign e sk m)" "pk \<noteq> []"
    and "committed s = working s" "audit_inv e i (working s)" "queue_ok pk (working s) ps"
  shows "appended e i pk s ps (write_singly e sk clock ps s)"
  using assms(3-)
proof (induction ps arbitrary: s)
  case Nil
  then show ?case by (simp add: appended_def written_none)
next
  case (Cons p ps)
  obtain s1 ok where 1: "insert_chain_links e sk clock [p] s = (s1, ok)" by fastforce
  have q: "queue_ok pk (working s) [p]" using Cons.prems(3) queue_ok_prefix [of pk _ "[p]" ps] by simp
  have a: "appended e i pk s [p] (s1, [ok])"
    using insert_appended [OF assms(1,2) Cons.prems(1,2) q 1] by simp
  then have "appended e i pk s1 ps (write_singly e sk clock ps s1)"
    using Cons.prems(3) by (intro Cons.IH) (auto simp: appended_def)
  then show ?case using appended_append [OF a, of ps] 1 by (cases "write_singly e sk clock ps s1") simp
qed

lemma batch_appended:
  assumes "\<And>m. e_verify e pk m (e_sign e sk m)" "pk \<noteq> []"
    and "committed s = working s" "audit_inv e i (working s)" "queue_ok pk (working s) ps"
  shows "appended e i pk s ps (write_chain_batch e sk clock clock2 ps s)"
proof -
  obtain s1 ok where 1: "insert_chain_links e sk clock ps s = (s1, ok)" by fastforce
  have "\<not> ok \<longrightarrow> s1 = s" using insert_step [OF assms(1-4) _ 1, of "[]"] assms(5) by simp
  then show ?thesis
    using 1 insert_appended [OF assms 1] singly_appended [OF assms, of clock2]
    by (cases ok) (auto simp: write_chain_batch_def length_Suc_conv)
qed

lemma drain_appended:
  assumes "\<And>m. e_verify e pk m (e_sign e sk m)" "pk \<noteq> []"
    and "committed s = working s" "audit_inv e i (working s)" "queue_ok pk (working s) queue"
  shows "appended e i pk s queue (drain e sk clock clock2 queue s)"
  using assms(3-)
proof (induction "length queue" arbitrary: queue s rule: less_induct)
  case less
  show ?case
  proof (cases "queue = []")
    case True
    then show ?thesis using less.prems by (subst drain.simps) (simp add: appended_def written_none)
  next
    case False
    let ?ps = "take AUDIT_BATCH_MAX queue" and ?qs = "drop AUDIT_BATCH_MAX queue"
    obtain s1 oks where 1: "write_chain_batch e sk clock clock2 ?ps s = (s1, oks)" by fastforce
    have q: "queue_ok pk (working s) (?ps @ ?qs)" using less.prems(3) by simp
    have a: "appended e i pk s ?ps (s1, oks)"
      using batch_appended [OF assms(1,2) less.prems(1,2) queue_ok_prefix [OF q], of clock clock2] 1 by simp
    have "length ?qs < length queue" using False by (simp add: AUDIT_BATCH_MAX_def)
    then have "appended e i pk s1 ?qs (drain e sk clock clock2 ?qs s1)"
      using a q by (intro less.hyps) (auto simp: appended_def)
    then show ?thesis using appended_append [OF a, of ?qs] 1 False
      by (subst drain.simps) (cases "drain e sk clock clock2 ?qs s1", simp add: Let_def)
  qed
qed

text \<open>
  C16: the audit chain stays verifiable. While the server's key is the one the queued
  events name, writing any queue of appends, in batches and with any of them failing,
  leaves a chain every link of which verifies, whatever times the clocks give.
\<close>

theorem appends_keep_chain_valid:
  assumes "\<And>m. e_verify e pk m (e_sign e sk m)" "pk \<noteq> []"
    and "committed s = working s" "audit_inv e i (working s)" "queue_ok pk (working s) queue"
  shows "verify_audit_chain e i v (committed (fst (drain e sk clock clock2 queue s)))"
  using drain_appended [OF assms, of clock clock2] audit_inv_verifies by (simp add: appended_def)

text \<open>
  C17: one bad append fails only its own caller. Of a queue of events, exactly those of
  unknown users are refused, each told so. Every other one is in the database when the
  queue has been drained, whichever batch it shared with them: the committed events are
  the old ones followed by exactly the accepted ones, as they were queued up to their
  time, once each and in queue order, and the chain got exactly one link for each.
\<close>

theorem bad_append_fails_alone:
  assumes "\<And>m. e_verify e pk m (e_sign e sk m)" "pk \<noteq> []"
    and "committed s = working s" "audit_inv e i (working s)" "queue_ok pk (working s) queue"
    and "drain e sk clock clock2 queue s = (s', answers)"
  shows "answers = map (user_known (committed s)) queue
    \<and> (\<exists>evs ls. ad_events (committed s') = ad_events (committed s) @ evs
         \<and> ad_links (committed s') = ad_links (committed s) @ ls
         \<and> map untimed evs = map untimed (filter (user_known (committed s)) queue)
         \<and> map ln_event ls = map ev_id evs)"
proof -
  have ap: "appended e i pk s queue (s', answers)" using drain_appended [OF assms(1-5), of clock clock2] assms(6) by simp
  then obtain evs ls where w: "ad_events (working s') = ad_events (working s) @ evs"
    "ad_links (working s') = ad_links (working s) @ ls"
    "map untimed evs = map untimed (filter (user_known (working s)) queue)"
    "map ln_event ls = map ev_id (filter (user_known (working s)) queue)"
    by (auto simp: appended_def written_def)
  have "map ev_id evs = map ev_id (map untimed evs)" by (simp add: untimed_def)
  also have "\<dots> = map ev_id (filter (user_known (working s)) queue)" unfolding w(3) by (simp add: untimed_def)
  finally show ?thesis using ap w assms(3) by (auto simp: appended_def)
qed

definition demo_audit_env :: audit_env where
  "demo_audit_env = \<lparr>e_sha = (\<lambda>t. replicate 64 (CHR ''a'')), e_float = (\<lambda>x. []), e_iso = (\<lambda>t. ''t''), e_legacy = (\<lambda>t. []),
     e_sign = (\<lambda>sk m. sk @ m), e_verify = (\<lambda>pk m sig. sig = pk @ m)\<rparr>"

definition demo_identity :: identity where
  "demo_identity = \<lparr>i_pk = Some ''k'', i_sk = Some ''k'', i_created = 0, i_key = Some ''k1'', i_fingerprint = Some ''f'',
     i_registered = True\<rparr>"

definition demo_audit_db :: audit_db where
  "demo_audit_db = \<lparr>ad_keys = [\<lparr>sk_id = ''k1'', sk_public = ''k'', sk_fingerprint = ''f'', sk_status = KeyActive,
     sk_created = 0, sk_activated = 0, sk_retired = None\<rparr>], ad_events = [], ad_links = [], ad_users = [''u'']\<rparr>"

definition demo_event :: "string \<Rightarrow> string \<Rightarrow> audit_event" where
  "demo_event i u = \<lparr>ev_id = i, ev_user = Some u, ev_action = ''login'', ev_rtype = None, ev_rid = None,
     ev_metadata = JObj [], ev_signature = ''s'', ev_key = Some ''k1'', ev_created = 0\<rparr>"

lemma demo_audit:
  "e_verify demo_audit_env ''k'' m (e_sign demo_audit_env ''k'' m)" "committed (fresh_session demo_audit_db) = working (fresh_session demo_audit_db)"
  "audit_inv demo_audit_env demo_identity (working (fresh_session demo_audit_db))"
  "queue_ok ''k'' (working (fresh_session demo_audit_db)) [demo_event ''e1'' ''u'', demo_event ''e2'' ''x'', demo_event ''e3'' ''u'']"
  by (simp_all add: demo_audit_env_def audit_inv_def demo_audit_db_def verifies_def queue_ok_def demo_event_def key_for_def
      find_row_def)

theorem appends_keep_chain_valid_witness:
  "verify_audit_chain demo_audit_env demo_identity \<lparr>vs_head = None, vs_full_at = None, vs_generation = 0\<rparr>
     (committed (fst (drain demo_audit_env ''k'' (\<lambda>i. 1) (\<lambda>i. 2)
        [demo_event ''e1'' ''u'', demo_event ''e2'' ''x'', demo_event ''e3'' ''u''] (fresh_session demo_audit_db))))"
  by (rule appends_keep_chain_valid [OF demo_audit(1) _ demo_audit(2-4)]) simp

theorem bad_append_fails_alone_witness:
  "let queue = [demo_event ''e1'' ''u'', demo_event ''e2'' ''x'', demo_event ''e3'' ''u''];
       (s', answers) = drain demo_audit_env ''k'' (\<lambda>i. 1) (\<lambda>i. 2) queue (fresh_session demo_audit_db)
   in answers = [True, False, True] \<and> map ev_id (ad_events (committed s')) = [''e1'', ''e3'']
    \<and> map ln_event (ad_links (committed s')) = [''e1'', ''e3'']"
proof -
  let ?queue = "[demo_event ''e1'' ''u'', demo_event ''e2'' ''x'', demo_event ''e3'' ''u'']"
  obtain s' answers where r: "drain demo_audit_env ''k'' (\<lambda>i. 1) (\<lambda>i. 2) ?queue (fresh_session demo_audit_db) = (s', answers)"
    by fastforce
  obtain evs ls where "answers = [True, False, True]" "ad_events (committed s') = evs" "ad_links (committed s') = ls"
    "map untimed evs = map untimed [demo_event ''e1'' ''u'', demo_event ''e3'' ''u'']" "map ln_event ls = map ev_id evs"
    using bad_append_fails_alone [OF demo_audit(1) _ demo_audit(2-4) r]
    by (auto simp: user_known_def demo_event_def demo_audit_db_def)
  moreover have "map ev_id evs = map ev_id (map untimed evs)" by (simp add: untimed_def)
  ultimately have "answers = [True, False, True]" "map ev_id (ad_events (committed s')) = [''e1'', ''e3'']"
    "map ln_event (ad_links (committed s')) = [''e1'', ''e3'']" by (simp_all add: untimed_def demo_event_def)
  then show ?thesis unfolding Let_def r by simp
qed

definition demo_link :: chain_link where
  "demo_link = \<lparr>ln_seq = 1, ln_event = ''e1'', ln_previous = GENESIS, ln_hash = replicate 64 (CHR ''a''),
     ln_checkpoint = CHR ''k'' # replicate 64 (CHR ''a''), ln_key = Some ''k1''\<rparr>"

definition demo_chain_db :: audit_db where
  "demo_chain_db = demo_audit_db\<lparr>ad_events := [demo_event ''e1'' ''u''], ad_links := [demo_link]\<rparr>"

theorem newest_link_fixes_history_witness:
  "let d = demo_chain_db; d' = demo_chain_db\<lparr>ad_users := [''u'', ''v'']\<rparr> in
     chain_of d = [demo_link]
     \<and> map (link_text demo_audit_env d) (chain_of d) = map (link_text demo_audit_env d') (chain_of d')"
proof -
  let ?v = "\<lparr>vs_head = None, vs_full_at = None, vs_generation = 0\<rparr>"
  let ?d = "demo_chain_db" and ?d' = "demo_chain_db\<lparr>ad_users := [''u'', ''v'']\<rparr>"
  have c: "chain_of ?d = [demo_link]" "chain_of ?d' = [demo_link]"
    by (simp_all add: chain_of_def demo_chain_db_def demo_audit_db_def demo_link_def)
  have inv: "audit_inv demo_audit_env demo_identity ?d" "audit_inv demo_audit_env demo_identity ?d'"
    by (simp_all add: audit_inv_def demo_chain_db_def demo_audit_db_def demo_link_def verifies_def link_failure_def
        demo_audit_env_def demo_event_def demo_identity_def find_row_def key_for_def chain_hash_def)
  have same: "link_text demo_audit_env ?d = link_text demo_audit_env ?d'"
    by (simp add: fun_eq_iff link_text_def demo_chain_db_def)
  have "hash_sound demo_audit_env (link_text demo_audit_env ?d ` set (chain_of ?d) \<union> link_text demo_audit_env ?d' ` set (chain_of ?d'))"
    unfolding c same by (simp add: hash_sound_def demo_audit_env_def GENESIS_def)
  moreover have "hex64 (e_sha demo_audit_env t)" for t by (simp add: demo_audit_env_def hex64_def)
  ultimately show ?thesis unfolding Let_def using c inv audit_inv_verifies
    by (metis newest_link_fixes_history)
qed

text \<open>
  A key rotation between signing an event and chaining it breaks the chain. The
  queued event names the old key, its link is signed with the new one, and from then on
  the chain does not verify: the old key rejects the new key's signature.
\<close>

theorem rotation_before_append_breaks_chain:
  assumes "\<And>m. \<not> e_verify e old_pk m (e_sign e new_sk m)" "old_pk \<noteq> []"
    and "ad_links (working s) = []" "queue_ok old_pk (working s) [p]" "user_known (working s) p"
  shows "\<not> verify_audit_chain e i v (committed (fst (insert_chain_links e new_sk clock [p] s)))"
proof -
  have fresh: "ev_id p \<notin> ev_id ` set (ad_events (working s))" and key: "key_for (working s) (ev_key p) = Some old_pk"
    using assms(4) by (auto simp: queue_ok_def)
  have ins: "insertable (working s) [p]"
    using fresh assms(5) by (auto simp: insertable_def user_known_def)
  let ?ev = "p\<lparr>ev_created := clock (ev_id p)\<rparr>"
  let ?d = "committed (fst (insert_chain_links e new_sk clock [p] s))"
  let ?h = "chain_hash (e_sha e) (e_float e) (ev_id p) (e_iso e (clock (ev_id p))) (payload_of ?ev) GENESIS"
  let ?l = "\<lparr>ln_seq = 1, ln_event = ev_id p, ln_previous = GENESIS, ln_hash = ?h,
      ln_checkpoint = e_sign e new_sk ?h, ln_key = ev_key p\<rparr>"
  have d: "?d = (working s)\<lparr>ad_events := ad_events (working s) @ [?ev], ad_links := [?l]\<rparr>"
    using ins assms(3) by (simp add: insert_chain_links_def chain_head_def Let_def)
  have "find_row ev_id (ev_id p) (ad_events (working s)) = None" using fresh by (simp add: find_row_None)
  then have "find_row ev_id (ev_id p) (ad_events ?d) = Some ?ev" by (simp add: d find_row_append) (simp add: find_row_def)
  moreover have "key_for ?d (ev_key p) = Some old_pk" using key by (simp add: d)
  ultimately have "link_failure e i ?d GENESIS ?l = Some BadCheckpoint"
    using assms(1,2) by (simp add: link_failure_def)
  moreover have "sort_key ln_seq (filter (\<lambda>l. 0 < ln_seq l) (ad_links ?d)) = [?l]" by (simp add: d)
  ultimately show ?thesis unfolding verify_audit_chain_def check_chain_full by (simp add: verifies_def)
qed

theorem rotation_before_append_breaks_chain_witness:
  "\<not> verify_audit_chain demo_audit_env demo_identity \<lparr>vs_head = None, vs_full_at = None, vs_generation = 0\<rparr>
     (committed (fst (insert_chain_links demo_audit_env ''n'' (\<lambda>i. 1) [demo_event ''e1'' ''u''] (fresh_session demo_audit_db))))"
  by (rule rotation_before_append_breaks_chain [where old_pk = "''k''"])
    (simp_all add: demo_audit_env_def demo_audit_db_def queue_ok_def demo_event_def key_for_def find_row_def user_known_def)

end
