(* ===== verification/Message_Protocol.thy ===== *)
theory Message_Protocol
  imports Prelude
begin

text \<open>
  \<^verbatim>\<open>src/backend/crypto/message_protocol.py\<close>: one endpoint of an AEAD session. AES-GCM
  and HKDF are arguments; byte strings are character lists; the set of seen
  sequence numbers is a list without repetitions. The base64 wire form
  (\<^verbatim>\<open>to_dict\<close>/\<^verbatim>\<open>from_dict\<close>) is not modelled.
\<close>

type_synonym bytes = string

record aead =
  seal :: "bytes \<Rightarrow> bytes \<Rightarrow> bytes \<Rightarrow> bytes \<Rightarrow> bytes"
  unseal :: "bytes \<Rightarrow> bytes \<Rightarrow> bytes \<Rightarrow> bytes \<Rightarrow> bytes option"

record envelope =
  env_session :: string
  env_seq :: int
  env_nonce :: bytes
  env_ciphertext :: bytes

record aead_session =
  sess_id :: string
  enc_key :: bytes
  send_seq :: int
  seen_seqs :: "int list"
  max_seen_seq :: int

datatype aead_error = ReplayError | AuthenticationError | StructError

definition open_session :: "(bytes \<Rightarrow> bytes) \<Rightarrow> string \<Rightarrow> bytes \<Rightarrow> aead_session option" where
  "open_session hkdf i session_key =
     (if length session_key < 32 then None
      else Some \<lparr>sess_id = i, enc_key = hkdf session_key, send_seq = 0, seen_seqs = [], max_seen_seq = - 1\<rparr>)"

text \<open>\<^verbatim>\<open>struct.pack(">Q", seq)\<close>: eight bytes, an error outside the range of the format.\<close>

definition pack_u64 :: "int \<Rightarrow> bytes option" where
  "pack_u64 n = (if 0 \<le> n \<and> n < 2 ^ 64
     then Some (map (\<lambda>i. char_of (nat (n div 256 ^ i) mod 256)) [7, 6, 5, 4, 3, 2, 1, 0]) else None)"

definition build_aad :: "string \<Rightarrow> int \<Rightarrow> bytes option" where
  "build_aad i seq = map_option (\<lambda>b. i @ b) (pack_u64 seq)"

definition encrypt :: "aead \<Rightarrow> bytes \<Rightarrow> aead_session \<Rightarrow> bytes \<Rightarrow> aead_session \<times> (aead_error + envelope)" where
  "encrypt A nonce s plaintext =
     (let seq = send_seq s; s1 = s\<lparr>send_seq := seq + 1\<rparr>
      in case build_aad (sess_id s) seq of
           None \<Rightarrow> (s1, Inl StructError)
         | Some aad \<Rightarrow> (s1, Inr \<lparr>env_session = sess_id s, env_seq = seq, env_nonce = nonce,
                               env_ciphertext = seal A (enc_key s) nonce plaintext aad\<rparr>))"

definition WINDOW :: int where "WINDOW = 1000"
definition SEEN_LIMIT :: nat where "SEEN_LIMIT = 2000"

definition note_seen :: "int \<Rightarrow> aead_session \<Rightarrow> aead_session" where
  "note_seen seq s =
     (let seen = (if seq \<in> set (seen_seqs s) then seen_seqs s else seq # seen_seqs s);
          m = (if max_seen_seq s < seq then seq else max_seen_seq s)
      in s\<lparr>max_seen_seq := m,
           seen_seqs := (if SEEN_LIMIT < length seen then filter (\<lambda>q. m - WINDOW \<le> q) seen else seen)\<rparr>)"

definition decrypt :: "aead \<Rightarrow> aead_session \<Rightarrow> envelope \<Rightarrow> aead_session \<times> (aead_error + bytes)" where
  "decrypt A s e =
     (let seq = env_seq e in
      if seq \<in> set (seen_seqs s) then (s, Inl ReplayError)
      else if seq < max_seen_seq s - WINDOW then (s, Inl ReplayError)
      else case build_aad (sess_id s) seq of
             None \<Rightarrow> (s, Inl StructError)
           | Some aad \<Rightarrow>
               (case unseal A (enc_key s) (env_nonce e) (env_ciphertext e) aad of
                  None \<Rightarrow> (s, Inl AuthenticationError)
                | Some plaintext \<Rightarrow> (note_seen seq s, Inr plaintext)))"

definition check_gap :: "aead_session \<Rightarrow> int \<Rightarrow> int list" where
  "check_gap s received =
     (if max_seen_seq s < 0 then []
      else filter (\<lambda>q. q \<notin> set (seen_seqs s)) [max_seen_seq s + 1 .. received - 1])"

section \<open>Invariant\<close>

definition session_inv :: "aead_session \<Rightarrow> bool" where
  "session_inv s \<longleftrightarrow> distinct (seen_seqs s) \<and> length (seen_seqs s) \<le> SEEN_LIMIT
     \<and> (\<forall>q \<in> set (seen_seqs s). q \<le> max_seen_seq s)"

definition spent :: "int \<Rightarrow> aead_session \<Rightarrow> bool" where
  "spent q s \<longleftrightarrow> q \<in> set (seen_seqs s) \<or> q < max_seen_seq s - WINDOW"

lemma window_length:
  assumes "distinct qs" "\<And>q. q \<in> set qs \<Longrightarrow> m - WINDOW \<le> q \<and> q \<le> m"
  shows "length qs \<le> 1001"
proof -
  have "set qs \<subseteq> {m - WINDOW .. m}" using assms(2) by auto
  then have "card (set qs) \<le> card {m - WINDOW .. m}" by (intro card_mono) auto
  then show ?thesis using assms(1) by (simp add: distinct_card WINDOW_def)
qed

lemma note_seen_inv:
  assumes "session_inv s"
  shows "session_inv (note_seen q s)"
proof -
  let ?seen = "if q \<in> set (seen_seqs s) then seen_seqs s else q # seen_seqs s"
  let ?m = "if max_seen_seq s < q then q else max_seen_seq s"
  have d: "distinct ?seen" and le: "\<And>x. x \<in> set ?seen \<Longrightarrow> x \<le> ?m"
    using assms by (auto simp: session_inv_def split: if_splits)
  have "length (filter (\<lambda>x. ?m - WINDOW \<le> x) ?seen) \<le> 1001"
    by (rule window_length) (use d le in auto)
  then show ?thesis using d le by (auto simp: session_inv_def note_seen_def Let_def SEEN_LIMIT_def)
qed

lemma note_seen_spent: "spent x s \<or> x = q \<Longrightarrow> spent x (note_seen q s)"
  by (auto simp: spent_def note_seen_def Let_def)

lemma decrypt_cases:
  assumes "decrypt A s e = (s', r)"
  shows "(s' = s \<and> (\<exists>x. r = Inl x)) \<or>
    (\<not> spent (env_seq e) s \<and> s' = note_seen (env_seq e) s \<and> (\<exists>p. r = Inr p))"
  using assms by (auto simp: decrypt_def spent_def Let_def split: if_splits option.splits)

lemma decrypt_inv: "session_inv s \<Longrightarrow> session_inv (fst (decrypt A s e))"
  using decrypt_cases [of A s e] note_seen_inv [of s] by (cases "decrypt A s e") auto

lemma decrypt_spent: "spent q s \<Longrightarrow> spent q (fst (decrypt A s e))"
  using decrypt_cases [of A s e] note_seen_spent [of q s] by (cases "decrypt A s e") auto

datatype aead_op = Send bytes bytes | Receive envelope

fun aead_step :: "aead \<Rightarrow> aead_op \<Rightarrow> aead_session \<Rightarrow> aead_session" where
  "aead_step A (Send nonce p) s = fst (encrypt A nonce s p)"
| "aead_step A (Receive e) s = fst (decrypt A s e)"

lemma encrypt_frame [simp]:
  "seen_seqs (fst (encrypt A n s p)) = seen_seqs s" "max_seen_seq (fst (encrypt A n s p)) = max_seen_seq s"
  "sess_id (fst (encrypt A n s p)) = sess_id s" "enc_key (fst (encrypt A n s p)) = enc_key s"
  "send_seq (fst (encrypt A n s p)) = send_seq s + 1"
  by (auto simp: encrypt_def Let_def split: option.splits)

interpretation channel: sealed_machine "aead_step A" session_inv "\<lambda>_ _. True" spent for A
proof
  fix s p assume "session_inv s"
  then show "session_inv (aead_step A p s)" 
    by (cases p) (simp_all add: decrypt_inv, simp add: session_inv_def)
next
  fix s p q assume "spent q s"
  then show "spent q (aead_step A p s)" 
    by (cases p) (simp_all add: decrypt_spent, simp add: spent_def)
qed

section \<open>Properties\<close>

text \<open>
  C8: a sequence number is accepted at most once in the life of a session. When
  \<open>decrypt\<close> has returned a plaintext for it, then after any further traffic in
  both directions, however long, every envelope with that number is refused as a
  replay and leaves the session unchanged, although the endpoint remembers at most
  2000 numbers.
\<close>

theorem no_sequence_accepted_twice:
  assumes "session_inv s" "decrypt A s e = (s1, Inr p)"
    and "s2 = fold (aead_step A) ops s1" "env_seq e' = env_seq e"
  shows "decrypt A s2 e' = (s2, Inl ReplayError) \<and> length (seen_seqs s2) \<le> SEEN_LIMIT"
proof -
  have s1: "s1 = note_seen (env_seq e) s" using decrypt_cases [OF assms(2)] by auto
  have "spent (env_seq e) s1" unfolding s1 by (rule note_seen_spent) simp
  moreover have "session_inv s1" unfolding s1 using assms(1) by (rule note_seen_inv)
  ultimately have "spent (env_seq e) s2" "session_inv s2"
    unfolding assms(3) by (auto intro: channel.sealed_run channel.inv_run admissible_True)
  then show ?thesis using assms(4) by (auto simp: decrypt_def spent_def session_inv_def Let_def)
qed

definition plain_aead :: aead where
  "plain_aead = \<lparr>seal = (\<lambda>k n p a. p), unseal = (\<lambda>k n c a. Some c)\<rparr>"

definition demo_channel :: aead_session where
  "demo_channel = \<lparr>sess_id = ''s'', enc_key = ''k'', send_seq = 0, seen_seqs = [], max_seen_seq = - 1\<rparr>"

definition demo_envelope :: "int \<Rightarrow> envelope" where
  "demo_envelope q = \<lparr>env_session = ''s'', env_seq = q, env_nonce = ''n'', env_ciphertext = ''hi''\<rparr>"

theorem no_sequence_accepted_twice_witness:
  "\<exists>s1. decrypt plain_aead demo_channel (demo_envelope 5) = (s1, Inr ''hi'')
     \<and> snd (decrypt plain_aead s1 (demo_envelope 5)) = Inl ReplayError"
proof -
  have "session_inv demo_channel" by (simp add: session_inv_def demo_channel_def SEEN_LIMIT_def)
  moreover have d: "decrypt plain_aead demo_channel (demo_envelope 5) = (note_seen 5 demo_channel, Inr ''hi'')"
    by (simp add: decrypt_def demo_channel_def demo_envelope_def plain_aead_def build_aad_def pack_u64_def WINDOW_def)
  ultimately have "decrypt plain_aead (note_seen 5 demo_channel) (demo_envelope 5) =
      (note_seen 5 demo_channel, Inl ReplayError)"
    using no_sequence_accepted_twice [where ops = "[]" and A = plain_aead and s = demo_channel
        and e = "demo_envelope 5" and e' = "demo_envelope 5"] by simp
  then show ?thesis using d by (intro exI [of _ "note_seen 5 demo_channel"]) simp
qed

text \<open>Sending a list of messages, with the nonce drawn for each, and receiving a list of envelopes.\<close>

fun send_all :: "aead \<Rightarrow> (bytes \<times> bytes) list \<Rightarrow> aead_session \<Rightarrow> (aead_error + envelope) list" where
  "send_all A [] s = []"
| "send_all A ((n, p) # ms) s = (let (s1, r) = encrypt A n s p in r # send_all A ms s1)"

fun receive_all :: "aead \<Rightarrow> (aead_error + envelope) list \<Rightarrow> aead_session \<Rightarrow> (aead_error + bytes) list" where
  "receive_all A [] s = []"
| "receive_all A (Inl x # es) s = Inl x # receive_all A es s"
| "receive_all A (Inr e # es) s = (let (s1, r) = decrypt A s e in r # receive_all A es s1)"

lemma stream:
  assumes "\<And>k n p a. unseal A k n (seal A k n p a) a = Some p"
    and "sess_id r = sess_id s" "enc_key r = enc_key s"
    and "\<And>q. q \<in> set (seen_seqs r) \<Longrightarrow> q < send_seq s" "max_seen_seq r < send_seq s"
    and "0 \<le> send_seq s" "send_seq s + int (length ms) \<le> 2 ^ 64"
  shows "receive_all A (send_all A ms s) r = map (\<lambda>m. Inr (snd m)) ms"
  using assms(2-)
proof (induction ms arbitrary: s r)
  case (Cons m ms)
  obtain n p where m: "m = (n, p)" by fastforce
  obtain b where b: "pack_u64 (send_seq s) = Some b" using Cons.prems by (auto simp: pack_u64_def)
  define e where "e = \<lparr>env_session = sess_id s, env_seq = send_seq s, env_nonce = n,
      env_ciphertext = seal A (enc_key s) n p (sess_id s @ b)\<rparr>"
  have enc: "encrypt A n s p = (s\<lparr>send_seq := send_seq s + 1\<rparr>, Inr e)"
    using b by (simp add: encrypt_def build_aad_def e_def Let_def)
  have "send_seq s \<notin> set (seen_seqs r)" using Cons.prems(3) by fastforce
  then have dec: "decrypt A r e = (note_seen (send_seq s) r, Inr p)"
    using Cons.prems b assms(1) by (simp add: decrypt_def build_aad_def e_def Let_def WINDOW_def)
  have "receive_all A (send_all A ms (s\<lparr>send_seq := send_seq s + 1\<rparr>)) (note_seen (send_seq s) r) =
      map (\<lambda>m. Inr (snd m)) ms"
  proof (rule Cons.IH)
    fix q assume "q \<in> set (seen_seqs (note_seen (send_seq s) r))"
    then show "q < send_seq (s\<lparr>send_seq := send_seq s + 1\<rparr>)"
      using Cons.prems(3) by (fastforce simp: note_seen_def Let_def split: if_splits)
  qed (use Cons.prems in \<open>auto simp: note_seen_def Let_def\<close>)
  then show ?case using enc dec by (simp add: m)
qed simp

text \<open>
  Encryption round-trips. Two endpoints opened with the same session key
  exchange any sequence of messages (fewer than \<open>2^64\<close>): received in the order
  sent, every one is accepted and decrypts to what was encrypted, provided the
  AEAD opens what it sealed under the same key, nonce and associated data.
\<close>

theorem stream_roundtrip:
  assumes "\<And>k n p a. unseal A k n (seal A k n p a) a = Some p"
    and "open_session hkdf i key = Some s" "open_session hkdf i key = Some r" "length ms \<le> 2 ^ 64"
  shows "receive_all A (send_all A ms s) r = map (\<lambda>m. Inr (snd m)) ms"
proof -
  have "send_seq s = 0" "sess_id r = sess_id s" "enc_key r = enc_key s" "seen_seqs r = []" "max_seen_seq r = - 1"
    using assms(2,3) by (auto simp: open_session_def split: if_splits)
  moreover have "int (length ms) \<le> 2 ^ 64" using assms(4) by (metis of_nat_le_iff of_nat_numeral of_nat_power)
  ultimately show ?thesis using assms(1) by (intro stream) auto
qed

theorem stream_roundtrip_witness:
  "\<exists>s. open_session (\<lambda>k. k) ''s'' (replicate 32 CHR ''k'') = Some s \<and>
     receive_all plain_aead (send_all plain_aead [(''n1'', ''a''), (''n2'', ''b'')] s) s = [Inr ''a'', Inr ''b'']"
proof -
  obtain s where s: "open_session (\<lambda>k. k) ''s'' (replicate 32 CHR ''k'') = Some s"
    by (simp add: open_session_def)
  have "\<And>k n p a. unseal plain_aead k n (seal plain_aead k n p a) a = Some p" by (simp add: plain_aead_def)
  from stream_roundtrip [OF this s s, of "[(''n1'', ''a''), (''n2'', ''b'')]"] s show ?thesis by simp
qed

text \<open>
  Tampering is caught: an endpoint that accepts an envelope has opened it
  under its own session id and that sequence number as associated data, and a
  refused envelope leaves the endpoint as it was.
\<close>

theorem accepted_envelope_is_authentic:
  assumes "decrypt A s e = (s', r)"
  shows "(case r of
      Inr p \<Rightarrow> \<exists>b. pack_u64 (env_seq e) = Some b
        \<and> unseal A (enc_key s) (env_nonce e) (env_ciphertext e) (sess_id s @ b) = Some p
    | Inl _ \<Rightarrow> s' = s)"
  using assms by (auto simp: decrypt_def build_aad_def Let_def split: if_splits option.splits)

theorem accepted_envelope_is_authentic_witness:
  "snd (decrypt (plain_aead\<lparr>unseal := (\<lambda>k n c a. None)\<rparr>) demo_channel (demo_envelope 5)) = Inl AuthenticationError
   \<and> fst (decrypt (plain_aead\<lparr>unseal := (\<lambda>k n c a. None)\<rparr>) demo_channel (demo_envelope 5)) = demo_channel"
proof -
  let ?A = "plain_aead\<lparr>unseal := (\<lambda>k n c a. None)\<rparr>"
  have "snd (decrypt ?A demo_channel (demo_envelope 5)) = Inl AuthenticationError"
    by (simp add: decrypt_def demo_channel_def demo_envelope_def build_aad_def pack_u64_def WINDOW_def)
  then show ?thesis
    using accepted_envelope_is_authentic [of ?A demo_channel "demo_envelope 5", OF surjective_pairing] by simp
qed

end
