(* ===== verification/Redis_Store.thy ===== *)
theory Redis_Store
  imports Json_Values
begin

text \<open>
  \<^verbatim>\<open>src/backend/services/redis_store.py\<close>: single-use nonces, keys with a lifetime and
  kill switches, in Redis or in the process's memory. Redis is outside the
  repository: its answer to a call (or its failure) is an argument. Memory is a
  record; \<open>production\<close> is \<^verbatim>\<open>ENVIRONMENT == "production"\<close>; \<open>now0\<close> and \<open>now\<close> are the clock
  reads of the clean-up and of the operation.
\<close>

datatype 'a redis = NoClient | RedisFails | Replies 'a

datatype store_error = RedisRaised | RiskStateUnavailable

record memory =
  mem_kv :: "(string, string \<times> pyfloat option) dict"
  mem_nonces :: "(string, pyfloat) dict"
  mem_kills :: "string list"

definition expired :: "pyfloat \<Rightarrow> pyfloat option \<Rightarrow> bool" where
  "expired now e = (case e of None \<Rightarrow> False | Some t \<Rightarrow> t \<noteq> 0 \<and> t < now)"

definition cleanup_mem :: "pyfloat \<Rightarrow> memory \<Rightarrow> memory" where
  "cleanup_mem now m =
     m\<lparr>mem_kv := filter (\<lambda>(k, v, e). \<not> expired now e) (mem_kv m),
       mem_nonces := filter (\<lambda>(k, t). \<not> t < now) (mem_nonces m)\<rparr>"

text \<open>
  \<^verbatim>\<open>run_sync\<close>: \<open>in_time\<close> says that the application's loop is there and finished the call in
  time; no result (\<open>None\<close>) otherwise, and where the call raised.
\<close>

definition run_sync :: "bool \<Rightarrow> 'e + 'a \<Rightarrow> 'a option" where
  "run_sync in_time outcome = (if in_time then (case outcome of Inl _ \<Rightarrow> None | Inr a \<Rightarrow> Some a) else None)"

text \<open>What a call does with Redis's answer, and when it falls through to memory.\<close>

definition with_redis :: "bool \<Rightarrow> 'a redis \<Rightarrow> (memory \<Rightarrow> memory \<times> 'a) \<Rightarrow> memory \<Rightarrow> memory \<times> (store_error + 'a)" where
  "with_redis production r fallback m =
     (case r of
        Replies a \<Rightarrow> (m, Inr a)
      | RedisFails \<Rightarrow> if production then (m, Inl RedisRaised) else (let (m', a) = fallback m in (m', Inr a))
      | NoClient \<Rightarrow> (let (m', a) = fallback m in (m', Inr a)))"

definition mem_set_nx :: "string \<Rightarrow> pyfloat \<Rightarrow> pyfloat \<Rightarrow> pyfloat \<Rightarrow> memory \<Rightarrow> memory \<times> bool" where
  "mem_set_nx key ttl now0 now m =
     (let m1 = cleanup_mem now0 m in
      case dict_get (mem_kv m1) key of
        Some (v, e) \<Rightarrow>
          if (case e of None \<Rightarrow> True | Some t \<Rightarrow> now < t) then (m1, False)
          else (m1\<lparr>mem_kv := dict_set key (''1'', Some (fadd now ttl)) (mem_kv m1)\<rparr>, True)
      | None \<Rightarrow> (m1\<lparr>mem_kv := dict_set key (''1'', Some (fadd now ttl)) (mem_kv m1)\<rparr>, True))"

definition set_nx_ex ::
  "bool \<Rightarrow> bool redis \<Rightarrow> string \<Rightarrow> pyfloat \<Rightarrow> pyfloat \<Rightarrow> pyfloat \<Rightarrow> memory \<Rightarrow> memory \<times> (store_error + bool)" where
  "set_nx_ex production r key ttl now0 now = with_redis production r (mem_set_nx key ttl now0 now)"

definition exists_key :: "bool \<Rightarrow> bool redis \<Rightarrow> string \<Rightarrow> pyfloat \<Rightarrow> memory \<Rightarrow> memory \<times> (store_error + bool)" where
  "exists_key production r key now0 = with_redis production r
     (\<lambda>m. let m1 = cleanup_mem now0 m in (m1, dict_get (mem_kv m1) key \<noteq> None))"

definition mem_set :: "string \<Rightarrow> string \<Rightarrow> pyfloat option \<Rightarrow> pyfloat \<Rightarrow> memory \<Rightarrow> memory \<times> unit" where
  "mem_set key v ttl now m =
     (m\<lparr>mem_kv := dict_set key
          (v, (case ttl of None \<Rightarrow> None | Some t \<Rightarrow> if t = 0 then None else Some (fadd now t))) (mem_kv m)\<rparr>, ())"

definition set_key ::
  "bool \<Rightarrow> unit redis \<Rightarrow> string \<Rightarrow> string \<Rightarrow> pyfloat option \<Rightarrow> pyfloat \<Rightarrow> memory \<Rightarrow> memory \<times> (store_error + unit)" where
  "set_key production r key v ttl now = with_redis production r (mem_set key v ttl now)"

definition get_key ::
  "bool \<Rightarrow> string option redis \<Rightarrow> string \<Rightarrow> pyfloat \<Rightarrow> memory \<Rightarrow> memory \<times> (store_error + string option)" where
  "get_key production r key now0 = with_redis production r
     (\<lambda>m. let m1 = cleanup_mem now0 m in (m1, map_option fst (dict_get (mem_kv m1) key)))"

text \<open>\<^verbatim>\<open>delete_key\<close> swallows every Redis error, in production too.\<close>

definition delete_key :: "unit redis \<Rightarrow> string \<Rightarrow> memory \<Rightarrow> memory" where
  "delete_key r key m =
     (case r of Replies _ \<Rightarrow> m | _ \<Rightarrow> m\<lparr>mem_kv := dict_pop key (mem_kv m)\<rparr>)"

section \<open>Nonces\<close>

definition pqc_nonce_key :: "(string \<Rightarrow> string) \<Rightarrow> string \<Rightarrow> string" where
  "pqc_nonce_key sha nonce = ''qs:pqc:nonce:'' @ sha nonce"

definition order_nonce_key :: "(string \<Rightarrow> string) \<Rightarrow> string \<Rightarrow> string \<Rightarrow> string" where
  "order_nonce_key sha nonce u = ''qs:order:nonce:'' @ sha (u @ '':'' @ nonce)"

definition api_nonce_key :: "(string \<Rightarrow> string) \<Rightarrow> string \<Rightarrow> string \<Rightarrow> string" where
  "api_nonce_key sha key_id nonce = ''qs:api:nonce:'' @ sha (key_id @ '':'' @ nonce)"

definition NONCE_TTL :: pyfloat where "NONCE_TTL = 300"

definition consume_pqc_nonce ::
  "(string \<Rightarrow> string) \<Rightarrow> bool \<Rightarrow> bool redis \<Rightarrow> string \<Rightarrow> pyfloat \<Rightarrow> pyfloat \<Rightarrow> memory \<Rightarrow> memory \<times> (store_error + bool)" where
  "consume_pqc_nonce sha production r nonce = set_nx_ex production r (pqc_nonce_key sha nonce) NONCE_TTL"

definition consume_order_nonce ::
  "(string \<Rightarrow> string) \<Rightarrow> bool \<Rightarrow> bool redis \<Rightarrow> string \<Rightarrow> string \<Rightarrow> pyfloat \<Rightarrow> pyfloat \<Rightarrow> memory
     \<Rightarrow> memory \<times> (store_error + bool)" where
  "consume_order_nonce sha production r nonce u = set_nx_ex production r (order_nonce_key sha nonce u) NONCE_TTL"

definition consume_api_nonce ::
  "(string \<Rightarrow> string) \<Rightarrow> bool \<Rightarrow> bool redis \<Rightarrow> string \<Rightarrow> string \<Rightarrow> pyfloat \<Rightarrow> pyfloat \<Rightarrow> memory
     \<Rightarrow> memory \<times> (store_error + bool)" where
  "consume_api_nonce sha production r key_id nonce = set_nx_ex production r (api_nonce_key sha key_id nonce) NONCE_TTL"

section \<open>Kill switches\<close>

definition kill_key :: "string \<Rightarrow> string option \<Rightarrow> string" where
  "kill_key scope identifier =
     (case identifier of
        Some i \<Rightarrow> if i \<noteq> [] then ''qs:risk:kill:'' @ scope @ '':'' @ i else ''qs:risk:kill:'' @ scope
      | None \<Rightarrow> ''qs:risk:kill:'' @ scope)"

definition store_kill_switch ::
  "bool \<Rightarrow> unit redis \<Rightarrow> string \<Rightarrow> string option \<Rightarrow> bool \<Rightarrow> pyfloat \<Rightarrow> memory \<Rightarrow> memory \<times> (store_error + unit)" where
  "store_kill_switch production r scope identifier enabled now m =
     (let key = kill_key scope identifier in
      if enabled
      then (case set_key production r key ''1'' None now m of
              (m1, Inl e) \<Rightarrow> (m1, Inl e)
            | (m1, Inr _) \<Rightarrow> (m1\<lparr>mem_kills := List.insert key (mem_kills m1)\<rparr>, Inr ()))
      else (let m1 = delete_key r key m in (m1\<lparr>mem_kills := removeAll key (mem_kills m1)\<rparr>, Inr ())))"

text \<open>\<open>r key\<close> is Redis's answer to \<^verbatim>\<open>EXISTS key\<close>.\<close>

definition is_kill_switch_active ::
  "bool \<Rightarrow> (string \<Rightarrow> bool redis) \<Rightarrow> string \<Rightarrow> string option \<Rightarrow> memory \<Rightarrow> store_error + bool" where
  "is_kill_switch_active production r scope identifier m =
     (case r (kill_key scope identifier) of
        Replies b \<Rightarrow> Inr b
      | RedisFails \<Rightarrow> if production then Inl RiskStateUnavailable
                      else Inr (kill_key scope identifier \<in> set (mem_kills m))
      | NoClient \<Rightarrow> Inr (kill_key scope identifier \<in> set (mem_kills m)))"

text \<open>\<^verbatim>\<open>key.split(":")\<close>.\<close>

fun split_on :: "char \<Rightarrow> string \<Rightarrow> string list" where
  "split_on c [] = [[]]"
| "split_on c (x # xs) =
     (if x = c then [] # split_on c xs
      else (case split_on c xs of [] \<Rightarrow> [[x]] | p # ps \<Rightarrow> (x # p) # ps))"

definition parse_kill_key :: "string \<Rightarrow> (string \<times> string option) option" where
  "parse_kill_key key =
     (let parts = split_on (CHR '':'') key in
      if 4 \<le> length parts then Some (parts ! 3, (if 4 < length parts then Some (parts ! 4) else None))
      else None)"

definition list_kill_switches ::
  "bool \<Rightarrow> string list redis \<Rightarrow> memory \<Rightarrow> store_error + (string \<times> string option) list" where
  "list_kill_switches production r m =
     (case r of
        Replies ks \<Rightarrow> Inr (List.map_filter parse_kill_key ks)
      | RedisFails \<Rightarrow> if production then Inl RiskStateUnavailable
                      else Inr (List.map_filter parse_kill_key (mem_kills m))
      | NoClient \<Rightarrow> Inr (List.map_filter parse_kill_key (mem_kills m)))"

section \<open>Nonces are consumed once\<close>

datatype store_op =
    SetNx bool "bool redis" string pyfloat pyfloat pyfloat
  | SetKey bool "unit redis" string string "pyfloat option" pyfloat
  | DeleteKey "unit redis" string
  | Look bool "string option redis" string pyfloat
  | Kill bool "unit redis" string "string option" bool pyfloat

fun store_step :: "store_op \<Rightarrow> memory \<times> pyfloat \<Rightarrow> memory \<times> pyfloat" where
  "store_step (SetNx production r key ttl now0 now) (m, clk) = (fst (set_nx_ex production r key ttl now0 now m), now)"
| "store_step (SetKey production r key v ttl now) (m, clk) = (fst (set_key production r key v ttl now m), now)"
| "store_step (DeleteKey r key) (m, clk) = (delete_key r key m, clk)"
| "store_step (Look production r key now0) (m, clk) = (fst (get_key production r key now0 m), now0)"
| "store_step (Kill production r scope i enabled now) (m, clk) = (fst (store_kill_switch production r scope i enabled now m), now)"

text \<open>The clock never runs backwards, and the key under consideration is written by \<open>set_nx_ex\<close> only.\<close>

fun store_ok :: "string \<Rightarrow> store_op \<Rightarrow> memory \<times> pyfloat \<Rightarrow> bool" where
  "store_ok q (SetNx production r key ttl now0 now) (m, clk) = (clk \<le> now0 \<and> now0 \<le> now)"
| "store_ok q (SetKey production r key v ttl now) (m, clk) = (clk \<le> now \<and> key \<noteq> q)"
| "store_ok q (DeleteKey r key) (m, clk) = (key \<noteq> q)"
| "store_ok q (Look production r key now0) (m, clk) = (clk \<le> now0)"
| "store_ok q (Kill production r scope i enabled now) (m, clk) = (clk \<le> now \<and> kill_key scope i \<noteq> q)"

definition held_until :: "string \<Rightarrow> pyfloat \<Rightarrow> memory \<times> pyfloat \<Rightarrow> bool" where
  "held_until q t s \<longleftrightarrow> t \<le> snd s \<or>
     (\<exists>v e. dict_get (mem_kv (fst s)) q = Some (v, e) \<and> (case e of None \<Rightarrow> True | Some x \<Rightarrow> t \<le> x))"

definition mem_wf :: "memory \<times> pyfloat \<Rightarrow> bool" where
  "mem_wf s \<longleftrightarrow> wf_dict (mem_kv (fst s))"

lemma map_of_filter_value:
  assumes "wf_dict d" "dict_get d k = Some v" "P (k, v)"
  shows "dict_get (filter P d) k = Some v"
proof -
  have "(k, v) \<in> set (filter P d)" using assms by (simp add: wf_dict_in_set)
  moreover have "wf_dict (filter P d)" using assms(1) by (simp add: wf_dict_def dict_keys_def distinct_map_filter)
  ultimately show ?thesis using wf_dict_in_set by metis
qed

lemma cleanup_wf: "wf_dict (mem_kv m) \<Longrightarrow> wf_dict (mem_kv (cleanup_mem now m))"
  by (simp add: cleanup_mem_def wf_dict_def dict_keys_def distinct_map_filter)

lemma cleanup_held:
  assumes "wf_dict (mem_kv m)" "held_until q t (m, clk)" "clk \<le> now"
  shows "held_until q t (cleanup_mem now m, now)"
proof (cases "t \<le> now")
  case False
  then obtain v e where g: "dict_get (mem_kv m) q = Some (v, e)" "case e of None \<Rightarrow> True | Some x \<Rightarrow> t \<le> x"
    using assms(2,3) by (auto simp: held_until_def)
  then have "\<not> expired now e" using False by (auto simp: expired_def split: option.splits)
  then have "dict_get (mem_kv (cleanup_mem now m)) q = Some (v, e)"
    using map_of_filter_value [OF assms(1) g(1), of "\<lambda>(k, v, e). \<not> expired now e"] by (simp add: cleanup_mem_def)
  then show ?thesis using g(2) by (auto simp: held_until_def)
qed (simp add: held_until_def)

lemma with_redis_fst:
  "fst (with_redis production r f m) = m \<or> fst (with_redis production r f m) = fst (f m)"
  by (cases r) (auto simp: with_redis_def split: prod.splits)

lemma mem_set_nx_held:
  assumes "wf_dict (mem_kv m)" "held_until q t (m, clk)" "clk \<le> now0" "now0 \<le> now" "0 \<le> ttl \<or> key \<noteq> q"
  shows "held_until q t (fst (mem_set_nx key ttl now0 now m), now)"
proof -
  let ?m1 = "cleanup_mem now0 m"
  have h: "held_until q t (?m1, now0)" using cleanup_held [OF assms(1-3)] .
  show ?thesis
  proof (cases "t \<le> now")
    case False
    then obtain v e where g: "dict_get (mem_kv ?m1) q = Some (v, e)" "case e of None \<Rightarrow> True | Some x \<Rightarrow> t \<le> x"
      using h assms(4) by (auto simp: held_until_def)
    then have "key = q \<Longrightarrow> fst (mem_set_nx key ttl now0 now m) = ?m1"
      using False by (auto simp: mem_set_nx_def Let_def split: option.splits)
    moreover have "key \<noteq> q \<Longrightarrow> dict_get (mem_kv (fst (mem_set_nx key ttl now0 now m))) q = Some (v, e)"
      using g(1) by (auto simp: mem_set_nx_def Let_def split: option.splits)
    ultimately show ?thesis using g by (cases "key = q") (auto simp: held_until_def)
  qed (simp add: held_until_def)
qed

lemma kv_frames:
  "mem_kv (m\<lparr>mem_kills := ks\<rparr>) = mem_kv m" "mem_kv (m\<lparr>mem_nonces := ns\<rparr>) = mem_kv m"
  by simp_all

lemma mem_set_nx_wf: "wf_dict (mem_kv m) \<Longrightarrow> wf_dict (mem_kv (fst (mem_set_nx key ttl now0 now m)))"
  using cleanup_wf [of m now0] by (auto simp: mem_set_nx_def Let_def split: option.splits)

lemma delete_key_other:
  "key \<noteq> q \<Longrightarrow> dict_get (mem_kv (delete_key r key m)) q = dict_get (mem_kv m) q"
  "wf_dict (mem_kv m) \<Longrightarrow> wf_dict (mem_kv (delete_key r key m))"
  by (auto simp: delete_key_def split: redis.splits)

lemma set_key_other:
  "key \<noteq> q \<Longrightarrow> dict_get (mem_kv (fst (set_key production r key v ttl now m))) q = dict_get (mem_kv m) q"
  "wf_dict (mem_kv m) \<Longrightarrow> wf_dict (mem_kv (fst (set_key production r key v ttl now m)))"
  by (auto simp: set_key_def with_redis_def mem_set_def split: redis.splits)

lemma kill_other:
  "kill_key scope i \<noteq> q \<Longrightarrow>
     dict_get (mem_kv (fst (store_kill_switch production r scope i enabled now m))) q = dict_get (mem_kv m) q"
  "wf_dict (mem_kv m) \<Longrightarrow> wf_dict (mem_kv (fst (store_kill_switch production r scope i enabled now m)))"
  using set_key_other(1) [of "kill_key scope i" q production r "''1''" None now m]
    set_key_other(2) [of m production r "kill_key scope i" "''1''" None now]
    delete_key_other(1) [of "kill_key scope i" q r m] delete_key_other(2) [of m r "kill_key scope i"]
  by (auto simp: store_kill_switch_def Let_def split: prod.splits sum.splits)

lemma get_key_fst: "fst (get_key production r key now0 m) = m \<or> fst (get_key production r key now0 m) = cleanup_mem now0 m"
  using with_redis_fst [of production r "\<lambda>m. let m1 = cleanup_mem now0 m in (m1, map_option fst (dict_get (mem_kv m1) key))" m]
  by (auto simp: get_key_def Let_def)

lemma held_later: "held_until q t (m, clk) \<Longrightarrow> clk \<le> now \<Longrightarrow> held_until q t (m, now)"
  by (auto simp: held_until_def)

lemma store_step_wf: "mem_wf s \<Longrightarrow> mem_wf (store_step op s)"
proof (cases s)
  case (Pair m clk)
  assume "mem_wf s"
  then have wf: "wf_dict (mem_kv m)" by (simp add: mem_wf_def Pair)
  show ?thesis
  proof (cases op)
    case (SetNx pr r key ttl now0 now)
    then show ?thesis using with_redis_fst [of pr r "mem_set_nx key ttl now0 now" m] wf mem_set_nx_wf [OF wf]
      by (auto simp: Pair mem_wf_def set_nx_ex_def)
  next
    case (Look pr r key now0)
    then show ?thesis using get_key_fst [of pr r key now0 m] wf cleanup_wf [OF wf] by (auto simp: Pair mem_wf_def)
  qed (use wf set_key_other(2) delete_key_other(2) kill_other(2) in \<open>auto simp: Pair mem_wf_def\<close>)
qed

lemma store_step_held:
  assumes "mem_wf s" "store_ok q op s" "held_until q t s"
  shows "held_until q t (store_step op s)"
proof (cases s)
  case (Pair m clk)
  have wf: "wf_dict (mem_kv m)" using assms(1) by (simp add: mem_wf_def Pair)
  have h: "held_until q t (m, clk)" using assms(3) by (simp add: Pair)
  have keep: "held_until q t (m', now)"
    if "dict_get (mem_kv m') q = dict_get (mem_kv m) q" "clk \<le> now" for m' now
    using h that by (auto simp: held_until_def)
  show ?thesis
  proof (cases op)
    case (SetNx pr r key ttl now0 now)
    then have le: "clk \<le> now0" "now0 \<le> now" using assms(2) by (simp_all add: Pair)
    have "held_until q t (fst (mem_set_nx key ttl now0 now m), now)"
    proof (cases "key = q")
      case True
      show ?thesis
      proof (cases "0 \<le> ttl")
        case True
        then show ?thesis using mem_set_nx_held [OF wf h le] by blast
      next
        case False
        have h0: "held_until q t (cleanup_mem now0 m, now0)" using cleanup_held [OF wf h le(1)] .
        then show ?thesis using \<open>key = q\<close> le(2)
          by (auto simp: held_until_def mem_set_nx_def Let_def split: option.splits)
      qed
    qed (use mem_set_nx_held [OF wf h le] in blast)
    moreover have "held_until q t (m, now)" using held_later [OF h] le by simp
    ultimately show ?thesis using SetNx with_redis_fst [of pr r "mem_set_nx key ttl now0 now" m]
      by (auto simp: Pair set_nx_ex_def)
  next
    case (Look pr r key now0)
    then have le: "clk \<le> now0" using assms(2) by (simp add: Pair)
    show ?thesis using get_key_fst [of pr r key now0 m] cleanup_held [OF wf h le] held_later [OF h le] Look
      by (auto simp: Pair)
  qed (use assms(2) in \<open>auto simp: Pair keep set_key_other delete_key_other kill_other\<close>)
qed

interpretation nonces: sealed_machine store_step mem_wf "store_ok q" "held_until q" for q
  by unfold_locales (auto simp: store_step_wf store_step_held)

text \<open>
  A nonce is accepted once. After \<open>set_nx_ex\<close> accepted a key (in memory, for a
  lifetime of \<open>ttl\<close>), then whatever other keys are written, read, cleaned up or
  deleted meanwhile, every further attempt before the lifetime is over is refused
  as a replay.
\<close>

theorem nonce_accepted_once:
  assumes "wf_dict (mem_kv m)" "set_nx_ex production NoClient q ttl now0 now m = (m1, Inr True)"
    and "admissible (store_ok q) store_step ops (m1, now)" "fold store_step ops (m1, now) = (m2, clk)"
    and "clk \<le> now0'" "now0' \<le> now'" "now' < fadd now ttl"
  shows "snd (set_nx_ex production' NoClient q ttl' now0' now' m2) = Inr False"
proof -
  have m1: "m1 = fst (mem_set_nx q ttl now0 now m)" "snd (mem_set_nx q ttl now0 now m)"
    using assms(2) by (auto simp: set_nx_ex_def with_redis_def split: prod.splits)
  then have "dict_get (mem_kv m1) q = Some (''1'', Some (fadd now ttl))"
    by (auto simp: mem_set_nx_def Let_def split: option.splits if_splits)
  then have h: "held_until q (fadd now ttl) (m1, now)" by (simp add: held_until_def)
  have wf: "mem_wf (m1, now)" using m1 mem_set_nx_wf [OF assms(1)] by (simp add: mem_wf_def)
  have "held_until q (fadd now ttl) (m2, clk)" "wf_dict (mem_kv m2)"
    using nonces.sealed_run [OF wf assms(3) h] nonces.inv_run [OF wf assms(3)] assms(4) by (simp_all add: mem_wf_def)
  then have "held_until q (fadd now ttl) (cleanup_mem now0' m2, now0')" using cleanup_held assms(5) by blast
  then obtain v e where "dict_get (mem_kv (cleanup_mem now0' m2)) q = Some (v, e)"
    "case e of None \<Rightarrow> True | Some x \<Rightarrow> fadd now ttl \<le> x"
    using assms(6,7) by (auto simp: held_until_def)
  then show ?thesis using assms(7)
    by (auto simp: set_nx_ex_def with_redis_def mem_set_nx_def Let_def split: option.splits)
qed

theorem nonce_accepted_once_witness:
  "let m1 = fst (set_nx_ex False NoClient ''n'' 300 10 10 \<lparr>mem_kv = [], mem_nonces = [], mem_kills = []\<rparr>)
   in snd (set_nx_ex False NoClient ''n'' 300 20 20 m1) = Inr False"
proof -
  let ?m = "\<lparr>mem_kv = [], mem_nonces = [], mem_kills = []\<rparr>"
  let ?m1 = "\<lparr>mem_kv = [(''n'', ''1'', Some 310)], mem_nonces = [], mem_kills = []\<rparr>"
  have a: "fadd 10 300 = 310" by (simp add: fadd_def)
  then have s: "set_nx_ex False NoClient ''n'' 300 10 10 ?m = (?m1, Inr True)"
    by (simp add: set_nx_ex_def with_redis_def mem_set_nx_def cleanup_mem_def)
  have "fold store_step [] (?m1, 10) = (?m1, 10)" by simp
  from nonce_accepted_once [OF _ s _ this, of 20 20] show ?thesis using s by (simp add: a)
qed

text \<open>
  Risk state fails closed. In production an unreadable Redis makes the
  kill-switch read an error, never "no switch"; otherwise the switch reads as active
  in memory exactly if it was set last, by its own scope and identifier.
\<close>

theorem kill_switch_reads_back:
  assumes "kill_key scope' identifier' = kill_key scope identifier \<longleftrightarrow> scope' = scope \<and> identifier' = identifier"
    and "store_kill_switch False NoClient scope identifier enabled now m = (m1, Inr ())"
  shows "is_kill_switch_active True (\<lambda>_. RedisFails) scope identifier m1 = Inl RiskStateUnavailable
    \<and> is_kill_switch_active production (\<lambda>_. NoClient) scope' identifier' m1 =
        (if scope' = scope \<and> identifier' = identifier then Inr enabled
         else is_kill_switch_active production (\<lambda>_. NoClient) scope' identifier' m)"
  using assms
  by (auto simp: store_kill_switch_def is_kill_switch_active_def set_key_def with_redis_def mem_set_def delete_key_def
      Let_def split: if_splits)

theorem kill_switch_reads_back_witness:
  "let m1 = fst (store_kill_switch False NoClient ''user'' (Some ''u'') True 0 \<lparr>mem_kv = [], mem_nonces = [], mem_kills = []\<rparr>)
   in is_kill_switch_active True (\<lambda>_. NoClient) ''user'' (Some ''u'') m1 = Inr True
      \<and> is_kill_switch_active True (\<lambda>_. NoClient) ''user'' (Some ''v'') m1 = Inr False"
proof -
  let ?m = "\<lparr>mem_kv = [], mem_nonces = [], mem_kills = []\<rparr>"
  obtain m1 where s: "store_kill_switch False NoClient ''user'' (Some ''u'') True 0 ?m = (m1, Inr ())"
    by (simp add: store_kill_switch_def set_key_def with_redis_def mem_set_def Let_def)
  have u: "kill_key ''user'' (Some ''u'') = kill_key ''user'' (Some ''u'') \<longleftrightarrow> ''user'' = ''user'' \<and> Some ''u'' = Some ''u''"
    and v: "kill_key ''user'' (Some ''v'') = kill_key ''user'' (Some ''u'') \<longleftrightarrow> ''user'' = ''user'' \<and> Some ''v'' = Some ''u''"
    by (simp_all add: kill_key_def)
  show ?thesis
    using kill_switch_reads_back [OF u s, of True] kill_switch_reads_back [OF v s, of True] s
    by (simp add: is_kill_switch_active_def)
qed

text \<open>
  The kill-switch listing names the switch that was set: parsing a stored key
  gives back its scope and identifier, for every identifier without a colon.
\<close>

theorem kill_key_roundtrip:
  assumes "CHR '':'' \<notin> set scope" "CHR '':'' \<notin> set i" "i \<noteq> []"
  shows "parse_kill_key (kill_key scope (Some i)) = Some (scope, Some i)
    \<and> parse_kill_key (kill_key scope None) = Some (scope, None)"
proof -
  have last_part: "split_on (CHR '':'') p = [p]" if "CHR '':'' \<notin> set p" for p
    using that by (induction p) auto
  have part: "split_on (CHR '':'') (p @ CHR '':'' # q) = p # split_on (CHR '':'') q" if "CHR '':'' \<notin> set p" for p q
    using that by (induction p) auto
  show ?thesis using assms by (simp add: parse_kill_key_def kill_key_def last_part part Let_def)
qed

theorem kill_key_roundtrip_witness:
  "parse_kill_key (kill_key ''asset'' (Some ''AAPL'')) = Some (''asset'', Some ''AAPL'')"
  using kill_key_roundtrip [of "''asset''" "''AAPL''"] by simp

end
