(* ===== verification/Order_Security.thy ===== *)
theory Order_Security
  imports Redis_Store
begin

text \<open>
  \<^verbatim>\<open>src/backend/services/order_security.py\<close> and the kill-switch endpoint of
  \<^verbatim>\<open>src/backend/main.py\<close>: canonical orders, envelopes, signature checks, idempotency
  keys and the risk gate. ML-DSA, SHA-256 and the decoding of keys are arguments;
  \<open>production\<close> is \<^verbatim>\<open>ENVIRONMENT == "production"\<close>.
\<close>

section \<open>Canonical orders\<close>

text \<open>Decimal digits of the fraction \<open>0 \<le> r < 1\<close>, at most \<open>n\<close>.\<close>

fun frac_digits :: "nat \<Rightarrow> rat \<Rightarrow> string" where
  "frac_digits 0 r = []"
| "frac_digits (Suc n) r = (if r = 0 then [] else hex_digit (nat \<lfloor>r * 10\<rfloor>) # frac_digits n (r * 10 - of_int \<lfloor>r * 10\<rfloor>))"

definition rstrip :: "char \<Rightarrow> string \<Rightarrow> string" where
  "rstrip c s = rev (dropWhile (\<lambda>x. x = c) (rev s))"

text \<open>
  \<^verbatim>\<open>format(Decimal(str(x)), "f")\<close>: \<^verbatim>\<open>str\<close> writes a float below \<open>10^16\<close> with a
  fractional part (\<^verbatim>\<open>100.0\<close>) and a larger one in exponent form, whose expansion has
  no decimal point. A double has at most 1074 fraction digits.
\<close>

definition fixed_text :: "pyfloat \<Rightarrow> string" where
  "fixed_text x =
     (let v = repr_dec x; a = \<bar>v\<bar>; n = \<lfloor>a\<rfloor>;
          body = (if 10 ^ 16 \<le> a then digits_of (nat n)
                  else digits_of (nat n) @ ''.'' @ (let f = frac_digits 1100 (a - of_int n) in if f = [] then ''0'' else f))
      in if v < 0 then CHR ''-'' # body else body)"

definition decimal_field :: "pyfloat option \<Rightarrow> string option" where
  "decimal_field value =
     (case value of
        None \<Rightarrow> None
      | Some x \<Rightarrow> (let t = rstrip (CHR ''.'') (rstrip (CHR ''0'') (fixed_text x)) in Some (if t = [] then ''0'' else t)))"

definition canonical_json :: "(pyfloat \<Rightarrow> string) \<Rightarrow> json \<Rightarrow> string" where
  "canonical_json ft v = json_text False ft v"

record order_fields =
  o_id :: string
  o_user :: string
  o_asset :: string
  o_side :: string
  o_quantity :: pyfloat
  o_type :: string
  o_limit :: "pyfloat option"
  o_stop :: "pyfloat option"
  o_tif :: string
  o_timestamp :: int
  o_expires :: int
  o_nonce :: string

definition opt_str :: "string option \<Rightarrow> json" where
  "opt_str s = (case s of None \<Rightarrow> JNull | Some t \<Rightarrow> JStr t)"

definition order_json :: "order_fields \<Rightarrow> json" where
  "order_json o' = JObj
     [(''protocol'', JStr ''QS-ORDER-V1''), (''order_id'', JStr (o_id o')), (''user_id'', JStr (o_user o')),
      (''asset'', JStr (str_upper (o_asset o'))), (''side'', JStr (str_upper (o_side o'))),
      (''quantity'', opt_str (decimal_field (Some (o_quantity o')))),
      (''order_type'', JStr (str_upper (o_type o'))), (''limit_price'', opt_str (decimal_field (o_limit o'))),
      (''stop_price'', opt_str (decimal_field (o_stop o'))), (''time_in_force'', JStr (str_upper (o_tif o'))),
      (''timestamp'', JInt (o_timestamp o')), (''expires_at'', JInt (o_expires o')), (''nonce'', JStr (o_nonce o'))]"

definition canonical_order :: "(pyfloat \<Rightarrow> string) \<Rightarrow> order_fields \<Rightarrow> string" where
  "canonical_order ft o' = canonical_json ft (order_json o')"

definition request_hash :: "(string \<Rightarrow> string) \<Rightarrow> (pyfloat \<Rightarrow> string) \<Rightarrow> json \<Rightarrow> string" where
  "request_hash sha ft r = sha (canonical_json ft r)"

section \<open>Envelope\<close>

definition MAX_ENVELOPE_TTL :: int where "MAX_ENVELOPE_TTL = 300"

definition make_development_envelope :: "int \<Rightarrow> string \<Rightarrow> int \<times> int \<times> string" where
  "make_development_envelope now token = (now, now + 120, token)"

definition url_safe :: "char \<Rightarrow> bool" where
  "url_safe c \<longleftrightarrow> (let n = of_char c :: nat in
     (48 \<le> n \<and> n \<le> 57) \<or> (65 \<le> n \<and> n \<le> 90) \<or> (97 \<le> n \<and> n \<le> 122) \<or> n = 95 \<or> n = 45)"

definition url_safe_token :: "nat \<Rightarrow> nat \<Rightarrow> string \<Rightarrow> bool" where
  "url_safe_token lo hi s \<longleftrightarrow> lo \<le> length s \<and> length s \<le> hi \<and> list_all url_safe s"

definition validate_envelope :: "int \<Rightarrow> int \<Rightarrow> int \<Rightarrow> string \<Rightarrow> http_error + unit" where
  "validate_envelope now timestamp expires_at nonce =
     (if \<not> url_safe_token 16 128 nonce then Inl (HTTP 400)
      else if now + 30 < timestamp \<or> timestamp < now - MAX_ENVELOPE_TTL then Inl (HTTP 400)
      else if expires_at \<le> now \<or> expires_at \<le> timestamp \<or> MAX_ENVELOPE_TTL < expires_at - timestamp
      then Inl (HTTP 400)
      else Inr ())"

section \<open>Signatures\<close>

record key_pair =
  kp_id :: string
  kp_user :: string
  kp_algorithm :: string
  kp_public :: string
  kp_active :: bool

datatype signature_mode = ClientMldsa | DevelopmentServer

definition truthy :: "string option \<Rightarrow> bool" where
  "truthy s \<longleftrightarrow> (case s of None \<Rightarrow> False | Some t \<Rightarrow> t \<noteq> [])"

text \<open>\<open>verify\<close> is \<^verbatim>\<open>pqc.dsa_verify\<close> on decoded values, \<open>None\<close> where decoding or
  verification raises; \<open>sign\<close> the server identity's signature, encoded.\<close>

definition verify_or_attest ::
  "bool \<Rightarrow> (string \<Rightarrow> string \<Rightarrow> string \<Rightarrow> bool option) \<Rightarrow> (string \<Rightarrow> string) \<Rightarrow> key_pair list
     \<Rightarrow> string \<Rightarrow> string \<Rightarrow> string option \<Rightarrow> string option \<Rightarrow> http_error + string \<times> string \<times> signature_mode" where
  "verify_or_attest production verify sign keys u canonical key_id signature =
     (if truthy key_id \<and> truthy signature
      then (case find_row kp_id (the key_id) keys of
              None \<Rightarrow> Inl (HTTP 403)
            | Some k \<Rightarrow>
                if kp_user k \<noteq> u \<or> kp_algorithm k \<noteq> ''ML-DSA-65'' \<or> \<not> kp_active k then Inl (HTTP 403)
                else if verify (kp_public k) canonical (the signature) \<noteq> Some True then Inl (HTTP 403)
                else Inr (kp_id k, the signature, ClientMldsa))
      else if truthy key_id \<or> truthy signature then Inl (HTTP 400)
      else if production then Inl (HTTP 403)
      else Inr (''server-development-attestation'', sign canonical, DevelopmentServer))"

section \<open>Idempotency\<close>

record idem_row =
  i_user :: string
  i_key :: string
  i_hash :: string
  i_response :: "json option"

definition validate_idempotency_key :: "bool \<Rightarrow> string option \<Rightarrow> http_error + unit" where
  "validate_idempotency_key production key =
     (if \<not> truthy key then (if production then Inl (HTTP 400) else Inr ())
      else if url_safe_token 8 128 (the key) then Inr () else Inl (HTTP 400))"

definition idem_match :: "string \<Rightarrow> string \<Rightarrow> idem_row \<Rightarrow> bool" where
  "idem_match u k r \<longleftrightarrow> i_user r = u \<and> i_key r = k"

definition answer_existing :: "string \<Rightarrow> idem_row \<Rightarrow> http_error + json option" where
  "answer_existing payload_hash r =
     (if i_hash r \<noteq> payload_hash then Inl (HTTP 409)
      else case i_response r of Some j \<Rightarrow> Inr (Some j) | None \<Rightarrow> Inl (HTTP 409))"

text \<open>
  \<open>racer\<close> is a row for the same user and key that another request commits
  between the read and this request's commit: the insert then violates the
  unique constraint and the committed row decides.
\<close>

definition reserve_idempotency ::
  "bool \<Rightarrow> idem_row option \<Rightarrow> idem_row list session \<Rightarrow> string \<Rightarrow> string option \<Rightarrow> string
     \<Rightarrow> idem_row list session \<times> (http_error + json option)" where
  "reserve_idempotency production racer s u key payload_hash =
     (case validate_idempotency_key production key of
        Inl e \<Rightarrow> (s, Inl e)
      | Inr _ \<Rightarrow>
          if \<not> truthy key then (s, Inr None)
          else case List.find (idem_match u (the key)) (working s) of
                 Some r \<Rightarrow> (s, answer_existing payload_hash r)
               | None \<Rightarrow>
                   (case racer of
                      None \<Rightarrow> (commit (upd (\<lambda>d. d @ [\<lparr>i_user = u, i_key = the key, i_hash = payload_hash,
                                                       i_response = None\<rparr>]) s), Inr None)
                    | Some r \<Rightarrow>
                        (let s0 = rollback s
                         in (\<lparr>committed = committed s0 @ [r], working = working s0 @ [r]\<rparr>,
                             answer_existing payload_hash r))))"

definition get_completed_response ::
  "bool \<Rightarrow> idem_row list session \<Rightarrow> string \<Rightarrow> string option \<Rightarrow> string \<Rightarrow> http_error + json option" where
  "get_completed_response production s u key payload_hash =
     (case validate_idempotency_key production key of
        Inl e \<Rightarrow> Inl e
      | Inr _ \<Rightarrow>
          if \<not> truthy key then Inr None
          else case List.find (idem_match u (the key)) (working s) of
                 None \<Rightarrow> Inr None
               | Some r \<Rightarrow> answer_existing payload_hash r)"

definition release_idempotency :: "idem_row list session \<Rightarrow> string \<Rightarrow> string option \<Rightarrow> idem_row list session" where
  "release_idempotency s u key =
     (if \<not> truthy key then s
      else commit (upd (filter (\<lambda>r. \<not> (idem_match u (the key) r \<and> i_response r = None))) s))"

definition complete_idempotency ::
  "idem_row list session \<Rightarrow> string \<Rightarrow> string option \<Rightarrow> json \<Rightarrow> idem_row list session" where
  "complete_idempotency s u key response =
     (if \<not> truthy key then s
      else case List.find (idem_match u (the key)) (working s) of
             None \<Rightarrow> s
           | Some _ \<Rightarrow> commit (upd (sql_update (idem_match u (the key)) (\<lambda>r. r\<lparr>i_response := Some response\<rparr>)) s))"

section \<open>Risk gate\<close>

type_synonym switches = "(string \<times> string option) list"

definition local_block :: "switches \<Rightarrow> string \<Rightarrow> string \<Rightarrow> bool" where
  "local_block ks u asset \<longleftrightarrow> (''global'', None) \<in> set ks \<or> (''user'', Some u) \<in> set ks
     \<or> (''asset'', Some (str_upper asset)) \<in> set ks"

record order_risk =
  r_side :: string
  r_quantity :: pyfloat
  r_price :: pyfloat
  r_held :: pyfloat
  r_equity :: pyfloat
  r_gross :: pyfloat

definition risk_limits :: "pyfloat \<Rightarrow> order_risk \<Rightarrow> http_error + unit" where
  "risk_limits fraction r =
     (let notional = fmul (r_quantity r) (r_price r) in
      if fmul (r_equity r) fraction < notional then Inl (HTTP 400)
      else if r_side r = ''sell'' \<and> r_held r < r_quantity r then Inl (HTTP 400)
      else if r_equity r < fadd (r_gross r) (if r_side r = ''buy'' then notional else 0) then Inl (HTTP 400)
      else Inr ())"

text \<open>
  The synchronous gate. \<open>redis\<close> is \<open>None\<close> with no client; otherwise \<open>active scope identifier\<close>
  is what \<^verbatim>\<open>run_sync(is_kill_switch_active(client, scope, identifier))\<close> returns, \<open>None\<close> where
  it could not read.
\<close>

definition assert_risk_gate ::
  "bool \<Rightarrow> pyfloat \<Rightarrow> switches \<Rightarrow> (string \<Rightarrow> string option \<Rightarrow> bool option) option \<Rightarrow> string \<Rightarrow> string \<Rightarrow> order_risk \<Rightarrow> http_error + unit" where
  "assert_risk_gate production fraction ks redis u asset r =
     (if local_block ks u asset then Inl (HTTP 423)
      else case redis of
             None \<Rightarrow> risk_limits fraction r
           | Some active \<Rightarrow>
               let states = [active ''global'' None, active ''user'' (Some u), active ''asset'' (Some (str_upper asset))] in
               if None \<in> set states \<and> production then Inl (HTTP 503)
               else if Some True \<in> set states then Inl (HTTP 423)
               else risk_limits fraction r)"

text \<open>The asynchronous gate: with a client only Redis decides, the reads in order.\<close>

fun first_block :: "(store_error + bool) list \<Rightarrow> store_error + bool" where
  "first_block [] = Inr False"
| "first_block (Inl e # rs) = Inl e"
| "first_block (Inr b # rs) = (if b then Inr True else first_block rs)"

definition assert_risk_gate_async ::
  "pyfloat \<Rightarrow> switches \<Rightarrow> (string \<Rightarrow> string option \<Rightarrow> store_error + bool) option \<Rightarrow> string \<Rightarrow> string \<Rightarrow> order_risk
     \<Rightarrow> store_error + (http_error + unit)" where
  "assert_risk_gate_async fraction ks redis u asset r =
     (case (case redis of None \<Rightarrow> Inr (local_block ks u asset) 
            | Some active \<Rightarrow> first_block [active ''global'' None, active ''user'' (Some u), active ''asset'' (Some (str_upper asset))]) of
        Inl e \<Rightarrow> Inl e
      | Inr blocked \<Rightarrow> Inr (if blocked then Inl (HTTP 423) else risk_limits fraction r))"

definition normalized_id :: "string \<Rightarrow> string option \<Rightarrow> string option" where
  "normalized_id scope identifier =
     (if scope = ''asset'' \<and> truthy identifier then map_option str_upper identifier else identifier)"

text \<open>\<open>None\<close> where the scope is rejected with a \<^verbatim>\<open>ValueError\<close>.\<close>

definition set_kill_switch :: "switches \<Rightarrow> string \<Rightarrow> string option \<Rightarrow> bool \<Rightarrow> switches option" where
  "set_kill_switch ks scope identifier enabled =
     (if scope \<notin> {''global'', ''user'', ''asset''} then None
      else let v = (scope, normalized_id scope identifier)
           in Some (if enabled then List.insert v ks else removeAll v ks))"

definition set_kill_switch_async ::
  "bool \<Rightarrow> unit redis \<Rightarrow> pyfloat \<Rightarrow> memory \<Rightarrow> switches \<Rightarrow> string \<Rightarrow> string option \<Rightarrow> bool
     \<Rightarrow> (memory \<times> switches \<times> (store_error + unit)) option" where
  "set_kill_switch_async production r now m ks scope identifier enabled =
     (if scope \<notin> {''global'', ''user'', ''asset''} then None
      else let i = normalized_id scope identifier in
           case store_kill_switch production r scope i enabled now m of
             (m1, Inl e) \<Rightarrow> Some (m1, ks, Inl e)
           | (m1, Inr _) \<Rightarrow> Some (m1, (if enabled then List.insert (scope, i) ks else removeAll (scope, i) ks), Inr ()))"

text \<open>\<^verbatim>\<open>POST /api/risk/kill-switch\<close> without Redis (\<open>manage_kill_switch\<close>) and with it: who may set which switch, and what is stored.\<close>

definition manage_kill_switch ::
  "bool \<Rightarrow> switches \<Rightarrow> string \<Rightarrow> string \<Rightarrow> string option \<Rightarrow> bool \<Rightarrow> switches \<times> (http_error + string \<times> string option \<times> bool)" where
  "manage_kill_switch is_admin ks caller scope identifier enabled =
     (if scope \<notin> {''global'', ''user'', ''asset''} then (ks, Inl (HTTP 400))
      else let i = (if scope = ''user'' \<and> identifier = None then Some caller else identifier) in
           if scope = ''user'' \<and> i \<noteq> Some caller \<and> \<not> is_admin then (ks, Inl (HTTP 403))
           else if scope \<noteq> ''user'' \<and> \<not> is_admin then (ks, Inl (HTTP 403))
           else case set_kill_switch ks scope i enabled of
                  Some ks' \<Rightarrow> (ks', Inr (scope, i, enabled))
                | None \<Rightarrow> (ks, Inl (HTTP 400)))"

definition manage_kill_switch_redis ::
  "bool \<Rightarrow> unit redis \<Rightarrow> pyfloat \<Rightarrow> bool \<Rightarrow> string \<Rightarrow> string \<Rightarrow> string option \<Rightarrow> bool \<Rightarrow> memory \<times> switches
     \<Rightarrow> (memory \<times> switches) \<times> (store_error + http_error + string \<times> string option \<times> bool)" where
  "manage_kill_switch_redis production r now is_admin caller scope identifier enabled p =
     (if scope \<notin> {''global'', ''user'', ''asset''} then (p, Inr (Inl (HTTP 400)))
      else let i = (if scope = ''user'' \<and> identifier = None then Some caller else identifier) in
           if scope = ''user'' \<and> i \<noteq> Some caller \<and> \<not> is_admin then (p, Inr (Inl (HTTP 403)))
           else if scope \<noteq> ''user'' \<and> \<not> is_admin then (p, Inr (Inl (HTTP 403)))
           else case set_kill_switch_async production r now (fst p) (snd p) scope i enabled of
                  Some (m', ks', Inr _) \<Rightarrow> ((m', ks'), Inr (Inr (scope, i, enabled)))
                | Some (m', ks', Inl e) \<Rightarrow> ((m', ks'), Inl e)
                | None \<Rightarrow> (p, Inr (Inl (HTTP 400))))"

definition visible_switches :: "bool \<Rightarrow> string \<Rightarrow> switches \<Rightarrow> switches" where
  "visible_switches is_admin caller ks =
     (if is_admin then ks else filter (\<lambda>(scope, i). scope \<noteq> ''user'' \<or> i = Some caller) ks)"

section \<open>Idempotency keys as a machine\<close>

datatype idem_op =
    Reserve bool "idem_row option" string "string option" string
  | Release string "string option"
  | Complete string "string option" json

fun idem_step :: "idem_op \<Rightarrow> idem_row list session \<Rightarrow> idem_row list session" where
  "idem_step (Reserve p racer u k h) s = fst (reserve_idempotency p racer s u k h)"
| "idem_step (Release u k) s = release_idempotency s u k"
| "idem_step (Complete u k r) s = complete_idempotency s u k r"

text \<open>The unique constraint lets a racing row in only under the key it raced for.\<close>

fun racer_ok :: "idem_op \<Rightarrow> bool" where
  "racer_ok (Reserve p (Some r) u k h) = (truthy k \<and> idem_match u (the k) r)"
| "racer_ok op = True"

definition idem_inv :: "idem_row list session \<Rightarrow> bool" where
  "idem_inv s \<longleftrightarrow> committed s = working s \<and> distinct (map (\<lambda>r. (i_user r, i_key r)) (working s))"

definition taken :: "string \<times> string \<Rightarrow> idem_row list session \<Rightarrow> bool" where
  "taken k s \<longleftrightarrow> (\<exists>r \<in> set (working s). idem_match (fst k) (snd k) r)"

definition answered :: "idem_row \<Rightarrow> idem_row list session \<Rightarrow> bool" where
  "answered r s \<longleftrightarrow> r \<in> set (working s) \<and> i_response r \<noteq> None"

text \<open>Operations that leave the row of a key alone: its owner does not release it, or complete it again.\<close>

fun keeps_taken :: "string \<times> string \<Rightarrow> idem_op \<Rightarrow> idem_row list session \<Rightarrow> bool" where
  "keeps_taken k (Release u q) s = ((u, the q) \<noteq> k \<or> \<not> truthy q)"
| "keeps_taken k op s = racer_ok op"

fun keeps_answer :: "string \<times> string \<Rightarrow> idem_op \<Rightarrow> idem_row list session \<Rightarrow> bool" where
  "keeps_answer k (Complete u q r) s = ((u, the q) \<noteq> k \<or> \<not> truthy q)"
| "keeps_answer k op s = racer_ok op"

lemma find_none: "List.find P xs = None \<longleftrightarrow> (\<forall>x \<in> set xs. \<not> P x)"
  by (auto simp: find_None_iff)

lemma no_match_new:
  "List.find (idem_match u k) rs = None \<Longrightarrow> (u, k) \<notin> (\<lambda>r. (i_user r, i_key r)) ` set rs"
  by (auto simp: find_none idem_match_def)

lemma reserve_result:
  assumes "idem_inv s"
  shows "fst (reserve_idempotency p racer s u k h) = s \<or>
    (truthy k \<and> List.find (idem_match u (the k)) (working s) = None \<and>
     (\<exists>r. (racer = None \<and> r = \<lparr>i_user = u, i_key = the k, i_hash = h, i_response = None\<rparr> \<or> racer = Some r) \<and>
       fst (reserve_idempotency p racer s u k h) = \<lparr>committed = working s @ [r], working = working s @ [r]\<rparr>))"
  using assms
  by (auto simp: reserve_idempotency_def idem_inv_def commit_def upd_def rollback_def Let_def
      split: sum.splits option.splits if_splits)

lemma reserve_idem_inv:
  assumes "idem_inv s" "racer_ok (Reserve p racer u k h)"
  shows "idem_inv (fst (reserve_idempotency p racer s u k h))"
  using reserve_result [OF assms(1), of p racer u k h] assms no_match_new [of u "the k" "working s"]
  by (cases racer) (auto simp: idem_inv_def idem_match_def)

lemma release_result:
  "idem_inv s \<Longrightarrow> release_idempotency s u k =
     (if truthy k then let rs = filter (\<lambda>r. \<not> (idem_match u (the k) r \<and> i_response r = None)) (working s)
                       in \<lparr>committed = rs, working = rs\<rparr> else s)"
  by (simp add: release_idempotency_def commit_def upd_def Let_def)

lemma complete_result:
  "idem_inv s \<Longrightarrow> complete_idempotency s u k j =
     (if truthy k then let rs = sql_update (idem_match u (the k)) (\<lambda>r. r\<lparr>i_response := Some j\<rparr>) (working s)
                       in \<lparr>committed = rs, working = rs\<rparr> else s)"
proof (cases "List.find (idem_match u (the k)) (working s)")
  case None
  then have "sql_update (idem_match u (the k)) (\<lambda>r. r\<lparr>i_response := Some j\<rparr>) (working s) = working s"
    by (auto simp: find_none sql_update_def intro!: map_idI)
  moreover assume "idem_inv s"
  ultimately show ?thesis using None by (cases s) (auto simp: complete_idempotency_def idem_inv_def Let_def)
qed (simp add: complete_idempotency_def commit_def upd_def Let_def)

lemma idem_step_inv:
  assumes "idem_inv s" "racer_ok op"
  shows "idem_inv (idem_step op s)"
proof (cases op)
  case (Reserve p racer u k h)
  then show ?thesis using reserve_idem_inv assms by simp
next
  case (Release u k)
  then show ?thesis using assms by (auto simp: release_result idem_inv_def Let_def distinct_map_filter)
next
  case (Complete u k j)
  have "map (\<lambda>r. (i_user r, i_key r)) (sql_update (idem_match u (the k)) (\<lambda>r. r\<lparr>i_response := Some j\<rparr>) (working s)) =
      map (\<lambda>r. (i_user r, i_key r)) (working s)" by (rule map_sql_update) simp
  then show ?thesis using assms Complete by (auto simp: complete_result idem_inv_def Let_def)
qed

lemma keeps_racer: "keeps_taken k op s \<Longrightarrow> racer_ok op" "keeps_answer k op s \<Longrightarrow> racer_ok op"
  by (cases op; simp)+

lemma taken_step:
  assumes "idem_inv s" "keeps_taken k op s" "taken k s"
  shows "taken k (idem_step op s)"
proof -
  obtain r where r: "r \<in> set (working s)" "idem_match (fst k) (snd k) r" using assms(3) by (auto simp: taken_def)
  show ?thesis
  proof (cases op)
    case (Reserve p racer u q h)
    then show ?thesis using r reserve_result [OF assms(1), of p racer u q h] by (auto simp: taken_def)
  next
    case (Release u q)
    then show ?thesis using r assms(1,2)
      by (cases k) (auto simp: release_result taken_def Let_def idem_match_def)
  next
    case (Complete u q j)
    have "idem_match (fst k) (snd k) (r\<lparr>i_response := Some j\<rparr>)" using r(2) by (simp add: idem_match_def)
    then have "\<exists>x \<in> set (sql_update (idem_match u (the q)) (\<lambda>r. r\<lparr>i_response := Some j\<rparr>) (working s)).
        idem_match (fst k) (snd k) x"
      unfolding in_sql_update Bex_def using r by metis
    then show ?thesis using assms(1,3) Complete by (simp add: complete_result taken_def Let_def)
  qed
qed

lemma answered_step:
  assumes "idem_inv s" "keeps_answer (i_user r, i_key r) op s" "answered r s"
  shows "answered r (idem_step op s)"
proof (cases op)
  case (Reserve p racer u q h)
  then show ?thesis using assms(3) reserve_result [OF assms(1), of p racer u q h] by (auto simp: answered_def)
next
  case (Release u q)
  then show ?thesis using assms by (auto simp: release_result answered_def Let_def)
next
  case (Complete u q j)
  then have "truthy q \<Longrightarrow> \<not> idem_match u (the q) r" using assms(2) by (auto simp: idem_match_def)
  then have "truthy q \<Longrightarrow> r \<in> set (sql_update (idem_match u (the q)) (\<lambda>r. r\<lparr>i_response := Some j\<rparr>) (working s))"
    using assms(3) unfolding in_sql_update answered_def by (intro bexI [of _ r]) auto
  then show ?thesis using assms(1,3) Complete by (simp add: complete_result answered_def Let_def)
qed

interpretation idem: sealed_machine idem_step idem_inv "keeps_taken k" "\<lambda>_ :: unit. taken k" for k
  by unfold_locales (auto intro: idem_step_inv keeps_racer taken_step)

interpretation idem_answers: sealed_machine idem_step idem_inv "keeps_answer k"
  "\<lambda>r s. (i_user r, i_key r) = k \<and> answered r s" for k
  by unfold_locales (auto intro: idem_step_inv keeps_racer answered_step)

lemma taken_reserve:
  assumes "taken (u, k) s" "truthy (Some k)"
  shows "reserve_idempotency p racer s u (Some k) h = (s, snd (reserve_idempotency p racer s u (Some k) h))
    \<and> snd (reserve_idempotency p racer s u (Some k) h) \<noteq> Inr None"
  using assms find_none [of "idem_match u k" "working s"]
  by (auto simp: taken_def reserve_idempotency_def answer_existing_def split: sum.splits option.splits)

end
