(* ===== verification/Order_Security_Properties.thy ===== *)
theory Order_Security_Properties
  imports Order_Security
begin

text \<open>The properties of idempotency keys, signatures, canonical orders and the risk gate.\<close>

definition demo_idem :: "idem_row list session" where
  "demo_idem = fresh_session []"

lemma demo_idem_inv: "idem_inv demo_idem"
  by (simp add: idem_inv_def demo_idem_def)

lemma demo_key: "truthy (Some ''retry-key-1'')" "url_safe_token 8 128 ''retry-key-1''"
  by (simp_all add: truthy_def url_safe_token_def url_safe_def)

text \<open>
  An idempotency key executes one order. Once a request reserved a key, then
  until it releases that reservation no other request with the key is told to go
  ahead, whatever its payload and however the requests and their race on the
  unique constraint interleave: it gets the stored answer or an error, and writes
  nothing.
\<close>

theorem idempotency_key_executes_once:
  assumes "idem_inv s" "reserve_idempotency p None s u (Some k) h = (s1, Inr None)" "k \<noteq> []"
    and "admissible (keeps_taken (u, k)) idem_step ops s1" "s2 = fold idem_step ops s1"
  shows "fst (reserve_idempotency p' racer s2 u (Some k) h') = s2
    \<and> snd (reserve_idempotency p' racer s2 u (Some k) h') \<noteq> Inr None"
proof -
  have t: "truthy (Some k)" using assms(3) by (simp add: truthy_def)
  have "taken (u, k) s1"
    using assms(2) t by (auto simp: reserve_idempotency_def answer_existing_def taken_def idem_match_def
        split: sum.splits option.splits if_splits)
  moreover have "idem_inv s1" using reserve_idem_inv [OF assms(1), of p None u "Some k" h] assms(2) by simp
  ultimately have "taken (u, k) s2" using idem.sealed_run assms(4,5) by blast
  then show ?thesis using taken_reserve [OF _ t, of u s2 p' racer h'] by (metis fst_conv)
qed

theorem idempotency_key_executes_once_witness:
  "let s1 = fst (reserve_idempotency True None demo_idem ''u'' (Some ''retry-key-1'') ''h'')
   in snd (reserve_idempotency True None demo_idem ''u'' (Some ''retry-key-1'') ''h'') = Inr None
      \<and> snd (reserve_idempotency True None s1 ''u'' (Some ''retry-key-1'') ''h'') \<noteq> Inr None"
proof -
  obtain s1 where s1: "reserve_idempotency True None demo_idem ''u'' (Some ''retry-key-1'') ''h'' = (s1, Inr None)"
    by (simp add: reserve_idempotency_def validate_idempotency_key_def demo_key demo_idem_def)
  show ?thesis
    using idempotency_key_executes_once [OF demo_idem_inv s1, of "[]" s1 True None "''h''"] s1 by simp
qed

text \<open>
  A retry replays the stored response. Once an order's response is stored
  under its key, then whatever happens to other keys, the same payload is answered
  with that response, before and after signature checks, and a different payload is
  refused with 409; the row survives releases and is never rewritten.
\<close>

theorem completed_key_replays_response:
  assumes "idem_inv s" "r \<in> set (working s)" "i_response r = Some j"
    and "admissible (keeps_answer (i_user r, i_key r)) idem_step ops s" "s2 = fold idem_step ops s"
    and "url_safe_token 8 128 (i_key r)"
  shows "get_completed_response p s2 (i_user r) (Some (i_key r)) h =
      (if h = i_hash r then Inr (Some j) else Inl (HTTP 409))
    \<and> reserve_idempotency p racer s2 (i_user r) (Some (i_key r)) h =
      (s2, if h = i_hash r then Inr (Some j) else Inl (HTTP 409))"
proof -
  have "answered r s" using assms(2,3) by (simp add: answered_def)
  then have a: "answered r s2" and inv: "idem_inv s2"
    using idem_answers.sealed_run [OF assms(1,4), of r] idem_answers.inv_run [OF assms(1,4)] assms(5) by auto
  have "List.find (idem_match (i_user r) (i_key r)) (working s2) = Some r"
  proof (cases "List.find (idem_match (i_user r) (i_key r)) (working s2)")
    case None
    then show ?thesis using a by (auto simp: find_none answered_def idem_match_def)
  next
    case (Some q)
    then have "q \<in> set (working s2)" "idem_match (i_user r) (i_key r) q" by (auto simp: find_Some_iff)
    moreover have "inj_on (\<lambda>r. (i_user r, i_key r)) (set (working s2))"
      using inv by (simp add: idem_inv_def distinct_map)
    ultimately have "q = r" using a by (auto simp: answered_def idem_match_def inj_on_def)
    then show ?thesis using Some by simp
  qed
  moreover have "truthy (Some (i_key r))" using assms(6) by (auto simp: truthy_def url_safe_token_def)
  ultimately show ?thesis using assms(3,6)
    by (simp add: get_completed_response_def reserve_idempotency_def validate_idempotency_key_def answer_existing_def)
qed

theorem completed_key_replays_response_witness:
  "let r = \<lparr>i_user = ''u'', i_key = ''retry-key-1'', i_hash = ''h'', i_response = Some (JInt 7)\<rparr>;
       s2 = fold idem_step [Release ''u'' (Some ''retry-key-1'')] (fresh_session [r])
   in get_completed_response True s2 ''u'' (Some ''retry-key-1'') ''h'' = Inr (Some (JInt 7))
      \<and> get_completed_response True s2 ''u'' (Some ''retry-key-1'') ''g'' = Inl (HTTP 409)"
proof -
  let ?r = "\<lparr>i_user = ''u'', i_key = ''retry-key-1'', i_hash = ''h'', i_response = Some (JInt 7)\<rparr>"
  let ?ops = "[Release ''u'' (Some ''retry-key-1'')]"
  have inv: "idem_inv (fresh_session [?r])" by (simp add: idem_inv_def)
  have in_s: "?r \<in> set (working (fresh_session [?r]))" and j: "i_response ?r = Some (JInt 7)" by simp_all
  have ok: "admissible (keeps_answer (i_user ?r, i_key ?r)) idem_step ?ops (fresh_session [?r])" by simp
  have key: "url_safe_token 8 128 (i_key ?r)" by (simp add: demo_key)
  note replay = completed_key_replays_response [OF inv in_s j ok refl key, of True _ None]
  show ?thesis using replay [of "''h''"] replay [of "''g''"] by (simp add: Let_def)
qed

text \<open>
  C12: in production an order is accepted only under a valid client signature: a
  successful check names an active ML-DSA-65 key of the same user whose
  verification of exactly this canonical order succeeded.
\<close>

theorem production_orders_are_client_signed:
  assumes "verify_or_attest True verify sign keys u canonical key_id signature = Inr (kid, sig, mode)"
  shows "mode = ClientMldsa \<and> signature = Some sig \<and>
    (\<exists>k \<in> set keys. kp_id k = kid \<and> key_id = Some kid \<and> kp_user k = u \<and> kp_algorithm k = ''ML-DSA-65''
       \<and> kp_active k \<and> verify (kp_public k) canonical sig = Some True)"
proof -
  obtain i g where ig: "key_id = Some i" "signature = Some g"
    using assms by (auto simp: verify_or_attest_def truthy_def split: if_splits option.splits)
  obtain k where k: "find_row kp_id i keys = Some k"
    using assms ig by (cases "find_row kp_id i keys") (auto simp: verify_or_attest_def split: if_splits)
  show ?thesis using assms ig k find_row_Some [OF k] by (auto simp: verify_or_attest_def split: if_splits)
qed

theorem production_orders_are_client_signed_witness:
  "let k = \<lparr>kp_id = ''k1'', kp_user = ''u'', kp_algorithm = ''ML-DSA-65'', kp_public = ''pk'', kp_active = True\<rparr>
   in \<exists>kid. verify_or_attest True (\<lambda>pk m g. Some (g = m)) (\<lambda>m. m) [k] ''u'' ''order'' (Some ''k1'') (Some ''order'') =
        Inr (kid, ''order'', ClientMldsa) \<and> kid = kp_id k"
proof -
  let ?k = "\<lparr>kp_id = ''k1'', kp_user = ''u'', kp_algorithm = ''ML-DSA-65'', kp_public = ''pk'', kp_active = True\<rparr>"
  have v: "verify_or_attest True (\<lambda>pk m g. Some (g = m)) (\<lambda>m. m) [?k] ''u'' ''order'' (Some ''k1'') (Some ''order'') =
      Inr (''k1'', ''order'', ClientMldsa)"
    by (simp add: verify_or_attest_def truthy_def find_row_def)
  show ?thesis using production_orders_are_client_signed [OF v] v by auto
qed

section \<open>Risk gate\<close>

text \<open>
  Only operators can stop others from trading. A kill-switch request by a
  user without the operator role never changes the gate's verdict on another user's
  orders, whatever scope and identifier it names.
\<close>

theorem switch_requests_do_not_reach_others:
  assumes "manage_kill_switch False ks caller scope ident enabled = (ks', out)" "u \<noteq> caller"
  shows "assert_risk_gate production fraction ks' redis u asset r = assert_risk_gate production fraction ks redis u asset r"
proof -
  have "local_block ks' u asset = local_block ks u asset"
    using assms
    by (auto simp: manage_kill_switch_def set_kill_switch_def local_block_def normalized_id_def Let_def
        split: if_splits option.splits)
  then show ?thesis by (simp add: assert_risk_gate_def)
qed

theorem switch_requests_do_not_reach_others_witness:
  "let ks = fst (manage_kill_switch False [] ''eve'' ''user'' None True)
   in local_block ks ''eve'' ''X'' \<and>
      assert_risk_gate True 1 ks None ''bob'' ''X''
        \<lparr>r_side = ''buy'', r_quantity = 1, r_price = 1, r_held = 0, r_equity = 10, r_gross = 0\<rparr> = Inr ()"
proof -
  let ?r = "\<lparr>r_side = ''buy'', r_quantity = 1, r_price = 1, r_held = 0, r_equity = 10, r_gross = 0\<rparr>"
  let ?ks = "fst (manage_kill_switch False [] ''eve'' ''user'' None True)"
  have "?ks = [(''user'', Some ''eve'')]"
    by (simp add: manage_kill_switch_def set_kill_switch_def normalized_id_def Let_def)
  moreover have "assert_risk_gate True 1 [] None ''bob'' ''X'' ?r = Inr ()"
    by (simp add: assert_risk_gate_def local_block_def risk_limits_def fmul_def fadd_def)
  ultimately show ?thesis
    using switch_requests_do_not_reach_others [where ks = "[]" and caller = "''eve''" and scope = "''user''"
        and ident = None and enabled = True and u = "''bob''", OF surjective_pairing]
    by (simp add: local_block_def)
qed

text \<open>
  A global switch with an identifier stops nothing. The endpoint accepts it
  from an operator and reports it as enabled, but stores it under a name the gate
  never reads: every user's orders in every asset pass exactly as before.
\<close>

theorem global_switch_with_identifier_is_inert:
  "\<exists>ks'. manage_kill_switch True ks caller ''global'' (Some i) True = (ks', Inr (''global'', Some i, True))
     \<and> assert_risk_gate production fraction ks' redis u asset r = assert_risk_gate production fraction ks redis u asset r"
proof (intro exI conjI)
  show "manage_kill_switch True ks caller ''global'' (Some i) True =
      (List.insert (''global'', Some i) ks, Inr (''global'', Some i, True))"
    by (simp add: manage_kill_switch_def set_kill_switch_def normalized_id_def Let_def)
  have "local_block (List.insert (''global'', Some i) ks) u asset = local_block ks u asset"
    by (simp add: local_block_def)
  then show "assert_risk_gate production fraction (List.insert (''global'', Some i) ks) redis u asset r =
      assert_risk_gate production fraction ks redis u asset r" by (simp add: assert_risk_gate_def)
qed

section \<open>Canonical orders\<close>

lemma digits_pow: "digits_of (10 ^ n) = CHR ''1'' # replicate n (CHR ''0'')"
proof (induction n)
  case (Suc n)
  have "digits_of (10 * 10 ^ n) = digits_of (10 ^ n) @ [CHR ''0'']"
    by (subst digits_of.simps) (simp add: hex_digit_def)
  then show ?case using Suc by (simp add: replicate_append_same)
qed (simp add: digits_of.simps hex_digit_def)

lemma frac_digits_0: "frac_digits n 0 = []"
  by (cases n) simp_all

lemma fixed_text_pow16: "fixed_text (10 ^ 16) = CHR ''1'' # replicate 16 (CHR ''0'')"
proof -
  have "fl (10 ^ 16) = 10 ^ 16" using fl_exact [of "5 ^ 16" 16] by simp
  then have "repr_dec (10 ^ 16) = 10 ^ 16" by (rule repr_dec_pow)
  moreover have "nat \<lfloor>10 ^ 16 :: rat\<rfloor> = 10 ^ 16" by simp
  ultimately show ?thesis using digits_pow [of 16] by (simp add: fixed_text_def Let_def)
qed

text \<open>
  The signed text does not determine the limit price. \<open>_decimal\<close> strips
  trailing zeros from a number written without a decimal point, so a limit of
  \<open>10^16\<close> is signed as the text 1, and the canonical order a client signed for a
  limit of 1 is, byte for byte, the canonical order of the same order with a limit
  of \<open>10^16\<close>.
\<close>

theorem canonical_limit_is_ambiguous:
  "canonical_order ft (order\<lparr>o_limit := Some (10 ^ 16)\<rparr>) = canonical_order ft (order\<lparr>o_limit := Some 1\<rparr>)"
proof -
  have one: "repr_dec 1 = 1" using repr_dec_int [of 1] by simp
  have "decimal_field (Some (10 ^ 16)) = Some ''1''"
    unfolding decimal_field_def option.case fixed_text_pow16 by (simp add: rstrip_def eval_nat_numeral)
  moreover have "decimal_field (Some 1) = Some ''1''"
    by (simp add: decimal_field_def fixed_text_def one rstrip_def digits_of.simps hex_digit_def frac_digits_0 Let_def)
  ultimately show ?thesis by (simp add: canonical_order_def order_json_def)
qed

text \<open>
  An envelope that validates is fresh: its nonce is a URL-safe token, it was
  signed at most five minutes ago and at most thirty seconds in the future, and it
  expires in the future and within five minutes of its timestamp.
\<close>

theorem valid_envelope_is_fresh:
  "validate_envelope now timestamp expires_at nonce = Inr () \<longleftrightarrow>
     url_safe_token 16 128 nonce \<and> now - 300 \<le> timestamp \<and> timestamp \<le> now + 30
     \<and> now < expires_at \<and> timestamp < expires_at \<and> expires_at \<le> timestamp + 300"
  by (auto simp: validate_envelope_def MAX_ENVELOPE_TTL_def)

end
