(* ===== verification/Kill_Switches.thy ===== *)
theory Kill_Switches
  imports Order_Security
begin

text \<open>
  The kill switches across processes: the keys in Redis, the memory and the switch set
  of every API process, the endpoint of \<^verbatim>\<open>main.py\<close> as a step of one process, and the gate
  of \<^verbatim>\<open>order_security.py\<close> reading Redis from another one. What Redis does with a command
  that it answered is its documented behaviour (SET, DEL and EXISTS on one key); a
  command that failed may or may not have taken effect.
\<close>

section \<open>The world\<close>








section \<open>A switch stays on until it is cleared\<close>










section \<open>Property\<close>






end
