(* ===== verification/Order_Placement.thy ===== *)
theory Order_Placement
  imports Ledger_Invariants Order_Security
begin

text \<open>
  \<^verbatim>\<open>main.place_order\<close> of \<^verbatim>\<open>src/backend/main.py\<close>: the whole handler, over the paper
  broker's tables, the idempotency table and the order security records. Audit rows
  and webhooks, which it writes last, are left out. One record holds what the
  handler reads from outside: settings, clock, quote, marks, key material.
\<close>

section \<open>Request and environment\<close>

record order_request =
  q_asset :: string
  q_side :: side
  q_quantity :: pyfloat
  q_type :: order_type
  q_limit :: "pyfloat option"
  q_stop :: "pyfloat option"
  q_tif :: string
  q_order_id :: "string option"
  q_timestamp :: "int option"
  q_expires :: "int option"
  q_nonce :: "string option"
  q_key_id :: "string option"
  q_signature :: "string option"

datatype quoted = LiveQuote pyfloat | StaleQuote pyfloat | Unavailable

record place_env =
  e_production :: bool
  e_fraction :: pyfloat
  e_initial_cash :: pyfloat
  e_num :: "pyfloat \<Rightarrow> rat"
  e_mark :: "string \<Rightarrow> pyfloat option \<times> bool"
  e_quote :: quoted
  e_switches :: switches
  e_redis :: "(string \<Rightarrow> string option \<Rightarrow> bool option) option"
  e_seconds :: int
  e_now :: int
  e_new_id :: string
  e_token :: string
  e_verify :: "string \<Rightarrow> string \<Rightarrow> string \<Rightarrow> bool option"
  e_sign :: "string \<Rightarrow> string"
  e_keys :: "key_pair list"
  e_sha :: "string \<Rightarrow> string"
  e_float_text :: "pyfloat \<Rightarrow> string"
  e_iso :: "int \<Rightarrow> string"
  e_racer :: "idem_row option"

record place_world =
  w_broker :: "broker_db session"
  w_idem :: "idem_row list session"
  w_records :: "(string \<times> string \<times> string) list"

definition side_text :: "side \<Rightarrow> string" where
  "side_text sd = (case sd of Buy \<Rightarrow> ''buy'' | Sell \<Rightarrow> ''sell'')"

definition type_text :: "order_type \<Rightarrow> string" where
  "type_text ot = (case ot of MarketOrder \<Rightarrow> ''market'' | LimitOrder \<Rightarrow> ''limit'' | StopOrder \<Rightarrow> ''stop''
     | StopLimitOrder \<Rightarrow> ''stop_limit'')"

definition status_text :: "trade_status \<Rightarrow> string" where
  "status_text st = (case st of PENDING \<Rightarrow> ''PENDING'' | ACCEPTED \<Rightarrow> ''ACCEPTED'' | FILLED \<Rightarrow> ''FILLED''
     | CANCELLED \<Rightarrow> ''CANCELLED'' | REJECTED \<Rightarrow> ''REJECTED'' | EXPIRED \<Rightarrow> ''EXPIRED'')"

definition opt_float :: "pyfloat option \<Rightarrow> json" where
  "opt_float v = (case v of None \<Rightarrow> JNull | Some x \<Rightarrow> JFloat x)"

definition opt_int :: "int option \<Rightarrow> json" where
  "opt_int v = (case v of None \<Rightarrow> JNull | Some x \<Rightarrow> JInt x)"

text \<open>\<^verbatim>\<open>req.model_dump(exclude={"signature"})\<close>.\<close>

definition request_json :: "order_request \<Rightarrow> json" where
  "request_json q = JObj
     [(''asset'', JStr (q_asset q)), (''side'', JStr (side_text (q_side q))), (''quantity'', JFloat (q_quantity q)),
      (''order_type'', JStr (type_text (q_type q))), (''limit_price'', opt_float (q_limit q)),
      (''stop_price'', opt_float (q_stop q)), (''time_in_force'', JStr (q_tif q)),
      (''order_id'', opt_str (q_order_id q)), (''timestamp'', opt_int (q_timestamp q)),
      (''expires_at'', opt_int (q_expires q)), (''nonce'', opt_str (q_nonce q)), (''key_id'', opt_str (q_key_id q))]"

definition serialize_trade :: "(int \<Rightarrow> string) \<Rightarrow> string \<Rightarrow> trade \<Rightarrow> json" where
  "serialize_trade isotime signature t = JObj
     [(''order_id'', JStr (t_id t)), (''asset'', JStr (t_asset t)), (''side'', JStr (side_text (t_side t))),
      (''quantity'', JFloat (fl (t_quantity t))), (''order_type'', JStr (type_text (t_order_type t))),
      (''time_in_force'', JStr (t_tif t)), (''limit_price'', opt_float (map_option fl (t_limit t))),
      (''stop_price'', opt_float (map_option fl (t_stop t))), (''status'', JStr (status_text (t_status t))),
      (''filled_price'', opt_float (map_option fl (t_filled_price t))),
      (''pqc_signature_preview'', if signature = [] then JNull else JStr (take 32 signature @ ''...'')),
      (''submitted_at'', JStr (isotime (t_submitted_at t))),
      (''filled_at'', opt_str (map_option isotime (t_filled_at t)))]"

section \<open>Risk checks\<close>

definition prices_given :: "order_request \<Rightarrow> bool" where
  "prices_given q \<longleftrightarrow> \<not> (q_type q \<in> {LimitOrder, StopLimitOrder} \<and> q_limit q = None)
     \<and> \<not> (q_type q \<in> {StopOrder, StopLimitOrder} \<and> q_stop q = None)"

text \<open>The price observation, with whether it is stale.\<close>

definition observe :: "quoted \<Rightarrow> order_type \<Rightarrow> http_error + pyfloat \<times> bool" where
  "observe quoted ot =
     (case quoted of
        LiveQuote p \<Rightarrow> Inr (p, False)
      | StaleQuote p \<Rightarrow> if ot = MarketOrder then Inl (HTTP 409) else Inr (p, True)
      | Unavailable \<Rightarrow> Inl (HTTP 503))"

definition price_for_risk :: "order_request \<Rightarrow> pyfloat \<Rightarrow> pyfloat" where
  "price_for_risk q last_price =
     (case q_limit q of Some l \<Rightarrow> l
      | None \<Rightarrow> (case q_stop q of Some p \<Rightarrow> p | None \<Rightarrow> last_price))"

definition reserve_for :: "order_request \<Rightarrow> pyfloat \<Rightarrow> int" where
  "reserve_for q last_price =
     reservation_micros (q_side q) (FloatV (q_quantity q)) (q_type q) (map_option FloatV (q_limit q))
       (map_option FloatV (q_stop q)) (Some (FloatV last_price))"

definition projected_value :: "position_view option \<Rightarrow> int \<Rightarrow> order_request \<Rightarrow> pyfloat \<Rightarrow> pyfloat" where
  "projected_value pos buy_reserved q last_price =
     fadd (fadd (case pos of None \<Rightarrow> 0 | Some p \<Rightarrow> v_market_value p) (from_micros buy_reserved))
       (fmul (q_quantity q) (price_for_risk q last_price))"

text \<open>
  The checks between the price observation and the envelope, on the positions and
  open-order exposure read before the account row is opened. \<open>Inr\<close> carries the
  cash to reserve.
\<close>

definition risk_checks ::
  "place_env \<Rightarrow> position_view list \<Rightarrow> (string, int) dict \<times> (string, pyfloat) dict \<Rightarrow> account \<Rightarrow> string
     \<Rightarrow> order_request \<Rightarrow> pyfloat \<Rightarrow> http_error + int" where
  "risk_checks E ps exposure a u q last_price =
     (let pos = List.find (\<lambda>p. v_asset p = q_asset q) ps;
          held = (case pos of None \<Rightarrow> 0 | Some p \<Rightarrow> v_quantity p);
          sellable = fsub held (case dict_get (snd exposure) (q_asset q) of None \<Rightarrow> 0 | Some x \<Rightarrow> x);
          snap = account_snapshot (e_initial_cash E) a ps;
          reserve = reserve_for q last_price;
          cap = fmul (s_equity snap) (e_fraction E);
          buy_reserved = (case dict_get (fst exposure) (q_asset q) of None \<Rightarrow> 0 | Some x \<Rightarrow> x)
      in if q_side q = Sell \<and> fadd sellable (fl (1 / 10 ^ 9)) < q_quantity q then Inl (HTTP 400)
         else if q_side q = Buy \<and> fadd cap (fl (1 / 10 ^ 6)) < projected_value pos buy_reserved q last_price
         then Inl (HTTP 400)
         else if q_side q = Buy \<and> to_micros (FloatV (s_available_cash snap)) < reserve then Inl (HTTP 400)
         else case assert_risk_gate (e_production E) (e_fraction E) (e_switches E) (e_redis E) u (q_asset q)
                \<lparr>r_side = side_text (q_side q), r_quantity = q_quantity q, r_price = price_for_risk q last_price,
                 r_held = sellable, r_equity = s_equity snap,
                 r_gross = fadd (s_gross_exposure snap) (s_reserved_cash snap)\<rparr> of
                Inl e \<Rightarrow> Inl e | Inr _ \<Rightarrow> Inr reserve)"

section \<open>Envelope and authorisation\<close>

definition envelope_of :: "place_env \<Rightarrow> order_request \<Rightarrow> http_error + string \<times> int \<times> int \<times> string" where
  "envelope_of E q =
     (case (q_order_id q, q_timestamp q, q_expires q, q_nonce q) of
        (Some i, Some t, Some x, Some n) \<Rightarrow> Inr (i, t, x, n)
      | (None, None, None, None) \<Rightarrow>
          (case make_development_envelope (e_seconds E) (e_token E) of (t, x, n) \<Rightarrow> Inr (e_new_id E, t, x, n))
      | _ \<Rightarrow> Inl (HTTP 400))"

definition authorise :: "place_env \<Rightarrow> string \<Rightarrow> order_request \<Rightarrow> http_error + string \<times> string \<times> string" where
  "authorise E u q =
     (case envelope_of E q of
        Inl e \<Rightarrow> Inl e
      | Inr (i, t, x, n) \<Rightarrow>
         (case validate_envelope (e_seconds E) t x n of
            Inl e \<Rightarrow> Inl e
          | Inr _ \<Rightarrow>
             (case verify_or_attest (e_production E) (e_verify E) (e_sign E) (e_keys E) u
                 (canonical_order (e_float_text E)
                   \<lparr>o_id = i, o_user = u, o_asset = q_asset q, o_side = side_text (q_side q),
                    o_quantity = q_quantity q, o_type = type_text (q_type q), o_limit = q_limit q,
                    o_stop = q_stop q, o_tif = q_tif q, o_timestamp = t, o_expires = x, o_nonce = n\<rparr>)
                 (q_key_id q) (q_signature q) of
                Inl e \<Rightarrow> Inl e
              | Inr (kid, signature, mode) \<Rightarrow> Inr (i, n, signature))))"

section \<open>Execution\<close>

definition new_trade :: "place_env \<Rightarrow> string \<Rightarrow> order_request \<Rightarrow> string \<Rightarrow> trade" where
  "new_trade E u q i =
     \<lparr>t_id = i, t_user = u, t_asset = q_asset q, t_side = q_side q, t_quantity = e_num E (q_quantity q),
      t_order_type = q_type q, t_limit = map_option (e_num E) (q_limit q), t_stop = map_option (e_num E) (q_stop q),
      t_tif = q_tif q, t_status = PENDING, t_filled_price = None, t_submitted_at = e_now E, t_filled_at = None\<rparr>"

text \<open>The ORM write of the order type is unconditional; \<open>accept_order\<close> is not.\<close>

definition rest_order :: "bool \<Rightarrow> pyfloat \<Rightarrow> broker_db session \<Rightarrow> trade \<Rightarrow> broker_db session" where
  "rest_order stale last_price s t =
     (let s1 = (if \<not> stale \<and> t_order_type t = StopLimitOrder \<and> t_stop t \<noteq> None
                   \<and> stop_triggered (t_side t) (fl (the (t_stop t))) last_price
                then commit (upd (\<lambda>d. d\<lparr>trades := sql_update (\<lambda>x. t_id x = t_id t)
                                          (\<lambda>x. x\<lparr>t_order_type := LimitOrder\<rparr>) (trades d)\<rparr>) s)
                else s)
      in fst (accept_order s1 t))"

definition execute_new ::
  "place_env \<Rightarrow> bool \<Rightarrow> pyfloat \<Rightarrow> int \<Rightarrow> broker_db session \<Rightarrow> trade \<Rightarrow> broker_db session" where
  "execute_new E stale last_price reserve s t =
     (case (if stale then None
            else simulate_fill (t_side t) (t_order_type t) (map_option fl (t_limit t)) (map_option fl (t_stop t)) last_price) of
        Some p \<Rightarrow> fst (fill_order (e_num E) (e_now E) s t p (Some reserve))
      | None \<Rightarrow> if t_tif t = ''ioc'' then fst (close_order (e_now E) s t EXPIRED (Some reserve))
                else rest_order stale last_price s t)"

text \<open>From the reserved idempotency key to the response.\<close>

definition submit ::
  "place_env \<Rightarrow> place_world \<Rightarrow> string \<Rightarrow> order_request \<Rightarrow> string option \<Rightarrow> bool \<Rightarrow> pyfloat \<Rightarrow> int
     \<Rightarrow> string \<times> string \<times> string \<Rightarrow> place_world \<times> (http_error + json)" where
  "submit E w u q key stale last_price reserve auth =
     (case auth of (i, nonce, signature) \<Rightarrow>
       let released = w\<lparr>w_idem := release_idempotency (w_idem w) u key\<rparr>;
           t = new_trade E u q i
       in if find_row t_id i (trades (working (w_broker w))) \<noteq> None then (released, Inl (HTTP 409))
          else if \<not> snd (try_reserve (e_now E) (w_broker w) u reserve) then (released, Inl (HTTP 400))
          else if list_ex (\<lambda>r. fst (snd r) = u \<and> snd (snd r) = nonce) (w_records w) then (released, Inl (HTTP 409))
          else let s1 = fst (place_reserved (e_now E) (w_broker w) t reserve);
                   s2 = execute_new E stale last_price reserve s1 (refresh_trade s1 t);
                   response = serialize_trade (e_iso E) signature (refresh_trade s2 t)
               in (w\<lparr>w_broker := s2, w_records := w_records w @ [(i, u, nonce)],
                     w_idem := complete_idempotency (w_idem w) u key response\<rparr>, Inr response))"

definition authorised ::
  "place_env \<Rightarrow> place_world \<Rightarrow> string \<Rightarrow> order_request \<Rightarrow> string option \<Rightarrow> string \<Rightarrow> bool \<Rightarrow> pyfloat \<Rightarrow> int
     \<Rightarrow> place_world \<times> (http_error + json)" where
  "authorised E w u q key payload_hash stale last_price reserve =
     (case authorise E u q of
        Inl e \<Rightarrow> (w, Inl e)
      | Inr auth \<Rightarrow>
         (let (idem, r) = reserve_idempotency (e_production E) (e_racer E) (w_idem w) u key payload_hash;
              w1 = w\<lparr>w_idem := idem\<rparr>
          in (case r of
                Inl e \<Rightarrow> (w1, Inl e)
              | Inr (Some cached) \<Rightarrow> (w1, Inr cached)
              | Inr None \<Rightarrow> submit E w1 u q key stale last_price reserve auth)))"

definition place_order ::
  "place_env \<Rightarrow> place_world \<Rightarrow> string \<Rightarrow> order_request \<Rightarrow> string option \<Rightarrow> place_world \<times> (http_error + json)" where
  "place_order E w u q key =
     (if \<not> prices_given q then (w, Inl (HTTP 400))
      else let payload_hash = request_hash (e_sha E) (e_float_text E) (request_json q) in
      case get_completed_response (e_production E) (w_idem w) u key payload_hash of
        Inl e \<Rightarrow> (w, Inl e)
      | Inr (Some cached) \<Rightarrow> (w, Inr cached)
      | Inr None \<Rightarrow>
         (case observe (e_quote E) (q_type q) of
            Inl e \<Rightarrow> (w, Inl e)
          | Inr (last_price, stale) \<Rightarrow>
             (let d = working (w_broker w);
                  ps = get_positions_with_pnl (e_mark E) d u;
                  exposure = open_order_exposure d u;
                  (s, account) = get_or_create_account (e_initial_cash E) None (e_now E) (w_broker w) u;
                  w1 = w\<lparr>w_broker := s\<rparr>
              in (case account of
                    None \<Rightarrow> (w1, Inl (HTTP 500))
                  | Some a \<Rightarrow>
                     (case risk_checks E ps exposure a u q last_price of
                        Inl e \<Rightarrow> (w1, Inl e)
                      | Inr reserve \<Rightarrow> authorised E w1 u q key payload_hash stale last_price reserve)))))"

end
