(* ===== verification/Order_Placement_Properties.thy ===== *)
theory Order_Placement_Properties
  imports Order_Placement
begin

text \<open>The properties of \<^verbatim>\<open>place_order\<close>: the ledger, its failures, its retries and its risk checks.\<close>

section \<open>Paths through the handler\<close>

lemma open_account_trades:
  "trades (working (fst (get_or_create_account initial None now s u))) = trades (working s)"
  "committed s = working s \<Longrightarrow>
     committed (fst (get_or_create_account initial None now s u)) = working (fst (get_or_create_account initial None now s u))"
  by (auto simp: get_or_create_account_def Let_def split: option.splits prod.splits)

lemma place_order_paths:
  obtains (early) e where "place_order E w u q key = (w, Inl e)"
  | (cached) r where "place_order E w u q key = (w, Inr r)"
      "get_completed_response (e_production E) (w_idem w) u key
         (request_hash (e_sha E) (e_float_text E) (request_json q)) = Inr (Some r)"
  | (refused) e where "place_order E w u q key =
      (w\<lparr>w_broker := fst (get_or_create_account (e_initial_cash E) None (e_now E) (w_broker w) u)\<rparr>, Inl e)"
  | (authorised) last_price stale reserve a where
      "observe (e_quote E) (q_type q) = Inr (last_price, stale)"
      "risk_checks E (get_positions_with_pnl (e_mark E) (working (w_broker w)) u)
         (open_order_exposure (working (w_broker w)) u) a u q last_price = Inr reserve"
      "place_order E w u q key =
      authorised E (w\<lparr>w_broker := fst (get_or_create_account (e_initial_cash E) None (e_now E) (w_broker w) u)\<rparr>)
        u q key (request_hash (e_sha E) (e_float_text E) (request_json q)) stale last_price reserve"
proof -
  let ?h = "request_hash (e_sha E) (e_float_text E) (request_json q)"
  let ?g = "get_completed_response (e_production E) (w_idem w) u key ?h"
  obtain s acc where s: "get_or_create_account (e_initial_cash E) None (e_now E) (w_broker w) u = (s, acc)" by fastforce
  note unfold = place_order_def Let_def s
  show thesis
  proof (cases "prices_given q")
    case False
    then show thesis by (intro early [of "HTTP 400"]) (simp add: place_order_def)
  next
    case pg: True
    show thesis
    proof (cases ?g)
      case (Inl e)
      then show thesis using pg by (intro early [of e]) (simp add: place_order_def)
    next
      case g: (Inr c)
      show thesis
      proof (cases c)
        case (Some r)
        then show thesis using pg g by (intro cached [of r]) (simp_all add: place_order_def)
      next
        case None
        show thesis
        proof (cases "observe (e_quote E) (q_type q)")
          case (Inl e)
          then show thesis using pg g None by (intro early [of e]) (simp add: place_order_def)
        next
          case o: (Inr lp)
          obtain last_price stale where lp: "lp = (last_price, stale)" by fastforce
          show thesis
          proof (cases acc)
            case None
            then show thesis using pg g o lp \<open>c = None\<close> s by (intro refused [of "HTTP 500"]) (simp add: place_order_def)
          next
            case (Some a)
            show thesis
            proof (cases "risk_checks E (get_positions_with_pnl (e_mark E) (working (w_broker w)) u)
                (open_order_exposure (working (w_broker w)) u) a u q last_price")
              case (Inl e)
              then show thesis using pg g o lp \<open>c = None\<close> Some s by (intro refused [of e]) (simp add: place_order_def Let_def)
            next
              case (Inr reserve)
              then show thesis using pg g o lp \<open>c = None\<close> Some s
                by (intro authorised [of last_price stale a reserve]) (simp_all add: place_order_def Let_def)
            qed
          qed
        qed
      qed
    qed
  qed
qed

lemma authorised_paths:
  obtains (early) e where "authorised E w u q key h stale last_price reserve = (w, Inl e)"
  | (answered) idem r where "reserve_idempotency (e_production E) (e_racer E) (w_idem w) u key h = (idem, r)" "r \<noteq> Inr None"
      "authorised E w u q key h stale last_price reserve =
         (w\<lparr>w_idem := idem\<rparr>, case r of Inl e \<Rightarrow> Inl e | Inr c \<Rightarrow> Inr (the c))"
  | (submitted) idem auth where
      "reserve_idempotency (e_production E) (e_racer E) (w_idem w) u key h = (idem, Inr None)"
      "authorised E w u q key h stale last_price reserve =
         submit E (w\<lparr>w_idem := idem\<rparr>) u q key stale last_price reserve auth"
proof (cases "authorise E u q")
  case (Inl e)
  then show thesis by (intro early [of e]) (simp add: authorised_def)
next
  case (Inr auth)
  obtain idem r where r: "reserve_idempotency (e_production E) (e_racer E) (w_idem w) u key h = (idem, r)" by fastforce
  show thesis
  proof (cases "r = Inr None")
    case True
    then show thesis using Inr r by (intro submitted [of idem auth]) (simp_all add: authorised_def)
  next
    case False
    have "authorised E w u q key h stale last_price reserve =
        (w\<lparr>w_idem := idem\<rparr>, case r of Inl e \<Rightarrow> Inl e | Inr c \<Rightarrow> Inr (the c))"
    proof (cases r)
      case (Inr c)
      then show ?thesis using False r \<open>authorise E u q = Inr auth\<close> by (cases c) (simp_all add: authorised_def Let_def)
    qed (use r Inr in \<open>simp add: authorised_def\<close>)
    then show thesis using r False by (rule_tac answered)
  qed
qed

section \<open>The ledger\<close>

definition sound_env :: "place_env \<Rightarrow> order_request \<Rightarrow> bool" where
  "sound_env E q \<longleftrightarrow> (\<forall>x. 0 \<le> x \<longrightarrow> 0 \<le> e_num E x) \<and> 0 \<le> e_initial_cash E \<and> 0 \<le> q_quantity q
     \<and> (case q_limit q of None \<Rightarrow> True | Some l \<Rightarrow> 0 \<le> l) \<and> (case q_stop q of None \<Rightarrow> True | Some l \<Rightarrow> 0 \<le> l)
     \<and> (case e_quote E of LiveQuote p \<Rightarrow> 0 \<le> p | StaleQuote p \<Rightarrow> 0 \<le> p | Unavailable \<Rightarrow> True)"

lemma simulate_fill_nonneg:
  assumes "simulate_fill sd ot l s last_price = Some p" "0 \<le> last_price"
    "\<And>x. l = Some x \<Longrightarrow> 0 \<le> x"
  shows "0 \<le> p"
  using assms by (auto simp: simulate_fill_def Let_def pyround_nonneg split: if_splits option.splits)

lemma new_trade_nonneg: "sound_env E q \<Longrightarrow> nonneg_trade (new_trade E u q i)"
  by (auto simp: sound_env_def new_trade_def nonneg_trade_def split: option.splits)

lemma refresh_nonneg:
  "broker_inv s \<Longrightarrow> nonneg_trade t \<Longrightarrow> nonneg_trade (refresh_trade s t)"
  using find_row_Some by (fastforce simp: refresh_trade_def broker_inv_def tables_inv_def split: option.splits)

lemma rest_inv: "broker_inv s \<Longrightarrow> broker_inv (rest_order stale last_price s t)"
proof -
  assume s: "broker_inv s"
  have "broker_inv (commit (upd (\<lambda>d. d\<lparr>trades := sql_update (\<lambda>x. t_id x = t_id t)
      (\<lambda>x. x\<lparr>t_order_type := LimitOrder\<rparr>) (trades d)\<rparr>) s))"
    using s by (simp add: broker_inv_def ledger_inv_accounts tables_inv_update)
  then show ?thesis using s by (simp add: rest_order_def Let_def accept_inv)
qed

lemma execute_inv:
  assumes "broker_inv s" "nonneg_trade t" "0 \<le> last_price" "\<And>x. 0 \<le> x \<Longrightarrow> 0 \<le> e_num E x" "0 \<le> reserve \<or> stale"
    and "0 \<le> reserve"
  shows "broker_inv (execute_new E stale last_price reserve s t)"
proof -
  have "0 \<le> p" if "simulate_fill (t_side t) (t_order_type t) (map_option fl (t_limit t)) (map_option fl (t_stop t))
      last_price = Some p" for p
    using that assms(2,3) by (rule_tac simulate_fill_nonneg) (auto simp: nonneg_trade_def fl_nonneg)
  then have "broker_inv (fst (fill_order (e_num E) (e_now E) s t p (Some reserve)))"
    if "simulate_fill (t_side t) (t_order_type t) (map_option fl (t_limit t)) (map_option fl (t_stop t)) last_price = Some p" for p
    using that assms(1,2,6) by (intro fill_inv) auto
  then show ?thesis using assms(1) close_inv [OF assms(1)] rest_inv [OF assms(1)]
    by (auto simp: execute_new_def split: option.splits)
qed

lemma reserve_for_nonneg: "sound_env E q \<Longrightarrow> 0 \<le> last_price \<Longrightarrow> 0 \<le> reserve_for q last_price"
proof -
  assume s: "sound_env E q" and p: "0 \<le> last_price"
  have n: "0 \<le> notional_micros (FloatV (q_quantity q)) (FloatV x)" if "0 \<le> x" for x
    using s that by (intro notional_nonneg) (simp_all add: sound_env_def)
  have "\<And>x. q_limit q = Some x \<Longrightarrow> 0 \<le> x" "\<And>x. q_stop q = Some x \<Longrightarrow> 0 \<le> x"
    using s by (simp_all add: sound_env_def)
  then show ?thesis using n p
    by (cases "q_limit q"; cases "q_stop q") (simp_all add: reserve_for_def reservation_micros_def Let_def)
qed

lemma submit_inv:
  assumes "broker_inv (w_broker w)" "sound_env E q" "0 \<le> last_price" "0 \<le> reserve"
  shows "broker_inv (w_broker (fst (submit E w u q key stale last_price reserve auth)))"
proof -
  obtain i nonce signature where a: "auth = (i, nonce, signature)" by (cases auth) auto
  let ?s1 = "fst (place_reserved (e_now E) (w_broker w) (new_trade E u q i) reserve)"
  have s1: "broker_inv ?s1" using place_inv [OF assms(1) new_trade_nonneg [OF assms(2)]] .
  have "nonneg_trade (refresh_trade ?s1 (new_trade E u q i))"
    using refresh_nonneg [OF s1 new_trade_nonneg [OF assms(2)]] .
  then have "broker_inv (execute_new E stale last_price reserve ?s1 (refresh_trade ?s1 (new_trade E u q i)))"
    using s1 assms by (intro execute_inv) (auto simp: sound_env_def)
  then show ?thesis using assms(1) by (simp add: submit_def a Let_def)
qed

lemma risk_checks_Inr:
  assumes "risk_checks E ps exposure a u q last_price = Inr reserve"
  shows "reserve = reserve_for q last_price
    \<and> (q_side q = Buy \<longrightarrow>
        projected_value (List.find (\<lambda>p. v_asset p = q_asset q) ps)
          (case dict_get (fst exposure) (q_asset q) of None \<Rightarrow> 0 | Some x \<Rightarrow> x) q last_price
        \<le> fadd (fmul (s_equity (account_snapshot (e_initial_cash E) a ps)) (e_fraction E)) (fl (1 / 10 ^ 6))
      \<and> reserve \<le> to_micros (FloatV (s_available_cash (account_snapshot (e_initial_cash E) a ps))))
    \<and> \<not> local_block (e_switches E) u (q_asset q)"
  using assms
  by (auto simp: risk_checks_def Let_def not_less assert_risk_gate_def split: if_splits sum.splits)

text \<open>
  C9: placing an order never overdraws the account. Whatever the request, the
  quotes and the outcome (refused, resting, filled, expired or rejected at the
  fill), the handler leaves every account's reserved cash between zero and its
  cash, every id unique, and nothing uncommitted.
\<close>

theorem place_order_keeps_ledger:
  assumes "broker_inv (w_broker w)" "sound_env E q"
  shows "broker_inv (w_broker (fst (place_order E w u q key)))"
proof -
  let ?w1 = "w\<lparr>w_broker := fst (get_or_create_account (e_initial_cash E) None (e_now E) (w_broker w) u)\<rparr>"
  have w1: "broker_inv (w_broker ?w1)" using open_inv [OF assms(1)] by simp
  show ?thesis
  proof (cases rule: place_order_paths [where E = E and w = w and u = u and q = q and key = key])
    case (authorised last_price stale reserve a)
    have "0 \<le> last_price"
      using authorised(1) assms(2) by (auto simp: observe_def sound_env_def split: quoted.splits if_splits)
    then have "0 \<le> reserve" using risk_checks_Inr [OF authorised(2)] reserve_for_nonneg [OF assms(2)] by simp
    note sub = submit_inv [OF _ assms(2) \<open>0 \<le> last_price\<close> this]
    have "broker_inv (w_broker (fst (authorised E ?w1 u q key h stale last_price reserve)))" for h
      by (cases rule: authorised_paths [where E = E and w = ?w1 and u = u and q = q and key = key and h = h
          and stale = stale and last_price = last_price and reserve = reserve]) (use w1 sub in auto)
    then show ?thesis using authorised(3) by simp
  qed (use assms(1) w1 in auto)
qed

section \<open>A concrete order\<close>

definition demo_env :: "pyfloat \<Rightarrow> place_env" where
  "demo_env last_price =
     \<lparr>e_production = False, e_fraction = 1/16, e_initial_cash = 100000, e_num = (\<lambda>x. x),
      e_mark = (\<lambda>_. (None, True)), e_quote = LiveQuote last_price, e_switches = [], e_redis = None,
      e_seconds = 1000, e_now = 5, e_new_id = ''o1'', e_token = ''aaaaaaaaaaaaaaaa'',
      e_verify = (\<lambda>_ _ _. None), e_sign = (\<lambda>m. ''sig''), e_keys = [], e_sha = (\<lambda>x. x),
      e_float_text = (\<lambda>_. ''0''), e_iso = (\<lambda>_. ''t''), e_racer = None\<rparr>"

definition demo_request :: "order_type \<Rightarrow> pyfloat option \<Rightarrow> order_request" where
  "demo_request ot l =
     \<lparr>q_asset = ''X'', q_side = Buy, q_quantity = 100, q_type = ot, q_limit = l, q_stop = None, q_tif = ''day'',
      q_order_id = None, q_timestamp = None, q_expires = None, q_nonce = None, q_key_id = None, q_signature = None\<rparr>"

definition demo_account :: account where
  "demo_account = \<lparr>a_user = ''u'', cash_micros = 100000000000, reserved_micros = 0, a_updated_at = 0\<rparr>"

definition demo_world :: place_world where
  "demo_world = \<lparr>w_broker = fresh_session \<lparr>accounts = [demo_account], trades = [], positions = []\<rparr>,
     w_idem = fresh_session [], w_records = []\<rparr>"

lemma demo_world_inv: "broker_inv (w_broker demo_world)" "idem_inv (w_idem demo_world)"
  by (simp_all add: demo_world_def broker_inv_def ledger_inv_def tables_inv_def demo_account_def idem_inv_def)

lemma demo_sound: "0 \<le> p \<Longrightarrow> sound_env (demo_env p) (demo_request ot None)"
  by (simp add: sound_env_def demo_env_def demo_request_def)

theorem place_order_keeps_ledger_witness:
  "broker_inv (w_broker (fst (place_order (demo_env 10) demo_world ''u'' (demo_request MarketOrder None) None)))"
  using place_order_keeps_ledger [OF demo_world_inv(1) demo_sound] by simp

section \<open>Failures and retries\<close>

text \<open>
  A refused order leaves nothing behind. When \<open>place_order\<close> answers with an
  error, no order row and no security record exists that was not there before, no
  account's cash or reservation has changed (at most the caller's account row has
  been opened), and the idempotency key is free again, so the corrected order can be
  sent under it.
\<close>

theorem refused_order_leaves_nothing:
  assumes "idem_inv (w_idem w)" "e_racer E = None"
    and "place_order E w u q key = (w', Inl e)"
  shows "w_records w' = w_records w \<and> w_idem w' = w_idem w
    \<and> (w_broker w' = w_broker w
       \<or> w_broker w' = fst (get_or_create_account (e_initial_cash E) None (e_now E) (w_broker w) u))"
proof -
  let ?w1 = "w\<lparr>w_broker := fst (get_or_create_account (e_initial_cash E) None (e_now E) (w_broker w) u)\<rparr>"
  have freed: "release_idempotency idem u key = w_idem w"
    if r: "reserve_idempotency (e_production E) None (w_idem w) u key h = (idem, Inr None)" for h idem
  proof (cases "truthy key")
    case True
    have none: "List.find (idem_match u (the key)) (working (w_idem w)) = None"
      and idem: "idem = commit (upd (\<lambda>d. d @ [\<lparr>i_user = u, i_key = the key, i_hash = h, i_response = None\<rparr>]) (w_idem w))"
      using r True by (auto simp: reserve_idempotency_def answer_existing_def split: sum.splits option.splits if_splits)
    have "filter (\<lambda>r. \<not> (idem_match u (the key) r \<and> i_response r = None)) (working (w_idem w)) = working (w_idem w)"
      using none unfolding find_none by (intro filter_True) blast
    moreover have "committed (w_idem w) = working (w_idem w)" using assms(1) by (simp add: idem_inv_def)
    ultimately show ?thesis using True
      by (cases "w_idem w") (simp add: idem release_idempotency_def commit_def upd_def idem_match_def)
  next
    case False
    then show ?thesis using r by (auto simp: reserve_idempotency_def release_idempotency_def split: sum.splits)
  qed
  have kept: "idem = w_idem w"
    if "reserve_idempotency (e_production E) None (w_idem w) u key h = (idem, r)" "r \<noteq> Inr None" for h idem r
    using that by (auto simp: reserve_idempotency_def split: sum.splits option.splits if_splits)
  show ?thesis
  proof (cases rule: place_order_paths [where E = E and w = w and u = u and q = q and key = key])
    case (authorised last_price stale reserve a)
    note p = authorised(3)
    let ?h = "request_hash (e_sha E) (e_float_text E) (request_json q)"
    show ?thesis
    proof (cases rule: authorised_paths [where E = E and w = ?w1 and u = u and q = q and key = key and h = ?h
          and stale = stale and last_price = last_price and reserve = reserve])
      case (early e)
      then show ?thesis using p assms(3) by auto
    next
      case (answered idem r)
      then show ?thesis using p assms(2,3) kept [of ?h idem r] by auto
    next
      case (submitted idem auth)
      then have "release_idempotency idem u key = w_idem w" using freed assms(2) by simp
      then show ?thesis using p submitted(2) assms(3)
        by (cases auth) (auto simp: submit_def Let_def split: if_splits)
    qed
  qed (use assms(3) in auto)
qed

lemma demo_key2: "url_safe_token 8 128 ''retry-key-1''" "truthy (Some ''retry-key-1'')"
  by (simp_all add: url_safe_token_def url_safe_def truthy_def)

theorem refused_order_leaves_nothing_witness:
  "\<exists>w' e. place_order ((demo_env 10)\<lparr>e_quote := Unavailable\<rparr>) demo_world ''u'' (demo_request MarketOrder None)
        (Some ''retry-key-1'') = (w', Inl e) \<and> w_idem w' = w_idem demo_world"
proof -
  let ?E = "(demo_env 10)\<lparr>e_quote := Unavailable\<rparr>"
  have "place_order ?E demo_world ''u'' (demo_request MarketOrder None) (Some ''retry-key-1'') = (demo_world, Inl (HTTP 503))"
    by (simp add: place_order_def prices_given_def demo_request_def get_completed_response_def
        validate_idempotency_key_def demo_key2 demo_env_def demo_world_def observe_def)
  from refused_order_leaves_nothing [OF demo_world_inv(2) _ this] this show ?thesis
    by (auto simp: demo_env_def)
qed

lemma completed_answer:
  assumes "truthy (Some k)" "url_safe_token 8 128 k" "List.find (idem_match u k) (working s) = Some r"
    and "i_hash r = h" "i_response r = Some j"
  shows "get_completed_response p s u (Some k) h = Inr (Some j)"
  using assms by (simp add: get_completed_response_def validate_idempotency_key_def answer_existing_def)

lemma find_append: "List.find P (xs @ ys) = (case List.find P xs of Some x \<Rightarrow> Some x | None \<Rightarrow> List.find P ys)"
  by (induction xs) auto

lemma find_sql_update:
  assumes "\<And>r. P (f r) = P r" "List.find P rs = Some r"
  shows "List.find P (sql_update P f rs) = Some (f r)"
  using assms by (induction rs) (auto simp: sql_update_def split: if_splits)

text \<open>
  C10: retrying an order is safe. When \<open>place_order\<close> has answered a request sent with
  an idempotency key, the same request with the same key, however much later and
  whatever the market, the clock and the risk state then are, returns the same
  response and executes nothing: no state changes at all.
\<close>

theorem retry_returns_same_response:
  assumes "place_order E w u q (Some k) = (w', Inr response)" "k \<noteq> []" "committed (w_idem w) = working (w_idem w)"
    and "case e_racer E of None \<Rightarrow> True | Some r \<Rightarrow> idem_match u k r"
    and "e_sha E' = e_sha E" "e_float_text E' = e_float_text E"
  shows "place_order E' w' u q (Some k) = (w', Inr response)"
proof -
  let ?h = "request_hash (e_sha E) (e_float_text E) (request_json q)"
  let ?w1 = "w\<lparr>w_broker := fst (get_or_create_account (e_initial_cash E) None (e_now E) (w_broker w) u)\<rparr>"
  have k: "truthy (Some k)" using assms(2) by (simp add: truthy_def)
  have pg: "prices_given q" using assms(1) by (auto simp: place_order_def split: if_splits)
  have valid: "url_safe_token 8 128 k"
  proof (rule ccontr)
    assume "\<not> url_safe_token 8 128 k"
    then show False using assms(1) pg k
      by (simp add: place_order_def get_completed_response_def validate_idempotency_key_def)
  qed
  have existing: "\<exists>r. List.find (idem_match u k) (working (w_idem w')) = Some r \<and> i_hash r = ?h \<and> i_response r = Some response"
  proof (cases rule: place_order_paths [where E = E and w = w and u = u and q = q and key = "Some k"])
    case (cached r)
    then show ?thesis using assms(1) k valid
      by (auto simp: get_completed_response_def validate_idempotency_key_def answer_existing_def
          split: option.splits if_splits)
  next
    case (authorised last_price stale reserve a)
    note p = authorised(3)
    show ?thesis
    proof (cases rule: authorised_paths [where E = E and w = ?w1 and u = u and q = q and key = "Some k" and h = ?h
          and stale = stale and last_price = last_price and reserve = reserve])
      case (early e)
      then show ?thesis using p assms(1) by simp
    next
      case (answered idem r)
      then obtain c where c: "r = Inr (Some c)" "response = c" "w_idem w' = idem"
        using p assms(1) by (cases r) auto
      have "\<exists>r. List.find (idem_match u k) (working idem) = Some r \<and> i_hash r = ?h \<and> i_response r = Some c"
        using answered(1) c(1) k valid assms(3,4)
        by (auto simp: reserve_idempotency_def validate_idempotency_key_def answer_existing_def find_append
            rollback_def Let_def split: option.splits if_splits)
      then show ?thesis using c by simp
    next
      case (submitted idem auth)
      let ?row = "\<lparr>i_user = u, i_key = k, i_hash = ?h, i_response = None\<rparr>"
      have "List.find (idem_match u k) (working idem) = Some ?row"
        using submitted(1) k valid
        by (auto simp: reserve_idempotency_def validate_idempotency_key_def answer_existing_def find_append
            idem_match_def Let_def split: option.splits if_splits)
      moreover from this have "List.find (idem_match u k)
          (sql_update (idem_match u k) (\<lambda>r. r\<lparr>i_response := Some response\<rparr>) (working idem)) =
          Some (?row\<lparr>i_response := Some response\<rparr>)"
        by (intro find_sql_update) (simp_all add: idem_match_def)
      moreover have "w_idem w' = complete_idempotency idem u (Some k) response"
        using p submitted(2) assms(1) by (cases auth) (auto simp: submit_def Let_def split: if_splits)
      ultimately show ?thesis using k by (simp add: complete_idempotency_def)
    qed
  qed (use assms(1) in auto)
  then show ?thesis using pg completed_answer [OF k valid] assms(5,6)
    by (auto simp: place_order_def)
qed

text \<open>
  An order that passes the risk checks is covered at its worst price. For a
  request without a stray price (a limit only on limit and stop-limit orders, a stop
  only on stop and stop-limit orders), the price the position limit is computed at
  is the price the cash is reserved at: the projected value of the position is within
  the configured fraction of equity, and the reserved cost of the whole quantity is
  within the available cash.
\<close>

theorem buy_is_sized_at_reserved_price:
  assumes "risk_checks E ps exposure a u q last_price = Inr reserve" "q_side q = Buy" "prices_given q"
    and "q_type q \<notin> {LimitOrder, StopLimitOrder} \<Longrightarrow> q_limit q = None"
    and "q_type q \<notin> {StopOrder, StopLimitOrder} \<Longrightarrow> q_stop q = None"
  shows "reserve = notional_micros (FloatV (q_quantity q)) (FloatV (price_for_risk q last_price))
    \<and> reserve \<le> to_micros (FloatV (s_available_cash (account_snapshot (e_initial_cash E) a ps)))
    \<and> projected_value (List.find (\<lambda>p. v_asset p = q_asset q) ps)
        (case dict_get (fst exposure) (q_asset q) of None \<Rightarrow> 0 | Some x \<Rightarrow> x) q last_price
      \<le> fadd (fmul (s_equity (account_snapshot (e_initial_cash E) a ps)) (e_fraction E)) (fl (1 / 10 ^ 6))"
proof -
  have "reserve_for q last_price = notional_micros (FloatV (q_quantity q)) (FloatV (price_for_risk q last_price))"
    using assms(2-5)
    by (cases "q_type q"; cases "q_limit q"; cases "q_stop q")
       (simp_all add: reserve_for_def reservation_micros_def price_for_risk_def prices_given_def)
  then show ?thesis using risk_checks_Inr [OF assms(1)] assms(2) by simp
qed

lemma demo_snapshot:
  "s_equity (account_snapshot 100000 demo_account []) = 100000"
  "s_available_cash (account_snapshot 100000 demo_account []) = 100000"
  "s_gross_exposure (account_snapshot 100000 demo_account []) = 0"
  "s_reserved_cash (account_snapshot 100000 demo_account []) = 0"
proof -
  have "pyround 100000 6 = (100000 :: rat)" "pyround 0 6 = (0 :: rat)"
    using pyround_of_int [of 100000 6] pyround_of_int [of 0 6] by simp_all
  then show "s_equity (account_snapshot 100000 demo_account []) = 100000"
    "s_available_cash (account_snapshot 100000 demo_account []) = 100000"
    "s_gross_exposure (account_snapshot 100000 demo_account []) = 0"
    "s_reserved_cash (account_snapshot 100000 demo_account []) = 0"
    by (simp_all add: account_snapshot_def demo_account_def from_micros_def fadd_def fsub_def Let_def)
qed

lemma demo_checks:
  assumes "0 \<le> last_price" "fmul 100 (price_for_risk (demo_request ot l) last_price) = of_nat n" "n \<le> 6250"
    and "reserve_for (demo_request ot l) last_price \<le> 100000000000"
  shows "risk_checks (demo_env last_price) [] ([], []) demo_account ''u'' (demo_request ot l) last_price =
    Inr (reserve_for (demo_request ot l) last_price)"
proof -
  have n: "(of_nat n :: rat) \<le> 6250" "(0 :: rat) \<le> of_nat n" using assms(3) by simp_all
  have f: "fl (of_nat n) = of_nat n" using fl_of_int [of "int n"] assms(3) by simp
  have c: "fmul 100000 (1 / 16) = 6250" by (simp add: fmul_def)
  have "(0 :: rat) \<le> fl (1 / 10 ^ 6)" by (rule fl_nonneg) simp
  then have "fl 6250 \<le> fadd 6250 (fl (1 / 10 ^ 6))" unfolding fadd_def by (intro fl_mono) simp
  then have "of_nat n \<le> fadd 6250 (fl (1 / 10 ^ 6))" using n by simp
  then have "\<not> fadd 6250 (fl (1 / 10 ^ 6)) < of_nat n" by simp
  moreover have "to_micros (FloatV 100000) = 100000000000"
    using round_half_up_of_int [of 100000000000] by (simp add: to_micros_def dmul_def)
  ultimately show ?thesis using assms(2,4) n f c
    by (simp add: risk_checks_def demo_snapshot demo_env_def demo_request_def assert_risk_gate_def local_block_def
        risk_limits_def projected_value_def from_micros_def side_text_def fadd_def Let_def)
qed

theorem buy_is_sized_at_reserved_price_witness:
  "risk_checks (demo_env 10) [] ([], []) demo_account ''u'' (demo_request MarketOrder None) 10 = Inr 1000000000
   \<and> notional_micros (FloatV 100) (FloatV 10) = 1000000000"
proof -
  have r: "notional_micros (FloatV 100) (FloatV 10) = 1000000000"
    using round_half_up_of_int [of 1000000000] by (simp add: notional_micros_def to_micros_def dmul_def)
  then have rf: "reserve_for (demo_request MarketOrder None) 10 = 1000000000"
    by (simp add: reserve_for_def reservation_micros_def demo_request_def)
  have c: "risk_checks (demo_env 10) [] ([], []) demo_account ''u'' (demo_request MarketOrder None) 10 = Inr 1000000000"
    using demo_checks [of 10 MarketOrder None 1000] rf by (simp add: price_for_risk_def demo_request_def fmul_def)
  from buy_is_sized_at_reserved_price [OF c] show ?thesis using r c
    by (simp add: demo_request_def prices_given_def)
qed

lemma demo_places:
  "\<exists>w' r. place_order (demo_env 10) demo_world ''u'' (demo_request MarketOrder None) (Some ''retry-key-1'') = (w', Inr r)"
proof -
  let ?E = "demo_env 10" and ?q = "demo_request MarketOrder None" and ?k = "Some ''retry-key-1''"
  let ?h = "request_hash (e_sha ?E) (e_float_text ?E) (request_json ?q)"
  have n: "notional_micros (FloatV 100) (FloatV 10) = 1000000000"
    using round_half_up_of_int [of 1000000000] by (simp add: notional_micros_def to_micros_def dmul_def)
  then have rf: "reserve_for ?q 10 = 1000000000"
    by (simp add: reserve_for_def reservation_micros_def demo_request_def)
  have risk: "risk_checks ?E [] ([], []) demo_account ''u'' ?q 10 = Inr 1000000000"
    using demo_checks [of 10 MarketOrder None 1000] rf by (simp add: price_for_risk_def demo_request_def fmul_def)
  have acc: "get_or_create_account 100000 None 5 (w_broker demo_world) ''u'' = (w_broker demo_world, Some demo_account)"
    by (simp add: get_or_create_account_def demo_world_def find_row_def demo_account_def)
  have auth: "authorise ?E ''u'' ?q = Inr (''o1'', ''aaaaaaaaaaaaaaaa'', ''sig'')"
    by (simp add: authorise_def envelope_of_def demo_request_def make_development_envelope_def demo_env_def
        validate_envelope_def url_safe_token_def url_safe_def MAX_ENVELOPE_TTL_def verify_or_attest_def truthy_def)
  obtain idem where idem: "reserve_idempotency False None (fresh_session []) ''u'' ?k ?h = (idem, Inr None)"
    by (simp add: reserve_idempotency_def validate_idempotency_key_def demo_key2)
  have res: "snd (try_reserve 5 (w_broker demo_world) ''u'' 1000000000)"
    by (simp add: try_reserve_def demo_world_def rowcount_def reserve_guard_def demo_account_def)
  have sub: "\<exists>w' r. submit ?E (demo_world\<lparr>w_idem := idem\<rparr>) ''u'' ?q ?k False 10 1000000000
      (''o1'', ''aaaaaaaaaaaaaaaa'', ''sig'') = (w', Inr r)"
    using res by (simp add: submit_def Let_def demo_env_def demo_world_def find_row_def)
  have "authorised ?E demo_world ''u'' ?q ?k ?h False 10 1000000000 =
      submit ?E (demo_world\<lparr>w_idem := idem\<rparr>) ''u'' ?q ?k False 10 1000000000 (''o1'', ''aaaaaaaaaaaaaaaa'', ''sig'')"
    using auth idem by (simp add: authorised_def demo_env_def demo_world_def)
  moreover have "place_order ?E demo_world ''u'' ?q ?k = authorised ?E demo_world ''u'' ?q ?k ?h False 10 1000000000"
  proof -
    have g: "get_completed_response False (w_idem demo_world) ''u'' ?k ?h = Inr None"
      by (simp add: get_completed_response_def validate_idempotency_key_def demo_key2 demo_world_def)
    have o: "observe (e_quote ?E) (q_type ?q) = Inr (10, False)" by (simp add: observe_def demo_env_def)
    have d: "get_positions_with_pnl (e_mark ?E) (working (w_broker demo_world)) ''u'' = []"
      "open_order_exposure (working (w_broker demo_world)) ''u'' = ([], [])"
      by (simp_all add: get_positions_with_pnl_def open_order_exposure_def demo_world_def)
    have pg: "prices_given ?q" by (simp add: prices_given_def demo_request_def)
    have e: "e_production ?E = False" "e_initial_cash ?E = 100000" "e_now ?E = 5" by (simp_all add: demo_env_def)
    show ?thesis using g o d pg risk acc unfolding place_order_def by (simp add: e Let_def)
  qed
  ultimately show ?thesis using sub by simp
qed

theorem retry_returns_same_response_witness:
  "\<exists>w' r. place_order (demo_env 10) demo_world ''u'' (demo_request MarketOrder None) (Some ''retry-key-1'') = (w', Inr r)
     \<and> place_order (demo_env 900) w' ''u'' (demo_request MarketOrder None) (Some ''retry-key-1'') = (w', Inr r)"
proof -
  obtain w' r where p: "place_order (demo_env 10) demo_world ''u'' (demo_request MarketOrder None)
      (Some ''retry-key-1'') = (w', Inr r)" using demo_places by blast
  have "committed (w_idem demo_world) = working (w_idem demo_world)" by (simp add: demo_world_def)
  from retry_returns_same_response [OF p _ this, of "demo_env 900"] p show ?thesis by (auto simp: demo_env_def)
qed

text \<open>
  A stray limit price evades the position limit. A market buy may carry a
  \<open>limit_price\<close>, which the broker ignores when it fills but the risk checks use as
  the order's price: with 100000 of equity and a limit of 6250 per asset, a market
  order for 100 shares trading at 900 passes every check when it names a limit of 1,
  and fills at 900 for 90000.
\<close>

theorem stray_limit_evades_position_cap:
  "risk_checks (demo_env 900) [] ([], []) demo_account ''u'' (demo_request MarketOrder (Some 1)) 900 = Inr 90000000000
   \<and> simulate_fill Buy MarketOrder (Some 1) None 900 = Some 900
   \<and> fmul (s_equity (account_snapshot 100000 demo_account [])) (e_fraction (demo_env 900)) = 6250
   \<and> risk_checks (demo_env 900) [] ([], []) demo_account ''u'' (demo_request MarketOrder None) 900 = Inl (HTTP 400)"
proof (intro conjI)
  have r: "notional_micros (FloatV 100) (FloatV 900) = 90000000000"
    using round_half_up_of_int [of 90000000000] by (simp add: notional_micros_def to_micros_def dmul_def)
  then have rf: "reserve_for (demo_request MarketOrder l) 900 = 90000000000" for l
    by (simp add: reserve_for_def reservation_micros_def demo_request_def)
  show "risk_checks (demo_env 900) [] ([], []) demo_account ''u'' (demo_request MarketOrder (Some 1)) 900 = Inr 90000000000"
    using demo_checks [of 900 MarketOrder "Some 1" 100] rf [of "Some 1"]
    by (simp add: price_for_risk_def demo_request_def fmul_def)
  show "simulate_fill Buy MarketOrder (Some 1) None 900 = Some 900" by (simp add: simulate_fill_market)
  show "fmul (s_equity (account_snapshot 100000 demo_account [])) (e_fraction (demo_env 900)) = 6250"
    by (simp add: demo_snapshot demo_env_def fmul_def)
  have c: "fmul 100000 (1 / 16) = 6250" by (simp add: fmul_def)
  have "fadd 6250 (fl (1 / 10 ^ 6)) \<le> fl 7000"
    unfolding fadd_def using fl_mono [of "1 / 10 ^ 6" 1] by (intro fl_mono) simp
  then have "fadd 6250 (fl (1 / 10 ^ 6)) < 90000" by simp
  then show "risk_checks (demo_env 900) [] ([], []) demo_account ''u'' (demo_request MarketOrder None) 900 = Inl (HTTP 400)"
    using c by (simp add: risk_checks_def demo_snapshot demo_env_def demo_request_def
        projected_value_def price_for_risk_def from_micros_def fmul_def fadd_def Let_def)
qed

end
