(* ===== verification/Json_Reader.thy ===== *)
theory Json_Reader
  imports Json_Values
begin

text \<open>
  Reading back the deterministic text of \<open>Json_Values.json_text\<close>: the part of
  \<^verbatim>\<open>json.loads\<close> that canonical documents use (no floats, no white space). Reading returns
  the value that was written, its objects in the order of their keys, so the text
  determines the value.
\<close>

section \<open>The values canonical documents hold\<close>

fun canonical_value :: "json \<Rightarrow> bool" where
  "canonical_value (JFloat x) = False"
| "canonical_value JNonFinite = False"
| "canonical_value (JArr xs) = list_all canonical_value xs"
| "canonical_value (JObj d) = list_all (\<lambda>(k, v). canonical_value v) d"
| "canonical_value v = True"

fun sorted_json :: "json \<Rightarrow> json" where
  "sorted_json (JArr xs) = JArr (map sorted_json xs)"
| "sorted_json (JObj d) = JObj (sort_key fst (map (\<lambda>(k, v). (k, sorted_json v)) d))"
| "sorted_json v = v"

lemma insort_key_map_snd:
  "insort_key fst (fst p, g (fst p) (snd p)) (map (\<lambda>(k, v). (k, g k v)) d)
     = map (\<lambda>(k, v). (k, g k v)) (insort_key fst p d)"
  by (induction d) (auto split: prod.splits)

lemma sort_key_map_snd:
  "sort_key fst (map (\<lambda>(k, v). (k, g k v)) d) = map (\<lambda>(k, v). (k, g k v)) (sort_key fst d)"
proof (induction d)
  case (Cons p d)
  then show ?case using insort_key_map_snd [of p g "sort_key fst d"] by (cases p) simp
qed simp

section \<open>The reader\<close>

definition hex_value :: "char \<Rightarrow> nat option" where
  "hex_value c = List.find (\<lambda>n. hex_digit n = c) [0..<16]"

definition decimal_value :: "char \<Rightarrow> nat option" where
  "decimal_value c = List.find (\<lambda>n. hex_digit n = c) [0..<10]"

fun read_digits :: "nat \<Rightarrow> string \<Rightarrow> nat \<times> string" where
  "read_digits n [] = (n, [])"
| "read_digits n (c # cs) = (case decimal_value c of None \<Rightarrow> (n, c # cs) | Some m \<Rightarrow> read_digits (10 * n + m) cs)"

fun read_string :: "string \<Rightarrow> (string \<times> string) option" where
  "read_string [] = None"
| "read_string (c # cs) =
     (if c = CHR 0x22 then Some ([], cs)
      else if c \<noteq> CHR 0x5C then map_option (\<lambda>(s, r). (c # s, r)) (read_string cs)
      else case cs of
             [] \<Rightarrow> None
           | e # ds \<Rightarrow>
               if e = CHR ''u''
               then (case ds of
                       z1 # z0 # h1 # h0 # es \<Rightarrow>
                         (case (hex_value h1, hex_value h0) of
                            (Some a, Some b) \<Rightarrow>
                              if z1 = CHR ''0'' \<and> z0 = CHR ''0''
                              then map_option (\<lambda>(s, r). (char_of (16 * a + b) # s, r)) (read_string es) else None
                          | _ \<Rightarrow> None)
                     | _ \<Rightarrow> None)
               else (case map_of [(CHR 0x22, CHR 0x22), (CHR 0x5C, CHR 0x5C), (CHR ''n'', char_of (10 :: nat)),
                                  (CHR ''r'', char_of (13 :: nat)), (CHR ''t'', char_of (9 :: nat)),
                                  (CHR ''b'', char_of (8 :: nat)), (CHR ''f'', char_of (12 :: nat))] e of
                       None \<Rightarrow> None
                     | Some d \<Rightarrow> map_option (\<lambda>(s, r). (d # s, r)) (read_string ds)))"

text \<open>The items of a list or an object up to its closing bracket; the fuel bounds their number.\<close>

fun read_seq :: "nat \<Rightarrow> (string \<Rightarrow> ('a \<times> string) option) \<Rightarrow> char \<Rightarrow> string \<Rightarrow> ('a list \<times> string) option" where
  "read_seq 0 p close s = None"
| "read_seq (Suc n) p close s =
     (case p s of
        Some (x, c # r) \<Rightarrow>
          if c = close then Some ([x], r)
          else if c = CHR '','' then map_option (\<lambda>(xs, r'). (x # xs, r')) (read_seq n p close r)
          else None
      | _ \<Rightarrow> None)"

definition read_items :: "nat \<Rightarrow> (string \<Rightarrow> ('a \<times> string) option) \<Rightarrow> char \<Rightarrow> string \<Rightarrow> ('a list \<times> string) option" where
  "read_items n p close s = (if s \<noteq> [] \<and> hd s = close then Some ([], tl s) else read_seq n p close s)"

definition read_member :: "(string \<Rightarrow> (json \<times> string) option) \<Rightarrow> string \<Rightarrow> ((string \<times> json) \<times> string) option" where
  "read_member p s =
     (case s of
        c # cs \<Rightarrow>
          if c = CHR 0x22
          then (case read_string cs of
                  Some (k, d # r) \<Rightarrow> if d = CHR '':'' then map_option (\<lambda>(v, r'). ((k, v), r')) (p r) else None
                | _ \<Rightarrow> None)
          else None
      | [] \<Rightarrow> None)"

fun read_value :: "nat \<Rightarrow> string \<Rightarrow> (json \<times> string) option" where
  "read_value 0 s = None"
| "read_value (Suc n) [] = None"
| "read_value (Suc n) (c # cs) =
     (if c = CHR 0x22 then map_option (\<lambda>(t, r). (JStr t, r)) (read_string cs)
      else if c = CHR ''['' then map_option (\<lambda>(xs, r). (JArr xs, r)) (read_items n (read_value n) (CHR '']'') cs)
      else if c = CHR ''{'' then map_option (\<lambda>(d, r). (JObj d, r))
                                   (read_items n (read_member (read_value n)) (CHR ''}'') cs)
      else if c = CHR ''-'' then (case read_digits 0 cs of (m, r) \<Rightarrow> Some (JInt (- int m), r))
      else if starts_with ''null'' (c # cs) then Some (JNull, drop 4 (c # cs))
      else if starts_with ''true'' (c # cs) then Some (JBool True, drop 4 (c # cs))
      else if starts_with ''false'' (c # cs) then Some (JBool False, drop 5 (c # cs))
      else if decimal_value c = None then None
      else (case read_digits 0 (c # cs) of (m, r) \<Rightarrow> Some (JInt (int m), r)))"

definition read_json :: "string \<Rightarrow> json option" where
  "read_json s = (case read_value (Suc (length s)) s of Some (v, []) \<Rightarrow> Some v | _ \<Rightarrow> None)"

section \<open>Reading what was written\<close>

definition undigit :: "string \<Rightarrow> bool" where
  "undigit r \<longleftrightarrow> r = [] \<or> decimal_value (hd r) = None"

lemma decimal_value_digit: "n < 10 \<Longrightarrow> decimal_value (hex_digit n) = Some n"
proof -
  have "list_all (\<lambda>n. decimal_value (hex_digit n) = Some n) [0..<10]" by code_simp
  then show "n < 10 \<Longrightarrow> ?thesis" by (simp add: list_all_iff)
qed

lemma hex_value_digit: "n < 16 \<Longrightarrow> hex_value (hex_digit n) = Some n"
proof -
  have "list_all (\<lambda>n. hex_value (hex_digit n) = Some n) [0..<16]" by code_simp
  then show "n < 16 \<Longrightarrow> ?thesis" by (simp add: list_all_iff)
qed

lemma read_digits_stop: "undigit r \<Longrightarrow> read_digits n r = (n, r)"
  by (cases r) (auto simp: undigit_def)

lemma read_digits_append:
  "read_digits m (digits_of n @ r) = read_digits (m * 10 ^ length (digits_of n) + n) r"
proof (induction n arbitrary: m r rule: digits_of.induct)
  case (1 n)
  show ?case
  proof (cases "n < 10")
    case True
    then show ?thesis using decimal_value_digit [of n]
      by (simp add: digits_of.simps [of n] ac_simps)
  next
    case False
    have d: "decimal_value (hex_digit (n mod 10)) = Some (n mod 10)"
      by (rule decimal_value_digit) simp
    have "read_digits m (digits_of n @ r)
        = read_digits (m * 10 ^ length (digits_of (n div 10)) + n div 10) (hex_digit (n mod 10) # r)"
      using 1 [OF False, of m "hex_digit (n mod 10) # r"] False by (simp add: digits_of.simps [of n])
    also have "\<dots> = read_digits (10 * (m * 10 ^ length (digits_of (n div 10)) + n div 10) + n mod 10) r"
      using d by (simp)
    also have "10 * (m * 10 ^ length (digits_of (n div 10)) + n div 10) + n mod 10
        = m * 10 ^ length (digits_of n) + n"
      using False by (simp add: digits_of.simps [of n] algebra_simps)
    finally show ?thesis .
  qed
qed

lemma read_digits_text: "undigit r \<Longrightarrow> read_digits 0 (digits_of n @ r) = (n, r)"
  by (simp add: read_digits_append read_digits_stop)

lemma read_string_escape:
  "read_string (escape_char ascii c @ t) = map_option (\<lambda>(s, r). (c # s, r)) (read_string t)"
proof -
  let ?n = "of_char c :: nat"
  have n: "?n < 256" by (rule nat_of_char_less_256)
  have c: "?n = 8 \<Longrightarrow> char_of (8 :: nat) = c" "?n = 9 \<Longrightarrow> char_of (9 :: nat) = c" "?n = 10 \<Longrightarrow> char_of (10 :: nat) = c"
    "?n = 12 \<Longrightarrow> char_of (12 :: nat) = c" "?n = 13 \<Longrightarrow> char_of (13 :: nat) = c"
    by (metis char_of_char)+
  have hex: "hex_value (hex_digit (?n div 16)) = Some (?n div 16)"
    "hex_value (hex_digit ?n) = Some (?n mod 16)"
  proof -
    have "?n div 16 < 16" by (rule less_mult_imp_div_less) (use n in simp)
    then show "hex_value (hex_digit (?n div 16)) = Some (?n div 16)" by (rule hex_value_digit)
    show "hex_value (hex_digit ?n) = Some (?n mod 16)"
      using hex_value_digit [of "?n mod 16"] by (simp add: hex_digit_def)
  qed
  have code: "char_of (16 * (?n div 16) + ?n mod 16) = c"
    by (simp add: char_of_char)
  show ?thesis
    unfolding escape_char_def Let_def using hex code c by (auto simp: mult.commute)
qed

lemma read_string_text: "read_string (concat (map (escape_char ascii) s) @ CHR 0x22 # r) = Some (s, r)"
  by (induction s) (simp_all add: read_string_escape)

text \<open>The texts of items never begin with a closing bracket.\<close>

lemma read_seq_join:
  assumes "xs \<noteq> []" "length xs \<le> n" "close \<noteq> CHR '',''"
    and "\<And>x r. x \<in> set xs \<Longrightarrow> undigit r \<Longrightarrow> p (f x @ r) = Some (g x, r)"
    and "decimal_value close = None"
  shows "read_seq n p close (join '','' (map f xs) @ close # r) = Some (map g xs, r)"
  using assms(1,2,4)
proof (induction xs arbitrary: n)
  case (Cons x xs)
  then obtain m where n: "n = Suc m" by (cases n) auto
  show ?case
  proof (cases xs)
    case Nil
    have "p (f x @ close # r) = Some (g x, close # r)"
      using Cons.prems(3) assms(5) by (simp add: undigit_def)
    then show ?thesis by (simp add: n Nil)
  next
    case (Cons y ys)
    have "decimal_value CHR '','' = None" by code_simp
    then have "p (f x @ CHR '','' # join '','' (map f xs) @ close # r)
        = Some (g x, CHR '','' # join '','' (map f xs) @ close # r)"
      using Cons.prems(3) by (simp add: undigit_def)
    moreover have "read_seq m p close (join '','' (map f xs) @ close # r) = Some (map g xs, r)"
      using Cons.IH [of m] Cons.prems n Cons by simp
    moreover have "join '','' (map f (x # xs)) = f x @ CHR '','' # join '','' (map f xs)"
      by (simp add: Cons)
    ultimately show ?thesis using assms(3) by (simp add: n)
  qed
qed simp

lemma read_items_join:
  assumes "length xs \<le> n" "close \<noteq> CHR '',''" "decimal_value close = None"
    and "\<And>x r. x \<in> set xs \<Longrightarrow> undigit r \<Longrightarrow> p (f x @ r) = Some (g x, r)"
    and "\<And>x. x \<in> set xs \<Longrightarrow> f x \<noteq> [] \<and> hd (f x) \<noteq> close"
  shows "read_items n p close (join '','' (map f xs) @ close # r) = Some (map g xs, r)"
proof (cases xs)
  case Nil
  then show ?thesis by (simp add: read_items_def)
next
  case (Cons x ys)
  have "hd (join '','' (map f xs) @ close # r) \<noteq> close"
    using assms(5) [of x] by (cases ys) (simp_all add: Cons)
  then show ?thesis
    unfolding read_items_def using read_seq_join [of xs n close p f g r] assms Cons by auto
qed

lemma digits_of_hd: "\<exists>m ds. m < 10 \<and> digits_of n = hex_digit m # ds"
proof (induction n rule: digits_of.induct)
  case (1 n)
  show ?case
  proof (cases "n < 10")
    case True
    then show ?thesis by (auto simp: digits_of.simps [of n])
  next
    case False
    then obtain m ds where "m < 10" "digits_of (n div 10) = hex_digit m # ds" using 1 by blast
    then show ?thesis using False by (auto simp: digits_of.simps [of n])
  qed
qed

lemma digit_not_sign:
  assumes "m < 10"
  shows "hex_digit m \<notin> {CHR 0x22, CHR ''['', CHR ''{'', CHR ''-'', CHR ''n'', CHR ''t'', CHR ''f'', CHR '']'', CHR ''}''}"
proof -
  have "list_all (\<lambda>m. hex_digit m \<notin> {CHR 0x22, CHR ''['', CHR ''{'', CHR ''-'', CHR ''n'', CHR ''t'', CHR ''f'',
      CHR '']'', CHR ''}''}) [0..<10]" by code_simp
  then show ?thesis using assms by (simp add: list_all_iff)
qed

lemma text_hd:
  assumes "canonical_value v"
  shows "json_text a ft v \<noteq> [] \<and> hd (json_text a ft v) \<notin> {CHR '']'', CHR ''}''}"
proof (cases v)
  case (JInt n)
  obtain m ds where "m < 10" "digits_of (nat n) = hex_digit m # ds" using digits_of_hd by blast
  then show ?thesis using digit_not_sign [of m] by (auto simp: JInt int_text_def)
qed (use assms in \<open>auto simp: string_text_def\<close>)

lemma read_value_int: "undigit r \<Longrightarrow> read_value (Suc n) (int_text i @ r) = Some (JInt i, r)"
proof -
  assume r: "undigit r"
  obtain m ds where m: "m < 10" and ds: "digits_of (nat i) = hex_digit m # ds" using digits_of_hd by blast
  show ?thesis
  proof (cases "i < 0")
    case True
    then show ?thesis using read_digits_text [OF r, of "nat (- i)"] by (simp add: int_text_def)
  next
    case False
    then show ?thesis
      using read_digits_text [OF r, of "nat i"] digit_not_sign [OF m] decimal_value_digit [OF m]
      by (simp add: int_text_def ds starts_with_def)
  qed
qed

lemma length_join:
  "x \<in> set xs \<Longrightarrow> length x \<le> length (join sep xs)"
  "(\<And>x. x \<in> set xs \<Longrightarrow> x \<noteq> []) \<Longrightarrow> length xs \<le> length (join sep xs)"
proof -
  show "x \<in> set xs \<Longrightarrow> length x \<le> length (join sep xs)"
    by (induction sep xs rule: join.induct) auto
  show "(\<And>x. x \<in> set xs \<Longrightarrow> x \<noteq> []) \<Longrightarrow> length xs \<le> length (join sep xs)"
  proof (induction sep xs rule: join.induct)
    case (2 sep x)
    then show ?case by (cases x) auto
  next
    case (3 sep x y ys)
    have "x \<noteq> []" using "3.prems" by simp
    then have "1 \<le> length x" by (cases x) auto
    then show ?case using 3 by auto
  qed simp
qed

lemma items_fuel:
  assumes "length (b # join '','' (map f xs) @ [close]) \<le> Suc n" "\<And>x. x \<in> set xs \<Longrightarrow> f x \<noteq> []"
  shows "length xs \<le> n" "\<And>x. x \<in> set xs \<Longrightarrow> length (f x) \<le> n"
proof -
  have j: "length (join '','' (map f xs)) \<le> n" using assms(1) by simp
  have "length (map f xs) \<le> length (join '','' (map f xs))"
    using assms(2) by (intro length_join(2)) auto
  then show "length xs \<le> n" using j by simp
  show "length (f x) \<le> n" if "x \<in> set xs" for x
    using length_join(1) [of "f x" "map f xs" "'',''"] that j by force
qed

lemma read_member_text:
  assumes "p (t @ r) = Some (v, r)"
  shows "read_member p (string_text a k @ CHR '':'' # t @ r) = Some ((k, v), r)"
  using assms read_string_text [of a k "CHR '':'' # t @ r"]
  by (simp add: read_member_def string_text_def)

theorem read_value_text:
  assumes "canonical_value v" "length (json_text a ft v) \<le> n" "undigit r"
  shows "read_value n (json_text a ft v @ r) = Some (sorted_json v, r)"
  using assms
proof (induction v arbitrary: n r rule: sorted_json.induct [case_names JArr JObj JNull JBool JInt JFloat JNonFinite JStr])
  case (JArr xs)
  then obtain m where n: "n = Suc m" by (cases n) auto
  let ?f = "json_text a ft"
  have ne: "\<And>x. x \<in> set xs \<Longrightarrow> ?f x \<noteq> [] \<and> hd (?f x) \<noteq> CHR '']''"
    using JArr(2) text_hd by (fastforce simp: list_all_iff)
  have fuel: "length xs \<le> m" "\<And>x. x \<in> set xs \<Longrightarrow> length (?f x) \<le> m"
    using items_fuel [of "CHR ''[''" ?f xs "CHR '']''" m] JArr(3) ne n by simp_all
  have "decimal_value CHR '']'' = None" by code_simp
  then have "read_items m (read_value m) CHR '']'' (join '','' (map ?f xs) @ CHR '']'' # r) = Some (map sorted_json xs, r)"
    using fuel ne JArr(1,2) by (intro read_items_join) (auto simp: list_all_iff)
  then show ?case by (simp add: n)
next
  case (JObj d)
  then obtain m where n: "n = Suc m" by (cases n) auto
  let ?f = "\<lambda>(k, v). string_text a k @ '':'' @ json_text a ft v"
  let ?g = "\<lambda>(k, v). (k, sorted_json v)"
  let ?D = "sort_key fst d"
  have t: "json_text a ft (JObj d) = ''{'' @ join '','' (map ?f ?D) @ ''}''"
    using sort_key_map_snd [of "\<lambda>_. json_text a ft" d] by (simp add: comp_def split_def)
  have ne: "\<And>x. x \<in> set ?D \<Longrightarrow> ?f x \<noteq> [] \<and> hd (?f x) \<noteq> CHR ''}''"
    by (auto simp: string_text_def)
  have fuel: "length ?D \<le> m" "\<And>x. x \<in> set ?D \<Longrightarrow> length (?f x) \<le> m"
    using items_fuel [of "CHR ''{''" ?f ?D "CHR ''}''" m] JObj(3) ne n unfolding t by simp_all
  have item: "read_member (read_value m) (?f x @ q) = Some (?g x, q)" if "x \<in> set ?D" "undigit q" for x q
  proof -
    obtain k v where x: "x = (k, v)" by (cases x)
    have kv: "(k, v) \<in> set d" using that(1) x by simp
    have "length (json_text a ft v) \<le> m" using fuel(2) [OF that(1)] by (simp add: x)
    then have "read_value m (json_text a ft v @ q) = Some (sorted_json v, q)"
      using JObj(1) [OF kv refl] JObj(2) kv that(2) by (auto simp: list_all_iff)
    then show ?thesis using read_member_text by (simp add: x)
  qed
  have "decimal_value CHR ''}'' = None" by code_simp
  then have "read_items m (read_member (read_value m)) CHR ''}'' (join '','' (map ?f ?D) @ CHR ''}'' # r)
      = Some (map ?g ?D, r)"
    using fuel ne item by (intro read_items_join) auto
  then show ?case unfolding t by (simp add: n sort_key_map_snd [of "\<lambda>_. sorted_json"])
next
  case JNull
  then obtain m where n: "n = Suc m" by (cases n) auto
  then show ?case by (simp add: starts_with_def)
next
  case (JBool b)
  then obtain m where n: "n = Suc m" by (cases n; cases b) auto
  then show ?case by (cases b) (simp_all add: starts_with_def)
next
  case (JInt i)
  have "int_text i \<noteq> []" using text_hd [of "JInt i" a ft] by simp
  then obtain m where n: "n = Suc m" using JInt(2) by (cases n) auto
  then show ?case using read_value_int JInt(3) by simp
next
  case (JStr t)
  then obtain m where n: "n = Suc m" by (cases n) (auto simp: string_text_def)
  then show ?case by (simp add: string_text_def read_string_text)
qed simp_all

lemma read_json_text: "canonical_value v \<Longrightarrow> read_json (json_text a ft v) = Some (sorted_json v)"
  using read_value_text [of v a ft "Suc (length (json_text a ft v))" "[]"] by (simp add: read_json_def undigit_def)

lemma json_text_determines:
  "canonical_value v \<Longrightarrow> canonical_value w \<Longrightarrow> json_text a ft v = json_text a ft w \<Longrightarrow> sorted_json v = sorted_json w"
  using read_json_text by (metis option.inject)

end
