(* ===== verification/Byte_Codec.thy ===== *)
theory Byte_Codec
  imports Json_Reader "HOL-Library.Word"
begin

text \<open>
  Bytes: little-endian integers (\<^verbatim>\<open>struct\<close>, numpy's fixed-width types) and UTF-8 as
  Python's strict codec encodes and decodes it. A Python string here is the list of its
  code points, lone surrogates included, so encoding can fail.
\<close>

type_synonym octets = "8 word list"

section \<open>Little-endian integers\<close>

fun le_bytes :: "nat \<Rightarrow> nat \<Rightarrow> octets" where
  "le_bytes 0 k = []"
| "le_bytes (Suc n) k = word_of_nat k # le_bytes n (k div 256)"

fun of_le :: "octets \<Rightarrow> nat" where
  "of_le [] = 0"
| "of_le (b # bs) = unat b + 256 * of_le bs"

lemma le_bytes_numeral: "le_bytes (numeral n) k = word_of_nat k # le_bytes (pred_numeral n) (k div 256)"
  by (subst numeral_eq_Suc) (rule le_bytes.simps(2))

lemma unat_less_256: "unat (b :: 8 word) < 256"
  using unsigned_less [of b] by simp

lemma length_le_bytes [simp]: "length (le_bytes n k) = n"
  by (induction n arbitrary: k) auto

lemma of_le_le_bytes: "of_le (le_bytes n k) = k mod 256 ^ n"
proof (induction n arbitrary: k)
  case (Suc n)
  then show ?case by (simp add: unat_of_nat mod_mult2_eq)
qed simp

lemma of_le_less: "of_le bs < 256 ^ length bs"
proof (induction bs)
  case (Cons b bs)
  have "unat b < 256" by (rule unat_less_256)
  then show ?case using Cons by simp
qed simp

lemma low_byte: "word_of_nat (unat b + 256 * k) = (b :: 8 word)"
proof -
  have "(256 :: 8 word) = 0" by simp
  then show ?thesis by (simp only: of_nat_add of_nat_mult of_nat_numeral) simp
qed

lemma le_bytes_of_le: "le_bytes (length bs) (of_le bs) = bs"
proof (induction bs)
  case (Cons b bs)
  have "unat b < 256" by (rule unat_less_256)
  then show ?case using Cons by (simp add: low_byte del: of_nat_add)
qed simp

section \<open>UTF-8\<close>

type_synonym codepoints = "nat list"

definition surrogate :: "nat \<Rightarrow> bool" where
  "surrogate n \<longleftrightarrow> 0xD800 \<le> n \<and> n < 0xE000"

definition utf8_valid :: "codepoints \<Rightarrow> bool" where
  "utf8_valid s \<longleftrightarrow> list_all (\<lambda>n. n < 0x110000 \<and> \<not> surrogate n) s"

definition utf8_char :: "nat \<Rightarrow> octets" where
  "utf8_char n =
     (if n < 0x80 then [word_of_nat n]
      else if n < 0x800 then [word_of_nat (0xC0 + n div 64), word_of_nat (0x80 + n mod 64)]
      else if n < 0x10000
      then [word_of_nat (0xE0 + n div 4096), word_of_nat (0x80 + n div 64 mod 64), word_of_nat (0x80 + n mod 64)]
      else [word_of_nat (0xF0 + n div 262144), word_of_nat (0x80 + n div 4096 mod 64),
            word_of_nat (0x80 + n div 64 mod 64), word_of_nat (0x80 + n mod 64)])"

definition utf8_encode :: "codepoints \<Rightarrow> octets option" where
  "utf8_encode s = (if utf8_valid s then Some (concat (map utf8_char s)) else None)"

definition continuation :: "8 word \<Rightarrow> bool" where
  "continuation b \<longleftrightarrow> 0x80 \<le> unat b \<and> unat b < 0xC0"

text \<open>Overlong forms, surrogates and code points beyond the last are refused.\<close>

fun utf8_decode :: "octets \<Rightarrow> codepoints option" where
  "utf8_decode [] = Some []"
| "utf8_decode (b0 # bs) =
     (if unat b0 < 0x80 then map_option (Cons (unat b0)) (utf8_decode bs)
      else if unat b0 < 0xC2 then None
      else if unat b0 < 0xE0
      then (case bs of
              b1 # cs \<Rightarrow>
                if continuation b1
                then map_option (Cons ((unat b0 - 0xC0) * 64 + (unat b1 - 0x80))) (utf8_decode cs) else None
            | _ \<Rightarrow> None)
      else if unat b0 < 0xF0
      then (case bs of
              b1 # b2 # cs \<Rightarrow>
                let n = (unat b0 - 0xE0) * 4096 + (unat b1 - 0x80) * 64 + (unat b2 - 0x80)
                in if continuation b1 \<and> continuation b2 \<and> 0x800 \<le> n \<and> \<not> surrogate n
                   then map_option (Cons n) (utf8_decode cs) else None
            | _ \<Rightarrow> None)
      else (case bs of
              b1 # b2 # b3 # cs \<Rightarrow>
                let n = (unat b0 - 0xF0) * 262144 + (unat b1 - 0x80) * 4096 + (unat b2 - 0x80) * 64 + (unat b3 - 0x80)
                in if continuation b1 \<and> continuation b2 \<and> continuation b3 \<and> 0x10000 \<le> n \<and> n < 0x110000
                   then map_option (Cons n) (utf8_decode cs) else None
            | _ \<Rightarrow> None))"

declare utf8_decode.simps(2) [simp del]

lemma unat_byte: "n < 256 \<Longrightarrow> unat (word_of_nat n :: 8 word) = n"
  by (simp add: unat_of_nat)

lemma utf8_split3: "(n div 4096) * 4096 + (n div 64 mod 64) * 64 + n mod 64 = (n :: nat)"
proof -
  have "n div 4096 = n div 64 div 64" by (simp add: div_mult2_eq [symmetric])
  then show ?thesis using div_mult_mod_eq [of n 64] div_mult_mod_eq [of "n div 64" 64] by linarith
qed

lemma utf8_split4:
  "(n div 262144) * 262144 + (n div 4096 mod 64) * 4096 + (n div 64 mod 64) * 64 + n mod 64 = (n :: nat)"
proof -
  have "n div 262144 = n div 4096 div 64" by (simp add: div_mult2_eq [symmetric])
  then show ?thesis using div_mult_mod_eq [of "n div 4096" 64] utf8_split3 [of n] by linarith
qed

lemma utf8_decode_char:
  assumes "n < 0x110000" "\<not> surrogate n"
  shows "utf8_decode (utf8_char n @ bs) = map_option (Cons n) (utf8_decode bs)"
proof -
  have m: "n mod 64 < 64" "n div 64 mod 64 < 64" "n div 4096 mod 64 < 64" by simp_all
  consider "n < 0x80" | "0x80 \<le> n" "n < 0x800" | "0x800 \<le> n" "n < 0x10000" | "0x10000 \<le> n" by linarith
  then show ?thesis
  proof cases
    case 1
    then show ?thesis by (simp add: utf8_char_def utf8_decode.simps(2) unat_byte)
  next
    case 2
    then have q: "2 \<le> n div 64" "n div 64 < 32" by linarith+
    obtain b0 b1 :: "8 word" where b: "utf8_char n = [b0, b1]"
        "unat b0 = 0xC0 + n div 64" "unat b1 = 0x80 + n mod 64"
      using 2 m q by (simp add: utf8_char_def unat_byte del: of_nat_add of_nat_numeral)
    show ?thesis using q m unfolding b(1)
      by (simp add: utf8_decode.simps(2) b(2,3) continuation_def)
  next
    case 3
    then have q: "n div 4096 < 16" by linarith
    obtain b0 b1 b2 :: "8 word" where b: "utf8_char n = [b0, b1, b2]"
        "unat b0 = 0xE0 + n div 4096" "unat b1 = 0x80 + n div 64 mod 64" "unat b2 = 0x80 + n mod 64"
      using 3 m q by (simp add: utf8_char_def unat_byte del: of_nat_add of_nat_numeral)
    show ?thesis using q m 3 assms utf8_split3 [of n] unfolding b(1)
      by (simp add: utf8_decode.simps(2) b(2-4) continuation_def)
  next
    case 4
    then have q: "n div 262144 < 5" using assms by linarith
    obtain b0 b1 b2 b3 :: "8 word" where b: "utf8_char n = [b0, b1, b2, b3]"
        "unat b0 = 0xF0 + n div 262144" "unat b1 = 0x80 + n div 4096 mod 64"
        "unat b2 = 0x80 + n div 64 mod 64" "unat b3 = 0x80 + n mod 64"
      using 4 m q by (simp add: utf8_char_def unat_byte del: of_nat_add of_nat_numeral)
    show ?thesis using q m 4 assms utf8_split4 [of n] unfolding b(1)
      by (simp add: utf8_decode.simps(2) b(2-5) continuation_def)
  qed
qed

lemma utf8_roundtrip: "utf8_encode s = Some bs \<Longrightarrow> utf8_decode bs = Some s"
proof -
  have "utf8_valid s \<Longrightarrow> utf8_decode (concat (map utf8_char s)) = Some s"
    by (induction s) (auto simp: utf8_valid_def utf8_decode_char)
  then show "utf8_encode s = Some bs \<Longrightarrow> ?thesis"
    by (auto simp: utf8_encode_def split: if_splits)
qed

lemma utf8_decode_valid: "utf8_decode bs = Some s \<Longrightarrow> utf8_valid s"
proof (induction bs arbitrary: s rule: utf8_decode.induct)
  case 1
  then show ?case by (simp add: utf8_valid_def)
next
  case (2 b0 bs)
  have c: "unat b0 < 0xC0 + 64" if "unat b0 < 0xE0" using that by simp
  show ?case
    using 2(5) 2(1-4)
    by (auto simp: utf8_decode.simps(2) utf8_valid_def Let_def surrogate_def continuation_def
        split: if_splits list.splits)
qed

lemma utf8_encode_inj: "utf8_encode s = Some bs \<Longrightarrow> utf8_encode t = Some bs \<Longrightarrow> s = t"
  by (auto dest!: utf8_roundtrip)

text \<open>Strings of the JSON values (code points below 256) always encode.\<close>

definition chars_utf8 :: "string \<Rightarrow> octets" where
  "chars_utf8 s = concat (map (\<lambda>c. utf8_char (of_char c)) s)"

lemma utf8_encode_chars: "utf8_encode (map of_char s) = Some (chars_utf8 s)"
proof -
  have "x < 256 \<Longrightarrow> x < 0x110000 \<and> \<not> surrogate x" for x :: nat by (simp add: surrogate_def)
  then have "(of_char c :: nat) < 0x110000 \<and> \<not> surrogate (of_char c)" for c
    using nat_of_char_less_256 by blast
  then show ?thesis by (simp add: utf8_encode_def utf8_valid_def list_all_iff chars_utf8_def comp_def)
qed

lemma chars_utf8_inj: "chars_utf8 s = chars_utf8 t \<Longrightarrow> s = t"
proof -
  assume "chars_utf8 s = chars_utf8 t"
  then have "map (of_char :: char \<Rightarrow> nat) s = map of_char t"
    using utf8_encode_inj utf8_encode_chars by metis
  then show "s = t" by (rule map_injective) (simp add: inj_def)
qed

end
