(* ===== verification/Dataset_Format.thy ===== *)
theory Dataset_Format
  imports Byte_Codec
begin

text \<open>
  \<^verbatim>\<open>src/backend/services/dataset_format.py\<close>: typed tables, their logical hash, datasets and
  their ids, and the blob format. A \<^verbatim>\<open>float64\<close> cell is its 64-bit pattern, a \<^verbatim>\<open>date32\<close> or
  \<^verbatim>\<open>timestamp_ns\<close> cell the 64-bit integer numpy keeps (\<open>NAT\<close> is the missing one), a \<^verbatim>\<open>utf8\<close> cell
  a list of code points or \<open>None\<close>. \<open>None\<close> as a result is a \<^verbatim>\<open>DatasetError\<close> while a table is built or
  encoded, and a \<^verbatim>\<open>DatasetIntegrityError\<close> while a blob is decoded (\<^verbatim>\<open>decode_blob\<close> turns every
  failure into one). SHA-256, zlib and \<^verbatim>\<open>json.loads\<close> are arguments. Inputs of a column are a
  numpy array of floats, days or nanoseconds, or a list of Python values; other dtypes are left out.
\<close>

section \<open>Canonical JSON\<close>

definition MAX_SAFE_INTEGER :: int where "MAX_SAFE_INTEGER = 2 ^ 53 - 1"

definition isascii :: "string \<Rightarrow> bool" where
  "isascii s \<longleftrightarrow> list_all (\<lambda>c. (of_char c :: nat) < 128) s"

fun check_canonical :: "json \<Rightarrow> bool" where
  "check_canonical (JInt n) \<longleftrightarrow> \<bar>n\<bar> \<le> MAX_SAFE_INTEGER"
| "check_canonical (JArr xs) \<longleftrightarrow> list_all check_canonical xs"
| "check_canonical (JObj d) \<longleftrightarrow> list_all (\<lambda>(k, v). isascii k \<and> check_canonical v) d"
| "check_canonical (JFloat x) \<longleftrightarrow> False"
| "check_canonical JNonFinite \<longleftrightarrow> False"
| "check_canonical v \<longleftrightarrow> True"

abbreviation canonical_text :: "json \<Rightarrow> string" where
  "canonical_text \<equiv> json_text False (\<lambda>_. [])"

definition jcs_json :: "json \<Rightarrow> octets option" where
  "jcs_json v = (if check_canonical v then utf8_encode (map of_char (canonical_text v)) else None)"

section \<open>Schemas\<close>

datatype col_type = Utf8 | Date32 | Timestamp_ns | Float64

record column =
  c_name :: string
  c_type :: col_type
  c_nullable :: bool

record table_schema =
  s_name :: string
  s_columns :: "column list"
  s_key :: "string list"

definition TYPES :: "(string \<times> col_type) list" where
  "TYPES = [(''utf8'', Utf8), (''date32'', Date32), (''timestamp_ns'', Timestamp_ns), (''float64'', Float64)]"

definition type_name :: "col_type \<Rightarrow> string" where
  "type_name t = (case t of Utf8 \<Rightarrow> ''utf8'' | Date32 \<Rightarrow> ''date32'' | Timestamp_ns \<Rightarrow> ''timestamp_ns'' | Float64 \<Rightarrow> ''float64'')"

definition lower_char :: "char \<Rightarrow> bool" where
  "lower_char c \<longleftrightarrow> 97 \<le> (of_char c :: nat) \<and> (of_char c :: nat) \<le> 122"

definition digit_char :: "char \<Rightarrow> bool" where
  "digit_char c \<longleftrightarrow> 48 \<le> (of_char c :: nat) \<and> (of_char c :: nat) \<le> 57"

definition upper_char :: "char \<Rightarrow> bool" where
  "upper_char c \<longleftrightarrow> 65 \<le> (of_char c :: nat) \<and> (of_char c :: nat) \<le> 90"

text \<open>\<^verbatim>\<open>[a-z][a-z0-9_]{0,62}\<close> and \<^verbatim>\<open>[A-Za-z0-9][A-Za-z0-9._:+-]{0,63}\<close>, matched in full.\<close>

definition NAME :: "string \<Rightarrow> bool" where
  "NAME s \<longleftrightarrow> s \<noteq> [] \<and> lower_char (hd s) \<and> length s \<le> 63
     \<and> list_all (\<lambda>c. lower_char c \<or> digit_char c \<or> c = CHR ''_'') (tl s)"

definition TOKEN :: "string \<Rightarrow> bool" where
  "TOKEN s \<longleftrightarrow> s \<noteq> [] \<and> (lower_char (hd s) \<or> upper_char (hd s) \<or> digit_char (hd s)) \<and> length s \<le> 64
     \<and> list_all (\<lambda>c. lower_char c \<or> upper_char c \<or> digit_char c \<or> c \<in> set ''._:+-'') (tl s)"

definition schema_ok :: "table_schema \<Rightarrow> bool" where
  "schema_ok t \<longleftrightarrow>
     (let names = map c_name (s_columns t); nullable = map c_name (filter c_nullable (s_columns t))
      in NAME (s_name t) \<and> list_all NAME names \<and> distinct names \<and> names \<noteq> []
         \<and> s_key t \<noteq> [] \<and> distinct (s_key t) \<and> list_all (\<lambda>k. k \<in> set names \<and> k \<notin> set nullable) (s_key t))"

definition make_schema :: "string \<Rightarrow> column list \<Rightarrow> string list \<Rightarrow> table_schema option" where
  "make_schema name cols key =
     (let t = \<lparr>s_name = name, s_columns = cols, s_key = key\<rparr> in if schema_ok t then Some t else None)"

definition schema_column :: "table_schema \<Rightarrow> string \<Rightarrow> column option" where
  "schema_column t name = find_row c_name name (s_columns t)"

abbreviation col :: "string \<Rightarrow> col_type \<Rightarrow> bool \<Rightarrow> column" where
  "col n t nullable \<equiv> \<lparr>c_name = n, c_type = t, c_nullable = nullable\<rparr>"

definition BARS_V1 :: table_schema where
  "BARS_V1 = \<lparr>s_name = ''bars'', s_columns =
     [col ''symbol'' Utf8 False, col ''session_date'' Date32 False, col ''open'' Float64 True,
      col ''high'' Float64 True, col ''low'' Float64 True, col ''close'' Float64 False, col ''volume'' Float64 True],
     s_key = [''symbol'', ''session_date'']\<rparr>"

definition CORPORATE_ACTIONS_V1 :: table_schema where
  "CORPORATE_ACTIONS_V1 = \<lparr>s_name = ''corporate_actions'', s_columns =
     [col ''symbol'' Utf8 False, col ''ex_date'' Date32 False, col ''action'' Utf8 False, col ''value'' Float64 False,
      col ''announced_at'' Timestamp_ns True, col ''source'' Utf8 False],
     s_key = [''symbol'', ''ex_date'', ''action'']\<rparr>"

definition INSTRUMENTS_V1 :: table_schema where
  "INSTRUMENTS_V1 = \<lparr>s_name = ''instruments'', s_columns =
     [col ''symbol'' Utf8 False, col ''instrument_type'' Utf8 False, col ''exchange'' Utf8 False,
      col ''timezone'' Utf8 False, col ''currency'' Utf8 False],
     s_key = [''symbol'']\<rparr>"

section \<open>Cells\<close>

datatype cells = Words "64 word list" | Texts "codepoints option list"

fun n_cells :: "cells \<Rightarrow> nat" where
  "n_cells (Words ws) = length ws"
| "n_cells (Texts ts) = length ts"

definition NAT :: "64 word" where "NAT = 0x8000000000000000"
definition NAN :: "64 word" where "NAN = 0x7FF8000000000000"

definition f64_magnitude :: "64 word \<Rightarrow> nat" where
  "f64_magnitude w = unat w mod 2 ^ 63"

definition f64_isnan :: "64 word \<Rightarrow> bool" where
  "f64_isnan w \<longleftrightarrow> 0x7FF * 2 ^ 52 < f64_magnitude w"

definition f64_isinf :: "64 word \<Rightarrow> bool" where
  "f64_isinf w \<longleftrightarrow> f64_magnitude w = 0x7FF * 2 ^ 52"

definition f64_iszero :: "64 word \<Rightarrow> bool" where
  "f64_iszero w \<longleftrightarrow> f64_magnitude w = 0"

text \<open>What a column's array may be, and the Python values a list may hold: an aware instant is
  its distance from the epoch in days, seconds, microseconds and nanoseconds.\<close>

datatype pyval =
    PNone
  | PFloat "64 word"
  | PInt int
  | PText codepoints
  | PDate int
  | PInstant int int int int
  | POther

datatype raw = F8 "64 word list" | M8D "64 word list" | M8ns "64 word list" | Objs "pyval list"

text \<open>\<^verbatim>\<open>float(int)\<close>: round half to even, \<^verbatim>\<open>OverflowError\<close> beyond the largest float.\<close>

definition f64_of_int :: "int \<Rightarrow> 64 word option" where
  "f64_of_int i =
     (if i = 0 then Some 0
      else let m = nat \<bar>i\<bar>; e = floorlog 2 m - 1;
               q = (if e \<le> 52 then m * 2 ^ (52 - e) else nat (round_half_even (of_nat m / 2 ^ (e - 52))));
               bits = (e + 1022) * 2 ^ 52 + q
           in if bits < 0x7FF * 2 ^ 52 then Some (word_of_nat (if i < 0 then 2 ^ 63 + bits else bits)) else None)"

definition float_item :: "pyval \<Rightarrow> 64 word option" where
  "float_item v = (case v of PNone \<Rightarrow> Some NAN | PFloat w \<Rightarrow> Some w | PInt i \<Rightarrow> f64_of_int i | _ \<Rightarrow> None)"

fun map_opt :: "('a \<Rightarrow> 'b option) \<Rightarrow> 'a list \<Rightarrow> 'b list option" where
  "map_opt f [] = Some []"
| "map_opt f (x # xs) = (case f x of None \<Rightarrow> None | Some y \<Rightarrow> map_option (Cons y) (map_opt f xs))"

definition float64_column :: "bool \<Rightarrow> raw \<Rightarrow> cells option" where
  "float64_column nullable values =
     (case (case values of F8 ws \<Rightarrow> Some ws | Objs vs \<Rightarrow> map_opt float_item vs | _ \<Rightarrow> None) of
        None \<Rightarrow> None
      | Some ws \<Rightarrow>
          if list_ex f64_isinf ws then None
          else if \<not> nullable \<and> list_ex f64_isnan ws then None
          else Some (Words (map (\<lambda>w. if f64_iszero w then 0 else w) ws)))"

text \<open>\<^verbatim>\<open>datetime.date.fromisoformat\<close> on \<^verbatim>\<open>YYYY-MM-DD\<close>, as days since 1970-01-01.\<close>

definition leap_year :: "int \<Rightarrow> bool" where
  "leap_year y \<longleftrightarrow> y mod 4 = 0 \<and> (y mod 100 \<noteq> 0 \<or> y mod 400 = 0)"

definition month_days :: "int \<Rightarrow> int list" where
  "month_days y = [31, if leap_year y then 29 else 28, 31, 30, 31, 30, 31, 31, 30, 31, 30, 31]"

definition days_of_ymd :: "int \<Rightarrow> nat \<Rightarrow> int \<Rightarrow> int option" where
  "days_of_ymd y m d =
     (if 1 \<le> y \<and> y \<le> 9999 \<and> 1 \<le> m \<and> m \<le> 12 \<and> 1 \<le> d \<and> d \<le> month_days y ! (m - 1)
      then Some ((y - 1) * 365 + (y - 1) div 4 - (y - 1) div 100 + (y - 1) div 400
                 + sum_list (take (m - 1) (month_days y)) + d - 719163)
      else None)"

definition decimal :: "codepoints \<Rightarrow> nat option" where
  "decimal ds = (if list_all (\<lambda>n. 48 \<le> n \<and> n \<le> 57) ds then Some (fold (\<lambda>d n. 10 * n + (d - 48)) ds 0) else None)"

definition iso_date :: "codepoints \<Rightarrow> int option" where
  "iso_date s =
     (if length s = 10 \<and> s ! 4 = 45 \<and> s ! 7 = 45
      then (case (decimal (take 4 s), decimal (take 2 (drop 5 s)), decimal (drop 8 s)) of
              (Some y, Some m, Some d) \<Rightarrow> days_of_ymd (int y) m (int d)
            | _ \<Rightarrow> None)
      else None)"

definition one_date :: "pyval \<Rightarrow> 64 word option" where
  "one_date v = (case v of PNone \<Rightarrow> Some NAT | PDate d \<Rightarrow> Some (word_of_int d)
     | PText s \<Rightarrow> map_option word_of_int (iso_date s) | _ \<Rightarrow> None)"

definition NS_PER_DAY :: int where "NS_PER_DAY = 86400 * 10 ^ 9"

definition whole_day :: "64 word \<Rightarrow> 64 word option" where
  "whole_day w = (if w = NAT then Some NAT
     else if sint w mod NS_PER_DAY = 0 then Some (word_of_int (sint w div NS_PER_DAY)) else None)"

definition int32_day :: "64 word \<Rightarrow> bool" where
  "int32_day w \<longleftrightarrow> w = NAT \<or> (- (2 ^ 31) \<le> sint w \<and> sint w < 2 ^ 31)"

definition date32_column :: "raw \<Rightarrow> cells option" where
  "date32_column values =
     (case (case values of M8D ws \<Rightarrow> Some ws | M8ns ws \<Rightarrow> map_opt whole_day ws | Objs vs \<Rightarrow> map_opt one_date vs
                         | F8 ws \<Rightarrow> if ws = [] then Some [] else None) of
        None \<Rightarrow> None
      | Some ws \<Rightarrow> if list_all int32_day ws then Some (Words ws) else None)"

definition one_timestamp :: "pyval \<Rightarrow> 64 word option" where
  "one_timestamp v =
     (case v of
        PNone \<Rightarrow> Some NAT
      | PInstant days seconds micros nanos \<Rightarrow>
          (let ns = (days * 86400 + seconds) * 10 ^ 9 + micros * 1000 + nanos
           in if - (2 ^ 63) < ns \<and> ns < 2 ^ 63 then Some (word_of_int ns) else None)
      | _ \<Rightarrow> None)"

definition day_to_ns :: "64 word \<Rightarrow> 64 word option" where
  "day_to_ns w = (if w = NAT then Some NAT
     else let ns = sint w * NS_PER_DAY in if - (2 ^ 63) < ns \<and> ns < 2 ^ 63 then Some (word_of_int ns) else None)"

definition timestamp_ns_column :: "raw \<Rightarrow> cells option" where
  "timestamp_ns_column values =
     map_option Words
       (case values of M8ns ws \<Rightarrow> Some ws | M8D ws \<Rightarrow> map_opt day_to_ns ws | Objs vs \<Rightarrow> map_opt one_timestamp vs
                     | F8 ws \<Rightarrow> if ws = [] then Some [] else None)"

definition text_item :: "bool \<Rightarrow> pyval \<Rightarrow> codepoints option option" where
  "text_item nullable v =
     (case v of PNone \<Rightarrow> if nullable then Some None else None
              | PText s \<Rightarrow> if utf8_encode s \<noteq> None then Some (Some s) else None
              | _ \<Rightarrow> None)"

definition utf8_column :: "bool \<Rightarrow> raw \<Rightarrow> cells option" where
  "utf8_column nullable values =
     map_option Texts
       (case values of Objs vs \<Rightarrow> map_opt (text_item nullable) vs
                     | F8 ws \<Rightarrow> if ws = [] then Some [] else None
                     | M8D ws \<Rightarrow> if ws = [] then Some [] else None
                     | M8ns ws \<Rightarrow> if ws = [] then Some [] else None)"

definition normalise :: "column \<Rightarrow> raw \<Rightarrow> cells option" where
  "normalise c values =
     (case c_type c of
        Float64 \<Rightarrow> float64_column (c_nullable c) values
      | Date32 \<Rightarrow> date32_column values
      | Timestamp_ns \<Rightarrow> timestamp_ns_column values
      | Utf8 \<Rightarrow> utf8_column (c_nullable c) values)"

definition missing_word :: "column \<Rightarrow> 64 word \<Rightarrow> bool" where
  "missing_word c w = (if c_type c = Float64 then f64_isnan w else w = NAT)"

fun missing :: "column \<Rightarrow> cells \<Rightarrow> bool list" where
  "missing c (Words ws) = map (missing_word c) ws"
| "missing c (Texts ts) = map (\<lambda>t. t = None) ts"

section \<open>Tables\<close>

text \<open>The values a key column sorts by: 64-bit integers, or strings by code point.\<close>

datatype sort_code = NumCode int | TextCode codepoints

instantiation sort_code :: linorder
begin

fun less_eq_sort_code :: "sort_code \<Rightarrow> sort_code \<Rightarrow> bool" where
  "less_eq_sort_code (NumCode a) (NumCode b) = (a \<le> b)"
| "less_eq_sort_code (NumCode a) (TextCode t) = True"
| "less_eq_sort_code (TextCode s) (NumCode b) = False"
| "less_eq_sort_code (TextCode s) (TextCode t) = (s \<le> t)"

definition less_sort_code :: "sort_code \<Rightarrow> sort_code \<Rightarrow> bool" where
  "less_sort_code a b \<longleftrightarrow> a \<le> b \<and> \<not> b \<le> a"

instance
proof
  fix x y z :: sort_code
  show "x < y \<longleftrightarrow> x \<le> y \<and> \<not> y \<le> x" by (rule less_sort_code_def)
  show "x \<le> x" by (cases x) auto
  show "x \<le> y \<Longrightarrow> y \<le> z \<Longrightarrow> x \<le> z" by (cases x; cases y; cases z) auto
  show "x \<le> y \<Longrightarrow> y \<le> x \<Longrightarrow> x = y" by (cases x; cases y) auto
  show "x \<le> y \<or> y \<le> x" by (cases x; cases y) auto
qed

end

fun sort_codes :: "cells \<Rightarrow> sort_code list" where
  "sort_codes (Words ws) = map (\<lambda>w. NumCode (sint w)) ws"
| "sort_codes (Texts ts) = map (\<lambda>t. TextCode (case t of Some s \<Rightarrow> s | None \<Rightarrow> [])) ts"

fun reorder :: "nat list \<Rightarrow> cells \<Rightarrow> cells" where
  "reorder order (Words ws) = Words (map ((!) ws) order)"
| "reorder order (Texts ts) = Texts (map ((!) ts) order)"

record tab =
  tb_schema :: table_schema
  tb_columns :: "(string, cells) dict"

definition table_len :: "tab \<Rightarrow> nat" where
  "table_len t = (case tb_columns t of [] \<Rightarrow> 0 | (n, c) # _ \<Rightarrow> n_cells c)"

text \<open>Row \<open>i\<close>'s key.\<close>

definition row_key :: "(string, cells) dict \<Rightarrow> string list \<Rightarrow> nat \<Rightarrow> sort_code list" where
  "row_key cols key i = map (\<lambda>k. case dict_get cols k of Some c \<Rightarrow> sort_codes c ! i | None \<Rightarrow> NumCode 0) key"

fun adjacent_equal :: "'a list \<Rightarrow> bool" where
  "adjacent_equal (x # y # zs) \<longleftrightarrow> x = y \<or> adjacent_equal (y # zs)"
| "adjacent_equal _ \<longleftrightarrow> False"

definition normalise_all :: "column list \<Rightarrow> (string, raw) dict \<Rightarrow> (string, cells) dict option" where
  "normalise_all cs data =
     map_opt (\<lambda>c. case dict_get data (c_name c) of None \<Rightarrow> None
                | Some values \<Rightarrow> map_option (Pair (c_name c)) (normalise c values)) cs"

definition build :: "table_schema \<Rightarrow> (string, raw) dict \<Rightarrow> tab option" where
  "build sch data =
     (if set (dict_keys data) \<noteq> set (map c_name (s_columns sch)) then None
      else case normalise_all (s_columns sch) data of
             None \<Rightarrow> None
           | Some arrays \<Rightarrow>
               (let n = (case arrays of [] \<Rightarrow> 0 | (x, c) # _ \<Rightarrow> n_cells c) in
                if \<not> list_all (\<lambda>(x, c). n_cells c = n) arrays then None
                else if list_ex (\<lambda>(c, x, a). \<not> c_nullable c \<and> list_ex id (missing c a)) (zip (s_columns sch) arrays)
                then None
                else let order = sort_key (row_key arrays (s_key sch)) [0..<n]
                     in if adjacent_equal (map (row_key arrays (s_key sch)) order) then None
                        else Some \<lparr>tb_schema = sch, tb_columns = map (\<lambda>(x, a). (x, reorder order a)) arrays\<rparr>))"

section \<open>Encoding and hashes\<close>

definition width :: "col_type \<Rightarrow> nat" where
  "width t = (if t = Date32 then 4 else 8)"

definition pack_Q :: "nat \<Rightarrow> octets option" where
  "pack_Q n = (if n < 2 ^ 64 then Some (le_bytes 8 n) else None)"

definition wide_row :: "column \<Rightarrow> 64 word \<Rightarrow> octets" where
  "wide_row c w =
     (let v = (if missing_word c w then 0 else w); b = le_bytes (width (c_type c)) (unat v)
      in if c_nullable c then (if missing_word c w then 0 else 1) # b else b)"

definition text_row :: "column \<Rightarrow> codepoints option \<Rightarrow> octets option" where
  "text_row c t =
     (case t of
        None \<Rightarrow> map_option (Cons 0) (pack_Q 0)
      | Some s \<Rightarrow>
          (case utf8_encode s of
             None \<Rightarrow> None
           | Some b \<Rightarrow> map_option (\<lambda>q. (if c_nullable c then [1] else []) @ q @ b) (pack_Q (length b))))"

fun encode_cells :: "column \<Rightarrow> cells \<Rightarrow> octets option" where
  "encode_cells c (Words ws) = Some (concat (map (wide_row c) ws))"
| "encode_cells c (Texts ts) = map_option concat (map_opt (text_row c) ts)"

definition encoded :: "tab \<Rightarrow> string \<Rightarrow> octets option" where
  "encoded t name =
     (case (schema_column (tb_schema t) name, dict_get (tb_columns t) name) of
        (Some c, Some a) \<Rightarrow> encode_cells c a
      | _ \<Rightarrow> None)"

type_synonym hasher = "octets \<Rightarrow> string"

definition TABLE_SCHEME :: string where "TABLE_SCHEME = ''qs-col-sha256-v1''"
definition DATASET_SCHEME :: string where "DATASET_SCHEME = ''qs-ds-sha256-v1''"
definition BLOB_FORMAT :: string where "BLOB_FORMAT = ''qs-blob-v1''"

definition column_manifest :: "hasher \<Rightarrow> tab \<Rightarrow> column \<Rightarrow> json option" where
  "column_manifest sha t c =
     map_option (\<lambda>b. JObj [(''name'', JStr (c_name c)), (''nullable'', JBool (c_nullable c)),
                           (''sha256'', JStr (sha b)), (''type'', JStr (type_name (c_type c)))])
       (encoded t (c_name c))"

definition table_manifest :: "hasher \<Rightarrow> tab \<Rightarrow> json option" where
  "table_manifest sha t =
     map_option (\<lambda>cs. JObj [(''columns'', JArr cs), (''key'', JArr (map JStr (s_key (tb_schema t)))),
                            (''rows'', JInt (int (table_len t))), (''scheme'', JStr TABLE_SCHEME)])
       (map_opt (column_manifest sha t) (s_columns (tb_schema t)))"

definition table_hash :: "hasher \<Rightarrow> tab \<Rightarrow> string option" where
  "table_hash sha t = map_option sha (Option.bind (table_manifest sha t) jcs_json)"

section \<open>Datasets\<close>

record dataset_identity =
  id_family :: string
  id_provider :: string
  id_licence :: string
  id_frequency :: string
  id_session_boundary :: string
  id_adjustment :: string
  id_survivorship :: string

definition identity_fields :: "dataset_identity \<Rightarrow> (string, string) dict" where
  "identity_fields i =
     [(''family'', id_family i), (''provider'', id_provider i), (''licence_id'', id_licence i),
      (''frequency'', id_frequency i), (''session_boundary'', id_session_boundary i),
      (''adjustment'', id_adjustment i), (''survivorship'', id_survivorship i)]"

definition identity_ok :: "dataset_identity \<Rightarrow> bool" where
  "identity_ok i \<longleftrightarrow> list_all (\<lambda>(k, v). TOKEN v) (identity_fields i)"

definition identity_json :: "dataset_identity \<Rightarrow> json" where
  "identity_json i = JObj (map (\<lambda>(k, v). (k, JStr v)) (identity_fields i))"

record dataset =
  ds_identity :: dataset_identity
  ds_tables :: "tab list"

definition table_names :: "dataset \<Rightarrow> string list" where
  "table_names d = map (\<lambda>t. s_name (tb_schema t)) (ds_tables d)"

definition make_dataset :: "dataset_identity \<Rightarrow> tab list \<Rightarrow> dataset option" where
  "make_dataset i ts =
     (let d = \<lparr>ds_identity = i, ds_tables = ts\<rparr>
      in if ts = [] \<or> \<not> distinct (table_names d) then None else Some d)"

definition dataset_manifest :: "hasher \<Rightarrow> dataset \<Rightarrow> json option" where
  "dataset_manifest sha d =
     map_option (\<lambda>hs. JObj [(''identity'', identity_json (ds_identity d)), (''scheme'', JStr DATASET_SCHEME),
                            (''tables'', JObj hs)])
       (map_opt (\<lambda>t. map_option (\<lambda>h. (s_name (tb_schema t), JStr h)) (table_hash sha t)) (ds_tables d))"

definition dataset_id :: "hasher \<Rightarrow> dataset \<Rightarrow> string option" where
  "dataset_id sha d =
     map_option (\<lambda>b. DATASET_SCHEME @ '':'' @ sha b) (Option.bind (dataset_manifest sha d) jcs_json)"

section \<open>The blob format\<close>

definition BLOB_MAGIC :: octets where "BLOB_MAGIC = [0x51, 0x53, 0x42, 0x4C, 0x4F, 0x42, 0x00, 0x01]"
definition MAX_HEADER :: nat where "MAX_HEADER = 2 ^ 20"

text \<open>zlib and the JSON reader. \<open>inflate b n\<close> is \<^verbatim>\<open>decompressobj().decompress(b, n)\<close>: the bytes
  and whether the stream ended there with nothing unread; \<open>None\<close> is \<^verbatim>\<open>zlib.error\<close>.\<close>

record codec =
  sha256 :: hasher
  deflate :: "octets \<Rightarrow> octets"
  inflate :: "octets \<Rightarrow> nat \<Rightarrow> (octets \<times> bool) option"
  loads :: "octets \<Rightarrow> json option"

definition column_spec :: "column \<Rightarrow> octets \<Rightarrow> json" where
  "column_spec c b = JObj [(''length'', JInt (int (length b))), (''name'', JStr (c_name c)),
                           (''nullable'', JBool (c_nullable c)), (''type'', JStr (type_name (c_type c)))]"

definition encoded_columns :: "tab \<Rightarrow> (column \<times> octets) list option" where
  "encoded_columns t = map_opt (\<lambda>c. map_option (Pair c) (encoded t (c_name c))) (s_columns (tb_schema t))"

definition table_spec :: "tab \<Rightarrow> (column \<times> octets) list \<Rightarrow> json" where
  "table_spec t cbs = JObj [(''columns'', JArr (map (\<lambda>(c, b). column_spec c b) cbs)),
                            (''key'', JArr (map JStr (s_key (tb_schema t)))), (''name'', JStr (s_name (tb_schema t))),
                            (''rows'', JInt (int (table_len t)))]"

definition payload :: "(column \<times> octets) list list \<Rightarrow> octets" where
  "payload parts = concat (map (\<lambda>cbs. concat (map snd cbs)) parts)"

definition blob_header :: "string \<Rightarrow> dataset \<Rightarrow> (column \<times> octets) list list \<Rightarrow> json" where
  "blob_header i d parts =
     JObj [(''dataset_id'', JStr i), (''format'', JStr BLOB_FORMAT), (''identity'', identity_json (ds_identity d)),
           (''payload_length'', JInt (int (length (payload parts)))),
           (''tables'', JArr (map (\<lambda>(t, cbs). table_spec t cbs) (zip (ds_tables d) parts)))]"

definition encode_blob :: "codec \<Rightarrow> dataset \<Rightarrow> octets option" where
  "encode_blob z d =
     (case (map_opt encoded_columns (ds_tables d), dataset_id (sha256 z) d) of
        (Some parts, Some i) \<Rightarrow>
          (case jcs_json (blob_header i d parts) of
             None \<Rightarrow> None
           | Some header \<Rightarrow>
               map_option (\<lambda>q. BLOB_MAGIC @ q @ header @ deflate z (payload parts)) (pack_Q (length header)))
      | _ \<Rightarrow> None)"

text \<open>\<^verbatim>\<open>isinstance(v, int)\<close> also holds of booleans.\<close>

definition as_int :: "json \<Rightarrow> int option" where
  "as_int v = (case v of JInt n \<Rightarrow> Some n | JBool b \<Rightarrow> Some (if b then 1 else 0) | _ \<Rightarrow> None)"

definition as_str :: "json \<Rightarrow> string option" where
  "as_str v = (case v of JStr s \<Rightarrow> Some s | _ \<Rightarrow> None)"

text \<open>\<^verbatim>\<open>tuple(v)\<close> of a key: a string gives its characters, an object its keys.\<close>

definition as_key :: "json \<Rightarrow> string list option" where
  "as_key v = (case v of JArr xs \<Rightarrow> map_opt as_str xs | JStr s \<Rightarrow> Some (map (\<lambda>c. [c]) s) | JObj d \<Rightarrow> Some (dict_keys d)
     | _ \<Rightarrow> None)"

fun chunks :: "nat \<Rightarrow> nat \<Rightarrow> octets \<Rightarrow> octets list" where
  "chunks w 0 bs = []"
| "chunks w (Suc n) bs = take w bs # chunks w n (drop w bs)"

definition wide_value :: "column \<Rightarrow> octets \<Rightarrow> 64 word" where
  "wide_value c b = (if c_type c = Date32 then word_of_int (sint (word_of_nat (of_le b) :: 32 word)) else word_of_nat (of_le b))"

definition missing_value :: "column \<Rightarrow> 64 word" where
  "missing_value c = (if c_type c = Float64 then NAN else NAT)"

definition parse_wide :: "column \<Rightarrow> octets \<Rightarrow> nat \<Rightarrow> raw option" where
  "parse_wide c b rows =
     (let size = width (c_type c) + (if c_nullable c then 1 else 0) in
      if length b \<noteq> rows * size then None
      else let recs = chunks size rows b in
           if c_nullable c \<and> list_ex (\<lambda>r. 1 < hd r) recs then None
           else let ws = map (\<lambda>r. if \<not> c_nullable c then wide_value c r
                                  else if hd r = 0 then missing_value c else wide_value c (tl r)) recs
                in Some (case c_type c of Float64 \<Rightarrow> F8 ws | Date32 \<Rightarrow> M8D ws | _ \<Rightarrow> M8ns ws))"

fun parse_utf8 :: "column \<Rightarrow> nat \<Rightarrow> octets \<Rightarrow> pyval list option" where
  "parse_utf8 c 0 b = (if b = [] then Some [] else None)"
| "parse_utf8 c (Suc rows) b =
     (if c_nullable c \<and> (b = [] \<or> 1 < hd b) then None
      else let valid = (\<not> c_nullable c \<or> hd b = 1); r = (if c_nullable c then tl b else b) in
           if length r < 8 then None
           else let n = of_le (take 8 r); r2 = drop 8 r in
                if length r2 < n then None
                else case (if valid then map_option PText (utf8_decode (take n r2)) else Some PNone) of
                       None \<Rightarrow> None
                     | Some v \<Rightarrow> map_option (Cons v) (parse_utf8 c rows (drop n r2)))"

definition parse_cells :: "column \<Rightarrow> octets \<Rightarrow> json \<Rightarrow> raw option" where
  "parse_cells c b rows =
     (case as_int rows of
        None \<Rightarrow> None
      | Some n \<Rightarrow>
          if n < 0 then None
          else if c_type c = Utf8 then map_option Objs (parse_utf8 c (nat n) b) else parse_wide c b (nat n))"

text \<open>
  A column of a header. \<^verbatim>\<open>nullable\<close> is written as a boolean; a value of another type is refused here, where Python
  would go by its truth.
\<close>

definition spec_column :: "json \<Rightarrow> column option" where
  "spec_column v =
     (case (jget v ''name'', jget v ''type'', jget v ''nullable'') of
        (Some (JStr n), Some (JStr t), Some (JBool b)) \<Rightarrow>
          map_option (\<lambda>ty. \<lparr>c_name = n, c_type = ty, c_nullable = b\<rparr>) (map_of TYPES t)
      | _ \<Rightarrow> None)"

fun decode_columns :: "json \<Rightarrow> (json \<times> column) list \<Rightarrow> octets \<Rightarrow> ((string, raw) dict \<times> octets) option" where
  "decode_columns rows [] b = Some ([], b)"
| "decode_columns rows ((v, c) # vcs) b =
     (case Option.bind (jget v ''length'') as_int of
        None \<Rightarrow> None
      | Some n \<Rightarrow>
          if n < 0 \<or> int (length b) < n then None
          else case parse_cells c (take (nat n) b) rows of
                 None \<Rightarrow> None
               | Some values \<Rightarrow>
                   map_option (\<lambda>(data, r). ((c_name c, values) # data, r)) (decode_columns rows vcs (drop (nat n) b)))"

definition decode_table :: "json \<Rightarrow> octets \<Rightarrow> (tab \<times> octets) option" where
  "decode_table v b =
     (case (jget v ''name'', jget v ''columns'', Option.bind (jget v ''key'') as_key, jget v ''rows'') of
        (Some (JStr name), Some (JArr specs), Some key, Some rows) \<Rightarrow>
          (case map_opt spec_column specs of
             None \<Rightarrow> None
           | Some cols \<Rightarrow>
               (case make_schema name cols key of
                  None \<Rightarrow> None
                | Some sch \<Rightarrow>
                    (case decode_columns rows (zip specs cols) b of
                       None \<Rightarrow> None
                     | Some (data, r) \<Rightarrow> map_option (\<lambda>t. (t, r)) (build sch data))))
      | _ \<Rightarrow> None)"

fun decode_tables :: "json list \<Rightarrow> octets \<Rightarrow> (tab list \<times> octets) option" where
  "decode_tables [] b = Some ([], b)"
| "decode_tables (v # vs) b =
     (case decode_table v b of
        None \<Rightarrow> None
      | Some (t, r) \<Rightarrow> map_option (\<lambda>(ts, r'). (t # ts, r')) (decode_tables vs r))"

definition identity_of :: "json \<Rightarrow> dataset_identity option" where
  "identity_of v =
     (case v of
        JObj d \<Rightarrow>
          if set (dict_keys d) \<noteq> {''family'', ''provider'', ''licence_id'', ''frequency'', ''session_boundary'',
               ''adjustment'', ''survivorship''} then None
          else (case map_opt (\<lambda>k. Option.bind (dict_get d k) as_str)
                       [''family'', ''provider'', ''licence_id'', ''frequency'', ''session_boundary'', ''adjustment'',
                        ''survivorship''] of
                  Some [a, b, c, e, f, g, h] \<Rightarrow>
                    (let i = \<lparr>id_family = a, id_provider = b, id_licence = c, id_frequency = e,
                              id_session_boundary = f, id_adjustment = g, id_survivorship = h\<rparr>
                     in if identity_ok i then Some i else None)
                | _ \<Rightarrow> None)
      | _ \<Rightarrow> None)"

definition decode_payload :: "json \<Rightarrow> octets \<Rightarrow> dataset option" where
  "decode_payload header b =
     (case (jget header ''tables'', jget header ''identity'') of
        (Some (JArr specs), Some v) \<Rightarrow>
          (case decode_tables specs b of
             Some (ts, []) \<Rightarrow> Option.bind (identity_of v) (\<lambda>i. make_dataset i ts)
           | _ \<Rightarrow> None)
      | _ \<Rightarrow> None)"

definition decode_unchecked :: "codec \<Rightarrow> nat \<Rightarrow> octets \<Rightarrow> dataset option" where
  "decode_unchecked z max_bytes blob =
     (if take 8 blob \<noteq> BLOB_MAGIC \<or> length blob < 16 then None
      else let n = of_le (take 8 (drop 8 blob)) in
           if MAX_HEADER < n \<or> length blob < 16 + n then None
           else case loads z (take n (drop 16 blob)) of
                  None \<Rightarrow> None
                | Some header \<Rightarrow>
                    if jget header ''format'' \<noteq> Some (JStr BLOB_FORMAT) then None
                    else (case Option.bind (jget header ''payload_length'') as_int of
                            None \<Rightarrow> None
                          | Some len \<Rightarrow>
                              if len < 0 \<or> int max_bytes < len then None
                              else (case inflate z (drop (16 + n) blob) (nat len + 1) of
                                      None \<Rightarrow> None
                                    | Some (b, done) \<Rightarrow>
                                        if length b \<noteq> nat len \<or> \<not> done then None else decode_payload header b)))"

definition decode_blob :: "codec \<Rightarrow> nat \<Rightarrow> octets \<Rightarrow> string \<Rightarrow> dataset option" where
  "decode_blob z max_bytes blob expected =
     (case decode_unchecked z max_bytes blob of
        None \<Rightarrow> None
      | Some d \<Rightarrow> if dataset_id (sha256 z) d = Some expected then Some d else None)"

end
