(* ===== verification/Dataset_Encoding.thy ===== *)
theory Dataset_Encoding
  imports Dataset_Format
begin

text \<open>
  The column encoding of \<open>Dataset_Format\<close>: every normalised column is well-formed, parsing
  its encoded bytes and normalising the result gives the column back (a missing float as
  the canonical NaN), and so the bytes determine the column.
\<close>

section \<open>Lists of optional results\<close>

lemma map_opt_Some: "map_opt f xs = Some ys \<longleftrightarrow> list_all2 (\<lambda>x y. f x = Some y) xs ys"
proof (induction xs arbitrary: ys)
  case (Cons x xs)
  then show ?case by (cases ys) (auto split: option.splits)
qed (auto split: option.splits)

lemma map_opt_map: "(\<And>x. x \<in> set xs \<Longrightarrow> f (g x) = Some (h x)) \<Longrightarrow> map_opt f (map g xs) = Some (map h xs)"
  by (induction xs) auto

lemma map_opt_all: "(\<And>x. x \<in> set xs \<Longrightarrow> f x = Some (h x)) \<Longrightarrow> map_opt f xs = Some (map h xs)"
  by (induction xs) auto

lemma list_all_map: "list_all P (map f xs) \<longleftrightarrow> (\<forall>x \<in> set xs. P (f x))"
  by (induction xs) auto

lemma map_opt_length: "map_opt f xs = Some ys \<Longrightarrow> length ys = length xs"
  by (auto simp: map_opt_Some list_all2_lengthD)

lemma map_opt_mem: "map_opt f xs = Some ys \<Longrightarrow> y \<in> set ys \<Longrightarrow> \<exists>x \<in> set xs. f x = Some y"
  by (induction xs arbitrary: ys) (auto split: option.splits)

lemma map_opt_ex: "map_opt f xs = Some ys \<Longrightarrow> x \<in> set xs \<Longrightarrow> \<exists>y \<in> set ys. f x = Some y"
  by (induction xs arbitrary: ys) (auto split: option.splits)

section \<open>Well-formed cells\<close>

definition word_ok :: "column \<Rightarrow> 64 word \<Rightarrow> bool" where
  "word_ok c w \<longleftrightarrow> (c_nullable c \<or> \<not> missing_word c w)
     \<and> (c_type c = Float64 \<longrightarrow> \<not> f64_isinf w \<and> (f64_iszero w \<longrightarrow> w = 0)) \<and> (c_type c = Date32 \<longrightarrow> int32_day w)"

definition text_ok :: "column \<Rightarrow> codepoints option \<Rightarrow> bool" where
  "text_ok c t = (case t of None \<Rightarrow> c_nullable c | Some s \<Rightarrow> utf8_valid s)"

fun cells_ok :: "column \<Rightarrow> cells \<Rightarrow> bool" where
  "cells_ok c (Words ws) \<longleftrightarrow> c_type c \<noteq> Utf8 \<and> list_all (word_ok c) ws"
| "cells_ok c (Texts ts) \<longleftrightarrow> c_type c = Utf8 \<and> list_all (text_ok c) ts"

lemma utf8_encode_None: "utf8_encode s = None \<longleftrightarrow> \<not> utf8_valid s"
  by (simp add: utf8_encode_def)

lemma zero_word: "f64_iszero 0" "\<not> f64_isinf 0" "\<not> f64_isnan 0"
  by (simp_all add: f64_iszero_def f64_isinf_def f64_isnan_def f64_magnitude_def)

lemma zero_not_nan: "f64_iszero w \<Longrightarrow> \<not> f64_isnan w"
  by (simp add: f64_iszero_def f64_isnan_def)

lemma float64_column_ok:
  assumes "float64_column (c_nullable c) values = Some a" "c_type c = Float64"
  shows "cells_ok c a"
proof -
  let ?z = "\<lambda>w. if f64_iszero w then 0 else w"
  obtain ws where ws: "a = Words (map ?z ws)" "\<not> list_ex f64_isinf ws" "c_nullable c \<or> \<not> list_ex f64_isnan ws"
    using assms(1) by (auto simp: float64_column_def split: option.splits if_splits)
  have "word_ok c (?z w)" if "w \<in> set ws" for w
    using ws(2,3) that assms(2) zero_word by (auto simp: word_ok_def missing_word_def list_ex_iff)
  then have "\<forall>w \<in> set ws. word_ok c (?z w)" by blast
  then show ?thesis using assms(2) by (simp add: ws(1) list_all_map)
qed

lemma normalise_ok:
  assumes "normalise c values = Some a" "c_nullable c \<or> \<not> list_ex id (missing c a)"
  shows "cells_ok c a"
proof (cases "c_type c")
  case Float64
  then show ?thesis using assms(1) float64_column_ok by (simp add: normalise_def)
next
  case Utf8
  then obtain ts where ts: "a = Texts ts" using assms(1) by (auto simp: normalise_def utf8_column_def)
  have "text_ok c t" if t: "t \<in> set ts" for t
  proof -
    obtain vs where "map_opt (text_item (c_nullable c)) vs = Some ts"
      using assms(1) Utf8 t ts
      by (cases "values") (auto simp: normalise_def utf8_column_def split: if_splits)
    then obtain v where "text_item (c_nullable c) v = Some t" using map_opt_mem t by metis
    then show ?thesis
      by (cases v) (auto simp: text_item_def text_ok_def utf8_encode_None split: if_splits option.splits)
  qed
  then show ?thesis by (simp add: ts Utf8 list_all_iff)
next
  case Date32
  then obtain ws where ws: "a = Words ws" "list_all int32_day ws"
    using assms(1) by (auto simp: normalise_def date32_column_def split: option.splits if_splits)
  then show ?thesis using assms(2) Date32 by (auto simp: word_ok_def list_all_iff list_ex_iff)
next
  case Timestamp_ns
  then obtain ws where "a = Words ws" using assms(1) by (auto simp: normalise_def timestamp_ns_column_def)
  then show ?thesis using assms(2) Timestamp_ns by (auto simp: word_ok_def list_all_iff list_ex_iff)
qed

section \<open>Reading the encoded bytes back\<close>

text \<open>A missing float may carry any NaN payload in the table; it is written as a null and read
  as the canonical NaN.\<close>

fun canon_cells :: "column \<Rightarrow> cells \<Rightarrow> cells" where
  "canon_cells c (Words ws) = Words (map (\<lambda>w. if missing_word c w then missing_value c else w) ws)"
| "canon_cells c (Texts ts) = Texts ts"

lemma chunks_concat:
  "(\<And>r. r \<in> set rs \<Longrightarrow> length r = w) \<Longrightarrow> chunks w (length rs) (concat rs) = rs"
  by (induction rs) auto

lemma length_wide_row:
  "length (wide_row c w) = width (c_type c) + (if c_nullable c then 1 else 0)"
  by (simp add: wide_row_def Let_def)

lemma low32: "(word_of_nat (n mod 2 ^ 32) :: 32 word) = word_of_nat n"
  by (rule word_of_nat_eq_iff [THEN iffD2]) (simp add: take_bit_eq_mod)

lemma sint_low32:
  fixes w :: "64 word"
  assumes "- (2 ^ 31) \<le> sint w" "sint w < 2 ^ 31"
  shows "sint (word_of_nat (unat w mod 2 ^ 32) :: 32 word) = sint w"
proof -
  have cast: "(ucast w :: 32 word) = scast w"
    by (simp add: down_cast_same is_down)
  have "(word_of_nat (unat w mod 2 ^ 32) :: 32 word) = word_of_nat (unat w)"
    by (rule low32)
  also have "\<dots> = scast w" using cast by simp
  also have "\<dots> = of_int (sint w)" by simp
  finally have "sint (word_of_nat (unat w mod 2 ^ 32) :: 32 word) = sint (of_int (sint w) :: 32 word)" by simp
  also have "\<dots> = signed_take_bit 31 (sint w)" by (simp only: sint_sbintrunc') simp
  also have "\<dots> = sint w" using assms by (intro signed_take_bit_int_eq_self) simp_all
  finally show ?thesis .
qed

lemma wide_value_bytes:
  assumes "word_ok c w" "\<not> missing_word c w"
  shows "wide_value c (le_bytes (width (c_type c)) (unat w)) = w"
proof (cases "c_type c = Date32")
  case True
  then have "- (2 ^ 31) \<le> sint w" "sint w < 2 ^ 31"
    using assms by (auto simp: word_ok_def missing_word_def int32_day_def)
  then have "sint (word_of_nat (unat w mod 2 ^ 32) :: 32 word) = sint w" by (rule sint_low32)
  then show ?thesis using True by (simp add: wide_value_def width_def of_le_le_bytes)
next
  case False
  have "unat w < 2 ^ 64" using unsigned_less [of w] by simp
  then show ?thesis using False by (simp add: wide_value_def width_def of_le_le_bytes)
qed

lemma wide_rows_length: "length (concat (map (wide_row c) ws)) = length ws * (width (c_type c) + (if c_nullable c then 1 else 0))"
  by (induction ws) (auto simp: length_wide_row)

lemma parse_wide_encoded:
  assumes "list_all (word_ok c) ws" "c_type c \<noteq> Utf8"
  shows "parse_wide c (concat (map (wide_row c) ws)) (length ws)
    = Some ((case c_type c of Float64 \<Rightarrow> F8 | Date32 \<Rightarrow> M8D | _ \<Rightarrow> M8ns)
              (map (\<lambda>w. if missing_word c w then missing_value c else w) ws))"
proof -
  have ch: "chunks (width (c_type c) + (if c_nullable c then 1 else 0)) (length ws) (concat (map (wide_row c) ws))
      = map (wide_row c) ws"
  proof -
    have "length r = width (c_type c) + (if c_nullable c then 1 else 0)" if "r \<in> set (map (wide_row c) ws)" for r
      using that length_wide_row by auto
    then show ?thesis by (rule chunks_concat [of "map (wide_row c) ws", unfolded length_map])
  qed
  have flags: "\<not> (c_nullable c \<and> list_ex (\<lambda>r. 1 < hd r) (map (wide_row c) ws))"
    by (auto simp: list_ex_iff wide_row_def Let_def)
  have val: "(if \<not> c_nullable c then wide_value c (wide_row c w)
      else if hd (wide_row c w) = 0 then missing_value c else wide_value c (tl (wide_row c w)))
      = (if missing_word c w then missing_value c else w)" if "w \<in> set ws" for w
    using assms(1) that wide_value_bytes [of c w] by (auto simp: list_all_iff wide_row_def Let_def word_ok_def)
  show ?thesis
    unfolding parse_wide_def Let_def wide_rows_length ch using flags val
    by (cases "c_type c") (simp_all add: comp_def)
qed

lemma canonical_missing: "c_type c \<noteq> Utf8 \<Longrightarrow> missing_word c (missing_value c)"
  by (simp add: missing_word_def missing_value_def f64_isnan_def f64_magnitude_def NAN_def)

lemma NAN_facts: "\<not> f64_isinf NAN" "\<not> f64_iszero NAN" "int32_day NAT"
  by (simp_all add: f64_isinf_def f64_iszero_def f64_magnitude_def NAN_def int32_day_def)

lemma parse_normalise_wide:
  assumes "list_all (word_ok c) ws" "c_type c \<noteq> Utf8" "parse_wide c (concat (map (wide_row c) ws)) (length ws) = Some values"
  shows "normalise c values = Some (canon_cells c (Words ws))"
proof -
  let ?f = "\<lambda>w. if missing_word c w then missing_value c else w"
  have v: "values = (case c_type c of Float64 \<Rightarrow> F8 | Date32 \<Rightarrow> M8D | _ \<Rightarrow> M8ns) (map ?f ws)"
    using assms(3) parse_wide_encoded [OF assms(1,2)] by simp
  have ok: "word_ok c w" if "w \<in> set ws" for w using assms(1) that by (simp add: list_all_iff)
  show ?thesis
  proof (cases "c_type c")
    case Float64
    have id: "(\<lambda>w. if f64_iszero w then 0 else w) (?f w) = ?f w" if "w \<in> set ws" for w
      using ok [OF that] Float64 NAN_facts by (auto simp: word_ok_def missing_value_def)
    have "\<not> list_ex f64_isinf (map ?f ws)" "c_nullable c \<or> \<not> list_ex f64_isnan (map ?f ws)"
      using ok Float64 NAN_facts by (auto simp: list_ex_iff word_ok_def missing_value_def missing_word_def)
    then show ?thesis using Float64 id by (simp add: v normalise_def float64_column_def comp_def)
  next
    case Date32
    have "list_all int32_day (map ?f ws)"
      using ok Date32 NAN_facts by (auto simp: list_all_iff word_ok_def missing_value_def)
    then show ?thesis using Date32 by (simp add: v normalise_def date32_column_def)
  next
    case Timestamp_ns
    then show ?thesis by (simp add: v normalise_def timestamp_ns_column_def)
  qed (use assms(2) in simp)
qed

lemma parse_utf8_encoded:
  assumes "list_all (text_ok c) ts" "map_opt (text_row c) ts = Some rs"
  shows "parse_utf8 c (length ts) (concat rs) = Some (map (\<lambda>t. case t of None \<Rightarrow> PNone | Some s \<Rightarrow> PText s) ts)"
  using assms
proof (induction ts arbitrary: rs)
  case (Cons t ts)
  obtain r rs' where r: "text_row c t = Some r" "map_opt (text_row c) ts = Some rs'" "rs = r # rs'"
    using Cons.prems(2) by (auto split: option.splits)
  have IH: "parse_utf8 c (length ts) (concat rs') = Some (map (\<lambda>t. case t of None \<Rightarrow> PNone | Some s \<Rightarrow> PText s) ts)"
    using Cons.IH [OF _ r(2)] Cons.prems(1) by simp
  show ?case
  proof (cases t)
    case None
    then have "c_nullable c" using Cons.prems(1) by (simp add: text_ok_def)
    moreover have "r = 0 # le_bytes 8 0" using r(1) None by (auto simp: text_row_def pack_Q_def)
    ultimately show ?thesis using IH None by (simp add: r(3) of_le_le_bytes)
  next
    case (Some s)
    then obtain b where b: "utf8_encode s = Some b" "length b < 2 ^ 64"
      "r = (if c_nullable c then [1] else []) @ le_bytes 8 (length b) @ b"
      using r(1) by (auto simp: text_row_def pack_Q_def split: option.splits if_splits)
    have "of_le (le_bytes 8 (length b)) = length b" using b(2) by (simp add: of_le_le_bytes)
    then show ?thesis using IH Some utf8_roundtrip [OF b(1)] by (auto simp: r(3) b(3))
  qed
qed simp

lemma parse_normalise_text:
  assumes "list_all (text_ok c) ts" "c_type c = Utf8"
  shows "normalise c (Objs (map (\<lambda>t. case t of None \<Rightarrow> PNone | Some s \<Rightarrow> PText s) ts)) = Some (Texts ts)"
proof -
  have "text_item (c_nullable c) (case t of None \<Rightarrow> PNone | Some s \<Rightarrow> PText s) = Some t" if "t \<in> set ts" for t
    using assms(1) that by (fastforce simp: list_all_iff text_ok_def text_item_def utf8_encode_None split: option.splits)
  then have "map_opt (text_item (c_nullable c)) (map (\<lambda>t. case t of None \<Rightarrow> PNone | Some s \<Rightarrow> PText s) ts) = Some (map (\<lambda>t. t) ts)"
    by (intro map_opt_map)
  then show ?thesis by (simp add: normalise_def utf8_column_def assms(2))
qed

theorem encoding_reads_back:
  assumes "cells_ok c a" "encode_cells c a = Some b"
  obtains vs where "parse_cells c b (JInt (int (n_cells a))) = Some vs" "normalise c vs = Some (canon_cells c a)"
proof (cases a)
  case (Words ws)
  then have "parse_wide c b (length ws) \<noteq> None" "b = concat (map (wide_row c) ws)"
    using assms parse_wide_encoded [of c ws] by auto
  then obtain vs where "parse_wide c b (length ws) = Some vs" "normalise c vs = Some (canon_cells c a)"
    using parse_normalise_wide [of c ws] assms Words by auto
  then show ?thesis using that assms(1) Words by (simp add: parse_cells_def as_int_def)
next
  case (Texts ts)
  then obtain rs where "map_opt (text_row c) ts = Some rs" "b = concat rs" using assms(2) by auto
  then show ?thesis
    using that parse_utf8_encoded [of c ts] parse_normalise_text [of c ts] assms(1) Texts
    by (simp add: parse_cells_def as_int_def)
qed

section \<open>The bytes determine the column\<close>

lemma wide_row_inj:
  assumes "word_ok c w" "word_ok c w'" "wide_row c w = wide_row c w'" "c_type c \<noteq> Utf8"
  shows "(if missing_word c w then missing_value c else w) = (if missing_word c w' then missing_value c else w')"
proof -
  have "parse_wide c (wide_row c w) 1 = parse_wide c (wide_row c w') 1" using assms(3) by simp
  then show ?thesis
    using parse_wide_encoded [of c "[w]"] parse_wide_encoded [of c "[w']"] assms
    by (cases "c_type c") simp_all
qed

lemma wide_rows_inj:
  assumes "list_all (word_ok c) ws" "list_all (word_ok c) ws'" "c_type c \<noteq> Utf8"
    and "concat (map (wide_row c) ws) = concat (map (wide_row c) ws')"
  shows "canon_cells c (Words ws) = canon_cells c (Words ws')"
proof -
  have "length ws = length ws'"
    using assms(4) wide_rows_length [of c ws] wide_rows_length [of c ws'] by (auto simp: width_def split: if_splits)
  then show ?thesis
    using parse_wide_encoded [OF assms(1,3)] parse_wide_encoded [OF assms(2,3)] assms(4)
    by (cases "c_type c") simp_all
qed

lemma text_row_nonempty: "text_row c t = Some r \<Longrightarrow> r \<noteq> []"
proof -
  have "le_bytes 8 k \<noteq> []" for k by (metis length_le_bytes list.size(3) zero_neq_numeral)
  then show "text_row c t = Some r \<Longrightarrow> ?thesis"
    by (auto simp: text_row_def pack_Q_def split: option.splits if_splits)
qed

lemma text_row_prefix:
  assumes "text_row c t = Some r" "text_row c t' = Some r'" "text_ok c t" "text_ok c t'" "r @ q = r' @ q'"
  shows "t = t' \<and> q = q'"
proof -
  have shape: "\<exists>b n. n < 2 ^ 64 \<and> length b = n \<and> (case t of None \<Rightarrow> c_nullable c \<and> r = 0 # le_bytes 8 0 @ b \<and> b = []
      | Some s \<Rightarrow> utf8_encode s = Some b \<and> r = (if c_nullable c then [1] else []) @ le_bytes 8 n @ b)"
    if "text_row c t = Some r" "text_ok c t" for t r
    using that by (auto simp: text_row_def text_ok_def pack_Q_def split: option.splits if_splits)
  obtain b n where b: "n < 2 ^ 64" "length b = n" "case t of None \<Rightarrow> c_nullable c \<and> r = 0 # le_bytes 8 0 @ b \<and> b = []
      | Some s \<Rightarrow> utf8_encode s = Some b \<and> r = (if c_nullable c then [1] else []) @ le_bytes 8 n @ b"
    using shape assms(1,3) by metis
  obtain b' n' where b': "n' < 2 ^ 64" "length b' = n'" "case t' of None \<Rightarrow> c_nullable c \<and> r' = 0 # le_bytes 8 0 @ b' \<and> b' = []
      | Some s \<Rightarrow> utf8_encode s = Some b' \<and> r' = (if c_nullable c then [1] else []) @ le_bytes 8 n' @ b'"
    using shape assms(2,4) by metis
  have le: "n = n' \<and> b @ q = b' @ q'" if "le_bytes 8 n @ b @ q = le_bytes 8 n' @ b' @ q'"
  proof -
    have "le_bytes 8 n = le_bytes 8 n'" "b @ q = b' @ q'" using that by (simp_all del: le_bytes.simps)
    moreover have "of_le (le_bytes 8 n) = n" "of_le (le_bytes 8 n') = n'"
      using b(1) b'(1) by (simp_all add: of_le_le_bytes)
    ultimately show ?thesis by metis
  qed
  show ?thesis
  proof (cases t)
    case None
    then have "t' = None" using b(3) b'(3) assms(5) by (cases t') (auto split: if_splits)
    then show ?thesis using None b(3) b'(3) assms(5) by simp
  next
    case (Some s)
    then obtain s' where t': "t' = Some s'" using b(3) b'(3) assms(5) by (cases t') (auto split: if_splits)
    have "le_bytes 8 n @ b @ q = le_bytes 8 n' @ b' @ q'"
      using assms(5) b(3) b'(3) Some t' by (auto split: if_splits)
    then have "n = n'" "b @ q = b' @ q'" using le by auto
    then have "b = b'" "q = q'" using b(2) b'(2) by auto
    then show ?thesis using Some t' b(3) b'(3) utf8_encode_inj by auto
  qed
qed

lemma text_rows_inj:
  assumes "list_all (text_ok c) ts" "list_all (text_ok c) ts'"
    and "map_opt (text_row c) ts = Some rs" "map_opt (text_row c) ts' = Some rs'" "concat rs = concat rs'"
  shows "ts = ts'"
  using assms
proof (induction ts arbitrary: ts' rs rs')
  case Nil
  show ?case
  proof (cases ts')
    case (Cons t us)
    then have "concat rs' \<noteq> []" using Nil.prems(4) text_row_nonempty
      by (fastforce split: option.splits)
    then show ?thesis using Nil.prems by simp
  qed simp
next
  case (Cons t ts)
  obtain r qs where r: "text_row c t = Some r" "map_opt (text_row c) ts = Some qs" "rs = r # qs"
    using Cons.prems(3) by (auto split: option.splits)
  have "concat rs \<noteq> []" using r text_row_nonempty by auto
  then obtain t' us where ts': "ts' = t' # us" using Cons.prems by (cases ts') auto
  obtain r' qs' where r': "text_row c t' = Some r'" "map_opt (text_row c) us = Some qs'" "rs' = r' # qs'"
    using Cons.prems(4) ts' by (auto split: option.splits)
  have "t = t' \<and> concat qs = concat qs'"
    using text_row_prefix [OF r(1) r'(1)] Cons.prems r(3) r'(3) ts' by simp
  then show ?case using Cons.IH [of us qs qs'] Cons.prems r r' ts' by simp
qed

theorem encoding_determines_cells:
  assumes "cells_ok c a" "cells_ok c a'" "encode_cells c a = Some b" "encode_cells c a' = Some b"
  shows "canon_cells c a = canon_cells c a'"
proof (cases a)
  case (Words ws)
  then obtain ws' where "a' = Words ws'" using assms by (cases a') auto
  then show ?thesis using wide_rows_inj [of c ws ws'] assms Words by simp
next
  case (Texts ts)
  then obtain ts' where "a' = Texts ts'" using assms by (cases a') auto
  then show ?thesis using text_rows_inj [of c ts ts'] assms Texts by auto
qed

end
