(* ===== verification/Dataset_Tables.thy ===== *)
theory Dataset_Tables
  imports Dataset_Encoding
begin

text \<open>
  Tables of \<open>Dataset_Format\<close>: what \<^verbatim>\<open>Table.build\<close> establishes, and that rebuilding a table
  from its own normalised columns gives it back.
\<close>

section \<open>Well-formed tables\<close>

definition table_ok :: "tab \<Rightarrow> bool" where
  "table_ok t \<longleftrightarrow>
     schema_ok (tb_schema t)
     \<and> list_all2 (\<lambda>c p. fst p = c_name c \<and> cells_ok c (snd p) \<and> n_cells (snd p) = table_len t)
         (s_columns (tb_schema t)) (tb_columns t)
     \<and> sorted_wrt (<) (map (row_key (tb_columns t) (s_key (tb_schema t))) [0..<table_len t])"

lemma n_cells_reorder [simp]: "n_cells (reorder order a) = length order"
  by (cases a) auto

lemma n_cells_canon [simp]: "n_cells (canon_cells c a) = n_cells a"
  by (cases a) auto

lemma cells_ok_reorder: "cells_ok c a \<Longrightarrow> set order \<subseteq> {..<n_cells a} \<Longrightarrow> cells_ok c (reorder order a)"
  by (cases a) (force simp: list_all_iff)+

lemma sort_codes_reorder:
  "i < length order \<Longrightarrow> order ! i < n_cells a \<Longrightarrow> sort_codes (reorder order a) ! i = sort_codes a ! (order ! i)"
  by (cases a) auto

lemma reorder_id: "reorder [0..<n_cells a] a = a"
  by (cases a) (auto simp: map_nth)

lemma length_sort_codes [simp]: "length (sort_codes a) = n_cells a"
  by (cases a) auto

lemma adjacent_equal_strict:
  fixes xs :: "'a :: linorder list"
  shows "sorted xs \<Longrightarrow> \<not> adjacent_equal xs \<longleftrightarrow> sorted_wrt (<) xs"
proof (induction xs rule: adjacent_equal.induct)
  case (1 x y zs)
  have "sorted_wrt (<) (x # y # zs) \<longleftrightarrow> x < y \<and> sorted_wrt (<) (y # zs)"
    by (auto intro: less_trans)
  then show ?case using 1 by (auto simp: less_le)
qed auto

lemma normalise_all_cols:
  assumes "normalise_all cs data = Some arrays"
  shows "list_all2 (\<lambda>c p. fst p = c_name c \<and> (\<exists>vs. dict_get data (c_name c) = Some vs \<and> normalise c vs = Some (snd p))) cs arrays"
  using assms unfolding normalise_all_def map_opt_Some
  by (rule list_all2_mono) (auto split: option.splits)

lemma list_all2_fst: "list_all2 (\<lambda>c p. fst p = f c \<and> Q c p) cs ps \<Longrightarrow> map fst ps = map f cs"
  by (induction rule: list_all2_induct) auto

lemma list_all2_zip: "list_all2 P xs ys \<Longrightarrow> (x, y) \<in> set (zip xs ys) \<Longrightarrow> P x y"
  by (auto simp: list_all2_iff)

lemma columns_get:
  assumes "list_all2 (\<lambda>c p. fst p = c_name c \<and> P c (snd p)) cs ps" "distinct (map c_name cs)" "c \<in> set cs"
  shows "\<exists>a. dict_get ps (c_name c) = Some a \<and> P c a"
  using assms
proof (induction rule: list_all2_induct)
  case (Cons x xs p ps)
  then show ?case by (cases p) (auto simp: image_iff)
qed simp

lemma columns_get_key:
  assumes "list_all2 (\<lambda>c p. fst p = c_name c \<and> P c (snd p)) cs ps" "distinct (map c_name cs)" "k \<in> set (map c_name cs)"
  shows "\<exists>c a. c \<in> set cs \<and> c_name c = k \<and> dict_get ps k = Some a \<and> P c a"
  using columns_get [OF assms(1,2)] assms(3) by auto

lemma schema_parts:
  assumes "schema_ok s"
  shows "distinct (map c_name (s_columns s))" "s_columns s \<noteq> []"
    and "\<And>k. k \<in> set (s_key s) \<Longrightarrow> k \<in> set (map c_name (s_columns s))"
    and "\<And>k c. k \<in> set (s_key s) \<Longrightarrow> c \<in> set (s_columns s) \<Longrightarrow> c_name c = k \<Longrightarrow> \<not> c_nullable c"
  using assms by (auto simp: schema_ok_def Let_def list_all_iff)

text \<open>Reordering the columns reorders the row keys.\<close>

lemma row_key_reorder:
  assumes "list_all2 (\<lambda>c p. fst p = c_name c \<and> n_cells (snd p) = n) cs arrays" "distinct (map c_name cs)"
    and "\<And>k. k \<in> set key \<Longrightarrow> k \<in> set (map c_name cs)"
    and "set order = {..<n}" "length order = n" "i < n"
  shows "row_key (map (\<lambda>(x, a). (x, reorder order a)) arrays) key i = row_key arrays key (order ! i)"
proof -
  have "(case dict_get (map (\<lambda>(x, a). (x, reorder order a)) arrays) k of Some c \<Rightarrow> sort_codes c ! i | None \<Rightarrow> NumCode 0)
      = (case dict_get arrays k of Some c \<Rightarrow> sort_codes c ! (order ! i) | None \<Rightarrow> NumCode 0)" if k: "k \<in> set key" for k
  proof -
    obtain a where a: "dict_get arrays k = Some a" "n_cells a = n"
      using columns_get_key [OF assms(1,2), of k] assms(3) k by blast
    have "order ! i \<in> set order" using assms(5,6) by simp
    then have "order ! i < n" using assms(4) by simp
    then show ?thesis using a assms(5,6) by (simp add: map_of_map sort_codes_reorder)
  qed
  then show ?thesis by (simp add: row_key_def)
qed

theorem build_well_formed:
  assumes "schema_ok sch" "build sch data = Some t"
  shows "table_ok t \<and> tb_schema t = sch"
proof -
  obtain arrays where arrays: "normalise_all (s_columns sch) data = Some arrays"
    using assms(2) by (auto simp: build_def split: if_splits option.splits)
  let ?n = "case arrays of [] \<Rightarrow> 0 | (x, c) # _ \<Rightarrow> n_cells c"
  let ?f = "row_key arrays (s_key sch)"
  define order where "order = sort_key ?f [0..<?n]"
  have b: "list_all (\<lambda>(x, c). n_cells c = ?n) arrays"
    "\<not> list_ex (\<lambda>(c, x, a). \<not> c_nullable c \<and> list_ex id (missing c a)) (zip (s_columns sch) arrays)"
    "\<not> adjacent_equal (map ?f order)"
    and t: "t = \<lparr>tb_schema = sch, tb_columns = map (\<lambda>(x, a). (x, reorder order a)) arrays\<rparr>"
    using assms(2) arrays unfolding order_def build_def Let_def by (auto split: if_splits)
  note schema = schema_parts [OF assms(1)]
  have order: "set order = {..<?n}" "length order = ?n" by (auto simp: order_def)
  have ok: "list_all2 (\<lambda>c p. fst p = c_name c \<and> cells_ok c (snd p) \<and> n_cells (snd p) = ?n) (s_columns sch) arrays"
  proof (rule list_all2_all_nthI)
    have len: "length arrays = length (s_columns sch)" using arrays map_opt_length by (auto simp: normalise_all_def)
    show "length (s_columns sch) = length arrays" using len by simp
    fix i assume i: "i < length (s_columns sch)"
    let ?c = "s_columns sch ! i" and ?p = "arrays ! i"
    obtain vs where v: "fst ?p = c_name ?c" "normalise ?c vs = Some (snd ?p)"
      using normalise_all_cols [OF arrays] i by (auto dest!: list_all2_nthD)
    have z: "(?c, ?p) \<in> set (zip (s_columns sch) arrays)" using i len by (force simp: set_zip)
    have "c_nullable ?c \<or> \<not> list_ex id (missing ?c (snd ?p))"
      using b(2) z by (cases ?p) (auto simp: list_ex_iff)
    moreover have "?p \<in> set arrays" using i len by simp
    then have "n_cells (snd ?p) = ?n" using b(1) unfolding list_all_iff case_prod_beta by blast
    ultimately show "fst ?p = c_name ?c \<and> cells_ok ?c (snd ?p) \<and> n_cells (snd ?p) = ?n"
      using v normalise_ok by blast
  qed
  then have sizes: "list_all2 (\<lambda>c p. fst p = c_name c \<and> n_cells (snd p) = ?n) (s_columns sch) arrays"
    by (rule list_all2_mono) auto
  have n: "table_len t = ?n"
    using order(2) by (cases arrays) (simp_all add: t table_len_def case_prod_beta)
  have "list_all2 (\<lambda>c p. fst p = c_name c \<and> cells_ok c (snd p) \<and> n_cells (snd p) = table_len t) (s_columns sch) (tb_columns t)"
    unfolding n unfolding t tab.simps list_all2_map2
  proof (rule list_all2_mono [OF ok])
    fix c p assume p: "fst p = c_name c \<and> cells_ok c (snd p) \<and> n_cells (snd p) = ?n"
    then have "cells_ok c (reorder order (snd p))" using order(1) by (intro cells_ok_reorder) auto
    then show "fst (case p of (x, a) \<Rightarrow> (x, reorder order a)) = c_name c
        \<and> cells_ok c (snd (case p of (x, a) \<Rightarrow> (x, reorder order a)))
        \<and> n_cells (snd (case p of (x, a) \<Rightarrow> (x, reorder order a))) = ?n"
      using p order(2) by (simp add: case_prod_beta)
  qed
  moreover have "map (row_key (tb_columns t) (s_key sch)) [0..<?n] = map ?f order"
    using row_key_reorder [OF sizes schema(1,3) order] order(2)
    by (intro nth_equalityI) (auto simp: t)
  moreover have "sorted_wrt (<) (map ?f order)"
    by (rule adjacent_equal_strict [THEN iffD1, OF _ b(3)]) (simp add: order_def)
  ultimately show ?thesis using assms(1) n by (simp add: table_ok_def t)
qed

section \<open>Rebuilding\<close>

definition canon_columns :: "column list \<Rightarrow> (string, cells) dict \<Rightarrow> (string, cells) dict" where
  "canon_columns cs ps = map (\<lambda>(c, x, a). (x, canon_cells c a)) (zip cs ps)"

definition canon_table :: "tab \<Rightarrow> tab" where
  "canon_table t = t\<lparr>tb_columns := canon_columns (s_columns (tb_schema t)) (tb_columns t)\<rparr>"

lemma canon_columns_all2:
  assumes "list_all2 (\<lambda>c p. fst p = c_name c \<and> P c (snd p)) cs ps"
  shows "list_all2 (\<lambda>c p. fst p = c_name c \<and> (\<exists>a. snd p = canon_cells c a \<and> P c a)) cs (canon_columns cs ps)"
  using assms unfolding canon_columns_def by (induction rule: list_all2_induct) auto

lemma canon_cells_nonnull:
  assumes "cells_ok c a" "\<not> c_nullable c"
  shows "canon_cells c a = a"
proof (cases a)
  case (Words ws)
  then have "\<forall>w \<in> set ws. \<not> missing_word c w" using assms by (auto simp: list_all_iff word_ok_def)
  then show ?thesis by (simp add: Words map_idI)
qed simp

lemma canon_idem: "c_type c \<noteq> Utf8 \<or> (\<exists>ts. a = Texts ts) \<Longrightarrow> canon_cells c (canon_cells c a) = canon_cells c a"
  by (cases a) (auto simp: canonical_missing)

lemma missing_canon_nonnull:
  assumes "cells_ok c a" "\<not> c_nullable c"
  shows "True \<notin> set (missing c (canon_cells c a))"
  unfolding canon_cells_nonnull [OF assms] using assms
  by (cases a) (auto simp: list_all_iff word_ok_def text_ok_def split: option.splits)

lemma canon_get:
  assumes "list_all2 (\<lambda>c p. fst p = c_name c \<and> cells_ok c (snd p)) cs ps" "distinct (map c_name cs)"
    "k \<in> set (map c_name cs)" "\<And>c. c \<in> set cs \<Longrightarrow> c_name c = k \<Longrightarrow> \<not> c_nullable c"
  shows "dict_get (canon_columns cs ps) k = dict_get ps k"
proof -
  obtain c a where a: "c \<in> set cs" "c_name c = k" "dict_get ps k = Some a" "cells_ok c a"
    using columns_get_key [OF assms(1,2,3)] by blast
  have all2: "list_all2 (\<lambda>c p. fst p = c_name c \<and> (\<exists>a. snd p = canon_cells c a \<and> cells_ok c a \<and> dict_get ps (c_name c) = Some a))
     cs (canon_columns cs ps)"
  proof -
    have "map fst ps = map c_name cs" using assms(1) by (rule list_all2_fst)
    then have d: "distinct (map fst ps)" using assms(2) by simp
    have "list_all2 (\<lambda>c p. fst p = c_name c \<and> cells_ok c (snd p) \<and> dict_get ps (c_name c) = Some (snd p)) cs ps"
      using assms(1) d by (auto simp: list_all2_conv_all_nth) (metis map_of_is_SomeI nth_mem prod.collapse)
    then show ?thesis
      using canon_columns_all2 [of "\<lambda>c a. cells_ok c a \<and> dict_get ps (c_name c) = Some a" cs ps] by blast
  qed
  obtain c' a' where c': "c' \<in> set cs" "c_name c' = k" "dict_get (canon_columns cs ps) k = Some (canon_cells c' a')" "cells_ok c' a'"
    "dict_get ps k = Some a'"
    using columns_get_key [OF all2 assms(2,3)] by blast
  then show ?thesis using canon_cells_nonnull assms(4) by simp
qed

lemma row_key_canon:
  assumes "table_ok t"
  shows "row_key (tb_columns (canon_table t)) (s_key (tb_schema t)) i = row_key (tb_columns t) (s_key (tb_schema t)) i"
proof -
  have s: "schema_ok (tb_schema t)" using assms by (simp add: table_ok_def)
  have "list_all2 (\<lambda>c p. fst p = c_name c \<and> cells_ok c (snd p)) (s_columns (tb_schema t)) (tb_columns t)"
    using assms unfolding table_ok_def by (auto elim: list_all2_mono)
  from canon_get [OF this schema_parts(1) [OF s] schema_parts(3) [OF s]] schema_parts(4) [OF s]
  show ?thesis unfolding row_key_def canon_table_def by simp
qed

lemma table_len_canon: "table_ok t \<Longrightarrow> table_len (canon_table t) = table_len t"
proof -
  assume "table_ok t"
  then have "length (s_columns (tb_schema t)) = length (tb_columns t)"
    by (auto simp: table_ok_def dest: list_all2_lengthD)
  then show ?thesis
    by (cases "tb_columns t"; cases "s_columns (tb_schema t)")
      (auto simp: table_len_def canon_table_def canon_columns_def)
qed

theorem rebuild_table:
  assumes "table_ok t" "set (dict_keys data) = set (map c_name (s_columns (tb_schema t)))"
    and "\<And>c. c \<in> set (s_columns (tb_schema t)) \<Longrightarrow>
      \<exists>vs. dict_get data (c_name c) = Some vs
           \<and> normalise c vs = map_option (canon_cells c) (dict_get (tb_columns t) (c_name c))"
  shows "build (tb_schema t) data = Some (canon_table t)"
proof -
  let ?cs = "s_columns (tb_schema t)" and ?ps = "tb_columns t"
  let ?arrays = "canon_columns ?cs ?ps"
  have s: "schema_ok (tb_schema t)" using assms(1) by (simp add: table_ok_def)
  have all2: "list_all2 (\<lambda>c p. fst p = c_name c \<and> cells_ok c (snd p) \<and> n_cells (snd p) = table_len t) ?cs ?ps"
    using assms(1) by (simp add: table_ok_def)
  have names: "map fst ?ps = map c_name ?cs" using list_all2_fst [OF all2] .
  then have d: "distinct (map fst ?ps)" using schema_parts(1) [OF s] by simp
  have arrays: "normalise_all ?cs data = Some ?arrays"
    unfolding normalise_all_def map_opt_Some
  proof (rule list_all2_all_nthI)
    have len: "length ?ps = length ?cs" using all2 by (simp add: list_all2_lengthD)
    show "length ?cs = length ?arrays" by (simp add: canon_columns_def len)
    fix i assume i: "i < length ?cs"
    have p: "fst (?ps ! i) = c_name (?cs ! i)" using list_all2_nthD [OF all2 i] by simp
    have "dict_get ?ps (c_name (?cs ! i)) = Some (snd (?ps ! i))"
      using d i len p by (intro map_of_is_SomeI) (metis nth_mem prod.collapse)+
    then obtain vs where "dict_get data (c_name (?cs ! i)) = Some vs"
      "normalise (?cs ! i) vs = Some (canon_cells (?cs ! i) (snd (?ps ! i)))"
      using assms(3) [of "?cs ! i"] i by auto
    then show "(case dict_get data (c_name (?cs ! i)) of None \<Rightarrow> None
        | Some values \<Rightarrow> map_option (Pair (c_name (?cs ! i))) (normalise (?cs ! i) values)) = Some (?arrays ! i)"
      using i len p by (simp add: canon_columns_def case_prod_beta)
  qed
  have canon2: "list_all2 (\<lambda>c p. fst p = c_name c \<and> (\<exists>a. snd p = canon_cells c a \<and> cells_ok c a \<and> n_cells a = table_len t)) ?cs ?arrays"
    using canon_columns_all2 [OF all2] by simp
  have n: "(case ?arrays of [] \<Rightarrow> 0 | (x, c) # _ \<Rightarrow> n_cells c) = table_len t"
    using table_len_canon [OF assms(1)] by (simp add: table_len_def canon_table_def)
  have sizes: "list_all (\<lambda>(x, c). n_cells c = table_len t) ?arrays"
    using canon2 by (auto simp: list_all_iff in_set_conv_nth list_all2_conv_all_nth) fastforce
  have full: "\<not> list_ex (\<lambda>(c, x, a). \<not> c_nullable c \<and> list_ex id (missing c a)) (zip ?cs ?arrays)"
  proof
    assume "list_ex (\<lambda>(c, x, a). \<not> c_nullable c \<and> list_ex id (missing c a)) (zip ?cs ?arrays)"
    then obtain c x a where z: "(c, x, a) \<in> set (zip ?cs ?arrays)" "\<not> c_nullable c" "True \<in> set (missing c a)"
      by (auto simp: list_ex_iff)
    then obtain a' where "a = canon_cells c a'" "cells_ok c a'" using list_all2_zip [OF canon2 z(1)] by auto
    then show False using z missing_canon_nonnull by blast
  qed
  have keys: "map (row_key ?arrays (s_key (tb_schema t))) [0..<table_len t] = map (row_key ?ps (s_key (tb_schema t))) [0..<table_len t]"
    using row_key_canon [OF assms(1)] by (simp add: canon_table_def)
  have strict: "sorted_wrt (<) (map (row_key ?arrays (s_key (tb_schema t))) [0..<table_len t])"
    unfolding keys using assms(1) by (simp add: table_ok_def)
  then have sorted: "sorted (map (row_key ?arrays (s_key (tb_schema t))) [0..<table_len t])"
    by (rule sorted_wrt_mono_rel [rotated]) simp
  have order: "sort_key (row_key ?arrays (s_key (tb_schema t))) [0..<table_len t] = [0..<table_len t]"
    by (rule sort_key_id_if_sorted [OF sorted])
  have same: "map (\<lambda>(x, a). (x, reorder [0..<table_len t] a)) ?arrays = ?arrays"
  proof (rule map_idI)
    fix p assume "p \<in> set ?arrays"
    then have "n_cells (snd p) = table_len t" using sizes unfolding list_all_iff case_prod_beta by blast
    then show "(case p of (x, a) \<Rightarrow> (x, reorder [0..<table_len t] a)) = p"
      using reorder_id [of "snd p"] by (cases p) simp
  qed
  show ?thesis
    unfolding build_def arrays option.case Let_def n order same
    using assms(2) sizes full strict adjacent_equal_strict [OF sorted] by (simp add: canon_table_def)
qed

end
