(* ===== verification/Dataset_Properties.thy ===== *)
theory Dataset_Properties
  imports Dataset_Tables "HOL-Library.Multiset"
begin

text \<open>
  What the dataset format promises: built tables are well-formed, a stored blob decodes to
  the dataset it was made of, nothing but a dataset with the expected id is ever decoded,
  and an id determines the identity and the cells of the dataset.
\<close>

section \<open>Well-formed datasets\<close>

definition dataset_ok :: "dataset \<Rightarrow> bool" where
  "dataset_ok d \<longleftrightarrow> list_all table_ok (ds_tables d) \<and> identity_ok (ds_identity d) \<and> ds_tables d \<noteq> []
     \<and> distinct (table_names d)"

definition canon_dataset :: "dataset \<Rightarrow> dataset" where
  "canon_dataset d = d\<lparr>ds_tables := map canon_table (ds_tables d)\<rparr>"

lemma encode_canon: "cells_ok c a \<Longrightarrow> encode_cells c (canon_cells c a) = encode_cells c a"
proof (cases a)
  case (Words ws)
  moreover assume "cells_ok c a"
  ultimately have "wide_row c (if missing_word c w then missing_value c else w) = wide_row c w" for w
    using canonical_missing [of c] by (simp add: wide_row_def)
  then show ?thesis by (simp add: Words comp_def)
qed simp

text \<open>The cells of a column, and their encoding.\<close>

lemma table_column:
  assumes "table_ok t" "c \<in> set (s_columns (tb_schema t))"
  obtains a where "dict_get (tb_columns t) (c_name c) = Some a" "cells_ok c a" "n_cells a = table_len t"
    "encoded t (c_name c) = encode_cells c a"
    "dict_get (tb_columns (canon_table t)) (c_name c) = Some (canon_cells c a)"
proof -
  have s: "schema_ok (tb_schema t)" using assms(1) by (simp add: table_ok_def)
  have all2: "list_all2 (\<lambda>c p. fst p = c_name c \<and> cells_ok c (snd p) \<and> n_cells (snd p) = table_len t)
      (s_columns (tb_schema t)) (tb_columns t)"
    using assms(1) by (simp add: table_ok_def)
  have d: "distinct (map fst (tb_columns t))" "distinct (map c_name (s_columns (tb_schema t)))"
    using list_all2_fst [OF all2] schema_parts(1) [OF s] by simp_all
  have all2': "list_all2 (\<lambda>c p. fst p = c_name c \<and> cells_ok c (snd p) \<and> n_cells (snd p) = table_len t
        \<and> dict_get (tb_columns t) (c_name c) = Some (snd p)) (s_columns (tb_schema t)) (tb_columns t)"
    using all2 d(1) by (auto simp: list_all2_conv_all_nth) (metis map_of_is_SomeI nth_mem prod.collapse)
  obtain a where a: "dict_get (tb_columns t) (c_name c) = Some a" "cells_ok c a" "n_cells a = table_len t"
    using columns_get [OF all2 d(2) assms(2)] by blast
  have "schema_column (tb_schema t) (c_name c) = Some c"
    using find_row_in d(2) assms(2) by (simp add: schema_column_def)
  then have "encoded t (c_name c) = encode_cells c a" using a(1) by (simp add: encoded_def)
  moreover have "\<exists>a'. dict_get (canon_columns (s_columns (tb_schema t)) (tb_columns t)) (c_name c) = Some a'
      \<and> (\<exists>a. a' = canon_cells c a \<and> cells_ok c a \<and> n_cells a = table_len t \<and> dict_get (tb_columns t) (c_name c) = Some a)"
    by (rule columns_get [OF _ d(2) assms(2)])
      (rule canon_columns_all2 [of "\<lambda>c a. cells_ok c a \<and> n_cells a = table_len t \<and> dict_get (tb_columns t) (c_name c) = Some a",
          OF all2'])
  then have "dict_get (tb_columns (canon_table t)) (c_name c) = Some (canon_cells c a)"
    using a(1) by (auto simp: canon_table_def)
  ultimately show ?thesis using that a by blast
qed

lemma encoded_canon:
  assumes "table_ok t" "c \<in> set (s_columns (tb_schema t))"
  shows "encoded (canon_table t) (c_name c) = encoded t (c_name c)"
proof -
  obtain a where a: "cells_ok c a" "encoded t (c_name c) = encode_cells c a"
    "dict_get (tb_columns (canon_table t)) (c_name c) = Some (canon_cells c a)"
    using table_column [OF assms] by metis
  have "schema_column (tb_schema t) (c_name c) = Some c"
    using find_row_in [of c_name "s_columns (tb_schema t)" c] assms schema_parts(1) by (simp add: schema_column_def table_ok_def)
  then show ?thesis using a encode_canon by (simp add: encoded_def canon_table_def)
qed

lemma map_opt_cong: "(\<And>x. x \<in> set xs \<Longrightarrow> f x = g x) \<Longrightarrow> map_opt f xs = map_opt g xs"
  by (induction xs) (auto split: option.split)

lemma map_opt_compose: "map_opt f (map g xs) = map_opt (f \<circ> g) xs"
  by (induction xs) (auto split: option.split)

lemma table_hash_canon: "table_ok t \<Longrightarrow> table_hash sha (canon_table t) = table_hash sha t"
proof -
  assume t: "table_ok t"
  have "map_opt (column_manifest sha (canon_table t)) (s_columns (tb_schema t)) = map_opt (column_manifest sha t) (s_columns (tb_schema t))"
    using encoded_canon [OF t] by (intro map_opt_cong) (simp add: column_manifest_def)
  then show ?thesis
    using table_len_canon [OF t] by (simp add: table_hash_def table_manifest_def canon_table_def)
qed

lemma dataset_id_canon: "dataset_ok d \<Longrightarrow> dataset_id sha (canon_dataset d) = dataset_id sha d"
proof -
  assume d: "dataset_ok d"
  have "map_opt (\<lambda>t. map_option (\<lambda>h. (s_name (tb_schema t), JStr h)) (table_hash sha t)) (map canon_table (ds_tables d))
      = map_opt (\<lambda>t. map_option (\<lambda>h. (s_name (tb_schema t), JStr h)) (table_hash sha t)) (ds_tables d)"
    unfolding map_opt_compose using d
    by (intro map_opt_cong) (simp add: table_hash_canon dataset_ok_def list_all_iff, simp add: canon_table_def)
  then show ?thesis by (simp add: dataset_id_def dataset_manifest_def canon_dataset_def)
qed

section \<open>Decoding what was encoded\<close>

lemma map_of_sorted:
  assumes "distinct (map fst d)"
  shows "map_of (sort_key fst d) = map_of d"
proof -
  have "distinct (map fst (sort_key fst d))"
    using assms by (metis distinct_map distinct_sort inj_on_subset order_refl set_sort)
  then show ?thesis using assms by (intro map_of_inject_set [THEN iffD2]) auto
qed

lemma jget_sorted:
  "distinct (map fst d) \<Longrightarrow> jget (sorted_json (JObj d)) k = map_option sorted_json (dict_get d k)"
proof -
  assume "distinct (map fst d)"
  then have "distinct (map fst (map (\<lambda>(k, v). (k, sorted_json v)) d))" by (simp add: comp_def case_prod_beta)
  from map_of_sorted [OF this] show ?thesis by (simp add: jget_def map_of_map)
qed

lemma spec_column_written: "spec_column (sorted_json (column_spec c b)) = Some c"
proof -
  have "map_of TYPES (type_name (c_type c)) = Some (c_type c)"
    by (cases "c_type c") (simp_all add: TYPES_def type_name_def)
  then show ?thesis by (simp add: spec_column_def column_spec_def jget_def)
qed

lemma length_written: "jget (sorted_json (column_spec c b)) ''length'' = Some (JInt (int (length b)))"
  by (simp add: column_spec_def jget_def)

lemma decode_columns_written:
  assumes "list_all (\<lambda>(c, b). \<exists>a. cells_ok c a \<and> encode_cells c a = Some b \<and> n_cells a = n) cbs"
    and "distinct (map (c_name \<circ> fst) cbs)"
  shows "\<exists>data. decode_columns (JInt (int n)) (zip (map (\<lambda>(c, b). sorted_json (column_spec c b)) cbs) (map fst cbs))
             (concat (map snd cbs) @ r) = Some (data, r)
      \<and> dict_keys data = map (c_name \<circ> fst) cbs
      \<and> list_all (\<lambda>(c, b). \<forall>a. cells_ok c a \<and> encode_cells c a = Some b \<and> n_cells a = n
            \<longrightarrow> (\<exists>vs. dict_get data (c_name c) = Some vs \<and> normalise c vs = Some (canon_cells c a))) cbs"
  using assms
proof (induction cbs)
  case Nil
  then show ?case by (simp add: dict_keys_def)
next
  case (Cons p cbs)
  obtain c b where p: "p = (c, b)" by (cases p)
  obtain a where a: "cells_ok c a" "encode_cells c a = Some b" "n_cells a = n" using Cons.prems(1) p by auto
  obtain vs where vs: "parse_cells c b (JInt (int n)) = Some vs" "normalise c vs = Some (canon_cells c a)"
    using encoding_reads_back [OF a(1,2)] a(3) by metis
  obtain data where data: "decode_columns (JInt (int n)) (zip (map (\<lambda>(c, b). sorted_json (column_spec c b)) cbs) (map fst cbs))
             (concat (map snd cbs) @ r) = Some (data, r)" "dict_keys data = map (c_name \<circ> fst) cbs"
      "list_all (\<lambda>(c, b). \<forall>a. cells_ok c a \<and> encode_cells c a = Some b \<and> n_cells a = n
            \<longrightarrow> (\<exists>vs. dict_get data (c_name c) = Some vs \<and> normalise c vs = Some (canon_cells c a))) cbs"
    using Cons.IH Cons.prems by auto
  have same: "canon_cells c a' = canon_cells c a" if "cells_ok c a'" "encode_cells c a' = Some b" for a'
    using encoding_determines_cells that a by metis
  have other: "c_name (fst q) \<noteq> c_name c" if "q \<in> set cbs" for q
    using Cons.prems(2) that p by (auto simp: image_iff)
  have "list_all (\<lambda>(c', b'). \<forall>a'. cells_ok c' a' \<and> encode_cells c' a' = Some b' \<and> n_cells a' = n
            \<longrightarrow> (\<exists>vs'. dict_get ((c_name c, vs) # data) (c_name c') = Some vs' \<and> normalise c' vs' = Some (canon_cells c' a'))) (p # cbs)"
    using data(3) same vs(2) other by (auto simp: p list_all_iff)
  moreover have "decode_columns (JInt (int n)) (zip (map (\<lambda>(c, b). sorted_json (column_spec c b)) (p # cbs)) (map fst (p # cbs)))
             (concat (map snd (p # cbs)) @ r) = Some ((c_name c, vs) # data, r)"
    using vs(1) data(1) by (simp add: p length_written as_int_def)
  moreover have "dict_keys ((c_name c, vs) # data) = map (c_name \<circ> fst) (p # cbs)"
    using data(2) by (simp add: p dict_keys_def)
  ultimately show ?case by blast
qed

lemma encoded_columns_Some:
  assumes "encoded_columns t = Some cbs"
  shows "map fst cbs = s_columns (tb_schema t)" "\<And>c b. (c, b) \<in> set cbs \<Longrightarrow> encoded t (c_name c) = Some b"
proof -
  have l: "list_all2 (\<lambda>c p. fst p = c \<and> encoded t (c_name c) = Some (snd p)) (s_columns (tb_schema t)) cbs"
    using assms unfolding encoded_columns_def map_opt_Some by (rule list_all2_mono) auto
  then show "map fst cbs = s_columns (tb_schema t)"
    by (induction rule: list_all2_induct) auto
  show "encoded t (c_name c) = Some b" if "(c, b) \<in> set cbs" for c b
    using l that by (induction rule: list_all2_induct) auto
qed

lemma as_key_written: "as_key (JArr (map JStr ks)) = Some ks"
  using map_opt_map [of ks as_str JStr "\<lambda>x. x"] by (simp add: as_key_def as_str_def)

lemma decode_table_written:
  assumes "table_ok t" "encoded_columns t = Some cbs"
  shows "decode_table (sorted_json (table_spec t cbs)) (concat (map snd cbs) @ r) = Some (canon_table t, r)"
proof -
  let ?cs = "s_columns (tb_schema t)" and ?n = "table_len t"
  have s: "schema_ok (tb_schema t)" using assms(1) by (simp add: table_ok_def)
  note cbs = encoded_columns_Some [OF assms(2)]
  have names: "map (c_name \<circ> fst) cbs = map c_name ?cs" using cbs(1) by (metis map_map)
  have each: "\<exists>a. cells_ok c a \<and> encode_cells c a = Some b \<and> n_cells a = ?n \<and> dict_get (tb_columns t) (c_name c) = Some a"
    if "(c, b) \<in> set cbs" for c b
  proof -
    have "c \<in> set ?cs" using cbs(1) that by (metis fst_conv image_eqI list.set_map)
    then show ?thesis using table_column [OF assms(1)] cbs(2) [OF that] by metis
  qed
  obtain data where data: "decode_columns (JInt (int ?n)) (zip (map (\<lambda>(c, b). sorted_json (column_spec c b)) cbs) (map fst cbs))
             (concat (map snd cbs) @ r) = Some (data, r)" "dict_keys data = map (c_name \<circ> fst) cbs"
      "list_all (\<lambda>(c, b). \<forall>a. cells_ok c a \<and> encode_cells c a = Some b \<and> n_cells a = ?n
            \<longrightarrow> (\<exists>vs. dict_get data (c_name c) = Some vs \<and> normalise c vs = Some (canon_cells c a))) cbs"
    using decode_columns_written [of ?n cbs r] each names schema_parts(1) [OF s] by (fastforce simp: list_all_iff)
  have "build (tb_schema t) data = Some (canon_table t)"
  proof (rule rebuild_table [OF assms(1)])
    show "set (dict_keys data) = set (map c_name ?cs)" unfolding data(2) names ..
    fix c assume "c \<in> set ?cs"
    then obtain b where "(c, b) \<in> set cbs" using cbs(1) by (metis (no_types, lifting) image_iff list.set_map prod.collapse)
    then obtain a where "cells_ok c a" "encode_cells c a = Some b" "n_cells a = ?n" "dict_get (tb_columns t) (c_name c) = Some a"
      using each by blast
    then show "\<exists>vs. dict_get data (c_name c) = Some vs \<and> normalise c vs = map_option (canon_cells c) (dict_get (tb_columns t) (c_name c))"
      using data(3) \<open>(c, b) \<in> set cbs\<close> by (auto simp: list_all_iff)
  qed
  moreover have "map_opt spec_column (map (\<lambda>(c, b). sorted_json (column_spec c b)) cbs) = Some (map fst cbs)"
    by (rule map_opt_map) (auto simp: spec_column_written)
  moreover have "make_schema (s_name (tb_schema t)) (map fst cbs) (s_key (tb_schema t)) = Some (tb_schema t)"
    using s unfolding cbs(1) by (cases "tb_schema t") (simp add: make_schema_def Let_def)
  moreover have "map sorted_json (map (\<lambda>(c, b). column_spec c b) cbs) = map (\<lambda>(c, b). sorted_json (column_spec c b)) cbs"
    by (auto simp: case_prod_beta)
  moreover have "map sorted_json (map JStr (s_key (tb_schema t))) = map JStr (s_key (tb_schema t))" by (auto simp: comp_def)
  ultimately show ?thesis
    using data(1) by (simp add: decode_table_def table_spec_def jget_def as_key_written del: map_map)
qed

lemma decode_tables_written:
  assumes "list_all table_ok ts" "map_opt encoded_columns ts = Some parts"
  shows "decode_tables (map (\<lambda>(t, cbs). sorted_json (table_spec t cbs)) (zip ts parts)) (payload parts @ r)
    = Some (map canon_table ts, r)"
  using assms
proof (induction ts arbitrary: parts)
  case (Cons t ts)
  then obtain cbs qs where q: "encoded_columns t = Some cbs" "map_opt encoded_columns ts = Some qs" "parts = cbs # qs"
    by (auto split: option.splits)
  then show ?case using Cons.IH [OF _ q(2)] Cons.prems(1) decode_table_written [of t cbs]
    by (simp add: payload_def)
qed (simp add: payload_def)

lemma identity_read: "identity_ok i \<Longrightarrow> identity_of (sorted_json (identity_json i)) = Some i"
  by (cases i) (simp add: identity_json_def identity_fields_def identity_of_def dict_keys_def as_str_def insert_commute)

section \<open>Equal ids, equal content\<close>

text \<open>The byte strings a dataset's id is computed from: the encoded columns and the canonical
  manifests of the tables and of the dataset.\<close>

definition table_documents :: "hasher \<Rightarrow> tab \<Rightarrow> octets set" where
  "table_documents sha t = {b. Option.bind (table_manifest sha t) jcs_json = Some b}
     \<union> {b. \<exists>c \<in> set (s_columns (tb_schema t)). encoded t (c_name c) = Some b}"

definition documents :: "hasher \<Rightarrow> dataset \<Rightarrow> octets set" where
  "documents sha d = {b. Option.bind (dataset_manifest sha d) jcs_json = Some b}
     \<union> (\<Union>t \<in> set (ds_tables d). table_documents sha t)"

lemma canonical_is_value: "check_canonical v \<Longrightarrow> canonical_value v"
  by (induction v rule: check_canonical.induct) (auto simp: list_all_iff)

lemma jcs_json_determines:
  assumes "jcs_json v = Some b" "jcs_json w = Some b"
  shows "sorted_json v = sorted_json w"
proof -
  have "check_canonical v" "check_canonical w" "chars_utf8 (canonical_text v) = chars_utf8 (canonical_text w)"
    using assms by (auto simp: jcs_json_def utf8_encode_chars split: if_splits)
  then show ?thesis using chars_utf8_inj canonical_is_value json_text_determines by metis
qed

lemma type_name_inj: "type_name t = type_name t' \<Longrightarrow> t = t'"
  by (cases t; cases t') (simp_all add: type_name_def)

lemma dict_eqI:
  assumes "map fst ps = map fst qs" "distinct (map fst ps)" "\<And>k. k \<in> set (map fst ps) \<Longrightarrow> map_of ps k = map_of qs k"
  shows "ps = qs"
proof (rule nth_equalityI)
  show len: "length ps = length qs" using assms(1) by (metis length_map)
  fix i assume i: "i < length ps"
  have f: "fst (ps ! i) = fst (qs ! i)" using assms(1) i len by (metis nth_map)
  have "map_of ps (fst (ps ! i)) = Some (snd (ps ! i))" using assms(2) i by (intro map_of_is_SomeI) simp_all
  moreover have "map_of qs (fst (qs ! i)) = Some (snd (qs ! i))" using assms(1,2) i len by (intro map_of_is_SomeI) simp_all
  moreover have "fst (ps ! i) \<in> set (map fst ps)" using i by simp
  ultimately show "ps ! i = qs ! i" using assms(3) f by (metis option.inject prod_eqI)
qed

lemma column_manifests_determine:
  assumes "list_all2 (\<lambda>c m. column_manifest sha t c = Some m) cs ms" "list_all2 (\<lambda>c m. column_manifest sha t' c = Some m) cs' ms'"
    and "map sorted_json ms = map sorted_json ms'"
    and "inj_on sha ({b. \<exists>c \<in> set cs. encoded t (c_name c) = Some b} \<union> {b. \<exists>c \<in> set cs'. encoded t' (c_name c) = Some b})"
  shows "cs = cs' \<and> (\<forall>c \<in> set cs. \<exists>b. encoded t (c_name c) = Some b \<and> encoded t' (c_name c) = Some b)"
  using assms
proof (induction cs arbitrary: ms cs' ms')
  case (Cons c cs)
  obtain m ns where m: "ms = m # ns" "column_manifest sha t c = Some m" "list_all2 (\<lambda>c m. column_manifest sha t c = Some m) cs ns"
    using Cons.prems(1) by (auto simp: list_all2_Cons1)
  obtain m' ns' where m': "ms' = m' # ns'" "sorted_json m = sorted_json m'" "map sorted_json ns = map sorted_json ns'"
    using Cons.prems(3) m(1) by (cases ms') auto
  obtain c' ds where c': "cs' = c' # ds" "column_manifest sha t' c' = Some m'" "list_all2 (\<lambda>c m. column_manifest sha t' c = Some m) ds ns'"
    using Cons.prems(2) m'(1) by (auto simp: list_all2_Cons2)
  obtain b b' where b: "encoded t (c_name c) = Some b" "encoded t' (c_name c') = Some b'"
    "m = JObj [(''name'', JStr (c_name c)), (''nullable'', JBool (c_nullable c)), (''sha256'', JStr (sha b)),
               (''type'', JStr (type_name (c_type c)))]"
    "m' = JObj [(''name'', JStr (c_name c')), (''nullable'', JBool (c_nullable c')), (''sha256'', JStr (sha b')),
               (''type'', JStr (type_name (c_type c')))]"
    using m(2) c'(2) by (auto simp: column_manifest_def)
  have eq: "c_name c = c_name c'" "c_nullable c = c_nullable c'" "sha b = sha b'" "c_type c = c_type c'"
    using m'(2) type_name_inj unfolding b(3,4) by auto
  then have "c = c'" by (cases c; cases c') simp
  moreover have "b = b'" using Cons.prems(4) eq(3) b(1,2) c'(1) by (auto dest!: inj_onD)
  moreover have "cs = ds \<and> (\<forall>c \<in> set cs. \<exists>b. encoded t (c_name c) = Some b \<and> encoded t' (c_name c) = Some b)"
    using Cons.IH [OF m(3) c'(3) m'(3)] Cons.prems(4) c'(1) by (auto intro: inj_on_subset)
  ultimately show ?case using b c'(1) by auto
qed auto

lemma same_hash_same_table:
  assumes "table_ok t" "table_ok t'" "table_hash sha t = Some h" "table_hash sha t' = Some h"
    and "s_name (tb_schema t) = s_name (tb_schema t')" "inj_on sha (table_documents sha t \<union> table_documents sha t')"
  shows "canon_table t = canon_table t'"
proof -
  obtain v b v' b' where v: "table_manifest sha t = Some v" "jcs_json v = Some b" "sha b = h"
    and v': "table_manifest sha t' = Some v'" "jcs_json v' = Some b'" "sha b' = h"
    using assms(3,4) by (auto simp: table_hash_def split: bind_splits)
  have "b \<in> table_documents sha t" "b' \<in> table_documents sha t'"
    using v(1,2) v'(1,2) by (simp_all add: table_documents_def)
  moreover have "sha b = sha b'" unfolding v(3) v'(3) ..
  ultimately have "b = b'" using inj_onD [OF assms(6)] by blast
  then have sv: "sorted_json v = sorted_json v'"
    by (intro jcs_json_determines [OF v(2)]) (simp add: v'(2))
  obtain ms ms' where ms: "map_opt (column_manifest sha t) (s_columns (tb_schema t)) = Some ms"
      "map_opt (column_manifest sha t') (s_columns (tb_schema t')) = Some ms'"
    and parts: "v = JObj [(''columns'', JArr ms), (''key'', JArr (map JStr (s_key (tb_schema t)))),
                          (''rows'', JInt (int (table_len t))), (''scheme'', JStr TABLE_SCHEME)]"
      "v' = JObj [(''columns'', JArr ms'), (''key'', JArr (map JStr (s_key (tb_schema t')))),
                          (''rows'', JInt (int (table_len t'))), (''scheme'', JStr TABLE_SCHEME)]"
    using v(1) v'(1) by (auto simp: table_manifest_def)
  have eq: "map sorted_json ms = map sorted_json ms'" "s_key (tb_schema t) = s_key (tb_schema t')" "table_len t = table_len t'"
    using sv unfolding parts by (auto simp: comp_def dest!: map_injective [OF _ inj_onI])
  have cols: "s_columns (tb_schema t) = s_columns (tb_schema t')"
      "\<forall>c \<in> set (s_columns (tb_schema t)). \<exists>b. encoded t (c_name c) = Some b \<and> encoded t' (c_name c) = Some b"
  proof -
    have "inj_on sha ({b. \<exists>c \<in> set (s_columns (tb_schema t)). encoded t (c_name c) = Some b}
        \<union> {b. \<exists>c \<in> set (s_columns (tb_schema t')). encoded t' (c_name c) = Some b})"
      by (rule inj_on_subset [OF assms(6)]) (auto simp: table_documents_def)
    from column_manifests_determine [OF ms(1) [unfolded map_opt_Some] ms(2) [unfolded map_opt_Some] eq(1) this]
    show "s_columns (tb_schema t) = s_columns (tb_schema t')"
      "\<forall>c \<in> set (s_columns (tb_schema t)). \<exists>b. encoded t (c_name c) = Some b \<and> encoded t' (c_name c) = Some b"
      by simp_all
  qed
  have schema: "tb_schema t = tb_schema t'" using cols(1) eq(2) assms(5) by (cases "tb_schema t"; cases "tb_schema t'") simp
  let ?cs = "s_columns (tb_schema t)"
  have names: "map fst (tb_columns (canon_table u)) = map c_name (s_columns (tb_schema u))" if "table_ok u" for u
  proof -
    have "list_all2 (\<lambda>c p. fst p = c_name c \<and> True) (s_columns (tb_schema u)) (tb_columns u)"
      using that unfolding table_ok_def by (auto elim: list_all2_mono)
    from list_all2_fst [OF canon_columns_all2 [OF this]] show ?thesis by (simp add: canon_table_def)
  qed
  have "tb_columns (canon_table t) = tb_columns (canon_table t')"
  proof (rule dict_eqI)
    show n: "map fst (tb_columns (canon_table t)) = map fst (tb_columns (canon_table t'))"
      using names assms(1,2) schema by simp
    show "distinct (map fst (tb_columns (canon_table t)))"
      using names assms(1) schema_parts(1) by (simp add: table_ok_def)
    fix k assume "k \<in> set (map fst (tb_columns (canon_table t)))"
    then obtain c where c: "c \<in> set ?cs" "k = c_name c" unfolding names [OF assms(1)] by auto
    obtain a where a: "cells_ok c a" "encoded t (c_name c) = encode_cells c a"
      "dict_get (tb_columns (canon_table t)) (c_name c) = Some (canon_cells c a)"
      using table_column [OF assms(1) c(1)] by metis
    obtain a' where a': "cells_ok c a'" "encoded t' (c_name c) = encode_cells c a'"
      "dict_get (tb_columns (canon_table t')) (c_name c) = Some (canon_cells c a')"
      using table_column [OF assms(2), of c] c(1) schema by metis
    obtain b where "encoded t (c_name c) = Some b" "encoded t' (c_name c) = Some b" using bspec [OF cols(2) c(1)] by blast
    then have "encode_cells c a = Some b" "encode_cells c a' = Some b" using a(2) a'(2) by simp_all
    then have "canon_cells c a = canon_cells c a'" using encoding_determines_cells a(1) a'(1) by blast
    then show "dict_get (tb_columns (canon_table t)) k = dict_get (tb_columns (canon_table t')) k"
      using a(3) a'(3) c(2) by simp
  qed
  then show ?thesis using schema by (simp add: canon_table_def)
qed

lemma table_entries_sets:
  assumes "map_opt (\<lambda>t. map_option (\<lambda>h. (s_name (tb_schema t), JStr h)) (table_hash sha t)) ts = Some hs"
  shows "(n, JStr h) \<in> set hs \<longleftrightarrow> (\<exists>t \<in> set ts. s_name (tb_schema t) = n \<and> table_hash sha t = Some h)"
    and "\<And>p. p \<in> set hs \<Longrightarrow> \<exists>h. snd p = JStr h"
  using map_opt_mem [OF assms] map_opt_ex [OF assms] by fastforce+

lemma half_content:
  assumes "list_all table_ok ts" "list_all table_ok ts'" "inj_on sha (\<Union> (table_documents sha ` (set ts \<union> set ts')))"
    and "map_opt (\<lambda>t. map_option (\<lambda>h. (s_name (tb_schema t), JStr h)) (table_hash sha t)) ts = Some hs"
    and "map_opt (\<lambda>t. map_option (\<lambda>h. (s_name (tb_schema t), JStr h)) (table_hash sha t)) ts' = Some hs'"
    and "set hs \<subseteq> set hs'"
  shows "canon_table ` set ts \<subseteq> canon_table ` set ts'"
proof
  fix u assume "u \<in> canon_table ` set ts"
  then obtain t where t: "t \<in> set ts" "u = canon_table t" by blast
  obtain h where h: "table_hash sha t = Some h" using map_opt_ex [OF assms(4) t(1)] by auto
  have "(s_name (tb_schema t), JStr h) \<in> set hs" using table_entries_sets(1) [OF assms(4)] t(1) h by blast
  then obtain t' where t': "t' \<in> set ts'" "s_name (tb_schema t') = s_name (tb_schema t)" "table_hash sha t' = Some h"
    using assms(6) table_entries_sets(1) [OF assms(5)] by blast
  have "inj_on sha (table_documents sha t \<union> table_documents sha t')"
    by (rule inj_on_subset [OF assms(3)]) (use t(1) t'(1) in blast)
  then have "canon_table t = canon_table t'"
    using same_hash_same_table [of t t' sha h] assms(1,2) t(1) t' h by (auto simp: list_all_iff)
  then show "u \<in> canon_table ` set ts'" using t(2) t'(1) by simp
qed

theorem same_id_same_content:
  assumes "dataset_ok d" "dataset_ok d'" "dataset_id sha d = Some i" "dataset_id sha d' = Some i"
    and "inj_on sha (documents sha d \<union> documents sha d')"
  shows "ds_identity d = ds_identity d' \<and> set (ds_tables (canon_dataset d)) = set (ds_tables (canon_dataset d'))"
proof -
  let ?entry = "\<lambda>t. map_option (\<lambda>h. (s_name (tb_schema t), JStr h)) (table_hash sha t)"
  obtain v b v' b' where v: "dataset_manifest sha d = Some v" "jcs_json v = Some b"
    and v': "dataset_manifest sha d' = Some v'" "jcs_json v' = Some b'" and "sha b = sha b'"
    using assms(3,4) by (auto simp: dataset_id_def split: bind_splits)
  moreover have "b \<in> documents sha d" "b' \<in> documents sha d'" using v v' by (simp_all add: documents_def)
  ultimately have "b = b'" using inj_onD [OF assms(5)] by blast
  then have sv: "sorted_json v = sorted_json v'"
    by (intro jcs_json_determines [OF v(2)]) (simp add: v'(2))
  obtain hs hs' where hs: "map_opt ?entry (ds_tables d) = Some hs" "map_opt ?entry (ds_tables d') = Some hs'"
    and parts: "v = JObj [(''identity'', identity_json (ds_identity d)), (''scheme'', JStr DATASET_SCHEME), (''tables'', JObj hs)]"
      "v' = JObj [(''identity'', identity_json (ds_identity d')), (''scheme'', JStr DATASET_SCHEME), (''tables'', JObj hs')]"
    using v(1) v'(1) by (auto simp: dataset_manifest_def)
  have eq: "sorted_json (identity_json (ds_identity d)) = sorted_json (identity_json (ds_identity d'))"
      "sorted_json (JObj hs) = sorted_json (JObj hs')"
    using sv unfolding parts by (simp_all del: sorted_json.simps(2) add: sorted_json.simps(2) [of "[_, _, _]"])
  have "ds_identity d = ds_identity d'"
    using eq(1) identity_read assms(1,2) unfolding dataset_ok_def by (metis option.inject)
  moreover have "set hs = set hs'"
  proof -
    have plain: "map (\<lambda>(k, v). (k, sorted_json v)) xs = xs" if "\<And>p. p \<in> set xs \<Longrightarrow> \<exists>h. snd p = JStr h" for xs :: "(string \<times> json) list"
      using that by (intro map_idI) fastforce
    have "map (\<lambda>(k, v). (k, sorted_json v)) hs = hs" "map (\<lambda>(k, v). (k, sorted_json v)) hs' = hs'"
      using plain table_entries_sets(2) [OF hs(1)] table_entries_sets(2) [OF hs(2)] by blast+
    then have "sort_key fst hs = sort_key fst hs'" using eq(2) by simp
    then show ?thesis by (metis set_sort)
  qed
  moreover have docs: "inj_on sha (\<Union> (table_documents sha ` (set (ds_tables d) \<union> set (ds_tables d'))))"
    by (rule inj_on_subset [OF assms(5)]) (auto simp: documents_def)
  moreover have "inj_on sha (\<Union> (table_documents sha ` (set (ds_tables d') \<union> set (ds_tables d))))"
    using docs by (simp add: Un_commute)
  moreover have "list_all table_ok (ds_tables d)" "list_all table_ok (ds_tables d')" using assms(1,2) by (simp_all add: dataset_ok_def)
  ultimately show ?thesis
    using half_content [OF _ _ _ hs] half_content [OF _ _ _ hs(2,1)] by (simp add: canon_dataset_def subset_antisym)
qed

section \<open>Blobs\<close>

text \<open>What the code relies on: zlib reproduces what it compressed, and \<^verbatim>\<open>json.loads\<close> reads back
  canonical text, here with the keys of an object in the order of the text.\<close>

definition codec_law :: "codec \<Rightarrow> bool" where
  "codec_law z \<longleftrightarrow> (\<forall>b. inflate z (deflate z b) (length b + 1) = Some (b, True))
     \<and> (\<forall>v b. jcs_json v = Some b \<longrightarrow> loads z b = Some (sorted_json v))"

lemma decode_payload_written:
  assumes "dataset_ok d" "map_opt encoded_columns (ds_tables d) = Some parts"
  shows "decode_payload (sorted_json (blob_header i d parts)) (payload parts) = Some (canon_dataset d)"
proof -
  let ?specs = "map (\<lambda>(t, cbs). table_spec t cbs) (zip (ds_tables d) parts)"
  have eq: "map sorted_json ?specs = map (\<lambda>(t, cbs). sorted_json (table_spec t cbs)) (zip (ds_tables d) parts)"
    by (auto simp: case_prod_beta)
  have "list_all table_ok (ds_tables d)" using assms(1) by (simp add: dataset_ok_def)
  then have tables: "decode_tables (map sorted_json ?specs) (payload parts) = Some (map canon_table (ds_tables d), [])"
    unfolding eq using decode_tables_written [OF _ assms(2), of "[]"] by simp
  have "table_names (canon_dataset d) = table_names d"
    by (simp add: table_names_def canon_dataset_def canon_table_def)
  then have "make_dataset (ds_identity d) (map canon_table (ds_tables d)) = Some (canon_dataset d)"
    using assms(1) by (cases d) (simp add: make_dataset_def dataset_ok_def canon_dataset_def)
  moreover have "jget (sorted_json (blob_header i d parts)) ''tables'' = Some (JArr (map sorted_json ?specs))"
    "jget (sorted_json (blob_header i d parts)) ''identity'' = Some (sorted_json (identity_json (ds_identity d)))"
    unfolding blob_header_def by (subst jget_sorted; simp)+
  ultimately show ?thesis
    using tables identity_read assms(1) by (simp add: decode_payload_def dataset_ok_def)
qed

lemma decode_encoded:
  assumes "codec_law z" "dataset_ok d" "encode_blob z d = Some blob" "dataset_id (sha256 z) d = Some i"
    and "of_le (take 8 (drop 8 blob)) \<le> MAX_HEADER"
    and "\<And>parts. map_opt encoded_columns (ds_tables d) = Some parts \<Longrightarrow> length (payload parts) \<le> max_bytes"
  shows "decode_blob z max_bytes blob i = Some (canon_dataset d)"
proof -
  obtain parts header where p: "map_opt encoded_columns (ds_tables d) = Some parts"
    and h: "jcs_json (blob_header i d parts) = Some header" "length header < 2 ^ 64"
    and b: "blob = BLOB_MAGIC @ le_bytes 8 (length header) @ header @ deflate z (payload parts)"
    using assms(3,4) by (auto simp: encode_blob_def pack_Q_def split: option.splits if_splits)
  have magic: "length BLOB_MAGIC = 8" by (simp add: BLOB_MAGIC_def)
  have n: "of_le (le_bytes 8 (length header)) = length header" using h(2) by (simp add: of_le_le_bytes)
  have cuts: "take 8 blob = BLOB_MAGIC" "take 8 (drop 8 blob) = le_bytes 8 (length header)"
    "take (length header) (drop 16 blob) = header" "drop (16 + length header) blob = deflate z (payload parts)"
    "length blob = 16 + length header + length (deflate z (payload parts))"
    by (simp_all add: b magic del: le_bytes.simps)
  have fields: "jget (sorted_json (blob_header i d parts)) ''format'' = Some (JStr BLOB_FORMAT)"
    "jget (sorted_json (blob_header i d parts)) ''payload_length'' = Some (JInt (int (length (payload parts))))"
    unfolding blob_header_def by (subst jget_sorted; simp)+
  have "loads z header = Some (sorted_json (blob_header i d parts))"
    and "inflate z (deflate z (payload parts)) (length (payload parts) + 1) = Some (payload parts, True)"
    using assms(1) h(1) unfolding codec_law_def by blast+
  then have "decode_unchecked z max_bytes blob = Some (canon_dataset d)"
    unfolding decode_unchecked_def Let_def cuts n
    using assms(5) assms(6) [OF p] fields decode_payload_written [OF assms(2) p]
    by (simp add: cuts(2) n as_int_def del: sorted_json.simps)
  then show ?thesis using dataset_id_canon [OF assms(2)] assms(4) by (simp add: decode_blob_def)
qed

lemma decode_tables_ok: "decode_tables specs b = Some (ts, r) \<Longrightarrow> list_all table_ok ts"
proof (induction specs arbitrary: b ts r)
  case (Cons v specs)
  then obtain t q us where t: "decode_table v b = Some (t, q)" "decode_tables specs q = Some (us, r)" "ts = t # us"
    by (auto split: option.splits)
  from t(1) obtain name cols key sch data where "make_schema name cols key = Some sch" "build sch data = Some t"
    by (auto simp: decode_table_def split: option.splits json.splits)
  then have "table_ok t" using build_well_formed by (auto simp: make_schema_def Let_def split: if_splits)
  then show ?case using Cons.IH t(2,3) by simp
qed simp

lemma decoded_ok:
  assumes "decode_unchecked z max_bytes blob = Some d"
  shows "dataset_ok d"
proof -
  obtain header b where "decode_payload header b = Some d"
    using assms by (auto simp: decode_unchecked_def Let_def split: option.splits if_splits)
  then obtain specs v ts i where "decode_tables specs b = Some (ts, [])" "identity_of v = Some i" "make_dataset i ts = Some d"
    by (auto simp: decode_payload_def split: option.splits json.splits list.splits bind_splits)
  moreover have "identity_ok i" if "identity_of v = Some i" for v i
    using that by (auto simp: identity_of_def Let_def split: json.splits option.splits list.splits if_splits)
  ultimately show ?thesis using decode_tables_ok
    by (auto simp: make_dataset_def dataset_ok_def Let_def split: if_splits)
qed

text \<open>
  C21: storing a dataset and reading it back gives the same dataset, provided the reader's
  limits admit it: every table, column and cell, in key order, a missing float as the
  canonical NaN.
\<close>

theorem blob_roundtrip:
  assumes "codec_law z" "dataset_ok d" "encode_blob z d = Some blob" "dataset_id (sha256 z) d = Some i"
    and "of_le (take 8 (drop 8 blob)) \<le> MAX_HEADER"
    and "\<And>parts. map_opt encoded_columns (ds_tables d) = Some parts \<Longrightarrow> length (payload parts) \<le> max_bytes"
  shows "decode_blob z max_bytes blob i = Some (canon_dataset d)"
  by (rule decode_encoded [OF assms])

text \<open>
  C22: a stored blob cannot be substituted. Whatever bytes the file holds, when decoding
  them under a dataset's id succeeds at all, the result is well-formed and has that dataset's identity
  and cells, provided SHA-256 has no collision among the documents of these two datasets.
\<close>

theorem substituted_blob_is_refused:
  assumes "dataset_ok d" "dataset_id (sha256 z) d = Some i" "decode_blob z max_bytes bytes i = Some d'"
    and "inj_on (sha256 z) (documents (sha256 z) d \<union> documents (sha256 z) d')"
  shows "dataset_ok d' \<and> ds_identity d' = ds_identity d
    \<and> set (ds_tables (canon_dataset d')) = set (ds_tables (canon_dataset d))"
proof -
  have d': "dataset_ok d'" "dataset_id (sha256 z) d' = Some i"
    using assms(3) decoded_ok by (auto simp: decode_blob_def split: option.splits if_splits)
  then show ?thesis using same_id_same_content [OF assms(1) d'(1) assms(2) d'(2) assms(4)] by simp
qed

text \<open>
  C23: what \<^verbatim>\<open>Table.build\<close> returns is well-formed: one array of the right type per column, all of
  one length, no missing value in a column that does not allow it, no infinity, no negative zero, days
  within 32 bits, valid Unicode, and rows in strictly ascending key order.
\<close>

theorem built_table_is_well_typed:
  assumes "schema_ok sch" "build sch data = Some t"
  shows "tb_schema t = sch
    \<and> list_all2 (\<lambda>c p. fst p = c_name c \<and> cells_ok c (snd p) \<and> n_cells (snd p) = table_len t) (s_columns sch) (tb_columns t)
    \<and> sorted_wrt (<) (map (row_key (tb_columns t) (s_key sch)) [0..<table_len t])"
  using build_well_formed [OF assms] by (auto simp: table_ok_def)

text \<open>
  The column encoding is injective: two well-formed columns of one schema column with the same
  bytes have the same cells, nulls included, whatever their lengths.
\<close>

theorem column_encoding_injective:
  assumes "cells_ok c a" "cells_ok c a'" "encode_cells c a = Some b" "encode_cells c a' = Some b"
  shows "missing c a = missing c a' \<and> canon_cells c a = canon_cells c a'"
proof -
  have "canon_cells c a = canon_cells c a'" using encoding_determines_cells [OF assms] .
  moreover have "missing c (canon_cells c a) = missing c a" if "cells_ok c a" for a
    using that canonical_missing [of c] by (cases a) auto
  ultimately show ?thesis using assms(1,2) by metis
qed

section \<open>Concrete inputs\<close>

text \<open>A codec that satisfies the law: zlib is the identity, the JSON reader that of
  \<open>Json_Reader\<close>, and the digest spells the bytes, so it is injective.\<close>

definition demo_codec :: codec where
  "demo_codec = \<lparr>sha256 = map (\<lambda>w. char_of (unat w)), deflate = id, inflate = (\<lambda>b n. Some (take n b, length b < n)),
     loads = (\<lambda>b. Option.bind (utf8_decode b) (\<lambda>cs. read_json (map char_of cs)))\<rparr>"

lemma demo_codec_law: "codec_law demo_codec"
proof -
  have "loads demo_codec b = Some (sorted_json v)" if "jcs_json v = Some b" for v b
  proof -
    have c: "check_canonical v" and e: "utf8_encode (map of_char (canonical_text v)) = Some b"
      using that by (auto simp: jcs_json_def split: if_splits)
    then show ?thesis
      using utf8_roundtrip [OF e] read_json_text [OF canonical_is_value [OF c]]
      by (simp add: demo_codec_def comp_def)
  qed
  then show ?thesis by (simp add: codec_law_def demo_codec_def)
qed

lemma demo_digest_inj: "inj_on (sha256 demo_codec) A"
proof -
  have "w = w'" if "(char_of (unat w) :: char) = char_of (unat w')" for w w' :: "8 word"
  proof -
    have "(of_char (char_of (unat w) :: char) :: nat) = of_char (char_of (unat w') :: char)" using that by simp
    then show ?thesis using unat_less_256 [of w] unat_less_256 [of w'] by (simp add: word_unat_eq_iff)
  qed
  then have "inj (\<lambda>w :: 8 word. char_of (unat w) :: char)" by (rule injI)
  then have "inj (sha256 demo_codec)" by (simp add: demo_codec_def)
  then show ?thesis by (rule inj_on_subset) simp
qed

definition demo_schema :: table_schema where
  "demo_schema = \<lparr>s_name = ''t'', s_columns = [col ''k'' Utf8 False, col ''v'' Float64 True], s_key = [''k'']\<rparr>"

definition demo_table :: tab where
  "demo_table = \<lparr>tb_schema = demo_schema,
     tb_columns = [(''k'', Texts [Some [65], Some [66]]), (''v'', Words [0x3FF0000000000000, NAN])]\<rparr>"

definition demo_dataset :: dataset where
  "demo_dataset = \<lparr>ds_identity = \<lparr>id_family = ''F'', id_provider = ''p'', id_licence = ''l'', id_frequency = ''1d'',
     id_session_boundary = ''s'', id_adjustment = ''raw'', id_survivorship = ''c''\<rparr>, ds_tables = [demo_table]\<rparr>"

lemmas table_eval = build_def normalise_all_def normalise_def utf8_column_def float64_column_def date32_column_def
  timestamp_ns_column_def text_item_def float_item_def utf8_encode_def utf8_valid_def surrogate_def
  f64_isinf_def f64_isnan_def f64_iszero_def f64_magnitude_def NAN_def missing_word_def row_key_def dict_keys_def

lemma demo_schema_ok: "schema_ok demo_schema"
  by (simp add: schema_ok_def demo_schema_def NAME_def lower_char_def)

lemma demo_build:
  "build demo_schema [(''k'', Objs [PText [66], PText [65]]), (''v'', Objs [PNone, PFloat 0x3FF0000000000000])] = Some demo_table"
  by (simp add: table_eval demo_schema_def demo_table_def Let_def upt_rec less_sort_code_def)

theorem built_table_is_well_typed_witness:
  "build demo_schema [(''k'', Objs [PText [66], PText [65]]), (''v'', Objs [PNone, PFloat 0x3FF0000000000000])] = Some demo_table
   \<and> cells_ok (col ''v'' Float64 True) (Words [0x3FF0000000000000, NAN])
   \<and> row_key (tb_columns demo_table) [''k''] 0 < row_key (tb_columns demo_table) [''k''] 1"
proof -
  have k: "s_key demo_schema = [''k'']" "table_len demo_table = 2"
    by (simp_all add: demo_schema_def demo_table_def table_len_def)
  from built_table_is_well_typed [OF demo_schema_ok demo_build] show ?thesis
    unfolding k using demo_build by (simp add: demo_schema_def upt_rec) (simp add: demo_table_def)
qed

lemma demo_table_ok: "table_ok demo_table"
  using build_well_formed [OF demo_schema_ok demo_build] by simp

lemma demo_dataset_ok: "dataset_ok demo_dataset"
  using demo_table_ok
  by (simp add: dataset_ok_def demo_dataset_def identity_ok_def identity_fields_def TOKEN_def lower_char_def upper_char_def
      digit_char_def table_names_def)

definition demo_key_bytes :: octets where
  "demo_key_bytes = [1, 0, 0, 0, 0, 0, 0, 0, 65, 1, 0, 0, 0, 0, 0, 0, 0, 66]"

definition demo_value_bytes :: octets where
  "demo_value_bytes = [1, 0, 0, 0, 0, 0, 0, 0xF0, 0x3F, 0, 0, 0, 0, 0, 0, 0, 0, 0]"

definition demo_parts :: "(column \<times> octets) list list" where
  "demo_parts = [[(col ''k'' Utf8 False, demo_key_bytes), (col ''v'' Float64 True, demo_value_bytes)]]"

lemma demo_encoded:
  "encode_cells (col ''k'' Utf8 False) (Texts [Some [65], Some [66]]) = Some demo_key_bytes"
  "encode_cells (col ''v'' Float64 True) (Words [0x3FF0000000000000, NAN]) = Some demo_value_bytes"
proof -
  have "le_bytes 8 1 = [1, 0, 0, 0, 0, 0, 0, 0]" by (simp add: le_bytes_numeral)
  then show "encode_cells (col ''k'' Utf8 False) (Texts [Some [65], Some [66]]) = Some demo_key_bytes"
    by (simp add: text_row_def utf8_encode_def utf8_valid_def surrogate_def utf8_char_def pack_Q_def demo_key_bytes_def)
  have "le_bytes 8 0x3FF0000000000000 = [0, 0, 0, 0, 0, 0, 0xF0, 0x3F]" "le_bytes 8 0 = [0, 0, 0, 0, 0, 0, 0, 0]"
    by (simp_all add: le_bytes_numeral)
  then show "encode_cells (col ''v'' Float64 True) (Words [0x3FF0000000000000, NAN]) = Some demo_value_bytes"
    by (simp add: wide_row_def missing_word_def f64_isnan_def f64_magnitude_def NAN_def width_def demo_value_bytes_def)
qed

lemma demo_columns: "map_opt encoded_columns (ds_tables demo_dataset) = Some demo_parts"
  by (simp add: demo_dataset_def encoded_columns_def encoded_def schema_column_def find_row_def demo_table_def demo_schema_def
      demo_encoded demo_parts_def del: encode_cells.simps)

definition short_codec :: codec where
  "short_codec = demo_codec\<lparr>sha256 := (\<lambda>b. ''0'')\<rparr>"

lemma short_codec_law: "codec_law short_codec"
  using demo_codec_law by (simp add: codec_law_def short_codec_def)

lemma length_chars_utf8: "length (chars_utf8 s) \<le> 2 * length s"
proof (induction s)
  case (Cons c s)
  have "length (utf8_char n) \<le> 2" if "n < 256" for n using that by (simp add: utf8_char_def)
  then have "length (utf8_char (of_char c)) \<le> 2" using nat_of_char_less_256 by blast
  then show ?case using Cons by (simp add: chars_utf8_def)
qed (simp add: chars_utf8_def)

text \<open>An upper bound of the length of a text.\<close>

fun text_bound :: "json \<Rightarrow> nat" where
  "text_bound (JInt n) = length (int_text n)"
| "text_bound (JStr s) = 6 * length s + 2"
| "text_bound (JArr xs) = 2 + sum_list (map (\<lambda>x. Suc (text_bound x)) xs)"
| "text_bound (JObj d) = 2 + sum_list (map (\<lambda>(k, v). 6 * length k + 4 + text_bound v) d)"
| "text_bound v = 5"

lemma length_string_text: "length (string_text a s) \<le> 6 * length s + 2"
proof -
  have "length (escape_char a c) \<le> 6" for c by (simp add: escape_char_def Let_def)
  then have "length (concat (map (escape_char a) s)) \<le> 6 * length s"
    by (induction s) (auto simp: add_le_mono)
  then show ?thesis by (simp add: string_text_def)
qed

lemma length_join_le: "length (join '','' ts) \<le> sum_list (map (\<lambda>t. Suc (length t)) ts)"
proof (induction "'',''" ts rule: join.induct)
  case (3 x y zs)
  then show ?case by simp
qed simp_all

lemma length_text_le: "canonical_value v \<Longrightarrow> length (json_text a ft v) \<le> text_bound v"
proof (induction v rule: text_bound.induct)
  case (1 n)
  then show ?case by simp
next
  case (2 s)
  show ?case unfolding json_text.simps text_bound.simps by (rule length_string_text)
next
  case (3 xs)
  have "sum_list (map (\<lambda>t. Suc (length t)) (map (json_text a ft) xs)) \<le> sum_list (map (\<lambda>x. Suc (text_bound x)) xs)"
    unfolding map_map comp_def by (rule sum_list_mono) (use 3 in \<open>auto simp: list_all_iff\<close>)
  then show ?case using length_join_le [of "map (json_text a ft) xs"] by simp
next
  case (4 d)
  let ?f = "\<lambda>(k, v). string_text a k @ '':'' @ json_text a ft v"
  have t: "json_text a ft (JObj d) = ''{'' @ join '','' (map ?f (sort_key fst d)) @ ''}''"
    using sort_key_map_snd [of "\<lambda>_. json_text a ft" d] by (simp add: comp_def split_def)
  have "Suc (length (?f p)) \<le> (case p of (k, v) \<Rightarrow> 6 * length k + 4 + text_bound v)" if "p \<in> set d" for p
    using 4 that length_string_text [of a "fst p"] by (cases p) (fastforce simp: list_all_iff)
  then have "sum_list (map (\<lambda>p. Suc (length (?f p))) d) \<le> sum_list (map (\<lambda>(k, v). 6 * length k + 4 + text_bound v) d)"
    by (intro sum_list_mono)
  moreover have "sum_list (map (\<lambda>p. Suc (length (?f p))) (sort_key fst d)) = sum_list (map (\<lambda>p. Suc (length (?f p))) d)"
    by (simp only: sum_mset_sum_list [symmetric] mset_map mset_sort)
  ultimately show ?case using length_join_le [of "map ?f (sort_key fst d)"] unfolding t by (simp add: comp_def)
qed auto

lemma demo_payload: "length (payload demo_parts) = 36"
  by (simp add: payload_def demo_parts_def demo_key_bytes_def demo_value_bytes_def)

lemma demo_header:
  "jcs_json (blob_header i demo_dataset demo_parts) = Some (chars_utf8 (canonical_text (blob_header i demo_dataset demo_parts)))"
  by (simp add: jcs_json_def utf8_encode_chars blob_header_def demo_payload isascii_def MAX_SAFE_INTEGER_def
      identity_json_def identity_fields_def demo_dataset_def demo_parts_def table_spec_def column_spec_def demo_table_def
      demo_schema_def table_len_def demo_key_bytes_def demo_value_bytes_def payload_def del: json_text.simps)

lemma demo_header_bound:
  "length (canonical_text (blob_header i demo_dataset demo_parts)) \<le> 6 * length i + 3000"
proof -
  have "length (canonical_text (blob_header i demo_dataset demo_parts)) \<le> text_bound (blob_header i demo_dataset demo_parts)"
    using demo_header [of i] by (intro length_text_le canonical_is_value) (auto simp: jcs_json_def split: if_splits)
  also have "\<dots> \<le> 6 * length i + 3000"
    by (simp add: blob_header_def demo_payload identity_json_def identity_fields_def demo_dataset_def demo_parts_def
      table_spec_def column_spec_def demo_table_def demo_schema_def table_len_def demo_key_bytes_def demo_value_bytes_def
      payload_def BLOB_FORMAT_def type_name_def int_text_def digits_of.simps)
  finally show ?thesis .
qed

text \<open>Encoding the demonstration dataset, for any digest and id whose header stays short.\<close>

lemma demo_blob:
  assumes "dataset_id (sha256 z) demo_dataset = Some i" "length (canonical_text (blob_header i demo_dataset demo_parts)) \<le> 500000"
  obtains blob where "encode_blob z demo_dataset = Some blob" "of_le (take 8 (drop 8 blob)) \<le> MAX_HEADER"
proof -
  let ?h = "chars_utf8 (canonical_text (blob_header i demo_dataset demo_parts))"
  have len: "length ?h \<le> 1000000" 
    using length_chars_utf8 [of "canonical_text (blob_header i demo_dataset demo_parts)"] assms(2) by linarith
  have "encode_blob z demo_dataset = Some (BLOB_MAGIC @ le_bytes 8 (length ?h) @ ?h @ deflate z (payload demo_parts))"
    using len by (simp add: encode_blob_def demo_columns assms(1) demo_header pack_Q_def)
  moreover have "of_le (take 8 (drop 8 (BLOB_MAGIC @ le_bytes 8 (length ?h) @ ?h @ deflate z (payload demo_parts)))) = length ?h"
    using len by (simp add: BLOB_MAGIC_def of_le_le_bytes)
  ultimately show ?thesis using that len by (simp add: MAX_HEADER_def)
qed

definition demo_table_json :: "hasher \<Rightarrow> json" where
  "demo_table_json sha = JObj [(''columns'', JArr
       [JObj [(''name'', JStr ''k''), (''nullable'', JBool False), (''sha256'', JStr (sha demo_key_bytes)), (''type'', JStr ''utf8'')],
        JObj [(''name'', JStr ''v''), (''nullable'', JBool True), (''sha256'', JStr (sha demo_value_bytes)), (''type'', JStr ''float64'')]]),
     (''key'', JArr [JStr ''k'']), (''rows'', JInt 2), (''scheme'', JStr TABLE_SCHEME)]"

definition demo_json :: "hasher \<Rightarrow> json" where
  "demo_json sha = JObj [(''identity'', identity_json (ds_identity demo_dataset)), (''scheme'', JStr DATASET_SCHEME),
     (''tables'', JObj [(''t'', JStr (sha (chars_utf8 (canonical_text (demo_table_json sha)))))])]"

lemma demo_json_checks: "check_canonical (demo_table_json sha)" "check_canonical (demo_json sha)"
  by (simp_all add: demo_table_json_def demo_json_def isascii_def MAX_SAFE_INTEGER_def identity_json_def identity_fields_def
      demo_dataset_def)

lemma demo_id: "dataset_id sha demo_dataset = Some (DATASET_SCHEME @ '':'' @ sha (chars_utf8 (canonical_text (demo_json sha))))"
proof -
  have "table_manifest sha demo_table = Some (demo_table_json sha)"
    by (simp add: table_manifest_def column_manifest_def encoded_def schema_column_def find_row_def demo_table_def demo_schema_def
        demo_encoded demo_table_json_def table_len_def type_name_def del: encode_cells.simps)
  then have "table_hash sha demo_table = Some (sha (chars_utf8 (canonical_text (demo_table_json sha))))"
    by (simp add: table_hash_def jcs_json_def utf8_encode_chars demo_json_checks)
  then have "dataset_manifest sha demo_dataset = Some (demo_json sha)"
    by (simp add: dataset_manifest_def demo_json_def demo_dataset_def) (simp add: demo_table_def demo_schema_def)
  then show ?thesis by (simp add: dataset_id_def jcs_json_def utf8_encode_chars demo_json_checks)
qed

theorem blob_roundtrip_witness:
  "\<exists>blob. encode_blob short_codec demo_dataset = Some blob
     \<and> decode_blob short_codec 100 blob (DATASET_SCHEME @ '':0'') = Some (canon_dataset demo_dataset)"
proof -
  have i: "dataset_id (sha256 short_codec) demo_dataset = Some (DATASET_SCHEME @ '':0'')"
    using demo_id by (simp add: short_codec_def)
  obtain blob where b: "encode_blob short_codec demo_dataset = Some blob" "of_le (take 8 (drop 8 blob)) \<le> MAX_HEADER"
  proof (rule demo_blob [OF i])
    have "length (DATASET_SCHEME @ '':0'') \<le> 20" by (simp add: DATASET_SCHEME_def)
    then show "length (canonical_text (blob_header (DATASET_SCHEME @ '':0'') demo_dataset demo_parts)) \<le> 500000"
      using demo_header_bound [of "DATASET_SCHEME @ '':0''"] by linarith
  qed
  then show ?thesis
    using blob_roundtrip [OF short_codec_law demo_dataset_ok b(1) i b(2), of 100] demo_columns demo_payload by auto
qed

lemma canon_demo: "canon_dataset demo_dataset = demo_dataset"
  by (simp add: canon_dataset_def demo_dataset_def canon_table_def canon_columns_def demo_table_def demo_schema_def
      missing_value_def missing_word_def f64_isnan_def f64_magnitude_def NAN_def)

theorem column_encoding_injective_witness:
  "let c = col ''v'' Float64 True; a = Words [0x3FF0000000000000, NAN]; a' = Words [0x3FF0000000000000, 0xFFF8000000000001]
   in a \<noteq> a' \<and> missing c a = missing c a' \<and> canon_cells c a = canon_cells c a'"
proof -
  let ?c = "col ''v'' Float64 True"
  let ?a = "Words [0x3FF0000000000000, NAN]" and ?a' = "Words [0x3FF0000000000000, 0xFFF8000000000001]"
  have "cells_ok ?c ?a" "cells_ok ?c ?a'" "encode_cells ?c ?a = encode_cells ?c ?a'"
    by (simp_all add: word_ok_def missing_word_def f64_isinf_def f64_isnan_def f64_iszero_def f64_magnitude_def NAN_def wide_row_def)
  then have "missing ?c ?a = missing ?c ?a' \<and> canon_cells ?c ?a = canon_cells ?c ?a'"
    using column_encoding_injective [of ?c ?a ?a'] demo_encoded(2) by metis
  moreover have "?a \<noteq> ?a'" by (simp add: NAN_def)
  ultimately show ?thesis unfolding Let_def by blast
qed

lemma demo_id_bound:
  "\<exists>i. dataset_id (sha256 demo_codec) demo_dataset = Some i
     \<and> length (canonical_text (blob_header i demo_dataset demo_parts)) \<le> 500000"
proof -
  let ?sha = "sha256 demo_codec"
  have len: "length (?sha b) = length b" for b by (simp add: demo_codec_def)
  have "length (canonical_text (demo_table_json ?sha)) \<le> text_bound (demo_table_json ?sha)"
    using demo_json_checks by (intro length_text_le canonical_is_value)
  also have "\<dots> \<le> 1500"
    by (simp add: demo_table_json_def len demo_key_bytes_def demo_value_bytes_def TABLE_SCHEME_def int_text_def digits_of.simps)
  finally have t: "length (chars_utf8 (canonical_text (demo_table_json ?sha))) \<le> 3000"
    using length_chars_utf8 [of "canonical_text (demo_table_json ?sha)"] by linarith
  have "length (canonical_text (demo_json ?sha)) \<le> text_bound (demo_json ?sha)"
    using demo_json_checks by (intro length_text_le canonical_is_value)
  also have "\<dots> \<le> 20000"
    using t by (simp add: demo_json_def len identity_json_def identity_fields_def demo_dataset_def DATASET_SCHEME_def)
  finally have "length (chars_utf8 (canonical_text (demo_json ?sha))) \<le> 40000"
    using length_chars_utf8 [of "canonical_text (demo_json ?sha)"] by linarith
  then have "length (DATASET_SCHEME @ '':'' @ ?sha (chars_utf8 (canonical_text (demo_json ?sha)))) \<le> 50000"
    by (simp add: len DATASET_SCHEME_def)
  then show ?thesis
    using demo_header_bound [of "DATASET_SCHEME @ '':'' @ ?sha (chars_utf8 (canonical_text (demo_json ?sha)))"] demo_id [of ?sha]
    by fastforce
qed

theorem substituted_blob_is_refused_witness:
  "\<exists>i blob d. dataset_id (sha256 demo_codec) demo_dataset = Some i \<and> decode_blob demo_codec 100 blob i = Some d
     \<and> ds_identity d = ds_identity demo_dataset
     \<and> set (ds_tables (canon_dataset d)) = set (ds_tables (canon_dataset demo_dataset))"
proof -
  obtain i where i: "dataset_id (sha256 demo_codec) demo_dataset = Some i"
      "length (canonical_text (blob_header i demo_dataset demo_parts)) \<le> 500000"
    using demo_id_bound by blast
  obtain blob where b: "encode_blob demo_codec demo_dataset = Some blob" "of_le (take 8 (drop 8 blob)) \<le> MAX_HEADER"
    using demo_blob [OF i] by blast
  have d: "decode_blob demo_codec 100 blob i = Some (canon_dataset demo_dataset)"
    using decode_encoded [OF demo_codec_law demo_dataset_ok b(1) i(1) b(2), of 100] demo_columns demo_payload by auto
  then have "ds_identity (canon_dataset demo_dataset) = ds_identity demo_dataset
      \<and> set (ds_tables (canon_dataset (canon_dataset demo_dataset))) = set (ds_tables (canon_dataset demo_dataset))"
    using substituted_blob_is_refused [OF demo_dataset_ok i(1) d demo_digest_inj] by blast
  then show ?thesis using i(1) d by blast
qed

end
