(* ===== verification/Dataset_Store.thy ===== *)
theory Dataset_Store
  imports Dataset_Properties
begin

text \<open>
  \<^verbatim>\<open>src/backend/services/dataset_store.py\<close>: dataset blobs as files named by dataset id. The file
  system is a map from paths to bytes; writing a blob is split where the code lets other
  processes in, between the test that the file is absent and the rename of the temporary
  file. The temporary file has a fresh name and is gone when \<^verbatim>\<open>put\<close> returns, so it is left out.
\<close>

section \<open>The store\<close>

type_synonym files = "string \<Rightarrow> octets option"

datatype blob_error = DatasetErr | IntegrityErr | OSErr

record stored =
  so_id :: string
  so_path :: string
  so_sha :: string
  so_size :: nat

record store =
  st_root :: string
  st_max :: nat

definition hex_char :: "char \<Rightarrow> bool" where
  "hex_char c \<longleftrightarrow> c \<in> set ''0123456789abcdef''"

definition DATASET_ID :: "string \<Rightarrow> bool" where
  "DATASET_ID i \<longleftrightarrow> take 16 i = DATASET_SCHEME @ '':'' \<and> length i = 80 \<and> list_all hex_char (drop 16 i)"

definition path_for :: "store \<Rightarrow> string \<Rightarrow> string option" where
  "path_for st i =
     (if DATASET_ID i
      then let digest = drop 16 i
           in Some (st_root st @ ''/'' @ DATASET_SCHEME @ ''/'' @ take 2 digest @ ''/'' @ digest)
      else None)"

definition read_blob :: "store \<Rightarrow> files \<Rightarrow> string \<Rightarrow> blob_error + octets" where
  "read_blob st fs path =
     (case fs path of
        None \<Rightarrow> Inl IntegrityErr
      | Some b \<Rightarrow> if st_max st < length b then Inl IntegrityErr else Inr b)"

definition described :: "codec \<Rightarrow> string \<Rightarrow> string \<Rightarrow> octets \<Rightarrow> stored" where
  "described z i path b = \<lparr>so_id = i, so_path = path, so_sha = sha256 z b, so_size = length b\<rparr>"

definition verified :: "codec \<Rightarrow> store \<Rightarrow> files \<Rightarrow> string \<Rightarrow> string option \<Rightarrow> blob_error + (dataset \<times> stored)" where
  "verified z st fs i sha =
     (case path_for st i of
        None \<Rightarrow> Inl DatasetErr
      | Some path \<Rightarrow>
          (case read_blob st fs path of
             Inl e \<Rightarrow> Inl e
           | Inr b \<Rightarrow>
               if sha \<noteq> None \<and> sha \<noteq> Some (sha256 z b) then Inl IntegrityErr
               else case decode_blob z (st_max st) b i of
                      None \<Rightarrow> Inl IntegrityErr
                    | Some d \<Rightarrow> Inr (d, described z i path b)))"

definition get_dataset :: "codec \<Rightarrow> store \<Rightarrow> files \<Rightarrow> string \<Rightarrow> string option \<Rightarrow> blob_error + dataset" where
  "get_dataset z st fs i sha = (case verified z st fs i sha of Inl e \<Rightarrow> Inl e | Inr (d, s) \<Rightarrow> Inr d)"

definition verified_file :: "codec \<Rightarrow> store \<Rightarrow> files \<Rightarrow> string \<Rightarrow> string \<Rightarrow> blob_error + stored" where
  "verified_file z st fs i path =
     (case read_blob st fs path of
        Inl e \<Rightarrow> Inl e
      | Inr b \<Rightarrow> (case decode_blob z (st_max st) b i of None \<Rightarrow> Inl IntegrityErr | Some d \<Rightarrow> Inr (described z i path b)))"

text \<open>What \<^verbatim>\<open>put\<close> decides before it writes: an error, the file that is there already, or the bytes to write.\<close>

datatype put_plan = Refuse blob_error | Present stored | Write string string octets

definition put_check :: "codec \<Rightarrow> store \<Rightarrow> files \<Rightarrow> dataset \<Rightarrow> put_plan" where
  "put_check z st fs d =
     (case dataset_id (sha256 z) d of
        None \<Rightarrow> Refuse DatasetErr
      | Some i \<Rightarrow>
          (case path_for st i of
             None \<Rightarrow> Refuse DatasetErr
           | Some path \<Rightarrow>
               if fs path \<noteq> None
               then (case verified_file z st fs i path of Inl e \<Rightarrow> Refuse e | Inr s \<Rightarrow> Present s)
               else (case encode_blob z d of
                       None \<Rightarrow> Refuse DatasetErr
                     | Some b \<Rightarrow> if st_max st < length b then Refuse DatasetErr else Write i path b)))"

text \<open>\<open>replaced\<close>: the rename succeeded; otherwise it raised \<^verbatim>\<open>PermissionError\<close> (Windows, a read-only file is there).\<close>

definition put_write :: "codec \<Rightarrow> store \<Rightarrow> bool \<Rightarrow> string \<Rightarrow> string \<Rightarrow> octets \<Rightarrow> files \<Rightarrow> files \<times> (blob_error + stored)" where
  "put_write z st replaced i path b fs =
     (if replaced then (fs(path \<mapsto> b), Inr (described z i path b))
      else if fs path = None then (fs, Inl OSErr)
      else (fs, verified_file z st fs i path))"

text \<open>\<^verbatim>\<open>put\<close>: \<open>others\<close> is what other processes do to the files between the test and the rename.\<close>

definition put :: "codec \<Rightarrow> store \<Rightarrow> bool \<Rightarrow> (files \<Rightarrow> files) \<Rightarrow> dataset \<Rightarrow> files \<Rightarrow> files \<times> (blob_error + stored)" where
  "put z st replaced others d fs =
     (case put_check z st fs d of
        Refuse e \<Rightarrow> (fs, Inl e)
      | Present s \<Rightarrow> (fs, Inr s)
      | Write i path b \<Rightarrow> put_write z st replaced i path b (others fs))"

section \<open>Files written by the store\<close>

definition readable :: "codec \<Rightarrow> store \<Rightarrow> dataset \<Rightarrow> bool" where
  "readable z st d \<longleftrightarrow> dataset_ok d
     \<and> (\<forall>b. encode_blob z d = Some b \<longrightarrow> of_le (take 8 (drop 8 b)) \<le> MAX_HEADER)
     \<and> (\<forall>parts. map_opt encoded_columns (ds_tables d) = Some parts \<longrightarrow> length (payload parts) \<le> st_max st)"

text \<open>Every file of the store holds the encoding of some dataset with the id it is named by.\<close>

definition store_inv :: "codec \<Rightarrow> store \<Rightarrow> files \<Rightarrow> bool" where
  "store_inv z st fs \<longleftrightarrow>
     (\<forall>i path b. path_for st i = Some path \<longrightarrow> fs path = Some b \<longrightarrow>
        length b \<le> st_max st \<and> (\<exists>d. readable z st d \<and> dataset_id (sha256 z) d = Some i \<and> encode_blob z d = Some b))"

lemma path_for_inj:
  assumes "path_for st i = Some path" "path_for st j = Some path"
  shows "i = j"
proof -
  have d: "DATASET_ID i" "DATASET_ID j" using assms by (auto simp: path_for_def split: if_splits)
  then have l: "length (drop 16 i) = 64" "length (drop 16 j) = 64" by (simp_all add: DATASET_ID_def)
  have "take 2 (drop 16 i) @ CHR ''/'' # drop 16 i = take 2 (drop 16 j) @ CHR ''/'' # drop 16 j"
    using assms by (auto simp: path_for_def Let_def split: if_splits)
  moreover have "length (take 2 (drop 16 i)) = length (take 2 (drop 16 j))" using l by simp
  ultimately have "drop 16 i = drop 16 j" by (metis append_eq_append_conv list.inject)
  then show ?thesis using d unfolding DATASET_ID_def by (metis append_take_drop_id)
qed

lemma put_check_write:
  assumes "put_check z st fs d = Write i path b"
  shows "dataset_id (sha256 z) d = Some i" "path_for st i = Some path" "encode_blob z d = Some b" "length b \<le> st_max st" "fs path = None"
  using assms by (auto simp: put_check_def split: option.splits if_splits sum.splits)

lemma put_write_inv:
  assumes "store_inv z st fs" "readable z st d" "dataset_id (sha256 z) d = Some i" "path_for st i = Some path"
    "encode_blob z d = Some b" "length b \<le> st_max st"
  shows "store_inv z st (fst (put_write z st replaced i path b fs))"
proof -
  have "store_inv z st (fs(path \<mapsto> b))"
    unfolding store_inv_def
  proof (intro allI impI)
    fix j q b' assume q: "path_for st j = Some q" "(fs(path \<mapsto> b)) q = Some b'"
    show "length b' \<le> st_max st \<and> (\<exists>d. readable z st d \<and> dataset_id (sha256 z) d = Some j \<and> encode_blob z d = Some b')"
    proof (cases "q = path")
      case True
      then have "j = i" "b' = b" using path_for_inj q assms(4) by auto
      then show ?thesis using assms by blast
    next
      case False
      then show ?thesis using assms(1) q unfolding store_inv_def by simp
    qed
  qed
  then show ?thesis using assms(1) by (simp add: put_write_def)
qed

text \<open>A file of the store decodes to the content its id names.\<close>

lemma stored_file_decodes:
  assumes "codec_law z" "store_inv z st fs" "path_for st i = Some path" "fs path = Some b"
  shows "\<exists>d. readable z st d \<and> dataset_id (sha256 z) d = Some i \<and> decode_blob z (st_max st) b i = Some (canon_dataset d)"
proof -
  obtain d where d: "readable z st d" "dataset_id (sha256 z) d = Some i" "encode_blob z d = Some b"
    using assms(2-4) unfolding store_inv_def by blast
  have "decode_blob z (st_max st) b i = Some (canon_dataset d)"
    using decode_encoded [OF assms(1) _ d(3,2), of "st_max st"] d(1,3) unfolding readable_def by blast
  then show ?thesis using d by blast
qed

section \<open>Writers in any order\<close>

text \<open>The write of a \<^verbatim>\<open>put\<close> whose test came earlier: it may find the file written by another process.\<close>

datatype store_op = Put_write dataset bool

fun store_file_step :: "codec \<Rightarrow> store \<Rightarrow> store_op \<Rightarrow> files \<Rightarrow> files" where
  "store_file_step z st (Put_write d replaced) fs =
     (case (dataset_id (sha256 z) d, encode_blob z d) of
        (Some i, Some b) \<Rightarrow>
          (case path_for st i of
             None \<Rightarrow> fs
           | Some path \<Rightarrow> if st_max st < length b then fs else fst (put_write z st replaced i path b fs))
      | _ \<Rightarrow> fs)"

fun store_file_ok :: "codec \<Rightarrow> store \<Rightarrow> store_op \<Rightarrow> files \<Rightarrow> bool" where
  "store_file_ok z st (Put_write d replaced) fs = readable z st d"

definition present :: "store \<Rightarrow> string \<Rightarrow> files \<Rightarrow> bool" where
  "present st i fs \<longleftrightarrow> (\<exists>path. path_for st i = Some path \<and> fs path \<noteq> None)"

interpretation blob_files: sealed_machine "store_file_step z st" "store_inv z st" "store_file_ok z st" "present st" for z st
proof
  fix s :: files and p :: store_op
  assume s: "store_inv z st s" and p: "store_file_ok z st p s"
  show "store_inv z st (store_file_step z st p s)"
  proof (cases p)
    case (Put_write d r)
    then show ?thesis using s p put_write_inv [of z st s d]
      by (auto split: option.split)
  qed
next
  fix s :: files and p :: store_op and i :: string
  assume "present st i s"
  then show "present st i (store_file_step z st p s)"
    by (cases p) (auto simp: present_def put_write_def split: option.split)
qed

lemma present_is_served:
  assumes "codec_law z" "store_inv z st fs" "present st i fs"
  shows "\<exists>d s. verified z st fs i None = Inr (canon_dataset d, s) \<and> readable z st d \<and> dataset_id (sha256 z) d = Some i"
proof -
  obtain path b where path: "path_for st i = Some path" "fs path = Some b" using assms(3) by (auto simp: present_def)
  obtain d where "readable z st d" "dataset_id (sha256 z) d = Some i" "decode_blob z (st_max st) b i = Some (canon_dataset d)"
    using stored_file_decodes [OF assms(1,2) path] by blast
  moreover have "length b \<le> st_max st" using assms(2) path unfolding store_inv_def by blast
  ultimately show ?thesis using path by (auto simp: verified_def read_blob_def)
qed

lemma put_present:
  assumes "put z st replaced others d fs = (fs', Inr s)"
  shows "present st (so_id s) fs' \<and> dataset_id (sha256 z) d = Some (so_id s)"
  using assms
  by (auto simp: put_def put_check_def put_write_def verified_file_def read_blob_def described_def present_def
      split: option.splits if_splits sum.splits put_plan.splits)

lemma put_keeps_inv:
  assumes "store_inv z st fs" "readable z st d" "put z st replaced (fold (store_file_step z st) ops) d fs = (fs', r)"
    "admissible (store_file_ok z st) (store_file_step z st) ops fs"
  shows "store_inv z st fs'"
proof (cases "put_check z st fs d")
  case (Write i path b)
  note w = put_check_write [OF Write]
  have "store_inv z st (fold (store_file_step z st) ops fs)" using blob_files.inv_run assms(1,4) by blast
  from put_write_inv [OF this assms(2) w(1-4)] show ?thesis using assms(3) Write by (simp add: put_def) (metis fst_conv)
qed (use assms in \<open>auto simp: put_def\<close>)

text \<open>
  A stored dataset stays available. Once \<^verbatim>\<open>put\<close> has returned for a dataset, whatever other
  processes wrote while it ran and whatever is put later, the store serves that id, and what it
  serves has the dataset's identity and cells, as long as SHA-256 has no collision among the documents
  of the two.
\<close>

theorem stored_dataset_stays_available:
  assumes "codec_law z" "store_inv z st fs" "readable z st d"
    and "admissible (store_file_ok z st) (store_file_step z st) during fs"
    and "put z st replaced (fold (store_file_step z st) during) d fs = (fs1, Inr s)"
    and "admissible (store_file_ok z st) (store_file_step z st) later fs1"
  shows "\<exists>d'. get_dataset z st (fold (store_file_step z st) later fs1) (so_id s) None = Inr d'
    \<and> (inj_on (sha256 z) (documents (sha256 z) d \<union> documents (sha256 z) d') \<longrightarrow>
        ds_identity d' = ds_identity d \<and> set (ds_tables (canon_dataset d')) = set (ds_tables (canon_dataset d)))"
proof -
  let ?fs = "fold (store_file_step z st) later fs1"
  have inv: "store_inv z st ?fs" and p: "present st (so_id s) ?fs"
    using put_keeps_inv [OF assms(2,3,5,4)] put_present [OF assms(5)] blob_files.inv_run blob_files.sealed_run assms(6) by blast+
  obtain d' q where d': "verified z st ?fs (so_id s) None = Inr (canon_dataset d', q)" "readable z st d'"
    "dataset_id (sha256 z) d' = Some (so_id s)"
    using present_is_served [OF assms(1) inv p] by blast
  have ok: "dataset_ok (canon_dataset d')" "dataset_id (sha256 z) (canon_dataset d') = Some (so_id s)" "dataset_ok d"
    using d' assms(3) dataset_id_canon [of d'] decoded_ok
    by (auto simp: readable_def verified_def decode_blob_def split: option.splits sum.splits if_splits)
  have "get_dataset z st ?fs (so_id s) None = Inr (canon_dataset d')" using d'(1) by (simp add: get_dataset_def)
  moreover have "inj_on (sha256 z) (documents (sha256 z) d \<union> documents (sha256 z) (canon_dataset d')) \<longrightarrow>
        ds_identity (canon_dataset d') = ds_identity d
        \<and> set (ds_tables (canon_dataset (canon_dataset d'))) = set (ds_tables (canon_dataset d))"
    using same_id_same_content [OF ok(3,1) _ ok(2)] put_present [OF assms(5)] by metis
  ultimately show ?thesis by blast
qed

section \<open>The size limits disagree\<close>

lemma oversized_payload_unreadable:
  assumes "codec_law z" "encode_blob z d = Some b" "dataset_id (sha256 z) d = Some i"
    and "map_opt encoded_columns (ds_tables d) = Some parts" "max_bytes < length (payload parts)"
  shows "decode_blob z max_bytes b i = None"
proof -
  obtain header where h: "jcs_json (blob_header i d parts) = Some header" "length header < 2 ^ 64"
    and b: "b = BLOB_MAGIC @ le_bytes 8 (length header) @ header @ deflate z (payload parts)"
    using assms(2-4) by (auto simp: encode_blob_def pack_Q_def split: option.splits if_splits)
  have "loads z header = Some (sorted_json (blob_header i d parts))" using assms(1) h(1) by (simp add: codec_law_def)
  moreover have "jget (sorted_json (blob_header i d parts)) ''payload_length'' = Some (JInt (int (length (payload parts))))"
    unfolding blob_header_def by (subst jget_sorted; simp)
  moreover have "take 8 (drop 8 b) = le_bytes 8 (length header)" "take (length header) (drop 16 b) = header"
    by (simp_all add: b BLOB_MAGIC_def del: le_bytes.simps)
  moreover have "of_le (le_bytes 8 (length header)) = length header" using h(2) by (simp add: of_le_le_bytes)
  ultimately have "decode_unchecked z max_bytes b = None"
    using assms(5) by (simp add: decode_unchecked_def Let_def as_int_def del: sorted_json.simps)
  then show ?thesis by (simp add: decode_blob_def)
qed

text \<open>
  The limit \<^verbatim>\<open>put\<close> applies is not the limit \<^verbatim>\<open>get\<close> applies. A dataset whose compressed blob is within
  the store's limit but whose payload is not is stored and reported as stored, and can never be read
  back.
\<close>

theorem oversized_payload_is_stored_but_unreadable:
  assumes "codec_law z" "dataset_id (sha256 z) d = Some i" "path_for st i = Some path" "fs path = None"
    and "encode_blob z d = Some b" "length b \<le> st_max st"
    and "map_opt encoded_columns (ds_tables d) = Some parts" "st_max st < length (payload parts)"
  shows "\<exists>fs' s. put z st True id d fs = (fs', Inr s) \<and> get_dataset z st fs' i sha = Inl IntegrityErr"
  using assms oversized_payload_unreadable [OF assms(1,5,2,7,8)]
  by (simp add: put_def put_check_def put_write_def get_dataset_def verified_def read_blob_def)

section \<open>Concrete inputs\<close>

definition zeros :: string where
  "zeros = replicate 64 (CHR ''0'')"

definition file_codec :: codec where
  "file_codec = demo_codec\<lparr>sha256 := (\<lambda>b. zeros)\<rparr>"

definition demo_store :: store where
  "demo_store = \<lparr>st_root = ''/data'', st_max = 1000000\<rparr>"

definition zeros_id :: string where
  "zeros_id = DATASET_SCHEME @ '':'' @ zeros"

lemma zeros_id_path: "\<exists>path. path_for st zeros_id = Some path"
  by (simp add: path_for_def DATASET_ID_def zeros_id_def zeros_def DATASET_SCHEME_def hex_char_def list_all_iff)

lemma file_codec_law: "codec_law file_codec"
  using demo_codec_law by (simp add: codec_law_def file_codec_def)

lemma demo_file_id: "dataset_id (sha256 file_codec) demo_dataset = Some zeros_id"
  using demo_id by (simp add: file_codec_def zeros_id_def)

lemma demo_file_blob:
  "\<exists>b. encode_blob file_codec demo_dataset = Some b \<and> of_le (take 8 (drop 8 b)) \<le> MAX_HEADER \<and> length b \<le> 20000"
proof -
  let ?t = "canonical_text (blob_header zeros_id demo_dataset demo_parts)"
  have "length zeros_id = 80" by (simp add: zeros_id_def zeros_def DATASET_SCHEME_def)
  then have t: "length ?t \<le> 3480" using demo_header_bound [of zeros_id] by simp
  then have h: "length (chars_utf8 ?t) \<le> 6960" using length_chars_utf8 [of ?t] by linarith
  have "encode_blob file_codec demo_dataset
      = Some (BLOB_MAGIC @ le_bytes 8 (length (chars_utf8 ?t)) @ chars_utf8 ?t @ payload demo_parts)"
    using h demo_file_id
    by (simp add: encode_blob_def demo_columns demo_header pack_Q_def file_codec_def demo_codec_def)
  then show ?thesis
    using h by (simp add: BLOB_MAGIC_def of_le_le_bytes MAX_HEADER_def demo_payload)
qed

lemma demo_readable: "readable file_codec demo_store demo_dataset"
  using demo_file_blob demo_dataset_ok demo_columns demo_payload by (auto simp: readable_def demo_store_def)

theorem stored_dataset_stays_available_witness:
  "let put1 = put file_codec demo_store True id demo_dataset (\<lambda>_. None) in
     \<exists>s d'. snd put1 = Inr s \<and> get_dataset file_codec demo_store
        (store_file_step file_codec demo_store (Put_write demo_dataset True) (fst put1)) (so_id s) None = Inr d'"
proof -
  let ?put = "put file_codec demo_store True id demo_dataset (\<lambda>_. None)"
  obtain b where b: "encode_blob file_codec demo_dataset = Some b" "length b \<le> 20000" using demo_file_blob by blast
  obtain path where "path_for demo_store zeros_id = Some path" using zeros_id_path by blast
  then have s: "snd ?put = Inr (described file_codec zeros_id path b)"
    using b demo_file_id by (simp add: put_def put_check_def put_write_def demo_store_def)
  then have "put file_codec demo_store True (fold (store_file_step file_codec demo_store) []) demo_dataset (\<lambda>_. None)
      = (fst ?put, Inr (described file_codec zeros_id path b))"
    by (simp add: prod_eq_iff id_def)
  from stored_dataset_stays_available [OF file_codec_law _ demo_readable _ this, of "[Put_write demo_dataset True]"]
  show ?thesis using s demo_readable by (simp add: store_inv_def Let_def) blast
qed

text \<open>A dataset with one long text, and a compressor that shortens exactly its payload.\<close>

definition long_text :: codepoints where
  "long_text = replicate 60000 65"

definition long_table :: tab where
  "long_table = \<lparr>tb_schema = \<lparr>s_name = ''t'', s_columns = [col ''k'' Utf8 False], s_key = [''k'']\<rparr>,
     tb_columns = [(''k'', Texts [Some long_text])]\<rparr>"

definition long_dataset :: dataset where
  "long_dataset = \<lparr>ds_identity = ds_identity demo_dataset, ds_tables = [long_table]\<rparr>"

definition long_bytes :: octets where
  "long_bytes = le_bytes 8 60000 @ replicate 60000 65"

definition long_codec :: codec where
  "long_codec = file_codec\<lparr>deflate := (\<lambda>b. if b = long_bytes then [] else 0 # b),
     inflate := (\<lambda>c n. if c = [] then Some (take n long_bytes, length long_bytes < n) else Some (take n (tl c), length (tl c) < n))\<rparr>"

lemma long_codec_law: "codec_law long_codec"
  using file_codec_law by (simp add: codec_law_def long_codec_def)

lemma long_encoded: "encode_cells (col ''k'' Utf8 False) (Texts [Some long_text]) = Some long_bytes"
proof -
  have "utf8_encode long_text = Some (replicate 60000 65)"
    by (simp add: utf8_encode_def utf8_valid_def list_all_iff surrogate_def long_text_def utf8_char_def concat_replicate_single
        map_replicate)
  then show ?thesis by (simp add: text_row_def pack_Q_def long_bytes_def)
qed

definition long_parts :: "(column \<times> octets) list list" where
  "long_parts = [[(col ''k'' Utf8 False, long_bytes)]]"

lemma long_columns: "map_opt encoded_columns (ds_tables long_dataset) = Some long_parts"
  by (simp add: long_dataset_def encoded_columns_def encoded_def schema_column_def find_row_def long_table_def
      long_encoded long_parts_def del: encode_cells.simps)

lemma long_id: "dataset_id (sha256 long_codec) long_dataset = Some zeros_id"
  by (simp add: dataset_id_def dataset_manifest_def long_dataset_def table_hash_def table_manifest_def column_manifest_def
      encoded_def schema_column_def find_row_def long_table_def long_encoded jcs_json_def isascii_def utf8_encode_chars
      identity_json_def identity_fields_def demo_dataset_def MAX_SAFE_INTEGER_def table_len_def long_codec_def file_codec_def
      zeros_id_def del: encode_cells.simps json_text.simps)

lemma long_payload: "payload long_parts = long_bytes" "length long_bytes = 60008"
  by (simp_all add: payload_def long_parts_def long_bytes_def del: le_bytes.simps)

lemma long_header:
  "check_canonical (blob_header zeros_id long_dataset long_parts)"
  "text_bound (blob_header zeros_id long_dataset long_parts) \<le> 5000"
  by (simp_all add: blob_header_def long_payload isascii_def MAX_SAFE_INTEGER_def identity_json_def identity_fields_def
      long_dataset_def demo_dataset_def long_parts_def table_spec_def column_spec_def long_table_def table_len_def
      BLOB_FORMAT_def type_name_def zeros_id_def zeros_def DATASET_SCHEME_def int_text_def digits_of.simps payload_def)

theorem oversized_payload_is_stored_but_unreadable_witness:
  "let st = \<lparr>st_root = ''/data'', st_max = 50000\<rparr>
   in \<exists>fs s. put long_codec st True id long_dataset (\<lambda>_. None) = (fs, Inr s)
        \<and> get_dataset long_codec st fs zeros_id None = Inl IntegrityErr"
proof -
  let ?st = "\<lparr>st_root = ''/data'', st_max = 50000\<rparr>"
  let ?h = "chars_utf8 (canonical_text (blob_header zeros_id long_dataset long_parts))"
  let ?b = "BLOB_MAGIC @ le_bytes 8 (length ?h) @ ?h"
  have "length (canonical_text (blob_header zeros_id long_dataset long_parts)) \<le> 5000"
    using length_text_le [OF canonical_is_value [OF long_header(1)], of False "\<lambda>_. []"] long_header(2) by linarith
  then have h: "length ?h \<le> 10000"
    using length_chars_utf8 [of "canonical_text (blob_header zeros_id long_dataset long_parts)"] by linarith
  have "jcs_json (blob_header zeros_id long_dataset long_parts) = Some ?h"
    using long_header(1) by (simp add: jcs_json_def utf8_encode_chars)
  then have b: "encode_blob long_codec long_dataset = Some ?b"
    using h by (simp add: encode_blob_def long_columns long_id pack_Q_def long_payload) (simp add: long_codec_def)
  obtain path where p: "path_for ?st zeros_id = Some path" using zeros_id_path by blast
  have "length ?b \<le> st_max ?st" "st_max ?st < length (payload long_parts)"
    using h by (simp_all add: BLOB_MAGIC_def long_payload)
  from oversized_payload_is_stored_but_unreadable [OF long_codec_law long_id p _ b this(1) long_columns this(2), of "\<lambda>_. None"]
  show ?thesis by (simp add: Let_def)
qed

end
