(* ===== verification/Dataset_Registry.thy ===== *)
theory Dataset_Registry
  imports Dataset_Store
begin

text \<open>
  \<^verbatim>\<open>src/backend/services/dataset_registry.py\<close>: the rows that describe stored datasets and say
  who holds them. A row is derived from the dataset read back from the store. Instants are
  microseconds; \<open>None\<close> as the retrieval time is a naive datetime. The \<^verbatim>\<open>bars\<close> table is taken to have
  a text column \<^verbatim>\<open>symbol\<close> and a date column \<^verbatim>\<open>session_date\<close>, as every provider builds it; another
  \<^verbatim>\<open>bars\<close> schema is refused (\<open>RegKeyErr\<close>).
\<close>

record licence =
  lc_personal_use_only :: bool
  lc_redistribution_allowed :: bool

definition LICENCES :: "(string, licence) dict" where
  "LICENCES = [(''yahoo-personal-use'', \<lparr>lc_personal_use_only = True, lc_redistribution_allowed = False\<rparr>)]"

record version_row =
  v_id :: string
  v_identity :: dataset_identity
  v_personal_use_only :: bool
  v_redistribution_allowed :: bool
  v_point_in_time :: bool
  v_coverage_start :: int
  v_coverage_end :: int
  v_symbols :: "codepoints list"
  v_manifest :: octets
  v_tables :: "(string, json) dict"
  v_blob_format :: string
  v_blob_sha :: string
  v_blob_size :: nat
  v_client :: string
  v_request :: json
  v_retrieved :: int
  v_created :: int

record holding =
  h_user :: string
  h_dataset :: string
  h_job :: "string option"
  h_created :: int

record registry_db =
  rg_versions :: "version_row list"
  rg_holdings :: "holding list"

datatype registry_error = RegistryErr | RegIntegrityErr | RegKeyErr | TaskErr nat

definition dataset_table :: "dataset \<Rightarrow> string \<Rightarrow> tab option" where
  "dataset_table d name = find_row (\<lambda>t. s_name (tb_schema t)) name (ds_tables d)"

definition bars_coverage :: "tab \<Rightarrow> (int list \<times> codepoints list) option" where
  "bars_coverage t =
     (case (schema_column (tb_schema t) ''session_date'', dict_get (tb_columns t) ''session_date'', dict_get (tb_columns t) ''symbol'') of
        (Some c, Some (Words ws), Some (Texts ts)) \<Rightarrow>
          if c_type c = Date32 then map_option (Pair (map sint ws)) (map_opt id ts) else None
      | _ \<Rightarrow> None)"

definition describe ::
  "codec \<Rightarrow> dataset \<Rightarrow> stored \<Rightarrow> json \<Rightarrow> string \<Rightarrow> int option \<Rightarrow> int \<Rightarrow> registry_error + version_row" where
  "describe z d s request client retrieved now =
     (if Some (so_id s) \<noteq> dataset_id (sha256 z) d then Inl RegistryErr
      else case dict_get LICENCES (id_licence (ds_identity d)) of
             None \<Rightarrow> Inl RegistryErr
           | Some lc \<Rightarrow>
               (case dataset_table d ''bars'' of
                  None \<Rightarrow> Inl RegistryErr
                | Some bars \<Rightarrow>
                    if table_len bars = 0 then Inl RegistryErr
                    else case retrieved of
                           None \<Rightarrow> Inl RegistryErr
                         | Some fetched \<Rightarrow>
                             (case (bars_coverage bars, Option.bind (dataset_manifest (sha256 z) d) jcs_json,
                                    map_opt (\<lambda>t. map_option (Pair (s_name (tb_schema t))) (table_manifest (sha256 z) t)) (ds_tables d)) of
                                (Some (days, symbols), Some manifest, Some tables) \<Rightarrow>
                                  Inr \<lparr>v_id = so_id s, v_identity = ds_identity d,
                                       v_personal_use_only = lc_personal_use_only lc,
                                       v_redistribution_allowed = lc_redistribution_allowed lc,
                                       v_point_in_time = (id_adjustment (ds_identity d) = ''raw''
                                          \<and> id_survivorship (ds_identity d) = ''point_in_time''),
                                       v_coverage_start = foldr min (tl days) (hd days),
                                       v_coverage_end = foldr max (tl days) (hd days),
                                       v_symbols = sort (remdups symbols), v_manifest = manifest, v_tables = tables,
                                       v_blob_format = BLOB_FORMAT, v_blob_sha = so_sha s, v_blob_size = so_size s,
                                       v_client = take 64 client, v_request = request, v_retrieved = fetched, v_created = now\<rparr>
                              | _ \<Rightarrow> Inl RegKeyErr)))"

text \<open>\<^verbatim>\<open>INSERT ... ON CONFLICT DO NOTHING\<close> on a key.\<close>

definition insert_absent :: "('r \<Rightarrow> 'k) \<Rightarrow> 'r \<Rightarrow> 'r list \<Rightarrow> 'r list" where
  "insert_absent key r rs = (if find_row key (key r) rs = None then rs @ [r] else rs)"

definition holding_key :: "holding \<Rightarrow> string \<times> string" where
  "holding_key h = (h_user h, h_dataset h)"

definition register ::
  "codec \<Rightarrow> dataset \<Rightarrow> stored \<Rightarrow> string \<Rightarrow> json \<Rightarrow> string \<Rightarrow> int option \<Rightarrow> string option \<Rightarrow> int \<Rightarrow> registry_db session
     \<Rightarrow> registry_db session \<times> (registry_error + version_row)" where
  "register z d s user request client retrieved job now db =
     (case describe z d s request client retrieved now of
        Inl e \<Rightarrow> (db, Inl e)
      | Inr row \<Rightarrow>
          (let db1 = upd (\<lambda>r. r\<lparr>rg_versions := insert_absent v_id row (rg_versions r)\<rparr>) db in
           case find_row v_id (v_id row) (rg_versions (working db1)) of
             None \<Rightarrow> (db1, Inl RegKeyErr)
           | Some version \<Rightarrow>
               if v_blob_sha version \<noteq> v_blob_sha row \<or> v_blob_size version \<noteq> v_blob_size row then (db1, Inl RegIntegrityErr)
               else (upd (\<lambda>r. r\<lparr>rg_holdings := insert_absent holding_key
                            \<lparr>h_user = user, h_dataset = v_id row, h_job = job, h_created = now\<rparr> (rg_holdings r)\<rparr>) db1,
                     Inr version)))"

text \<open>What a job process reports of one snapshot: the ids and file hashes it says it stored.\<close>

record snapshot =
  sn_items :: "(string \<times> string) list"
  sn_request :: json
  sn_client :: string
  sn_retrieved :: "int option"

fun register_items ::
  "codec \<Rightarrow> store \<Rightarrow> files \<Rightarrow> string \<Rightarrow> string \<Rightarrow> int \<Rightarrow> snapshot \<Rightarrow> (string \<times> string) list \<Rightarrow> registry_db session
     \<Rightarrow> registry_db session \<times> (registry_error + version_row list)" where
  "register_items z st fs job user now sn [] db = (db, Inr [])"
| "register_items z st fs job user now sn ((i, sha) # items) db =
     (case verified z st fs i (Some sha) of
        Inl e \<Rightarrow> (db, Inl (TaskErr 500))
      | Inr (d, s) \<Rightarrow>
          (case register z d s user (sn_request sn) (sn_client sn) (sn_retrieved sn) (Some job) now db of
             (db1, Inl e) \<Rightarrow> (db1, Inl e)
           | (db1, Inr v) \<Rightarrow>
               (case register_items z st fs job user now sn items db1 of
                  (db2, Inl e) \<Rightarrow> (db2, Inl e)
                | (db2, Inr vs) \<Rightarrow> (db2, Inr (v # vs)))))"

definition register_snapshot ::
  "codec \<Rightarrow> store \<Rightarrow> files \<Rightarrow> string \<Rightarrow> string \<Rightarrow> int \<Rightarrow> snapshot \<Rightarrow> registry_db session
     \<Rightarrow> registry_db session \<times> (registry_error + version_row list)" where
  "register_snapshot z st fs job user now sn db = register_items z st fs job user now sn (sn_items sn) db"

fun register_snapshots ::
  "codec \<Rightarrow> store \<Rightarrow> files \<Rightarrow> string \<Rightarrow> string \<Rightarrow> int \<Rightarrow> snapshot list \<Rightarrow> registry_db session
     \<Rightarrow> registry_db session \<times> registry_error option" where
  "register_snapshots z st fs job user now [] db = (db, None)"
| "register_snapshots z st fs job user now (sn # sns) db =
     (case register_snapshot z st fs job user now sn db of
        (db1, Inl e) \<Rightarrow> (db1, Some e)
      | (db1, Inr vs) \<Rightarrow> register_snapshots z st fs job user now sns db1)"

record market_report =
  mr_snapshots :: "snapshot list"
  mr_datasets :: "string list"
  mr_source :: json
  mr_unavailable :: json

text \<open>Returns the job's result and audit details, both naming the datasets the result is computed from. \<open>None\<close>: the
  result holds no report.\<close>

definition record_market_data ::
  "codec \<Rightarrow> store \<Rightarrow> files \<Rightarrow> string \<Rightarrow> string \<Rightarrow> int \<Rightarrow> market_report option \<Rightarrow> (string, json) dict
     \<Rightarrow> (string, json) dict \<Rightarrow> registry_db session
     \<Rightarrow> registry_db session \<times> (registry_error + ((string, json) dict \<times> (string, json) dict))" where
  "record_market_data z st fs job user now report result audit db =
     (case report of
        None \<Rightarrow> (db, Inl (TaskErr 500))
      | Some r \<Rightarrow>
          (case register_snapshots z st fs job user now (mr_snapshots r) db of
             (db1, Some e) \<Rightarrow> (db1, Inl e)
           | (db1, None) \<Rightarrow>
               (let used = mr_datasets r;
                    held = map h_dataset (filter (\<lambda>h. h_user h = user \<and> h_dataset h \<in> set used) (rg_holdings (working db1)))
                in if set held \<noteq> set used then (db1, Inl (TaskErr 500))
                   else (db1, Inr (dict_set ''market_data'' (JObj [(''source'', mr_source r),
                                     (''datasets'', JArr (map JStr used)), (''unavailable'', mr_unavailable r)]) result,
                                   dict_set ''datasets'' (JArr (map JStr used)) audit)))))"

definition held_by :: "registry_db \<Rightarrow> string \<Rightarrow> (holding \<times> version_row) list" where
  "held_by r user =
     concat (map (\<lambda>h. map (Pair h) (filter (\<lambda>v. v_id v = h_dataset h) (rg_versions r)))
       (filter (\<lambda>h. h_user h = user) (rg_holdings r)))"

text \<open>\<^verbatim>\<open>ORDER BY created_at DESC, dataset_id LIMIT n\<close>.\<close>

definition list_held :: "registry_db \<Rightarrow> string \<Rightarrow> nat \<Rightarrow> version_row list" where
  "list_held r user limit =
     take limit (map snd (sort_key (\<lambda>(h, v). - h_created h) (sort_key (\<lambda>(h, v). v_id v) (held_by r user))))"

definition get_held :: "registry_db \<Rightarrow> string \<Rightarrow> string \<Rightarrow> version_row option" where
  "get_held r user i = find_row v_id i (map snd (held_by r user))"

definition version_view :: "(int \<Rightarrow> string) \<Rightarrow> (int \<Rightarrow> string) \<Rightarrow> (codepoints \<Rightarrow> string) \<Rightarrow> version_row \<Rightarrow> json" where
  "version_view day_text instant_text str_text v =
     JObj [(''dataset_id'', JStr (v_id v)), (''identity'', identity_json (v_identity v)),
           (''licence'', JObj [(''personal_use_only'', JBool (v_personal_use_only v)),
                               (''redistribution_allowed'', JBool (v_redistribution_allowed v))]),
           (''point_in_time'', JBool (v_point_in_time v)),
           (''coverage'', JObj [(''start'', JStr (day_text (v_coverage_start v))), (''end'', JStr (day_text (v_coverage_end v)))]),
           (''symbols'', JArr (map (\<lambda>s. JStr (str_text s)) (v_symbols v))),
           (''tables'', JObj (map (\<lambda>(n, m). (n, JObj [(''rows'', case jget m ''rows'' of Some x \<Rightarrow> x | None \<Rightarrow> JNull)])) (v_tables v))),
           (''blob'', JObj [(''format'', JStr (v_blob_format v)), (''sha256'', JStr (v_blob_sha v)), (''size'', JInt (int (v_blob_size v)))]),
           (''provider_client'', JStr (v_client v)), (''request'', v_request v), (''retrieved_at'', JStr (instant_text (v_retrieved v)))]"

definition finalize_snapshot_job ::
  "codec \<Rightarrow> store \<Rightarrow> files \<Rightarrow> (version_row \<Rightarrow> json) \<Rightarrow> string \<Rightarrow> string \<Rightarrow> int \<Rightarrow> snapshot \<Rightarrow> json \<Rightarrow> registry_db session
     \<Rightarrow> registry_db session \<times> (registry_error + (json \<times> string option))" where
  "finalize_snapshot_job z st fs shown job user now sn unavailable db =
     (case register_snapshot z st fs job user now sn db of
        (db1, Inl e) \<Rightarrow> (db1, Inl e)
      | (db1, Inr vs) \<Rightarrow>
          (db1, Inr (JObj [(''datasets'', JArr (map shown vs)), (''unavailable'', unavailable)],
                     case vs of [] \<Rightarrow> None | v # _ \<Rightarrow> Some (v_id v))))"

section \<open>What registering keeps\<close>

definition registry_inv :: "registry_db \<Rightarrow> bool" where
  "registry_inv r \<longleftrightarrow> distinct (map v_id (rg_versions r)) \<and> distinct (map holding_key (rg_holdings r))
     \<and> h_dataset ` set (rg_holdings r) \<subseteq> v_id ` set (rg_versions r)"

lemma insert_absent_keys: "distinct (map key rs) \<Longrightarrow> distinct (map key (insert_absent key r rs))"
  by (auto simp: insert_absent_def find_row_None)

lemma insert_absent_prefix: "\<exists>qs. insert_absent key r rs = rs @ qs"
  by (simp add: insert_absent_def)

lemma insert_absent_mem: "key r \<in> key ` set (insert_absent key r rs)"
  by (auto simp: insert_absent_def find_row_None)

lemma register_step:
  assumes "registry_inv (working db)" "register z d s user request client retrieved job now db = (db', r)"
  shows "registry_inv (working db') \<and> committed db' = committed db
    \<and> (\<exists>vs. rg_versions (working db') = rg_versions (working db) @ vs)
    \<and> (\<exists>hs. rg_holdings (working db') = rg_holdings (working db) @ hs)"
proof (cases "describe z d s request client retrieved now")
  case (Inl e)
  then show ?thesis using assms by (auto simp: register_def)
next
  case (Inr row)
  let ?vs = "insert_absent v_id row (rg_versions (working db))"
  let ?h = "\<lparr>h_user = user, h_dataset = v_id row, h_job = job, h_created = now\<rparr>"
  have vs: "distinct (map v_id ?vs)" "v_id row \<in> v_id ` set ?vs" "\<exists>qs. ?vs = rg_versions (working db) @ qs"
    using assms(1) insert_absent_keys insert_absent_mem insert_absent_prefix by (auto simp: registry_inv_def)
  have hs: "h_dataset ` set (insert_absent holding_key ?h (rg_holdings (working db))) \<subseteq> v_id ` set ?vs"
    using assms(1) vs(2,3) by (auto simp: registry_inv_def insert_absent_def)
  have old: "h_dataset ` set (rg_holdings (working db)) \<subseteq> v_id ` set ?vs"
    using assms(1) vs(3) by (auto simp: registry_inv_def)
  let ?r1 = "working db\<lparr>rg_versions := ?vs\<rparr>"
  let ?r2 = "?r1\<lparr>rg_holdings := insert_absent holding_key ?h (rg_holdings (working db))\<rparr>"
  have "registry_inv ?r1" using assms(1) vs(1) old by (simp add: registry_inv_def)
  moreover have "registry_inv ?r2"
    using assms(1) vs(1) hs insert_absent_keys [of holding_key "rg_holdings (working db)" ?h] by (simp add: registry_inv_def)
  moreover have "committed db' = committed db \<and> (working db' = ?r1 \<or> working db' = ?r2)"
    using assms(2) Inr unfolding register_def Let_def by (auto split: option.splits if_splits)
  moreover have "\<exists>qs. rg_versions ?r1 = rg_versions (working db) @ qs" "\<exists>qs. rg_versions ?r2 = rg_versions (working db) @ qs"
    "\<exists>qs. rg_holdings ?r1 = rg_holdings (working db) @ qs" "\<exists>qs. rg_holdings ?r2 = rg_holdings (working db) @ qs"
    using vs(3) insert_absent_prefix [of holding_key ?h "rg_holdings (working db)"] by simp_all
  ultimately show ?thesis by metis
qed

definition grows :: "registry_db session \<Rightarrow> registry_db session \<Rightarrow> bool" where
  "grows db db' \<longleftrightarrow> registry_inv (working db') \<and> committed db' = committed db
    \<and> (\<exists>vs. rg_versions (working db') = rg_versions (working db) @ vs)
    \<and> (\<exists>hs. rg_holdings (working db') = rg_holdings (working db) @ hs)"

lemma grows_refl: "registry_inv (working db) \<Longrightarrow> grows db db"
  by (simp add: grows_def)

lemma grows_trans: "grows a b \<Longrightarrow> grows b c \<Longrightarrow> grows a c"
  by (auto simp: grows_def)

lemma register_grows: "registry_inv (working db) \<Longrightarrow> grows db (fst (register z d s user request client retrieved job now db))"
  using register_step [of db z d s user request client retrieved job now] unfolding grows_def
  by (metis prod.collapse)

lemma register_items_grows: "registry_inv (working db) \<Longrightarrow> grows db (fst (register_items z st fs job user now sn items db))"
proof (induction z st fs job user now sn items db rule: register_items.induct)
  case (1 z st fs job user now sn db)
  then show ?case by (simp add: grows_refl)
next
  case (2 z st fs job user now sn i sha items db)
  show ?case
  proof (cases "verified z st fs i (Some sha)")
    case (Inl e)
    then show ?thesis using 2 by (simp add: grows_refl)
  next
    case (Inr p)
    obtain d s where p: "p = (d, s)" by (cases p)
    let ?r = "register z d s user (sn_request sn) (sn_client sn) (sn_retrieved sn) (Some job) now db"
    have g: "grows db (fst ?r)" using register_grows 2(2) .
    show ?thesis
    proof (cases "snd ?r")
      case (Inl e)
      then show ?thesis using g Inr p by (cases ?r) auto
    next
      case v: (Inr v)
      have "grows (fst ?r) (fst (register_items z st fs job user now sn items (fst ?r)))"
        using 2(1) [OF Inr [unfolded p] refl surjective_pairing [of ?r, symmetric] v] g by (simp add: grows_def)
      from grows_trans [OF g this] show ?thesis using v Inr p
        by (cases ?r) (auto split: prod.splits sum.splits)
    qed
  qed
qed

lemma register_snapshots_grows: "registry_inv (working db) \<Longrightarrow> grows db (fst (register_snapshots z st fs job user now sns db))"
proof (induction sns arbitrary: db)
  case Nil
  then show ?case by (simp add: grows_refl)
next
  case (Cons sn sns)
  have g: "grows db (fst (register_snapshot z st fs job user now sn db))"
    using register_items_grows Cons(2) by (simp add: register_snapshot_def)
  then have "registry_inv (working (fst (register_snapshot z st fs job user now sn db)))" by (simp add: grows_def)
  from grows_trans [OF g Cons(1) [OF this]] g show ?case
    by (cases "register_snapshot z st fs job user now sn db") (auto split: sum.splits)
qed

lemma record_market_data_grows:
  "registry_inv (working db) \<Longrightarrow> grows db (fst (record_market_data z st fs job user now report result audit db))"
proof (cases report)
  case (Some r)
  assume "registry_inv (working db)"
  from register_snapshots_grows [OF this, of z st fs job user now "mr_snapshots r"] show ?thesis
    by (cases "register_snapshots z st fs job user now (mr_snapshots r) db")
      (auto simp: record_market_data_def Some Let_def split: option.splits)
qed (simp add: record_market_data_def grows_refl)

text \<open>The transactions on the registry: the two job finalizers, each with the files as the job finds them, and their ends.\<close>

datatype registry_op =
    Record_data files string string int "market_report option"
  | Record_snapshot files string string int snapshot
  | Registry_commit
  | Registry_rollback

fun registry_step :: "codec \<Rightarrow> store \<Rightarrow> registry_op \<Rightarrow> registry_db session \<Rightarrow> registry_db session" where
  "registry_step z st (Record_data fs job user now report) db = fst (record_market_data z st fs job user now report [] [] db)"
| "registry_step z st (Record_snapshot fs job user now sn) db = fst (register_snapshot z st fs job user now sn db)"
| "registry_step z st Registry_commit db = commit db"
| "registry_step z st Registry_rollback db = rollback db"

definition registry_session_inv :: "registry_db session \<Rightarrow> bool" where
  "registry_session_inv db \<longleftrightarrow> registry_inv (committed db) \<and> registry_inv (working db)"

text \<open>A user holds a dataset that has exactly this row.\<close>

definition holds :: "string \<times> version_row \<Rightarrow> registry_db \<Rightarrow> bool" where
  "holds k r \<longleftrightarrow> snd k \<in> set (rg_versions r) \<and> (fst k, v_id (snd k)) \<in> holding_key ` set (rg_holdings r)"

definition holds_for_good :: "string \<times> version_row \<Rightarrow> registry_db session \<Rightarrow> bool" where
  "holds_for_good k db \<longleftrightarrow> holds k (committed db) \<and> holds k (working db)"

lemma grows_keeps:
  assumes "grows db db'"
  shows "registry_session_inv db \<Longrightarrow> registry_session_inv db'" "holds_for_good k db \<Longrightarrow> holds_for_good k db'"
  using assms by (auto simp: grows_def registry_session_inv_def holds_for_good_def holds_def)

lemma registry_step_grows:
  assumes "registry_session_inv db"
  shows "registry_step z st p db = commit db \<or> registry_step z st p db = rollback db \<or> grows db (registry_step z st p db)"
  using assms record_market_data_grows register_items_grows
  by (cases p) (auto simp: registry_session_inv_def register_snapshot_def)

interpretation registry: sealed_machine "registry_step z st" registry_session_inv "\<lambda>_ _. True" holds_for_good for z st
proof
  fix db p
  assume inv: "registry_session_inv db"
  show "registry_session_inv (registry_step z st p db)"
    using registry_step_grows [OF inv, of z st p] inv grows_keeps(1) by (auto simp: registry_session_inv_def)
  fix k
  assume h: "holds_for_good k db"
  show "holds_for_good k (registry_step z st p db)"
    using registry_step_grows [OF inv, of z st p] h grows_keeps(2) [of db "registry_step z st p db" k] by (auto simp: holds_for_good_def)
qed

lemma held_rows: "(h, v) \<in> set (held_by r user) \<longleftrightarrow> h \<in> set (rg_holdings r) \<and> h_user h = user
    \<and> v \<in> set (rg_versions r) \<and> v_id v = h_dataset h"
  by (auto simp: held_by_def)

lemma holds_found:
  assumes "registry_inv r" "holds (user, v) r"
  shows "get_held r user (v_id v) = Some v"
proof -
  obtain h where "(h, v) \<in> set (held_by r user)" using assms(2) by (auto simp: holds_def holding_key_def held_rows)
  then have v: "v \<in> snd ` set (held_by r user)" by force
  then obtain w where w: "get_held r user (v_id v) = Some w"
    using find_row_None [of v_id "v_id v" "map snd (held_by r user)"] by (auto simp: get_held_def)
  then have "w \<in> snd ` set (held_by r user)" "v_id w = v_id v"
    using find_row_Some [of v_id "v_id v" "map snd (held_by r user)" w] by (auto simp: get_held_def)
  then have "w = v" using assms(1) v held_rows
    by (auto simp: registry_inv_def distinct_map dest!: inj_onD)
  then show ?thesis using w by simp
qed

lemma recorded_is_held:
  assumes "registry_inv (working db)" "record_market_data z st fs job user now (Some r) result audit db = (db1, Inr out)"
    and "i \<in> set (mr_datasets r)"
  shows "\<exists>v. v_id v = i \<and> holds (user, v) (working db1)"
proof -
  have "i \<in> h_dataset ` {h \<in> set (rg_holdings (working db1)). h_user h = user}"
    using assms(2,3) by (fastforce simp: record_market_data_def Let_def split: prod.splits option.splits if_splits)
  then obtain h where h: "h \<in> set (rg_holdings (working db1))" "h_user h = user" "h_dataset h = i" by blast
  moreover have "registry_inv (working db1)"
    using record_market_data_grows [OF assms(1), of z st fs job user now "Some r" result audit] assms(2) by (simp add: grows_def)
  ultimately obtain v where "v \<in> set (rg_versions (working db1))" "v_id v = i" by (auto simp: registry_inv_def)
  then show ?thesis using h by (force simp: holds_def holding_key_def)
qed

text \<open>
  C24: a research result names datasets its user can always read. When the finalizer accepts a job's report and
  the transaction is committed, every dataset the result names has a row that the user of the job, whatever is registered,
  committed or rolled back afterwards by any job, finds unchanged.
\<close>

theorem used_datasets_stay_held:
  assumes "registry_session_inv db"
    and "record_market_data z st fs job user now (Some r) result audit db = (db1, Inr (result1, audit1))"
    and "i \<in> set (mr_datasets r)"
  shows "\<exists>v. v_id v = i \<and> (\<forall>ops. get_held (committed (fold (registry_step z st) ops (commit db1))) user i = Some v)"
proof -
  obtain v where v: "v_id v = i" "holds (user, v) (working db1)"
    using recorded_is_held [OF _ assms(2,3)] assms(1) by (auto simp: registry_session_inv_def)
  have "grows db db1"
    using record_market_data_grows [of db z st fs job user now "Some r" result audit] assms(1,2) by (simp add: registry_session_inv_def)
  then have inv: "registry_session_inv (commit db1)" using grows_keeps(1) [of db db1] assms(1) by (simp add: registry_session_inv_def)
  have s: "holds_for_good (user, v) (commit db1)" using v(2) by (simp add: holds_for_good_def)
  have "get_held (committed (fold (registry_step z st) ops (commit db1))) user i = Some v" for ops
    using registry.inv_run [OF inv admissible_True] registry.sealed_run [OF inv admissible_True s] v(1) holds_found
    by (metis holds_for_good_def registry_session_inv_def)
  then show ?thesis using v(1) by blast
qed

section \<open>A row describes the bytes of the store\<close>

lemma register_version:
  assumes "register z d s user request client retrieved job now db = (db', Inr v)"
  shows "v_id v = so_id s \<and> v_blob_sha v = so_sha s \<and> v_blob_size v = so_size s \<and> v \<in> set (rg_versions (working db'))"
proof -
  obtain row where row: "describe z d s request client retrieved now = Inr row"
    using assms by (cases "describe z d s request client retrieved now") (auto simp: register_def)
  have "v_id row = so_id s \<and> v_blob_sha row = so_sha s \<and> v_blob_size row = so_size s"
    using row by (auto simp: describe_def split: if_splits option.splits prod.splits)
  then show ?thesis
    using assms row by (auto simp: register_def Let_def split: option.splits if_splits dest: find_row_Some)
qed

lemma register_items_describe:
  assumes "registry_inv (working db)" "register_items z st fs job user now sn items db = (db', Inr vs)"
  shows "map v_id vs = map fst items \<and> (\<forall>v \<in> set vs. v \<in> set (rg_versions (working db')) \<and> (\<exists>path b d.
    path_for st (v_id v) = Some path \<and> fs path = Some b \<and> v_blob_sha v = sha256 z b \<and> v_blob_size v = length b
    \<and> decode_blob z (st_max st) b (v_id v) = Some d))"
  using assms
proof (induction items arbitrary: db vs)
  case (Cons item items)
  obtain i sha where item: "item = (i, sha)" by (cases item)
  obtain d s where ver: "verified z st fs i (Some sha) = Inr (d, s)"
    using Cons(3) item by (cases "verified z st fs i (Some sha)") auto
  let ?r = "register z d s user (sn_request sn) (sn_client sn) (sn_retrieved sn) (Some job) now db"
  obtain db1 v vs' where r: "?r = (db1, Inr v)" "register_items z st fs job user now sn items db1 = (db', Inr vs')" "vs = v # vs'"
    using Cons(3) item ver by (auto split: prod.splits sum.splits)
  have g: "grows db db1" using register_grows [OF Cons(2)] r(1) by (metis fst_conv)
  then have inv: "registry_inv (working db1)" by (simp add: grows_def)
  have "grows db1 db'" using register_items_grows [OF inv, of z st fs job user now sn items] r(2) by simp
  then have v: "v \<in> set (rg_versions (working db'))" using register_version [OF r(1)] by (auto simp: grows_def)
  have "\<exists>path b. path_for st i = Some path \<and> fs path = Some b \<and> decode_blob z (st_max st) b i = Some d
      \<and> s = described z i path b"
    using ver by (auto simp: verified_def read_blob_def split: option.splits sum.splits if_splits)
  then show ?case using Cons(1) [OF inv r(2)] v register_version [OF r(1)] item r(3) by (auto simp: described_def)
qed simp

text \<open>
  A registered row describes bytes that exist. Every row that registering a snapshot returns is in the table, has the id
  the job reported, and records the hash and size of a file at that id's path which decodes under the id, also
  when the row was written by an earlier registration.
\<close>

theorem registered_rows_describe_stored_bytes:
  assumes "registry_inv (working db)" "register_snapshot z st fs job user now sn db = (db', Inr vs)"
  shows "map v_id vs = map fst (sn_items sn) \<and> (\<forall>v \<in> set vs. v \<in> set (rg_versions (working db')) \<and> (\<exists>path b d.
    path_for st (v_id v) = Some path \<and> fs path = Some b \<and> v_blob_sha v = sha256 z b \<and> v_blob_size v = length b
    \<and> decode_blob z (st_max st) b (v_id v) = Some d))"
  using register_items_describe assms by (simp add: register_snapshot_def)

section \<open>Concrete inputs\<close>

definition demo_version :: version_row where
  "demo_version = \<lparr>v_id = zeros_id, v_identity = ds_identity demo_dataset, v_personal_use_only = True,
     v_redistribution_allowed = False, v_point_in_time = False, v_coverage_start = 1, v_coverage_end = 2, v_symbols = [[65]],
     v_manifest = [], v_tables = [], v_blob_format = BLOB_FORMAT, v_blob_sha = zeros, v_blob_size = 10, v_client = ''c'',
     v_request = JNull, v_retrieved = 0, v_created = 0\<rparr>"

definition demo_registry :: registry_db where
  "demo_registry = \<lparr>rg_versions = [demo_version],
     rg_holdings = [\<lparr>h_user = ''u'', h_dataset = zeros_id, h_job = None, h_created = 0\<rparr>]\<rparr>"

definition demo_report :: market_report where
  "demo_report = \<lparr>mr_snapshots = [], mr_datasets = [zeros_id], mr_source = JStr ''dataset'', mr_unavailable = JObj []\<rparr>"

lemma demo_registry_inv: "registry_session_inv (fresh_session demo_registry)"
  by (simp add: registry_session_inv_def registry_inv_def demo_registry_def demo_version_def)

theorem used_datasets_stay_held_witness:
  "let db = fresh_session demo_registry;
       (db1, out) = record_market_data file_codec demo_store (\<lambda>_. None) ''job'' ''u'' 5 (Some demo_report) [] [] db
   in (\<exists>result audit. out = Inr (result, audit)) \<and> (\<exists>v. get_held (committed (fold (registry_step file_codec demo_store)
        [Record_data (\<lambda>_. None) ''j2'' ''u2'' 6 (Some demo_report), Registry_commit] (commit db1))) ''u'' zeros_id = Some v)"
proof -
  let ?db = "fresh_session demo_registry"
  let ?m = "JObj [(''source'', JStr ''dataset''), (''datasets'', JArr [JStr zeros_id]), (''unavailable'', JObj [])]"
  have r: "record_market_data file_codec demo_store (\<lambda>_. None) ''job'' ''u'' 5 (Some demo_report) [] [] ?db
      = (?db, Inr ([(''market_data'', ?m)], [(''datasets'', JArr [JStr zeros_id])]))"
    by (auto simp: record_market_data_def demo_report_def demo_registry_def Let_def)
  obtain v where "\<forall>ops. get_held (committed (fold (registry_step file_codec demo_store) ops (commit ?db))) ''u'' zeros_id = Some v"
    using used_datasets_stay_held [OF demo_registry_inv r, of zeros_id] by (auto simp: demo_report_def)
  then show ?thesis unfolding r Let_def prod.case by blast
qed

text \<open>A dataset of one bar, stored and registered.\<close>

definition bar_schema :: table_schema where
  "bar_schema = \<lparr>s_name = ''bars'', s_columns = [col ''symbol'' Utf8 False, col ''session_date'' Date32 False],
     s_key = [''symbol'', ''session_date'']\<rparr>"

definition bar_table :: tab where
  "bar_table = \<lparr>tb_schema = bar_schema, tb_columns = [(''symbol'', Texts [Some [65]]), (''session_date'', Words [7])]\<rparr>"

definition bar_dataset :: dataset where
  "bar_dataset = \<lparr>ds_identity = (ds_identity demo_dataset)\<lparr>id_licence := ''yahoo-personal-use''\<rparr>, ds_tables = [bar_table]\<rparr>"

lemma bar_cells: "date32_column (M8D [7]) = Some (Words [7])" "7 \<noteq> NAT"
  by (simp_all add: date32_column_def int32_day_def NAT_def)

lemma bar_normalise:
  "normalise_all (s_columns bar_schema) [(''symbol'', Objs [PText [65]]), (''session_date'', M8D [7])]
   = Some [(''symbol'', Texts [Some [65]]), (''session_date'', Words [7])]"
  by (simp add: bar_schema_def bar_cells normalise_all_def normalise_def utf8_column_def text_item_def utf8_encode_def
      utf8_valid_def surrogate_def)

lemma bar_build: "build bar_schema [(''symbol'', Objs [PText [65]]), (''session_date'', M8D [7])] = Some bar_table"
proof -
  have keys: "set (dict_keys [(''symbol'', Objs [PText [65]]), (''session_date'', M8D [7])]) = set (map c_name (s_columns bar_schema))"
    by (simp add: dict_keys_def bar_schema_def del: set_dict_keys)
  have present: "\<not> list_ex (\<lambda>(c, x, a). \<not> c_nullable c \<and> list_ex id (missing c a))
      (zip (s_columns bar_schema) [(''symbol'', Texts [Some [65]]), (''session_date'', Words [7])])"
    using bar_cells(2) by (simp add: bar_schema_def missing_word_def)
  have "build bar_schema [(''symbol'', Objs [PText [65]]), (''session_date'', M8D [7])]
      = Some \<lparr>tb_schema = bar_schema, tb_columns = map (\<lambda>(x, a). (x, reorder [0] a)) (tb_columns bar_table)\<rparr>"
    unfolding build_def bar_normalise Let_def bar_table_def
    by (simp only: keys present simp_thms if_False if_True option.case) simp
  then show ?thesis by (simp add: bar_table_def)
qed

lemma bar_dataset_ok: "dataset_ok bar_dataset"
proof -
  have "schema_ok bar_schema" by (simp add: schema_ok_def bar_schema_def NAME_def lower_char_def)
  from build_well_formed [OF this bar_build] have "table_ok bar_table" by simp
  then show ?thesis
    by (simp add: dataset_ok_def bar_dataset_def demo_dataset_def identity_ok_def identity_fields_def TOKEN_def lower_char_def
        upper_char_def digit_char_def table_names_def)
qed

lemma bar_encoded:
  "encode_cells (col ''symbol'' Utf8 False) (Texts [Some [65]]) = Some [1, 0, 0, 0, 0, 0, 0, 0, 65]"
  "encode_cells (col ''session_date'' Date32 False) (Words [7]) = Some [7, 0, 0, 0]"
proof -
  have "le_bytes 8 1 = [1, 0, 0, 0, 0, 0, 0, 0]" by (simp add: le_bytes_numeral)
  then show "encode_cells (col ''symbol'' Utf8 False) (Texts [Some [65]]) = Some [1, 0, 0, 0, 0, 0, 0, 0, 65]"
    by (simp add: text_row_def utf8_encode_def utf8_valid_def surrogate_def utf8_char_def pack_Q_def)
  have "le_bytes 4 7 = [7, 0, 0, 0]" by (simp add: le_bytes_numeral)
  then show "encode_cells (col ''session_date'' Date32 False) (Words [7]) = Some [7, 0, 0, 0]"
    by (simp add: wide_row_def missing_word_def NAT_def width_def)
qed

definition bar_parts :: "(column \<times> octets) list list" where
  "bar_parts = [[(col ''symbol'' Utf8 False, [1, 0, 0, 0, 0, 0, 0, 0, 65]), (col ''session_date'' Date32 False, [7, 0, 0, 0])]]"

lemma bar_columns: "map_opt encoded_columns (ds_tables bar_dataset) = Some bar_parts" "length (payload bar_parts) = 13"
  by (simp_all add: bar_dataset_def encoded_columns_def encoded_def schema_column_def find_row_def bar_table_def bar_schema_def
      bar_encoded bar_parts_def payload_def del: encode_cells.simps)

lemma bar_id: "dataset_id (sha256 file_codec) bar_dataset = Some zeros_id"
  by (simp add: dataset_id_def dataset_manifest_def bar_dataset_def table_hash_def table_manifest_def column_manifest_def
      encoded_def schema_column_def find_row_def bar_table_def bar_schema_def bar_encoded jcs_json_def isascii_def
      utf8_encode_chars identity_json_def identity_fields_def demo_dataset_def MAX_SAFE_INTEGER_def table_len_def
      file_codec_def zeros_id_def del: encode_cells.simps json_text.simps)

lemma bar_header:
  "check_canonical (blob_header zeros_id bar_dataset bar_parts)"
  "text_bound (blob_header zeros_id bar_dataset bar_parts) \<le> 5000"
  by (simp_all add: blob_header_def bar_columns isascii_def MAX_SAFE_INTEGER_def identity_json_def identity_fields_def
      bar_dataset_def demo_dataset_def bar_parts_def table_spec_def column_spec_def bar_table_def bar_schema_def table_len_def
      BLOB_FORMAT_def type_name_def zeros_id_def zeros_def DATASET_SCHEME_def int_text_def digits_of.simps payload_def)

lemma bar_blob:
  "\<exists>b. encode_blob file_codec bar_dataset = Some b \<and> of_le (take 8 (drop 8 b)) \<le> MAX_HEADER \<and> length b \<le> 20000"
proof -
  let ?t = "canonical_text (blob_header zeros_id bar_dataset bar_parts)"
  have "length ?t \<le> 5000"
    using length_text_le [OF canonical_is_value [OF bar_header(1)], of False "\<lambda>_. []"] bar_header(2) by linarith
  then have h: "length (chars_utf8 ?t) \<le> 10000" using length_chars_utf8 [of ?t] by linarith
  have "jcs_json (blob_header zeros_id bar_dataset bar_parts) = Some (chars_utf8 ?t)"
    using bar_header(1) by (simp add: jcs_json_def utf8_encode_chars)
  then have "encode_blob file_codec bar_dataset
      = Some (BLOB_MAGIC @ le_bytes 8 (length (chars_utf8 ?t)) @ chars_utf8 ?t @ payload bar_parts)"
    using h bar_id by (simp add: encode_blob_def bar_columns pack_Q_def) (simp add: file_codec_def demo_codec_def)
  then show ?thesis using h by (simp add: BLOB_MAGIC_def of_le_le_bytes MAX_HEADER_def bar_columns)
qed

lemma bar_verified:
  obtains fs s where "verified file_codec demo_store fs zeros_id (Some zeros) = Inr (canon_dataset bar_dataset, s)"
    "so_id s = zeros_id" "so_sha s = zeros"
proof -
  obtain b where b: "encode_blob file_codec bar_dataset = Some b" "of_le (take 8 (drop 8 b)) \<le> MAX_HEADER" "length b \<le> 20000"
    using bar_blob by blast
  obtain path where path: "path_for demo_store zeros_id = Some path" using zeros_id_path by blast
  have "decode_blob file_codec (st_max demo_store) b zeros_id = Some (canon_dataset bar_dataset)"
    using decode_encoded [OF file_codec_law bar_dataset_ok b(1) bar_id b(2), of "st_max demo_store"]
    by (simp add: bar_columns demo_store_def)
  then show ?thesis
    using that [of "\<lambda>_. Some b" "described file_codec zeros_id path b"] path b(3)
    by (simp add: verified_def read_blob_def described_def demo_store_def file_codec_def)
qed

definition bar_snapshot :: snapshot where
  "bar_snapshot = \<lparr>sn_items = [(zeros_id, zeros)], sn_request = JNull, sn_client = ''c'', sn_retrieved = Some 9\<rparr>"

lemma canon_bar: "canon_dataset bar_dataset = bar_dataset"
  by (simp add: canon_dataset_def bar_dataset_def canon_table_def canon_columns_def bar_table_def bar_schema_def missing_word_def
      bar_cells)

lemma bar_documents:
  "\<exists>m ts. Option.bind (dataset_manifest (sha256 file_codec) bar_dataset) jcs_json = Some m
    \<and> map_opt (\<lambda>t. map_option (Pair (s_name (tb_schema t))) (table_manifest (sha256 file_codec) t)) (ds_tables bar_dataset) = Some ts"
  by (simp add: dataset_manifest_def bar_dataset_def table_hash_def table_manifest_def column_manifest_def
      encoded_def schema_column_def find_row_def bar_table_def bar_schema_def bar_encoded jcs_json_def isascii_def
      utf8_encode_chars identity_json_def identity_fields_def demo_dataset_def MAX_SAFE_INTEGER_def table_len_def
      file_codec_def del: encode_cells.simps json_text.simps)

lemma bar_bars: "dataset_table bar_dataset ''bars'' = Some bar_table" "table_len bar_table \<noteq> 0"
  "bars_coverage bar_table = Some ([7], [[65]])"
  by (simp_all add: dataset_table_def bar_dataset_def find_row_def bar_table_def bar_schema_def table_len_def bars_coverage_def
      schema_column_def)

lemma bar_described:
  assumes "so_id s = zeros_id"
  shows "\<exists>row. describe file_codec bar_dataset s request client (Some fetched) now = Inr row \<and> v_id row = zeros_id"
proof -
  have "dict_get LICENCES (id_licence (ds_identity bar_dataset)) \<noteq> None" by (simp add: LICENCES_def bar_dataset_def)
  then show ?thesis using assms bar_id bar_documents bar_bars by (auto simp: describe_def)
qed

theorem registered_rows_describe_stored_bytes_witness:
  "\<exists>fs db v path b. register_snapshot file_codec demo_store fs ''job'' ''u'' 5 bar_snapshot
      (fresh_session \<lparr>rg_versions = [], rg_holdings = []\<rparr>) = (db, Inr [v])
    \<and> path_for demo_store zeros_id = Some path \<and> fs path = Some b \<and> v_blob_sha v = sha256 file_codec b \<and> v_blob_size v = length b"
proof -
  let ?db = "fresh_session \<lparr>rg_versions = [], rg_holdings = []\<rparr> :: registry_db session"
  obtain fs s where s: "verified file_codec demo_store fs zeros_id (Some zeros) = Inr (bar_dataset, s)" "so_id s = zeros_id"
    using bar_verified canon_bar by metis
  obtain row where row: "describe file_codec bar_dataset s JNull ''c'' (Some 9) 5 = Inr row" "v_id row = zeros_id"
    using bar_described [OF s(2)] by blast
  have "\<exists>db. register_snapshot file_codec demo_store fs ''job'' ''u'' 5 bar_snapshot ?db = (db, Inr [row])"
    using s row by (simp add: register_snapshot_def bar_snapshot_def register_def insert_absent_def find_row_def Let_def)
  then obtain db where db: "register_snapshot file_codec demo_store fs ''job'' ''u'' 5 bar_snapshot ?db = (db, Inr [row])" ..
  have "registry_inv (working ?db)" by (simp add: registry_inv_def)
  from registered_rows_describe_stored_bytes [OF this db] show ?thesis using db row(2) by simp blast
qed

end
