(* ===== verification/Latency_Model.thy ===== *)
theory Latency_Model
  imports Json_Values
begin

text \<open>
  \<^verbatim>\<open>src/backend/services/latency_model.py\<close>: the four delays of an order's way to the
  exchange, the named presets and the comparison of results across presets. The fields of a result are floats;
  \<open>None\<close> as a sensitivity report is the answer \<^verbatim>\<open>no results provided\<close>.
\<close>

record latency_model =
  signal_ms :: pyfloat
  network_ms :: pyfloat
  processing_ms :: pyfloat
  exchange_ms :: pyfloat

definition total_latency_ms :: "latency_model \<Rightarrow> pyfloat" where
  "total_latency_ms m = fadd (fadd (fadd (signal_ms m) (network_ms m)) (processing_ms m)) (exchange_ms m)"

definition total_latency_seconds :: "latency_model \<Rightarrow> pyfloat" where
  "total_latency_seconds m = fdiv (total_latency_ms m) 1000"

definition apply_to_timestamp :: "latency_model \<Rightarrow> pyfloat \<Rightarrow> pyfloat" where
  "apply_to_timestamp m t = fadd t (total_latency_seconds m)"

definition latency_dict :: "latency_model \<Rightarrow> (string, pyfloat) dict" where
  "latency_dict m = [(''signal_ms'', signal_ms m), (''network_ms'', network_ms m), (''processing_ms'', processing_ms m),
     (''exchange_ms'', exchange_ms m), (''total_latency_ms'', pyround (total_latency_ms m) 4)]"

definition latency :: "rat \<Rightarrow> rat \<Rightarrow> rat \<Rightarrow> rat \<Rightarrow> latency_model" where
  "latency a b c d = \<lparr>signal_ms = fl a, network_ms = fl b, processing_ms = fl c, exchange_ms = fl d\<rparr>"

definition LATENCY_PRESETS :: "(string, latency_model) dict" where
  "LATENCY_PRESETS =
     [(''zero'', latency 0 0 0 0), (''colocated'', latency (5/100) (1/100) (2/100) (2/100)),
      (''datacenter'', latency (1/10) (2/10) (1/10) (1/10)), (''regional'', latency (2/10) 1 (3/10) (5/10)),
      (''cloud'', latency (5/10) 3 (5/10) 1), (''cross_region'', latency (5/10) 8 (5/10) 1),
      (''retail'', latency 1 30 5 14)]"

text \<open>\<open>None\<close>: the name is unknown (\<^verbatim>\<open>ValueError\<close>).\<close>

definition get_preset :: "string \<Rightarrow> latency_model option" where
  "get_preset name = dict_get LATENCY_PRESETS name"

record profile_row =
  pr_preset :: string
  pr_latency_ms :: pyfloat
  pr_sharpe :: pyfloat
  pr_return :: pyfloat
  pr_drawdown :: pyfloat
  pr_fill_rate :: pyfloat
  pr_degradation :: pyfloat

definition field_or_zero :: "(string, pyfloat) dict \<Rightarrow> string \<Rightarrow> pyfloat" where
  "field_or_zero r k = (case dict_get r k of Some x \<Rightarrow> x | None \<Rightarrow> 0)"

definition degradation :: "pyfloat \<Rightarrow> pyfloat \<Rightarrow> pyfloat" where
  "degradation baseline sharpe =
     (if baseline \<noteq> 0 then fmul (fdiv (fsub baseline sharpe) \<bar>baseline\<bar>) 100 else 0)"

definition profile :: "pyfloat \<Rightarrow> string \<Rightarrow> (string, pyfloat) dict \<Rightarrow> profile_row" where
  "profile baseline name r =
     \<lparr>pr_preset = name,
      pr_latency_ms = total_latency_ms (case dict_get LATENCY_PRESETS name of Some m \<Rightarrow> m | None \<Rightarrow> latency 0 0 0 0),
      pr_sharpe = pyround (field_or_zero r ''sharpe'') 4, pr_return = pyround (field_or_zero r ''total_return'') 4,
      pr_drawdown = pyround (field_or_zero r ''max_drawdown'') 4, pr_fill_rate = pyround (field_or_zero r ''fill_rate'') 4,
      pr_degradation = pyround (degradation baseline (field_or_zero r ''sharpe'')) 2\<rparr>"

definition latency_sensitivity_analysis ::
  "(string, (string, pyfloat) dict) dict \<Rightarrow> (string \<times> pyfloat \<times> profile_row list) option" where
  "latency_sensitivity_analysis results =
     (case results of
        [] \<Rightarrow> None
      | (p, r) # _ \<Rightarrow>
          (let baseline = field_or_zero (case dict_get results ''zero'' of Some z \<Rightarrow> z | None \<Rightarrow> r) ''sharpe''
           in Some (p, baseline, map (\<lambda>(name, r). profile baseline name r) results)))"

section \<open>Properties\<close>

definition latency_ok :: "latency_model \<Rightarrow> bool" where
  "latency_ok m \<longleftrightarrow> 0 \<le> signal_ms m \<and> 0 \<le> network_ms m \<and> 0 \<le> processing_ms m \<and> 0 \<le> exchange_ms m"

lemma total_latency_nonneg: "latency_ok m \<Longrightarrow> 0 \<le> total_latency_ms m"
  by (simp add: latency_ok_def total_latency_ms_def fadd_nonneg)

lemma preset_ok: "get_preset name = Some m \<Longrightarrow> latency_ok m"
  by (auto simp: get_preset_def LATENCY_PRESETS_def latency_def latency_ok_def fl_nonneg split: if_splits)

text \<open>A worse result is a non-negative degradation and a better one a non-positive one, whatever the baseline's sign.\<close>

lemma degradation_sign:
  "sharpe \<le> baseline \<Longrightarrow> 0 \<le> degradation baseline sharpe"
  "baseline \<le> sharpe \<Longrightarrow> degradation baseline sharpe \<le> 0"
proof -
  show "sharpe \<le> baseline \<Longrightarrow> 0 \<le> degradation baseline sharpe"
    by (simp add: degradation_def fmul_def fdiv_def fsub_nonneg fl_nonneg)
  assume "baseline \<le> sharpe"
  then have "fsub baseline sharpe \<le> 0" by (simp add: fsub_def fl_nonpos)
  then have "fdiv (fsub baseline sharpe) \<bar>baseline\<bar> \<le> 0" by (simp add: fdiv_def fl_nonpos divide_nonpos_nonneg)
  then show "degradation baseline sharpe \<le> 0" by (simp add: degradation_def fmul_def fl_nonpos)
qed

text \<open>The preset reported as the baseline is the first one given, also when the figures are relative to \<^verbatim>\<open>zero\<close>.\<close>

lemma reported_baseline_is_not_the_baseline:
  "\<exists>rows. latency_sensitivity_analysis [(''retail'', [(''sharpe'', 1)]), (''zero'', [(''sharpe'', 2)])] = Some (''retail'', 2, rows)"
  by (simp add: latency_sensitivity_analysis_def field_or_zero_def)

end
