(* ===== verification/Experiment_Registry.thy ===== *)
theory Experiment_Registry
  imports Audit_Chain Latency_Model
begin

text \<open>
  \<^verbatim>\<open>src/backend/services/experiment_registry.py\<close>: research experiments, their signed
  manifests, validation gates and approval. The text of a float, SHA-256, ML-DSA, the
  development HMAC, the parsing of numbers in strings, the commit and the dependency hash of the running code are fields
  of \<open>exp_env\<close>; clock reads and generated ids are arguments. A JSON value that is not a finite number compares like NaN. Parameters and results are
  objects, as the annotations say. The descriptions of the gates are left out, and so is \<^verbatim>\<open>run_strategy\<close>, whose outcome
  reaches this module as the job's execution.
\<close>

section \<open>Data\<close>

datatype exp_status = EXP_CREATED | EXP_RUNNING | EXP_COMPLETED | EXP_FAILED | EXP_VALIDATED | EXP_APPROVED

datatype exp_error = ExperimentErr | ManifestSigningErr | ExpTypeErr | ExpValueErr | ExpLookupErr | ExpIntegrityErr | ExpTaskErr nat

record gate =
  g_passed :: bool
  g_value :: "json option"
  g_threshold :: "rat option"

record gate_report =
  gr_id :: string
  gr_all :: bool
  gr_eligible :: bool
  gr_gates :: "(string, gate) dict"

record experiment_data =
  ex_id :: string
  ex_strategy :: string
  ex_version :: string
  ex_dataset_id :: string
  ex_dataset_hash :: string
  ex_parameter_hash :: string
  ex_commit :: string
  ex_seed :: int
  ex_execution_model :: string
  ex_latency_model :: string
  ex_status :: exp_status
  ex_created :: pyfloat
  ex_completed :: "pyfloat option"
  ex_strategy_hash :: string
  ex_lock_hash :: string
  ex_engine :: string
  ex_key :: "string option"
  ex_result_hash :: string
  ex_results :: "(string, json) dict"
  ex_gates :: "gate_report option"
  ex_signature :: string

record exp_row =
  xr_id :: string
  xr_user :: string
  xr_strategy :: string
  xr_version :: string
  xr_dataset_id :: string
  xr_dataset :: json
  xr_dataset_hash :: string
  xr_parameters :: "(string, json) dict"
  xr_parameter_hash :: string
  xr_commit :: string
  xr_seed :: int
  xr_execution_model :: string
  xr_latency_model :: string
  xr_status :: exp_status
  xr_result_hash :: string
  xr_results :: "(string, json) dict"
  xr_gates :: "gate_report option"
  xr_signature :: string
  xr_created :: int
  xr_completed :: "int option"
  xr_strategy_hash :: "string option"
  xr_lock_hash :: "string option"
  xr_engine :: "string option"
  xr_key :: "string option"
  xr_manifest :: "json option"
  xr_approved_by :: "string option"
  xr_approved_at :: "int option"

record exp_env =
  xe_sha :: "string \<Rightarrow> string"
  xe_float :: "pyfloat \<Rightarrow> string"
  xe_sign :: "string \<Rightarrow> string \<Rightarrow> string option"
  xe_verify :: "string \<Rightarrow> string \<Rightarrow> string \<Rightarrow> bool"
  xe_mac :: "string \<Rightarrow> string"
  xe_production :: bool
  xe_source :: string
  xe_commit :: string
  xe_lock :: string
  xe_float_of :: "string \<Rightarrow> pyfloat option option"
  xe_int_of :: "string \<Rightarrow> int option"

definition ENGINE_VERSION :: string where "ENGINE_VERSION = ''QS-L2-SIM-2''"
definition MANIFEST_VERSION :: int where "MANIFEST_VERSION = 2"
definition EXECUTABLE_STRATEGY_IDS :: "string list" where "EXECUTABLE_STRATEGY_IDS = [''obi_momentum'']"

definition exp_status_text :: "exp_status \<Rightarrow> string" where
  "exp_status_text s = (case s of EXP_CREATED \<Rightarrow> ''CREATED'' | EXP_RUNNING \<Rightarrow> ''RUNNING'' | EXP_COMPLETED \<Rightarrow> ''COMPLETED''
     | EXP_FAILED \<Rightarrow> ''FAILED'' | EXP_VALIDATED \<Rightarrow> ''VALIDATED'' | EXP_APPROVED \<Rightarrow> ''APPROVED'')"

definition opt_float :: "pyfloat option \<Rightarrow> json" where
  "opt_float x = (case x of Some y \<Rightarrow> JFloat y | None \<Rightarrow> JNull)"

text \<open>\<^verbatim>\<open>Experiment.to_dict\<close>, without the gates.\<close>

definition experiment_dict :: "experiment_data \<Rightarrow> (string, json) dict" where
  "experiment_dict x =
     [(''experiment_id'', JStr (ex_id x)), (''strategy_id'', JStr (ex_strategy x)),
      (''strategy_version'', JStr (ex_version x)), (''strategy_hash'', JStr (ex_strategy_hash x)),
      (''executable'', JBool (ex_strategy x \<in> set EXECUTABLE_STRATEGY_IDS)), (''dataset_id'', JStr (ex_dataset_id x)),
      (''dataset_hash'', JStr (ex_dataset_hash x)), (''parameter_hash'', JStr (ex_parameter_hash x)),
      (''code_commit'', JStr (ex_commit x)), (''dependency_lock_hash'', JStr (ex_lock_hash x)),
      (''execution_engine_version'', JStr (ex_engine x)), (''random_seed'', JInt (ex_seed x)),
      (''execution_model'', JStr (ex_execution_model x)), (''latency_model'', JStr (ex_latency_model x)),
      (''status'', JStr (exp_status_text (ex_status x))), (''created_at'', JFloat (ex_created x)),
      (''completed_at'', opt_float (ex_completed x)), (''result_hash'', JStr (ex_result_hash x)),
      (''has_signature'', JBool (ex_signature x \<noteq> []))]"

section \<open>Hashes\<close>

definition hash_json :: "exp_env \<Rightarrow> json \<Rightarrow> string" where
  "hash_json e v = xe_sha e (spaced_text (xe_float e) v)"

definition hash_dataset :: "exp_env \<Rightarrow> json \<Rightarrow> string" where
  "hash_dataset e v = hash_json e v"

definition hash_parameters :: "exp_env \<Rightarrow> json \<Rightarrow> string" where
  "hash_parameters e v = hash_json e v"

definition hash_results :: "exp_env \<Rightarrow> (string, json) dict \<Rightarrow> string" where
  "hash_results e d = hash_json e (JObj d)"

definition dataset_hash_of :: "exp_env \<Rightarrow> json \<Rightarrow> string" where
  "dataset_hash_of e v = (if v = JNull then [] else hash_dataset e v)"

definition strategy_code_hash :: "exp_env \<Rightarrow> string \<Rightarrow> string \<Rightarrow> string" where
  "strategy_code_hash e strategy version =
     (if strategy = ''obi_momentum'' then xe_sha e (''source:'' @ xe_source e)
      else xe_sha e (json_text True (xe_float e) (JObj [(''strategy_id'', JStr strategy), (''strategy_version'', JStr version)])))"

section \<open>Inputs of a platform strategy\<close>

definition OBI_DEFAULTS :: "(string, json) dict" where
  "OBI_DEFAULTS =
     [(''obi_threshold'', JFloat (fl (3/10))), (''events_per_bar'', JInt 50), (''snapshot_interval'', JInt 10),
      (''warmup_events'', JInt 50), (''order_quantity'', JFloat 100), (''order_style'', JStr ''aggressive''),
      (''cancel_after_events'', JNull), (''latency_preset'', JStr ''zero''), (''tick_size'', JFloat (fl (1/100)))]"

text \<open>\<^verbatim>\<open>{**d, **e}\<close>\<close>

definition dict_update :: "('k, 'v) dict \<Rightarrow> ('k, 'v) dict \<Rightarrow> ('k, 'v) dict" where
  "dict_update d e = fold (\<lambda>(k, v). dict_set k v) e d"

text \<open>\<^verbatim>\<open>float(v)\<close>: \<open>None\<close> inside is NaN. \<^verbatim>\<open>int(v)\<close> truncates.\<close>

definition py_float :: "exp_env \<Rightarrow> json \<Rightarrow> exp_error + pyfloat option" where
  "py_float e v =
     (case v of
        JBool b \<Rightarrow> Inr (Some (if b then 1 else 0))
      | JInt n \<Rightarrow> Inr (Some (fl (of_int n)))
      | JFloat x \<Rightarrow> Inr (Some x)
      | JNonFinite \<Rightarrow> Inr None
      | JStr s \<Rightarrow> (case xe_float_of e s of None \<Rightarrow> Inl ExpValueErr | Some x \<Rightarrow> Inr x)
      | _ \<Rightarrow> Inl ExpTypeErr)"

definition py_int :: "exp_env \<Rightarrow> json \<Rightarrow> exp_error + int" where
  "py_int e v =
     (case v of
        JBool b \<Rightarrow> Inr (if b then 1 else 0)
      | JInt n \<Rightarrow> Inr n
      | JFloat x \<Rightarrow> Inr (if 0 \<le> x then \<lfloor>x\<rfloor> else \<lceil>x\<rceil>)
      | JNonFinite \<Rightarrow> Inl ExpValueErr
      | JStr s \<Rightarrow> (case xe_int_of e s of None \<Rightarrow> Inl ExpValueErr | Some n \<Rightarrow> Inr n)
      | _ \<Rightarrow> Inl ExpTypeErr)"

definition field_of :: "(string, json) dict \<Rightarrow> string \<Rightarrow> json" where
  "field_of p k = (case dict_get p k of Some v \<Rightarrow> v | None \<Rightarrow> JNull)"

definition test :: "exp_error + 'a \<Rightarrow> ('a \<Rightarrow> bool) \<Rightarrow> exp_error option" where
  "test r good = (case r of Inl err \<Rightarrow> Some err | Inr x \<Rightarrow> if good x then None else Some ExperimentErr)"

fun first_error :: "exp_error option list \<Rightarrow> exp_error option" where
  "first_error [] = None"
| "first_error (Some err # es) = Some err"
| "first_error (None # es) = first_error es"

definition positive_or_nan :: "pyfloat option \<Rightarrow> bool" where
  "positive_or_nan x = (case x of Some y \<Rightarrow> 0 < y | None \<Rightarrow> True)"

definition obi_parameters :: "exp_env \<Rightarrow> (string, json) dict \<Rightarrow> exp_error + (string, json) dict" where
  "obi_parameters e parameters =
     (if \<not> set (dict_keys parameters) \<subseteq> set (dict_keys OBI_DEFAULTS) then Inl ExperimentErr
      else let p = dict_update OBI_DEFAULTS parameters in
           case first_error
             [test (py_float e (field_of p ''obi_threshold'')) (\<lambda>x. case x of Some y \<Rightarrow> 0 < y \<and> y < 1 | None \<Rightarrow> False),
              test (py_int e (field_of p ''events_per_bar'')) (\<lambda>n. 2 \<le> n \<and> n \<le> 500),
              test (py_float e (field_of p ''order_quantity'')) positive_or_nan,
              test (py_float e (field_of p ''tick_size'')) positive_or_nan,
              test (Inr (field_of p ''order_style'')) (\<lambda>s. s = JStr ''aggressive'' \<or> s = JStr ''passive''),
              (case field_of p ''latency_preset'' of
                 JStr s \<Rightarrow> if dict_get LATENCY_PRESETS s \<noteq> None then None else Some ExperimentErr
               | JArr xs \<Rightarrow> Some ExpTypeErr
               | JObj d \<Rightarrow> Some ExpTypeErr
               | _ \<Rightarrow> Some ExperimentErr)] of
             Some err \<Rightarrow> Inl err
           | None \<Rightarrow> Inr p)"

definition bar_complete :: "json \<Rightarrow> bool" where
  "bar_complete b = (case b of
     JObj d \<Rightarrow> set [''timestamp'', ''open'', ''high'', ''low'', ''close''] \<subseteq> set (dict_keys d) | _ \<Rightarrow> False)"

definition check_strategy_inputs :: "exp_env \<Rightarrow> string \<Rightarrow> json \<Rightarrow> (string, json) dict \<Rightarrow> exp_error + (string, json) dict" where
  "check_strategy_inputs e strategy dataset parameters =
     (if strategy \<notin> set EXECUTABLE_STRATEGY_IDS then Inl ExperimentErr
      else case obi_parameters e parameters of
             Inl err \<Rightarrow> Inl err
           | Inr p \<Rightarrow>
               (case dataset of
                  JArr bars \<Rightarrow>
                    if bars = [] \<or> 500 < length bars then Inl ExperimentErr
                    else if \<not> list_all bar_complete bars then Inl ExperimentErr
                    else (case py_int e (field_of p ''events_per_bar'') of
                            Inl err \<Rightarrow> Inl err
                          | Inr n \<Rightarrow> if 100000 < int (length bars) * n then Inl ExperimentErr else Inr p)
                | _ \<Rightarrow> Inl ExperimentErr))"

definition input_hashes :: "exp_env \<Rightarrow> json \<Rightarrow> (string, json) dict \<Rightarrow> int \<Rightarrow> json" where
  "input_hashes e dataset parameters seed =
     JObj [(''dataset_hash'', JStr (dataset_hash_of e dataset)), (''parameter_hash'', JStr (hash_parameters e (JObj parameters))),
           (''random_seed'', JInt seed)]"

section \<open>Manifests\<close>

definition build_manifest :: "experiment_data \<Rightarrow> json" where
  "build_manifest x =
     JObj [(''manifest_version'', JInt MANIFEST_VERSION), (''experiment_id'', JStr (ex_id x)),
           (''strategy_id'', JStr (ex_strategy x)), (''strategy_version'', JStr (ex_version x)),
           (''strategy_hash'', JStr (ex_strategy_hash x)), (''dataset_id'', JStr (ex_dataset_id x)),
           (''dataset_hash'', JStr (ex_dataset_hash x)), (''parameter_hash'', JStr (ex_parameter_hash x)),
           (''code_commit'', JStr (ex_commit x)), (''dependency_lock_hash'', JStr (ex_lock_hash x)),
           (''execution_engine_version'', JStr (ex_engine x)), (''random_seed'', JInt (ex_seed x)),
           (''execution_model'', JStr (ex_execution_model x)), (''latency_model'', JStr (ex_latency_model x)),
           (''result_hash'', JStr (ex_result_hash x)), (''created_at'', JFloat (ex_created x)),
           (''completed_at'', opt_float (ex_completed x)), (''signing_key_id'', opt_str (ex_key x))]"

text \<open>\<^verbatim>\<open>_MANIFEST_BOUND_FIELDS\<close> with the experiment's values.\<close>

definition bound_fields :: "experiment_data \<Rightarrow> (string, json) dict" where
  "bound_fields x =
     [(''experiment_id'', JStr (ex_id x)), (''strategy_id'', JStr (ex_strategy x)),
      (''strategy_version'', JStr (ex_version x)), (''strategy_hash'', JStr (ex_strategy_hash x)),
      (''dataset_id'', JStr (ex_dataset_id x)), (''dataset_hash'', JStr (ex_dataset_hash x)),
      (''parameter_hash'', JStr (ex_parameter_hash x)), (''code_commit'', JStr (ex_commit x)),
      (''dependency_lock_hash'', JStr (ex_lock_hash x)), (''random_seed'', JInt (ex_seed x)),
      (''execution_model'', JStr (ex_execution_model x)), (''latency_model'', JStr (ex_latency_model x)),
      (''result_hash'', JStr (ex_result_hash x))]"

definition manifest_text :: "exp_env \<Rightarrow> json \<Rightarrow> string" where
  "manifest_text e m = json_text True (xe_float e) m"

definition DSA_PREFIX :: string where "DSA_PREFIX = ''ml-dsa:''"
definition MAC_PREFIX :: string where "MAC_PREFIX = ''hmac-sha256:''"

text \<open>\<open>fresh\<close>: the key pair generated when the process has none yet. \<open>None\<close> of \<open>xe_sign\<close>: signing raised.\<close>

definition sign_manifest ::
  "exp_env \<Rightarrow> string \<times> string \<times> string \<times> int \<Rightarrow> identity \<Rightarrow> json \<Rightarrow> identity \<times> (exp_error + string)" where
  "sign_manifest e fresh i m =
     (let i1 = (if i_sk i = None then ensure_keypair (xe_sha e) fresh i else i) in
      (i1, case xe_sign e (the (i_sk i1)) (manifest_text e m) of
             Some sig \<Rightarrow> Inr (DSA_PREFIX @ sig)
           | None \<Rightarrow> if xe_production e then Inl ManifestSigningErr else Inr (MAC_PREFIX @ xe_mac e (manifest_text e m))))"

text \<open>\<open>keys\<close> is \<open>None\<close> when no database is given.\<close>

definition manifest_public_key :: "identity \<Rightarrow> key_row list option \<Rightarrow> string option \<Rightarrow> string option" where
  "manifest_public_key i keys key =
     (case (if given key then Option.bind keys (find_row sk_id (the key)) else None) of
        Some r \<Rightarrow> Some (sk_public r)
      | None \<Rightarrow> if \<not> given key \<or> key = i_key i then i_pk i else None)"

definition manifest_key :: "json \<Rightarrow> string option" where
  "manifest_key m = (case jget m ''signing_key_id'' of Some (JStr k) \<Rightarrow> Some k | _ \<Rightarrow> None)"

definition verify_manifest_signature :: "exp_env \<Rightarrow> identity \<Rightarrow> key_row list option \<Rightarrow> json \<Rightarrow> string \<Rightarrow> bool" where
  "verify_manifest_signature e i keys m signature =
     (if signature = [] then False
      else if take (length MAC_PREFIX) signature = MAC_PREFIX
      then \<not> xe_production e \<and> signature = MAC_PREFIX @ xe_mac e (manifest_text e m)
      else if take (length DSA_PREFIX) signature = DSA_PREFIX
      then (case manifest_public_key i keys (manifest_key m) of
              None \<Rightarrow> False
            | Some pk \<Rightarrow> xe_verify e pk (manifest_text e m) (drop (length DSA_PREFIX) signature))
      else False)"

section \<open>Validation gates\<close>

fun json_true :: "json \<Rightarrow> bool" where
  "json_true JNull = False"
| "json_true (JBool b) = b"
| "json_true (JInt n) = (n \<noteq> 0)"
| "json_true (JFloat x) = (x \<noteq> 0)"
| "json_true JNonFinite = True"
| "json_true (JStr s) = (s \<noteq> [])"
| "json_true (JArr xs) = (xs \<noteq> [])"
| "json_true (JObj d) = (d \<noteq> [])"

text \<open>A comparison with a number; \<open>None\<close>: \<^verbatim>\<open>TypeError\<close>.\<close>

definition compare :: "json \<Rightarrow> (rat \<Rightarrow> bool) \<Rightarrow> bool option" where
  "compare v good = (if v = JNonFinite then Some False else map_option good (jnumber v))"

definition nested :: "(string, json) dict \<Rightarrow> string \<Rightarrow> string \<Rightarrow> json \<Rightarrow> json option" where
  "nested r k f dflt =
     (case dict_get r k of
        None \<Rightarrow> Some dflt
      | Some (JObj d) \<Rightarrow> Some (case dict_get d f of Some v \<Rightarrow> v | None \<Rightarrow> dflt)
      | Some _ \<Rightarrow> None)"

definition limit_gate :: "json \<Rightarrow> (rat \<Rightarrow> bool) \<Rightarrow> rat \<Rightarrow> gate option" where
  "limit_gate v good threshold = map_option (\<lambda>b. \<lparr>g_passed = b, g_value = Some v, g_threshold = Some threshold\<rparr>) (compare v good)"

definition flag_gate :: "bool \<Rightarrow> gate" where
  "flag_gate b = \<lparr>g_passed = b, g_value = None, g_threshold = None\<rparr>"

definition execution_gates :: "(string, json) dict \<Rightarrow> (string, gate) dict option" where
  "execution_gates r =
     Option.bind (nested r ''portfolio'' ''total_pnl'' (JFloat 0)) (\<lambda>pnl.
     Option.bind (nested r ''execution_metrics'' ''fill_ratio'' (JFloat 0)) (\<lambda>fill_ratio.
     Option.bind (nested r ''implementation_shortfall'' ''total_is_bps'' JNonFinite) (\<lambda>is_bps.
     Option.bind (limit_gate pnl (\<lambda>x. 0 < x) 0) (\<lambda>g1.
     Option.bind (limit_gate fill_ratio (\<lambda>x. 1/2 \<le> x) (1/2)) (\<lambda>g2.
     Option.bind (limit_gate is_bps (\<lambda>x. x \<le> 25) 25) (\<lambda>g3.
     Some [(''net_pnl'', g1), (''fill_ratio'', g2), (''implementation_shortfall'', g3)]))))))"

definition get_or :: "(string, json) dict \<Rightarrow> string \<Rightarrow> json \<Rightarrow> json" where
  "get_or r k dflt = (case dict_get r k of Some v \<Rightarrow> v | None \<Rightarrow> dflt)"

definition signal_gates :: "(string, json) dict \<Rightarrow> (string, gate) dict option" where
  "signal_gates r =
     (let dsr = get_or r ''survives_deflation'' (JBool False) in
     Option.bind (limit_gate (get_or r ''oos_sharpe'' (JInt 0)) (\<lambda>x. 1/2 < x) (1/2)) (\<lambda>g1.
     Option.bind (limit_gate (get_or r ''avg_daily_turnover'' (JFloat 1)) (\<lambda>x. x < 2) 2) (\<lambda>g3.
     Some [(''walk_forward'', g1), (''dsr'', \<lparr>g_passed = json_true dsr, g_value = Some dsr, g_threshold = None\<rparr>), (''turnover'', g3)])))"

definition all_passed :: "(string, gate) dict \<Rightarrow> bool" where
  "all_passed gates = list_all (\<lambda>(k, g). g_passed g) gates"

text \<open>\<open>None\<close>: a value of the wrong type raises.\<close>

definition validate_for_deployment :: "experiment_data \<Rightarrow> gate_report option" where
  "validate_for_deployment x =
     (let r = ex_results x in
      case (if dict_get r ''execution_metrics'' \<noteq> None then execution_gates r else signal_gates r) of
        None \<Rightarrow> None
      | Some gs \<Rightarrow>
          (let risk = json_true (get_or r ''max_position_size'' JNull) \<or> json_true (get_or r ''max_drawdown_limit'' JNull);
               gates = gs @ [(''risk_limits'', flag_gate risk), (''manifest_signed'', flag_gate (ex_signature x \<noteq> []))]
           in Some \<lparr>gr_id = ex_id x, gr_all = all_passed gates, gr_eligible = all_passed gates, gr_gates = gates\<rparr>))"

section \<open>The durable registry\<close>

text \<open>The tables: the audit tables with the signing keys, and the experiments.\<close>

record exp_db =
  xd_audit :: audit_db
  xd_rows :: "exp_row list"

text \<open>Instants in microseconds as Unix times and back (\<^verbatim>\<open>timestamp()\<close>, \<^verbatim>\<open>fromtimestamp\<close>).\<close>

definition epoch :: "int \<Rightarrow> pyfloat" where
  "epoch t = fdiv (of_int t) 1000000"

definition instant_of :: "pyfloat \<Rightarrow> int" where
  "instant_of t = \<lfloor>t\<rfloor> * 1000000 + round_half_even (fmul (t - of_int \<lfloor>t\<rfloor>) 1000000)"

definition or_blank :: "string option \<Rightarrow> string" where
  "or_blank s = (case s of Some t \<Rightarrow> t | None \<Rightarrow> [])"

definition to_experiment :: "exp_row \<Rightarrow> experiment_data" where
  "to_experiment r =
     \<lparr>ex_id = xr_id r, ex_strategy = xr_strategy r, ex_version = xr_version r, ex_dataset_id = xr_dataset_id r,
      ex_dataset_hash = xr_dataset_hash r, ex_parameter_hash = xr_parameter_hash r, ex_commit = xr_commit r, ex_seed = xr_seed r,
      ex_execution_model = xr_execution_model r, ex_latency_model = xr_latency_model r, ex_status = xr_status r,
      ex_created = epoch (xr_created r), ex_completed = map_option epoch (xr_completed r),
      ex_strategy_hash = or_blank (xr_strategy_hash r), ex_lock_hash = or_blank (xr_lock_hash r), ex_engine = or_blank (xr_engine r),
      ex_key = xr_key r, ex_result_hash = xr_result_hash r, ex_results = xr_results r, ex_gates = xr_gates r,
      ex_signature = xr_signature r\<rparr>"

text \<open>\<^verbatim>\<open>_row\<close>: only the owner's rows are found.\<close>

definition exp_row_of :: "exp_db \<Rightarrow> string \<Rightarrow> string \<Rightarrow> exp_row option" where
  "exp_row_of d user i =
     (case find_row xr_id i (xd_rows d) of None \<Rightarrow> None | Some r \<Rightarrow> if xr_user r = user then Some r else None)"

definition put_row :: "exp_row \<Rightarrow> exp_db \<Rightarrow> exp_db" where
  "put_row r d = d\<lparr>xd_rows := sql_update (\<lambda>q. xr_id q = xr_id r) (\<lambda>_. r) (xd_rows d)\<rparr>"

definition recorded_inputs :: "exp_row \<Rightarrow> json" where
  "recorded_inputs r =
     JObj [(''dataset_hash'', JStr (xr_dataset_hash r)), (''parameter_hash'', JStr (xr_parameter_hash r)),
           (''random_seed'', JInt (xr_seed r))]"

text \<open>\<open>new_id\<close>: the generated id; a row with that id makes the insertion fail.\<close>

definition create_row ::
  "exp_env \<Rightarrow> string \<Rightarrow> int \<Rightarrow> string \<Rightarrow> string \<Rightarrow> string \<Rightarrow> string \<Rightarrow> json \<Rightarrow> (string, json) dict \<Rightarrow> int \<Rightarrow> string \<Rightarrow> string \<Rightarrow> exp_row" where
  "create_row e new_id now user strategy version dataset_id dataset parameters seed execution_name latency_name =
     \<lparr>xr_id = new_id, xr_user = user, xr_strategy = strategy, xr_version = version, xr_dataset_id = dataset_id,
      xr_dataset = dataset, xr_dataset_hash = dataset_hash_of e dataset, xr_parameters = parameters,
      xr_parameter_hash = hash_parameters e (JObj parameters), xr_commit = xe_commit e, xr_seed = seed,
      xr_execution_model = execution_name, xr_latency_model = latency_name, xr_status = EXP_CREATED, xr_result_hash = [], xr_results = [],
      xr_gates = None, xr_signature = [], xr_created = now, xr_completed = None,
      xr_strategy_hash = Some (strategy_code_hash e strategy version), xr_lock_hash = Some (xe_lock e),
      xr_engine = Some ENGINE_VERSION, xr_key = None, xr_manifest = None, xr_approved_by = None, xr_approved_at = None\<rparr>"

definition create_experiment :: "exp_row \<Rightarrow> exp_db session \<Rightarrow> exp_db session \<times> (exp_error + experiment_data)" where
  "create_experiment row s =
     (if find_row xr_id (xr_id row) (xd_rows (working s)) \<noteq> None then (s, Inl ExpIntegrityErr)
      else (commit (upd (\<lambda>d. d\<lparr>xd_rows := xd_rows d @ [row]\<rparr>) s), Inr (to_experiment row)))"

definition get_experiment :: "exp_db \<Rightarrow> string \<Rightarrow> string \<Rightarrow> experiment_data option" where
  "get_experiment d user i = map_option to_experiment (exp_row_of d user i)"

text \<open>\<^verbatim>\<open>_register_signing_key\<close>: registering a key commits the session.\<close>

definition register_signing_key ::
  "exp_env \<Rightarrow> string \<times> string \<times> string \<times> int \<Rightarrow> string \<Rightarrow> int \<Rightarrow> identity \<Rightarrow> exp_db session \<Rightarrow> identity \<times> exp_db session" where
  "register_signing_key e fresh new_key now i s =
     (let i1 = (if i_sk i = None then ensure_keypair (xe_sha e) fresh i else i);
          (i2, a, key) = register_in_db (xe_sha e) new_key now i1 \<lparr>committed = xd_audit (committed s), working = xd_audit (working s)\<rparr>
      in (i2, if i_pk i1 = None then s else commit (upd (\<lambda>d. d\<lparr>xd_audit := working a\<rparr>) s)))"

definition record_results ::
  "exp_env \<Rightarrow> string \<times> string \<times> string \<times> int \<Rightarrow> identity \<Rightarrow> pyfloat \<Rightarrow> exp_row \<Rightarrow> (string, json) dict \<Rightarrow> string \<Rightarrow> bool
     \<Rightarrow> exp_error + (exp_row \<times> experiment_data)" where
  "record_results e fresh i clock row results result_hash sign =
     (let x = (to_experiment row)\<lparr>ex_results := results, ex_result_hash := result_hash, ex_completed := Some clock,
                                  ex_status := EXP_COMPLETED\<rparr>;
          signed = (if sign
                    then (let x1 = x\<lparr>ex_key := i_key i\<rparr>; m = build_manifest x1
                          in map_sum id (\<lambda>sig. (x1\<lparr>ex_signature := sig\<rparr>, Some m)) (snd (sign_manifest e fresh i m)))
                    else Inr (x, None))
      in case signed of
           Inl err \<Rightarrow> Inl err
         | Inr (x2, m) \<Rightarrow>
             Inr (row\<lparr>xr_results := results, xr_result_hash := ex_result_hash x2, xr_completed := Some (instant_of clock),
                      xr_status := EXP_COMPLETED, xr_key := ex_key x2, xr_manifest := m, xr_signature := ex_signature x2\<rparr>, x2))"

text \<open>
  \<^verbatim>\<open>complete\<close>: \<open>others\<close> is what the session sees of other sessions' commits between the status check and the
  write. The row is read without a lock, and registering the key ends the transaction that read it.
\<close>

definition complete_experiment ::
  "exp_env \<Rightarrow> string \<times> string \<times> string \<times> int \<Rightarrow> string \<Rightarrow> int \<Rightarrow> pyfloat \<Rightarrow> (exp_db session \<Rightarrow> exp_db session) \<Rightarrow> identity \<Rightarrow> string \<Rightarrow> string
     \<Rightarrow> (string, json) dict \<Rightarrow> bool \<Rightarrow> exp_db session \<Rightarrow> identity \<times> exp_db session \<times> (exp_error + experiment_data option)" where
  "complete_experiment e fresh new_key now clock others i user x results sign s =
     (case exp_row_of (working s) user x of
        None \<Rightarrow> (i, s, Inr None)
      | Some seen \<Rightarrow>
          if xr_status seen \<noteq> EXP_CREATED then (i, s, Inl ExperimentErr)
          else let (i1, s1) = (if sign then register_signing_key e fresh new_key now i s else (i, s));
                   s2 = others s1
               in case find_row xr_id x (xd_rows (working s2)) of
                    None \<Rightarrow> (i1, s2, Inl ExpLookupErr)
                  | Some row \<Rightarrow>
                      (case record_results e fresh i1 clock row results (hash_results e results) sign of
                         Inl err \<Rightarrow> (i1, s2, Inl err)
                       | Inr (row', y) \<Rightarrow> (i1, commit (upd (put_row row') s2), Inr (Some (to_experiment row')))))"

section \<open>Research jobs\<close>

record exp_job_params =
  jp_experiment :: string
  jp_strategy :: string
  jp_dataset :: json
  jp_parameters :: "(string, json) dict"
  jp_seed :: int
  jp_execute :: bool
  jp_verification :: "(string, json) dict"

definition job_params :: "exp_row \<Rightarrow> bool \<Rightarrow> exp_job_params" where
  "job_params r execute =
     \<lparr>jp_experiment = xr_id r, jp_strategy = xr_strategy r, jp_dataset = (if execute then xr_dataset r else JNull),
      jp_parameters = (if execute then xr_parameters r else []), jp_seed = xr_seed r, jp_execute = execute, jp_verification = []\<rparr>"

definition run_job_params :: "exp_env \<Rightarrow> exp_db \<Rightarrow> string \<Rightarrow> string \<Rightarrow> exp_error + exp_job_params option" where
  "run_job_params e d user i =
     (case exp_row_of d user i of
        None \<Rightarrow> Inr None
      | Some r \<Rightarrow>
          if xr_strategy r \<notin> set EXECUTABLE_STRATEGY_IDS then Inl ExperimentErr
          else if xr_status r \<noteq> EXP_CREATED then Inl ExperimentErr
          else case check_strategy_inputs e (xr_strategy r) (xr_dataset r) (xr_parameters r) of
                 Inl err \<Rightarrow> Inl err
               | Inr p \<Rightarrow> Inr (Some (job_params r True)))"

definition executable_result :: "exp_row \<Rightarrow> bool" where
  "executable_result r \<longleftrightarrow> xr_strategy r \<in> set EXECUTABLE_STRATEGY_IDS \<and> xr_result_hash r \<noteq> []"

definition validate_job_params :: "exp_db \<Rightarrow> string \<Rightarrow> string \<Rightarrow> exp_error + exp_job_params option" where
  "validate_job_params d user i =
     (case exp_row_of d user i of
        None \<Rightarrow> Inr None
      | Some r \<Rightarrow>
          if xr_status r \<notin> {EXP_COMPLETED, EXP_VALIDATED} then Inl ExperimentErr
          else Inr (Some (job_params r (executable_result r))))"

definition replay_job_params :: "exp_env \<Rightarrow> exp_db \<Rightarrow> string \<Rightarrow> string \<Rightarrow> (string, json) dict \<Rightarrow> exp_job_params option" where
  "replay_job_params e d user i supplied =
     (case exp_row_of d user i of
        None \<Rightarrow> None
      | Some r \<Rightarrow>
          (let seed = get_or supplied ''random_seed'' (JInt (xr_seed r));
               d_hash = dataset_hash_of e (get_or supplied ''dataset'' (xr_dataset r));
               p_hash = hash_parameters e (get_or supplied ''parameters'' (JObj (xr_parameters r)));
               matches = (d_hash = xr_dataset_hash r \<and> p_hash = xr_parameter_hash r \<and> py_eq seed (JInt (xr_seed r)))
           in Some ((job_params r (matches \<and> executable_result r))\<lparr>jp_verification :=
                [(''experiment_id'', JStr i), (''dataset_hash'', JStr d_hash), (''parameter_hash'', JStr p_hash), (''random_seed'', seed),
                 (''matches_experiment'', JBool matches), (''replay_status'', JStr ''deterministic_input_verification''),
                 (''result_reproduced'', JNull)]\<rparr>)))"

text \<open>What a job's process reports: nothing executed, or the results with their hash and the hashes of the inputs.\<close>

record execution =
  en_executed :: bool
  en_results :: "(string, json) dict"
  en_hash :: string
  en_inputs :: json

record replay_outcome =
  oc_executed :: bool
  oc_hash :: "string option"
  oc_reproduced :: "bool option"
  oc_engine :: "bool option"

definition replay_result :: "exp_row \<Rightarrow> execution \<Rightarrow> replay_outcome" where
  "replay_result r x =
     (if \<not> en_executed x \<or> \<not> executable_result r
      then \<lparr>oc_executed = False, oc_hash = None, oc_reproduced = None, oc_engine = None\<rparr>
      else \<lparr>oc_executed = True, oc_hash = Some (en_hash x),
            oc_reproduced = Some (py_eq (en_inputs x) (recorded_inputs r) \<and> en_hash x = xr_result_hash r),
            oc_engine = Some (or_blank (xr_engine r) = ENGINE_VERSION)\<rparr>)"

record manifest_view =
  mv_manifest :: "json option"
  mv_signature :: string
  mv_valid :: bool
  mv_consistent :: bool

definition view_manifest :: "exp_env \<Rightarrow> identity \<Rightarrow> exp_db \<Rightarrow> exp_row \<Rightarrow> manifest_view" where
  "view_manifest e i d r =
     (case xr_manifest r of
        None \<Rightarrow> \<lparr>mv_manifest = None, mv_signature = xr_signature r, mv_valid = False, mv_consistent = False\<rparr>
      | Some m \<Rightarrow>
          if \<not> json_true m then \<lparr>mv_manifest = None, mv_signature = xr_signature r, mv_valid = False, mv_consistent = False\<rparr>
          else \<lparr>mv_manifest = Some m, mv_signature = xr_signature r,
                mv_valid = verify_manifest_signature e i (Some (ad_keys (xd_audit d))) m (xr_signature r),
                mv_consistent = list_all (\<lambda>(k, v). py_eq (case jget m k of Some w \<Rightarrow> w | None \<Rightarrow> JNull) v)
                                  (bound_fields (to_experiment r))\<rparr>)"

definition get_manifest :: "exp_env \<Rightarrow> identity \<Rightarrow> exp_db \<Rightarrow> string \<Rightarrow> string \<Rightarrow> manifest_view option" where
  "get_manifest e i d user x = map_option (view_manifest e i d) (exp_row_of d user x)"

text \<open>\<open>None\<close>: a gate raised on a value of the wrong type.\<close>

definition validate_row :: "exp_env \<Rightarrow> identity \<Rightarrow> exp_db \<Rightarrow> replay_outcome \<Rightarrow> exp_row \<Rightarrow> (exp_row \<times> gate_report) option" where
  "validate_row e i d replay r =
     (case validate_for_deployment (to_experiment r) of
        None \<Rightarrow> None
      | Some report \<Rightarrow>
          (let m = view_manifest e i d r;
               inputs_ok = (dataset_hash_of e (xr_dataset r) = xr_dataset_hash r
                            \<and> hash_parameters e (JObj (xr_parameters r)) = xr_parameter_hash r);
               gates = gr_gates report @
                 [(''signature_valid'', flag_gate (mv_valid m)), (''manifest_consistent'', flag_gate (mv_consistent m)),
                  (''inputs_unchanged'', flag_gate inputs_ok),
                  (''result_reproducible'', \<lparr>g_passed = (oc_reproduced replay = Some True),
                     g_value = map_option JStr (oc_hash replay), g_threshold = None\<rparr>)];
               passed = all_passed gates;
               report1 = report\<lparr>gr_gates := gates, gr_all := passed, gr_eligible := passed\<rparr>
           in Some (r\<lparr>xr_gates := Some report1, xr_status := (if passed then EXP_VALIDATED else EXP_COMPLETED)\<rparr>, report1)))"

definition finalize_run_job ::
  "exp_env \<Rightarrow> string \<times> string \<times> string \<times> int \<Rightarrow> string \<Rightarrow> int \<Rightarrow> pyfloat \<Rightarrow> identity \<Rightarrow> string \<Rightarrow> string \<Rightarrow> execution \<Rightarrow> exp_db session
     \<Rightarrow> identity \<times> exp_db session \<times> (exp_error + (string, json) dict \<times> string \<times> (string, json) dict)" where
  "finalize_run_job e fresh new_key now clock i user x execution s =
     (let (i1, s1) = register_signing_key e fresh new_key now i s in
      case exp_row_of (working s1) user x of
        None \<Rightarrow> (i1, s1, Inl (ExpTaskErr 404))
      | Some row \<Rightarrow>
          if xr_status row \<noteq> EXP_CREATED then (i1, s1, Inl (ExpTaskErr 422))
          else if \<not> py_eq (en_inputs execution) (recorded_inputs row) then (i1, s1, Inl (ExpTaskErr 409))
          else case record_results e fresh i1 clock row (en_results execution) (en_hash execution) True of
                 Inl err \<Rightarrow> (i1, s1, Inl err)
               | Inr (row', y) \<Rightarrow>
                   (i1, upd (put_row row') s1,
                    Inr (dict_set ''results'' (JObj (ex_results y)) (experiment_dict y), xr_id row',
                         [(''result_hash'', JStr (ex_result_hash y))])))"

definition finalize_validate_job ::
  "exp_env \<Rightarrow> identity \<Rightarrow> string \<Rightarrow> string \<Rightarrow> execution \<Rightarrow> exp_db session \<Rightarrow> exp_db session \<times> (exp_error + gate_report)" where
  "finalize_validate_job e i user x execution s =
     (case exp_row_of (working s) user x of
        None \<Rightarrow> (s, Inl (ExpTaskErr 404))
      | Some row \<Rightarrow>
          if xr_status row \<notin> {EXP_COMPLETED, EXP_VALIDATED} then (s, Inl (ExpTaskErr 409))
          else case validate_row e i (working s) (replay_result row execution) row of
                 None \<Rightarrow> (s, Inl ExpTypeErr)
               | Some (row', report) \<Rightarrow> (upd (put_row row') s, Inr report))"

definition finalize_replay_job ::
  "(string, json) dict \<Rightarrow> string \<Rightarrow> string \<Rightarrow> execution \<Rightarrow> exp_db \<Rightarrow> exp_error + (string, json) dict" where
  "finalize_replay_job verification user x execution d =
     (case exp_row_of d user x of
        None \<Rightarrow> Inl (ExpTaskErr 404)
      | Some row \<Rightarrow>
          (let replay = replay_result row execution in
           Inr (if oc_executed replay
                then dict_update verification
                  [(''replay_status'', JStr ''re-executed''), (''result_hash'', JStr (or_blank (oc_hash replay))),
                   (''recorded_result_hash'', JStr (xr_result_hash row)),
                   (''result_reproduced'', JBool (oc_reproduced replay = Some True)),
                   (''engine_version_matches'', JBool (oc_engine replay = Some True))]
                else verification)))"

definition approve_experiment :: "string \<Rightarrow> string \<Rightarrow> int \<Rightarrow> exp_db session \<Rightarrow> exp_db session \<times> (exp_error + experiment_data)" where
  "approve_experiment x approver now s =
     (case find_row xr_id x (xd_rows (working s)) of
        None \<Rightarrow> (s, Inl ExpLookupErr)
      | Some row \<Rightarrow>
          if xr_user row = approver then (s, Inl ExperimentErr)
          else if xr_status row \<noteq> EXP_VALIDATED then (s, Inl ExperimentErr)
          else let row' = row\<lparr>xr_status := EXP_APPROVED, xr_approved_by := Some approver, xr_approved_at := Some now\<rparr>
               in (commit (upd (put_row row') s), Inr (to_experiment row')))"

text \<open>The endpoint of \<^verbatim>\<open>main.py\<close> over it; \<open>operator\<close>: the caller has an operator role.\<close>

definition experiment_approve :: "bool \<Rightarrow> string \<Rightarrow> string \<Rightarrow> int \<Rightarrow> exp_db session \<Rightarrow> exp_db session \<times> (http_error + experiment_data)" where
  "experiment_approve operator user x now s =
     (if \<not> operator then (s, Inl (HTTP 403))
      else case approve_experiment x user now s of
             (s1, Inl ExpLookupErr) \<Rightarrow> (s1, Inl (HTTP 404))
           | (s1, Inl err) \<Rightarrow> (s1, Inl (HTTP 409))
           | (s1, Inr y) \<Rightarrow> (s1, Inr y))"

section \<open>The in-memory registry\<close>

type_synonym exp_memory = "(string, experiment_data) dict"

definition mem_create ::
  "exp_env \<Rightarrow> string \<Rightarrow> pyfloat \<Rightarrow> string \<Rightarrow> string \<Rightarrow> string \<Rightarrow> json \<Rightarrow> (string, json) dict \<Rightarrow> int \<Rightarrow> string \<Rightarrow> string
     \<Rightarrow> exp_memory \<Rightarrow> exp_memory \<times> experiment_data" where
  "mem_create e new_id clock strategy version dataset_id dataset parameters seed execution_name latency_name m =
     (let x = \<lparr>ex_id = new_id, ex_strategy = strategy, ex_version = version, ex_dataset_id = dataset_id,
               ex_dataset_hash = dataset_hash_of e dataset, ex_parameter_hash = hash_parameters e (JObj parameters),
               ex_commit = xe_commit e, ex_seed = seed, ex_execution_model = execution_name, ex_latency_model = latency_name,
               ex_status = EXP_CREATED, ex_created = clock, ex_completed = None,
               ex_strategy_hash = strategy_code_hash e strategy version, ex_lock_hash = xe_lock e, ex_engine = ENGINE_VERSION,
               ex_key = None, ex_result_hash = [], ex_results = [], ex_gates = None, ex_signature = []\<rparr>
      in (dict_set new_id x m, x))"

definition mem_start :: "string \<Rightarrow> exp_memory \<Rightarrow> exp_memory" where
  "mem_start i m = (case dict_get m i of None \<Rightarrow> m | Some x \<Rightarrow> dict_set i (x\<lparr>ex_status := EXP_RUNNING\<rparr>) m)"

text \<open>A failing signature raises after the results and the status are set.\<close>

definition mem_complete ::
  "exp_env \<Rightarrow> string \<times> string \<times> string \<times> int \<Rightarrow> pyfloat \<Rightarrow> identity \<Rightarrow> string \<Rightarrow> (string, json) dict \<Rightarrow> bool \<Rightarrow> exp_memory
     \<Rightarrow> identity \<times> exp_memory \<times> (exp_error + experiment_data option)" where
  "mem_complete e fresh clock i x results sign m =
     (case dict_get m x of
        None \<Rightarrow> (i, m, Inr None)
      | Some y \<Rightarrow>
          (let y1 = y\<lparr>ex_results := results, ex_result_hash := hash_results e results, ex_completed := Some clock,
                      ex_status := EXP_COMPLETED\<rparr> in
           if \<not> sign then (i, dict_set x y1 m, Inr (Some y1))
           else let y2 = y1\<lparr>ex_key := i_key i\<rparr>; (i1, r) = sign_manifest e fresh i (build_manifest y2)
                in case r of
                     Inl err \<Rightarrow> (i1, dict_set x y2 m, Inl err)
                   | Inr sig \<Rightarrow> (i1, dict_set x (y2\<lparr>ex_signature := sig\<rparr>) m, Inr (Some (y2\<lparr>ex_signature := sig\<rparr>)))))"

definition mem_validate :: "string \<Rightarrow> exp_memory \<Rightarrow> exp_memory \<times> gate_report option option" where
  "mem_validate i m =
     (case dict_get m i of
        None \<Rightarrow> (m, Some None)
      | Some x \<Rightarrow>
          (case validate_for_deployment x of
             None \<Rightarrow> (m, None)
           | Some r \<Rightarrow>
               (dict_set i (x\<lparr>ex_gates := Some r, ex_status := (if gr_all r then EXP_VALIDATED else ex_status x)\<rparr>) m, Some (Some r))))"

definition mem_approve :: "string \<Rightarrow> exp_memory \<Rightarrow> exp_memory \<times> experiment_data option" where
  "mem_approve i m =
     (case dict_get m i of
        None \<Rightarrow> (m, None)
      | Some x \<Rightarrow>
          if ex_status x = EXP_VALIDATED
          then (dict_set i (x\<lparr>ex_status := EXP_APPROVED\<rparr>) m, Some (x\<lparr>ex_status := EXP_APPROVED\<rparr>))
          else (m, Some x))"

definition mem_list :: "exp_memory \<Rightarrow> (string, json) dict list" where
  "mem_list m = map (\<lambda>(i, x). experiment_dict x) m"

definition mem_manifest :: "exp_env \<Rightarrow> identity \<Rightarrow> string \<Rightarrow> exp_memory \<Rightarrow> (json \<times> string \<times> bool) option" where
  "mem_manifest e i x m =
     map_option (\<lambda>y. let b = build_manifest y in
       (b, ex_signature y, ex_signature y \<noteq> [] \<and> verify_manifest_signature e i None b (ex_signature y))) (dict_get m x)"

end
