(* ===== verification/Experiment_Properties.thy ===== *)
theory Experiment_Properties
  imports Experiment_Registry
begin

text \<open>
  Properties of the experiment registry: what a row's history can be over any sequence of the
  registry's transactions, and when a signed manifest verifies.
\<close>

section \<open>Transactions\<close>

text \<open>
  A process and the database it uses. \<^verbatim>\<open>complete\<close> is a transaction here: nothing else commits while it runs (see
  \<open>unlocked_complete_overwrites\<close> below).
\<close>

record exp_world =
  w_identity :: identity
  w_db :: "exp_db session"

datatype exp_op =
    Create exp_row
  | Complete "string \<times> string \<times> string \<times> int" string int pyfloat string string "(string, json) dict" bool
  | Run_job "string \<times> string \<times> string \<times> int" string int pyfloat string string execution
  | Validate_job string string execution
  | Approve string string int
  | Rotate_key "string \<times> string \<times> string \<times> int" string int
  | Other_process identity
  | Exp_commit
  | Exp_rollback

definition rotate_key :: "exp_env \<Rightarrow> string \<times> string \<times> string \<times> int \<Rightarrow> string \<Rightarrow> int \<Rightarrow> exp_world \<Rightarrow> exp_world" where
  "rotate_key e fresh new_id now w =
     (let s = w_db w;
          (i, a) = rotate_identity (xe_sha e) fresh new_id now (w_identity w)
                     \<lparr>committed = xd_audit (committed s), working = xd_audit (working s)\<rparr>
      in \<lparr>w_identity = i, w_db = commit (upd (\<lambda>d. d\<lparr>xd_audit := working a\<rparr>) s)\<rparr>)"

fun exp_step :: "exp_env \<Rightarrow> exp_op \<Rightarrow> exp_world \<Rightarrow> exp_world" where
  "exp_step e (Create row) w = w\<lparr>w_db := fst (create_experiment row (w_db w))\<rparr>"
| "exp_step e (Complete fresh new_key now clock user x results sign) w =
     (case complete_experiment e fresh new_key now clock id (w_identity w) user x results sign (w_db w) of
        (i, s, r) \<Rightarrow> \<lparr>w_identity = i, w_db = s\<rparr>)"
| "exp_step e (Run_job fresh new_key now clock user x execution) w =
     (case finalize_run_job e fresh new_key now clock (w_identity w) user x execution (w_db w) of
        (i, s, r) \<Rightarrow> \<lparr>w_identity = i, w_db = s\<rparr>)"
| "exp_step e (Validate_job user x execution) w =
     w\<lparr>w_db := fst (finalize_validate_job e (w_identity w) user x execution (w_db w))\<rparr>"
| "exp_step e (Approve x approver now) w = w\<lparr>w_db := fst (approve_experiment x approver now (w_db w))\<rparr>"
| "exp_step e (Rotate_key fresh new_id now) w = rotate_key e fresh new_id now w"
| "exp_step e (Other_process i) w = w\<lparr>w_identity := i\<rparr>"
| "exp_step e Exp_commit w = w\<lparr>w_db := commit (w_db w)\<rparr>"
| "exp_step e Exp_rollback w = w\<lparr>w_db := rollback (w_db w)\<rparr>"

section \<open>What may happen to a row\<close>

text \<open>A row without its validation and approval, and without its results either.\<close>

definition recorded :: "exp_row \<Rightarrow> exp_row" where
  "recorded r = r\<lparr>xr_status := EXP_CREATED, xr_gates := None, xr_approved_by := None, xr_approved_at := None\<rparr>"

definition frozen :: "exp_row \<Rightarrow> exp_row" where
  "frozen r = (recorded r)\<lparr>xr_results := [], xr_result_hash := [], xr_completed := None, xr_key := None, xr_manifest := None,
     xr_signature := []\<rparr>"

definition row_next :: "exp_row \<Rightarrow> exp_row \<Rightarrow> bool" where
  "row_next r r' \<longleftrightarrow> frozen r' = frozen r
     \<and> (xr_status r \<noteq> EXP_CREATED \<longrightarrow> recorded r' = recorded r \<and> xr_status r' \<noteq> EXP_CREATED)
     \<and> (xr_status r = EXP_APPROVED \<longrightarrow> r' = r)"

definition integrity_gates :: "string list" where
  "integrity_gates = [''signature_valid'', ''manifest_consistent'', ''inputs_unchanged'', ''result_reproducible'']"

definition passed_report :: "exp_row \<Rightarrow> bool" where
  "passed_report r \<longleftrightarrow> (case xr_gates r of None \<Rightarrow> False
     | Some rep \<Rightarrow> gr_all rep \<and> all_passed (gr_gates rep) \<and> set integrity_gates \<subseteq> set (dict_keys (gr_gates rep)))"

definition row_ok :: "exp_row \<Rightarrow> bool" where
  "row_ok r \<longleftrightarrow> (xr_status r \<in> {EXP_VALIDATED, EXP_APPROVED} \<longrightarrow> passed_report r)
     \<and> (xr_status r = EXP_APPROVED \<longrightarrow> xr_approved_by r \<noteq> None \<and> xr_approved_by r \<noteq> Some (xr_user r))"

definition rows_next :: "exp_row list \<Rightarrow> exp_row list \<Rightarrow> bool" where
  "rows_next rs rs' \<longleftrightarrow> (\<exists>ns qs. rs' = ns @ qs \<and> list_all2 row_next rs ns)"

definition rows_good :: "exp_row list \<Rightarrow> bool" where
  "rows_good rs \<longleftrightarrow> distinct (map xr_id rs) \<and> list_all row_ok rs"

definition session_good :: "exp_db session \<Rightarrow> bool" where
  "session_good s \<longleftrightarrow> rows_good (xd_rows (committed s)) \<and> rows_good (xd_rows (working s))
     \<and> rows_next (xd_rows (committed s)) (xd_rows (working s))"

text \<open>A step that keeps the session good and only moves its two copies on.\<close>

definition moves :: "exp_db session \<Rightarrow> exp_db session \<Rightarrow> bool" where
  "moves s s' \<longleftrightarrow> (session_good s \<longrightarrow> session_good s' \<and> rows_next (xd_rows (committed s)) (xd_rows (committed s'))
     \<and> rows_next (xd_rows (working s)) (xd_rows (working s')))"

lemma row_next_refl [simp]: "row_next r r"
  by (simp add: row_next_def)

lemma row_next_trans: "row_next a b \<Longrightarrow> row_next b c \<Longrightarrow> row_next a c"
  by (auto simp: row_next_def)

lemma frozen_key: "frozen r' = frozen r \<Longrightarrow> xr_id r' = xr_id r \<and> xr_user r' = xr_user r"
  by (cases r; cases r') (simp add: frozen_def recorded_def)

lemma rows_next_refl [simp]: "rows_next rs rs"
proof -
  have "list_all2 row_next rs rs" by (simp add: list_all2_same)
  then show ?thesis unfolding rows_next_def by force
qed

lemma rows_next_trans:
  assumes "rows_next a b" "rows_next b c"
  shows "rows_next a c"
proof -
  obtain ns qs where b: "b = ns @ qs" "list_all2 row_next a ns" using assms(1) by (auto simp: rows_next_def)
  obtain ms ps where c: "c = ms @ ps" "list_all2 row_next (ns @ qs) ms" using assms(2) b(1) by (auto simp: rows_next_def)
  obtain m1 m2 where m: "ms = m1 @ m2" "list_all2 row_next ns m1" using c(2) by (auto simp: list_all2_append1)
  have "list_all2 row_next a m1" using list_all2_trans [of row_next row_next row_next, OF row_next_trans b(2) m(2)] .
  then show ?thesis using c(1) m(1) by (auto simp: rows_next_def)
qed

lemma rows_next_member: "rows_next rs rs' \<Longrightarrow> r \<in> set rs \<Longrightarrow> \<exists>r' \<in> set rs'. row_next r r'"
  by (auto simp: rows_next_def list_all2_conv_all_nth in_set_conv_nth) (metis UnCI nth_mem set_append)

lemma moves_refl [simp]: "moves s s"
  by (simp add: moves_def)

lemma moves_trans: "moves a b \<Longrightarrow> moves b c \<Longrightarrow> moves a c"
  unfolding moves_def using rows_next_trans by blast

lemma moves_commit [simp]: "moves s (commit s)"
  by (simp add: moves_def session_good_def)

lemma moves_upd:
  assumes "session_good s \<Longrightarrow> rows_good (xd_rows (f (working s))) \<and> rows_next (xd_rows (working s)) (xd_rows (f (working s)))"
  shows "moves s (upd f s)"
  using assms rows_next_trans unfolding moves_def session_good_def by auto

lemma moves_audit [simp]: "moves s (upd (\<lambda>d. d\<lparr>xd_audit := g d\<rparr>) s)"
  by (rule moves_upd) (simp add: session_good_def)

lemma put_row_good:
  assumes "rows_good (xd_rows d)" "r \<in> set (xd_rows d)" "row_next r r'" "row_ok r'"
  shows "rows_good (xd_rows (put_row r' d)) \<and> rows_next (xd_rows d) (xd_rows (put_row r' d))"
proof -
  have id: "xr_id r' = xr_id r" using assms(3) frozen_key [of r' r] by (auto simp: row_next_def)
  have only: "q = r" if "q \<in> set (xd_rows d)" "xr_id q = xr_id r'" for q
    using find_row_in [of xr_id "xd_rows d"] assms(1,2) that id unfolding rows_good_def by (metis option.inject)
  have "map xr_id (xd_rows (put_row r' d)) = map xr_id (xd_rows d)"
    by (simp add: put_row_def map_sql_update)
  moreover have "list_all row_ok (xd_rows (put_row r' d))"
    using assms(1,4) by (auto simp: put_row_def list_all_iff in_sql_update rows_good_def)
  moreover have "list_all2 row_next (xd_rows d) (xd_rows (put_row r' d))"
    using only assms(3) by (auto simp: put_row_def sql_update_def list_all2_map2 list_all2_same)
  ultimately show ?thesis using assms(1) unfolding rows_good_def rows_next_def by auto
qed

lemma moves_put_row:
  assumes "find_row xr_id x (xd_rows (working s)) = Some r" "row_ok r \<Longrightarrow> row_next r r' \<and> row_ok r'"
  shows "moves s (upd (put_row r') s)"
proof (rule moves_upd)
  assume "session_good s"
  then have g: "rows_good (xd_rows (working s))" by (simp add: session_good_def)
  have "r \<in> set (xd_rows (working s))" using find_row_Some [OF assms(1)] by simp
  moreover then have "row_next r r' \<and> row_ok r'" using g assms(2) by (auto simp: rows_good_def list_all_iff)
  ultimately show "rows_good (xd_rows (put_row r' (working s))) \<and> rows_next (xd_rows (working s)) (xd_rows (put_row r' (working s)))"
    using put_row_good [OF g] by blast
qed

section \<open>The transactions move the registry on\<close>

lemma register_key_rows:
  assumes "register_signing_key e fresh new_key now i s = (i1, s1)"
  shows "moves s s1 \<and> xd_rows (working s1) = xd_rows (working s)"
proof -
  have "moves s (commit (upd (\<lambda>d. d\<lparr>xd_audit := g d\<rparr>) s))" for g
    using moves_trans [OF moves_audit moves_commit] .
  then show ?thesis using assms by (auto simp: register_signing_key_def Let_def split: prod.splits if_splits)
qed

lemma exp_row_of_Some: "exp_row_of d user x = Some r \<longleftrightarrow> find_row xr_id x (xd_rows d) = Some r \<and> xr_user r = user"
  by (auto simp: exp_row_of_def split: option.splits)

lemma record_results_next:
  assumes "record_results e fresh i clock row results h sign = Inr (row', y)" "xr_status row = EXP_CREATED"
  shows "row_next row row' \<and> row_ok row' \<and> xr_status row' = EXP_COMPLETED"
  using assms
  by (auto simp: record_results_def Let_def row_next_def row_ok_def frozen_def recorded_def split: sum.splits prod.splits if_splits)

lemma validate_row_next:
  assumes "validate_row e i d replay r = Some (r', rep)" "xr_status r \<in> {EXP_COMPLETED, EXP_VALIDATED}"
  shows "row_next r r' \<and> row_ok r'"
proof -
  obtain rep0 where v: "validate_for_deployment (to_experiment r) = Some rep0"
    using assms(1) by (auto simp: validate_row_def split: option.splits)
  have r': "r' = r\<lparr>xr_gates := Some rep, xr_status := if gr_all rep then EXP_VALIDATED else EXP_COMPLETED\<rparr>"
    and rep: "gr_all rep = all_passed (gr_gates rep)" "set integrity_gates \<subseteq> set (dict_keys (gr_gates rep))"
    using assms(1) v by (auto simp: validate_row_def Let_def integrity_gates_def dict_keys_def simp del: set_dict_keys)
  have "xr_status r' = EXP_VALIDATED \<Longrightarrow> passed_report r'" "xr_status r' \<noteq> EXP_APPROVED"
    using rep by (auto simp: r' passed_report_def split: if_splits)
  then have "row_ok r'" by (auto simp: row_ok_def)
  moreover have "row_next r r'" using assms(2) by (auto simp: row_next_def r' frozen_def recorded_def)
  ultimately show ?thesis by simp
qed

lemma create_moves: "xr_status row = EXP_CREATED \<Longrightarrow> moves s (fst (create_experiment row s))"
proof -
  assume c: "xr_status row = EXP_CREATED"
  show ?thesis
  proof (cases "find_row xr_id (xr_id row) (xd_rows (working s)) = None")
    case True
    have "moves s (upd (\<lambda>d. d\<lparr>xd_rows := xd_rows d @ [row]\<rparr>) s)"
    proof (rule moves_upd)
      assume "session_good s"
      then show "rows_good (xd_rows ((\<lambda>d. d\<lparr>xd_rows := xd_rows d @ [row]\<rparr>) (working s)))
          \<and> rows_next (xd_rows (working s)) (xd_rows ((\<lambda>d. d\<lparr>xd_rows := xd_rows d @ [row]\<rparr>) (working s)))"
        using True c
        by (auto simp: session_good_def rows_good_def row_ok_def find_row_None rows_next_def list_all2_same)
    qed
    from moves_trans [OF this moves_commit] show ?thesis using True by (simp add: create_experiment_def)
  qed (simp add: create_experiment_def)
qed

lemma complete_moves:
  assumes "complete_experiment e fresh new_key now clock id i user x results sign s = (i', s', r)"
  shows "moves s s'"
proof (cases "exp_row_of (working s) user x")
  case (Some seen)
  show ?thesis
  proof (cases "xr_status seen = EXP_CREATED")
    case created: True
    obtain i1 s1 where k: "(if sign then register_signing_key e fresh new_key now i s else (i, s)) = (i1, s1)" by fastforce
    have m: "moves s s1" and rows: "xd_rows (working s1) = xd_rows (working s)"
      using k register_key_rows by (auto split: if_splits)
    have row: "find_row xr_id x (xd_rows (working s1)) = Some seen" using Some rows by (simp add: exp_row_of_Some)
    have "s' = s1 \<or> (\<exists>row' y. record_results e fresh i1 clock seen results (hash_results e results) sign = Inr (row', y)
        \<and> s' = commit (upd (put_row row') s1))"
      using assms Some created k row by (auto simp: complete_experiment_def split: sum.splits)
    moreover have "moves s1 (commit (upd (put_row row') s1))"
      if "record_results e fresh i1 clock seen results (hash_results e results) sign = Inr (row', y)" for row' y
      using record_results_next [OF that created] moves_put_row [OF row, of row'] moves_trans [OF _ moves_commit] by blast
    ultimately show ?thesis using m moves_trans by blast
  qed (use assms Some in \<open>simp add: complete_experiment_def\<close>)
qed (use assms in \<open>simp add: complete_experiment_def\<close>)

lemma run_job_moves:
  assumes "finalize_run_job e fresh new_key now clock i user x execution s = (i', s', r)"
  shows "moves s s'"
proof -
  obtain i1 s1 where k: "register_signing_key e fresh new_key now i s = (i1, s1)" by fastforce
  have m: "moves s s1" using register_key_rows [OF k] by simp
  have "s' = s1 \<or> (\<exists>row row' y. exp_row_of (working s1) user x = Some row \<and> xr_status row = EXP_CREATED
      \<and> record_results e fresh i1 clock row (en_results execution) (en_hash execution) True = Inr (row', y)
      \<and> s' = upd (put_row row') s1)"
    using assms k by (auto simp: finalize_run_job_def split: option.splits if_splits sum.splits)
  moreover have "moves s1 (upd (put_row row') s1)" if "exp_row_of (working s1) user x = Some row" "xr_status row = EXP_CREATED"
    "record_results e fresh i1 clock row (en_results execution) (en_hash execution) True = Inr (row', y)" for row row' y
    using record_results_next [OF that(3,2)] moves_put_row [of x s1 row row'] that(1) by (auto simp: exp_row_of_Some)
  ultimately show ?thesis using m moves_trans by blast
qed

lemma validate_job_moves: "moves s (fst (finalize_validate_job e i user x execution s))"
proof (cases "exp_row_of (working s) user x")
  case (Some row)
  then have row: "find_row xr_id x (xd_rows (working s)) = Some row" by (simp add: exp_row_of_Some)
  have "moves s (upd (put_row row') s)" if "xr_status row \<in> {EXP_COMPLETED, EXP_VALIDATED}"
    "validate_row e i (working s) (replay_result row execution) row = Some (row', rep)" for row' rep
    using validate_row_next [OF that(2,1)] moves_put_row [OF row, of row'] by blast
  then show ?thesis using Some by (auto simp: finalize_validate_job_def split: option.splits)
qed (simp add: finalize_validate_job_def)

lemma approve_moves: "moves s (fst (approve_experiment x approver now s))"
proof (cases "find_row xr_id x (xd_rows (working s))")
  case (Some row)
  let ?row' = "row\<lparr>xr_status := EXP_APPROVED, xr_approved_by := Some approver, xr_approved_at := Some now\<rparr>"
  have "moves s (commit (upd (put_row ?row') s))" if "xr_status row = EXP_VALIDATED" "xr_user row \<noteq> approver"
  proof -
    have "row_next row ?row' \<and> row_ok ?row'" if "row_ok row"
      using that \<open>xr_status row = EXP_VALIDATED\<close> \<open>xr_user row \<noteq> approver\<close>
      by (auto simp: row_next_def row_ok_def frozen_def recorded_def passed_report_def split: option.splits)
    from moves_trans [OF moves_put_row [OF Some this] moves_commit] show ?thesis .
  qed
  then show ?thesis using Some by (simp add: approve_experiment_def Let_def)
qed (simp add: approve_experiment_def)

section \<open>Histories\<close>

definition exp_inv :: "exp_world \<Rightarrow> bool" where
  "exp_inv w \<longleftrightarrow> session_good (w_db w)"

definition exp_ok :: "exp_op \<Rightarrow> exp_world \<Rightarrow> bool" where
  "exp_ok p w \<longleftrightarrow> (case p of Create row \<Rightarrow> xr_status row = EXP_CREATED | _ \<Rightarrow> True)"

definition later_row :: "exp_row \<Rightarrow> exp_world \<Rightarrow> bool" where
  "later_row r w \<longleftrightarrow> (\<exists>r' \<in> set (xd_rows (committed (w_db w))). row_next r r') \<and> (\<exists>r' \<in> set (xd_rows (working (w_db w))). row_next r r')"

lemma created_rows_ok:
  "exp_ok (Create (create_row e new_id now user strategy version dataset_id dataset parameters seed execution_name latency_name)) w"
  by (simp add: exp_ok_def create_row_def)

lemma exp_step_moves:
  assumes "exp_ok p w"
  shows "moves (w_db w) (w_db (exp_step e p w)) \<or> w_db (exp_step e p w) = rollback (w_db w)"
proof (cases p)
  case (Rotate_key fresh new_id now)
  have "moves (w_db w) (commit (upd (\<lambda>d. d\<lparr>xd_audit := g d\<rparr>) (w_db w)))" for g
    using moves_trans [OF moves_audit moves_commit] .
  then show ?thesis using Rotate_key by (simp add: rotate_key_def Let_def split: prod.split)
qed (use assms create_moves validate_job_moves approve_moves complete_moves run_job_moves in
    \<open>auto simp: exp_ok_def split: prod.split\<close>)

lemma rollback_good: "session_good s \<Longrightarrow> session_good (rollback s)"
  by (simp add: session_good_def)

interpretation experiments: sealed_machine "exp_step e" exp_inv exp_ok later_row for e
proof
  fix w p
  assume inv: "exp_inv w" and p: "exp_ok p w"
  note m = exp_step_moves [OF p, of e]
  show "exp_inv (exp_step e p w)" using m inv rollback_good by (auto simp: exp_inv_def moves_def)
  fix r
  assume r: "later_row r w"
  show "later_row r (exp_step e p w)"
  proof (cases "w_db (exp_step e p w) = rollback (w_db w)")
    case False
    then have "rows_next (xd_rows (committed (w_db w))) (xd_rows (committed (w_db (exp_step e p w))))"
      "rows_next (xd_rows (working (w_db w))) (xd_rows (working (w_db (exp_step e p w))))"
      using m inv by (simp_all add: exp_inv_def moves_def)
    then show ?thesis using r rows_next_member row_next_trans unfolding later_row_def by meson
  qed (use r in \<open>simp add: later_row_def\<close>)
qed

lemma history:
  assumes "exp_inv w" "admissible exp_ok (exp_step e) ops w" "r \<in> set (xd_rows (committed (w_db w)))"
  obtains r' where "find_row xr_id (xr_id r) (xd_rows (committed (w_db (fold (exp_step e) ops w)))) = Some r'" "row_next r r'" "row_ok r'"
proof -
  let ?w = "fold (exp_step e) ops w"
  have "later_row r w"
    using assms(1,3) rows_next_member row_next_refl unfolding later_row_def exp_inv_def session_good_def by blast
  then have "later_row r ?w" using experiments.sealed_run assms(1,2) by blast
  then obtain r' where r': "r' \<in> set (xd_rows (committed (w_db ?w)))" "row_next r r'" by (auto simp: later_row_def)
  have "rows_good (xd_rows (committed (w_db ?w)))"
    using experiments.inv_run [OF assms(1,2)] by (simp add: exp_inv_def session_good_def)
  moreover have "xr_id r' = xr_id r" using r'(2) frozen_key [of r' r] by (auto simp: row_next_def)
  ultimately show ?thesis using that [of r'] r' find_row_in [of xr_id _ r'] by (simp add: rows_good_def list_all_iff)
qed

text \<open>
  C25: an experiment's inputs never change, its results are recorded once and its approval is final. Take a committed
  row and any sequence of creations, completions, job outcomes, approvals, key rotations, commits and
  rollbacks: the row is still there with the same inputs; if it had results, they, their hash and the signed manifest are the
  same; if it was approved, the whole row is.
\<close>

theorem experiment_results_are_final:
  assumes "exp_inv w" "admissible exp_ok (exp_step e) ops w" "r \<in> set (xd_rows (committed (w_db w)))"
  shows "\<exists>r'. find_row xr_id (xr_id r) (xd_rows (committed (w_db (fold (exp_step e) ops w)))) = Some r'
    \<and> frozen r' = frozen r \<and> (xr_status r \<noteq> EXP_CREATED \<longrightarrow> recorded r' = recorded r) \<and> (xr_status r = EXP_APPROVED \<longrightarrow> r' = r)"
  using history [OF assms] unfolding row_next_def by metis

text \<open>
  C26: no experiment is approved without four eyes and every gate. A row that is approved after any history
  was approved by someone other than its owner, and carries a report in which every gate passed, the signature, consistency, input and reproduction
  gates among them.
\<close>

theorem approval_needs_four_eyes_and_every_gate:
  assumes "exp_inv w" "admissible exp_ok (exp_step e) ops w"
    and "find_row xr_id x (xd_rows (committed (w_db (fold (exp_step e) ops w)))) = Some r" "xr_status r = EXP_APPROVED"
  shows "(\<exists>a. xr_approved_by r = Some a \<and> a \<noteq> xr_user r) \<and> passed_report r"
proof -
  have "r \<in> set (xd_rows (committed (w_db (fold (exp_step e) ops w))))" using find_row_Some [OF assms(3)] by simp
  then have "row_ok r" using experiments.inv_run [OF assms(1,2)]
    by (simp add: exp_inv_def session_good_def rows_good_def list_all_iff)
  then show ?thesis using assms(4) by (auto simp: row_ok_def)
qed

section \<open>Manifests stay verifiable\<close>

definition key_in :: "string \<times> string \<Rightarrow> audit_db \<Rightarrow> bool" where
  "key_in k a \<longleftrightarrow> map_option sk_public (find_row sk_id (fst k) (ad_keys a)) = Some (snd k)"

definition key_kept :: "string \<times> string \<Rightarrow> exp_world \<Rightarrow> bool" where
  "key_kept k w \<longleftrightarrow> key_in k (xd_audit (committed (w_db w))) \<and> key_in k (xd_audit (working (w_db w)))"

lemma key_in_append: "key_in k a \<Longrightarrow> key_in k (a\<lparr>ad_keys := ad_keys a @ rs\<rparr>)"
  by (auto simp: key_in_def find_row_append)

lemma key_in_retire: "key_in k a \<Longrightarrow> key_in k (a\<lparr>ad_keys := retire_keys x now (ad_keys a)\<rparr>)"
  by (cases "find_row sk_id (fst k) (ad_keys a)") (auto simp: key_in_def retire_keys_def find_row_update)

lemma register_in_db_keys:
  assumes "register_in_db sha new_id now i s = (i', s', key)" "key_in k (working s)"
  shows "key_in k (working s')"
  using assms key_in_append [of k "working s"]
  by (auto simp: register_in_db_def Let_def split: option.splits if_splits)

lemma rotate_keys:
  assumes "rotate_identity sha fresh new_id now i s = (i', s')" "key_in k (working s)"
  shows "key_in k (working s')"
proof -
  define known where "known = (given (i_key i) \<and> find_row sk_id (the (i_key i)) (ad_keys (working s)) \<noteq> None)"
  define s1 where "s1 = (if known then commit (upd (\<lambda>d. d\<lparr>ad_keys := retire_keys (the (i_key i)) now (ad_keys d)\<rparr>) s) else s)"
  have 1: "key_in k (working s1)" using assms(2) key_in_retire by (simp add: s1_def)
  define s2 where "s2 = (if \<not> known \<and> given (i_pk i) \<and> given (i_fingerprint i)
                then commit (upd (\<lambda>d. d\<lparr>ad_keys := ad_keys d @
                   [\<lparr>sk_id = (if given (i_key i) then the (i_key i) else new_id), sk_public = the (i_pk i),
                     sk_fingerprint = the (i_fingerprint i), sk_status = KeyRetired, sk_created = i_created i,
                     sk_activated = i_created i, sk_retired = Some now\<rparr>]\<rparr>) s1)
                else s1)"
  have "key_in k (working s2)" using 1 key_in_append by (simp add: s2_def)
  moreover obtain key where "register_in_db sha new_id now (ensure_keypair sha fresh i) s2 = (i', s', key)"
    using assms(1) unfolding rotate_identity_def Let_def known_def [symmetric] s1_def [symmetric] s2_def [symmetric]
    by (auto split: prod.splits)
  ultimately show ?thesis using register_in_db_keys by blast
qed

text \<open>What a transaction does to the audit tables: it may commit and it keeps every key.\<close>

definition keeps_keys :: "exp_db session \<Rightarrow> exp_db session \<Rightarrow> bool" where
  "keeps_keys s s' \<longleftrightarrow> (\<forall>k. key_in k (xd_audit (committed s)) \<and> key_in k (xd_audit (working s)) \<longrightarrow>
     key_in k (xd_audit (committed s')) \<and> key_in k (xd_audit (working s')))"

lemma keeps_keys_refl [simp]: "keeps_keys s s"
  by (simp add: keeps_keys_def)

lemma keeps_keys_trans: "keeps_keys a b \<Longrightarrow> keeps_keys b c \<Longrightarrow> keeps_keys a c"
  by (simp add: keeps_keys_def)

lemma keeps_keys_ends [simp]: "keeps_keys s (commit s)" "keeps_keys s (rollback s)"
  by (simp_all add: keeps_keys_def)

lemma keeps_keys_put [simp]: "keeps_keys s (upd (put_row r) s)"
  by (simp add: keeps_keys_def put_row_def)

lemma register_signing_key_keeps: "register_signing_key e fresh new_key now i s = (i1, s1) \<Longrightarrow> keeps_keys s s1"
proof -
  assume reg: "register_signing_key e fresh new_key now i s = (i1, s1)"
  have kept: "keeps_keys s (commit (upd (\<lambda>d. d\<lparr>xd_audit := working a\<rparr>) s))"
    if "register_in_db (xe_sha e) new_key now j \<lparr>committed = xd_audit (committed s), working = xd_audit (working s)\<rparr> = (i2, a, key)"
    for j i2 a key
    using register_in_db_keys [OF that] unfolding keeps_keys_def by (simp del: split_paired_All)
  show ?thesis using reg unfolding register_signing_key_def Let_def by (auto split: prod.splits if_splits dest: kept)
qed

lemma exp_step_keeps: "keeps_keys (w_db w) (w_db (exp_step e p w))"
proof (cases p)
  case (Create row)
  then show ?thesis by (simp add: create_experiment_def keeps_keys_def)
next
  case (Complete fresh new_key now clock user x results sign)
  obtain i1 s1 where k: "(if sign then register_signing_key e fresh new_key now (w_identity w) (w_db w) else (w_identity w, w_db w)) = (i1, s1)"
    by fastforce
  have "keeps_keys (w_db w) s1" using k register_signing_key_keeps by (auto split: if_splits)
  then have "keeps_keys (w_db w) (commit (upd (put_row r) s1))" for r
    using keeps_keys_trans keeps_keys_put keeps_keys_ends(1) by blast
  then show ?thesis using Complete k \<open>keeps_keys (w_db w) s1\<close>
    by (auto simp: complete_experiment_def split: option.splits sum.splits)
next
  case (Run_job fresh new_key now clock user x execution)
  obtain i1 s1 where k: "register_signing_key e fresh new_key now (w_identity w) (w_db w) = (i1, s1)" by fastforce
  have "keeps_keys (w_db w) s1" using register_signing_key_keeps [OF k] .
  then have "keeps_keys (w_db w) (upd (put_row r) s1)" for r using keeps_keys_trans keeps_keys_put by blast
  then show ?thesis using Run_job k \<open>keeps_keys (w_db w) s1\<close>
    by (auto simp: finalize_run_job_def split: option.splits sum.splits)
next
  case (Validate_job user x execution)
  then show ?thesis by (auto simp: finalize_validate_job_def split: option.splits)
next
  case (Approve x approver now)
  have "keeps_keys (w_db w) (commit (upd (put_row r) (w_db w)))" for r
    using keeps_keys_trans keeps_keys_put keeps_keys_ends(1) by blast
  then show ?thesis using Approve by (auto simp: approve_experiment_def Let_def split: option.splits)
next
  case (Rotate_key fresh new_id now)
  let ?s = "\<lparr>committed = xd_audit (committed (w_db w)), working = xd_audit (working (w_db w))\<rparr>"
  obtain i a where r: "rotate_identity (xe_sha e) fresh new_id now (w_identity w) ?s = (i, a)" by fastforce
  have "keeps_keys (w_db w) (commit (upd (\<lambda>d. d\<lparr>xd_audit := working a\<rparr>) (w_db w)))"
    using rotate_keys [OF r] unfolding keeps_keys_def by (simp del: split_paired_All)
  then show ?thesis using Rotate_key r by (simp add: rotate_key_def Let_def)
qed simp_all

interpretation signing_keys: sealed_machine "exp_step e" "\<lambda>_. True" "\<lambda>_ _. True" key_kept for e
proof
  fix w p k
  assume "key_kept k w"
  then show "key_kept k (exp_step e p w)" using exp_step_keeps [of w e p]
    unfolding key_kept_def keeps_keys_def by blast
qed simp

text \<open>The process's key is in the key table, as the start of every process leaves it.\<close>

definition registered_identity :: "identity \<Rightarrow> string \<Rightarrow> string \<Rightarrow> string \<Rightarrow> audit_db \<Rightarrow> bool" where
  "registered_identity i k pk sk a \<longleftrightarrow> i_pk i = Some pk \<and> i_sk i = Some sk \<and> i_key i = Some k \<and> k \<noteq> [] \<and> given (i_fingerprint i)
     \<and> find_row sk_fingerprint (the (i_fingerprint i)) (ad_keys a) = find_row sk_id k (ad_keys a)
     \<and> map_option sk_public (find_row sk_id k (ad_keys a)) = Some pk"

lemma registered_unchanged:
  assumes "registered_identity i k pk sk (xd_audit (working s))" "register_signing_key e fresh new_key now i s = (i1, s1)"
  shows "i_key i1 = Some k \<and> i_sk i1 = Some sk \<and> xd_audit (working s1) = xd_audit (working s)"
proof -
  obtain fp kr where f: "i_fingerprint i = Some fp" "fp \<noteq> []" "find_row sk_fingerprint fp (ad_keys (xd_audit (working s))) = Some kr"
      "find_row sk_id k (ad_keys (xd_audit (working s))) = Some kr"
    using assms(1) by (auto simp: registered_identity_def given_def split: option.splits)
  moreover have "sk_id kr = k" using find_row_Some [OF f(4)] by simp
  ultimately show ?thesis
    using assms by (auto simp: register_signing_key_def register_in_db_def registered_identity_def Let_def)
qed

lemma recorded_view:
  assumes "recorded a = recorded b"
  shows "view_manifest e i d a = view_manifest e i d b"
proof -
  have "xr_manifest a = xr_manifest b" "xr_signature a = xr_signature b"
    "bound_fields (to_experiment a) = bound_fields (to_experiment b)"
    using assms by (cases a; cases b; simp add: recorded_def to_experiment_def bound_fields_def)+
  then show ?thesis by (simp add: view_manifest_def split: option.split)
qed

lemma signed_by_key:
  assumes "snd (sign_manifest e fresh i m) = Inr sig" "i_sk i = Some sk" "manifest_key m = Some k" "k \<noteq> []"
    and "\<And>t g. xe_sign e sk t = Some g \<Longrightarrow> xe_verify e pk t g" "key_in (k, pk) a"
  shows "sig \<noteq> [] \<and> verify_manifest_signature e i' (Some (ad_keys a)) m sig"
proof -
  have pk: "manifest_public_key i' (Some (ad_keys a)) (Some k) = Some pk"
    using assms(4,6) by (auto simp: manifest_public_key_def given_def key_in_def)
  show ?thesis
  proof (cases "xe_sign e sk (manifest_text e m)")
    case None
    then show ?thesis using assms(1,2)
      by (auto simp: sign_manifest_def verify_manifest_signature_def MAC_PREFIX_def split: if_splits)
  next
    case (Some g)
    then have "sig = DSA_PREFIX @ g" using assms(1,2) by (simp add: sign_manifest_def)
    then show ?thesis using assms(3) assms(5) [OF Some] pk
      by (simp add: verify_manifest_signature_def MAC_PREFIX_def DSA_PREFIX_def)
  qed
qed

lemma recorded_manifest:
  assumes "record_results e fresh i clock row results h True = Inr (row', y)" "i_sk i = Some sk" "i_key i = Some k" "k \<noteq> []"
    and "\<And>t g. xe_sign e sk t = Some g \<Longrightarrow> xe_verify e pk t g" "key_in (k, pk) (xd_audit d)"
  shows "mv_valid (view_manifest e i' d row') \<and> mv_consistent (view_manifest e i' d row')"
proof -
  define x where "x = (to_experiment row)\<lparr>ex_results := results, ex_result_hash := h, ex_completed := Some clock,
      ex_status := EXP_COMPLETED, ex_key := i_key i\<rparr>"
  obtain sig where sig: "snd (sign_manifest e fresh i (build_manifest x)) = Inr sig"
    and row': "row' = row\<lparr>xr_results := results, xr_result_hash := h, xr_completed := Some (instant_of clock),
      xr_status := EXP_COMPLETED, xr_key := i_key i, xr_manifest := Some (build_manifest x), xr_signature := sig\<rparr>"
    using assms(1) by (cases "snd (sign_manifest e fresh i (build_manifest x))") (auto simp: record_results_def Let_def x_def)
  have "manifest_key (build_manifest x) = Some k"
    by (simp add: manifest_key_def build_manifest_def jget_def x_def assms(3) opt_str_def)
  then have "verify_manifest_signature e i' (Some (ad_keys (xd_audit d))) (build_manifest x) sig"
    using signed_by_key [OF sig assms(2) _ assms(4-6)] by blast
  moreover have "list_all (\<lambda>(k, v). py_eq (case jget (build_manifest x) k of Some w \<Rightarrow> w | None \<Rightarrow> JNull) v) (bound_fields (to_experiment row'))"
    by (simp add: row' bound_fields_def build_manifest_def jget_def x_def to_experiment_def)
  moreover have "json_true (build_manifest x)" by (simp add: build_manifest_def)
  ultimately show ?thesis by (simp add: view_manifest_def row')
qed

text \<open>
  C27: a signed manifest verifies for ever. When a run's results are recorded by a process whose key is in the key table and the
  transaction commits, then after any later transactions, key rotations included, and in any other process, the experiment's
  manifest verifies against the key that signed it and agrees with the stored row. Of ML-DSA only this is used: what the private
  key signs, the public key accepts.
\<close>

theorem signed_manifest_stays_valid:
  assumes "exp_inv w" "registered_identity (w_identity w) k pk sk (xd_audit (working (w_db w)))"
    and "\<And>t g. xe_sign e sk t = Some g \<Longrightarrow> xe_verify e pk t g"
    and "finalize_run_job e fresh new_key now clock (w_identity w) user x execution (w_db w) = (i1, s1, Inr out)"
    and "admissible exp_ok (exp_step e) ops \<lparr>w_identity = i1, w_db = commit s1\<rparr>"
  shows "\<exists>v. get_manifest e i' (committed (w_db (fold (exp_step e) ops \<lparr>w_identity = i1, w_db = commit s1\<rparr>))) user x = Some v
    \<and> mv_valid v \<and> mv_consistent v"
proof -
  let ?w1 = "\<lparr>w_identity = i1, w_db = commit s1\<rparr>"
  let ?d = "committed (w_db (fold (exp_step e) ops ?w1))"
  obtain i0 s0 where k: "register_signing_key e fresh new_key now (w_identity w) (w_db w) = (i0, s0)" by fastforce
  note reg = registered_unchanged [OF assms(2) k]
  obtain row row' y where row: "exp_row_of (working s0) user x = Some row" "xr_status row = EXP_CREATED"
    and rec: "record_results e fresh i0 clock row (en_results execution) (en_hash execution) True = Inr (row', y)"
    and s1: "s1 = upd (put_row row') s0" "i1 = i0"
    using assms(4) k by (auto simp: finalize_run_job_def split: option.splits if_splits sum.splits)
  have inv: "exp_inv ?w1"
    using run_job_moves [OF assms(4)] assms(1) moves_commit unfolding exp_inv_def moves_def by simp
  have id: "xr_id row' = xr_id row" "xr_user row' = xr_user row" "xr_id row = x" "xr_user row = user" "row \<in> set (xd_rows (working s0))"
    using record_results_next [OF rec row(2)] frozen_key [of row' row] row(1) find_row_Some [of xr_id x]
    by (auto simp: row_next_def exp_row_of_Some)
  have "row' \<in> set (xd_rows (committed (w_db ?w1)))" using id by (auto simp: s1 put_row_def in_sql_update)
  then obtain r where r: "find_row xr_id x (xd_rows ?d) = Some r" "row_next row' r"
    using history [OF inv assms(5)] id by metis
  have "key_kept (k, pk) ?w1"
    using assms(2) reg by (simp add: key_kept_def key_in_def s1 put_row_def registered_identity_def)
  then have kept: "key_in (k, pk) (xd_audit ?d)"
    using signing_keys.sealed_run [OF TrueI admissible_True] unfolding key_kept_def by blast
  have "recorded r = recorded row'" using r(2) record_results_next [OF rec row(2)] by (simp add: row_next_def)
  moreover have "mv_valid (view_manifest e i' ?d row') \<and> mv_consistent (view_manifest e i' ?d row')"
    using recorded_manifest [OF rec _ _ _ assms(3) kept] reg assms(2) by (simp add: registered_identity_def)
  moreover have "xr_user r = user" using r(2) frozen_key [of r row'] id(2,4) unfolding row_next_def by simp
  ultimately show ?thesis using r(1) recorded_view [of r row' e i' ?d] by (simp add: get_manifest_def exp_row_of_def)
qed

section \<open>Completing without a lock\<close>

text \<open>
  \<^verbatim>\<open>complete\<close> checks the status, then registers the key, which ends its transaction, and then writes: a session that completes
  the same experiment in between has its results and its signed manifest replaced. Only the job finalizer, which locks the
  row, is called by the API.
\<close>

lemma unlocked_complete_overwrites:
  assumes "exp_row_of (working s) user x = Some seen" "xr_status seen = EXP_CREATED"
    and "register_signing_key e fresh new_key now i s = (i1, s1)"
    and "find_row xr_id x (xd_rows (working (others s1))) = Some row" "xr_status row = EXP_COMPLETED"
    and "record_results e fresh i1 clock row results (hash_results e results) True = Inr (row', y)"
  shows "complete_experiment e fresh new_key now clock others i user x results True s
    = (i1, commit (upd (put_row row') (others s1)), Inr (Some (to_experiment row'))) \<and> xr_results row' = results"
  using assms by (auto simp: complete_experiment_def record_results_def Let_def split: sum.splits prod.splits)

section \<open>Concrete inputs\<close>

definition demo_exp_env :: exp_env where
  "demo_exp_env = \<lparr>xe_sha = (\<lambda>t. ''h''), xe_float = (\<lambda>x. ''0''), xe_sign = (\<lambda>sk t. Some (sk @ t)),
     xe_verify = (\<lambda>pk t g. g = pk @ t), xe_mac = (\<lambda>t. t), xe_production = True, xe_source = ''src'', xe_commit = ''c'', xe_lock = ''l'',
     xe_float_of = (\<lambda>s. None), xe_int_of = (\<lambda>s. None)\<rparr>"

definition demo_signer :: identity where
  "demo_signer = \<lparr>i_pk = Some ''k'', i_sk = Some ''k'', i_created = 0, i_key = Some ''k1'', i_fingerprint = Some ''f'', i_registered = True\<rparr>"

definition demo_keys :: audit_db where
  "demo_keys = \<lparr>ad_keys = [\<lparr>sk_id = ''k1'', sk_public = ''k'', sk_fingerprint = ''f'', sk_status = KeyActive,
     sk_created = 0, sk_activated = 0, sk_retired = None\<rparr>], ad_events = [], ad_links = [], ad_users = [''u'']\<rparr>"

definition demo_row :: exp_row where
  "demo_row = create_row demo_exp_env ''QS-1'' 0 ''u'' ''obi_momentum'' ''1'' ''d'' (JArr []) [] 42 ''LOB'' ''zero''"

definition demo_world :: exp_world where
  "demo_world = \<lparr>w_identity = demo_signer, w_db = fresh_session \<lparr>xd_audit = demo_keys, xd_rows = [demo_row]\<rparr>\<rparr>"

definition demo_run :: execution where
  "demo_run = \<lparr>en_executed = True,
     en_results = [(''execution_metrics'', JObj [(''fill_ratio'', JInt 1)]), (''portfolio'', JObj [(''total_pnl'', JInt 5)]),
                   (''implementation_shortfall'', JObj [(''total_is_bps'', JInt 3)]), (''max_position_size'', JInt 10)],
     en_hash = ''r'', en_inputs = recorded_inputs demo_row\<rparr>"

lemma demo_row_fields: "xr_status demo_row = EXP_CREATED" "xr_id demo_row = ''QS-1''" "xr_user demo_row = ''u''"
  by (simp_all add: demo_row_def create_row_def)

lemma demo_exp_world_inv: "exp_inv demo_world"
  by (simp add: exp_inv_def session_good_def demo_world_def rows_good_def row_ok_def demo_row_fields)

lemma demo_registered: "registered_identity (w_identity demo_world) ''k1'' ''k'' ''k'' (xd_audit (working (w_db demo_world)))"
  by (simp add: registered_identity_def demo_world_def demo_signer_def demo_keys_def given_def find_row_def)

definition no_key :: "string \<times> string \<times> string \<times> int" where
  "no_key = ([], [], [], 0)"

definition demo_completed :: experiment_data where
  "demo_completed = (to_experiment demo_row)\<lparr>ex_results := en_results demo_run, ex_result_hash := ''r'', ex_completed := Some 1,
     ex_status := EXP_COMPLETED, ex_key := Some ''k1''\<rparr>"

definition demo_signed_row :: exp_row where
  "demo_signed_row = demo_row\<lparr>xr_results := en_results demo_run, xr_result_hash := ''r'', xr_completed := Some (instant_of 1),
     xr_status := EXP_COMPLETED, xr_key := Some ''k1'', xr_manifest := Some (build_manifest demo_completed),
     xr_signature := DSA_PREFIX @ ''k'' @ manifest_text demo_exp_env (build_manifest demo_completed)\<rparr>"

definition demo_run_op :: exp_op where
  "demo_run_op = Run_job no_key ''n'' 1 1 ''u'' ''QS-1'' demo_run"

lemma demo_register: "register_signing_key demo_exp_env no_key ''n'' 1 demo_signer (w_db demo_world) = (demo_signer, w_db demo_world)"
  by (simp add: register_signing_key_def register_in_db_def demo_world_def demo_signer_def demo_keys_def find_row_def Let_def
      fresh_session_def commit_def upd_def)

lemma demo_record: "record_results demo_exp_env no_key demo_signer 1 demo_row (en_results demo_run) ''r'' True
    = Inr (demo_signed_row, demo_completed\<lparr>ex_signature := xr_signature demo_signed_row\<rparr>)"
  by (simp add: record_results_def sign_manifest_def demo_signed_row_def demo_completed_def demo_signer_def demo_exp_env_def Let_def)

lemma demo_finalize:
  "\<exists>out. finalize_run_job demo_exp_env no_key ''n'' 1 1 demo_signer ''u'' ''QS-1'' demo_run (w_db demo_world)
    = (demo_signer, upd (put_row demo_signed_row) (w_db demo_world), Inr out)"
proof -
  have "exp_row_of (working (w_db demo_world)) ''u'' ''QS-1'' = Some demo_row"
    by (simp add: exp_row_of_def demo_world_def find_row_def demo_row_fields)
  moreover have "py_eq (en_inputs demo_run) (recorded_inputs demo_row)" "en_hash demo_run = ''r''"
    by (simp_all add: demo_run_def recorded_inputs_def)
  ultimately show ?thesis by (simp add: finalize_run_job_def demo_register demo_row_fields demo_record)
qed

theorem signed_manifest_stays_valid_witness:
  "let w = \<lparr>w_identity = demo_signer, w_db = commit (upd (put_row demo_signed_row) (w_db demo_world))\<rparr>;
       ops = [Rotate_key (''k2'', ''k2'', ''k3'', 9) ''n'' 9, Exp_commit]
   in \<exists>v. get_manifest demo_exp_env demo_signer (committed (w_db (fold (exp_step demo_exp_env) ops w))) ''u'' ''QS-1'' = Some v
        \<and> mv_valid v \<and> mv_consistent v"
proof -
  obtain out where f: "finalize_run_job demo_exp_env no_key ''n'' 1 1 (w_identity demo_world) ''u'' ''QS-1'' demo_run (w_db demo_world)
    = (demo_signer, upd (put_row demo_signed_row) (w_db demo_world), Inr out)"
    using demo_finalize by (auto simp: demo_world_def)
  show ?thesis unfolding Let_def
    by (rule signed_manifest_stays_valid [OF demo_exp_world_inv demo_registered _ f]) (simp_all add: demo_exp_env_def exp_ok_def)
qed

theorem experiment_results_are_final_witness:
  "\<exists>r'. find_row xr_id ''QS-1'' (xd_rows (committed (w_db (fold (exp_step demo_exp_env) [demo_run_op, Exp_commit] demo_world)))) = Some r'
    \<and> frozen r' = frozen demo_row"
proof -
  have "admissible exp_ok (exp_step demo_exp_env) [demo_run_op, Exp_commit] demo_world" by (simp add: exp_ok_def demo_run_op_def)
  from experiment_results_are_final [OF demo_exp_world_inv this, of demo_row] show ?thesis
    by (simp add: demo_world_def demo_row_fields)
qed

definition demo_gate_report :: gate_report where
  "demo_gate_report = \<lparr>gr_id = ''QS-1'', gr_all = True, gr_eligible = True, gr_gates =
     [(''net_pnl'', \<lparr>g_passed = True, g_value = Some (JInt 5), g_threshold = Some 0\<rparr>),
      (''fill_ratio'', \<lparr>g_passed = True, g_value = Some (JInt 1), g_threshold = Some (1/2)\<rparr>),
      (''implementation_shortfall'', \<lparr>g_passed = True, g_value = Some (JInt 3), g_threshold = Some 25\<rparr>),
      (''risk_limits'', flag_gate True), (''manifest_signed'', flag_gate True), (''signature_valid'', flag_gate True),
      (''manifest_consistent'', flag_gate True), (''inputs_unchanged'', flag_gate True),
      (''result_reproducible'', \<lparr>g_passed = True, g_value = Some (JStr ''r''), g_threshold = None\<rparr>)]\<rparr>"

lemma demo_view:
  assumes "key_in (''k1'', ''k'') (xd_audit d)"
  shows "mv_valid (view_manifest demo_exp_env demo_signer d demo_signed_row)
    \<and> mv_consistent (view_manifest demo_exp_env demo_signer d demo_signed_row)"
  using recorded_manifest [OF demo_record, of "''k''" "''k1''" "''k''" d demo_signer] assms
  by (simp add: demo_signer_def demo_exp_env_def)

lemma demo_validated:
  assumes "key_in (''k1'', ''k'') (xd_audit d)"
  shows "validate_row demo_exp_env demo_signer d (replay_result demo_signed_row demo_run) demo_signed_row
    = Some (demo_signed_row\<lparr>xr_gates := Some demo_gate_report, xr_status := EXP_VALIDATED\<rparr>, demo_gate_report)"
proof -
  have "oc_reproduced (replay_result demo_signed_row demo_run) = Some True \<and> oc_hash (replay_result demo_signed_row demo_run) = Some ''r''"
    by (simp add: replay_result_def demo_run_def executable_result_def demo_signed_row_def demo_row_def create_row_def
        EXECUTABLE_STRATEGY_IDS_def recorded_inputs_def)
  moreover have "dataset_hash_of demo_exp_env (xr_dataset demo_signed_row) = xr_dataset_hash demo_signed_row
      \<and> hash_parameters demo_exp_env (JObj (xr_parameters demo_signed_row)) = xr_parameter_hash demo_signed_row"
    by (simp add: demo_signed_row_def demo_row_def create_row_def)
  moreover have "validate_for_deployment (to_experiment demo_signed_row)
      = Some \<lparr>gr_id = ''QS-1'', gr_all = True, gr_eligible = True, gr_gates = take 5 (gr_gates demo_gate_report)\<rparr>"
    by (simp add: validate_for_deployment_def to_experiment_def demo_signed_row_def demo_run_def execution_gates_def nested_def
        limit_gate_def compare_def get_or_def all_passed_def flag_gate_def demo_gate_report_def demo_row_fields DSA_PREFIX_def)
  ultimately show ?thesis using demo_view [OF assms]
    by (simp add: validate_row_def Let_def all_passed_def flag_gate_def demo_gate_report_def)
qed

definition world_with :: "exp_row \<Rightarrow> exp_world" where
  "world_with r = \<lparr>w_identity = demo_signer, w_db = fresh_session \<lparr>xd_audit = demo_keys, xd_rows = [r]\<rparr>\<rparr>"

definition demo_validated_row :: exp_row where
  "demo_validated_row = demo_signed_row\<lparr>xr_gates := Some demo_gate_report, xr_status := EXP_VALIDATED\<rparr>"

definition demo_approved_row :: exp_row where
  "demo_approved_row = demo_validated_row\<lparr>xr_status := EXP_APPROVED, xr_approved_by := Some ''op'', xr_approved_at := Some 7\<rparr>"

lemma put_in_world:
  "xr_id r' = xr_id r \<Longrightarrow> w_db (world_with r) = s \<Longrightarrow> commit (upd (put_row r') s) = w_db (world_with r')"
  by (auto simp: world_with_def put_row_def sql_update_def fresh_session_def commit_def upd_def)

lemma demo_history:
  "exp_step demo_exp_env Exp_commit (exp_step demo_exp_env demo_run_op demo_world) = world_with demo_signed_row"
  "exp_step demo_exp_env Exp_commit (exp_step demo_exp_env (Validate_job ''u'' ''QS-1'' demo_run) (world_with demo_signed_row))
   = world_with demo_validated_row"
  "exp_step demo_exp_env (Approve ''QS-1'' ''op'' 7) (world_with demo_validated_row) = world_with demo_approved_row"
proof -
  have ids: "xr_id demo_signed_row = ''QS-1''" "xr_id demo_validated_row = ''QS-1''" "xr_user demo_signed_row = ''u''"
    "xr_status demo_signed_row = EXP_COMPLETED" "xr_status demo_validated_row = EXP_VALIDATED" "xr_user demo_validated_row = ''u''"
    by (simp_all add: demo_validated_row_def demo_signed_row_def demo_row_fields)
  have w: "demo_world = world_with demo_row" by (simp add: demo_world_def world_with_def)
  show "exp_step demo_exp_env Exp_commit (exp_step demo_exp_env demo_run_op demo_world) = world_with demo_signed_row"
    using demo_finalize put_in_world [of demo_signed_row demo_row]
    by (auto simp: demo_run_op_def w ids demo_row_fields) (simp_all add: world_with_def)
  have k: "key_in (''k1'', ''k'') (xd_audit (working (w_db (world_with demo_signed_row))))"
    by (simp add: key_in_def world_with_def demo_keys_def find_row_def)
  have "exp_row_of (working (w_db (world_with demo_signed_row))) ''u'' ''QS-1'' = Some demo_signed_row"
    by (simp add: exp_row_of_def world_with_def find_row_def ids)
  then have "fst (finalize_validate_job demo_exp_env demo_signer ''u'' ''QS-1'' demo_run (w_db (world_with demo_signed_row)))
      = upd (put_row demo_validated_row) (w_db (world_with demo_signed_row))"
    using demo_validated [OF k] by (simp add: finalize_validate_job_def ids demo_validated_row_def)
  then show "exp_step demo_exp_env Exp_commit (exp_step demo_exp_env (Validate_job ''u'' ''QS-1'' demo_run) (world_with demo_signed_row))
      = world_with demo_validated_row"
    using put_in_world [of demo_validated_row demo_signed_row] by (simp add: ids) (simp add: world_with_def)
  have "find_row xr_id ''QS-1'' (xd_rows (working (w_db (world_with demo_validated_row)))) = Some demo_validated_row"
    by (simp add: world_with_def find_row_def ids)
  then show "exp_step demo_exp_env (Approve ''QS-1'' ''op'' 7) (world_with demo_validated_row) = world_with demo_approved_row"
    using put_in_world [of demo_approved_row demo_validated_row]
    by (simp add: approve_experiment_def ids demo_approved_row_def Let_def) (simp add: world_with_def)
qed

theorem approval_needs_four_eyes_and_every_gate_witness:
  "let ops = [demo_run_op, Exp_commit, Validate_job ''u'' ''QS-1'' demo_run, Exp_commit, Approve ''QS-1'' ''op'' 7]
   in find_row xr_id ''QS-1'' (xd_rows (committed (w_db (fold (exp_step demo_exp_env) ops demo_world)))) = Some demo_approved_row
     \<and> (\<exists>a. xr_approved_by demo_approved_row = Some a \<and> a \<noteq> xr_user demo_approved_row) \<and> passed_report demo_approved_row"
proof -
  let ?ops = "[demo_run_op, Exp_commit, Validate_job ''u'' ''QS-1'' demo_run, Exp_commit, Approve ''QS-1'' ''op'' 7]"
  have ok: "admissible exp_ok (exp_step demo_exp_env) ?ops demo_world" by (simp add: exp_ok_def demo_run_op_def)
  have "fold (exp_step demo_exp_env) ?ops demo_world = world_with demo_approved_row"
    by (simp only: fold_simps demo_history id_apply)
  moreover have "xr_id demo_approved_row = ''QS-1''" "xr_status demo_approved_row = EXP_APPROVED"
    by (simp_all add: demo_approved_row_def demo_validated_row_def demo_signed_row_def demo_row_fields)
  ultimately have f: "find_row xr_id ''QS-1'' (xd_rows (committed (w_db (fold (exp_step demo_exp_env) ?ops demo_world)))) = Some demo_approved_row"
    and s: "xr_status demo_approved_row = EXP_APPROVED"
    by (simp_all only:) (simp_all add: world_with_def find_row_def)
  from approval_needs_four_eyes_and_every_gate [OF demo_exp_world_inv ok f s] show ?thesis using f by (simp only: Let_def simp_thms)
qed

end
