(* ===== verification/Strategy_Signals.thy ===== *)
theory Strategy_Signals
  imports Numerics
begin

text \<open>
  \<^verbatim>\<open>src/backend/services/strategy_signals.py\<close>: the built-in strategies' signals as series
  over the closes. The mean and the standard deviation of a window and the hyperbolic tangent are the
  numerical library's: fields of \<open>np_ops\<close>, functions of the window (of the number). Prices are positive, so no division by zero
  happens. \<open>None\<close> is the error numpy raises when a window of length zero makes the shapes disagree.
\<close>

record np_ops =
  np_mean :: "pyfloat list \<Rightarrow> pyfloat"
  np_std :: "nat \<Rightarrow> pyfloat list \<Rightarrow> pyfloat"
  np_tanh :: "pyfloat \<Rightarrow> pyfloat"
  np_sqrt :: "pyfloat \<Rightarrow> pyfloat"

datatype strategy_type = MA_CROSSOVER | SBA_SIGNAL | MOMENTUM | MEAN_REVERSION | OTHER_STRATEGY

record strategy_config =
  sc_type :: strategy_type
  fast_window :: nat
  slow_window :: nat
  sba_buy_threshold :: pyfloat
  sba_sell_threshold :: pyfloat
  momentum_lookback :: nat
  momentum_entry :: pyfloat
  momentum_exit :: pyfloat
  mr_lookback :: nat
  mr_entry_zscore :: pyfloat
  mr_exit_zscore :: pyfloat

definition SBA_MOMENTUM_LOOKBACK :: nat where "SBA_MOMENTUM_LOOKBACK = 20"

definition warmup_bars :: "strategy_config \<Rightarrow> nat" where
  "warmup_bars s =
     (case sc_type s of
        MOMENTUM \<Rightarrow> momentum_lookback s + 1
      | MEAN_REVERSION \<Rightarrow> mr_lookback s + 1
      | SBA_SIGNAL \<Rightarrow> SBA_MOMENTUM_LOOKBACK + 1
      | MA_CROSSOVER \<Rightarrow> max (fast_window s) (slow_window s) + 1
      | OTHER_STRATEGY \<Rightarrow> 1)"

text \<open>The window of length \<open>w\<close> that ends with bar \<open>t\<close>.\<close>

definition window_at :: "'a list \<Rightarrow> nat \<Rightarrow> nat \<Rightarrow> 'a list" where
  "window_at xs w t = take w (drop (t + 1 - w) xs)"

text \<open>\<open>None\<close> is NaN.\<close>

definition rolling_mean :: "np_ops \<Rightarrow> pyfloat list \<Rightarrow> nat \<Rightarrow> pyfloat option list" where
  "rolling_mean np x w =
     map (\<lambda>t. if 1 \<le> w \<and> w \<le> t + 1 then Some (np_mean np (window_at x w t)) else None) [0..<length x]"

definition nan_less :: "pyfloat option \<Rightarrow> pyfloat option \<Rightarrow> bool" where
  "nan_less a b = (case (a, b) of (Some x, Some y) \<Rightarrow> x < y | _ \<Rightarrow> False)"

definition nan_le :: "pyfloat option \<Rightarrow> pyfloat option \<Rightarrow> bool" where
  "nan_le a b = (case (a, b) of (Some x, Some y) \<Rightarrow> x \<le> y | _ \<Rightarrow> False)"

definition cross_at :: "pyfloat option list \<Rightarrow> pyfloat option list \<Rightarrow> nat \<Rightarrow> pyfloat" where
  "cross_at f s t =
     (if nan_le (f ! (t - 1)) (s ! (t - 1)) \<and> nan_less (s ! t) (f ! t) then 1
      else if nan_le (s ! (t - 1)) (f ! (t - 1)) \<and> nan_less (f ! t) (s ! t) then -1 else 0)"

definition ma_crossover_series :: "np_ops \<Rightarrow> pyfloat list \<Rightarrow> nat \<Rightarrow> nat \<Rightarrow> pyfloat list option" where
  "ma_crossover_series np close fast slow =
     (let first = max fast slow in
      if length close \<le> first then Some (replicate (length close) 0)
      else if first = 0 then None
      else let f = rolling_mean np close fast; s = rolling_mean np close slow
           in Some (map (\<lambda>t. if t < first then 0 else cross_at f s t) [0..<length close]))"

definition momentum_at :: "strategy_config \<Rightarrow> pyfloat \<Rightarrow> pyfloat" where
  "momentum_at s mom =
     (if momentum_entry s < mom then min (fmul mom 5) 1
      else if mom < momentum_exit s then max (fmul mom 5) (-1) else 0)"

definition momentum_series :: "pyfloat list \<Rightarrow> strategy_config \<Rightarrow> pyfloat list option" where
  "momentum_series close s =
     (let lb = momentum_lookback s in
      if length close \<le> lb then Some (replicate (length close) 0)
      else if lb = 0 then None
      else Some (map (\<lambda>t. if t < lb then 0 else momentum_at s (fsub (fdiv (close ! t) (close ! (t - lb))) 1)) [0..<length close]))"

definition TINY :: pyfloat where "TINY = fl (1 / 10 ^ 9)"

definition mean_reversion_at :: "np_ops \<Rightarrow> strategy_config \<Rightarrow> pyfloat list \<Rightarrow> pyfloat \<Rightarrow> pyfloat" where
  "mean_reversion_at np s w c =
     (let mu = np_mean np w; sigma = np_std np 1 w;
          z = fdiv (fsub c mu) sigma;
          strength = min (fdiv \<bar>z\<bar> 3) 1
      in if sigma < TINY then 0
         else if z < mr_entry_zscore s then strength
         else if mr_exit_zscore s < z then - strength else 0)"

definition mean_reversion_series :: "np_ops \<Rightarrow> pyfloat list \<Rightarrow> strategy_config \<Rightarrow> pyfloat list" where
  "mean_reversion_series np close s =
     (let lb = mr_lookback s in
      if lb < 2 \<or> length close \<le> lb then replicate (length close) 0
      else map (\<lambda>t. if t < lb then 0 else mean_reversion_at np s (window_at close lb t) (close ! t)) [0..<length close])"

text \<open>\<^verbatim>\<open>signal_engine._momentum\<close>, the one feature the strategy reads.\<close>

definition rate_of_change :: "pyfloat list \<Rightarrow> nat \<Rightarrow> pyfloat" where
  "rate_of_change close lookback =
     (if length close \<le> lookback then 0
      else fsub (fdiv (last close) (close ! (length close - 1 - lookback))) 1)"

definition sba_at :: "np_ops \<Rightarrow> strategy_config \<Rightarrow> pyfloat list \<Rightarrow> pyfloat" where
  "sba_at np s close =
     (let spin = np_tanh np (fmul (rate_of_change close SBA_MOMENTUM_LOOKBACK) 5)
      in if sba_buy_threshold s < spin \<or> spin < sba_sell_threshold s then spin else 0)"

definition sba_series :: "np_ops \<Rightarrow> pyfloat list \<Rightarrow> strategy_config \<Rightarrow> nat \<Rightarrow> pyfloat list" where
  "sba_series np close s start =
     map (\<lambda>t. if t < max start SBA_MOMENTUM_LOOKBACK then 0 else sba_at np s (take (t + 1) close)) [0..<length close]"

definition signal_series :: "np_ops \<Rightarrow> pyfloat list \<Rightarrow> strategy_config \<Rightarrow> nat \<Rightarrow> pyfloat list option" where
  "signal_series np close s start =
     (case sc_type s of
        MA_CROSSOVER \<Rightarrow> ma_crossover_series np close (fast_window s) (slow_window s)
      | MOMENTUM \<Rightarrow> momentum_series close s
      | MEAN_REVERSION \<Rightarrow> Some (mean_reversion_series np close s)
      | SBA_SIGNAL \<Rightarrow> Some (sba_series np close s start)
      | OTHER_STRATEGY \<Rightarrow> Some (replicate (length close) 0))"

definition latest_signal :: "np_ops \<Rightarrow> pyfloat list \<Rightarrow> strategy_config \<Rightarrow> pyfloat option" where
  "latest_signal np close s =
     (if close = [] then Some 0 else map_option last (signal_series np close s (length close - 1)))"

section \<open>The timing contract\<close>

lemma window_at_take: "t < n \<Longrightarrow> w \<le> t + 1 \<Longrightarrow> window_at (take n xs) w t = window_at xs w t"
  by (simp add: window_at_def take_drop min_def add.commute)

lemma rolling_mean_take:
  assumes "t < n" "t < length x"
  shows "rolling_mean np (take n x) w ! t = rolling_mean np x w ! t"
  using assms by (auto simp: rolling_mean_def window_at_take)

lemma ma_crossover_take:
  assumes "ma_crossover_series np close fast slow = Some s" "t < length close"
  shows "\<exists>s'. ma_crossover_series np (take (t + 1) close) fast slow = Some s' \<and> s' ! t = s ! t"
proof -
  let ?first = "max fast slow"
  have len: "length (take (t + 1) close) = t + 1" using assms(2) by simp
  show ?thesis
  proof (cases "t < ?first")
    case True
    then have "ma_crossover_series np (take (t + 1) close) fast slow = Some (replicate (t + 1) 0)"
      using len by (simp add: ma_crossover_series_def Let_def)
    moreover have "s ! t = 0" using assms True by (auto simp: ma_crossover_series_def Let_def split: if_splits)
    ultimately show ?thesis by (simp add: nth_Cons')
  next
    case False
    then have "cross_at (rolling_mean np (take (t + 1) close) fast) (rolling_mean np (take (t + 1) close) slow) t
        = cross_at (rolling_mean np close fast) (rolling_mean np close slow) t"
      using assms(2) by (simp add: cross_at_def rolling_mean_take del: take_Suc_conv_app_nth)
    then show ?thesis using assms False len
      by (auto simp: ma_crossover_series_def Let_def simp del: upt_Suc split: if_splits)
  qed
qed

lemma momentum_take:
  assumes "momentum_series close c = Some s" "t < length close"
  shows "\<exists>s'. momentum_series (take (t + 1) close) c = Some s' \<and> s' ! t = s ! t"
  using assms by (auto simp: momentum_series_def Let_def nth_Cons' simp del: upt_Suc split: if_splits)

lemma mean_reversion_take:
  assumes "t < length close"
  shows "mean_reversion_series np (take (t + 1) close) c ! t = mean_reversion_series np close c ! t"
  using assms by (auto simp: mean_reversion_series_def Let_def window_at_take nth_Cons' simp del: upt_Suc)

lemma sba_take:
  assumes "t < length close"
  shows "sba_series np (take (t + 1) close) c start ! t = sba_series np close c start ! t"
  using assms by (auto simp: sba_series_def simp del: upt_Suc)

text \<open>
  A signal uses only what has happened. Element \<open>t\<close> of any built-in strategy's series is the same when the
  closes after bar \<open>t\<close> are cut off, so no engine that reads it sees the future, and reading the latest signal of a
  growing history gives the same decisions as the series.
\<close>

theorem signals_use_only_past:
  assumes "signal_series np close c start = Some s" "t < length close"
  shows "\<exists>s'. signal_series np (take (t + 1) close) c start = Some s' \<and> s' ! t = s ! t"
proof (cases "sc_type c")
  case MA_CROSSOVER
  then show ?thesis using assms ma_crossover_take by (simp add: signal_series_def)
next
  case MOMENTUM
  then show ?thesis using assms momentum_take by (simp add: signal_series_def)
next
  case MEAN_REVERSION
  then show ?thesis using assms mean_reversion_take [of t close np c] by (auto simp: signal_series_def)
next
  case SBA_SIGNAL
  then show ?thesis using assms sba_take [of t close np c start] by (auto simp: signal_series_def)
next
  case OTHER_STRATEGY
  then show ?thesis using assms by (auto simp: signal_series_def simp del: replicate.simps)
qed

section \<open>Size and warm-up\<close>

lemma signal_series_length: "signal_series np close c start = Some s \<Longrightarrow> length s = length close"
  by (auto simp: signal_series_def ma_crossover_series_def momentum_series_def mean_reversion_series_def sba_series_def Let_def
      split: strategy_type.splits if_splits)

lemma series_zero_before:
  assumes "signal_series np close c start = Some s" "t + 1 < warmup_bars c" "t < length close"
  shows "s ! t = 0"
  using assms by (auto simp: signal_series_def ma_crossover_series_def momentum_series_def mean_reversion_series_def sba_series_def
      warmup_bars_def SBA_MOMENTUM_LOOKBACK_def Let_def split: strategy_type.splits if_splits)

lemma unit_range [simp]: "\<bar>if a then 1 else if b then -1 else 0 :: rat\<bar> \<le> 1"
  by simp

lemma momentum_at_bound: "momentum_exit c \<le> 0 \<Longrightarrow> 0 \<le> momentum_entry c \<Longrightarrow> \<bar>momentum_at c m\<bar> \<le> 1"
proof -
  assume c: "momentum_exit c \<le> 0" "0 \<le> momentum_entry c"
  have "0 \<le> fmul m 5" if "0 \<le> m" using that by (simp add: fmul_nonneg)
  moreover have "fmul m 5 \<le> 0" if "m \<le> 0" using that by (simp add: fmul_def fl_nonpos mult_nonpos_nonneg)
  ultimately show ?thesis using c by (auto simp: momentum_at_def min_def max_def abs_if)
qed

lemma mean_reversion_at_bound: "\<bar>mean_reversion_at np c w x\<bar> \<le> 1"
proof -
  have "0 \<le> min (fdiv \<bar>z\<bar> 3) 1" "min (fdiv \<bar>z\<bar> 3) 1 \<le> 1" for z by (simp_all add: fdiv_def fl_nonneg)
  then show ?thesis by (auto simp: mean_reversion_at_def Let_def)
qed

text \<open>
  Signals are bounded strengths. With an entry threshold above and an exit threshold below zero every value of
  every series lies between -1 and 1, and it is 0 while the warm-up is not over, as long as the hyperbolic tangent keeps to its range.
\<close>

theorem signals_are_bounded:
  assumes "\<And>x. \<bar>np_tanh np x\<bar> \<le> 1" "momentum_exit c \<le> 0" "0 \<le> momentum_entry c"
    and "signal_series np close c start = Some s" "t < length close"
  shows "\<bar>s ! t\<bar> \<le> 1 \<and> (t + 1 < warmup_bars c \<longrightarrow> s ! t = 0)"
proof -
  have "\<bar>sba_at np c w\<bar> \<le> 1" for w using assms(1) by (simp add: sba_at_def Let_def)
  then have "\<bar>s ! t\<bar> \<le> 1"
    using assms(4,5) momentum_at_bound [OF assms(2,3)] mean_reversion_at_bound
    by (auto simp: signal_series_def ma_crossover_series_def momentum_series_def mean_reversion_series_def sba_series_def
        cross_at_def Let_def split: strategy_type.splits if_splits)
  then show ?thesis using series_zero_before [OF assms(4) _ assms(5)] by blast
qed

section \<open>Concrete inputs\<close>

definition demo_np :: np_ops where
  "demo_np = \<lparr>np_mean = (\<lambda>w. fdiv (fsum w) (of_nat (length w))), np_std = (\<lambda>d w. 1), np_tanh = (\<lambda>x. max (-1) (min 1 x)), np_sqrt = (\<lambda>x. 16)\<rparr>"

definition demo_strategy :: strategy_config where
  "demo_strategy = \<lparr>sc_type = MOMENTUM, fast_window = 1, slow_window = 2, sba_buy_threshold = 1/8, sba_sell_threshold = -1/8,
     momentum_lookback = 1, momentum_entry = 1/16, momentum_exit = -1/32, mr_lookback = 2, mr_entry_zscore = -2, mr_exit_zscore = 0\<rparr>"

lemma demo_signals: "signal_series demo_np [100, 200, 100] demo_strategy 0
    = Some [0, momentum_at demo_strategy (fsub (fdiv 200 100) 1), momentum_at demo_strategy (fsub (fdiv 100 200) 1)]"
  by (simp add: signal_series_def momentum_series_def demo_strategy_def Let_def upt_rec)

theorem signals_use_only_past_witness:
  "\<exists>s'. signal_series demo_np [100, 200] demo_strategy 0 = Some s' \<and> s' ! 1 = momentum_at demo_strategy (fsub (fdiv 200 100) 1)"
  using signals_use_only_past [OF demo_signals, of 1] by simp

theorem signals_are_bounded_witness:
  "\<bar>momentum_at demo_strategy (fsub (fdiv 200 100) 1)\<bar> \<le> 1"
  using signals_are_bounded [OF _ _ _ demo_signals, of 1] by (simp add: demo_np_def demo_strategy_def)

end
