(* ===== verification/Event_Simulator.thy ===== *)
theory Event_Simulator
  imports Strategy_Signals
begin

text \<open>
  \<^verbatim>\<open>src/backend/services/event_simulator.py\<close>: the event-driven backtester. Cost model,
  portfolio, strategies, sizers and the bar loop. The performance figures computed from the final
  equity curve (numpy statistics) are left out. The order in which Python iterates over a set of strings is
  an argument (\<open>iter\<close>): it changes from one process to the next. Windows and lookbacks are at least one.
\<close>

section \<open>Events and costs\<close>

record signal_event =
  sg_time :: nat
  sg_ticker :: string
  sg_strength :: pyfloat
  sg_direction :: int

record order_event =
  oe_time :: nat
  oe_ticker :: string
  oe_quantity :: pyfloat

record fill_rec =
  fe_time :: nat
  fe_ticker :: string
  fe_quantity :: pyfloat
  fe_price :: pyfloat
  fe_commission :: pyfloat
  fe_slippage :: pyfloat
  fe_borrow :: pyfloat

record cost_model =
  commission_pct :: pyfloat
  spread_bps :: pyfloat
  market_impact_bps :: pyfloat
  borrow_rate_annual :: pyfloat
  min_commission :: pyfloat

definition compute_fill :: "cost_model \<Rightarrow> order_event \<Rightarrow> pyfloat \<Rightarrow> pyfloat \<Rightarrow> fill_rec" where
  "compute_fill cm ord base daily_vol =
     (let qty = oe_quantity ord;
          direction = (if 0 < qty then 1 else -1);
          spread_cost = fmul base (fdiv (spread_bps cm) 10000);
          impact_cost = fmul (fmul base (fdiv (market_impact_bps cm) 10000)) (fdiv daily_vol (fl (1 / 100)));
          price = fadd base (direction * fadd spread_cost impact_cost);
          notional = fmul \<bar>qty\<bar> price
      in \<lparr>fe_time = oe_time ord, fe_ticker = oe_ticker ord, fe_quantity = qty, fe_price = price,
          fe_commission = max (fmul notional (commission_pct cm)) (min_commission cm),
          fe_slippage = fmul \<bar>qty\<bar> (fadd spread_cost impact_cost),
          fe_borrow = (if qty < 0 then fmul (fmul \<bar>qty\<bar> price) (fdiv (borrow_rate_annual cm) 252) else 0)\<rparr>)"

section \<open>Portfolio\<close>

record log_entry =
  le_time :: nat
  le_ticker :: string
  le_qty :: pyfloat
  le_price :: pyfloat
  le_commission :: pyfloat
  le_slippage :: pyfloat

record portfolio =
  pf_allow_short :: bool
  pf_leverage :: pyfloat
  pf_cash :: pyfloat
  pf_positions :: "(string, pyfloat) dict"
  pf_costs :: "(string, pyfloat) dict"
  pf_equity :: "pyfloat list"
  pf_returns :: "pyfloat list"
  pf_log :: "log_entry list"
  pf_commission :: pyfloat
  pf_slippage :: pyfloat
  pf_borrow :: pyfloat

definition new_portfolio :: "pyfloat \<Rightarrow> bool \<Rightarrow> pyfloat \<Rightarrow> portfolio" where
  "new_portfolio capital allow_short leverage =
     \<lparr>pf_allow_short = allow_short, pf_leverage = leverage, pf_cash = capital, pf_positions = [], pf_costs = [],
      pf_equity = [capital], pf_returns = [0], pf_log = [], pf_commission = 0, pf_slippage = 0, pf_borrow = 0\<rparr>"

definition get_num :: "('k, pyfloat) dict \<Rightarrow> 'k \<Rightarrow> pyfloat" where
  "get_num d k = (case dict_get d k of Some x \<Rightarrow> x | None \<Rightarrow> 0)"

definition cost_basis :: "fill_rec \<Rightarrow> pyfloat \<Rightarrow> pyfloat \<Rightarrow> (string, pyfloat) dict \<Rightarrow> (string, pyfloat) dict" where
  "cost_basis f prev new costs =
     (if new = 0 then dict_pop (fe_ticker f) costs
      else if prev = 0 \<or> (0 < prev) \<noteq> (0 < new) then dict_set (fe_ticker f) (fe_price f) costs
      else if \<bar>prev\<bar> < \<bar>new\<bar>
      then let prev_cost = (case dict_get costs (fe_ticker f) of Some c \<Rightarrow> c | None \<Rightarrow> fe_price f)
           in dict_set (fe_ticker f)
                (fdiv (fadd (fmul prev_cost \<bar>prev\<bar>) (fmul (fe_price f) \<bar>fe_quantity f\<bar>)) \<bar>new\<bar>) costs
      else costs)"

definition process_fill :: "fill_rec \<Rightarrow> portfolio \<Rightarrow> portfolio" where
  "process_fill f p =
     (let prev = get_num (pf_positions p) (fe_ticker f); new = fadd prev (fe_quantity f)
      in p\<lparr>pf_positions := dict_set (fe_ticker f) new (pf_positions p),
           pf_costs := cost_basis f prev new (pf_costs p),
           pf_cash := fsub (pf_cash p) (fadd (fadd (fmul (fe_quantity f) (fe_price f)) (fe_commission f)) (fe_borrow f)),
           pf_commission := fadd (pf_commission p) (fe_commission f),
           pf_slippage := fadd (pf_slippage p) (fe_slippage f),
           pf_borrow := fadd (pf_borrow p) (fe_borrow f),
           pf_log := pf_log p @ [\<lparr>le_time = fe_time f, le_ticker = fe_ticker f, le_qty = pyround (fe_quantity f) 2,
             le_price = pyround (fe_price f) 4, le_commission = pyround (fe_commission f) 4,
             le_slippage = pyround (fe_slippage f) 4\<rparr>]\<rparr>)"

definition update_equity :: "(string list \<Rightarrow> string list) \<Rightarrow> (string, pyfloat) dict \<Rightarrow> portfolio \<Rightarrow> portfolio" where
  "update_equity iter prices p =
     (let tickers = iter (dict_keys (pf_positions p) @ dict_keys prices);
          equity = fadd (pf_cash p) (fsum (map (\<lambda>t. fmul (get_num (pf_positions p) t) (get_num prices t)) tickers));
          prev = last (pf_equity p)
      in p\<lparr>pf_equity := pf_equity p @ [equity],
           pf_returns := pf_returns p @ [fdiv (fsub equity prev) (max \<bar>prev\<bar> TINY)]\<rparr>)"

definition current_gross_exposure :: "(string, pyfloat) dict \<Rightarrow> portfolio \<Rightarrow> pyfloat" where
  "current_gross_exposure prices p =
     (if last (pf_equity p) < TINY then 0
      else fdiv (fsum (map (\<lambda>(t, q). fmul \<bar>q\<bar> (case dict_get prices t of Some x \<Rightarrow> x | None \<Rightarrow> 1)) (pf_positions p)))
             (last (pf_equity p)))"

definition accrue_borrow :: "(string, pyfloat) dict \<Rightarrow> pyfloat \<Rightarrow> portfolio \<Rightarrow> portfolio" where
  "accrue_borrow prices rate p =
     (let daily = fsum (map (\<lambda>(t, q). fdiv (fmul (fmul \<bar>q\<bar> (get_num prices t)) rate) 252) (filter (\<lambda>(t, q). q < 0) (pf_positions p)))
      in p\<lparr>pf_cash := fsub (pf_cash p) daily, pf_borrow := fadd (pf_borrow p) daily\<rparr>)"

definition position_size_for_target :: "string \<Rightarrow> pyfloat \<Rightarrow> pyfloat \<Rightarrow> portfolio \<Rightarrow> pyfloat" where
  "position_size_for_target t target_pct price p =
     fdiv (fsub (fmul (last (pf_equity p)) target_pct) (fmul (get_num (pf_positions p) t) price)) (max price TINY)"

section \<open>Strategies\<close>

datatype strategy = MACrossover nat nat | Momentum nat nat nat | MeanReversion nat pyfloat

type_synonym history = "(string, pyfloat list) dict"

text \<open>\<^verbatim>\<open>xs[-n:]\<close>\<close>

definition last_n :: "nat \<Rightarrow> 'a list \<Rightarrow> 'a list" where
  "last_n n xs = (if n = 0 then xs else drop (length xs - n) xs)"

definition prepare :: "np_ops \<Rightarrow> strategy \<Rightarrow> history \<Rightarrow> history option" where
  "prepare np strat data =
     (case strat of
        MACrossover fast slow \<Rightarrow>
          (if list_all (\<lambda>(t, p). ma_crossover_series np p fast slow \<noteq> None) data
           then Some (map (\<lambda>(t, p). (t, the (ma_crossover_series np p fast slow))) data) else None)
      | _ \<Rightarrow> Some [])"

definition signal_to :: "nat \<Rightarrow> string \<Rightarrow> pyfloat \<Rightarrow> int \<Rightarrow> signal_event" where
  "signal_to bar t strength dir = \<lparr>sg_time = bar, sg_ticker = t, sg_strength = strength, sg_direction = dir\<rparr>"

text \<open>The series prepared for the ticker, or the latest bar of the history when there is none.\<close>

definition ma_signal :: "np_ops \<Rightarrow> nat \<Rightarrow> nat \<Rightarrow> history \<Rightarrow> history \<Rightarrow> nat \<Rightarrow> string \<Rightarrow> pyfloat" where
  "ma_signal np fast slow series hist bar t =
     (case dict_get series t of
        Some s \<Rightarrow> if bar < length s then s ! bar else 0
      | None \<Rightarrow>
          (let tail = last_n (max fast slow + 1) (case dict_get hist t of Some h \<Rightarrow> h | None \<Rightarrow> [])
           in if tail = [] then 0 else last (the (ma_crossover_series np tail fast slow))))"

definition momentum_scores :: "nat \<Rightarrow> history \<Rightarrow> (string \<times> pyfloat) list" where
  "momentum_scores lookback hist =
     map (\<lambda>(t, p). (t, fsub (fdiv (last p) (max (p ! (length p - lookback)) TINY)) 1))
       (filter (\<lambda>(t, p). lookback \<le> length p) hist)"

definition momentum_signals :: "nat \<Rightarrow> nat \<Rightarrow> nat \<Rightarrow> nat \<Rightarrow> history \<Rightarrow> signal_event list" where
  "momentum_signals bar lookback n_long n_short hist =
     (let ranked = sort_key (\<lambda>(t, s). - s) (momentum_scores lookback hist);
          n = length ranked; longs = min n_long (n div 3); shorts = min n_short (n div 3)
      in map (\<lambda>i. case ranked ! i of (t, s) \<Rightarrow>
           if i < longs then signal_to bar t s 1
           else if n - shorts \<le> i then signal_to bar t s (-1)
           else signal_to bar t 0 0) [0..<n])"

definition mean_reversion_signals :: "np_ops \<Rightarrow> nat \<Rightarrow> nat \<Rightarrow> pyfloat \<Rightarrow> string \<Rightarrow> history \<Rightarrow> signal_event list" where
  "mean_reversion_signals np bar window n_std t hist =
     (let prices = (case dict_get hist t of Some h \<Rightarrow> h | None \<Rightarrow> []) in
      if length prices < window then []
      else let w = last_n window prices; sd = np_std np 0 w
           in if sd < TINY then []
              else let z = fdiv (fsub (last prices) (np_mean np w)) sd
                   in if z < - n_std then [signal_to bar t (- z) 1]
                      else if n_std < z then [signal_to bar t z (-1)]
                      else if \<bar>z\<bar> < 1 / 2 then [signal_to bar t 0 0]
                      else [])"

text \<open>\<open>calls\<close> counts the calls, as \<^verbatim>\<open>MomentumStrategy._bar\<close> does.\<close>

definition on_market ::
  "np_ops \<Rightarrow> strategy \<Rightarrow> history \<Rightarrow> nat \<Rightarrow> history \<Rightarrow> string \<Rightarrow> nat \<Rightarrow> nat \<times> signal_event list" where
  "on_market np strat series bar hist t calls =
     (calls + 1,
      case strat of
        MACrossover fast slow \<Rightarrow>
          (let s = ma_signal np fast slow series hist bar t
           in if 0 < s then [signal_to bar t 1 1] else if s < 0 then [signal_to bar t (-1) (-1)] else [])
      | Momentum lookback n_long n_short \<Rightarrow>
          if (calls + 1) mod 5 \<noteq> 0 then [] else momentum_signals bar lookback n_long n_short hist
      | MeanReversion window n_std \<Rightarrow> mean_reversion_signals np bar window n_std t hist)"

section \<open>Sizing\<close>

datatype sizer = FixedFractional pyfloat | VolatilityTarget pyfloat nat

definition simple_returns :: "pyfloat list \<Rightarrow> pyfloat list" where
  "simple_returns h = map (\<lambda>i. fdiv (fsub (h ! (i + 1)) (h ! i)) (max (h ! i) TINY)) [0..<length h - 1]"

definition size_order :: "np_ops \<Rightarrow> sizer \<Rightarrow> signal_event \<Rightarrow> pyfloat \<Rightarrow> pyfloat \<Rightarrow> pyfloat list \<Rightarrow> pyfloat" where
  "size_order np sizer sg price equity returns =
     (case sizer of
        FixedFractional fraction \<Rightarrow>
          if price \<le> 0 then 0
          else fdiv (of_int (sg_direction sg) * fmul (fmul equity fraction) \<bar>sg_strength sg\<bar>) price
      | VolatilityTarget target_vol lookback \<Rightarrow>
          if price \<le> 0 \<or> length returns < lookback then 0
          else let vol = fmul (np_std np 1 (last_n lookback returns)) (np_sqrt np 252)
               in if vol < TINY then 0
                  else fdiv (of_int (sg_direction sg)
                         * min (fmul equity (min (fdiv target_vol vol) 5)) (fmul equity (1 / 4))) price)"

section \<open>The bar loop\<close>

record sim =
  sm_portfolio :: portfolio
  sm_history :: history
  sm_pending :: "order_event list"
  sm_calls :: nat

record backtest =
  su_tickers :: "string list"
  su_strategy :: strategy
  su_costs :: cost_model
  su_sizer :: sizer
  su_iter :: "string list \<Rightarrow> string list"

definition daily_vol :: "np_ops \<Rightarrow> pyfloat list \<Rightarrow> pyfloat" where
  "daily_vol np h = (if 12 \<le> length h then max (np_std np 1 (simple_returns (last_n 12 h))) (fl (1 / 10 ^ 6)) else fl (1 / 100))"

definition projected_gross :: "fill_rec \<Rightarrow> (string, pyfloat) dict \<Rightarrow> portfolio \<Rightarrow> pyfloat" where
  "projected_gross f prices p =
     (let held = fsum (map (\<lambda>(t, q). fmul \<bar>if t = fe_ticker f then fadd q (fe_quantity f) else q\<bar> (get_num prices t)) (pf_positions p));
          notional = (if dict_get (pf_positions p) (fe_ticker f) = None
                      then fadd held (fmul \<bar>fe_quantity f\<bar> (get_num prices (fe_ticker f))) else held)
      in fdiv notional (max (last (pf_equity p)) TINY))"

definition cap_short :: "cost_model \<Rightarrow> order_event \<Rightarrow> pyfloat \<Rightarrow> pyfloat \<Rightarrow> portfolio \<Rightarrow> fill_rec \<Rightarrow> fill_rec" where
  "cap_short cm ord open_price vol p f =
     (let pos = get_num (pf_positions p) (oe_ticker ord) in
      if fe_quantity f < 0 \<and> \<not> pf_allow_short p \<and> fadd pos (fe_quantity f) < 0
      then compute_fill cm (ord\<lparr>oe_quantity := - pos\<rparr>) open_price vol
      else f)"

definition fill_pending :: "np_ops \<Rightarrow> cost_model \<Rightarrow> (string, pyfloat) dict \<Rightarrow> history \<Rightarrow> order_event \<Rightarrow> portfolio \<Rightarrow> portfolio" where
  "fill_pending np cm prices hist ord p =
     (let open_price = get_num prices (oe_ticker ord) in
      if open_price \<le> 0 then p
      else let vol = daily_vol np (case dict_get hist (oe_ticker ord) of Some h \<Rightarrow> h | None \<Rightarrow> []);
               f = compute_fill cm ord open_price vol
           in if fadd (pf_leverage p) TINY < projected_gross f prices p then p
              else let g = cap_short cm ord open_price vol p f
                   in if fl (1 / 10 ^ 6) < \<bar>fe_quantity g\<bar> then process_fill g p else p)"

definition prices_at :: "history \<Rightarrow> string list \<Rightarrow> nat \<Rightarrow> (string, pyfloat) dict" where
  "prices_at data tickers bar =
     fold (\<lambda>t d. case dict_get data t of Some p \<Rightarrow> if bar < length p then dict_set t (p ! bar) d else d | None \<Rightarrow> d) tickers []"

definition extend_history :: "(string, pyfloat) dict \<Rightarrow> string list \<Rightarrow> history \<Rightarrow> history" where
  "extend_history prices tickers hist =
     fold (\<lambda>t h. case dict_get prices t of
        Some x \<Rightarrow> dict_set t ((case dict_get h t of Some p \<Rightarrow> p | None \<Rightarrow> []) @ [x]) h | None \<Rightarrow> h) tickers hist"

fun market_events ::
  "np_ops \<Rightarrow> strategy \<Rightarrow> history \<Rightarrow> nat \<Rightarrow> history \<Rightarrow> string list \<Rightarrow> nat \<Rightarrow> nat \<times> signal_event list" where
  "market_events np strat series bar hist [] calls = (calls, [])"
| "market_events np strat series bar hist (t # ts) calls =
     (let (c1, sgs) = on_market np strat series bar hist t calls;
          (c2, more) = market_events np strat series bar hist ts c1
      in (c2, sgs @ more))"

definition SMALL_ORDER :: pyfloat where "SMALL_ORDER = fl (1 / 10 ^ 4)"

definition order_for ::
  "np_ops \<Rightarrow> sizer \<Rightarrow> (string, pyfloat) dict \<Rightarrow> history \<Rightarrow> portfolio \<Rightarrow> nat \<Rightarrow> signal_event \<Rightarrow> order_event list" where
  "order_for np sizer prices hist p bar sg =
     (let price = get_num prices (sg_ticker sg);
          h = (case dict_get hist (sg_ticker sg) of Some x \<Rightarrow> x | None \<Rightarrow> []);
          returns = (if 2 < length h then simple_returns h else []);
          qty = size_order np sizer sg price (last (pf_equity p)) returns
      in if price \<le> 0 then []
         else if \<bar>qty\<bar> < SMALL_ORDER then []
         else if sg_direction sg = 0
         then (let held = get_num (pf_positions p) (sg_ticker sg)
               in if \<bar>held\<bar> < SMALL_ORDER then []
                  else [\<lparr>oe_time = bar, oe_ticker = sg_ticker sg, oe_quantity = - held\<rparr>])
         else [\<lparr>oe_time = bar, oe_ticker = sg_ticker sg, oe_quantity = qty\<rparr>])"

definition bar_step :: "np_ops \<Rightarrow> backtest \<Rightarrow> history \<Rightarrow> history \<Rightarrow> nat \<Rightarrow> sim \<Rightarrow> sim" where
  "bar_step np su data series bar s =
     (let prices = prices_at data (su_tickers su) bar;
          p1 = accrue_borrow prices (borrow_rate_annual (su_costs su)) (sm_portfolio s);
          p2 = (if 0 < bar then fold (fill_pending np (su_costs su) prices (sm_history s)) (sm_pending s) p1 else p1);
          hist = extend_history prices (su_tickers su) (sm_history s);
          (calls, sgs) = market_events np (su_strategy su) series bar hist (su_tickers su) (sm_calls s);
          orders = concat (map (order_for np (su_sizer su) prices hist p2 bar) sgs);
          pending = (if 0 < bar then [] else sm_pending s) @ orders
      in \<lparr>sm_portfolio = update_equity (su_iter su) prices p2, sm_history = hist, sm_pending = pending, sm_calls = calls\<rparr>)"

definition initial_sim :: "backtest \<Rightarrow> portfolio \<Rightarrow> sim" where
  "initial_sim su p = \<lparr>sm_portfolio = p, sm_history = fold (\<lambda>t. dict_set t []) (su_tickers su) [], sm_pending = [], sm_calls = 0\<rparr>"

definition run_bars :: "np_ops \<Rightarrow> backtest \<Rightarrow> history \<Rightarrow> history \<Rightarrow> portfolio \<Rightarrow> nat \<Rightarrow> sim" where
  "run_bars np su data series p n = fold (bar_step np su data series) [0..<n] (initial_sim su p)"

text \<open>\<open>None\<close>: a ticker has no prices, or the arrays are not of one length, or the strategy's windows are refused.\<close>

definition run_event_backtest :: "np_ops \<Rightarrow> backtest \<Rightarrow> history \<Rightarrow> portfolio \<Rightarrow> sim option" where
  "run_event_backtest np su data p =
     (case map_option remdups (those (map (\<lambda>t. map_option length (dict_get data t)) (su_tickers su))) of
        Some [n] \<Rightarrow>
          map_option (\<lambda>series. run_bars np su data series p n)
            (prepare np (su_strategy su) (map (\<lambda>t. (t, the (dict_get data t))) (su_tickers su)))
      | _ \<Rightarrow> None)"

definition cost_presets :: "(string, cost_model) dict" where
  "cost_presets =
     [(''zero_cost'', \<lparr>commission_pct = 0, spread_bps = 0, market_impact_bps = 0, borrow_rate_annual = 0, min_commission = 0\<rparr>),
      (''retail'', \<lparr>commission_pct = fl (1 / 1000), spread_bps = 5, market_impact_bps = 2, borrow_rate_annual = fl (15 / 1000),
                    min_commission = 1\<rparr>),
      (''institutional'', \<lparr>commission_pct = fl (2 / 10000), spread_bps = 1, market_impact_bps = 1 / 2, borrow_rate_annual = fl (5 / 1000),
                    min_commission = 1 / 2\<rparr>)]"

end
