(* ===== verification/Event_Properties.thy ===== *)
theory Event_Properties
  imports Event_Simulator
begin

text \<open>
  Properties of the event-driven backtester: positions stay long when short selling is off, the
  state after a number of bars does not depend on later prices, and signals to go flat are dropped.
\<close>

section \<open>Long only\<close>

definition long_only :: "portfolio \<Rightarrow> bool" where
  "long_only p \<longleftrightarrow> \<not> pf_allow_short p \<and> (\<forall>t. 0 \<le> get_num (pf_positions p) t)"

lemma get_num_set [simp]: "get_num (dict_set k v d) t = (if t = k then v else get_num d t)"
  by (simp add: get_num_def)

lemma process_fill_long:
  assumes "long_only p" "0 \<le> fadd (get_num (pf_positions p) (fe_ticker f)) (fe_quantity f)"
  shows "long_only (process_fill f p)"
  using assms by (simp add: long_only_def process_fill_def Let_def)

lemma compute_fill_fields [simp]: "fe_quantity (compute_fill cm ord base vol) = oe_quantity ord" "fe_ticker (compute_fill cm ord base vol) = oe_ticker ord"
  by (simp_all add: compute_fill_def Let_def)

lemma cap_short_long:
  assumes "long_only p" "g = cap_short cm ord open_price vol p (compute_fill cm ord open_price vol)"
  shows "fe_ticker g = oe_ticker ord \<and> 0 \<le> fadd (get_num (pf_positions p) (fe_ticker g)) (fe_quantity g)"
proof -
  have pos: "0 \<le> get_num (pf_positions p) (oe_ticker ord)" "\<not> pf_allow_short p" using assms(1) by (simp_all add: long_only_def)
  show ?thesis
  proof (cases "oe_quantity ord < 0 \<and> fadd (get_num (pf_positions p) (oe_ticker ord)) (oe_quantity ord) < 0")
    case True
    then have "g = compute_fill cm (ord\<lparr>oe_quantity := - get_num (pf_positions p) (oe_ticker ord)\<rparr>) open_price vol"
      using assms(2) pos(2) by (simp add: cap_short_def Let_def)
    then show ?thesis by (simp add: fadd_def)
  next
    case False
    then have "g = compute_fill cm ord open_price vol" using assms(2) by (auto simp: cap_short_def Let_def)
    then show ?thesis using False pos(1) fadd_nonneg by (auto simp: not_less)
  qed
qed

lemma fill_pending_long: "long_only p \<Longrightarrow> long_only (fill_pending np cm prices hist ord p)"
proof -
  assume p: "long_only p"
  let ?o = "get_num prices (oe_ticker ord)"
  let ?v = "daily_vol np (case dict_get hist (oe_ticker ord) of Some h \<Rightarrow> h | None \<Rightarrow> [])"
  have "long_only (process_fill (cap_short cm ord ?o ?v p (compute_fill cm ord ?o ?v)) p)"
    using cap_short_long [OF p refl, of cm ord ?o ?v] process_fill_long [OF p] by blast
  then show ?thesis using p by (simp add: fill_pending_def Let_def del: compute_fill_fields)
qed

lemma fills_long: "long_only p \<Longrightarrow> long_only (fold (fill_pending np cm prices hist) ords p)"
  by (induction ords arbitrary: p) (auto intro: fill_pending_long)

lemma bar_step_long:
  assumes "long_only (sm_portfolio s)"
  shows "long_only (sm_portfolio (bar_step np su data series bar s))"
proof -
  have "long_only (accrue_borrow prices rate p)" if "long_only p" for prices rate p
    using that by (simp add: long_only_def accrue_borrow_def Let_def)
  moreover have "long_only (update_equity iter prices p)" if "long_only p" for iter prices p
    using that by (simp add: long_only_def update_equity_def Let_def)
  ultimately show ?thesis using assms fills_long by (simp add: bar_step_def Let_def split: prod.split)
qed

lemma run_bars_long: "long_only p \<Longrightarrow> long_only (sm_portfolio (run_bars np su data series p n))"
  by (induction n) (simp_all add: run_bars_def initial_sim_def bar_step_long)

text \<open>
  C29: without permission to sell short no position ever becomes negative, whatever the strategy, the
  sizer, the costs and the prices: an order that would cross zero is cut to what is held.
\<close>

theorem backtest_stays_long:
  assumes "run_event_backtest np su data (new_portfolio capital False leverage) = Some s"
  shows "0 \<le> get_num (pf_positions (sm_portfolio s)) t"
proof -
  have "long_only (new_portfolio capital False leverage)" by (simp add: long_only_def new_portfolio_def get_num_def)
  from run_bars_long [OF this] have "long_only (sm_portfolio s)"
    using assms by (auto simp: run_event_backtest_def split: option.splits list.splits)
  then show ?thesis by (simp add: long_only_def)
qed

section \<open>No look-ahead\<close>

lemma ma_series_None: "ma_crossover_series np p fast slow = None \<longleftrightarrow> max fast slow = 0 \<and> p \<noteq> []"
  by (auto simp: ma_crossover_series_def Let_def)

lemma ma_series_same:
  assumes "take n p = take n p'" "i < n" "n \<le> length p" "n \<le> length p'" "max fast slow \<noteq> 0"
  shows "the (ma_crossover_series np p fast slow) ! i = the (ma_crossover_series np p' fast slow) ! i"
proof -
  obtain s s' where s: "ma_crossover_series np p fast slow = Some s" "ma_crossover_series np p' fast slow = Some s'"
    using ma_series_None [of np p fast slow] ma_series_None [of np p' fast slow] assms(5) by auto
  have "take (i + 1) p = take (i + 1) p'" using assms(1,2) by (metis Suc_eq_plus1 Suc_leI min.absorb1 take_take)
  then show ?thesis
    using ma_crossover_take [OF s(1), of i] ma_crossover_take [OF s(2), of i] assms(2-4) s by (auto simp del: take_Suc)
qed

definition same_past :: "nat \<Rightarrow> string list \<Rightarrow> history \<Rightarrow> history \<Rightarrow> bool" where
  "same_past n tickers data data' \<longleftrightarrow> (\<forall>t \<in> set tickers. \<exists>p p'. dict_get data t = Some p \<and> dict_get data' t = Some p'
     \<and> n \<le> length p \<and> n \<le> length p' \<and> take n p = take n p')"

lemma prices_same:
  assumes "same_past n tickers data data'" "i < n"
  shows "prices_at data tickers i = prices_at data' tickers i"
proof -
  have "(case dict_get data t of Some p \<Rightarrow> if i < length p then dict_set t (p ! i) d else d | None \<Rightarrow> d)
      = (case dict_get data' t of Some p \<Rightarrow> if i < length p then dict_set t (p ! i) d else d | None \<Rightarrow> d)" if "t \<in> set tickers" for t d
  proof -
    obtain p p' where p: "dict_get data t = Some p" "dict_get data' t = Some p'" "n \<le> length p" "n \<le> length p'" "take n p = take n p'"
      using assms(1) \<open>t \<in> set tickers\<close> by (auto simp: same_past_def)
    have "p ! i = p' ! i" using p(5) assms(2) by (metis nth_take)
    then show ?thesis using p assms(2) by simp
  qed
  then show ?thesis unfolding prices_at_def by (intro fold_cong) auto
qed

definition prepared :: "np_ops \<Rightarrow> backtest \<Rightarrow> history \<Rightarrow> history option" where
  "prepared np su data = prepare np (su_strategy su) (map (\<lambda>t. (t, the (dict_get data t))) (su_tickers su))"

lemma market_events_cong:
  assumes "\<And>t c. t \<in> set ts \<Longrightarrow> on_market np strat series bar hist t c = on_market np strat series' bar hist t c"
  shows "market_events np strat series bar hist ts c = market_events np strat series' bar hist ts c"
  using assms by (induction ts arbitrary: c) (auto simp: Let_def split: prod.split)

lemma dict_get_map_tickers: "t \<in> set ts \<Longrightarrow> dict_get (map (\<lambda>t. (t, f t)) ts) t = Some (f t)"
  by (induction ts) auto

lemma on_market_same:
  assumes "same_past n (su_tickers su) data data'" "i < n" "t \<in> set (su_tickers su)"
    and "prepared np su data = Some series" "prepared np su data' = Some series'"
  shows "on_market np (su_strategy su) series i hist t c = on_market np (su_strategy su) series' i hist t c"
proof (cases "su_strategy su")
  case (MACrossover fast slow)
  obtain p p' where p: "dict_get data t = Some p" "dict_get data' t = Some p'" "n \<le> length p" "n \<le> length p'" "take n p = take n p'"
    using assms(1,3) by (auto simp: same_past_def)
  let ?m = "\<lambda>d t. the (ma_crossover_series np (the (dict_get d t)) fast slow)"
  have ser: "series = map (\<lambda>t. (t, ?m data t)) (su_tickers su)" "series' = map (\<lambda>t. (t, ?m data' t)) (su_tickers su)"
    and ok: "ma_crossover_series np p fast slow \<noteq> None"
    using assms(3-5) p MACrossover by (auto simp: prepared_def prepare_def list_all_iff comp_def split: if_splits)
  have "p \<noteq> []" using p(3) assms(2) by auto
  then have "max fast slow \<noteq> 0" using ok ma_series_None [of np p fast slow] by simp
  from ma_series_same [OF p(5) assms(2) p(3,4) this] have "?m data t ! i = ?m data' t ! i" using p by simp
  moreover have "length (the (ma_crossover_series np q fast slow)) = length q" if "max fast slow \<noteq> 0" for q
    using that by (auto simp: ma_crossover_series_def Let_def)
  ultimately have "ma_signal np fast slow series hist i t = ma_signal np fast slow series' hist i t"
    using p assms(2) \<open>max fast slow \<noteq> 0\<close> by (simp add: ma_signal_def ser dict_get_map_tickers [OF assms(3)])
  then show ?thesis by (simp add: on_market_def MACrossover)
qed (use assms in \<open>simp_all add: on_market_def\<close>)

lemma run_bars_same:
  assumes "same_past n (su_tickers su) data data'" "prepared np su data = Some series" "prepared np su data' = Some series'" "k \<le> n"
  shows "run_bars np su data series p k = run_bars np su data' series' p k"
  using assms(4)
proof (induction k)
  case (Suc k)
  have "market_events np (su_strategy su) series k hist (su_tickers su) c
      = market_events np (su_strategy su) series' k hist (su_tickers su) c" for hist c
    using market_events_cong on_market_same [OF assms(1) _ _ assms(2,3)] Suc(2) by (metis Suc_le_lessD)
  then have "bar_step np su data series k s = bar_step np su data' series' k s" for s
    using prices_same [OF assms(1), of k] Suc(2) by (simp add: bar_step_def)
  then show ?case using Suc by (simp add: run_bars_def)
qed (simp add: run_bars_def)

text \<open>The record of a portfolio only grows.\<close>

definition extends :: "portfolio \<Rightarrow> portfolio \<Rightarrow> bool" where
  "extends a b \<longleftrightarrow> (\<exists>x. pf_equity b = pf_equity a @ x) \<and> (\<exists>x. pf_returns b = pf_returns a @ x) \<and> (\<exists>x. pf_log b = pf_log a @ x)"

lemma extends_refl [simp]: "extends p p"
  by (simp add: extends_def)

lemma extends_trans: "extends a b \<Longrightarrow> extends b c \<Longrightarrow> extends a c"
  by (auto simp: extends_def)

lemma fills_extend: "extends p (fold (fill_pending np cm prices hist) ords p) \<and> pf_equity (fold (fill_pending np cm prices hist) ords p) = pf_equity p"
proof (induction ords arbitrary: p)
  case (Cons ord ords)
  have "extends p (fill_pending np cm prices hist ord p) \<and> pf_equity (fill_pending np cm prices hist ord p) = pf_equity p"
    by (simp add: fill_pending_def process_fill_def extends_def Let_def)
  then show ?case using Cons [of "fill_pending np cm prices hist ord p"] extends_trans by auto
qed simp

lemma bar_step_extends:
  "extends (sm_portfolio s) (sm_portfolio (bar_step np su data series bar s))"
  "length (pf_equity (sm_portfolio (bar_step np su data series bar s))) = length (pf_equity (sm_portfolio s)) + 1"
proof -
  let ?prices = "prices_at data (su_tickers su) bar"
  let ?p1 = "accrue_borrow ?prices (borrow_rate_annual (su_costs su)) (sm_portfolio s)"
  let ?p2 = "if 0 < bar then fold (fill_pending np (su_costs su) ?prices (sm_history s)) (sm_pending s) ?p1 else ?p1"
  have step: "sm_portfolio (bar_step np su data series bar s) = update_equity (su_iter su) ?prices ?p2"
    by (simp add: bar_step_def Let_def split: prod.split)
  have "extends (sm_portfolio s) ?p1 \<and> pf_equity ?p1 = pf_equity (sm_portfolio s)" by (simp add: accrue_borrow_def extends_def Let_def)
  then have "extends (sm_portfolio s) ?p2 \<and> pf_equity ?p2 = pf_equity (sm_portfolio s)"
    using fills_extend [of ?p1] extends_trans by auto
  moreover have "extends p (update_equity (su_iter su) ?prices p) \<and> length (pf_equity (update_equity (su_iter su) ?prices p)) = length (pf_equity p) + 1" for p
    by (simp add: update_equity_def extends_def Let_def)
  ultimately show "extends (sm_portfolio s) (sm_portfolio (bar_step np su data series bar s))"
    "length (pf_equity (sm_portfolio (bar_step np su data series bar s))) = length (pf_equity (sm_portfolio s)) + 1"
    unfolding step using extends_trans [of _ ?p2] by (simp_all del: One_nat_def split del: if_split)
qed

lemma run_bars_length: "length (pf_equity (sm_portfolio (run_bars np su data series p n))) = length (pf_equity p) + n"
  by (induction n) (simp_all add: run_bars_def initial_sim_def bar_step_extends(2))

lemma run_bars_extends: "k \<le> n \<Longrightarrow> extends (sm_portfolio (run_bars np su data series p k)) (sm_portfolio (run_bars np su data series p n))"
proof (induction n)
  case (Suc n)
  show ?case
  proof (cases "k = Suc n")
    case False
    then have "extends (sm_portfolio (run_bars np su data series p k)) (sm_portfolio (run_bars np su data series p n))" using Suc by simp
    then show ?thesis using bar_step_extends(1) extends_trans unfolding run_bars_def by fastforce
  qed simp
qed simp

lemma those_image: "those (map f xs) = Some ys \<Longrightarrow> set ys = (\<lambda>x. the (f x)) ` set xs"
  by (induction xs arbitrary: ys) (auto split: option.splits)

lemma run_is_run_bars:
  assumes "run_event_backtest np su data p = Some s" "same_past n (su_tickers su) data data' \<or> same_past n (su_tickers su) data' data"
  obtains series m where "prepared np su data = Some series" "n \<le> m" "s = run_bars np su data series p m"
proof -
  obtain m series where m: "map_option remdups (those (map (\<lambda>t. map_option length (dict_get data t)) (su_tickers su))) = Some [m]"
    "prepared np su data = Some series" "s = run_bars np su data series p m"
    using assms(1) by (auto simp: run_event_backtest_def prepared_def split: option.splits list.splits)
  then obtain ls where ls: "those (map (\<lambda>t. map_option length (dict_get data t)) (su_tickers su)) = Some ls" "remdups ls = [m]" by auto
  then have "set ls = {m}" by (metis list.set(1) list.simps(15) set_remdups)
  moreover have "set ls = (\<lambda>t. the (map_option length (dict_get data t))) ` set (su_tickers su)"
    using those_image [OF ls(1)] .
  ultimately obtain t where t: "t \<in> set (su_tickers su)" "the (map_option length (dict_get data t)) = m"
    by (metis (no_types, lifting) imageE insertI1)
  then have "n \<le> m" using assms(2) by (fastforce simp: same_past_def)
  then show ?thesis using that m by blast
qed

text \<open>The time of a trade is the bar its order was made at, the one before the bar it was filled at.\<close>

lemma fills_log:
  assumes "\<forall>ord \<in> set ords. oe_time ord + 1 = k"
  shows "\<exists>x. pf_log (fold (fill_pending np cm prices hist) ords p) = pf_log p @ x \<and> (\<forall>e \<in> set x. le_time e + 1 = k)"
  using assms
proof (induction ords arbitrary: p)
  case (Cons ord ords)
  have "fe_time (cap_short cm ord o' v p' f) = oe_time ord" if "fe_time f = oe_time ord" for o' v p' f
    using that by (simp add: cap_short_def compute_fill_def Let_def)
  moreover have "fe_time (compute_fill cm ord o' v) = oe_time ord" for o' v by (simp add: compute_fill_def Let_def)
  ultimately have "\<exists>x. pf_log (fill_pending np cm prices hist ord p) = pf_log p @ x \<and> (\<forall>e \<in> set x. le_time e + 1 = k)"
    using Cons.prems by (simp add: fill_pending_def process_fill_def Let_def)
  then obtain x where x: "pf_log (fill_pending np cm prices hist ord p) = pf_log p @ x" "\<forall>e \<in> set x. le_time e + 1 = k" by blast
  obtain y where "pf_log (fold (fill_pending np cm prices hist) ords (fill_pending np cm prices hist ord p))
      = pf_log (fill_pending np cm prices hist ord p) @ y" "\<forall>e \<in> set y. le_time e + 1 = k"
    using Cons.IH [of "fill_pending np cm prices hist ord p"] Cons.prems by auto
  then show ?case using x by (intro exI [of _ "x @ y"]) auto
qed simp

lemma order_for_time: "ord \<in> set (order_for np sizer prices hist p bar sg) \<Longrightarrow> oe_time ord = bar"
  by (auto simp: order_for_def Let_def split: if_splits)

lemma bar_step_log:
  assumes "\<forall>ord \<in> set (sm_pending s). oe_time ord + 1 = bar"
  shows "\<exists>x. pf_log (sm_portfolio (bar_step np su data series bar s)) = pf_log (sm_portfolio s) @ x
      \<and> (\<forall>e \<in> set x. le_time e + 1 = bar)"
    and "\<forall>ord \<in> set (sm_pending (bar_step np su data series bar s)). oe_time ord + 1 = Suc bar"
proof -
  let ?prices = "prices_at data (su_tickers su) bar"
  let ?p1 = "accrue_borrow ?prices (borrow_rate_annual (su_costs su)) (sm_portfolio s)"
  have "pf_log ?p1 = pf_log (sm_portfolio s)" by (simp add: accrue_borrow_def Let_def)
  then show "\<exists>x. pf_log (sm_portfolio (bar_step np su data series bar s)) = pf_log (sm_portfolio s) @ x
      \<and> (\<forall>e \<in> set x. le_time e + 1 = bar)"
    using fills_log [OF assms, of np "su_costs su" ?prices "sm_history s" ?p1]
    by (auto simp: bar_step_def update_equity_def Let_def split: prod.split)
  have none: "bar = 0 \<Longrightarrow> sm_pending s = []" using assms by (cases "sm_pending s") auto
  show "\<forall>ord \<in> set (sm_pending (bar_step np su data series bar s)). oe_time ord + 1 = Suc bar"
    using none by (auto simp: bar_step_def Let_def dest!: order_for_time split: prod.splits if_splits)
qed

lemma run_bars_pending: "\<forall>ord \<in> set (sm_pending (run_bars np su data series p k)). oe_time ord + 1 = k"
  by (induction k) (use bar_step_log(2) in \<open>simp_all add: run_bars_def initial_sim_def\<close>)

lemma run_bars_Suc: "run_bars np su data series p (Suc m) = bar_step np su data series m (run_bars np su data series p m)"
  by (simp add: run_bars_def)

lemma run_bars_log:
  "n \<le> m \<Longrightarrow> \<exists>x. pf_log (sm_portfolio (run_bars np su data series p m)) = pf_log (sm_portfolio (run_bars np su data series p n)) @ x
     \<and> (\<forall>e \<in> set x. n \<le> le_time e + 1)"
proof (induction m)
  case (Suc m)
  show ?case
  proof (cases "n = Suc m")
    case False
    then obtain x where x: "pf_log (sm_portfolio (run_bars np su data series p m)) = pf_log (sm_portfolio (run_bars np su data series p n)) @ x"
      "\<forall>e \<in> set x. n \<le> le_time e + 1" using Suc by auto
    obtain y where "pf_log (sm_portfolio (run_bars np su data series p (Suc m))) = pf_log (sm_portfolio (run_bars np su data series p m)) @ y"
      "\<forall>e \<in> set y. le_time e + 1 = m"
      using bar_step_log(1) [OF run_bars_pending [of np su data series p m], of np su data series]
      unfolding run_bars_Suc by blast
    then show ?thesis using x False Suc(2) by (intro exI [of _ "x @ y"]) auto
  qed simp
qed simp

lemma run_bars_returns: "length (pf_returns (sm_portfolio (run_bars np su data series p n))) = length (pf_returns p) + n"
proof (induction n)
  case (Suc n)
  have fills: "pf_returns (fold (fill_pending np cm prices hist) ords q) = pf_returns q" for cm prices hist ords q
    by (induction ords arbitrary: q) (simp_all add: fill_pending_def process_fill_def Let_def)
  have "pf_returns (accrue_borrow prices rate q) = pf_returns q" for prices rate q by (simp add: accrue_borrow_def Let_def)
  then have "length (pf_returns (sm_portfolio (bar_step np su data series bar s))) = Suc (length (pf_returns (sm_portfolio s)))" for bar s
    by (simp add: bar_step_def update_equity_def fills Let_def split: prod.split)
  then show ?case using Suc by (simp add: run_bars_def)
qed (simp add: run_bars_def initial_sim_def)

text \<open>What the run has recorded once \<open>n\<close> bars are done.\<close>

definition recorded :: "nat \<Rightarrow> portfolio \<Rightarrow> portfolio \<Rightarrow> pyfloat list \<times> pyfloat list \<times> log_entry list" where
  "recorded n p q =
     (take (length (pf_equity p) + n) (pf_equity q), take (length (pf_returns p) + n) (pf_returns q),
      filter (\<lambda>e. le_time e + 1 < n) (pf_log q))"

lemma recorded_run:
  assumes "n \<le> m"
  shows "recorded n p (sm_portfolio (run_bars np su data series p m)) = recorded n p (sm_portfolio (run_bars np su data series p n))"
proof -
  let ?q = "sm_portfolio (run_bars np su data series p n)" and ?r = "sm_portfolio (run_bars np su data series p m)"
  obtain x where "pf_log ?r = pf_log ?q @ x" "\<forall>e \<in> set x. n \<le> le_time e + 1" using run_bars_log [OF assms] by blast
  then have "filter (\<lambda>e. le_time e + 1 < n) (pf_log ?r) = filter (\<lambda>e. le_time e + 1 < n) (pf_log ?q)"
    by (auto simp: filter_empty_conv)
  then show ?thesis using run_bars_extends [OF assms, of np su data series p]
    by (auto simp: recorded_def extends_def run_bars_length run_bars_returns)
qed

text \<open>
  C28: the backtest does not look ahead. Two runs of one strategy from one portfolio, whose prices agree for the first
  \<open>n\<close> bars and may differ arbitrarily after, record the same for those bars: the same equity and the same return at each of
  them, and the same trades, in the same order, among the orders made before the last of them (which fill one bar later,
  within the \<open>n\<close> bars). And both runs did record them: there are \<open>n\<close> further points of equity and of return.
\<close>

theorem backtest_has_no_look_ahead:
  assumes "run_event_backtest np su data p = Some s" "run_event_backtest np su data' p = Some s'"
    and "same_past n (su_tickers su) data data'"
  shows "recorded n p (sm_portfolio s) = recorded n p (sm_portfolio s')
    \<and> length (pf_equity p) + n \<le> length (pf_equity (sm_portfolio s)) \<and> length (pf_returns p) + n \<le> length (pf_returns (sm_portfolio s))"
proof -
  obtain series a where s: "prepared np su data = Some series" "n \<le> a" "s = run_bars np su data series p a"
    using run_is_run_bars [OF assms(1)] assms(3) by blast
  obtain series' b where s': "prepared np su data' = Some series'" "n \<le> b" "s' = run_bars np su data' series' p b"
    using run_is_run_bars [OF assms(2)] assms(3) by blast
  have "run_bars np su data series p n = run_bars np su data' series' p n" using run_bars_same [OF assms(3) s(1) s'(1)] by simp
  then show ?thesis using recorded_run [OF s(2)] recorded_run [OF s'(2)] s(2,3) s'(3)
    by (simp add: run_bars_length run_bars_returns)
qed

section \<open>Flat signals\<close>

lemma small_order_pos: "0 < SMALL_ORDER"
proof -
  have "fl ((1 / 2) ^ 14) \<le> SMALL_ORDER" unfolding SMALL_ORDER_def by (rule fl_mono) (simp add: power_divide)
  moreover have "fl ((1 / 2) ^ 14) = (1 / 2) ^ 14" using fl_exact [of 1 "-14"] by (simp add: power_int_def inverse_eq_divide)
  moreover have "(0 :: rat) < (1 / 2) ^ 14" by simp
  ultimately show ?thesis by linarith
qed

text \<open>
  A signal to go flat is dropped. An order's size is the signal's direction times a value, so a signal with direction zero
  has size zero and is discarded before the branch that would sell the position is reached: no strategy can close a
  position with a flat signal.
\<close>

theorem flat_signal_is_dropped:
  assumes "sg_direction sg = 0"
  shows "order_for np sizer prices hist p bar sg = []"
  using assms small_order_pos by (simp add: order_for_def size_order_def fdiv_def Let_def split: sizer.split)

section \<open>Concrete inputs\<close>

definition demo_backtest :: backtest where
  "demo_backtest = \<lparr>su_tickers = [''A''], su_strategy = MACrossover 1 2, su_costs = the (dict_get cost_presets ''retail''),
     su_sizer = FixedFractional (1 / 4), su_iter = remdups\<rparr>"

definition demo_prices :: "pyfloat \<Rightarrow> history" where
  "demo_prices x = [(''A'', [10, 8, 12, 16, x])]"

lemma demo_backtest_runs:
  "\<exists>s. run_event_backtest demo_np demo_backtest (demo_prices x) (new_portfolio 1000 False 1) = Some s"
proof -
  have "ma_crossover_series demo_np [10, 8, 12, 16, x] 1 2 \<noteq> None" using ma_series_None [of demo_np "[10, 8, 12, 16, x]" 1 2] by simp
  then show ?thesis by (simp add: run_event_backtest_def demo_backtest_def demo_prices_def prepare_def)
qed

theorem backtest_stays_long_witness:
  "\<exists>s. run_event_backtest demo_np demo_backtest (demo_prices 4) (new_portfolio 1000 False 1) = Some s
     \<and> 0 \<le> get_num (pf_positions (sm_portfolio s)) ''A''"
  using demo_backtest_runs [of 4] backtest_stays_long by blast

theorem backtest_has_no_look_ahead_witness:
  "\<exists>s s'. run_event_backtest demo_np demo_backtest (demo_prices 4) (new_portfolio 1000 False 1) = Some s
     \<and> run_event_backtest demo_np demo_backtest (demo_prices 40) (new_portfolio 1000 False 1) = Some s'
     \<and> take 5 (pf_equity (sm_portfolio s)) = take 5 (pf_equity (sm_portfolio s')) \<and> 5 \<le> length (pf_equity (sm_portfolio s))
     \<and> filter (\<lambda>e. le_time e + 1 < 4) (pf_log (sm_portfolio s)) = filter (\<lambda>e. le_time e + 1 < 4) (pf_log (sm_portfolio s'))"
proof -
  let ?p = "new_portfolio 1000 False 1"
  obtain s s' where s: "run_event_backtest demo_np demo_backtest (demo_prices 4) ?p = Some s"
    "run_event_backtest demo_np demo_backtest (demo_prices 40) ?p = Some s'"
    using demo_backtest_runs by meson
  have "same_past 4 (su_tickers demo_backtest) (demo_prices 4) (demo_prices 40)"
    by (simp add: same_past_def demo_backtest_def demo_prices_def eval_nat_numeral)
  from backtest_has_no_look_ahead [OF s this] show ?thesis using s by (auto simp: new_portfolio_def recorded_def)
qed

theorem flat_signal_is_dropped_witness:
  "order_for demo_np (FixedFractional (1 / 4)) [(''A'', 10)] [(''A'', [10])]
     ((new_portfolio 1000 False 1)\<lparr>pf_positions := [(''A'', 50)]\<rparr>) 3 (signal_to 3 ''A'' 0 0) = []"
  by (rule flat_signal_is_dropped) (simp add: signal_to_def)

end
