(* ===== verification/Python_Net.thy ===== *)
theory Python_Net
  imports Redis_Store Json_Reader
begin

text \<open>
  What the integration service uses of Python's \<^verbatim>\<open>ipaddress\<close> and \<^verbatim>\<open>urllib.parse\<close> (Python 3.12, the
  version the image is built on): reading an address, the special-purpose networks, splitting a URL.
  Texts are ASCII, so that the check of non-ASCII host names is left out; \<open>None\<close> stands for \<^verbatim>\<open>ValueError\<close>.
\<close>

section \<open>Reading addresses\<close>

datatype ipaddr = V4 nat | V6 nat

definition is_digit :: "char \<Rightarrow> bool" where
  "is_digit c \<longleftrightarrow> 48 \<le> (of_char c :: nat) \<and> (of_char c :: nat) \<le> 57"

definition char_lower :: "char \<Rightarrow> char" where
  "char_lower c = (let n = of_char c :: nat in if 65 \<le> n \<and> n \<le> 90 then char_of (n + 32) else c)"

definition hex_val :: "char \<Rightarrow> nat option" where
  "hex_val c = hex_value (char_lower c)"

definition nat_of_digits :: "nat \<Rightarrow> string \<Rightarrow> nat" where
  "nat_of_digits base s = fold (\<lambda>c n. base * n + the (hex_val c)) s 0"

definition all_digits :: "string \<Rightarrow> bool" where
  "all_digits s \<longleftrightarrow> s \<noteq> [] \<and> list_all is_digit s"

definition v4 :: "nat \<Rightarrow> nat \<Rightarrow> nat \<Rightarrow> nat \<Rightarrow> nat" where
  "v4 a b c d = ((a * 256 + b) * 256 + c) * 256 + d"

definition parse_octet :: "string \<Rightarrow> nat option" where
  "parse_octet s =
     (if \<not> all_digits s \<or> 3 < length s \<or> (1 < length s \<and> hd s = CHR ''0'') \<or> 255 < nat_of_digits 10 s then None
      else Some (nat_of_digits 10 s))"

definition parse_v4 :: "string \<Rightarrow> nat option" where
  "parse_v4 s = (case those (map parse_octet (split_on (CHR ''.'') s)) of Some [a, b, c, d] \<Rightarrow> Some (v4 a b c d) | _ \<Rightarrow> None)"

text \<open>A part between colons: \<open>None\<close> inside is an empty part.\<close>

definition hextet :: "string \<Rightarrow> nat option option" where
  "hextet s =
     (if s = [] then Some None
      else if length s \<le> 4 \<and> list_all (\<lambda>c. hex_val c \<noteq> None) s then Some (Some (nat_of_digits 16 s))
      else None)"

definition v6_parts :: "string \<Rightarrow> nat option list option" where
  "v6_parts s =
     (let parts = split_on (CHR '':'') s;
          end_parts = (if CHR ''.'' \<in> set (last parts)
                       then map_option (\<lambda>n. [Some (n div 65536), Some (n mod 65536)]) (parse_v4 (last parts))
                       else map_option (\<lambda>h. [h]) (hextet (last parts)))
      in if length parts < 3 then None
         else Option.bind (those (map hextet (butlast parts))) (\<lambda>front. map_option (\<lambda>tail. front @ tail) end_parts))"

definition of_hextets :: "nat list \<Rightarrow> nat" where
  "of_hextets hs = fold (\<lambda>h n. 65536 * n + h) hs 0"

definition v6_value :: "nat option list \<Rightarrow> nat option" where
  "v6_value vals =
     (if 9 < length vals then None
      else case filter (\<lambda>i. vals ! i = None) [1..<length vals - 1] of
             [] \<Rightarrow> if length vals = 8 \<and> hd vals \<noteq> None \<and> last vals \<noteq> None then Some (of_hextets (map the vals)) else None
           | [k] \<Rightarrow>
               (let hi = map the (filter (\<lambda>v. v \<noteq> None) (take k vals));
                    lo = map the (filter (\<lambda>v. v \<noteq> None) (drop (Suc k) vals))
                in if (hd vals = None \<and> k \<noteq> 1) \<or> (last vals = None \<and> k \<noteq> length vals - 2) \<or> 8 \<le> length hi + length lo
                   then None
                   else Some (of_hextets (hi @ replicate (8 - (length hi + length lo)) 0 @ lo)))
           | _ \<Rightarrow> None)"

text \<open>The zone after \<^verbatim>\<open>%\<close> does not take part in the value.\<close>

definition split_scope :: "string \<Rightarrow> string option" where
  "split_scope s =
     (let a = takeWhile (\<lambda>c. c \<noteq> CHR ''%'') s; zone = drop (Suc (length a)) s
      in if CHR ''/'' \<in> set s then None
         else if a = s then Some s
         else if zone = [] \<or> CHR ''%'' \<in> set zone then None else Some a)"

definition parse_v6 :: "string \<Rightarrow> nat option" where
  "parse_v6 s = Option.bind (split_scope s) (\<lambda>a. Option.bind (v6_parts a) v6_value)"

definition ip_address :: "string \<Rightarrow> ipaddr option" where
  "ip_address s = (case parse_v4 s of Some a \<Rightarrow> Some (V4 a) | None \<Rightarrow> map_option V6 (parse_v6 s))"

section \<open>Special-purpose networks\<close>

text \<open>A network is its first address and its prefix length; \<open>bits\<close> is the width of the address.\<close>

definition in_net :: "nat \<Rightarrow> nat \<Rightarrow> nat \<times> nat \<Rightarrow> bool" where
  "in_net bits a n \<longleftrightarrow> a div 2 ^ (bits - snd n) = fst n div 2 ^ (bits - snd n)"

definition v6_net :: "nat list \<Rightarrow> nat" where
  "v6_net hs = of_hextets (hs @ replicate (8 - length hs) 0)"

definition v4_private_networks :: "(nat \<times> nat) list" where
  "v4_private_networks =
     [(v4 0 0 0 0, 8), (v4 10 0 0 0, 8), (v4 127 0 0 0, 8), (v4 169 254 0 0, 16), (v4 172 16 0 0, 12), (v4 192 0 0 0, 24),
      (v4 192 0 0 170, 31), (v4 192 0 2 0, 24), (v4 192 168 0 0, 16), (v4 198 18 0 0, 15), (v4 198 51 100 0, 24),
      (v4 203 0 113 0, 24), (v4 240 0 0 0, 4), (v4 255 255 255 255, 32)]"

definition v4_private_exceptions :: "(nat \<times> nat) list" where
  "v4_private_exceptions = [(v4 192 0 0 9, 32), (v4 192 0 0 10, 32)]"

definition v6_private_networks :: "(nat \<times> nat) list" where
  "v6_private_networks =
     [(1, 128), (0, 128), (v6_net [0, 0, 0, 0, 0, 0xFFFF], 96), (v6_net [0x64, 0xFF9B, 1], 48), (v6_net [0x100], 64),
      (v6_net [0x2001], 23), (v6_net [0x2001, 0xDB8], 32), (v6_net [0x2002], 16), (v6_net [0xFC00], 7), (v6_net [0xFE80], 10)]"

definition v6_private_exceptions :: "(nat \<times> nat) list" where
  "v6_private_exceptions =
     [(v6_net [0x2001, 1, 0, 0, 0, 0, 0, 1], 128), (v6_net [0x2001, 1, 0, 0, 0, 0, 0, 2], 128), (v6_net [0x2001, 3], 32),
      (v6_net [0x2001, 4, 0x112], 48), (v6_net [0x2001, 0x20], 28), (v6_net [0x2001, 0x30], 28)]"

definition v6_reserved_networks :: "(nat \<times> nat) list" where
  "v6_reserved_networks =
     [(v6_net [0], 8), (v6_net [0x100], 8), (v6_net [0x200], 7), (v6_net [0x400], 6), (v6_net [0x800], 5), (v6_net [0x1000], 4),
      (v6_net [0x4000], 3), (v6_net [0x6000], 3), (v6_net [0x8000], 3), (v6_net [0xA000], 3), (v6_net [0xC000], 3),
      (v6_net [0xE000], 4), (v6_net [0xF000], 5), (v6_net [0xF800], 6), (v6_net [0xFE00], 9)]"

definition v4_is_private :: "nat \<Rightarrow> bool" where
  "v4_is_private a \<longleftrightarrow> list_ex (in_net 32 a) v4_private_networks \<and> \<not> list_ex (in_net 32 a) v4_private_exceptions"

fun is_private :: "ipaddr \<Rightarrow> bool" where
  "is_private (V4 a) = v4_is_private a"
| "is_private (V6 a) =
     (if a div 2 ^ 32 = 0xFFFF then v4_is_private (a mod 2 ^ 32)
      else list_ex (in_net 128 a) v6_private_networks \<and> \<not> list_ex (in_net 128 a) v6_private_exceptions)"

fun is_loopback :: "ipaddr \<Rightarrow> bool" where
  "is_loopback (V4 a) = in_net 32 a (v4 127 0 0 0, 8)"
| "is_loopback (V6 a) = (a = 1)"

fun is_link_local :: "ipaddr \<Rightarrow> bool" where
  "is_link_local (V4 a) = in_net 32 a (v4 169 254 0 0, 16)"
| "is_link_local (V6 a) = in_net 128 a (v6_net [0xFE80], 10)"

fun is_multicast :: "ipaddr \<Rightarrow> bool" where
  "is_multicast (V4 a) = in_net 32 a (v4 224 0 0 0, 4)"
| "is_multicast (V6 a) = in_net 128 a (v6_net [0xFF00], 8)"

fun is_reserved :: "ipaddr \<Rightarrow> bool" where
  "is_reserved (V4 a) = in_net 32 a (v4 240 0 0 0, 4)"
| "is_reserved (V6 a) = list_ex (in_net 128 a) v6_reserved_networks"

fun is_unspecified :: "ipaddr \<Rightarrow> bool" where
  "is_unspecified (V4 a) = (a = 0)"
| "is_unspecified (V6 a) = (a = 0)"

section \<open>Splitting URLs\<close>

text \<open>\<open>pu_port\<close>: \<open>None\<close> when the port is not a number up to 65535, so that reading it raises.\<close>

record parsed_url =
  pu_scheme :: string
  pu_host :: "string option"
  pu_port :: "nat option option"

definition is_letter :: "char \<Rightarrow> bool" where
  "is_letter c \<longleftrightarrow> (let n = of_char c :: nat in 65 \<le> n \<and> n \<le> 90 \<or> 97 \<le> n \<and> n \<le> 122)"

definition is_scheme_char :: "char \<Rightarrow> bool" where
  "is_scheme_char c \<longleftrightarrow> is_letter c \<or> is_digit c \<or> c \<in> set ''+-.''"

definition clean_url :: "string \<Rightarrow> string" where
  "clean_url s = filter (\<lambda>c. (of_char c :: nat) \<notin> {9, 10, 13}) (dropWhile (\<lambda>c. (of_char c :: nat) \<le> 32) s)"

definition before :: "char \<Rightarrow> string \<Rightarrow> string" where
  "before c s = takeWhile (\<lambda>x. x \<noteq> c) s"

definition after :: "char \<Rightarrow> string \<Rightarrow> string" where
  "after c s = drop (Suc (length (before c s))) s"

definition split_scheme :: "string \<Rightarrow> string \<times> string" where
  "split_scheme s =
     (let p = before (CHR '':'') s in
      if p \<noteq> s \<and> p \<noteq> [] \<and> is_letter (hd p) \<and> list_all is_scheme_char p then (map char_lower p, after (CHR '':'') s) else ([], s))"

definition netloc_of :: "string \<Rightarrow> string" where
  "netloc_of rest = (if take 2 rest = ''//'' then takeWhile (\<lambda>c. c \<notin> set ''/?#'') (drop 2 rest) else [])"

text \<open>\<^verbatim>\<open>rpartition('@')[2]\<close>.\<close>

definition host_part :: "string \<Rightarrow> string" where
  "host_part netloc = last (split_on (CHR ''@'') netloc)"

definition bracketed_host_ok :: "string \<Rightarrow> bool" where
  "bracketed_host_ok h =
     (if take 1 h = ''v''
      then (let hex = takeWhile (\<lambda>c. hex_val c \<noteq> None) (tl h); rest = drop (length hex) (tl h)
            in hex \<noteq> [] \<and> take 1 rest = ''.'' \<and> tl rest \<noteq> [])
      else (case ip_address h of Some (V6 _) \<Rightarrow> True | _ \<Rightarrow> False))"

definition brackets_ok :: "string \<Rightarrow> bool" where
  "brackets_ok netloc =
     (let opening = CHR ''['' \<in> set netloc; closing = CHR '']'' \<in> set netloc; hp = host_part netloc in
      if opening \<noteq> closing then False
      else if \<not> opening then True
      else if CHR ''['' \<in> set hp
      then before (CHR ''['') hp = []
           \<and> (let port = after (CHR '']'') (after (CHR ''['') hp) in port = [] \<or> hd port = CHR '':'')
           \<and> bracketed_host_ok (before (CHR '']'') (after (CHR ''['') hp))
      else bracketed_host_ok (before (CHR '':'') hp))"

definition host_and_port :: "string \<Rightarrow> string \<times> string" where
  "host_and_port netloc =
     (let hp = host_part netloc in
      if CHR ''['' \<in> set hp
      then (let b = after (CHR ''['') hp in (before (CHR '']'') b, after (CHR '':'') (after (CHR '']'') b)))
      else (before (CHR '':'') hp, after (CHR '':'') hp))"

definition urlparse :: "string \<Rightarrow> parsed_url option" where
  "urlparse url =
     (let (scheme, rest) = split_scheme (clean_url url);
          netloc = netloc_of rest;
          (h, port) = host_and_port netloc;
          zone = before (CHR ''%'') h
      in if \<not> brackets_ok netloc then None
         else Some \<lparr>pu_scheme = scheme,
                    pu_host = (if h = [] then None else Some (map char_lower zone @ drop (length zone) h)),
                    pu_port = (if port = [] then Some None
                               else if all_digits port \<and> nat_of_digits 10 port \<le> 65535 then Some (Some (nat_of_digits 10 port))
                               else None)\<rparr>)"

end
