(* ===== verification/Integration_Service.thy ===== *)
theory Integration_Service
  imports Python_Net
begin

text \<open>
  \<^verbatim>\<open>src/backend/services/integration_service.py\<close> and its handlers in \<^verbatim>\<open>main.py\<close>: API keys with scopes,
  signed API requests, webhooks and their delivery. SHA-256, HMAC and Fernet are arguments; so are the
  resolver's answers (\<open>ie_dns k\<close> is its \<open>k\<close>-th answer, which may differ from call to call), the host and port
  the \<^verbatim>\<open>requests\<close> library dials for a URL, and whether a POST succeeds. Instants are microseconds since the
  epoch. Every handler here commits what it changes at once, so the state is the database itself.
\<close>

section \<open>Rows\<close>

record api_key =
  ak_id :: string
  ak_user :: string
  ak_name :: string
  ak_prefix :: string
  ak_hash :: string
  ak_secret :: "string option"
  ak_scopes :: "string list option"
  ak_used :: "int option"
  ak_expires :: "int option"
  ak_revoked :: bool
  ak_created :: int

record webhook =
  wh_id :: string
  wh_user :: string
  wh_url :: string
  wh_secret :: string
  wh_events :: "string list option"
  wh_active :: bool
  wh_delivered :: "int option"
  wh_created :: int

record integration_db =
  id_keys :: "api_key list"
  id_hooks :: "webhook list"

text \<open>One POST: the addresses the name resolution answered with (\<open>None\<close>: it failed), the headers and the body.\<close>

record delivery =
  dl_hook :: string
  dl_url :: string
  dl_targets :: "string list option"
  dl_event :: string
  dl_signature :: string
  dl_body :: string

record integration_env =
  ie_sha :: "string \<Rightarrow> string"
  ie_mac :: "string \<Rightarrow> string \<Rightarrow> string"
  ie_encrypt :: "string \<Rightarrow> string"
  ie_decrypt :: "string \<Rightarrow> string option"
  ie_float :: "pyfloat \<Rightarrow> string"
  ie_clock :: "nat \<Rightarrow> int"
  ie_dns :: "nat \<Rightarrow> string \<Rightarrow> nat \<Rightarrow> string list option"
  ie_dial :: "string \<Rightarrow> string \<times> nat"
  ie_post :: "delivery \<Rightarrow> bool"

type_synonym audit_call = "string \<times> string \<times> string \<times> string"

section \<open>API keys\<close>

definition generate_api_key :: "integration_env \<Rightarrow> string \<Rightarrow> string \<Rightarrow> string \<times> string \<times> string \<times> string" where
  "generate_api_key e token secret = (let raw = ''qs_'' @ token in (raw, take 11 raw, ie_sha e raw, secret))"

definition key_allows :: "string \<Rightarrow> api_key \<Rightarrow> bool" where
  "key_allows scope k \<longleftrightarrow> (let scopes = (case ak_scopes k of Some xs \<Rightarrow> xs | None \<Rightarrow> []) in scope \<in> set scopes \<or> ''admin'' \<in> set scopes)"

definition key_expired :: "int \<Rightarrow> api_key \<Rightarrow> bool" where
  "key_expired now k = (case ak_expires k of Some t \<Rightarrow> t < now | None \<Rightarrow> False)"

definition touch_key :: "int \<Rightarrow> api_key \<Rightarrow> integration_db \<Rightarrow> integration_db" where
  "touch_key used k d = d\<lparr>id_keys := sql_update (\<lambda>r. ak_id r = ak_id k) (\<lambda>r. r\<lparr>ak_used := Some used\<rparr>) (id_keys d)\<rparr>"

definition verify_api_key ::
  "integration_env \<Rightarrow> int \<Rightarrow> int \<Rightarrow> string \<Rightarrow> string \<Rightarrow> integration_db \<Rightarrow> integration_db \<times> api_key option" where
  "verify_api_key e now used raw_key scope d =
     (case List.find (\<lambda>k. ak_hash k = ie_sha e raw_key \<and> \<not> ak_revoked k) (id_keys d) of
        None \<Rightarrow> (d, None)
      | Some k \<Rightarrow>
          if \<not> key_allows scope k \<or> key_expired now k then (d, None)
          else (touch_key used k d, Some (k\<lparr>ak_used := Some used\<rparr>)))"

text \<open>\<^verbatim>\<open>int(text)\<close>: white space around, a sign, digits with single underscores between them.\<close>

definition is_ascii :: "string \<Rightarrow> bool" where
  "is_ascii s \<longleftrightarrow> list_all (\<lambda>c. (of_char c :: nat) < 128) s"

definition int_space :: "bool \<Rightarrow> char \<Rightarrow> bool" where
  "int_space plain c \<longleftrightarrow> (if plain then (of_char c :: nat) \<in> {9, 10, 11, 12, 13, 32} else is_space c)"

definition int_of_text :: "string \<Rightarrow> int option" where
  "int_of_text s =
     (let sp = int_space (is_ascii s);
          t = rev (dropWhile sp (rev (dropWhile sp s)));
          digits = (if take 1 t = ''-'' \<or> take 1 t = ''+'' then tl t else t)
      in if list_all all_digits (split_on (CHR ''_'') digits)
         then Some ((if take 1 t = ''-'' then - 1 else 1) * int (nat_of_digits 10 (filter (\<lambda>c. c \<noteq> CHR ''_'') digits)))
         else None)"

definition WINDOW :: int where "WINDOW = 30"

definition fresh_timestamp :: "int \<Rightarrow> string \<Rightarrow> bool" where
  "fresh_timestamp now timestamp =
     (case int_of_text timestamp of Some ts \<Rightarrow> \<bar>now div 1000000 - ts\<bar> \<le> WINDOW | None \<Rightarrow> False)"

definition hmac_message :: "(string \<Rightarrow> string) \<Rightarrow> string \<Rightarrow> string \<Rightarrow> string \<Rightarrow> string \<Rightarrow> string \<Rightarrow> string" where
  "hmac_message sha meth path timestamp nonce body =
     str_upper meth @ ''||'' @ path @ ''||'' @ timestamp @ ''||'' @ nonce @ ''||'' @ sha body"

text \<open>\<^verbatim>\<open>compare_digest\<close> refuses a signature that is not ASCII with a \<^verbatim>\<open>TypeError\<close>, which nothing catches.\<close>

definition verify_hmac_request ::
  "integration_env \<Rightarrow> int \<Rightarrow> int \<Rightarrow> string \<Rightarrow> string \<Rightarrow> string \<Rightarrow> string \<Rightarrow> string \<Rightarrow> string \<Rightarrow> string \<Rightarrow> string \<Rightarrow> integration_db
     \<Rightarrow> integration_db \<times> (http_error + api_key option)" where
  "verify_hmac_request e now used key_id timestamp nonce signature meth path body scope d =
     (case List.find (\<lambda>k. ak_id k = key_id \<and> \<not> ak_revoked k) (id_keys d) of
        None \<Rightarrow> (d, Inr None)
      | Some k \<Rightarrow>
          if \<not> key_allows scope k \<or> key_expired now k then (d, Inr None)
          else if \<not> fresh_timestamp now timestamp then (d, Inr None)
          else (case (case ak_secret k of Some c \<Rightarrow> if c = [] then None else ie_decrypt e c | None \<Rightarrow> None) of
                  None \<Rightarrow> (d, Inr None)
                | Some secret \<Rightarrow>
                    if \<not> is_ascii signature then (d, Inl (HTTP 500))
                    else if signature \<noteq> ie_mac e secret (hmac_message (ie_sha e) meth path timestamp nonce body) then (d, Inr None)
                    else (touch_key used k d, Inr (Some (k\<lparr>ak_used := Some used\<rparr>)))))"

section \<open>The API-key dependency of the handlers\<close>

record api_headers =
  x_api_key :: "string option"
  x_key_id :: "string option"
  x_timestamp :: "string option"
  x_nonce :: "string option"
  x_signature :: "string option"

definition present :: "string option \<Rightarrow> bool" where
  "present x = (case x of Some y \<Rightarrow> y \<noteq> [] | None \<Rightarrow> False)"

definition hmac_headers :: "api_headers \<Rightarrow> bool" where
  "hmac_headers h \<longleftrightarrow> present (x_key_id h) \<and> present (x_timestamp h) \<and> present (x_nonce h) \<and> present (x_signature h)"

text \<open>\<open>r\<close>: Redis's answer for the nonce; \<open>n0\<close>, \<open>n1\<close>: the nonce store's clock reads.\<close>

definition require_api_scope ::
  "integration_env \<Rightarrow> bool \<Rightarrow> bool redis \<Rightarrow> pyfloat \<Rightarrow> pyfloat \<Rightarrow> int \<Rightarrow> int \<Rightarrow> string \<Rightarrow> api_headers \<Rightarrow> string \<Rightarrow> string \<Rightarrow> string
     \<Rightarrow> memory \<times> integration_db \<Rightarrow> (memory \<times> integration_db) \<times> (http_error + api_key)" where
  "require_api_scope e production r n0 n1 now used scope h meth path body st =
     (let (m, d) = st in
      if hmac_headers h
      then (case verify_hmac_request e now used (the (x_key_id h)) (the (x_timestamp h)) (the (x_nonce h)) (the (x_signature h))
                   meth path body scope d of
              (d1, Inl err) \<Rightarrow> ((m, d1), Inl err)
            | (d1, Inr None) \<Rightarrow> ((m, d1), Inl (HTTP 403))
            | (d1, Inr (Some k)) \<Rightarrow>
                (case consume_api_nonce (ie_sha e) production r (the (x_key_id h)) (the (x_nonce h)) n0 n1 m of
                   (m1, Inl _) \<Rightarrow> ((m1, d1), Inl (HTTP 500))
                 | (m1, Inr False) \<Rightarrow> ((m1, d1), Inl (HTTP 409))
                 | (m1, Inr True) \<Rightarrow> ((m1, d1), Inr k)))
      else if \<not> present (x_api_key h) then ((m, d), Inl (HTTP 401))
      else (case verify_api_key e now used (the (x_api_key h)) scope d of
              (d1, None) \<Rightarrow> ((m, d1), Inl (HTTP 403))
            | (d1, Some k) \<Rightarrow> ((m, d1), Inr k)))"

section \<open>Handlers of API keys\<close>

text \<open>The second component of a result is the audit events the handler writes.\<close>

definition list_api_keys :: "string \<Rightarrow> integration_db \<Rightarrow> api_key list" where
  "list_api_keys user d = sort_key (\<lambda>k. - ak_created k) (filter (\<lambda>k. ak_user k = user) (id_keys d))"

definition create_api_key ::
  "integration_env \<Rightarrow> string \<Rightarrow> string \<Rightarrow> string \<Rightarrow> int \<Rightarrow> string \<Rightarrow> string \<Rightarrow> string list \<Rightarrow> integration_db
     \<Rightarrow> integration_db \<times> audit_call list \<times> (http_error + api_key \<times> string \<times> string)" where
  "create_api_key e token secret new_id now user name scopes d =
     (let (raw, prefix, digest, hmac_secret) = generate_api_key e token secret;
          k = \<lparr>ak_id = new_id, ak_user = user, ak_name = strip name, ak_prefix = prefix, ak_hash = digest,
               ak_secret = Some (ie_encrypt e hmac_secret), ak_scopes = Some scopes, ak_used = None, ak_expires = None,
               ak_revoked = False, ak_created = now\<rparr>
      in if list_ex (\<lambda>r. ak_id r = new_id \<or> ak_hash r = digest) (id_keys d) then (d, [], Inl (HTTP 500))
         else (d\<lparr>id_keys := id_keys d @ [k]\<rparr>, [(user, ''API_KEY_CREATED'', ''api_key'', new_id)], Inr (k, raw, hmac_secret)))"

definition revoke_api_key ::
  "string \<Rightarrow> string \<Rightarrow> integration_db \<Rightarrow> integration_db \<times> audit_call list \<times> (http_error + string)" where
  "revoke_api_key key_id user d =
     (case List.find (\<lambda>k. ak_id k = key_id) (id_keys d) of
        None \<Rightarrow> (d, [], Inl (HTTP 404))
      | Some k \<Rightarrow>
          if ak_user k \<noteq> user then (d, [], Inl (HTTP 404))
          else (d\<lparr>id_keys := sql_update (\<lambda>r. ak_id r = key_id) (\<lambda>r. r\<lparr>ak_revoked := True\<rparr>) (id_keys d)\<rparr>,
                [(user, ''API_KEY_REVOKED'', ''api_key'', key_id)], Inr key_id))"

section \<open>Public addresses\<close>

definition is_public_address :: "string \<Rightarrow> bool option" where
  "is_public_address a = map_option (\<lambda>ip. \<not> (is_private ip \<or> is_loopback ip \<or> is_link_local ip \<or> is_multicast ip
     \<or> is_reserved ip \<or> is_unspecified ip)) (ip_address a)"

fun all_public :: "string list \<Rightarrow> bool option" where
  "all_public [] = Some True"
| "all_public (a # as) = (case is_public_address a of None \<Rightarrow> None | Some False \<Rightarrow> Some False | Some True \<Rightarrow> all_public as)"

text \<open>\<open>None\<close>: an address that cannot be read raises; \<open>Some None\<close>: not eligible.\<close>

definition resolve_public_addresses :: "string list option \<Rightarrow> string list option option" where
  "resolve_public_addresses answer =
     (case answer of
        None \<Rightarrow> Some None
      | Some infos \<Rightarrow>
          (let addresses = sort (remdups infos) in
           if addresses = [] then Some None
           else map_option (\<lambda>ok. if ok then Some addresses else None) (all_public addresses)))"

definition https_port :: "nat option \<Rightarrow> nat" where
  "https_port p = (case p of Some n \<Rightarrow> if n = 0 then 443 else n | None \<Rightarrow> 443)"

type_synonym pins = "(string \<times> nat, string list) dict"

definition patched_getaddrinfo :: "pins \<Rightarrow> (string \<Rightarrow> nat \<Rightarrow> string list option) \<Rightarrow> string \<Rightarrow> nat \<Rightarrow> string list option" where
  "patched_getaddrinfo pins resolver host port = (case dict_get pins (host, port) of Some as \<Rightarrow> Some as | None \<Rightarrow> resolver host port)"

definition is_public_https :: "pins \<Rightarrow> (string \<Rightarrow> nat \<Rightarrow> string list option) \<Rightarrow> string \<Rightarrow> bool option" where
  "is_public_https pins dns url =
     (case urlparse url of
        None \<Rightarrow> None
      | Some u \<Rightarrow>
          (case pu_host u of
             None \<Rightarrow> Some False
           | Some host \<Rightarrow>
               if pu_scheme u \<noteq> ''https'' then Some False
               else (case pu_port u of
                       None \<Rightarrow> None
                     | Some p \<Rightarrow> map_option (\<lambda>r. r \<noteq> None) (resolve_public_addresses (patched_getaddrinfo pins dns host (https_port p))))))"

section \<open>Webhooks\<close>

definition list_webhooks :: "string \<Rightarrow> integration_db \<Rightarrow> webhook list" where
  "list_webhooks user d = sort_key (\<lambda>h. - wh_created h) (filter (\<lambda>h. wh_user h = user) (id_hooks d))"

definition create_webhook ::
  "integration_env \<Rightarrow> pins \<Rightarrow> nat \<Rightarrow> string \<Rightarrow> string \<Rightarrow> int \<Rightarrow> string \<Rightarrow> string \<Rightarrow> string list \<Rightarrow> integration_db
     \<Rightarrow> integration_db \<times> audit_call list \<times> (http_error + webhook \<times> string)" where
  "create_webhook e pins k secret new_id now user url events d =
     (case is_public_https pins (ie_dns e k) url of
        None \<Rightarrow> (d, [], Inl (HTTP 500))
      | Some False \<Rightarrow> (d, [], Inl (HTTP 422))
      | Some True \<Rightarrow>
          (let h = \<lparr>wh_id = new_id, wh_user = user, wh_url = url, wh_secret = ie_encrypt e secret, wh_events = Some events,
                    wh_active = True, wh_delivered = None, wh_created = now\<rparr>
           in if list_ex (\<lambda>r. wh_id r = new_id) (id_hooks d) then (d, [], Inl (HTTP 500))
              else (d\<lparr>id_hooks := id_hooks d @ [h]\<rparr>, [(user, ''WEBHOOK_CREATED'', ''webhook'', new_id)], Inr (h, secret))))"

definition delete_webhook ::
  "string \<Rightarrow> string \<Rightarrow> integration_db \<Rightarrow> integration_db \<times> audit_call list \<times> (http_error + string)" where
  "delete_webhook hook_id user d =
     (case List.find (\<lambda>h. wh_id h = hook_id) (id_hooks d) of
        None \<Rightarrow> (d, [], Inl (HTTP 404))
      | Some h \<Rightarrow>
          if wh_user h \<noteq> user then (d, [], Inl (HTTP 404))
          else (d\<lparr>id_hooks := sql_update (\<lambda>r. wh_id r = hook_id) (\<lambda>r. r\<lparr>wh_active := False\<rparr>) (id_hooks d)\<rparr>,
                [(user, ''WEBHOOK_DISABLED'', ''webhook'', hook_id)], Inr hook_id))"

text \<open>The state of one call: the thread's pins, the name resolutions so far, the POSTs made, the database.\<close>

record emitter =
  em_pins :: pins
  em_calls :: nat
  em_sent :: "delivery list"
  em_db :: integration_db

definition pin_dns_to :: "string \<Rightarrow> nat \<Rightarrow> string list \<Rightarrow> pins \<Rightarrow> pins" where
  "pin_dns_to host port addresses pins = dict_set (host, port) addresses pins"

definition unpin_dns :: "string \<Rightarrow> nat \<Rightarrow> pins \<Rightarrow> pins" where
  "unpin_dns host port pins = dict_pop (host, port) pins"

text \<open>The body of the \<^verbatim>\<open>with\<close> block and what follows it; a failed POST leaves the row as it was.\<close>

definition post_pinned ::
  "integration_env \<Rightarrow> string \<Rightarrow> string \<Rightarrow> webhook \<Rightarrow> string \<Rightarrow> nat \<Rightarrow> string list \<Rightarrow> string \<Rightarrow> emitter \<Rightarrow> emitter" where
  "post_pinned e event envelope h host port addresses secret s =
     (let pinned = pin_dns_to host port addresses (em_pins s);
          (dial_host, dial_port) = ie_dial e (wh_url h);
          dv = \<lparr>dl_hook = wh_id h, dl_url = wh_url h,
                dl_targets = patched_getaddrinfo pinned (ie_dns e (em_calls s)) dial_host dial_port,
                dl_event = event, dl_signature = ''sha256='' @ ie_mac e secret envelope, dl_body = envelope\<rparr>;
          ok = (dl_targets dv \<noteq> None \<and> ie_post e dv);
          d = em_db s
      in s\<lparr>em_pins := unpin_dns host port pinned, em_calls := Suc (em_calls s), em_sent := em_sent s @ [dv],
           em_db := (if ok
                     then d\<lparr>id_hooks := sql_update (\<lambda>r. wh_id r = wh_id h)
                              (\<lambda>r. r\<lparr>wh_delivered := Some (ie_clock e (em_calls s))\<rparr>) (id_hooks d)\<rparr>
                     else d)\<rparr>)"

definition deliver :: "integration_env \<Rightarrow> string \<Rightarrow> string \<Rightarrow> webhook \<Rightarrow> emitter \<Rightarrow> emitter" where
  "deliver e event envelope h s =
     (if event \<notin> set (case wh_events h of Some xs \<Rightarrow> xs | None \<Rightarrow> []) then s
      else case urlparse (wh_url h) of
             None \<Rightarrow> s
           | Some u \<Rightarrow>
               (case pu_host u of
                  None \<Rightarrow> s
                | Some host \<Rightarrow>
                    if pu_scheme u \<noteq> ''https'' then s
                    else (case pu_port u of
                            None \<Rightarrow> s
                          | Some p \<Rightarrow>
                              (let port = https_port p; s1 = s\<lparr>em_calls := Suc (em_calls s)\<rparr> in
                               case resolve_public_addresses
                                      (patched_getaddrinfo (em_pins s) (ie_dns e (em_calls s)) host port) of
                                 Some (Some addresses) \<Rightarrow>
                                   (case ie_decrypt e (wh_secret h) of
                                      None \<Rightarrow> s1
                                    | Some secret \<Rightarrow> post_pinned e event envelope h host port addresses secret s1)
                               | _ \<Rightarrow> s1))))"

definition active_hooks :: "string \<Rightarrow> integration_db \<Rightarrow> webhook list" where
  "active_hooks user d = filter (\<lambda>h. wh_user h = user \<and> wh_active h) (id_hooks d)"

definition emit_webhooks :: "integration_env \<Rightarrow> string \<Rightarrow> string \<Rightarrow> json \<Rightarrow> emitter \<Rightarrow> emitter" where
  "emit_webhooks e user event payload s =
     fold (deliver e event (json_text True (ie_float e) (JObj [(''event'', JStr event), (''data'', payload)])))
       (active_hooks user (em_db s)) s"

end
