(* ===== verification/Integration_Properties.thy ===== *)
theory Integration_Properties
  imports Integration_Service
begin

text \<open>
  Properties of API keys and webhooks: who is accepted, that a revoked key stays revoked, that a signed
  request is accepted once by all processes that share Redis, and where webhooks with plain URLs are delivered.
\<close>

section \<open>Which requests are accepted\<close>

lemma find_in_set: "List.find P xs = Some x \<Longrightarrow> x \<in> set xs \<and> P x"
  by (auto simp: find_Some_iff)

lemma verify_api_key_accepts:
  assumes "verify_api_key e now used raw scope d = (d1, Some k)"
  shows "\<exists>r \<in> set (id_keys d). ak_id k = ak_id r \<and> \<not> ak_revoked r \<and> \<not> key_expired now r \<and> key_allows scope r \<and> ak_hash r = ie_sha e raw"
  using assms by (auto simp: verify_api_key_def split: option.splits if_splits dest!: find_in_set)

lemma verify_hmac_accepts:
  assumes "verify_hmac_request e now used key_id ts nonce sig meth path body scope d = (d1, Inr (Some k))"
  shows "\<exists>r \<in> set (id_keys d). ak_id k = ak_id r \<and> \<not> ak_revoked r \<and> \<not> key_expired now r \<and> key_allows scope r \<and> ak_id r = key_id
    \<and> fresh_timestamp now ts
    \<and> (\<exists>c secret. ak_secret r = Some c \<and> ie_decrypt e c = Some secret
         \<and> sig = ie_mac e secret (hmac_message (ie_sha e) meth path ts nonce body))"
proof -
  obtain r where r: "List.find (\<lambda>k. ak_id k = key_id \<and> \<not> ak_revoked k) (id_keys d) = Some r"
    using assms by (cases "List.find (\<lambda>k. ak_id k = key_id \<and> \<not> ak_revoked k) (id_keys d)") (auto simp: verify_hmac_request_def)
  then have "r \<in> set (id_keys d)" "ak_id r = key_id" "\<not> ak_revoked r" using find_in_set [OF r] by auto
  moreover have "key_allows scope r" "\<not> key_expired now r" "fresh_timestamp now ts" "ak_id k = ak_id r"
    "\<exists>c secret. ak_secret r = Some c \<and> ie_decrypt e c = Some secret
       \<and> sig = ie_mac e secret (hmac_message (ie_sha e) meth path ts nonce body)"
    using assms by (auto simp: verify_hmac_request_def r split: if_splits option.splits)
  ultimately show ?thesis by blast
qed

lemma require_api_scope_hmac:
  assumes "hmac_headers h" "require_api_scope e production r n0 n1 now used scope h meth path body (m, d) = ((m1, d1), Inr k)"
  shows "verify_hmac_request e now used (the (x_key_id h)) (the (x_timestamp h)) (the (x_nonce h)) (the (x_signature h))
           meth path body scope d = (d1, Inr (Some k))
    \<and> consume_api_nonce (ie_sha e) production r (the (x_key_id h)) (the (x_nonce h)) n0 n1 m = (m1, Inr True)"
  using assms by (auto simp: require_api_scope_def split: prod.splits sum.splits option.splits bool.splits)

lemma require_api_scope_bearer:
  assumes "\<not> hmac_headers h" "require_api_scope e production r n0 n1 now used scope h meth path body (m, d) = ((m1, d1), Inr k)"
  shows "verify_api_key e now used (the (x_api_key h)) scope d = (d1, Some k) \<and> m1 = m"
  using assms by (auto simp: require_api_scope_def split: prod.splits option.splits if_splits)

text \<open>
  An accepted API request is authorised. The key it runs as is stored, not revoked, not expired and has
  the handler's scope or the scope \<^verbatim>\<open>admin\<close>; the request either carries the key whose hash is stored, or a
  timestamp within thirty seconds and the HMAC, under the key's secret, of its method, path, timestamp, nonce and body.
\<close>

theorem api_request_is_authorised:
  assumes "require_api_scope e production r n0 n1 now used scope h meth path body (m, d) = ((m1, d1), Inr k)"
  shows "\<exists>row \<in> set (id_keys d). ak_id k = ak_id row \<and> \<not> ak_revoked row \<and> \<not> key_expired now row \<and> key_allows scope row
    \<and> (if hmac_headers h
       then fresh_timestamp now (the (x_timestamp h))
            \<and> (\<exists>c secret. ak_secret row = Some c \<and> ie_decrypt e c = Some secret
                 \<and> the (x_signature h) = ie_mac e secret
                     (hmac_message (ie_sha e) meth path (the (x_timestamp h)) (the (x_nonce h)) body))
       else ak_hash row = ie_sha e (the (x_api_key h)))"
proof (cases "hmac_headers h")
  case True
  show ?thesis using verify_hmac_accepts [OF conjunct1 [OF require_api_scope_hmac [OF True assms]]] True by auto
next
  case False
  show ?thesis using verify_api_key_accepts [OF conjunct1 [OF require_api_scope_bearer [OF False assms]]] False by auto
qed

definition demo_env :: integration_env where
  "demo_env = \<lparr>ie_sha = rev, ie_mac = (\<lambda>k m. k @ m), ie_encrypt = (\<lambda>s. s), ie_decrypt = Some, ie_float = (\<lambda>x. ''0''),
     ie_clock = int, ie_dns = (\<lambda>k host port. Some [if k = 0 then ''8.8.8.8'' else ''10.0.0.1'']),
     ie_dial = (\<lambda>url. case urlparse url of
        Some u \<Rightarrow> (case pu_host u of Some h \<Rightarrow> (h, case pu_port u of Some p \<Rightarrow> https_port p | None \<Rightarrow> 0) | None \<Rightarrow> ([], 0))
      | None \<Rightarrow> ([], 0)), ie_post = (\<lambda>d. True)\<rparr>"

definition demo_key :: api_key where
  "demo_key = \<lparr>ak_id = ''k'', ak_user = ''u'', ak_name = ''bot'', ak_prefix = ''qs_t'', ak_hash = ''t_sq'', ak_secret = Some ''s'',
     ak_scopes = Some [''trade''], ak_used = None, ak_expires = None, ak_revoked = False, ak_created = 0\<rparr>"

definition demo_headers :: api_headers where
  "demo_headers = \<lparr>x_api_key = None, x_key_id = Some ''k'', x_timestamp = Some ''7'', x_nonce = Some ''n'',
     x_signature = Some ''sPOST||/o||7||n||b''\<rparr>"

definition demo_memory :: memory where
  "demo_memory = \<lparr>mem_kv = [], mem_nonces = [], mem_kills = []\<rparr>"

lemma demo_request: "fresh_timestamp 8000000 ''7''" "str_upper ''post'' = ''POST''"
  by code_simp+

lemma demo_accepted:
  "require_api_scope demo_env True NoClient 8 8 8000000 9 ''trade'' demo_headers ''post'' ''/o'' ''b''
     (demo_memory, \<lparr>id_keys = [demo_key], id_hooks = []\<rparr>) =
   ((\<lparr>mem_kv = [(''qs:api:nonce:n:k'', ''1'', Some 308)], mem_nonces = [], mem_kills = []\<rparr>,
     \<lparr>id_keys = [demo_key\<lparr>ak_used := Some 9\<rparr>], id_hooks = []\<rparr>), Inr (demo_key\<lparr>ak_used := Some 9\<rparr>))"
  using demo_request
  by (simp add: require_api_scope_def hmac_headers_def present_def demo_headers_def verify_hmac_request_def demo_key_def
      demo_env_def key_allows_def key_expired_def is_ascii_def hmac_message_def touch_key_def
      sql_update_def consume_api_nonce_def api_nonce_key_def set_nx_ex_def with_redis_def mem_set_nx_def cleanup_mem_def
      demo_memory_def NONCE_TTL_def fadd_def)

theorem api_request_is_authorised_witness:
  "fresh_timestamp 8000000 ''7'' \<and> \<not> ak_revoked demo_key \<and> key_allows ''trade'' demo_key"
  using api_request_is_authorised [OF demo_accepted]
  by (simp add: hmac_headers_def present_def demo_headers_def)

section \<open>Revocation\<close>

text \<open>Everything that changes the keys or the hooks, in any order and by any user.\<close>

datatype integration_op =
    MakeKey string string string int string string "string list"
  | RevokeKey string string
  | UseKey int int string string
  | UseSigned int int string string string string string string string string
  | MakeHook pins nat string string int string string "string list"
  | DropHook string string
  | Emit pins nat string string json

fun integration_step :: "integration_env \<Rightarrow> integration_op \<Rightarrow> integration_db \<Rightarrow> integration_db" where
  "integration_step e (MakeKey token secret i now user name scopes) d = fst (create_api_key e token secret i now user name scopes d)"
| "integration_step e (RevokeKey i user) d = fst (revoke_api_key i user d)"
| "integration_step e (UseKey now used raw scope) d = fst (verify_api_key e now used raw scope d)"
| "integration_step e (UseSigned now used i ts nonce sig meth path body scope) d =
     fst (verify_hmac_request e now used i ts nonce sig meth path body scope d)"
| "integration_step e (MakeHook pins k secret i now user url events) d = fst (create_webhook e pins k secret i now user url events d)"
| "integration_step e (DropHook i user) d = fst (delete_webhook i user d)"
| "integration_step e (Emit pins k user event payload) d =
     em_db (emit_webhooks e user event payload \<lparr>em_pins = pins, em_calls = k, em_sent = [], em_db = d\<rparr>)"

definition keys_wf :: "integration_db \<Rightarrow> bool" where
  "keys_wf d \<longleftrightarrow> distinct (map ak_id (id_keys d)) \<and> distinct (map ak_hash (id_keys d))"

definition key_dead :: "string \<times> string \<Rightarrow> integration_db \<Rightarrow> bool" where
  "key_dead ih d \<longleftrightarrow> (\<exists>k \<in> set (id_keys d). ak_id k = fst ih \<and> ak_hash k = snd ih \<and> ak_revoked k)"

lemma keys_of_deliver: "id_keys (em_db (deliver e event envelope h s)) = id_keys (em_db s)"
  by (simp add: deliver_def post_pinned_def Let_def split: option.splits prod.splits)

lemma keys_of_emit: "id_keys (em_db (emit_webhooks e user event payload s)) = id_keys (em_db s)"
proof -
  have "id_keys (em_db (fold (deliver e event envelope) hs s)) = id_keys (em_db s)" for envelope hs
    by (induction hs arbitrary: s) (simp_all add: keys_of_deliver)
  then show ?thesis by (simp add: emit_webhooks_def)
qed

text \<open>What a step does to the keys: an update that keeps identity, hash and revocation, or a new row.\<close>

definition keys_updated :: "api_key list \<Rightarrow> api_key list \<Rightarrow> bool" where
  "keys_updated ks ks' \<longleftrightarrow> (\<exists>p f. ks' = sql_update p f ks
     \<and> (\<forall>k. ak_id (f k) = ak_id k \<and> ak_hash (f k) = ak_hash k \<and> (ak_revoked k \<longrightarrow> ak_revoked (f k))))"

lemma keys_updated_refl [simp]: "keys_updated ks ks"
  unfolding keys_updated_def by (rule exI [of _ "\<lambda>_. False"], rule exI [of _ id]) (simp add: sql_update_def)

lemma keys_updated_by:
  "(\<And>k. ak_id (f k) = ak_id k \<and> ak_hash (f k) = ak_hash k \<and> (ak_revoked k \<longrightarrow> ak_revoked (f k))) \<Longrightarrow> keys_updated ks (sql_update p f ks)"
  by (auto simp: keys_updated_def)

lemma keys_updated_touch [simp]: "keys_updated (id_keys d) (id_keys (touch_key used k d))"
  by (simp add: touch_key_def keys_updated_by)

lemma step_keys:
  "keys_updated (id_keys d) (id_keys (integration_step e op d))
   \<or> (\<exists>k. id_keys (integration_step e op d) = id_keys d @ [k] \<and> \<not> list_ex (\<lambda>r. ak_id r = ak_id k \<or> ak_hash r = ak_hash k) (id_keys d))"
proof (cases op)
  case (MakeKey token secret i now user name scopes)
  then show ?thesis by (auto simp: create_api_key_def generate_api_key_def Let_def)
next
  case (RevokeKey i user)
  then show ?thesis by (auto simp: revoke_api_key_def keys_updated_by split: option.split)
next
  case (UseKey now used raw scope)
  then show ?thesis by (auto simp: verify_api_key_def split: option.split)
next
  case (UseSigned now used i ts nonce sig meth path body scope)
  then show ?thesis by (auto simp: verify_hmac_request_def split: option.split)
next
  case (MakeHook pins k secret i now user url events)
  then show ?thesis by (auto simp: create_webhook_def Let_def split: option.split bool.split)
next
  case (DropHook i user)
  then show ?thesis by (auto simp: delete_webhook_def split: option.split)
next
  case (Emit pins k user event payload)
  then show ?thesis by (simp add: keys_of_emit)
qed

lemma key_dead_update: "key_dead ih d \<Longrightarrow> keys_updated (id_keys d) (id_keys d') \<Longrightarrow> key_dead ih d'"
  by (fastforce simp: key_dead_def keys_updated_def ex_sql_update)

lemma keys_wf_step: "keys_wf d \<Longrightarrow> keys_wf (integration_step e op d)"
  using step_keys [of d e op] by (fastforce simp: keys_wf_def keys_updated_def map_sql_update list_ex_iff)

lemma key_dead_step: "key_dead ih d \<Longrightarrow> key_dead ih (integration_step e op d)"
  using step_keys [of d e op] by (auto simp: key_dead_update) (auto simp: key_dead_def)

interpretation api_keys: sealed_machine "integration_step e" keys_wf "\<lambda>_ _. True" key_dead for e
  by unfold_locales (simp_all add: keys_wf_step key_dead_step)

lemma dead_key_refused:
  assumes "keys_wf d" "key_dead (i, ie_sha e raw) d"
  shows "snd (verify_api_key e now used raw scope d) = None"
    and "snd (verify_hmac_request e now used i ts nonce sig meth path body scope d) = Inr None"
proof -
  obtain k where k: "k \<in> set (id_keys d)" "ak_id k = i" "ak_hash k = ie_sha e raw" "ak_revoked k"
    using assms(2) by (auto simp: key_dead_def)
  have "r = k" if "r \<in> set (id_keys d)" "ak_hash r = ie_sha e raw \<or> ak_id r = i" for r
    using that k assms(1) by (auto simp: keys_wf_def distinct_map inj_on_def)
  then have "List.find (\<lambda>k. ak_hash k = ie_sha e raw \<and> \<not> ak_revoked k) (id_keys d) = None"
    "List.find (\<lambda>k. ak_id k = i \<and> \<not> ak_revoked k) (id_keys d) = None"
    using k(4) by (auto simp: find_None_iff)
  then show "snd (verify_api_key e now used raw scope d) = None"
    "snd (verify_hmac_request e now used i ts nonce sig meth path body scope d) = Inr None"
    by (simp_all add: verify_api_key_def verify_hmac_request_def)
qed

text \<open>
  C32: revoking a key is final. Once its owner revoked a key, no sequence of key and webhook operations
  (creating keys, using others, revoking again) makes it acceptable again, as a bearer key or for signing;
  and whoever is not its owner cannot revoke it.
\<close>

theorem revocation_is_final:
  assumes "keys_wf d" "k \<in> set (id_keys d)" "ak_hash k = ie_sha e raw"
  shows "(case revoke_api_key (ak_id k) user d of
            (d1, audit, Inl err) \<Rightarrow> ak_user k \<noteq> user \<and> d1 = d \<and> audit = []
          | (d1, audit, Inr _) \<Rightarrow> ak_user k = user
              \<and> snd (verify_api_key e now used raw scope (fold (integration_step e) ops d1)) = None
              \<and> snd (verify_hmac_request e now used (ak_id k) ts nonce sig meth path body scope (fold (integration_step e) ops d1)) = Inr None)"
proof -
  let ?d1 = "d\<lparr>id_keys := sql_update (\<lambda>r. ak_id r = ak_id k) (\<lambda>r. r\<lparr>ak_revoked := True\<rparr>) (id_keys d)\<rparr>"
  have "List.find (\<lambda>r. ak_id r = ak_id k) (id_keys d) = Some k"
  proof (cases "List.find (\<lambda>r. ak_id r = ak_id k) (id_keys d)")
    case None
    then show ?thesis using assms(2) by (auto simp: find_None_iff)
  next
    case (Some r)
    then show ?thesis using find_in_set [OF Some] assms(1,2) by (auto simp: keys_wf_def distinct_map inj_on_def)
  qed
  then have r: "revoke_api_key (ak_id k) user d =
      (if ak_user k \<noteq> user then (d, [], Inl (HTTP 404))
       else (?d1, [(user, ''API_KEY_REVOKED'', ''api_key'', ak_id k)], Inr (ak_id k)))"
    by (simp add: revoke_api_key_def)
  have "key_dead (ak_id k, ie_sha e raw) ?d1" using assms(2,3) by (auto simp: key_dead_def ex_sql_update)
  moreover have wf: "keys_wf ?d1" using assms(1) by (auto simp: keys_wf_def map_sql_update)
  ultimately have "key_dead (ak_id k, ie_sha e raw) (fold (integration_step e) ops ?d1)"
    by (rule api_keys.sealed_run [rotated 2]) simp
  then show ?thesis using dead_key_refused api_keys.inv_run [OF wf, of e ops] by (simp add: r)
qed

theorem revocation_is_final_witness:
  "\<exists>d1. revoke_api_key ''k'' ''u'' \<lparr>id_keys = [demo_key], id_hooks = []\<rparr> = (d1, [(''u'', ''API_KEY_REVOKED'', ''api_key'', ''k'')], Inr ''k'')
     \<and> snd (verify_api_key demo_env 0 0 ''qs_t'' ''trade'' d1) = None"
  using revocation_is_final [of "\<lparr>id_keys = [demo_key], id_hooks = []\<rparr>" demo_key demo_env "''qs_t''" "''u''" 0 0 "''trade''" "[]"]
  by (simp add: keys_wf_def demo_key_def demo_env_def revoke_api_key_def)

section \<open>Replays\<close>

lemma nonce_still_held:
  assumes "wf_dict (mem_kv m)" "mem_set_nx q ttl n0 n1 m = (m1, True)" "admissible (store_ok q) store_step ops (m1, n1)"
    and "fold store_step ops (m1, n1) = (m2, clk)" "clk \<le> n0'" "n0' \<le> n1'" "n1' < fadd n1 ttl"
  shows "snd (mem_set_nx q ttl' n0' n1' m2) = False"
proof -
  have "dict_get (mem_kv m1) q = Some (''1'', Some (fadd n1 ttl))"
    using assms(2) by (auto simp: mem_set_nx_def Let_def split: option.splits if_splits)
  then have h: "held_until q (fadd n1 ttl) (m1, n1)" by (simp add: held_until_def)
  have wf: "mem_wf (m1, n1)" using mem_set_nx_wf [OF assms(1), of q ttl n0 n1] assms(2) by (simp add: mem_wf_def)
  have "held_until q (fadd n1 ttl) (m2, clk)" "wf_dict (mem_kv m2)"
    using nonces.sealed_run [OF wf assms(3) h] nonces.inv_run [OF wf assms(3)] assms(4) by (simp_all add: mem_wf_def)
  then have "held_until q (fadd n1 ttl) (cleanup_mem n0' m2, n0')" using cleanup_held assms(5) by blast
  then show ?thesis using assms(6,7) by (auto simp: held_until_def mem_set_nx_def Let_def split: option.splits)
qed

text \<open>Two fresh uses of one timestamp are at most sixty-one seconds apart.\<close>

lemma fresh_twice:
  assumes "fresh_timestamp now ts" "fresh_timestamp now' ts"
  shows "(of_int now' :: pyfloat) / 1000000 < of_int now / 1000000 + 61"
proof -
  obtain t where "\<bar>now div 1000000 - t\<bar> \<le> 30" "\<bar>now' div 1000000 - t\<bar> \<le> 30"
    using assms by (auto simp: fresh_timestamp_def WINDOW_def split: option.splits)
  moreover have "now' = 1000000 * (now' div 1000000) + now' mod 1000000" "now' mod 1000000 < 1000000"
    "now = 1000000 * (now div 1000000) + now mod 1000000" "0 \<le> now mod 1000000" by simp_all
  ultimately have "now' < now + 61000000" by linarith
  then have "(of_int now' :: pyfloat) < of_int (now + 61000000)" by (simp only: of_int_less_iff)
  then show ?thesis by (simp add: field_simps)
qed

lemma lifetime_end:
  assumes "0 \<le> n1" "n1 < 2 ^ 52" "n1' \<le> n1 + 299"
  shows "n1' < fadd n1 NONCE_TTL"
proof -
  let ?t = "\<lfloor>n1 + 300\<rfloor>"
  have t: "of_int ?t \<le> n1 + 300" "n1 + 299 < of_int ?t" by linarith+
  have "\<bar>?t\<bar> < 2 ^ 53" using assms(1,2) by (simp add: abs_if floor_less_iff) linarith
  then have "(of_int ?t :: rat) = fl (of_int ?t)" by (rule fl_of_int [symmetric])
  also have "\<dots> \<le> fl (n1 + 300)" using fl_mono [OF t(1)] .
  finally show ?thesis using t(2) assms(3) by (simp add: fadd_def NONCE_TTL_def)
qed

text \<open>
  Without Redis (a single process, in development) a signed request is accepted once. A nonce is remembered for five minutes only, but the timestamp it
  was signed with limits the request to a window of a minute: whatever happens to the nonce store and the
  database meanwhile, the same headers are refused from then on, for every method, path and body, provided
  a request reaches the nonce store within 200 seconds of the check of its timestamp.
\<close>

theorem memory_accepts_signed_request_once:
  assumes "hmac_headers h" "wf_dict (mem_kv m)"
    and "require_api_scope e production NoClient n0 n1 now used scope h meth path body (m, d) = ((m1, d1), Inr k)"
    and "admissible (store_ok (api_nonce_key (ie_sha e) (the (x_key_id h)) (the (x_nonce h)))) store_step ops (m1, n1)"
    and "fold store_step ops (m1, n1) = (m2, clk)" "clk \<le> n0'" "n0' \<le> n1'"
    and "0 \<le> n1" "n1 < 2 ^ 52" "of_int now / 1000000 \<le> n1" "n1' \<le> of_int now' / 1000000 + 200"
  shows "\<exists>err. snd (require_api_scope e production' NoClient n0' n1' now' used' scope' h meth' path' body' (m2, d2)) = Inl err"
proof (rule ccontr)
  let ?q = "api_nonce_key (ie_sha e) (the (x_key_id h)) (the (x_nonce h))"
  let ?second = "require_api_scope e production' NoClient n0' n1' now' used' scope' h meth' path' body' (m2, d2)"
  assume "\<not> (\<exists>err. snd ?second = Inl err)"
  then obtain m3 d3 k' where second: "?second = ((m3, d3), Inr k')"
    by (metis sumE surj_pair snd_conv)
  note one = require_api_scope_hmac [OF assms(1,3)] and two = require_api_scope_hmac [OF assms(1) second]
  have "of_int now' / 1000000 < of_int now / (1000000 :: pyfloat) + 61"
    using fresh_twice verify_hmac_accepts [OF conjunct1 [OF one]] verify_hmac_accepts [OF conjunct1 [OF two]] by blast
  then have "n1' < fadd n1 NONCE_TTL" using lifetime_end [OF assms(8,9), of n1'] assms(10,11) by linarith
  moreover have "mem_set_nx ?q NONCE_TTL n0 n1 m = (m1, True)" "snd (mem_set_nx ?q NONCE_TTL n0' n1' m2) = True"
    using one two by (auto simp: consume_api_nonce_def set_nx_ex_def with_redis_def split: prod.splits)
  ultimately show False using nonce_still_held [OF assms(2) _ assms(4-7), of NONCE_TTL n0 NONCE_TTL] by simp
qed

theorem memory_accepts_signed_request_once_witness:
  "snd (require_api_scope demo_env True NoClient 9 9 9000000 9 ''trade'' demo_headers ''post'' ''/o'' ''b''
     (fst (require_api_scope demo_env True NoClient 8 8 8000000 9 ''trade'' demo_headers ''post'' ''/o'' ''b''
        (demo_memory, \<lparr>id_keys = [demo_key], id_hooks = []\<rparr>)))) \<noteq> Inr (demo_key\<lparr>ak_used := Some 9\<rparr>)"
proof -
  have "\<exists>err. snd (require_api_scope demo_env True NoClient 9 9 9000000 9 ''trade'' demo_headers ''post'' ''/o'' ''b''
      (\<lparr>mem_kv = [(''qs:api:nonce:n:k'', ''1'', Some 308)], mem_nonces = [], mem_kills = []\<rparr>,
       \<lparr>id_keys = [demo_key\<lparr>ak_used := Some 9\<rparr>], id_hooks = []\<rparr>)) = Inl err"
    by (rule memory_accepts_signed_request_once [OF _ _ demo_accepted, where ops = "[]" and clk = 8])
      (simp_all add: hmac_headers_def present_def demo_headers_def demo_memory_def)
  then show ?thesis by (auto simp: demo_accepted)
qed

subsection \<open>The shared nonce store\<close>














section \<open>Where webhooks go\<close>

text \<open>
  What the code's public-address test keeps out, at the least: addresses inside a network, written with octets and leading bits: this host, private use, loopback, link local
  (where cloud metadata services live), multicast and reserved, and for IPv6 the same and mapped IPv4 addresses.
\<close>

fun internal :: "ipaddr \<Rightarrow> bool" where
  "internal (V4 a) =
     (let o1 = a div 2 ^ 24; o2 = a div 2 ^ 16 mod 256
      in o1 \<in> {0, 10, 127} \<or> (o1 = 169 \<and> o2 = 254) \<or> (o1 = 172 \<and> 16 \<le> o2 \<and> o2 < 32) \<or> (o1 = 192 \<and> o2 = 168)
         \<or> (224 \<le> o1 \<and> o1 < 256))"
| "internal (V6 a) \<longleftrightarrow> a = 0 \<or> a = 1 \<or> a div 2 ^ 121 = 126 \<or> a div 2 ^ 118 = 1018 \<or> a div 2 ^ 120 = 255 \<or> a div 2 ^ 32 = 65535"

definition public_ip :: "ipaddr \<Rightarrow> bool" where
  "public_ip ip \<longleftrightarrow> \<not> (is_private ip \<or> is_loopback ip \<or> is_link_local ip \<or> is_multicast ip \<or> is_reserved ip \<or> is_unspecified ip)"

lemma is_public_address_ip: "is_public_address a = map_option public_ip (ip_address a)"
  by (simp add: is_public_address_def public_ip_def [abs_def])

lemma v4_internal_not_public: "internal (V4 a) \<Longrightarrow> \<not> public_ip (V4 a)"
proof -
  define q where "q = a div 65536"
  have d: "a div 16777216 = q div 256" "a div 1048576 = q div 16" "a div 268435456 = q div 4096"
    by (simp_all add: q_def flip: div_mult2_eq)
  have q: "q = 256 * (q div 256) + q mod 256" "q mod 256 < 256" by simp_all
  have "\<not> public_ip (V4 a)" if "list_ex (in_net 32 a) v4_private_networks" "q \<noteq> 49152"
    using that by (auto simp: public_ip_def v4_is_private_def v4_private_exceptions_def in_net_def v4_def q_def)
  then have inner: "\<not> public_ip (V4 a)" if "q div 256 \<in> {0, 10, 127} \<or> q \<in> {43518, 49320} \<or> q div 16 = 2753"
    using that d by (fastforce simp: v4_private_networks_def in_net_def v4_def q_def [symmetric])
  assume "internal (V4 a)"
  then consider "q div 256 \<in> {0, 10, 127}" | "q div 256 = 169" "q mod 256 = 254" | "q div 256 = 172" "16 \<le> q mod 256" "q mod 256 < 32"
    | "q div 256 = 192" "q mod 256 = 168" | "224 \<le> q div 256" "q div 256 < 256"
    unfolding internal.simps Let_def using d(1) by (simp flip: q_def) blast
  then show ?thesis
  proof cases
    case 3
    then have "q div 16 = 2753" using q by (intro div_nat_eqI) simp_all
    then show ?thesis using inner by blast
  next
    case 5
    have "q div 256 div 16 = q div 4096" by (simp flip: div_mult2_eq)
    then have "q div 4096 = 14 \<or> q div 4096 = 15" using 5 by linarith
    then show ?thesis using d(3) by (auto simp: public_ip_def in_net_def v4_def)
  qed (use inner q in auto)
qed

lemma mult_funpow: "((*) (a :: nat) ^^ n) x = a ^ n * x"
  by (induction n) simp_all

lemma in_net_prefix:
  assumes "in_net 128 a (b, p)" "16 \<le> p" "p \<le> 128"
  shows "a div 2 ^ 112 = b div 2 ^ 112"
proof -
  have "(2 :: nat) ^ (128 - p) * 2 ^ (p - 16) = 2 ^ 112" using assms(2,3) by (simp flip: power_add)
  then have "c div 2 ^ (128 - p) div 2 ^ (p - 16) = c div 2 ^ 112" for c :: nat by (simp flip: div_mult2_eq)
  then show ?thesis using assms(1) by (metis fst_conv in_net_def snd_conv)
qed

lemma v6_exception_prefix: "list_ex (in_net 128 a) v6_private_exceptions \<Longrightarrow> a div 2 ^ 112 = 0x2001"
  by (auto simp: v6_private_exceptions_def v6_net_def of_hextets_def mult_funpow dest!: in_net_prefix)

lemma v6_internal_not_public: "internal (V6 a) \<Longrightarrow> \<not> public_ip (V6 a)"
proof -
  assume "internal (V6 a)"
  then consider "a = 0" | "a = 1" | "a div 2 ^ 121 = 126" | "a div 2 ^ 118 = 1018" | "a div 2 ^ 120 = 255" | "a div 2 ^ 32 = 65535"
    by auto
  then show ?thesis
  proof cases
    case 3
    have "a div 2 ^ 112 div 2 ^ 9 = 126" using 3 by (simp flip: div_mult2_eq)
    then have "\<not> list_ex (in_net 128 a) v6_private_exceptions" using v6_exception_prefix [of a] by auto
    moreover have "list_ex (in_net 128 a) v6_private_networks"
      using 3 by (simp add: v6_private_networks_def in_net_def v6_net_def of_hextets_def mult_funpow)
    moreover have "a div 2 ^ 32 \<noteq> 65535"
    proof
      assume "a div 2 ^ 32 = 65535"
      then have "a div 2 ^ 32 div 2 ^ 89 = 0" by simp
      then show False using 3 by (simp flip: div_mult2_eq)
    qed
    ultimately show ?thesis by (simp add: public_ip_def)
  next
    case 6
    then have "a div 2 ^ 32 div 2 ^ 88 = 0" by simp
    then have "a div 2 ^ 120 = 0" by (simp flip: div_mult2_eq)
    then show ?thesis by (simp add: public_ip_def v6_reserved_networks_def in_net_def v6_net_def of_hextets_def mult_funpow)
  qed (simp_all add: public_ip_def in_net_def v6_net_def of_hextets_def mult_funpow)
qed

lemma internal_not_public: "internal ip \<Longrightarrow> \<not> public_ip ip"
  by (cases ip) (simp_all only: v4_internal_not_public v6_internal_not_public not_False_eq_True)

lemma all_public_member: "all_public as = Some True \<Longrightarrow> a \<in> set as \<Longrightarrow> is_public_address a = Some True"
  by (induction as) (auto split: option.splits bool.splits)

text \<open>So an address that passes the test is none of these.\<close>

lemma public_is_not_internal: "is_public_address a = Some True \<Longrightarrow> ip_address a = Some ip \<Longrightarrow> \<not> internal ip"
  using internal_not_public by (auto simp: is_public_address_ip)

lemma resolved_are_public:
  assumes "resolve_public_addresses answer = Some (Some as)" "a \<in> set as"
  shows "is_public_address a = Some True"
proof -
  have "all_public as = Some True" using assms(1)
    by (auto simp: resolve_public_addresses_def Let_def split: option.splits if_splits)
  then show ?thesis using all_public_member assms(2) by blast
qed

subsection \<open>Plain URLs\<close>

text \<open>
  An https URL written with a host name of letters, digits, hyphens and dots, perhaps a port, and a path of unreserved
  characters. Such a URL has one reading only: \<^verbatim>\<open>urlparse\<close> and the \<^verbatim>\<open>requests\<close> library, which parses the URL again on
  its own, find the same host (in lower case) and port.
\<close>

definition host_char :: "char \<Rightarrow> bool" where
  "host_char c \<longleftrightarrow> is_letter c \<or> is_digit c \<or> c = CHR ''-'' \<or> c = CHR ''.''"

definition path_char :: "char \<Rightarrow> bool" where
  "path_char c \<longleftrightarrow> host_char c \<or> c = CHR ''_'' \<or> c = CHR ''~'' \<or> c = CHR ''/''"

definition port_text :: "string \<Rightarrow> nat \<Rightarrow> bool" where
  "port_text pt port \<longleftrightarrow> (pt = [] \<and> port = 443)
     \<or> (\<exists>ds. pt = CHR '':'' # ds \<and> all_digits ds \<and> nat_of_digits 10 ds = port \<and> 0 < port \<and> port \<le> 65535)"

definition plain_url :: "string \<Rightarrow> string \<Rightarrow> nat \<Rightarrow> bool" where
  "plain_url url host port \<longleftrightarrow> (\<exists>pt rest. url = ''https://'' @ host @ pt @ rest \<and> host \<noteq> [] \<and> list_all host_char host
     \<and> port_text pt port \<and> (rest = [] \<or> hd rest = CHR ''/'') \<and> list_all path_char rest)"

definition dials_plain :: "integration_env \<Rightarrow> bool" where
  "dials_plain e \<longleftrightarrow> (\<forall>url host port. plain_url url host port \<longrightarrow> ie_dial e url = (map char_lower host, port))"

lemma host_char_facts:
  assumes "host_char c"
  shows "32 < (of_char c :: nat)" "c \<noteq> CHR '':''" "c \<noteq> CHR ''/''" "c \<noteq> CHR ''?''" "c \<noteq> CHR ''#''" "c \<noteq> CHR ''@''"
    "c \<noteq> CHR ''[''" "c \<noteq> CHR '']''" "c \<noteq> CHR ''%''"
  using assms by (auto simp: host_char_def is_letter_def is_digit_def Let_def)

lemma before_found: "c \<notin> set xs \<Longrightarrow> before c (xs @ c # ys) = xs" and before_all: "c \<notin> set xs \<Longrightarrow> before c xs = xs"
  by (induction xs) (auto simp: before_def)

lemma after_found: "c \<notin> set xs \<Longrightarrow> after c (xs @ c # ys) = ys" and after_none: "c \<notin> set xs \<Longrightarrow> after c xs = []"
  by (simp_all add: after_def before_found before_all)

lemma split_on_absent: "c \<notin> set s \<Longrightarrow> split_on c s = [s]"
  by (induction s) auto

lemma digit_facts:
  assumes "is_digit c"
  shows "32 < (of_char c :: nat)" "c \<noteq> CHR ''/''" "c \<noteq> CHR ''?''" "c \<noteq> CHR ''#''" "c \<noteq> CHR ''@''" "c \<noteq> CHR ''[''" "c \<noteq> CHR '']''"
  using assms by (auto simp: is_digit_def)

lemma takeWhile_stop: "(\<And>x. x \<in> set xs \<Longrightarrow> P x) \<Longrightarrow> ys = [] \<or> \<not> P (hd ys) \<Longrightarrow> takeWhile P (xs @ ys) = xs"
  by (cases ys) (simp_all add: takeWhile_append takeWhile_eq_all_conv)

lemma clean_url_id:
  assumes "\<And>c. c \<in> set s \<Longrightarrow> 32 < (of_char c :: nat)"
  shows "clean_url s = s"
proof -
  have "dropWhile (\<lambda>c. (of_char c :: nat) \<le> 32) s = s"
    using assms by (cases s) (auto simp: not_le)
  moreover have "filter (\<lambda>c. (of_char c :: nat) \<notin> {9, 10, 13}) s = s"
    using assms by (intro filter_True) fastforce
  ultimately show ?thesis by (simp add: clean_url_def)
qed

text \<open>The network location of a plain URL, and what \<^verbatim>\<open>urlparse\<close> makes of it.\<close>

lemma plain_netloc:
  assumes "host \<noteq> []" "list_all host_char host" "port_text pt port"
  shows "\<And>c. c \<in> set (host @ pt) \<Longrightarrow> 32 < (of_char c :: nat) \<and> c \<notin> set ''/?#@[]''"
    and "host_and_port (host @ pt) = (host, drop 1 pt)" "brackets_ok (host @ pt)"
proof -
  show chars: "32 < (of_char c :: nat) \<and> c \<notin> set ''/?#@[]''" if c: "c \<in> set (host @ pt)" for c
  proof -
    consider "host_char c" | "c = CHR '':''" | "is_digit c"
      using c assms(2,3) by (auto simp: port_text_def all_digits_def list_all_iff)
    then show ?thesis by cases (simp_all add: host_char_facts digit_facts)
  qed
  have free: "CHR ''@'' \<notin> set (host @ pt)" "CHR ''['' \<notin> set (host @ pt)" "CHR '']'' \<notin> set (host @ pt)"
    using chars by (auto simp del: set_append)
  then have hp: "host_part (host @ pt) = host @ pt" by (simp add: host_part_def split_on_absent del: set_append)
  have colon: "CHR '':'' \<notin> set host" using assms(2) host_char_facts(2) by (auto simp: list_all_iff)
  show "host_and_port (host @ pt) = (host, drop 1 pt)"
    using hp free(2) assms(3) colon
    by (auto simp: host_and_port_def port_text_def before_found before_all after_found after_none Let_def)
  show "brackets_ok (host @ pt)" using free by (simp add: brackets_ok_def Let_def del: set_append)
qed

lemma urlparse_plain:
  assumes "plain_url url host port"
  obtains p where "urlparse url = Some \<lparr>pu_scheme = ''https'', pu_host = Some (map char_lower host), pu_port = Some p\<rparr>"
    "https_port p = port"
proof -
  obtain pt rest where url: "url = ''https://'' @ host @ pt @ rest" and h: "host \<noteq> []" "list_all host_char host" "port_text pt port"
    and r: "rest = [] \<or> hd rest = CHR ''/''" "list_all path_char rest"
    using assms by (auto simp: plain_url_def)
  note net = plain_netloc [OF h]
  have "32 < (of_char c :: nat)" if "c \<in> set url" for c
  proof -
    have "c \<in> set ''https://'' \<or> c \<in> set (host @ pt) \<or> c \<in> set rest" using that by (auto simp: url)
    then show ?thesis using net(1) [of c] r(2) host_char_facts(1) [of c] by (auto simp: list_all_iff path_char_def)
  qed
  then have "clean_url url = url" by (rule clean_url_id)
  moreover have "split_scheme url = (''https'', ''//'' @ host @ pt @ rest)"
  proof -
    have "before (CHR '':'') url = ''https''" "after (CHR '':'') url = ''//'' @ host @ pt @ rest"
      by (simp_all add: before_def after_def url)
    moreover have "map char_lower ''https'' = ''https''" "list_all is_scheme_char ''https''" "is_letter (hd ''https'')"
      by code_simp+
    ultimately show ?thesis by (simp add: split_scheme_def url)
  qed
  moreover have "netloc_of (''//'' @ host @ pt @ rest) = host @ pt"
  proof -
    have "takeWhile (\<lambda>c. c \<notin> set ''/?#'') ((host @ pt) @ rest) = host @ pt"
      by (rule takeWhile_stop) (use net(1) r(1) in \<open>auto simp del: set_append\<close>)
    then show ?thesis by (simp add: netloc_of_def)
  qed
  moreover have "before (CHR ''%'') host = host" using h(2) host_char_facts(9) by (intro before_all) (auto simp: list_all_iff)
  ultimately have u: "urlparse url = Some \<lparr>pu_scheme = ''https'', pu_host = Some (map char_lower host),
      pu_port = (if drop 1 pt = [] then Some None
        else if all_digits (drop 1 pt) \<and> nat_of_digits 10 (drop 1 pt) \<le> 65535 then Some (Some (nat_of_digits 10 (drop 1 pt)))
        else None)\<rparr>"
    using net(2,3) h(1) by (simp add: urlparse_def Let_def)
  show thesis
  proof (cases "pt = []")
    case True
    then show thesis using that [of None] u h(3) by (simp add: port_text_def https_port_def)
  next
    case False
    then show thesis using that [of "Some port"] u h(3) by (auto simp: port_text_def https_port_def all_digits_def)
  qed
qed

definition subscribed :: "string \<Rightarrow> webhook \<Rightarrow> bool" where
  "subscribed event h \<longleftrightarrow> event \<in> set (case wh_events h of Some xs \<Rightarrow> xs | None \<Rightarrow> [])"

lemma deliver_cases:
  obtains (none) "deliver e event envelope h s = s"
  | (ineligible) "deliver e event envelope h s = s\<lparr>em_calls := Suc (em_calls s)\<rparr>"
  | (post) u host p addresses secret where
      "subscribed event h" "urlparse (wh_url h) = Some u" "pu_scheme u = ''https''" "pu_host u = Some host" "pu_port u = Some p"
      "resolve_public_addresses (patched_getaddrinfo (em_pins s) (ie_dns e (em_calls s)) host (https_port p)) = Some (Some addresses)"
      "deliver e event envelope h s =
         post_pinned e event envelope h host (https_port p) addresses secret (s\<lparr>em_calls := Suc (em_calls s)\<rparr>)"
proof (cases "subscribed event h \<and> (\<exists>u host p. urlparse (wh_url h) = Some u \<and> pu_scheme u = ''https'' \<and> pu_host u = Some host \<and> pu_port u = Some p)")
  case True
  then obtain u host p where u: "subscribed event h" "urlparse (wh_url h) = Some u" "pu_scheme u = ''https''" "pu_host u = Some host"
    "pu_port u = Some p" by blast
  show thesis
  proof (cases "\<exists>addresses secret. resolve_public_addresses
        (patched_getaddrinfo (em_pins s) (ie_dns e (em_calls s)) host (https_port p)) = Some (Some addresses)
        \<and> ie_decrypt e (wh_secret h) = Some secret")
    case True
    then show thesis using u post by (auto simp: deliver_def subscribed_def)
  next
    case False
    then have "deliver e event envelope h s = s\<lparr>em_calls := Suc (em_calls s)\<rparr>"
      using u by (auto simp: deliver_def subscribed_def Let_def split: option.splits)
    then show thesis by (rule ineligible)
  qed
next
  case False
  then have "deliver e event envelope h s = s" by (auto simp: deliver_def subscribed_def split: option.splits)
  then show thesis by (rule none)
qed

text \<open>
  Where a POST may go: to a hook of the list, over https, and if the hook's URL is a plain one, to addresses that pass the
  code's public-address test only.
\<close>

definition safe_delivery :: "string \<Rightarrow> webhook list \<Rightarrow> delivery \<Rightarrow> bool" where
  "safe_delivery event hooks dv \<longleftrightarrow>
     (\<exists>h \<in> set hooks. dl_hook dv = wh_id h \<and> dl_url dv = wh_url h \<and> subscribed event h
        \<and> (\<exists>u. urlparse (wh_url h) = Some u \<and> pu_scheme u = ''https''))
     \<and> (\<forall>host port. plain_url (dl_url dv) host port \<longrightarrow>
          (\<exists>as. dl_targets dv = Some as \<and> as \<noteq> [] \<and> (\<forall>a \<in> set as. is_public_address a = Some True)))"

definition safe_emitter :: "string \<Rightarrow> webhook list \<Rightarrow> emitter \<Rightarrow> bool" where
  "safe_emitter event hooks s \<longleftrightarrow> em_pins s = [] \<and> (\<forall>dv \<in> set (em_sent s). safe_delivery event hooks dv)"

lemma resolved_nonempty: "resolve_public_addresses answer = Some (Some as) \<Longrightarrow> as \<noteq> []"
  by (auto simp: resolve_public_addresses_def Let_def split: option.splits if_splits)

lemma deliver_safe:
  assumes "dials_plain e" "h \<in> set hooks" "safe_emitter event hooks s"
  shows "safe_emitter event hooks (deliver e event envelope h s)"
proof (cases rule: deliver_cases [of e event envelope h s])
  case (post u host p addresses secret)
  have "ie_dial e (wh_url h) = (host, https_port p)" if plain: "plain_url (wh_url h) host' port" for host' port
  proof -
    obtain q where "urlparse (wh_url h) = Some \<lparr>pu_scheme = ''https'', pu_host = Some (map char_lower host'), pu_port = Some q\<rparr>"
      "https_port q = port" by (rule urlparse_plain [OF plain])
    then have "host = map char_lower host'" "https_port p = port" using post(2,4,5) by simp_all
    moreover have "ie_dial e (wh_url h) = (map char_lower host', port)" using assms(1) plain unfolding dials_plain_def by blast
    ultimately show ?thesis by simp
  qed
  moreover have "\<forall>a \<in> set addresses. is_public_address a = Some True" "addresses \<noteq> []"
    using resolved_are_public [OF post(6)] resolved_nonempty [OF post(6)] by blast+
  ultimately show ?thesis using assms(2,3) post(1-3) unfolding post(7)
    by (cases "ie_dial e (wh_url h)")
      (auto simp: safe_emitter_def safe_delivery_def post_pinned_def pin_dns_to_def unpin_dns_def dict_pop_def
        patched_getaddrinfo_def Let_def)
qed (use assms(3) in \<open>simp_all add: safe_emitter_def\<close>)

text \<open>
  C31: webhooks with plain URLs reach only public addresses, also when the name server lies. Every POST of
  \<^verbatim>\<open>emit_webhooks\<close> goes to an active hook of that user subscribed to the event, over https; and where the hook's URL is
  plain (a host of letters, digits, hyphens and dots), every address in force when the connection is made passes the code's
  public-address test, although the resolver may answer differently than at the check (DNS rebinding). Afterwards no
  pin is left in the thread. That \<^verbatim>\<open>requests\<close> dials the host and port that a plain URL names is the hypothesis.
\<close>

theorem webhooks_reach_only_public_hosts:
  assumes "dials_plain e" "em_pins s = []" "em_sent s = []"
  shows "em_pins (emit_webhooks e user event payload s) = []
    \<and> (\<forall>dv \<in> set (em_sent (emit_webhooks e user event payload s)).
        (\<exists>h \<in> set (id_hooks (em_db s)). dl_hook dv = wh_id h \<and> wh_user h = user \<and> wh_active h \<and> subscribed event h
           \<and> (\<exists>u. urlparse (dl_url dv) = Some u \<and> pu_scheme u = ''https''))
        \<and> (\<forall>host port. plain_url (dl_url dv) host port \<longrightarrow>
             (\<exists>as. dl_targets dv = Some as \<and> as \<noteq> [] \<and> (\<forall>a \<in> set as. is_public_address a = Some True))))"
proof -
  let ?hooks = "active_hooks user (em_db s)"
  have "safe_emitter event ?hooks (fold (deliver e event envelope) ?hooks s)" for envelope
    by (rule fold_invariant [where Q = "\<lambda>h. h \<in> set ?hooks"])
      (use assms in \<open>auto simp: deliver_safe [OF assms(1)] safe_emitter_def [of _ _ s]\<close>)
  then have "safe_emitter event ?hooks (emit_webhooks e user event payload s)" by (simp add: emit_webhooks_def)
  then show ?thesis by (fastforce simp: safe_emitter_def safe_delivery_def active_hooks_def)
qed

text \<open>
  The pin protects a name, not a connection. Where the HTTP library reads another host out of the URL than \<^verbatim>\<open>urlparse\<close>, the
  connection goes wherever the resolver says. \<^verbatim>\<open>urlparse\<close> ends the network location at a slash, question mark or hash; a
  library that ends it at a backslash as well finds \<^verbatim>\<open>127.0.0.1\<close> in the URL below.
\<close>

lemma pin_misses_other_host:
  assumes "ie_dial e (wh_url h) \<noteq> (host, port)" "em_pins s = []"
  shows "map dl_targets (em_sent (post_pinned e event envelope h host port addresses secret s)) =
    map dl_targets (em_sent s) @ [(case ie_dial e (wh_url h) of (h', p') \<Rightarrow> ie_dns e (em_calls s) h' p')]"
  using assms by (cases "ie_dial e (wh_url h)") (auto simp: post_pinned_def pin_dns_to_def patched_getaddrinfo_def Let_def)

lemma backslash_host: "map_option pu_host (urlparse (''https://127.0.0.1'' @ [CHR 0x5C] @ ''a.example.org/'')) =
    Some (Some (''127.0.0.1'' @ [CHR 0x5C] @ ''a.example.org''))"
  by code_simp

text \<open>A hook whose name resolves to a public address at the check and to an internal one at the connection.\<close>

definition demo_emitter :: emitter where
  "demo_emitter = \<lparr>em_pins = [], em_calls = 0, em_sent = [],
     em_db = \<lparr>id_keys = [], id_hooks = [\<lparr>wh_id = ''w'', wh_user = ''u'', wh_url = ''https://h/'', wh_secret = ''s'',
       wh_events = Some [''order''], wh_active = True, wh_delivered = None, wh_created = 0\<rparr>]\<rparr>\<rparr>"

lemma demo_dials: "dials_plain demo_env"
  unfolding dials_plain_def
proof (intro allI impI)
  fix url host port assume "plain_url url host port"
  then obtain q where "urlparse url = Some \<lparr>pu_scheme = ''https'', pu_host = Some (map char_lower host), pu_port = Some q\<rparr>"
    "https_port q = port" by (rule urlparse_plain)
  then show "ie_dial demo_env url = (map char_lower host, port)" by (simp add: demo_env_def)
qed

lemma demo_plain: "plain_url ''https://h/'' ''h'' 443"
  unfolding plain_url_def
  by (intro exI [of _ "[]"] exI [of _ "''/''"]) (simp add: host_char_def path_char_def port_text_def is_letter_def Let_def)

lemma demo_url: "urlparse ''https://h/'' = Some \<lparr>pu_scheme = ''https'', pu_host = Some ''h'', pu_port = Some None\<rparr>"
  by code_simp

lemma demo_octet: "parse_octet ''8'' = Some 8" "split_on (CHR ''.'') ''8.8.8.8'' = [''8'', ''8'', ''8'', ''8'']"
  by code_simp+

lemma demo_public: "is_public_address ''8.8.8.8'' = Some True"
  by (simp add: is_public_address_def ip_address_def parse_v4_def demo_octet v4_def v4_is_private_def v4_private_networks_def
      in_net_def)

theorem webhooks_reach_only_public_hosts_witness:
  "map dl_targets (em_sent (emit_webhooks demo_env ''u'' ''order'' JNull demo_emitter)) = [Some [''8.8.8.8'']]
   \<and> is_public_address ''8.8.8.8'' = Some True"
proof -
  have sent: "map dl_targets (em_sent (emit_webhooks demo_env ''u'' ''order'' JNull demo_emitter)) = [Some [''8.8.8.8'']]"
    "map dl_url (em_sent (emit_webhooks demo_env ''u'' ''order'' JNull demo_emitter)) = [''https://h/'']"
    by (simp_all add: emit_webhooks_def active_hooks_def demo_emitter_def deliver_def demo_url patched_getaddrinfo_def demo_env_def
        resolve_public_addresses_def demo_public post_pinned_def pin_dns_to_def https_port_def Let_def)
  then obtain dv where dv: "dv \<in> set (em_sent (emit_webhooks demo_env ''u'' ''order'' JNull demo_emitter))"
    "dl_targets dv = Some [''8.8.8.8'']" "dl_url dv = ''https://h/''" by auto
  have "is_public_address ''8.8.8.8'' = Some True"
    using webhooks_reach_only_public_hosts [OF demo_dials, of demo_emitter "''u''" "''order''" JNull] dv demo_plain
    by (fastforce simp: demo_emitter_def)
  then show ?thesis using sent by simp
qed

text \<open>
  One hook's failure does not affect the others. Which hooks are contacted, with what body, signature and
  addresses, does not depend on which POSTs fail, and of the database only the time of the last delivery changes.
\<close>

theorem failed_delivery_stays_alone:
  "em_sent (emit_webhooks (e\<lparr>ie_post := outcome\<rparr>) user event payload s) = em_sent (emit_webhooks e user event payload s)
   \<and> id_keys (em_db (emit_webhooks e user event payload s)) = id_keys (em_db s)
   \<and> map (\<lambda>h. h\<lparr>wh_delivered := None\<rparr>) (id_hooks (em_db (emit_webhooks e user event payload s)))
     = map (\<lambda>h. h\<lparr>wh_delivered := None\<rparr>) (id_hooks (em_db s))"
proof -
  let ?same = "\<lambda>s t. em_pins s = em_pins t \<and> em_calls s = em_calls t \<and> em_sent s = em_sent t"
  have deliver_same: "?same (deliver (e\<lparr>ie_post := outcome\<rparr>) event envelope h s) (deliver e event envelope h t)"
    if "?same s t" for envelope h s t
    using that by (auto simp: deliver_def post_pinned_def Let_def split: option.splits prod.splits)
  have run_same: "?same s t \<Longrightarrow> ?same (fold (deliver (e\<lparr>ie_post := outcome\<rparr>) event envelope) hs s) (fold (deliver e event envelope) hs t)"
    for envelope hs s t
  proof (induction hs arbitrary: s t)
    case (Cons h hs)
    then show ?case using deliver_same [OF Cons.prems] by (simp del: split_paired_All)
  qed simp
  have hooks: "map (\<lambda>h. h\<lparr>wh_delivered := None\<rparr>) (id_hooks (em_db (fold (deliver e event envelope) hs s)))
     = map (\<lambda>h. h\<lparr>wh_delivered := None\<rparr>) (id_hooks (em_db s))" for envelope hs s
    by (induction hs arbitrary: s)
      (simp_all add: deliver_def post_pinned_def Let_def map_sql_update split: option.splits prod.splits)
  show ?thesis using run_same [of s s] hooks keys_of_emit [of e user event payload s] by (simp add: emit_webhooks_def)
qed

text \<open>
  The check takes the shared address space \<^verbatim>\<open>100.64.0.0/10\<close>, which carriers and cloud networks use internally, for public:
  Python calls it neither private nor global.
\<close>

lemma shared_address_space_is_accepted: "resolve_public_addresses (Some [''100.64.0.1'']) = Some (Some [''100.64.0.1''])"
proof -
  have "split_on (CHR ''.'') ''100.64.0.1'' = [''100'', ''64'', ''0'', ''1'']" "parse_octet ''100'' = Some 100"
    "parse_octet ''64'' = Some 64" "parse_octet ''0'' = Some 0" "parse_octet ''1'' = Some 1" by code_simp+
  then show ?thesis
    by (simp add: resolve_public_addresses_def is_public_address_def ip_address_def parse_v4_def v4_def v4_is_private_def
        v4_private_networks_def in_net_def)
qed

end
