(* ===== verification/Request_Gate.thy ===== *)
theory Request_Gate
  imports Auth_Service Integration_Service
begin

text \<open>
  What every HTTP request passes in \<^verbatim>\<open>src/backend/main.py\<close> before its handler: the rate limiter with its buckets in
  least-recently-used order and the principal a bucket belongs to, the security headers, the user dependency
  with its CSRF check (\<^verbatim>\<open>generate_csrf_token\<close> and \<^verbatim>\<open>verify_csrf_token\<close> of \<^verbatim>\<open>auth_service.py\<close>), and the slots of open
  websockets. An \<^verbatim>\<open>OrderedDict\<close> is an association list, oldest entry first. Base64, UTF-8 and HMAC are arguments.
\<close>

section \<open>Buckets\<close>

definition RATE_WINDOW_SECONDS :: pyfloat where "RATE_WINDOW_SECONDS = 60"
definition RATE_MAX_KEYS :: nat where "RATE_MAX_KEYS = 20000"

type_synonym windows = "(string, pyfloat list) dict"

definition move_to_end :: "'k \<Rightarrow> ('k, 'v) dict \<Rightarrow> ('k, 'v) dict" where
  "move_to_end k d = (case dict_get d k of Some v \<Rightarrow> dict_pop k d @ [(k, v)] | None \<Rightarrow> d)"

definition bucket_live :: "pyfloat \<Rightarrow> pyfloat list \<Rightarrow> bool" where
  "bucket_live now w \<longleftrightarrow> w \<noteq> [] \<and> fsub now (last w) \<le> RATE_WINDOW_SECONDS"

definition rate_window :: "string \<Rightarrow> pyfloat \<Rightarrow> windows \<Rightarrow> windows" where
  "rate_window key now ws =
     (let ws1 = dropWhile (\<lambda>(k, w). \<not> bucket_live now w) ws in
      case dict_get ws1 key of
        None \<Rightarrow> (if RATE_MAX_KEYS \<le> length ws1 then tl ws1 else ws1) @ [(key, [])]
      | Some w \<Rightarrow> move_to_end key ws1)"

definition bucket :: "windows \<Rightarrow> string \<Rightarrow> pyfloat list" where
  "bucket ws key = (case dict_get ws key of Some w \<Rightarrow> w | None \<Rightarrow> [])"

definition count_request :: "string \<Rightarrow> pyfloat \<Rightarrow> windows \<Rightarrow> windows \<times> nat" where
  "count_request key now ws =
     (let ws1 = rate_window key now ws;
          w = dropWhile (\<lambda>t. RATE_WINDOW_SECONDS < fsub now t) (bucket ws1 key)
      in (dict_set key (w @ [now]) ws1, length w + 1))"

section \<open>Principals\<close>

record request =
  rq_method :: string
  rq_path :: string
  rq_client :: "string option"
  rq_cookie :: "string option"
  rq_authorization :: "string option"
  rq_csrf :: "string option"
  rq_api :: api_headers

record gate_state =
  gs_windows :: windows
  gs_users :: "(string, string) dict"
  gs_api_keys :: "(string, unit) dict"
  gs_tokens :: "(string, claims) dict"

definition RATE_PRINCIPAL_CACHE :: nat where "RATE_PRINCIPAL_CACHE = 10000"

definition rate_remember :: "'k \<Rightarrow> 'v \<Rightarrow> ('k, 'v) dict \<Rightarrow> ('k, 'v) dict" where
  "rate_remember k v d =
     (let d1 = move_to_end k (dict_set k v d) in if RATE_PRINCIPAL_CACHE < length d1 then tl d1 else d1)"

definition sdk_api_key_hash :: "(string \<Rightarrow> string) \<Rightarrow> request \<Rightarrow> string option" where
  "sdk_api_key_hash sha rq =
     (if hmac_headers (rq_api rq) then None
      else if present (x_api_key (rq_api rq)) then Some (sha (the (x_api_key (rq_api rq)))) else None)"

definition bearer_token :: "string option \<Rightarrow> string option" where
  "bearer_token a = (case a of Some s \<Rightarrow> if starts_with ''Bearer '' s then Some (drop 7 s) else None | None \<Rightarrow> None)"

definition request_token :: "request \<Rightarrow> string option" where
  "request_token rq = (if present (rq_cookie rq) then rq_cookie rq else bearer_token (rq_authorization rq))"

text \<open>\<open>decode\<close> verifies a token's signature and expiry; \<open>t1\<close>, \<open>t2\<close> are the clock reads of the token cache.\<close>

definition rate_principal ::
  "(string \<Rightarrow> claims option) \<Rightarrow> pyfloat \<Rightarrow> pyfloat \<Rightarrow> request \<Rightarrow> string \<Rightarrow> string option \<Rightarrow> gate_state \<Rightarrow> gate_state \<times> string" where
  "rate_principal decode t1 t2 rq client sdk_key s =
     (if starts_with ''/api/auth/'' (rq_path rq) then (s, client)
      else if starts_with ''/api/sdk/'' (rq_path rq)
      then (case sdk_key of
              None \<Rightarrow> (s, client)
            | Some k \<Rightarrow>
                if dict_get (gs_api_keys s) k \<noteq> None
                then (s\<lparr>gs_api_keys := move_to_end k (gs_api_keys s)\<rparr>, ''key:'' @ take 16 k) else (s, client))
      else if \<not> present (request_token rq) then (s, client)
      else let token = the (request_token rq) in
           case dict_get (gs_users s) token of
             Some u \<Rightarrow> (s\<lparr>gs_users := move_to_end token (gs_users s)\<rparr>, ''user:'' @ u)
           | None \<Rightarrow>
               (case decode_access_token decode t1 t2 token (gs_tokens s) of
                  (cache, None) \<Rightarrow> (s\<lparr>gs_tokens := cache\<rparr>, client)
                | (cache, Some p) \<Rightarrow>
                    (s\<lparr>gs_tokens := cache, gs_users := rate_remember token (c_sub p) (gs_users s)\<rparr>, ''user:'' @ c_sub p)))"

section \<open>The middleware\<close>

definition rate_limit_of :: "string \<Rightarrow> int" where
  "rate_limit_of path = (if starts_with ''/api/auth/'' path then 10 else 240)"

definition security_headers :: "bool \<Rightarrow> (string, string) dict" where
  "security_headers production =
     [(''X-Content-Type-Options'', ''nosniff''), (''X-Frame-Options'', ''DENY''), (''Referrer-Policy'', ''no-referrer''),
      (''Permissions-Policy'', ''camera=(), microphone=(), geolocation=()''),
      (''Content-Security-Policy'',
       ''default-src 'self'; script-src 'self'; style-src 'self' 'unsafe-inline' https://fonts.googleapis.com; '' @
       ''font-src 'self' https://fonts.gstatic.com data:; img-src 'self' data:; connect-src 'self' '' @
       (if production then ''wss:'' else ''wss: ws:'') @
       '' https://api.github.com https://api.pwnedpasswords.com; frame-ancestors 'none'; base-uri 'self'; '' @
       ''object-src 'none'; form-action '' @ [CHR 0x27] @ ''self'' @ [CHR 0x27])]"

datatype gate_answer =
    RateUnavailable
  | RateExceeded
  | Answered nat "(string, string) dict"

text \<open>
  \<open>r\<close> is Redis's answer to the increment; a failure of the increment or of the expiry is \<open>RedisFails\<close>. \<open>app\<close> is
  the application, with whatever other requests do to the limiter until its response starts.
\<close>

definition rate_count :: "bool \<Rightarrow> int redis \<Rightarrow> string \<Rightarrow> pyfloat \<Rightarrow> gate_state \<Rightarrow> gate_state \<times> int option" where
  "rate_count production r key now s =
     (let mem = (let (ws, n) = count_request key now (gs_windows s) in (s\<lparr>gs_windows := ws\<rparr>, Some (int n))) in
      case r of
        NoClient \<Rightarrow> mem
      | RedisFails \<Rightarrow> if production then (s, None) else mem
      | Replies n \<Rightarrow> if n = 0 then mem else (s, Some n))"

definition gate_call ::
  "(string \<Rightarrow> string) \<Rightarrow> (string \<Rightarrow> claims option) \<Rightarrow> bool \<Rightarrow> int redis \<Rightarrow> pyfloat \<Rightarrow> pyfloat \<Rightarrow> pyfloat
     \<Rightarrow> (gate_state \<Rightarrow> gate_state \<times> nat) \<Rightarrow> request \<Rightarrow> gate_state \<Rightarrow> gate_state \<times> gate_answer" where
  "gate_call sha decode production r t1 t2 now app rq s =
     (let client = (case rq_client rq of Some c \<Rightarrow> c | None \<Rightarrow> ''unknown'');
          sdk_key = (if starts_with ''/api/sdk/'' (rq_path rq) then sdk_api_key_hash sha rq else None);
          (s1, principal) = rate_principal decode t1 t2 rq client sdk_key s;
          limit = rate_limit_of (rq_path rq)
      in case rate_count production r (principal @ '':'' @ rq_path rq) now s1 of
           (s2, None) \<Rightarrow> (s2, RateUnavailable)
         | (s2, Some current) \<Rightarrow>
             if limit < current then (s2, RateExceeded)
             else let (s3, status) = app s2;
                      s4 = (case sdk_key of
                              Some k \<Rightarrow> if status < 400 \<and> dict_get (gs_api_keys s3) k = None
                                        then s3\<lparr>gs_api_keys := rate_remember k () (gs_api_keys s3)\<rparr> else s3
                            | None \<Rightarrow> s3)
                  in (s4, Answered status ([(''X-RateLimit-Limit'', int_text limit),
                            (''X-RateLimit-Remaining'', int_text (max 0 (limit - current)))] @ security_headers production)))"

section \<open>CSRF tokens\<close>

record csrf_env =
  ce_mac :: "string \<Rightarrow> string"
  ce_b64 :: "string \<Rightarrow> string"
  ce_unb64 :: "string \<Rightarrow> string option"
  ce_encode :: "string \<Rightarrow> string"
  ce_decode :: "string \<Rightarrow> string option"

definition csrf_sig :: "csrf_env \<Rightarrow> string \<Rightarrow> string" where
  "csrf_sig e payload = take 32 (ce_mac e payload)"

definition generate_csrf_token :: "csrf_env \<Rightarrow> pyfloat \<Rightarrow> string \<Rightarrow> string" where
  "generate_csrf_token e now session =
     (let payload = ce_encode e (session @ '':'' @ int_text \<lfloor>now\<rfloor>)
      in ce_b64 e (payload @ '':'' @ csrf_sig e payload))"

text \<open>\<^verbatim>\<open>rsplit(":", 1)\<close>: before and after the last colon; \<open>None\<close> without one.\<close>

definition split_last :: "string \<Rightarrow> (string \<times> string) option" where
  "split_last s = (if CHR '':'' \<in> set s
     then Some (rev (drop 1 (dropWhile (\<lambda>c. c \<noteq> CHR '':'') (rev s))), rev (takeWhile (\<lambda>c. c \<noteq> CHR '':'') (rev s))) else None)"

definition CSRF_MAX_AGE :: pyfloat where "CSRF_MAX_AGE = 86400"

text \<open>Every exception (bad base64, bad UTF-8, a timestamp that is no number, a session that is not ASCII) gives \<^verbatim>\<open>False\<close>.\<close>

definition verify_csrf_token :: "csrf_env \<Rightarrow> pyfloat \<Rightarrow> string \<Rightarrow> string option \<Rightarrow> bool" where
  "verify_csrf_token e now token session =
     (case Option.bind (ce_unb64 e token) split_last of
        None \<Rightarrow> False
      | Some (payload, sig) \<Rightarrow>
          ce_decode e sig = Some (csrf_sig e payload)
          \<and> (case ce_decode e payload of
               None \<Rightarrow> False
             | Some text \<Rightarrow>
                 (let (token_session, ts_text) = (case split_last text of Some p \<Rightarrow> p | None \<Rightarrow> ([], text)) in
                  case int_of_text ts_text of
                    None \<Rightarrow> False
                  | Some ts \<Rightarrow>
                      fsub now (of_int ts) \<le> CSRF_MAX_AGE
                      \<and> (case session of Some x \<Rightarrow> is_ascii token_session \<and> is_ascii x \<and> token_session = x | None \<Rightarrow> True))))"

section \<open>The user dependency\<close>

text \<open>\<^verbatim>\<open>models.User\<close> without the watchlist, exchange and time zone preferences.\<close>

record user_row =
  us_id :: string
  us_email :: string
  us_password_hash :: string
  us_tier :: string
  us_beginner :: bool
  us_active :: bool
  us_role :: string
  us_created :: int

definition safe_method :: "string \<Rightarrow> bool" where
  "safe_method m \<longleftrightarrow> m \<in> {''GET'', ''HEAD'', ''OPTIONS''}"

definition get_current_user ::
  "(string \<Rightarrow> claims option) \<Rightarrow> csrf_env \<Rightarrow> pyfloat \<Rightarrow> pyfloat \<Rightarrow> pyfloat \<Rightarrow> request \<Rightarrow> user_row list \<Rightarrow> (string, claims) dict
     \<Rightarrow> (string, claims) dict \<times> (http_error + user_row)" where
  "get_current_user decode e t1 t2 now rq users cache =
     (let from_cookie = present (rq_cookie rq) in
      if \<not> present (request_token rq) then (cache, Inl (HTTP 401))
      else case decode_access_token decode t1 t2 (the (request_token rq)) cache of
             (c, None) \<Rightarrow> (c, Inl (HTTP 401))
           | (c, Some p) \<Rightarrow>
               if from_cookie \<and> \<not> safe_method (rq_method rq)
                  \<and> \<not> (present (rq_csrf rq) \<and> verify_csrf_token e now (the (rq_csrf rq)) (Some (c_sub p)))
               then (c, Inl (HTTP 403))
               else (case find_row us_id (c_sub p) users of
                       Some u \<Rightarrow> if us_active u then (c, Inr u) else (c, Inl (HTTP 401))
                     | None \<Rightarrow> (c, Inl (HTTP 401))))"

section \<open>Websocket slots\<close>

definition WS_MAX_PER_USER :: int where "WS_MAX_PER_USER = 3"

text \<open>\<open>r\<close>: the count Redis's increment answered with. The result is (acquired, counted in Redis).\<close>

definition ws_count :: "(string, int) dict \<Rightarrow> string \<Rightarrow> int" where
  "ws_count d u = (case dict_get d u of Some n \<Rightarrow> n | None \<Rightarrow> 0)"

definition ws_acquire :: "bool \<Rightarrow> int redis \<Rightarrow> string \<Rightarrow> (string, int) dict \<Rightarrow> (string, int) dict \<times> bool \<times> bool" where
  "ws_acquire production r user d =
     (let local = (if WS_MAX_PER_USER \<le> ws_count d user then (dict_set user (ws_count d user) d, False, False)
                   else (dict_set user (ws_count d user + 1) d, True, False)) in
      case r of
        Replies n \<Rightarrow> if WS_MAX_PER_USER < n then (d, False, False) else (d, True, True)
      | RedisFails \<Rightarrow> if production then (d, False, False) else local
      | NoClient \<Rightarrow> local)"

definition ws_release :: "string \<Rightarrow> bool \<Rightarrow> (string, int) dict \<Rightarrow> (string, int) dict" where
  "ws_release user counted d = (if counted then d else dict_set user (max 0 (ws_count d user - 1)) d)"

end
