(* ===== verification/Gate_Properties.thy ===== *)
theory Gate_Properties
  imports Request_Gate "HOL-Library.Sublist"
begin

text \<open>
  Properties of the request gate: the limiter never counts more than the requests of the last minute, and exactly
  those while the keys active in a minute fit its bounded table; when the table is full, the bucket seen longest
  ago is forgotten (\<open>full_table_forgets_oldest\<close>). A bucket cannot be chosen by the client, and a browser's
  state-changing request needs a CSRF token of its own session.
\<close>

section \<open>The limiter counts exactly\<close>

definition fresh_at :: "pyfloat \<Rightarrow> pyfloat \<Rightarrow> bool" where
  "fresh_at now t \<longleftrightarrow> fsub now t \<le> RATE_WINDOW_SECONDS"

lemma fresh_at_mono: "fresh_at now t \<Longrightarrow> t \<le> t' \<Longrightarrow> now' \<le> now \<Longrightarrow> fresh_at now' t'"
  unfolding fresh_at_def fsub_def using fl_mono [of "now' - t'" "now - t"] by linarith

lemma fresh_at_now: "fresh_at now now"
  by (simp add: fresh_at_def fsub_def RATE_WINDOW_SECONDS_def)

lemma dropWhile_filter:
  assumes "sorted_wrt (\<lambda>x y. P x \<longrightarrow> P y) xs"
  shows "dropWhile (\<lambda>x. \<not> P x) xs = filter P xs"
  using assms
proof (induction xs)
  case (Cons x xs)
  then show ?case by (cases "P x") (auto simp: filter_id_conv)
qed simp

text \<open>
  \<open>recent past ws\<close>: after the calls \<open>past\<close> (key and time), every bucket holds, of the requests that can
  still count, exactly those of its key; buckets are in the order of their newest request.
\<close>

definition times_of :: "string \<Rightarrow> (string \<times> pyfloat) list \<Rightarrow> pyfloat list" where
  "times_of k past = map snd (filter (\<lambda>p. fst p = k) past)"

definition recent :: "(string \<times> pyfloat) list \<Rightarrow> windows \<Rightarrow> bool" where
  "recent past ws \<longleftrightarrow> wf_dict ws \<and> set (dict_keys ws) \<subseteq> set (map fst past)
     \<and> sorted_wrt (\<lambda>p q. last (snd p) \<le> last (snd q)) ws
     \<and> (\<forall>p \<in> set ws. snd p \<noteq> [] \<and> sorted (snd p) \<and> set (snd p) \<subseteq> set (map snd past))
     \<and> (\<forall>k now. (\<forall>t \<in> set (map snd past). t \<le> now) \<longrightarrow> filter (fresh_at now) (bucket ws k) = filter (fresh_at now) (times_of k past))"

lemma bucket_live_last: "w \<noteq> [] \<Longrightarrow> bucket_live now w \<longleftrightarrow> fresh_at now (last w)"
  by (simp add: bucket_live_def fresh_at_def)

lemma sorted_last: "sorted w \<Longrightarrow> x \<in> set w \<Longrightarrow> x \<le> last w"
  by (induction w) (auto split: if_splits)

lemma recentD:
  assumes "recent past ws"
  shows "wf_dict ws" "set (dict_keys ws) \<subseteq> set (map fst past)" "sorted_wrt (\<lambda>p q. last (snd p) \<le> last (snd q)) ws"
    and "\<And>p. p \<in> set ws \<Longrightarrow> snd p \<noteq> [] \<and> sorted (snd p) \<and> set (snd p) \<subseteq> set (map snd past)"
    and "\<And>k now. \<forall>t \<in> set (map snd past). t \<le> now \<Longrightarrow> filter (fresh_at now) (bucket ws k) = filter (fresh_at now) (times_of k past)"
  using assms by (simp_all add: recent_def)

lemma bucket_sorted: "recent past ws \<Longrightarrow> sorted (bucket ws k)"
  using recentD(4) [of past ws "(k, bucket ws k)"] map_of_SomeD [of ws k "bucket ws k"]
  by (cases "dict_get ws k") (simp_all add: bucket_def)

text \<open>Popping expired buckets from the front is the same as scanning them all.\<close>

lemma sweep_is_filter:
  assumes "recent past ws"
  shows "dropWhile (\<lambda>(k, w). \<not> bucket_live now w) ws = filter (\<lambda>(k, w). bucket_live now w) ws"
proof -
  have "sorted_wrt (\<lambda>p q. bucket_live now (snd p) \<longrightarrow> bucket_live now (snd q)) ws"
  proof (rule sorted_wrt_mono_rel [OF _ recentD(3) [OF assms]])
    fix p q assume "p \<in> set ws" "q \<in> set ws" "last (snd p) \<le> last (snd q)"
    then show "bucket_live now (snd p) \<longrightarrow> bucket_live now (snd q)"
      using recentD(4) [OF assms] fresh_at_mono by (simp add: bucket_live_last)
  qed
  from dropWhile_filter [OF this] show ?thesis by (simp add: case_prod_unfold)
qed

lemma dict_get_filter:
  assumes "wf_dict ws"
  shows "dict_get (filter (\<lambda>(k, w). P w) ws) k = (case dict_get ws k of Some w \<Rightarrow> if P w then Some w else None | None \<Rightarrow> None)"
  using assms
proof (induction ws)
  case (Cons a ws)
  have "dict_get ws (fst a) = None" "wf_dict ws" using Cons.prems by (auto simp: wf_dict_def dict_keys_def map_of_eq_None_iff)
  then show ?case using Cons.IH by (cases a) auto
qed simp

lemma bucket_filter:
  "wf_dict ws \<Longrightarrow> bucket (filter (\<lambda>(k, w). P w) ws) k = (if P (bucket ws k) then bucket ws k else [])"
  by (auto simp: bucket_def dict_get_filter split: option.splits)

lemma expired_bucket:
  assumes "recent past ws" "\<not> bucket_live now (bucket ws k)" "\<forall>t \<in> set (map snd past). t \<le> now" "now \<le> now'"
  shows "filter (fresh_at now') (bucket ws k) = []"
proof (cases "bucket ws k = []")
  case False
  then have "\<not> fresh_at now' x" if "x \<in> set (bucket ws k)" for x
    using that assms(2,4) False fresh_at_mono [of now' x "last (bucket ws k)" now] sorted_last [OF bucket_sorted [OF assms(1)]] by (auto simp: bucket_live_last)
  then show ?thesis by (simp add: filter_empty_conv)
qed simp

text \<open>The keys with a request that still counts.\<close>

definition counting_keys :: "pyfloat \<Rightarrow> (string \<times> pyfloat) list \<Rightarrow> string set" where
  "counting_keys now past = fst ` {c \<in> set past. fresh_at now (snd c)}"

lemma live_keys_count:
  assumes "recent past ws" "\<forall>t \<in> set (map snd past). t \<le> now" "(k, w) \<in> set ws" "bucket_live now w"
  shows "k \<in> counting_keys now past"
proof -
  have "w \<noteq> []" using recentD(4) [OF assms(1) assms(3)] by simp
  moreover have "bucket ws k = w" using recentD(1) [OF assms(1)] assms(3) by (simp add: bucket_def wf_dict_in_set)
  ultimately
  have "last w \<in> set (filter (fresh_at now) (bucket ws k))" using assms(4) by (simp add: bucket_live_last)
  then have "last w \<in> set (filter (fresh_at now) (times_of k past))" using recentD(5) [OF assms(1,2), of k] by simp
  then have "last w \<in> set (times_of k past)" "fresh_at now (last w)" by simp_all
  then show ?thesis by (force simp: counting_keys_def times_of_def)
qed

lemma rate_window_shape:
  fixes now :: pyfloat
  assumes "recent past ws" "card (insert key (counting_keys now past)) \<le> RATE_MAX_KEYS" "\<forall>t \<in> set (map snd past). t \<le> now"
  defines "ws1 \<equiv> filter (\<lambda>(k, w). bucket_live now w) ws"
  shows "rate_window key now ws = dict_pop key ws1 @ [(key, bucket ws1 key)]"
proof (cases "dict_get ws1 key")
  case None
  have sub: "set (dict_keys ws1) \<subseteq> counting_keys now past"
    using live_keys_count [OF assms(1,3)] unfolding ws1_def dict_keys_def by auto
  have "finite (counting_keys now past)" by (simp add: counting_keys_def)
  have "distinct (dict_keys ws1)" using recentD(1) [OF assms(1)] by (simp add: ws1_def wf_dict_def dict_keys_def distinct_map_filter)
  then have "length ws1 = card (set (dict_keys ws1))" by (metis dict_keys_def distinct_card length_map)
  also have "\<dots> < card (insert key (counting_keys now past))"
    using sub None \<open>finite (counting_keys now past)\<close> by (intro psubset_card_mono psubsetI) (auto simp: domIff)
  finally have "\<not> RATE_MAX_KEYS \<le> length ws1" using assms(2) by simp
  moreover have "dict_pop key ws1 = ws1" using None by (auto simp: dict_pop_def map_of_eq_None_iff intro!: filter_True)
  ultimately show ?thesis using None sweep_is_filter [OF assms(1), of now]
    by (simp add: rate_window_def bucket_def ws1_def Let_def)
next
  case (Some w)
  then show ?thesis using sweep_is_filter [OF assms(1), of now] by (simp add: rate_window_def bucket_def ws1_def move_to_end_def Let_def)
qed

lemma dict_set_last: "dict_get d k = None \<Longrightarrow> dict_set k v (d @ [(k, u)]) = d @ [(k, v)]"
  by (induction d) (auto split: if_splits)

lemma count_shape:
  assumes "recent past ws" "card (insert key (counting_keys now past)) \<le> RATE_MAX_KEYS" "\<forall>t \<in> set (map snd past). t \<le> now"
  shows "count_request key now ws =
    (dict_pop key (filter (\<lambda>(k, w). bucket_live now w) ws) @ [(key, filter (fresh_at now) (times_of key past) @ [now])],
     length (filter (fresh_at now) (times_of key past)) + 1)"
proof -
  let ?ws1 = "filter (\<lambda>(k, w). bucket_live now w) ws"
  have wf: "wf_dict ws" using assms(1) by (simp add: recent_def)
  let ?b = "bucket ?ws1 key"
  have b: "?b = (if bucket_live now (bucket ws key) then bucket ws key else [])" using bucket_filter [OF wf] .
  have "sorted (bucket ws key)" using bucket_sorted [OF assms(1)] .
  then have "sorted_wrt (\<lambda>x y. fresh_at now x \<longrightarrow> fresh_at now y) ?b"
    unfolding b by (auto intro: sorted_wrt_mono_rel [rotated] fresh_at_mono)
  then have "dropWhile (\<lambda>t. RATE_WINDOW_SECONDS < fsub now t) ?b = filter (fresh_at now) ?b"
    using dropWhile_filter [of "fresh_at now" ?b] by (simp add: fresh_at_def not_le)
  also have "\<dots> = filter (fresh_at now) (bucket ws key)" using expired_bucket [OF assms(1) _ assms(3), of key now] by (simp add: b)
  also have "\<dots> = filter (fresh_at now) (times_of key past)" using recentD(5) [OF assms(1,3)] .
  finally have "dropWhile (\<lambda>t. RATE_WINDOW_SECONDS < fsub now t) ?b = filter (fresh_at now) (times_of key past)" .
  moreover have "bucket (dict_pop key ?ws1 @ [(key, ?b)]) key = ?b" by (simp add: bucket_def map_add_def)
  ultimately show ?thesis
    by (simp add: count_request_def rate_window_shape [OF assms] dict_set_last Let_def)
qed

lemma bucket_append:
  "bucket (dict_pop key d @ [(key, w)]) key = w" "k \<noteq> key \<Longrightarrow> bucket (dict_pop key d @ [(key, w)]) k = bucket d k"
  by (auto simp: bucket_def map_add_def split: option.split)

lemma count_keeps_recent:
  assumes "recent past ws" "card (insert key (counting_keys now past)) \<le> RATE_MAX_KEYS" "\<forall>t \<in> set (map snd past). t \<le> now"
  shows "recent (past @ [(key, now)]) (fst (count_request key now ws))"
proof -
  let ?ws1 = "filter (\<lambda>(k, w). bucket_live now w) ws"
  let ?w = "filter (fresh_at now) (times_of key past) @ [now]"
  let ?ws' = "dict_pop key ?ws1 @ [(key, ?w)]"
  note r = recentD [OF assms(1)]
  have wf: "wf_dict ws" and mem: "\<And>p. p \<in> set (dict_pop key ?ws1) \<Longrightarrow> p \<in> set ws \<and> fst p \<noteq> key"
    using r(1) by (auto simp: dict_pop_def)
  have "wf_dict ?ws'" using wf by (auto simp: wf_dict_def dict_keys_def dict_pop_def distinct_map_filter)
  moreover have "set (dict_keys ?ws') \<subseteq> set (map fst (past @ [(key, now)]))"
  proof -
    have "fst p \<in> set (map fst past)" if "p \<in> set (dict_pop key ?ws1)" for p
      using r(2) mem [OF that] unfolding dict_keys_def by (simp add: image_subset_iff)
    then show ?thesis unfolding dict_keys_def by auto
  qed
  moreover have "sorted_wrt (\<lambda>p q. last (snd p) \<le> last (snd q)) ?ws'"
  proof -
    have "last (snd p) \<le> now" if "p \<in> set (dict_pop key ?ws1)" for p
      using r(4) [of p] assms(3) mem [OF that] last_in_set [of "snd p"] by blast
    then show ?thesis using r(3) by (simp add: sorted_wrt_append dict_pop_def sorted_wrt_filter)
  qed
  moreover have "\<forall>p \<in> set ?ws'. snd p \<noteq> [] \<and> sorted (snd p) \<and> set (snd p) \<subseteq> set (map snd (past @ [(key, now)]))"
  proof -
    have "sorted (filter (fresh_at now) (bucket ws key))" using bucket_sorted [OF assms(1)] by (simp add: sorted_wrt_filter)
    then have "sorted ?w" using assms(3) r(5) [OF assms(3), of key] by (auto simp: sorted_append times_of_def)
    moreover have "set ?w \<subseteq> set (map snd (past @ [(key, now)]))" by (auto simp: times_of_def)
    moreover have "snd p \<noteq> [] \<and> sorted (snd p) \<and> set (snd p) \<subseteq> set (map snd (past @ [(key, now)]))"
      if "p \<in> set (dict_pop key ?ws1)" for p
      using r(4) [of p] mem [OF that] by auto
    ultimately show ?thesis by simp
  qed
  moreover have "filter (fresh_at now') (bucket ?ws' k) = filter (fresh_at now') (times_of k (past @ [(key, now)]))"
    if later: "\<forall>t \<in> set (map snd (past @ [(key, now)])). t \<le> now'" for k now'
  proof -
    have le: "now \<le> now'" "\<forall>t \<in> set (map snd past). t \<le> now'" using later by auto
    show ?thesis
    proof (cases "k = key")
      case True
      have "filter (fresh_at now') (filter (fresh_at now) T) = filter (fresh_at now') T" for T
        using fresh_at_mono le(1) by (auto intro!: filter_cong)
      then show ?thesis using True by (simp add: bucket_def times_of_def map_add_def)
    next
      case False
      then have "bucket ?ws' k = (if bucket_live now (bucket ws k) then bucket ws k else [])"
        using bucket_filter [OF wf, of "bucket_live now" k] by (simp add: bucket_append)
      then have "filter (fresh_at now') (bucket ?ws' k) = filter (fresh_at now') (bucket ws k)"
        using expired_bucket [OF assms(1) _ assms(3) le(1), of k] by simp
      also have "\<dots> = filter (fresh_at now') (times_of k past)" using r(5) [OF le(2)] by simp
      finally show ?thesis using False by (simp add: times_of_def)
    qed
  qed
  ultimately show ?thesis unfolding count_shape [OF assms] recent_def by (simp only: fst_conv) blast
qed

text \<open>The counts the limiter gives to a sequence of requests.\<close>

fun rate_counts :: "(string \<times> pyfloat) list \<Rightarrow> windows \<Rightarrow> nat list" where
  "rate_counts [] ws = []"
| "rate_counts (c # cs) ws = (let (ws', n) = count_request (fst c) (snd c) ws in n # rate_counts cs ws')"

definition sliding_count :: "(string \<times> pyfloat) list \<Rightarrow> nat \<Rightarrow> nat" where
  "sliding_count calls i =
     length (filter (\<lambda>(k, t). k = fst (calls ! i) \<and> fsub (snd (calls ! i)) t \<le> RATE_WINDOW_SECONDS) (take (Suc i) calls))"

text \<open>The keys with a request within the last minute before request \<open>i\<close>, itself included.\<close>

definition active_keys :: "(string \<times> pyfloat) list \<Rightarrow> nat \<Rightarrow> string set" where
  "active_keys calls i = counting_keys (snd (calls ! i)) (take (Suc i) calls)"

lemma active_keys_at: "active_keys (past @ (key, now) # calls) (length past) = insert key (counting_keys now past)"
  using fresh_at_now [of now] by (force simp: active_keys_def counting_keys_def)

lemma rate_counts_exact:
  assumes "recent past ws" "sorted (map snd (past @ calls))" "i < length calls"
    and "\<forall>j \<le> i. card (active_keys (past @ calls) (length past + j)) \<le> RATE_MAX_KEYS"
  shows "rate_counts calls ws ! i = sliding_count (past @ calls) (length past + i)"
  using assms
proof (induction calls arbitrary: past ws i)
  case (Cons c calls)
  obtain key now where c: "c = (key, now)" by fastforce
  have le: "\<forall>t \<in> set (map snd past). t \<le> now" using Cons.prems(2) by (auto simp: c sorted_append)
  have few: "card (insert key (counting_keys now past)) \<le> RATE_MAX_KEYS"
    using Cons.prems(4) [rule_format, of 0] by (simp add: c active_keys_at)
  note step = count_shape [OF Cons.prems(1) few le] count_keeps_recent [OF Cons.prems(1) few le]
  show ?case
  proof (cases i)
    case 0
    have "length (filter (fresh_at now) (times_of key past)) = length (filter (\<lambda>(k, t). k = key \<and> fsub now t \<le> RATE_WINDOW_SECONDS) past)"
      by (simp add: times_of_def filter_map o_def fresh_at_def split_def conj_commute)
    then show ?thesis using 0 fresh_at_now [of now]
      by (simp add: c step(1) sliding_count_def nth_append fresh_at_def)
  next
    case (Suc j)
    have "rate_counts calls (fst (count_request key now ws)) ! j = sliding_count ((past @ [(key, now)]) @ calls) (length (past @ [(key, now)]) + j)"
    proof (rule Cons.IH [OF step(2)])
      show "\<forall>x \<le> j. card (active_keys ((past @ [(key, now)]) @ calls) (length (past @ [(key, now)]) + x)) \<le> RATE_MAX_KEYS"
        using Cons.prems(4) Suc by (auto simp: c dest: spec [of _ "Suc _"])
    qed (use Cons.prems(2,3) Suc in \<open>simp_all add: c\<close>)
    then show ?thesis by (simp add: c Suc case_prod_unfold Let_def)
  qed
qed simp

lemma recent_start: "recent [] []"
  by (simp add: recent_def dict_keys_def bucket_def times_of_def)

subsection \<open>More keys than buckets\<close>

text \<open>What holds of the buckets however many keys there are: each holds some of its key's times, in order.\<close>

definition partial :: "(string \<times> pyfloat) list \<Rightarrow> windows \<Rightarrow> bool" where
  "partial past ws \<longleftrightarrow> wf_dict ws \<and> (\<forall>k. subseq (bucket ws k) (times_of k past))"

lemma bucket_part:
  assumes "wf_dict ws" "wf_dict ws'" "set ws' \<subseteq> set ws"
  shows "bucket ws' k = [] \<or> bucket ws' k = bucket ws k"
proof (cases "dict_get ws' k")
  case (Some w)
  then have "(k, w) \<in> set ws" using wf_dict_in_set [OF assms(2)] assms(3) by blast
  then show ?thesis using Some wf_dict_in_set [OF assms(1)] by (simp add: bucket_def)
qed (simp add: bucket_def)

lemma wf_parts:
  assumes "wf_dict ws"
  shows "wf_dict (dropWhile P ws)" "wf_dict (tl ws)" "wf_dict (dict_pop k ws)"
  using assms
  by (auto simp: wf_dict_def dict_keys_def dict_pop_def map_tl distinct_tl distinct_map_filter dropWhile_eq_drop drop_map [symmetric])

lemma rate_window_part:
  assumes "wf_dict ws"
  shows "wf_dict (rate_window key now ws)" "dict_get (rate_window key now ws) key \<noteq> None"
    and "bucket (rate_window key now ws) k = [] \<or> bucket (rate_window key now ws) k = bucket ws k"
proof -
  let ?ws1 = "dropWhile (\<lambda>(k, w). \<not> bucket_live now w) ws"
  have w1: "wf_dict ?ws1" "set ?ws1 \<subseteq> set ws" using wf_parts(1) [OF assms] by (auto dest: set_dropWhileD)
  have "wf_dict (rate_window key now ws) \<and> dict_get (rate_window key now ws) key \<noteq> None
    \<and> (bucket (rate_window key now ws) k = [] \<or> bucket (rate_window key now ws) k = bucket ws k)"
  proof (cases "dict_get ?ws1 key")
    case None
    define rest where "rest = (if RATE_MAX_KEYS \<le> length ?ws1 then tl ?ws1 else ?ws1)"
    have "set (tl xs) \<subseteq> set xs" for xs :: windows by (cases xs) auto
    then have sub: "set rest \<subseteq> set ?ws1" by (simp add: rest_def)
    have wf: "wf_dict rest" using w1(1) wf_parts(2) [OF w1(1)] by (simp add: rest_def)
    have key: "key \<notin> fst ` set rest" using None sub by (auto simp: map_of_eq_None_iff)
    have "rate_window key now ws = rest @ [(key, [])]" using None by (simp add: rate_window_def rest_def Let_def)
    moreover have "wf_dict (rest @ [(key, [])])" using wf key by (simp add: wf_dict_def dict_keys_def)
    moreover have "dict_get rest key = None" using key by (simp only: map_of_eq_None_iff) simp
    then have "bucket (rest @ [(key, [])]) k = (if k = key then [] else bucket rest k)"
      by (auto simp: bucket_def map_add_def split: option.split)
    moreover have "bucket rest k = [] \<or> bucket rest k = bucket ws k"
      using bucket_part [OF assms wf] sub w1(2) by blast
    ultimately show ?thesis by (auto simp: map_add_def split: option.split)
  next
    case (Some w)
    have eq: "rate_window key now ws = dict_pop key ?ws1 @ [(key, w)]"
      using Some by (simp add: rate_window_def move_to_end_def Let_def)
    have "wf_dict (dict_pop key ?ws1 @ [(key, w)])" using w1(1) wf_parts(3) [OF w1(1), of key]
      by (auto simp: wf_dict_def dict_keys_def dict_pop_def)
    moreover have "set (dict_pop key ?ws1 @ [(key, w)]) \<subseteq> set ws"
      using w1(2) Some map_of_SomeD [of ?ws1 key w] by (auto simp: dict_pop_def)
    ultimately show ?thesis unfolding eq using bucket_part [OF assms] by (simp add: map_add_def)
  qed
  then show "wf_dict (rate_window key now ws)" "dict_get (rate_window key now ws) key \<noteq> None"
    "bucket (rate_window key now ws) k = [] \<or> bucket (rate_window key now ws) k = bucket ws k" by blast+
qed

lemma subseq_bucket:
  assumes "partial past ws"
  shows "subseq (bucket (rate_window key now ws) k) (times_of k past)"
  using rate_window_part(3) [of ws key now k] assms by (auto simp: partial_def)

lemma subseq_sorted: "subseq xs ys \<Longrightarrow> sorted ys \<Longrightarrow> sorted (xs :: pyfloat list)"
  by (induction rule: list_emb.induct) (auto dest: list_emb_set)

lemma count_at_most:
  assumes "partial past ws" "sorted (map snd past)"
  shows "snd (count_request key now ws) \<le> length (filter (fresh_at now) (times_of key past)) + 1"
proof -
  let ?b = "bucket (rate_window key now ws) key"
  have sub: "subseq ?b (times_of key past)" by (rule subseq_bucket [OF assms(1)])
  have "sorted (times_of key past)" using assms(2) by (simp add: times_of_def sorted_filter)
  then have "sorted ?b" by (rule subseq_sorted [OF sub])
  then have "sorted_wrt (\<lambda>x y. fresh_at now x \<longrightarrow> fresh_at now y) ?b"
    by (auto intro: sorted_wrt_mono_rel [rotated] fresh_at_mono)
  then have "dropWhile (\<lambda>t. RATE_WINDOW_SECONDS < fsub now t) ?b = filter (fresh_at now) ?b"
    using dropWhile_filter [of "fresh_at now" ?b] by (simp add: fresh_at_def not_le)
  moreover have "length (filter (fresh_at now) ?b) \<le> length (filter (fresh_at now) (times_of key past))"
    using list_emb_length [OF subseq_filter [OF sub]] .
  ultimately show ?thesis by (simp add: count_request_def Let_def)
qed

lemma count_keeps_partial:
  assumes "partial past ws"
  shows "partial (past @ [(key, now)]) (fst (count_request key now ws))"
proof -
  let ?ws1 = "rate_window key now ws"
  let ?w = "dropWhile (\<lambda>t. RATE_WINDOW_SECONDS < fsub now t) (bucket ?ws1 key)"
  have wf: "wf_dict ws" using assms by (simp add: partial_def)
  have new: "fst (count_request key now ws) = dict_set key (?w @ [now]) ?ws1" by (simp add: count_request_def Let_def)
  have "subseq (bucket (dict_set key (?w @ [now]) ?ws1) k) (times_of k (past @ [(key, now)]))" for k
  proof (cases "k = key")
    case True
    have "suffix ?w (bucket ?ws1 key)" by (rule suffix_dropWhile)
    then have "subseq ?w (times_of key past)"
      using subseq_bucket [OF assms, of key now key] suffix_imp_subseq subseq_order.order_trans by blast
    then have "subseq (?w @ [now]) (times_of key past @ [now])" by (rule list_emb_append_mono) simp
    then show ?thesis using True by (simp add: bucket_def times_of_def)
  next
    case False
    then show ?thesis using subseq_bucket [OF assms, of key now k] by (simp add: bucket_def times_of_def)
  qed
  then show ?thesis unfolding new partial_def using rate_window_part(1) [OF wf] by simp
qed

lemma rate_counts_at_most:
  assumes "partial past ws" "sorted (map snd (past @ calls))" "i < length calls"
  shows "rate_counts calls ws ! i \<le> sliding_count (past @ calls) (length past + i)"
  using assms
proof (induction calls arbitrary: past ws i)
  case (Cons c calls)
  obtain key now where c: "c = (key, now)" by fastforce
  show ?case
  proof (cases i)
    case 0
    have "sorted (map snd past)" using Cons.prems(2) by (simp add: sorted_append)
    moreover have "length (filter (fresh_at now) (times_of key past)) = length (filter (\<lambda>(k, t). k = key \<and> fsub now t \<le> RATE_WINDOW_SECONDS) past)"
      by (simp add: times_of_def filter_map o_def fresh_at_def split_def conj_commute)
    ultimately show ?thesis using 0 count_at_most [OF Cons.prems(1), of key now] fresh_at_now [of now]
      by (simp add: c case_prod_unfold Let_def sliding_count_def nth_append fresh_at_def)
  next
    case (Suc j)
    have "rate_counts calls (fst (count_request key now ws)) ! j \<le> sliding_count ((past @ [(key, now)]) @ calls) (length (past @ [(key, now)]) + j)"
      using Cons.IH [OF count_keeps_partial [OF Cons.prems(1)], of key now j] Cons.prems(2,3) Suc by (simp add: c)
    then show ?thesis by (simp add: c Suc case_prod_unfold Let_def)
  qed
qed simp

lemma partial_start: "partial [] []"
  by (simp add: partial_def bucket_def wf_dict_def dict_keys_def)

text \<open>What a full table forgets: the bucket seen longest ago, also while its requests still count.\<close>

lemma full_table_forgets_oldest:
  assumes "\<forall>p \<in> set ws. bucket_live now (snd p)" "length ws = RATE_MAX_KEYS" "dict_get ws key = None"
  shows "rate_window key now ws = tl ws @ [(key, [])]"
proof -
  have "dropWhile (\<lambda>(k, w). \<not> bucket_live now w) ws = ws" using assms(1) by (cases ws) auto
  then show ?thesis using assms(2,3) by (simp add: rate_window_def)
qed

text \<open>
  C33: the in-memory rate limiter is a sliding window, exact as long as its table has room. For requests in the order of
  the clock, by whatever keys, the number it compares with the limit is never more than the number of requests of the
  same key within the last sixty seconds, this one included - no request is refused that the exact window would let
  through. It is exactly that number whenever at no request so far more than \<open>RATE_MAX_KEYS\<close> (20000) keys had a
  request within the sixty seconds before it: popping expired buckets from the front of the least-recently-used order
  then never forgets a request that still counts.
\<close>

theorem rate_limiter_is_sliding_window:
  assumes "sorted (map snd calls)" "i < length calls"
  shows "rate_counts calls [] ! i \<le> sliding_count calls i
    \<and> ((\<forall>j \<le> i. card (active_keys calls j) \<le> RATE_MAX_KEYS) \<longrightarrow> rate_counts calls [] ! i = sliding_count calls i)"
  using rate_counts_exact [OF recent_start, of calls i] rate_counts_at_most [OF partial_start, of calls i] assms by simp

theorem rate_limiter_is_sliding_window_witness:
  "rate_counts [(''a'', 0), (''b'', 1), (''a'', 30), (''a'', 61)] [] ! 3 = 2"
proof -
  let ?calls = "[(''a'', 0), (''b'', 1), (''a'', 30), (''a'', 61)] :: (string \<times> pyfloat) list"
  have "active_keys ?calls j \<subseteq> {''a'', ''b''}" for j
    by (cases "j \<le> 3") (auto simp: active_keys_def counting_keys_def dest!: in_set_takeD)
  then have "card (active_keys ?calls j) \<le> card {''a'', ''b''}" for j by (intro card_mono) simp_all
  then have "card (active_keys ?calls j) \<le> RATE_MAX_KEYS" for j
    using order_trans [of _ _ RATE_MAX_KEYS] by (fastforce simp: RATE_MAX_KEYS_def)
  then have "rate_counts ?calls [] ! 3 = sliding_count ?calls 3"
    using rate_limiter_is_sliding_window [of ?calls 3] by simp
  then show ?thesis by (simp add: sliding_count_def fsub_def RATE_WINDOW_SECONDS_def)
qed

text \<open>The buckets never outgrow their bound, whatever the keys.\<close>

lemma length_dict_set: "length (dict_set k v d) = (if dict_get d k = None then Suc (length d) else length d)"
  by (induction d) auto

lemma length_dict_pop:
  assumes "wf_dict d" "dict_get d k = Some v"
  shows "Suc (length (dict_pop k d)) = length d"
  using assms
proof (induction d)
  case (Cons p d)
  show ?case
  proof (cases "fst p = k")
    case True
    then have "k \<notin> fst ` set d" using Cons.prems(1) by (auto simp: wf_dict_def dict_keys_def)
    then have "filter (\<lambda>q. fst q \<noteq> k) d = d" by (auto intro!: filter_True)
    then show ?thesis using True by (simp add: dict_pop_def)
  next
    case False
    then show ?thesis using Cons by (cases p) (simp add: dict_pop_def wf_dict_def dict_keys_def)
  qed
qed simp

lemma wf_dict_parts:
  "wf_dict d \<Longrightarrow> wf_dict (dropWhile P d)" "wf_dict d \<Longrightarrow> wf_dict (tl d)" "wf_dict d \<Longrightarrow> wf_dict (move_to_end k d)"
proof -
  show "wf_dict d \<Longrightarrow> wf_dict (dropWhile P d)"
    by (simp add: wf_dict_def dict_keys_def dropWhile_eq_drop drop_map [symmetric])
qed (auto simp: wf_dict_def dict_keys_def move_to_end_def dict_pop_def map_tl distinct_tl distinct_map_filter split: option.split)

lemma length_move_to_end: "wf_dict d \<Longrightarrow> length (move_to_end k d) = length d"
  using length_dict_pop [of d k] by (auto simp: move_to_end_def split: option.split)

lemma tl_subset: "set (tl xs) \<subseteq> set xs"
  by (cases xs) auto

lemma rate_window_bounded:
  assumes "wf_dict ws" "length ws \<le> RATE_MAX_KEYS"
  shows "wf_dict (rate_window key now ws) \<and> dict_get (rate_window key now ws) key \<noteq> None \<and> length (rate_window key now ws) \<le> RATE_MAX_KEYS"
proof -
  let ?ws1 = "dropWhile (\<lambda>(k, w). \<not> bucket_live now w) ws"
  have wf: "wf_dict ?ws1" using wf_dict_parts(1) [OF assms(1)] .
  have len: "length ?ws1 \<le> RATE_MAX_KEYS" using length_dropWhile_le assms(2) le_trans by blast
  show ?thesis
  proof (cases "dict_get ?ws1 key")
    case None
    let ?ws2 = "if RATE_MAX_KEYS \<le> length ?ws1 then tl ?ws1 else ?ws1"
    have "wf_dict ?ws2" "set ?ws2 \<subseteq> set ?ws1"
      using wf wf_dict_parts(2) [OF wf] by (simp_all add: tl_subset)
    moreover have "key \<notin> fst ` set ?ws1" using None by (simp add: map_of_eq_None_iff)
    ultimately have "wf_dict (?ws2 @ [(key, [])])" "dict_get (?ws2 @ [(key, [])]) key \<noteq> None"
      by (auto simp: wf_dict_def dict_keys_def map_add_def split: option.split)
    moreover have "length (?ws2 @ [(key, [])]) \<le> RATE_MAX_KEYS" using len by (auto simp: RATE_MAX_KEYS_def)
    ultimately show ?thesis using None by (simp only: rate_window_def Let_def option.case simp_thms)
  next
    case (Some w)
    then show ?thesis using wf_dict_parts(3) [OF wf] length_move_to_end [OF wf] len
      by (simp add: rate_window_def Let_def) (simp add: move_to_end_def map_add_def split: option.split)
  qed
qed

lemma limiter_memory_bounded:
  assumes "wf_dict ws" "length ws \<le> RATE_MAX_KEYS"
  shows "wf_dict (fst (count_request key now ws)) \<and> length (fst (count_request key now ws)) \<le> RATE_MAX_KEYS"
  using rate_window_bounded [OF assms, of key now] by (auto simp: count_request_def Let_def length_dict_set)

section \<open>Buckets belong to proven principals\<close>

text \<open>
  \<open>known\<close>: what the caches hold was proven to this process: a token that verified, with its user, and the hash of a
  key that was sent to the SDK and answered with a status below 400.
\<close>

definition proven_principal :: "(string \<Rightarrow> string option) \<Rightarrow> (string \<Rightarrow> bool) \<Rightarrow> request \<Rightarrow> string \<Rightarrow> string option \<Rightarrow> string \<Rightarrow> bool" where
  "proven_principal owner accepted rq client sdk_key who \<longleftrightarrow>
     who = client
     \<or> (\<exists>k. sdk_key = Some k \<and> accepted k \<and> starts_with ''/api/sdk/'' (rq_path rq) \<and> who = ''key:'' @ take 16 k)
     \<or> (\<exists>token u. request_token rq = Some token \<and> owner token = Some u \<and> who = ''user:'' @ u)"

definition caches_proven :: "(string \<Rightarrow> string option) \<Rightarrow> (string \<Rightarrow> bool) \<Rightarrow> gate_state \<Rightarrow> bool" where
  "caches_proven owner accepted s \<longleftrightarrow>
     (\<forall>token u. (token, u) \<in> set (gs_users s) \<longrightarrow> owner token = Some u)
     \<and> (\<forall>token p. (token, p) \<in> set (gs_tokens s) \<longrightarrow> owner token = Some (c_sub p))
     \<and> (\<forall>k v. (k, v) \<in> set (gs_api_keys s) \<longrightarrow> accepted k)"

lemma in_dict_set: "p \<in> set (dict_set k v d) \<Longrightarrow> p = (k, v) \<or> p \<in> set d"
  by (induction d) (auto split: if_splits)

lemma in_move_to_end: "p \<in> set (move_to_end k d) \<Longrightarrow> p \<in> set d"
  by (auto simp: move_to_end_def dict_pop_def dest: map_of_SomeD split: option.splits)

lemma in_tl: "p \<in> set (tl d) \<Longrightarrow> p \<in> set d"
  by (rule subsetD [OF tl_subset])

lemma in_rate_remember:
  assumes "p \<in> set (rate_remember k v d)"
  shows "p = (k, v) \<or> p \<in> set d"
proof -
  have "p \<in> set (move_to_end k (dict_set k v d))"
    using assms in_tl unfolding rate_remember_def Let_def by (cases "RATE_PRINCIPAL_CACHE < length (move_to_end k (dict_set k v d))") simp_all
  then show ?thesis using in_move_to_end in_dict_set by metis
qed

lemma in_token_cache:
  assumes "decode_access_token decode t1 t2 token cache = (c, answer)" "q \<in> set c"
  shows "q \<in> set cache \<or> (\<exists>p. answer = Some p \<and> q = (token, p))"
proof (cases "dict_get cache token")
  case None
  show ?thesis
  proof (cases "decode token")
    case (Some p)
    let ?c1 = "dropWhile (\<lambda>(t, q). of_int (c_exp q) \<le> t2) cache"
    have "q \<in> set (dict_set token p ?c1)" "answer = Some p"
      using assms None Some in_tl [of q "dict_set token p ?c1"] by (auto simp: decode_access_token_def Let_def split: if_splits)
    then show ?thesis using in_dict_set [of q token p ?c1] set_dropWhileD [of q _ cache] by blast
  qed (use assms None in \<open>simp add: decode_access_token_def\<close>)
next
  case (Some p)
  then show ?thesis using assms by (auto simp: decode_access_token_def dict_pop_def split: if_splits)
qed

lemma token_answer:
  assumes "decode_access_token decode t1 t2 token cache = (c, Some p)"
  shows "(token, p) \<in> set cache \<or> decode token = Some p"
  using assms by (auto simp: decode_access_token_def Let_def dest: map_of_SomeD split: option.splits if_splits)

text \<open>Tokens are signed: what verifies at some time has one owner, \<open>owner\<close>.\<close>

lemma rate_principal_proven:
  assumes "caches_proven owner accepted s" "\<And>token p. decode token = Some p \<Longrightarrow> owner token = Some (c_sub p)"
    and "rate_principal decode t1 t2 rq client sdk_key s = (s1, who)"
  shows "caches_proven owner accepted s1 \<and> proven_principal owner accepted rq client sdk_key who"
proof (cases "starts_with ''/api/auth/'' (rq_path rq) \<or> starts_with ''/api/sdk/'' (rq_path rq) \<or> \<not> present (request_token rq)")
  case True
  then show ?thesis using assms(1,3)
    by (auto simp: rate_principal_def caches_proven_def proven_principal_def split: if_splits option.splits
        dest: map_of_SomeD dest!: in_move_to_end)
next
  case False
  then obtain token where t: "request_token rq = Some token" by (auto simp: present_def split: option.splits)
  show ?thesis
  proof (cases "dict_get (gs_users s) token")
    case (Some u)
    then have "owner token = Some u" using assms(1) by (auto simp: caches_proven_def dest: map_of_SomeD)
    then show ?thesis using assms(1,3) False t Some
      by (auto simp: rate_principal_def caches_proven_def proven_principal_def dest!: in_move_to_end)
  next
    case None
    obtain c answer where d: "decode_access_token decode t1 t2 token (gs_tokens s) = (c, answer)" by fastforce
    have owner: "owner token = Some (c_sub p)" if "answer = Some p" for p
      using token_answer d that assms(1,2) by (metis caches_proven_def)
    then have "caches_proven owner accepted (s\<lparr>gs_tokens := c\<rparr>)"
      using assms(1) in_token_cache [OF d] by (simp add: caches_proven_def) (metis prod.inject)
    then show ?thesis using assms(3) False t None d owner
      by (auto simp: rate_principal_def caches_proven_def proven_principal_def split: option.splits dest!: in_rate_remember)
  qed
qed

text \<open>
  A client cannot choose its rate bucket. While the caches hold only what was proven (tokens that verified, keys
  the SDK answered with success), the bucket of a request is its client address, or the user a verified token belongs to, or an accepted API
  key; whatever the application answers, and whatever made-up tokens and keys a request carries, the caches
  stay so.
\<close>

theorem bucket_belongs_to_proven_principal:
  assumes "caches_proven owner accepted s" "\<And>token p. decode token = Some p \<Longrightarrow> owner token = Some (c_sub p)"
    and "\<And>s. caches_proven owner accepted s \<Longrightarrow> caches_proven owner accepted (fst (app s))"
    and "\<And>s k. snd (app s) < 400 \<Longrightarrow> sdk_api_key_hash sha rq = Some k \<Longrightarrow> starts_with ''/api/sdk/'' (rq_path rq) \<Longrightarrow> accepted k"
  shows "caches_proven owner accepted (fst (gate_call sha decode production r t1 t2 now app rq s))
    \<and> (\<exists>s1 who. rate_principal decode t1 t2 rq (case rq_client rq of Some c \<Rightarrow> c | None \<Rightarrow> ''unknown'')
          (if starts_with ''/api/sdk/'' (rq_path rq) then sdk_api_key_hash sha rq else None) s = (s1, who)
        \<and> proven_principal owner accepted rq (case rq_client rq of Some c \<Rightarrow> c | None \<Rightarrow> ''unknown'')
            (if starts_with ''/api/sdk/'' (rq_path rq) then sdk_api_key_hash sha rq else None) who)"
proof -
  let ?client = "case rq_client rq of Some c \<Rightarrow> c | None \<Rightarrow> ''unknown''"
  let ?sdk = "if starts_with ''/api/sdk/'' (rq_path rq) then sdk_api_key_hash sha rq else None"
  obtain s1 who where p: "rate_principal decode t1 t2 rq ?client ?sdk s = (s1, who)" by fastforce
  note one = rate_principal_proven [OF assms(1,2) p]
  obtain s2 answer where c: "rate_count production r (who @ '':'' @ rq_path rq) now s1 = (s2, answer)" by fastforce
  have two: "caches_proven owner accepted s2"
    using one c by (auto simp: rate_count_def caches_proven_def Let_def split: redis.splits prod.splits if_splits)
  obtain s3 status where a: "app s2 = (s3, status)" by fastforce
  have three: "caches_proven owner accepted s3" using assms(3) [OF two] a by simp
  have "caches_proven owner accepted (s3\<lparr>gs_api_keys := rate_remember k () (gs_api_keys s3)\<rparr>)" if "?sdk = Some k" "status < 400" for k
  proof -
    have "accepted k" using assms(4) [of s2 k] that a by (auto split: if_splits)
    then show ?thesis using three by (auto simp: caches_proven_def dest!: in_rate_remember)
  qed
  then have "caches_proven owner accepted (fst (gate_call sha decode production r t1 t2 now app rq s))"
    using p c a two three by (auto simp: gate_call_def Let_def split: option.splits)
  then show ?thesis using one p by blast
qed

definition login_request :: request where
  "login_request = \<lparr>rq_method = ''POST'', rq_path = ''/api/auth/login'', rq_client = Some ''1.2.3.4'', rq_cookie = Some ''made-up'',
     rq_authorization = None, rq_csrf = None,
     rq_api = \<lparr>x_api_key = None, x_key_id = None, x_timestamp = None, x_nonce = None, x_signature = None\<rparr>\<rparr>"

definition empty_gate :: gate_state where
  "empty_gate = \<lparr>gs_windows = [], gs_users = [], gs_api_keys = [], gs_tokens = []\<rparr>"

theorem bucket_belongs_to_proven_principal_witness:
  "\<exists>s1 who. rate_principal (\<lambda>_. None) 0 0 login_request ''1.2.3.4'' None empty_gate = (s1, who)
     \<and> proven_principal (\<lambda>_. None) (\<lambda>_. False) login_request ''1.2.3.4'' None who"
  using bucket_belongs_to_proven_principal [of "\<lambda>_. None" "\<lambda>_. False" empty_gate "\<lambda>_. None" "\<lambda>s. (s, 401)" "\<lambda>s. s" login_request
      False NoClient 0 0 0]
  by (simp add: caches_proven_def empty_gate_def login_request_def starts_with_def)

section \<open>CSRF tokens\<close>

lemma split_at_first:
  "c \<notin> set xs \<Longrightarrow> takeWhile (\<lambda>x. x \<noteq> c) (xs @ c # ys) = xs \<and> dropWhile (\<lambda>x. x \<noteq> c) (xs @ c # ys) = c # ys"
  by (induction xs) auto

lemma split_last_Some: "split_last s = Some (a, b) \<Longrightarrow> s = a @ '':'' @ b"
proof -
  assume l: "split_last s = Some (a, b)"
  let ?d = "dropWhile (\<lambda>c. c \<noteq> CHR '':'') (rev s)"
  have "?d \<noteq> []" using l by (auto simp: split_last_def dropWhile_eq_Nil_conv split: if_splits)
  moreover have "hd ?d = CHR '':''" using hd_dropWhile [of "\<lambda>c. c \<noteq> CHR '':''" "rev s"] calculation by blast
  ultimately have "?d = CHR '':'' # drop 1 ?d" by (cases ?d) auto
  then have "rev s = takeWhile (\<lambda>c. c \<noteq> CHR '':'') (rev s) @ CHR '':'' # drop 1 ?d" by (metis takeWhile_dropWhile_id)
  then have "rev s = rev b @ CHR '':'' # rev a" using l by (auto simp: split_last_def split: if_splits)
  then show ?thesis by (metis append_Cons append_Nil rev_append rev_rev_ident rev_swap append_assoc rev.simps(2))
qed

lemma split_last_append: "CHR '':'' \<notin> set b \<Longrightarrow> split_last (a @ '':'' @ b) = Some (a, b)"
  using split_at_first [of "CHR '':''" "rev b" "rev a"] by (simp add: split_last_def)

lemma hex_val_digit: "d < 10 \<Longrightarrow> hex_val (hex_digit d) = Some d \<and> is_digit (hex_digit d) \<and> hex_digit d \<noteq> CHR ''_'' \<and> hex_digit d \<noteq> CHR '':''
    \<and> hex_digit d \<noteq> CHR ''-'' \<and> hex_digit d \<noteq> CHR ''+'' \<and> \<not> int_space True (hex_digit d) \<and> (of_char (hex_digit d) :: nat) < 128"
proof -
  have "\<forall>d \<in> set [0..<10]. hex_val (hex_digit d) = Some d \<and> is_digit (hex_digit d) \<and> hex_digit d \<noteq> CHR ''_'' \<and> hex_digit d \<noteq> CHR '':''
    \<and> hex_digit d \<noteq> CHR ''-'' \<and> hex_digit d \<noteq> CHR ''+'' \<and> \<not> int_space True (hex_digit d) \<and> (of_char (hex_digit d) :: nat) < 128"
    by code_simp
  then show "d < 10 \<Longrightarrow> ?thesis" by auto
qed

lemma digits_text:
  "digits_of n \<noteq> [] \<and> (\<forall>c \<in> set (digits_of n). \<exists>d < 10. c = hex_digit d) \<and> nat_of_digits 10 (digits_of n) = n"
proof (induction n rule: digits_of.induct)
  case (1 n)
  show ?case
  proof (cases "n < 10")
    case True
    then have "digits_of n = [hex_digit n]" by (subst digits_of.simps) simp
    then show ?thesis using True hex_val_digit [of n] by (auto simp: nat_of_digits_def)
  next
    case False
    then have "digits_of n = digits_of (n div 10) @ [hex_digit (n mod 10)]" by (subst digits_of.simps) simp
    moreover have "n mod 10 < 10" by simp
    ultimately show ?thesis using 1 [OF False] hex_val_digit [of "n mod 10"]
      by (auto simp: nat_of_digits_def simp del: mod_less_divisor)
  qed
qed

lemma split_on_none: "c \<notin> set s \<Longrightarrow> split_on c s = [s]"
  by (induction s) auto

lemma dropWhile_none: "(\<And>c. c \<in> set s \<Longrightarrow> \<not> P c) \<Longrightarrow> dropWhile P s = s"
  by (cases s) auto

lemma int_of_text_int_text:
  assumes "0 \<le> n"
  shows "int_of_text (int_text n) = Some n" "CHR '':'' \<notin> set (int_text n)"
proof -
  let ?s = "digits_of (nat n)"
  have t: "int_text n = ?s" using assms by (simp add: int_text_def)
  have ch: "hex_val c \<noteq> None \<and> is_digit c \<and> c \<noteq> CHR ''_'' \<and> c \<noteq> CHR '':'' \<and> c \<noteq> CHR ''-'' \<and> c \<noteq> CHR ''+''
      \<and> \<not> int_space True c \<and> (of_char c :: nat) < 128" if "c \<in> set ?s" for c
    using digits_text [of "nat n"] hex_val_digit that by fastforce
  then have "is_ascii ?s" by (simp add: is_ascii_def list_all_iff)
  moreover have "dropWhile (int_space True) ?s = ?s" "dropWhile (int_space True) (rev ?s) = rev ?s"
    using ch by (auto intro!: dropWhile_none)
  moreover have "take 1 ?s \<noteq> ''-''" "take 1 ?s \<noteq> ''+''" using ch by (cases ?s; auto)+
  moreover have "split_on (CHR ''_'') ?s = [?s]" using ch by (intro split_on_none) blast
  moreover have "filter (\<lambda>c. c \<noteq> CHR ''_'') ?s = ?s" "all_digits ?s"
    using ch digits_text [of "nat n"] by (auto simp: all_digits_def list_all_iff intro!: filter_True)
  ultimately show "int_of_text (int_text n) = Some n" using digits_text [of "nat n"] assms by (simp add: int_of_text_def t Let_def)
  show "CHR '':'' \<notin> set (int_text n)" using ch t by fastforce
qed

text \<open>What the code relies on of base64, UTF-8 and hexadecimal digests.\<close>

definition csrf_laws :: "csrf_env \<Rightarrow> bool" where
  "csrf_laws e \<longleftrightarrow> (\<forall>s. ce_unb64 e (ce_b64 e s) = Some s) \<and> (\<forall>s. ce_decode e (ce_encode e s) = Some s)
     \<and> (\<forall>p. CHR '':'' \<notin> set (csrf_sig e p) \<and> ce_decode e (csrf_sig e p) = Some (csrf_sig e p))"

text \<open>
  A CSRF token is good for the session it was issued to, for a day, and for no other session.
\<close>

theorem csrf_token_is_bound_to_session:
  assumes "csrf_laws e" "is_ascii session" "0 \<le> now"
  shows "verify_csrf_token e now' (generate_csrf_token e now session) (Some x)
    \<longleftrightarrow> x = session \<and> fsub now' (of_int \<lfloor>now\<rfloor>) \<le> CSRF_MAX_AGE"
proof -
  have n: "0 \<le> \<lfloor>now\<rfloor>" using assms(3) by simp
  let ?p = "ce_encode e (session @ '':'' @ int_text \<lfloor>now\<rfloor>)"
  have "Option.bind (ce_unb64 e (generate_csrf_token e now session)) split_last = Some (?p, csrf_sig e ?p)"
    using assms(1) split_last_append [of "csrf_sig e ?p" ?p] by (simp add: csrf_laws_def generate_csrf_token_def Let_def)
  then show ?thesis
    using assms(1,2) split_last_append [of "int_text \<lfloor>now\<rfloor>" session] int_of_text_int_text [OF n]
    by (auto simp: verify_csrf_token_def csrf_laws_def)
qed

definition demo_csrf :: csrf_env where
  "demo_csrf = \<lparr>ce_mac = (\<lambda>p. ''ab''), ce_b64 = (\<lambda>s. s), ce_unb64 = Some, ce_encode = (\<lambda>s. s), ce_decode = Some\<rparr>"

theorem csrf_token_is_bound_to_session_witness:
  "verify_csrf_token demo_csrf 100 (generate_csrf_token demo_csrf 7 ''u'') (Some ''u'')
   \<and> \<not> verify_csrf_token demo_csrf 100 (generate_csrf_token demo_csrf 7 ''u'') (Some ''v'')"
proof -
  have "csrf_laws demo_csrf" by (simp add: csrf_laws_def demo_csrf_def csrf_sig_def)
  from csrf_token_is_bound_to_session [OF this, of "''u''" 7 100] show ?thesis
    by (simp add: is_ascii_def fsub_def CSRF_MAX_AGE_def)
qed

text \<open>
  C34: a browser's state-changing request needs a token of its own session. If a request authenticated by cookie with any
  method but GET, HEAD and OPTIONS is let through, its header carries a payload signed by this server that names the very user the request
  runs as and is at most a day old; the user exists and is active.
\<close>

theorem browser_writes_need_own_csrf:
  assumes "get_current_user decode e t1 t2 now rq users cache = (c, Inr u)" "present (rq_cookie rq)" "\<not> safe_method (rq_method rq)"
    and "us_id u \<noteq> []"
  shows "u \<in> set users \<and> us_active u \<and> (\<exists>token payload sig ts ts_text. rq_csrf rq = Some token
    \<and> ce_unb64 e token = Some (payload @ '':'' @ sig) \<and> ce_decode e sig = Some (csrf_sig e payload)
    \<and> ce_decode e payload = Some (us_id u @ '':'' @ ts_text) \<and> int_of_text ts_text = Some ts \<and> fsub now (of_int ts) \<le> CSRF_MAX_AGE)"
proof -
  obtain p :: claims where u: "find_row us_id (c_sub p) users = Some u" "us_active u"
    and "present (rq_csrf rq)" and v: "verify_csrf_token e now (the (rq_csrf rq)) (Some (c_sub p))"
    using assms(1-3) by (auto simp: get_current_user_def Let_def split: if_splits option.splits prod.splits)
  then obtain token where t: "rq_csrf rq = Some token" by (auto simp: present_def split: option.splits)
  have mem: "u \<in> set users" and sub: "c_sub p = us_id u" using find_row_Some [OF u(1)] by simp_all
  obtain payload sig body ts where v1: "Option.bind (ce_unb64 e token) split_last = Some (payload, sig)"
    "ce_decode e sig = Some (csrf_sig e payload)" "ce_decode e payload = Some body"
    "int_of_text (snd (case split_last body of Some p \<Rightarrow> p | None \<Rightarrow> ([], body))) = Some ts" "fsub now (of_int ts) \<le> CSRF_MAX_AGE"
    "fst (case split_last body of Some p \<Rightarrow> p | None \<Rightarrow> ([], body)) = us_id u"
    using v t sub by (auto simp: verify_csrf_token_def split_def Let_def split: option.splits)
  have "ce_unb64 e token = Some (payload @ '':'' @ sig)" using v1(1) split_last_Some by (auto simp: bind_eq_Some_conv)
  moreover obtain ts_text where "split_last body = Some (us_id u, ts_text)" "int_of_text ts_text = Some ts"
    using v1(4,6) assms(4) by (auto split: option.splits)
  ultimately show ?thesis using mem u(2) t v1(2,3,5) split_last_Some by blast
qed

definition demo_user :: user_row where
  "demo_user = \<lparr>us_id = ''u'', us_email = ''u@x'', us_password_hash = ''$'', us_tier = ''free'', us_beginner = True, us_active = True,
     us_role = ''user'', us_created = 0\<rparr>"

definition write_request :: request where
  "write_request = login_request\<lparr>rq_path := ''/api/watchlist'', rq_cookie := Some ''t'', rq_csrf := Some ''u:7:ab''\<rparr>"

theorem browser_writes_need_own_csrf_witness:
  "\<exists>payload sig. ce_unb64 demo_csrf ''u:7:ab'' = Some (payload @ '':'' @ sig) \<and> sig = csrf_sig demo_csrf payload"
proof -
  let ?decode = "\<lambda>t. Some (access_claims ''i'' ''a'' 900 0 ''u'' ''free'' t)"
  have v: "verify_csrf_token demo_csrf 100 ''u:7:ab'' (Some ''u'')"
  proof -
    have "split_last ''u:7:ab'' = Some (''u:7'', ''ab'')" "split_last ''u:7'' = Some (''u'', ''7'')" "int_of_text ''7'' = Some 7"
      by code_simp+
    then show ?thesis
      by (simp add: verify_csrf_token_def demo_csrf_def csrf_sig_def is_ascii_def fsub_def CSRF_MAX_AGE_def)
  qed
  have "\<exists>c. get_current_user ?decode demo_csrf 5 5 100 write_request [demo_user] [] = (c, Inr demo_user)"
    using v by (simp add: get_current_user_def request_token_def present_def write_request_def login_request_def safe_method_def
        decode_access_token_def access_claims_def VERIFIED_TOKENS_MAX_def demo_user_def find_row_def)
  then obtain c where "get_current_user ?decode demo_csrf 5 5 100 write_request [demo_user] [] = (c, Inr demo_user)" by blast
  from browser_writes_need_own_csrf [OF this] show ?thesis
    by (auto simp: write_request_def login_request_def present_def safe_method_def demo_user_def demo_csrf_def)
qed

section \<open>Websocket slots\<close>

text \<open>Without Redis no user ever has more than three open sockets counted, and the count is never negative.\<close>

lemma ws_slots_bounded:
  assumes "\<forall>u. 0 \<le> ws_count d u \<and> ws_count d u \<le> WS_MAX_PER_USER"
  shows "0 \<le> ws_count (fst (ws_acquire production r user d)) u" "ws_count (fst (ws_acquire production r user d)) u \<le> WS_MAX_PER_USER"
    "0 \<le> ws_count (ws_release user counted d) u" "ws_count (ws_release user counted d) u \<le> WS_MAX_PER_USER"
proof -
  have set: "ws_count (dict_set user n d) u = (if u = user then n else ws_count d u)" for n by (simp add: ws_count_def)
  show "0 \<le> ws_count (fst (ws_acquire production r user d)) u" "ws_count (fst (ws_acquire production r user d)) u \<le> WS_MAX_PER_USER"
    using assms [rule_format, of u] assms [rule_format, of user] by (auto simp: ws_acquire_def set Let_def split: redis.split)
  show "0 \<le> ws_count (ws_release user counted d) u" "ws_count (ws_release user counted d) u \<le> WS_MAX_PER_USER"
    using assms [rule_format, of u] assms [rule_format, of user] by (auto simp: ws_release_def set WS_MAX_PER_USER_def)
qed

end
