(* ===== verification/Session_Handlers.thy ===== *)
theory Session_Handlers
  imports Request_Gate
begin

text \<open>
  The account handlers of \<^verbatim>\<open>src/backend/main.py\<close> (register, login, refresh, logout, logout everywhere, settings) over
  \<^verbatim>\<open>auth_service.py\<close>, and the validators of \<^verbatim>\<open>schemas.RegisterRequest\<close>. Argon2, ML-KEM and ML-DSA key generation,
  token encoding, random tokens and clock reads are arguments. The Redis copy of refresh tokens is a best-effort cache nothing reads at
  this commit: its writes are an output. A handler's database session is fresh and every change is committed, so
  tables are lists. Texts are ASCII; an address is what \<^verbatim>\<open>EmailStr\<close> returned.
\<close>

section \<open>Registration requests\<close>

definition str_lower :: "string \<Rightarrow> string" where
  "str_lower s = map char_lower s"

definition email_domain :: "string \<Rightarrow> string" where
  "email_domain v = strip (str_lower (if CHR ''@'' \<in> set v then after (CHR ''@'') v else v))"

text \<open>\<open>None\<close>: refused with 422. \<open>disposable\<close> and \<open>common\<close> are the word lists of the module.\<close>

definition email_not_disposable :: "string list \<Rightarrow> string \<Rightarrow> string option" where
  "email_not_disposable disposable v =
     (if email_domain v \<in> set disposable \<or> CHR ''.'' \<notin> set (email_domain v) then None else Some (strip (str_lower v)))"

fun repeated :: "string \<Rightarrow> bool" where
  "repeated (a # b # c # d # cs) \<longleftrightarrow> (a = b \<and> b = c \<and> c = d \<and> (of_char a :: nat) \<noteq> 10) \<or> repeated (b # c # d # cs)"
| "repeated _ = False"

definition SPECIAL :: string where
  "SPECIAL = ''!@#$%^&*()-_=+[]{};:,.<>?/|~'' @ [CHR 0x27, CHR 0x22, CHR 0x5C, CHR 0x60]"

definition password_strength :: "string list \<Rightarrow> string \<Rightarrow> bool" where
  "password_strength common v \<longleftrightarrow>
     14 \<le> length v \<and> length v \<le> 128
     \<and> list_ex (\<lambda>c. is_letter c \<and> char_lower c \<noteq> c) v \<and> list_ex (\<lambda>c. is_letter c \<and> char_lower c = c) v
     \<and> list_ex is_digit v \<and> list_ex (\<lambda>c. c \<in> set SPECIAL) v \<and> \<not> repeated v \<and> str_lower v \<notin> set common"

fun contains :: "string \<Rightarrow> string \<Rightarrow> bool" where
  "contains p [] \<longleftrightarrow> p = []"
| "contains p (c # cs) \<longleftrightarrow> starts_with p (c # cs) \<or> contains p cs"

definition password_not_contain_email :: "string \<Rightarrow> string \<Rightarrow> bool" where
  "password_not_contain_email email password \<longleftrightarrow>
     (let name = str_lower (before (CHR ''@'') email) in \<not> (4 \<le> length name \<and> contains name (str_lower password)))"

definition register_request :: "string list \<Rightarrow> string list \<Rightarrow> string \<Rightarrow> string \<Rightarrow> (string \<times> string) option" where
  "register_request disposable common email password =
     (case email_not_disposable disposable email of
        None \<Rightarrow> None
      | Some v \<Rightarrow> if password_strength common password \<and> password_not_contain_email v password then Some (v, password) else None)"

section \<open>State\<close>

record key_pair_row =
  kp_user :: string
  kp_algorithm :: string
  kp_public :: string
  kp_private :: string

datatype cache_op = CachePut string string | CacheDel string

record accounts =
  ac_users :: "user_row list"
  ac_keys :: "key_pair_row list"
  ac_refresh :: "refresh_row list"
  ac_limiter :: limiter

record account_env =
  ae_sha :: "string \<Rightarrow> string"
  ae_hash :: "string \<Rightarrow> string"
  ae_verify :: "string \<Rightarrow> string \<Rightarrow> bool \<times> bool"
  ae_lower :: "string \<Rightarrow> string"
  ae_protect :: "string \<Rightarrow> string"
  ae_encode :: "claims \<Rightarrow> string"
  ae_csrf :: csrf_env
  ae_issuer :: string
  ae_audience :: string
  ae_access_seconds :: int
  ae_refresh_seconds :: int
  ae_absolute_seconds :: int
  ae_redis :: bool

text \<open>What a handler is given: clocks (floats and microseconds) and fresh random values.\<close>

record fresh_values =
  fv_now :: pyfloat
  fv_later :: pyfloat
  fv_us :: int
  fv_id :: string
  fv_jti :: string
  fv_refresh :: string
  fv_family :: string

definition DUMMY_HASH :: string where
  "DUMMY_HASH = ''$argon2id$v=19$m=65536,t=3,p=4$AAAAAAAAAAAAAAAAAAAAAA$AAAAAAAAAAAAAAAAAAAAAAAAAAAAAAAAAAAAAAAAAAA''"

record cookie =
  ck_name :: string
  ck_value :: string
  ck_httponly :: bool
  ck_max_age :: int
  ck_path :: string

definition session_cookies :: "account_env \<Rightarrow> string \<Rightarrow> string \<Rightarrow> string \<Rightarrow> cookie list" where
  "session_cookies e access refresh csrf =
     [\<lparr>ck_name = ''qs_access'', ck_value = access, ck_httponly = True, ck_max_age = ae_access_seconds e, ck_path = ''/''\<rparr>,
      \<lparr>ck_name = ''qs_refresh'', ck_value = refresh, ck_httponly = True, ck_max_age = ae_refresh_seconds e, ck_path = ''/api/auth/''\<rparr>,
      \<lparr>ck_name = ''qs_csrf'', ck_value = csrf, ck_httponly = False, ck_max_age = ae_access_seconds e, ck_path = ''/''\<rparr>]"

record reply =
  rp_status :: nat
  rp_user :: "user_row option"
  rp_cookies :: "cookie list"
  rp_cleared :: bool
  rp_audit :: "audit_call list"
  rp_cache :: "cache_op list"

definition refused :: "nat \<Rightarrow> reply" where
  "refused status = \<lparr>rp_status = status, rp_user = None, rp_cookies = [], rp_cleared = False, rp_audit = [], rp_cache = []\<rparr>"

section \<open>Handlers\<close>

text \<open>\<open>others\<close>: the users other requests committed between the look-up and the insert.\<close>

definition register_user ::
  "account_env \<Rightarrow> fresh_values \<Rightarrow> string \<times> string \<Rightarrow> string \<times> string \<Rightarrow> user_row list \<Rightarrow> string \<Rightarrow> string \<Rightarrow> accounts \<Rightarrow> accounts \<times> reply" where
  "register_user e f kem dsa others email password s =
     (if find_row us_email email (ac_users s) \<noteq> None then (s, refused 409)
      else let users = ac_users s @ others in
           if find_row us_email email users \<noteq> None then (s\<lparr>ac_users := users\<rparr>, refused 409)
           else let u = \<lparr>us_id = fv_id f, us_email = email, us_password_hash = ae_hash e password, us_tier = ''free'', us_beginner = True,
                         us_active = True, us_role = ''user'', us_created = fv_us f\<rparr>;
                    pair = (\<lambda>alg (pk, sk). \<lparr>kp_user = us_id u, kp_algorithm = alg, kp_public = pk, kp_private = ae_protect e sk\<rparr>)
                in (s\<lparr>ac_users := users @ [u], ac_keys := ac_keys s @ [pair ''ML-KEM-768'' kem, pair ''ML-DSA-65'' dsa]\<rparr>,
                    (refused 200)\<lparr>rp_user := Some u, rp_audit := [(us_id u, ''USER_REGISTERED'', ''user'', us_id u)]\<rparr>))"

definition access_token :: "account_env \<Rightarrow> fresh_values \<Rightarrow> user_row \<Rightarrow> string" where
  "access_token e f u =
     ae_encode e (access_claims (ae_issuer e) (ae_audience e) (ae_access_seconds e) \<lfloor>fv_now f\<rfloor> (us_id u) (us_tier u) (fv_jti f))"

definition issue_session :: "account_env \<Rightarrow> fresh_values \<Rightarrow> user_row \<Rightarrow> string \<Rightarrow> cache_op list \<Rightarrow> reply" where
  "issue_session e f u refresh cache =
     (refused 200)\<lparr>rp_user := Some u,
       rp_cookies := session_cookies e (access_token e f u) refresh (generate_csrf_token (ae_csrf e) (fv_now f) (us_id u)),
       rp_cache := (if ae_redis e then cache @ [CachePut (ae_sha e refresh) (us_id u)] else [])\<rparr>"

definition login :: "account_env \<Rightarrow> fresh_values \<Rightarrow> string option \<Rightarrow> string \<Rightarrow> string \<Rightarrow> accounts \<Rightarrow> accounts \<times> reply" where
  "login e f ip email password s =
     (let key = rate_key (ae_lower e) email ip in
      case check_rate_limit key (fv_now f) (ac_limiter s) of
        (m1, True, wait) \<Rightarrow> (s\<lparr>ac_limiter := m1\<rparr>, refused 429)
      | (m1, False, wait) \<Rightarrow>
          (let found = find_row us_email email (ac_users s);
               stored = (case found of Some u \<Rightarrow> us_password_hash u | None \<Rightarrow> DUMMY_HASH);
               (valid, rehash) = ae_verify e password stored
           in if found = None \<or> \<not> valid
              then (case record_failed_attempt key (fv_later f) m1 of
                      (m2, Some wait) \<Rightarrow> (s\<lparr>ac_limiter := m2\<rparr>, refused 429)
                    | (m2, None) \<Rightarrow> (s\<lparr>ac_limiter := m2\<rparr>, refused 401))
              else let m2 = clear_failed_attempts key m1;
                       u = (if rehash then (the found)\<lparr>us_password_hash := ae_hash e password\<rparr> else the found);
                       users = (if rehash then sql_update (\<lambda>r. us_id r = us_id u) (\<lambda>r. r\<lparr>us_password_hash := ae_hash e password\<rparr>) (ac_users s)
                                else ac_users s);
                       s1 = s\<lparr>ac_users := users, ac_limiter := m2\<rparr>
                   in case create_refresh_token (ae_sha e) (ae_refresh_seconds e) (fv_us f) (fv_us f) (fv_refresh f) (fv_family f) (us_id u)
                             (fresh_session (ac_refresh s)) of
                        (r, Done _) \<Rightarrow>
                          (s1\<lparr>ac_refresh := committed r\<rparr>,
                           (issue_session e f u (fv_refresh f) [])\<lparr>rp_audit := [(us_id u, ''USER_LOGIN'', ''user'', us_id u)]\<rparr>)
                      | (r, _) \<Rightarrow> (s1\<lparr>ac_refresh := committed r\<rparr>, refused 500)))"

definition refresh_session :: "account_env \<Rightarrow> fresh_values \<Rightarrow> string option \<Rightarrow> accounts \<Rightarrow> accounts \<times> reply" where
  "refresh_session e f raw s =
     (if \<not> present raw then (s, refused 401)
      else case rotate_refresh_token (ae_sha e) (ae_refresh_seconds e) (ae_absolute_seconds e) (fv_us f) (fv_us f) (fv_us f) (fv_us f)
                  (fv_refresh f) (the raw) (fresh_session (ac_refresh s)) of
             (r, Refused) \<Rightarrow> (s\<lparr>ac_refresh := committed r\<rparr>, (refused 401)\<lparr>rp_cleared := True\<rparr>)
           | (r, IntegrityError) \<Rightarrow> (s\<lparr>ac_refresh := committed r\<rparr>, refused 500)
           | (r, Done (new_raw, user, family)) \<Rightarrow>
               (case find_row us_id user (ac_users s) of
                  Some u \<Rightarrow>
                    if us_active u
                    then (s\<lparr>ac_refresh := committed r\<rparr>, issue_session e f u new_raw [CacheDel (ae_sha e (the raw))])
                    else (s\<lparr>ac_refresh := committed r\<rparr>, refused 401)
                | None \<Rightarrow> (s\<lparr>ac_refresh := committed r\<rparr>, refused 401)))"

definition logout :: "account_env \<Rightarrow> string option \<Rightarrow> accounts \<Rightarrow> accounts \<times> reply" where
  "logout e raw s =
     (if present raw
      then (s\<lparr>ac_refresh := committed (fst (revoke_refresh_token (ae_sha e) (the raw) (fresh_session (ac_refresh s))))\<rparr>,
            (refused 200)\<lparr>rp_cleared := True, rp_cache := (if ae_redis e then [CacheDel (ae_sha e (the raw))] else [])\<rparr>)
      else (s, (refused 200)\<lparr>rp_cleared := True\<rparr>))"

definition logout_all :: "string \<Rightarrow> accounts \<Rightarrow> accounts \<times> reply \<times> nat" where
  "logout_all user s =
     (let (r, n) = revoke_user_refresh_tokens user (fresh_session (ac_refresh s))
      in (s\<lparr>ac_refresh := committed r\<rparr>,
          (refused 200)\<lparr>rp_cleared := True, rp_audit := [(user, ''USER_LOGOUT_ALL'', ''user'', user)]\<rparr>, n))"

definition update_user_settings :: "string \<Rightarrow> bool option \<Rightarrow> accounts \<Rightarrow> accounts" where
  "update_user_settings user beginner s =
     (case beginner of
        None \<Rightarrow> s
      | Some b \<Rightarrow> s\<lparr>ac_users := sql_update (\<lambda>r. us_id r = user) (\<lambda>r. r\<lparr>us_beginner := b\<rparr>) (ac_users s)\<rparr>)"

end
