(* ===== verification/Session_Properties.thy ===== *)
theory Session_Properties
  imports Session_Handlers Auth_Properties Gate_Properties
begin

text \<open>
  Properties of the account handlers: a failed login tells nothing about the account, cookies are issued only for a
  proof, and logging out everywhere is final for every session that existed.
\<close>

section \<open>Failed logins\<close>

definition credentials_match :: "account_env \<Rightarrow> string \<Rightarrow> string \<Rightarrow> accounts \<Rightarrow> bool" where
  "credentials_match e email password s \<longleftrightarrow>
     (\<exists>u. find_row us_email email (ac_users s) = Some u \<and> fst (ae_verify e password (us_password_hash u)))"

lemma login_failed:
  assumes "\<not> credentials_match e email password s"
  shows "login e f ip email password s =
    (let key = rate_key (ae_lower e) email ip in
     case check_rate_limit key (fv_now f) (ac_limiter s) of
       (m1, True, wait) \<Rightarrow> (s\<lparr>ac_limiter := m1\<rparr>, refused 429)
     | (m1, False, wait) \<Rightarrow>
         (case record_failed_attempt key (fv_later f) m1 of
            (m2, Some wait) \<Rightarrow> (s\<lparr>ac_limiter := m2\<rparr>, refused 429)
          | (m2, None) \<Rightarrow> (s\<lparr>ac_limiter := m2\<rparr>, refused 401)))"
  using assms by (auto simp: login_def credentials_match_def Let_def split: prod.split option.split bool.split)

text \<open>
  C35: a failed login tells nothing about the account. Whether the address is unknown or known with another password,
  the reply and the limiter afterwards are the same, and nothing but the limiter changes.
\<close>

theorem failed_login_is_uniform:
  assumes "\<not> credentials_match e email password s" "\<not> credentials_match e email password s'" "ac_limiter s' = ac_limiter s"
  shows "snd (login e f ip email password s') = snd (login e f ip email password s)
    \<and> ac_limiter (fst (login e f ip email password s')) = ac_limiter (fst (login e f ip email password s))
    \<and> fst (login e f ip email password s) = s\<lparr>ac_limiter := ac_limiter (fst (login e f ip email password s))\<rparr>
    \<and> rp_cookies (snd (login e f ip email password s)) = []"
  unfolding login_failed [OF assms(1)] login_failed [OF assms(2)]
  by (auto simp: Let_def assms(3) refused_def split: prod.split option.split bool.split)

section \<open>Cookies need a proof\<close>

lemma login_cookies:
  assumes "login e f ip email password s = (s', r)" "rp_cookies r \<noteq> []"
  shows "credentials_match e email password s
    \<and> \<not> fst (snd (check_rate_limit (rate_key (ae_lower e) email ip) (fv_now f) (ac_limiter s)))"
proof (rule ccontr)
  assume "\<not> ?thesis"
  then consider "\<not> credentials_match e email password s"
    | "fst (snd (check_rate_limit (rate_key (ae_lower e) email ip) (fv_now f) (ac_limiter s)))" by blast
  then show False
  proof cases
    case 1
    then show False using assms by (auto simp: login_failed refused_def Let_def split: prod.splits option.splits bool.splits)
  next
    case 2
    then show False using assms by (auto simp: login_def refused_def Let_def split: prod.splits bool.splits)
  qed
qed

lemma refresh_cookies:
  assumes "refresh_session e f raw s = (s', r)" "rp_cookies r \<noteq> []"
  shows "\<exists>t row u. raw = Some t \<and> find_row rt_hash (ae_sha e t) (ac_refresh s) = Some row \<and> \<not> rt_used row \<and> \<not> rt_revoked row
    \<and> fv_us f \<le> rt_expires row \<and> find_row us_id (rt_user row) (ac_users s) = Some u \<and> us_active u \<and> rp_user r = Some u"
proof -
  obtain t where t: "raw = Some t" using assms by (cases raw) (auto simp: refresh_session_def present_def refused_def)
  have p: "present raw" using assms by (auto simp: refresh_session_def refused_def split: if_splits)
  show ?thesis using assms p t
    by (auto simp: refresh_session_def rotate_refresh_token_def insert_refresh_def refused_def issue_session_def
        split: option.splits if_splits prod.splits)
qed

text \<open>
  C36: session cookies are issued only for a proof. Login gives cookies only when the account's password verified and the address was
  not locked out; refresh only for a stored token that is neither spent, revoked nor expired and whose user exists and is
  active. The access and refresh cookies are closed to scripts.
\<close>

theorem cookies_need_proof:
  "(rp_cookies (snd (login e f ip email password s)) \<noteq> [] \<longrightarrow>
      credentials_match e email password s
      \<and> \<not> fst (snd (check_rate_limit (rate_key (ae_lower e) email ip) (fv_now f) (ac_limiter s))))
   \<and> (rp_cookies (snd (refresh_session e f raw s)) \<noteq> [] \<longrightarrow>
      (\<exists>t row u. raw = Some t \<and> find_row rt_hash (ae_sha e t) (ac_refresh s) = Some row \<and> \<not> rt_used row \<and> \<not> rt_revoked row
         \<and> fv_us f \<le> rt_expires row \<and> find_row us_id (rt_user row) (ac_users s) = Some u \<and> us_active u))"
  using login_cookies [of e f ip email password s] refresh_cookies [of e f raw s] by (metis prod.collapse)

section \<open>Logging out everywhere\<close>

datatype account_op =
    Op_register fresh_values "string \<times> string" "string \<times> string" "user_row list" string string
  | Op_login fresh_values "string option" string string
  | Op_refresh fresh_values "string option"
  | Op_logout "string option"
  | Op_logout_all string
  | Op_settings string "bool option"

fun account_step :: "account_env \<Rightarrow> account_op \<Rightarrow> accounts \<Rightarrow> accounts" where
  "account_step e (Op_register f kem dsa others email password) s = fst (register_user e f kem dsa others email password s)"
| "account_step e (Op_login f ip email password) s = fst (login e f ip email password s)"
| "account_step e (Op_refresh f raw) s = fst (refresh_session e f raw s)"
| "account_step e (Op_logout raw) s = fst (logout e raw s)"
| "account_step e (Op_logout_all user) s = fst (logout_all user s)"
| "account_step e (Op_settings user b) s = update_user_settings user b s"

definition token_dead :: "string \<Rightarrow> accounts \<Rightarrow> bool" where
  "token_dead h s \<longleftrightarrow> (\<exists>r. find_row rt_hash h (ac_refresh s) = Some r \<and> rt_revoked r)"

text \<open>What any operation does to the refresh rows: an update that never takes a revocation back, then perhaps a new row.\<close>

definition rows_move :: "refresh_row list \<Rightarrow> refresh_row list \<Rightarrow> bool" where
  "rows_move rows rows' \<longleftrightarrow> (\<exists>p f new. rows' = sql_update p f rows @ new
     \<and> (\<forall>r. rt_hash (f r) = rt_hash r \<and> (rt_revoked r \<longrightarrow> rt_revoked (f r))))"

lemma rows_move_refl [simp]: "rows_move rows rows"
  unfolding rows_move_def by (rule exI [of _ "\<lambda>_. False"], rule exI [of _ id], rule exI [of _ "[]"]) (simp add: sql_update_def)

lemma rows_move_append [simp]: "rows_move rows (rows @ new)"
  unfolding rows_move_def by (rule exI [of _ "\<lambda>_. False"], rule exI [of _ id], rule exI [of _ new]) (simp add: sql_update_def)

lemma rows_move_update:
  "(\<And>r. rt_hash (f r) = rt_hash r \<and> (rt_revoked r \<longrightarrow> rt_revoked (f r))) \<Longrightarrow> rows_move rows (sql_update p f rows @ new)"
  by (auto simp: rows_move_def)

lemma rows_move_update':
  "(\<And>r. rt_hash (f r) = rt_hash r \<and> (rt_revoked r \<longrightarrow> rt_revoked (f r))) \<Longrightarrow> rows_move rows (sql_update p f rows)"
  using rows_move_update [of f rows p "[]"] by simp

lemma find_row_move:
  assumes "rows_move rows rows'" "find_row rt_hash h rows = Some r" "rt_revoked r"
  shows "\<exists>r'. find_row rt_hash h rows' = Some r' \<and> rt_revoked r'"
proof -
  obtain p f new where m: "rows' = sql_update p f rows @ new" "\<And>r. rt_hash (f r) = rt_hash r \<and> (rt_revoked r \<longrightarrow> rt_revoked (f r))"
    using assms(1) by (auto simp: rows_move_def)
  have "find_row rt_hash h (sql_update p f rows) = map_option (\<lambda>r. if p r then f r else r) (find_row rt_hash h rows)"
    by (rule find_row_update) (simp add: m(2))
  then show ?thesis using assms(2,3) m by (auto simp: find_row_append)
qed

lemma account_step_rows: "rows_move (ac_refresh s) (ac_refresh (account_step e op s))"
proof (cases op)
  case (Op_register f kem dsa others email password)
  then show ?thesis by (auto simp: register_user_def Let_def)
next
  case (Op_login f ip email password)
  then show ?thesis
    by (auto simp: login_def create_refresh_token_def insert_refresh_def Let_def
        split: prod.split option.split bool.split refresh_result.split)
next
  case (Op_refresh f raw)
  then show ?thesis
    by (auto simp: refresh_session_def rotate_refresh_token_def insert_refresh_def revoke_family_def rows_move_update rows_move_update'
        split: prod.split option.split)
next
  case (Op_logout raw)
  then show ?thesis by (auto simp: logout_def revoke_refresh_token_def rows_move_update' split: option.split)
next
  case (Op_logout_all user)
  then show ?thesis by (auto simp: logout_all_def revoke_user_refresh_tokens_def rows_move_update' Let_def)
next
  case (Op_settings user b)
  then show ?thesis by (auto simp: update_user_settings_def split: option.split)
qed

interpretation account_sessions: sealed_machine "account_step e" "\<lambda>_. True" "\<lambda>_ _. True" token_dead for e
  by unfold_locales (use find_row_move [OF account_step_rows] in \<open>auto simp: token_dead_def\<close>)

lemma dead_token_refused: "token_dead (ae_sha e t) s \<Longrightarrow> rp_cookies (snd (refresh_session e f (Some t) s)) = []"
  by (auto simp: token_dead_def refresh_session_def rotate_refresh_token_def refused_def)

text \<open>
  C37: logging out everywhere is final. After it, no refresh token the account had, on whatever device, gives a session again,
  whatever logins, refreshes and log-outs follow; other users' sessions are untouched.
\<close>

theorem logout_everywhere_is_final:
  assumes "find_row rt_hash (ae_sha e t) (ac_refresh s) = Some row" "rt_user row = user"
  shows "rp_cookies (snd (refresh_session e f (Some t) (fold (account_step e) ops (fst (logout_all user s))))) = []
    \<and> filter (\<lambda>r. rt_user r \<noteq> user) (ac_refresh (fst (logout_all user s))) = filter (\<lambda>r. rt_user r \<noteq> user) (ac_refresh s)"
proof -
  let ?p = "\<lambda>r. rt_user r = user \<and> \<not> rt_revoked r"
  let ?f = "\<lambda>r. r\<lparr>rt_revoked := True\<rparr>"
  have rows: "ac_refresh (fst (logout_all user s)) = sql_update ?p ?f (ac_refresh s)"
    by (simp add: logout_all_def revoke_user_refresh_tokens_def Let_def)
  have "find_row rt_hash (ae_sha e t) (sql_update ?p ?f (ac_refresh s)) = Some (if ?p row then ?f row else row)"
    by (subst find_row_update) (simp_all add: assms(1))
  then have "token_dead (ae_sha e t) (fst (logout_all user s))" using assms(2) by (auto simp: token_dead_def rows)
  then have "token_dead (ae_sha e t) (fold (account_step e) ops (fst (logout_all user s)))"
    by (intro account_sessions.sealed_run) simp_all
  moreover have "filter (\<lambda>r. rt_user r \<noteq> user) (sql_update ?p ?f rows) = filter (\<lambda>r. rt_user r \<noteq> user) rows" for rows
    by (induction rows) (auto simp: sql_update_def)
  ultimately show ?thesis using dead_token_refused rows by simp
qed

section \<open>Concrete inputs\<close>

definition demo_accounts :: accounts where
  "demo_accounts = \<lparr>ac_users = [demo_user], ac_keys = [],
     ac_refresh = [\<lparr>rt_user = ''u'', rt_hash = ''t'', rt_family = ''f'', rt_used = False, rt_revoked = False, rt_created = 1, rt_expires = 100\<rparr>],
     ac_limiter = \<lparr>fail_attempts = [], locked_until = []\<rparr>\<rparr>"

definition demo_account_env :: account_env where
  "demo_account_env = \<lparr>ae_sha = (\<lambda>s. s), ae_hash = (\<lambda>s. ''$'' @ s), ae_verify = (\<lambda>p h. (h = ''$'' @ p, False)), ae_lower = str_lower,
     ae_protect = (\<lambda>s. s), ae_encode = c_sub, ae_csrf = demo_csrf, ae_issuer = ''i'', ae_audience = ''a'', ae_access_seconds = 900,
     ae_refresh_seconds = 86400, ae_absolute_seconds = 86400, ae_redis = False\<rparr>"

definition demo_fresh :: fresh_values where
  "demo_fresh = \<lparr>fv_now = 1, fv_later = 1, fv_us = 1, fv_id = ''n'', fv_jti = ''j'', fv_refresh = ''r'', fv_family = ''g''\<rparr>"

theorem failed_login_is_uniform_witness:
  "snd (login demo_account_env demo_fresh None ''u@x'' ''wrong'' demo_accounts)
   = snd (login demo_account_env demo_fresh None ''u@x'' ''wrong'' (demo_accounts\<lparr>ac_users := []\<rparr>))"
  by (rule failed_login_is_uniform [THEN conjunct1])
    (simp_all add: credentials_match_def demo_accounts_def demo_account_env_def demo_user_def find_row_def)

theorem cookies_need_proof_witness:
  "rp_cookies (snd (refresh_session demo_account_env demo_fresh (Some ''t'') demo_accounts)) \<noteq> []
   \<and> (\<exists>row. find_row rt_hash ''t'' (ac_refresh demo_accounts) = Some row \<and> \<not> rt_used row)"
proof -
  have "rp_cookies (snd (refresh_session demo_account_env demo_fresh (Some ''t'') demo_accounts)) \<noteq> []"
    by (simp add: refresh_session_def present_def rotate_refresh_token_def too_old_def family_created_def insert_refresh_def
        demo_accounts_def demo_account_env_def demo_fresh_def demo_user_def find_row_def sql_update_def issue_session_def
        session_cookies_def fdiv_def)
  then show ?thesis
    using cookies_need_proof [of demo_account_env demo_fresh None "[]" "[]" demo_accounts "Some ''t''"]
    by (auto simp: demo_account_env_def)
qed

theorem logout_everywhere_is_final_witness:
  "rp_cookies (snd (refresh_session demo_account_env demo_fresh (Some ''t'')
     (fold (account_step demo_account_env) [Op_settings ''u'' None] (fst (logout_all ''u'' demo_accounts))))) = []"
  using logout_everywhere_is_final [of demo_account_env "''t''" demo_accounts _ "''u''" demo_fresh "[Op_settings ''u'' None]"]
  by (simp add: demo_accounts_def demo_account_env_def find_row_def)

text \<open>
  Registration stores the address in lower case, login looks it up as typed (only the domain is normalised): whoever
  registered with capitals in the local part cannot log in with the address they registered with.
\<close>

lemma registered_address_may_not_log_in:
  assumes "register_request disposable common email password = Some (stored, password)" "stored \<noteq> email"
    and "find_row us_email email (ac_users s) = None"
    and "register_user e f kem dsa [] stored password s = (s1, r)" "rp_status r = 200"
  shows "rp_user r \<noteq> None \<and> rp_cookies (snd (login e f2 ip email password s1)) = []"
proof -
  obtain u where s1: "ac_users s1 = ac_users s @ [u]" "us_email u = stored" "rp_user r = Some u"
    using assms(4,5) by (auto simp: register_user_def refused_def Let_def split: if_splits prod.splits)
  then have "\<not> credentials_match e email password s1" using assms(2,3)
    by (simp add: credentials_match_def find_row_append) (simp add: find_row_def)
  then show ?thesis using s1(3) login_cookies [of e f2 ip email password s1] by (metis option.distinct(1) prod.collapse)
qed

end
