(* ===== verification/Market_Microstructure.thy ===== *)
theory Market_Microstructure
  imports Order_Book
begin

text \<open>
  \<^verbatim>\<open>src/backend/services/market_microstructure.py\<close>: the statistics of a book snapshot and of a tape of trades. \<^verbatim>\<open>math.log\<close>
  and \<^verbatim>\<open>math.sqrt\<close> are arguments; sides of a snapshot are lists of (price, size), best price first. The
  generator of synthetic streams and their validation are in \<open>Synthetic_L2\<close>.
\<close>

section \<open>Snapshots\<close>

record l2_snapshot =
  sn_time :: pyfloat
  sn_bids :: "(pyfloat \<times> pyfloat) list"
  sn_asks :: "(pyfloat \<times> pyfloat) list"
  sn_last_price :: "pyfloat option"
  sn_last_size :: "pyfloat option"

text \<open>\<^verbatim>\<open>OrderBook.snapshot\<close>.\<close>

definition snapshot_of :: "nat \<Rightarrow> book \<Rightarrow> l2_snapshot" where
  "snapshot_of n b =
     \<lparr>sn_time = last_event_time b, sn_bids = fst (book_snapshot n b), sn_asks = snd (book_snapshot n b),
      sn_last_price = last_trade_price b, sn_last_size = last_trade_size b\<rparr>"

record trade_event =
  te_time :: pyfloat
  te_price :: pyfloat
  te_size :: pyfloat
  te_side :: trade_side

text \<open>\<^verbatim>\<open>xs[:n]\<close>; a negative \<open>n\<close> counts from the end.\<close>

definition prefix_upto :: "int \<Rightarrow> 'a list \<Rightarrow> 'a list" where
  "prefix_upto n xs = take (nat (if n < 0 then int (length xs) + n else n)) xs"

section \<open>Prices\<close>

definition best_quotes :: "l2_snapshot \<Rightarrow> ((pyfloat \<times> pyfloat) \<times> (pyfloat \<times> pyfloat)) option" where
  "best_quotes sn = (case (sn_bids sn, sn_asks sn) of (b # _, a # _) \<Rightarrow> Some (b, a) | _ \<Rightarrow> None)"

definition compute_mid_price :: "l2_snapshot \<Rightarrow> pyfloat option" where
  "compute_mid_price sn = (case best_quotes sn of Some (b, a) \<Rightarrow> Some (fdiv (fadd (fst b) (fst a)) 2) | None \<Rightarrow> None)"

definition compute_spread :: "l2_snapshot \<Rightarrow> pyfloat option" where
  "compute_spread sn = (case best_quotes sn of Some (b, a) \<Rightarrow> Some (fsub (fst a) (fst b)) | None \<Rightarrow> None)"

definition compute_spread_bps :: "l2_snapshot \<Rightarrow> pyfloat option" where
  "compute_spread_bps sn =
     (case (compute_spread sn, compute_mid_price sn) of
        (Some s, Some m) \<Rightarrow> if m = 0 then None else Some (fmul (fdiv s m) 10000)
      | _ \<Rightarrow> None)"

definition compute_microprice :: "l2_snapshot \<Rightarrow> pyfloat option" where
  "compute_microprice sn =
     (case best_quotes sn of
        None \<Rightarrow> None
      | Some ((bp, bs), (ap, asz)) \<Rightarrow>
          if fadd bs asz = 0 then None
          else Some (fdiv (fadd (fmul ap bs) (fmul bp asz)) (fadd bs asz)))"

definition compute_microprice_deviation :: "l2_snapshot \<Rightarrow> pyfloat option" where
  "compute_microprice_deviation sn =
     (case (compute_mid_price sn, compute_microprice sn) of
        (Some m, Some u) \<Rightarrow> if m = 0 then None else Some (fmul (fdiv (fsub u m) m) 10000)
      | _ \<Rightarrow> None)"

section \<open>Depth and imbalance\<close>

text \<open>\<^verbatim>\<open>(a - b) / (a + b)\<close>, the common end of both imbalances.\<close>

definition imbalance_of :: "pyfloat \<Rightarrow> pyfloat \<Rightarrow> pyfloat option" where
  "imbalance_of x y = (if fadd x y = 0 then None else Some (fdiv (fsub x y) (fadd x y)))"

definition compute_order_book_imbalance :: "int \<Rightarrow> l2_snapshot \<Rightarrow> pyfloat option" where
  "compute_order_book_imbalance n sn =
     imbalance_of (fsum (map snd (prefix_upto n (sn_bids sn)))) (fsum (map snd (prefix_upto n (sn_asks sn))))"

text \<open>Bid depth, ask depth, total depth and levels used.\<close>

definition compute_depth :: "int \<Rightarrow> l2_snapshot \<Rightarrow> pyfloat \<times> pyfloat \<times> pyfloat \<times> int" where
  "compute_depth n sn =
     (let x = fsum (map snd (prefix_upto n (sn_bids sn))); y = fsum (map snd (prefix_upto n (sn_asks sn)))
      in (x, y, fadd x y, min n (max (int (length (sn_bids sn))) (int (length (sn_asks sn))))))"

definition traded_volumes :: "pyfloat \<Rightarrow> trade_event list \<Rightarrow> pyfloat \<times> pyfloat" where
  "traded_volumes cutoff ts =
     foldl (\<lambda>(x, y) t. if te_time t < cutoff then (x, y)
                       else if te_side t = BUY then (fadd x (te_size t), y) else (x, fadd y (te_size t))) (0, 0) ts"

definition compute_trade_imbalance :: "pyfloat \<Rightarrow> pyfloat option \<Rightarrow> trade_event list \<Rightarrow> pyfloat option" where
  "compute_trade_imbalance window reference ts =
     (case (if reference = None \<and> ts \<noteq> [] then Some (te_time (last ts)) else reference) of
        None \<Rightarrow> None
      | Some now \<Rightarrow> (case traded_volumes (fsub now window) ts of (x, y) \<Rightarrow> imbalance_of x y))"

section \<open>Costs\<close>

definition compute_effective_spread :: "pyfloat \<Rightarrow> pyfloat \<Rightarrow> trade_side \<Rightarrow> pyfloat" where
  "compute_effective_spread p m sd = fmul 2 (if sd = BUY then fsub p m else fsub m p)"

text \<open>The walk through the levels: what is left, the cost and the number of levels entered.\<close>

fun walk_levels :: "(pyfloat \<times> pyfloat) list \<Rightarrow> pyfloat \<times> pyfloat \<times> nat \<Rightarrow> pyfloat \<times> pyfloat \<times> nat" where
  "walk_levels [] st = st"
| "walk_levels ((p, sz) # ls) (left, cost, n) =
     (let q = min left sz; st = (fsub left q, fadd cost (fmul q p), Suc n)
      in if fst st \<le> 0 then st else walk_levels ls st)"

record impact =
  im_vwap :: "pyfloat option"
  im_mid :: "pyfloat option"
  im_bps :: "pyfloat option"
  im_levels :: nat
  im_full :: bool

definition compute_price_impact :: "pyfloat \<Rightarrow> l2_snapshot \<Rightarrow> trade_side \<Rightarrow> impact" where
  "compute_price_impact size' sn sd =
     (case compute_mid_price sn of
        None \<Rightarrow> \<lparr>im_vwap = None, im_mid = None, im_bps = None, im_levels = 0, im_full = False\<rparr>
      | Some m \<Rightarrow>
          (case walk_levels (if sd = BUY then sn_asks sn else sn_bids sn) (size', 0, 0) of
             (left, cost, n) \<Rightarrow>
               (let filled = fsub size' (max left 0);
                    vwap = (if 0 < filled then Some (fdiv cost filled) else None);
                    vwap' = (case vwap of Some v \<Rightarrow> if v \<noteq> 0 then Some v else None | None \<Rightarrow> None);
                    bps = (case vwap' of Some v \<Rightarrow> if m \<noteq> 0 then Some (fmul (fdiv (fsub v m) m) 10000) else None | None \<Rightarrow> None);
                    bps' = (if sd = SELL then map_option uminus bps else bps)
                in \<lparr>im_vwap = map_option (\<lambda>v. pyround v 8) vwap', im_mid = Some (pyround m 8),
                    im_bps = map_option (\<lambda>x. pyround x 4) bps', im_levels = n, im_full = (left \<le> 0)\<rparr>)))"

definition compute_realized_volatility ::
  "(pyfloat \<Rightarrow> pyfloat) \<Rightarrow> (pyfloat \<Rightarrow> pyfloat) \<Rightarrow> pyfloat \<Rightarrow> pyfloat list \<Rightarrow> pyfloat option" where
  "compute_realized_volatility log_of sqrt_of factor ms =
     (if length ms < 2 then None
      else Some (fmul (sqrt_of (foldl (\<lambda>s (x, y). if y \<le> 0 \<or> x \<le> 0 then s
                                         else let lr = log_of (fdiv y x) in fadd s (fmul lr lr)) 0 (zip ms (tl ms)))) factor))"

section \<open>The reported view\<close>

record snapshot_view =
  sv_snapshot :: l2_snapshot
  sv_mid :: "pyfloat option"
  sv_spread :: "pyfloat option"
  sv_spread_bps :: "pyfloat option"
  sv_microprice :: "pyfloat option"
  sv_deviation_bps :: "pyfloat option"
  sv_obi_5 :: "pyfloat option"

definition snapshot_to_dict :: "l2_snapshot \<Rightarrow> snapshot_view" where
  "snapshot_to_dict sn =
     \<lparr>sv_snapshot = sn, sv_mid = compute_mid_price sn, sv_spread = compute_spread sn,
      sv_spread_bps = compute_spread_bps sn, sv_microprice = compute_microprice sn,
      sv_deviation_bps = compute_microprice_deviation sn, sv_obi_5 = compute_order_book_imbalance 5 sn\<rparr>"

section \<open>Bounds\<close>

lemma fl_le_iff_1: "x \<le> 1 \<Longrightarrow> fl x \<le> 1"
  using fl_mono [of x 1] by simp

lemma imbalance_bounded:
  assumes "imbalance_of x y = Some i" "0 \<le> x" "0 \<le> y"
  shows "- 1 \<le> i \<and> i \<le> 1"
proof -
  let ?t = "fadd x y"
  have t: "?t \<noteq> 0" and i: "i = fl (fsub x y / ?t)"
    using assms(1) by (auto simp: imbalance_of_def fdiv_def split: if_splits)
  have pos: "0 < ?t" using fadd_nonneg [OF assms(2,3)] t by simp
  have "fsub x y \<le> ?t" by (simp add: fsub_def fadd_def fl_mono assms)
  moreover have "- ?t \<le> fsub x y" unfolding fsub_def fadd_def fl_minus [symmetric] by (rule fl_mono) (use assms in simp)
  ultimately have "fsub x y / ?t \<le> 1" "- 1 \<le> fsub x y / ?t" using pos by (simp_all add: divide_le_eq le_divide_eq)
  then show ?thesis unfolding i using fl_mono [of "- 1" "fsub x y / ?t"] by (simp add: fl_le_iff_1 fl_minus)
qed

lemma traded_volumes_nonneg:
  assumes "\<And>t. t \<in> set ts \<Longrightarrow> 0 \<le> te_size t"
  shows "0 \<le> fst (traded_volumes c ts) \<and> 0 \<le> snd (traded_volumes c ts)"
proof -
  have "0 \<le> fst (foldl f (x, y) ts) \<and> 0 \<le> snd (foldl f (x, y) ts)"
    if "f = (\<lambda>(x, y) t. if te_time t < c then (x, y) else if te_side t = BUY then (fadd x (te_size t), y) else (x, fadd y (te_size t)))"
      "0 \<le> x" "0 \<le> y" for f and x y
    using assms that(2,3) by (induction ts arbitrary: x y) (simp_all add: that(1) fadd_nonneg)
  then show ?thesis by (simp add: traded_volumes_def)
qed

text \<open>The imbalance of trades lies between minus one and one, rounding included.\<close>

lemma trade_imbalance_bounded:
  assumes "compute_trade_imbalance w r ts = Some i" "\<And>t. t \<in> set ts \<Longrightarrow> 0 \<le> te_size t"
  shows "- 1 \<le> i \<and> i \<le> 1"
proof -
  obtain c where "imbalance_of (fst (traded_volumes c ts)) (snd (traded_volumes c ts)) = Some i"
    using assms(1) by (auto simp: compute_trade_imbalance_def case_prod_beta split: option.splits if_splits)
  then show ?thesis using imbalance_bounded traded_volumes_nonneg [of ts c] assms(2) by blast
qed

text \<open>The mid of a book that is not crossed lies between its best quotes.\<close>

lemma mid_between_quotes:
  assumes "best_quotes sn = Some (b, a)" "fst b \<le> fst a" "fl (fst b) = fst b" "fl (fst a) = fst a"
    and "fl (2 * fst b) = 2 * fst b" "fl (2 * fst a) = 2 * fst a"
  shows "\<exists>m. compute_mid_price sn = Some m \<and> fst b \<le> m \<and> m \<le> fst a"
proof -
  have "2 * fst b \<le> fadd (fst b) (fst a)" using fl_mono [of "2 * fst b" "fst b + fst a"] assms(2,5) by (simp add: fadd_def)
  moreover have "fadd (fst b) (fst a) \<le> 2 * fst a" using fl_mono [of "fst b + fst a" "2 * fst a"] assms(2,6) by (simp add: fadd_def)
  ultimately have "fst b \<le> fadd (fst b) (fst a) / 2" "fadd (fst b) (fst a) / 2 \<le> fst a" by simp_all
  then show ?thesis using fl_mono assms by (metis (no_types, lifting) compute_mid_price_def fdiv_def option.case(2) split_conv)
qed

end
