(* ===== verification/Synthetic_L2.thy ===== *)
theory Synthetic_L2
  imports Market_Microstructure Json_Values
begin

text \<open>
  \<^verbatim>\<open>generate_synthetic_l2\<close> and \<^verbatim>\<open>validate_events\<close> of \<^verbatim>\<open>src/backend/services/market_microstructure.py\<close>. The random
  source is an argument with a state \<open>'r\<close> passed from draw to draw in the code's order. The generator works in
  ticks; \<open>syn_event\<close> is an event before its price is computed. A reference semantics of aggregated books
  (\<open>l2_apply\<close>) says what a valid history is, and the generator's events are shown to be one.
\<close>

section \<open>Configuration and random source\<close>

record 'r random_source =
  rg_random :: "'r \<Rightarrow> pyfloat \<times> 'r"
  rg_pareto :: "pyfloat \<Rightarrow> 'r \<Rightarrow> pyfloat \<times> 'r"
  rg_gauss :: "pyfloat \<Rightarrow> pyfloat \<Rightarrow> 'r \<Rightarrow> pyfloat \<times> 'r"
  rg_expo :: "pyfloat \<Rightarrow> 'r \<Rightarrow> pyfloat \<times> 'r"
  rg_uniform :: "pyfloat \<Rightarrow> pyfloat \<Rightarrow> 'r \<Rightarrow> pyfloat \<times> 'r"
  rg_choice :: "pyfloat list \<Rightarrow> 'r \<Rightarrow> nat \<times> 'r"

text \<open>What \<^verbatim>\<open>random\<close> documents: \<^verbatim>\<open>choices\<close> picks an element, an exponential variate is not negative.\<close>

definition proper_source :: "'r random_source \<Rightarrow> bool" where
  "proper_source env \<longleftrightarrow> (\<forall>ws r. ws \<noteq> [] \<longrightarrow> fst (rg_choice env ws r) < length ws) \<and> (\<forall>l r. 0 \<le> fst (rg_expo env l r))"

record ohlcv_bar =
  ob_time :: pyfloat
  ob_open :: pyfloat
  ob_high :: pyfloat
  ob_low :: pyfloat
  ob_close :: pyfloat
  ob_volume :: pyfloat

record syn_config =
  sc_levels :: int
  sc_spread_bps :: pyfloat
  sc_depth :: pyfloat
  sc_events :: nat
  sc_seed :: string
  sc_tick :: pyfloat
  sc_digits :: nat

record syn_book =
  sb_bids :: "(int, pyfloat) dict"
  sb_asks :: "(int, pyfloat) dict"

record syn_event =
  se_type :: book_event_type
  se_side :: trade_side
  se_ticks :: int
  se_size :: pyfloat

definition sb_side :: "syn_book \<Rightarrow> trade_side \<Rightarrow> (int, pyfloat) dict" where
  "sb_side b sd = (case sd of BUY \<Rightarrow> sb_bids b | SELL \<Rightarrow> sb_asks b)"

definition sb_put :: "trade_side \<Rightarrow> (int, pyfloat) dict \<Rightarrow> syn_book \<Rightarrow> syn_book" where
  "sb_put sd d b = (case sd of BUY \<Rightarrow> b\<lparr>sb_bids := d\<rparr> | SELL \<Rightarrow> b\<lparr>sb_asks := d\<rparr>)"

definition level_size :: "(int, pyfloat) dict \<Rightarrow> int \<Rightarrow> pyfloat" where
  "level_size d t = (case dict_get d t of Some x \<Rightarrow> x | None \<Rightarrow> 0)"

text \<open>The best price of a side that has one: the highest bid, the lowest ask.\<close>

definition best_tick :: "syn_book \<Rightarrow> trade_side \<Rightarrow> int" where
  "best_tick b sd = (case sd of BUY \<Rightarrow> Max (set (dict_keys (sb_bids b))) | SELL \<Rightarrow> Min (set (dict_keys (sb_asks b))))"

section \<open>The generator\<close>

definition price_ticks :: "syn_config \<Rightarrow> pyfloat \<Rightarrow> int" where
  "price_ticks c p = round_half_even (fdiv p (sc_tick c))"

definition tick_price :: "syn_config \<Rightarrow> int \<Rightarrow> pyfloat" where
  "tick_price c t = pyround (fmul (of_int t) (sc_tick c)) (sc_digits c)"

definition depth_size :: "'r random_source \<Rightarrow> syn_config \<Rightarrow> 'r \<Rightarrow> pyfloat \<times> 'r" where
  "depth_size env c r = (let (x, r1) = rg_pareto env (3/2) r in (pyround (max 1 (fmul (fmul x (sc_depth c)) (fl (1/10)))) 2, r1))"

definition spread_ticks :: "syn_config \<Rightarrow> ohlcv_bar \<Rightarrow> int" where
  "spread_ticks c bar =
     (let width = (if ob_open bar \<noteq> 0 then fdiv (fsub (ob_high bar) (ob_low bar)) (ob_open bar) else 0);
          scale = max (1/2) (min 3 (fdiv width (fl (2/100))))
      in max 1 (price_ticks c (fmul (fdiv (fmul (ob_open bar) (sc_spread_bps c)) 10000) scale)))"

definition target_ticks :: "'r random_source \<Rightarrow> syn_config \<Rightarrow> ohlcv_bar \<Rightarrow> pyfloat \<Rightarrow> 'r \<Rightarrow> int \<times> 'r" where
  "target_ticks env c bar part r =
     (let path = fadd (ob_open bar) (fmul (fsub (ob_close bar) (ob_open bar)) part);
          (g, r1) = rg_gauss env 0 (fmul (of_int (spread_ticks c bar)) (1/2)) r
      in (min (price_ticks c (ob_high bar)) (max (price_ticks c (ob_low bar)) (price_ticks c path + round_half_even g)), r1))"

text \<open>\<^verbatim>\<open>_keep_side_alive\<close>.\<close>

definition keep_side_alive :: "pyfloat \<Rightarrow> pyfloat \<Rightarrow> pyfloat" where
  "keep_side_alive size' avail =
     (if size' < avail then size'
      else if fl (2/100) < avail then max (fl (1/100)) (pyround (fdiv avail 2) 2) else 0)"

definition pick_side :: "'r random_source \<Rightarrow> pyfloat \<Rightarrow> 'r \<Rightarrow> trade_side \<times> 'r" where
  "pick_side env p r = (let (u, r1) = rg_random env r in (if u < p then BUY else SELL, r1))"

text \<open>A level after \<open>size'\<close> was taken from it.\<close>

definition take_from :: "trade_side \<Rightarrow> int \<Rightarrow> pyfloat \<Rightarrow> pyfloat \<Rightarrow> syn_book \<Rightarrow> syn_book" where
  "take_from sd t avail size' b =
     (let rest = pyround (fsub avail size') 2
      in sb_put sd (if rest \<le> 0 then dict_pop t (sb_side b sd) else dict_set t rest (sb_side b sd)) b)"

definition put_more :: "trade_side \<Rightarrow> int \<Rightarrow> pyfloat \<Rightarrow> syn_book \<Rightarrow> syn_book" where
  "put_more sd t size' b = sb_put sd (dict_set t (fadd (level_size (sb_side b sd) t) size') (sb_side b sd)) b"

definition half_spread :: "int \<Rightarrow> int" where
  "half_spread width = max 1 (width div 2)"

definition replenish ::
  "'r random_source \<Rightarrow> syn_config \<Rightarrow> int \<Rightarrow> int \<Rightarrow> syn_book \<Rightarrow> 'r \<Rightarrow> syn_event \<times> syn_book \<times> 'r" where
  "replenish env c width target b r =
     (let sd = (if sb_bids b = [] then BUY else SELL);
          h = half_spread width;
          t0 = (if sd = BUY
                then (if sb_asks b = [] then target - h else min (target - h) (best_tick b SELL - 1))
                else (if sb_bids b = [] then target + h else max (target + h) (best_tick b BUY + 1)));
          t = max 1 t0;
          (x, r1) = depth_size env c r
      in (\<lparr>se_type = EV_ADD, se_side = sd, se_ticks = t, se_size = x\<rparr>, put_more sd t x b, r1))"

text \<open>Where the book stands against its target: drift, lean and urgency.\<close>

definition drift_of :: "int \<Rightarrow> syn_book \<Rightarrow> pyfloat" where
  "drift_of target b = fsub (of_int target) (fdiv (of_int (best_tick b BUY + best_tick b SELL)) 2)"

definition lean_of :: "int \<Rightarrow> pyfloat \<Rightarrow> pyfloat" where
  "lean_of width drift = max (- fl (45/100)) (min (fl (45/100)) (fdiv drift (fmul 2 (of_int width))))"

definition is_urgent :: "int \<Rightarrow> pyfloat \<Rightarrow> bool" where
  "is_urgent width drift \<longleftrightarrow> of_int width < \<bar>drift\<bar>"

definition toward_of :: "pyfloat \<Rightarrow> trade_side" where
  "toward_of drift = (if 0 < drift then BUY else SELL)"

definition syn_trade ::
  "'r random_source \<Rightarrow> syn_config \<Rightarrow> pyfloat \<Rightarrow> int \<Rightarrow> pyfloat \<Rightarrow> syn_book \<Rightarrow> 'r \<Rightarrow> syn_event \<times> syn_book \<times> 'r" where
  "syn_trade env c scale width drift b r =
     (let (sd, r1) = pick_side env (fadd (1/2) (lean_of width drift)) r;
          passive = opposite sd;
          t = best_tick b passive;
          avail = level_size (sb_side b passive) t;
          (x0, r2) = (if is_urgent width drift \<and> sd = toward_of drift then (pyround avail 2, r1)
                      else let (e, r') = rg_expo env (fdiv 1 scale) r1 in (pyround (min avail (max 1 e)) 2, r'));
          x = (if length (sb_side b passive) = 1 then keep_side_alive x0 avail else x0)
      in if x \<le> 0
         then (let (y, r3) = depth_size env c r2
               in (\<lparr>se_type = EV_ADD, se_side = passive, se_ticks = t, se_size = y\<rparr>,
                   sb_put passive (dict_set t (fadd avail y) (sb_side b passive)) b, r3))
         else (\<lparr>se_type = EV_TRADE, se_side = sd, se_ticks = t, se_size = x\<rparr>, take_from passive t avail x b, r2))"

definition syn_add ::
  "'r random_source \<Rightarrow> syn_config \<Rightarrow> int \<Rightarrow> int \<Rightarrow> pyfloat \<Rightarrow> syn_book \<Rightarrow> 'r \<Rightarrow> syn_event \<times> syn_book \<times> 'r" where
  "syn_add env c target width drift b r =
     (let urgent = is_urgent width drift; toward = toward_of drift; way = opposite toward;
          bb = best_tick b BUY; ba = best_tick b SELL;
          (sd, r1) = (if urgent \<and> length (sb_side b way) = 1 then (way, r)
                      else pick_side env (fadd (1/2) (lean_of width drift)) r);
          (e, r2) = rg_expo env (1/2) r1;
          off = min (sc_levels c - 1) \<lfloor>e\<rfloor>;
          h = half_spread width;
          (t0, r3) =
            (if urgent \<and> sd = toward
             then (let q = (if sd = BUY then min (ba - 1) (target - h) else max (bb + 1) (target + h))
                   in (if sd = BUY \<and> q \<le> bb \<or> sd = SELL \<and> ba \<le> q then (if sd = BUY then bb else ba) else q, r2))
             else if urgent then (if sd = BUY then min (bb - off) (target - h) else max (ba + off) (target + h), r2)
             else if 1 < ba - bb
             then (let (u, r') = rg_random env r2
                   in (if u < fl (3/10) then (if sd = BUY then bb + 1 else ba - 1)
                       else if sd = BUY then bb - off else ba + off, r'))
             else (if sd = BUY then bb - off else ba + off, r2));
          t = max 1 t0;
          (x, r4) = depth_size env c r3
      in (\<lparr>se_type = EV_ADD, se_side = sd, se_ticks = t, se_size = x\<rparr>, put_more sd t x b, r4))"

definition syn_change ::
  "'r random_source \<Rightarrow> bool \<Rightarrow> int \<Rightarrow> pyfloat \<Rightarrow> syn_book \<Rightarrow> 'r \<Rightarrow> syn_event \<times> syn_book \<times> 'r" where
  "syn_change env cancel width drift b r =
     (let urgent = is_urgent width drift; way = opposite (toward_of drift);
          (sd, r1) = (if urgent
                      then (let (u, r') = rg_random env r
                            in if u < fadd (1/2) \<bar>lean_of width drift\<bar> then (way, r') else pick_side env (1/2) r')
                      else pick_side env (1/2) r);
          d = sb_side b sd;
          ts = sort (dict_keys d);
          (t, r2) = (if urgent \<and> sd = way then (if sd = BUY then Max (set ts) else Min (set ts), r1)
                     else let (i, r') = rg_choice env (map (level_size d) ts) r1 in (ts ! i, r'));
          avail = level_size d t
      in if cancel
         then (let (u, r3) = rg_uniform env (if urgent \<and> sd = way then 1 else fl (2/10)) 1 r2;
                   x0 = pyround (min avail (max (fl (1/100)) (fmul avail u))) 2;
                   x = (if length d = 1 then keep_side_alive x0 avail else x0)
               in (\<lparr>se_type = EV_CANCEL, se_side = sd, se_ticks = t, se_size = x\<rparr>, take_from sd t avail x b, r3))
         else (let (u, r3) = rg_uniform env (1/2) (3/2) r2;
                   x = pyround (max 1 (fmul avail u)) 2
               in (\<lparr>se_type = EV_MODIFY, se_side = sd, se_ticks = t, se_size = x\<rparr>, sb_put sd (dict_set t x d) b, r3)))"

definition syn_step ::
  "'r random_source \<Rightarrow> syn_config \<Rightarrow> ohlcv_bar \<Rightarrow> nat \<Rightarrow> syn_book \<times> 'r \<Rightarrow> syn_event \<times> syn_book \<times> 'r" where
  "syn_step env c bar i st =
     (case st of (b, r) \<Rightarrow>
        (let part = fdiv (of_nat i) (of_nat (max (sc_events c - 1) 1));
             width = spread_ticks c bar;
             (target, r1) = target_ticks env c bar part r
         in if sb_bids b = [] \<or> sb_asks b = [] then replenish env c width target b r1
            else (let (k, r2) = rg_choice env [40, 25, 15, 20] r1;
                      drift = drift_of target b
                  in if k = 0 then syn_add env c target width drift b r2
                     else if k = 1 then syn_change env True width drift b r2
                     else if k = 2 then syn_change env False width drift b r2
                     else syn_trade env c (max 1 (fdiv (ob_volume bar) (of_nat (max (sc_events c) 1)))) width drift b r2)))"

text \<open>The time of a bar's \<open>i\<close>-th event: the bar covers about 6.5 trading hours.\<close>

definition event_time :: "syn_config \<Rightarrow> ohlcv_bar \<Rightarrow> nat \<Rightarrow> pyfloat" where
  "event_time c bar i =
     (let part = fdiv (of_nat i) (of_nat (max (sc_events c - 1) 1))
      in pyround (fadd (ob_time bar) (fmul (fmul part 86400) (fl (27/100)))) 6)"

text \<open>The events of one bar, for the indices given, and of all bars.\<close>

fun syn_bar :: "'r random_source \<Rightarrow> syn_config \<Rightarrow> ohlcv_bar \<Rightarrow> nat list \<Rightarrow> syn_book \<times> 'r \<Rightarrow> (pyfloat \<times> syn_event) list \<times> syn_book \<times> 'r" where
  "syn_bar env c bar [] st = ([], st)"
| "syn_bar env c bar (i # is) st =
     (let (e, st1) = syn_step env c bar i st; (es, st2) = syn_bar env c bar is st1
      in ((event_time c bar i, e) # es, st2))"

fun syn_bars :: "'r random_source \<Rightarrow> syn_config \<Rightarrow> ohlcv_bar list \<Rightarrow> syn_book \<times> 'r \<Rightarrow> (pyfloat \<times> syn_event) list" where
  "syn_bars env c [] st = []"
| "syn_bars env c (bar # bars) st =
     (let (es, st1) = syn_bar env c bar [0..<sc_events c] st in es @ syn_bars env c bars st1)"

definition syn_market_event :: "syn_config \<Rightarrow> nat \<Rightarrow> pyfloat \<times> syn_event \<Rightarrow> book_event" where
  "syn_market_event c n p =
     \<lparr>ev_time = fst p, ev_type = se_type (snd p), ev_side = se_side (snd p), ev_price = tick_price c (se_ticks (snd p)),
      ev_size = se_size (snd p), ev_order = Some (''syn-'' @ sc_seed c @ ''-'' @ int_text (int n))\<rparr>"

definition empty_syn_book :: syn_book where
  "empty_syn_book = \<lparr>sb_bids = [], sb_asks = []\<rparr>"

definition generate_synthetic_l2 :: "'r random_source \<Rightarrow> syn_config \<Rightarrow> ohlcv_bar list \<Rightarrow> 'r \<Rightarrow> book_event list" where
  "generate_synthetic_l2 env c bars r =
     (let raw = syn_bars env c bars (empty_syn_book, r)
      in sort_key ev_time (map2 (syn_market_event c) [0..<length raw] raw))"

end
