(* ===== verification/Synthetic_Properties.thy ===== *)
theory Synthetic_Properties
  imports Synthetic_L2
begin

text \<open>
  The generator of \<open>Synthetic_L2\<close> produces valid book histories: against the reference semantics of aggregated
  books every event is allowed and the book is never crossed or locked, whatever the random source draws.
\<close>

section \<open>Reference semantics of aggregated books\<close>

definition l2_apply :: "syn_event \<Rightarrow> syn_book \<Rightarrow> syn_book" where
  "l2_apply e b =
     (let sd = se_side e; t = se_ticks e; x = se_size e in
      case se_type e of
        EV_ADD \<Rightarrow> put_more sd t x b
      | EV_MODIFY \<Rightarrow> sb_put sd (dict_set t x (sb_side b sd)) b
      | EV_CANCEL \<Rightarrow> take_from sd t (level_size (sb_side b sd) t) x b
      | EV_TRADE \<Rightarrow> take_from (opposite sd) t (level_size (sb_side b (opposite sd)) t) x b)"

definition live :: "syn_book \<Rightarrow> trade_side \<Rightarrow> int \<Rightarrow> bool" where
  "live b sd t \<longleftrightarrow> dict_get (sb_side b sd) t \<noteq> None"

text \<open>
  An added level does not reach the other side, a cancel or change names a live level, a trade executes at the best
  price of the other side, and nothing takes more than rests there (to the cent).
\<close>

definition l2_allowed :: "syn_event \<Rightarrow> syn_book \<Rightarrow> bool" where
  "l2_allowed e b \<longleftrightarrow>
     (let sd = se_side e; t = se_ticks e; x = se_size e in
      1 \<le> t \<and>
      (case se_type e of
         EV_ADD \<Rightarrow> 0 < x \<and> (\<forall>u \<in> set (dict_keys (sb_side b (opposite sd))). if sd = BUY then t < u else u < t)
       | EV_MODIFY \<Rightarrow> 0 < x \<and> live b sd t
       | EV_CANCEL \<Rightarrow> 0 \<le> x \<and> live b sd t \<and> x \<le> pyround (level_size (sb_side b sd) t) 2
       | EV_TRADE \<Rightarrow> 0 < x \<and> live b (opposite sd) t \<and> t = best_tick b (opposite sd)
                     \<and> x \<le> pyround (level_size (sb_side b (opposite sd)) t) 2))"

definition uncrossed :: "syn_book \<Rightarrow> bool" where
  "uncrossed b \<longleftrightarrow> (\<forall>x \<in> set (dict_keys (sb_bids b)). \<forall>y \<in> set (dict_keys (sb_asks b)). x < y)"

fun valid_history :: "syn_book \<Rightarrow> syn_event list \<Rightarrow> bool" where
  "valid_history b [] = True"
| "valid_history b (e # es) = (l2_allowed e b \<and> uncrossed (l2_apply e b) \<and> valid_history (l2_apply e b) es)"

section \<open>Invariant\<close>

definition syn_ok :: "syn_book \<Rightarrow> bool" where
  "syn_ok b \<longleftrightarrow> uncrossed b
     \<and> (\<forall>t x. dict_get (sb_bids b) t = Some x \<longrightarrow> 1 \<le> t \<and> 0 < x)
     \<and> (\<forall>t x. dict_get (sb_asks b) t = Some x \<longrightarrow> 2 \<le> t \<and> 0 < x)"

lemma side_flip_simps [simp]: "opposite BUY = SELL" "opposite SELL = BUY" "opposite sd \<noteq> sd" "opposite (opposite sd) = sd"
  by (cases sd; simp add: opposite_def)+

lemma sb_side_simps [simp]: "sb_side b BUY = sb_bids b" "sb_side b SELL = sb_asks b"
  by (simp_all add: sb_side_def)

lemma sb_put_simps [simp]:
  "sb_bids (sb_put BUY d b) = d" "sb_asks (sb_put BUY d b) = sb_asks b"
  "sb_asks (sb_put SELL d b) = d" "sb_bids (sb_put SELL d b) = sb_bids b"
  by (simp_all add: sb_put_def)

lemma live_simps: "live b BUY t \<longleftrightarrow> t \<in> dom (dict_get (sb_bids b))" "live b SELL t \<longleftrightarrow> t \<in> dom (dict_get (sb_asks b))"
  by (simp_all add: live_def domIff)

lemma live_key: "live b sd t \<longleftrightarrow> t \<in> set (dict_keys (sb_side b sd))"
  by (simp add: live_def domIff)

lemma level_size_nonneg: "syn_ok b \<Longrightarrow> 0 \<le> level_size (sb_side b sd) t"
  by (cases sd) (auto simp: syn_ok_def level_size_def split: option.splits intro: less_imp_le)

text \<open>Changing one level of one side keeps the invariant when the level may stand there.\<close>

lemma syn_ok_set:
  assumes "syn_ok b" "0 < x" "(if sd = BUY then 1 else 2) \<le> t"
    and "\<And>u. live b (opposite sd) u \<Longrightarrow> if sd = BUY then t < u else u < t"
  shows "syn_ok (sb_put sd (dict_set t x (sb_side b sd)) b)"
  using assms by (cases sd) (auto simp: syn_ok_def uncrossed_def live_simps)

lemma syn_ok_pop: "syn_ok b \<Longrightarrow> syn_ok (sb_put sd (dict_pop t (sb_side b sd)) b)"
  by (cases sd) (auto simp: syn_ok_def uncrossed_def)

lemma live_fits:
  assumes "syn_ok b" "live b sd t"
  shows "(if sd = BUY then 1 else 2) \<le> t" "live b (opposite sd) u \<Longrightarrow> if sd = BUY then t < u else u < t"
  using assms by (cases sd; auto simp: syn_ok_def uncrossed_def live_simps)+

lemma syn_ok_take: "syn_ok b \<Longrightarrow> live b sd t \<Longrightarrow> syn_ok (take_from sd t avail x b)"
  unfolding take_from_def Let_def
  using syn_ok_pop [of b sd t] syn_ok_set [of b "pyround (fsub avail x) 2" sd t, OF _ _ live_fits(1) live_fits(2)] by (simp add: not_le)

lemma fl_pos_of_nonneg_add: "0 \<le> x \<Longrightarrow> 1 \<le> y \<Longrightarrow> 0 < fadd x y"
  using fl_mono [of 1 "x + y"] by (simp add: fadd_def)

lemma syn_ok_apply:
  assumes "syn_ok b" "l2_allowed e b"
    and "se_type e = EV_ADD \<Longrightarrow> 1 \<le> se_size e \<and> (se_side e = SELL \<longrightarrow> 2 \<le> se_ticks e)"
  shows "syn_ok (l2_apply e b)"
proof (cases "se_type e")
  case EV_ADD
  then have fits: "(if se_side e = BUY then 1 else 2) \<le> se_ticks e"
      "live b (opposite (se_side e)) u \<Longrightarrow> if se_side e = BUY then se_ticks e < u else u < se_ticks e" for u
    using assms(2,3) by (auto simp: l2_allowed_def Let_def live_key intro: trade_side.exhaust [of "se_side e"])
  have "0 < fadd (level_size (sb_side b (se_side e)) (se_ticks e)) (se_size e)"
    using assms(3) EV_ADD by (simp add: fl_pos_of_nonneg_add level_size_nonneg [OF assms(1)])
  from syn_ok_set [OF assms(1) this fits] show ?thesis using EV_ADD by (simp add: l2_apply_def put_more_def Let_def)
next
  case EV_MODIFY
  then have "0 < se_size e" "live b (se_side e) (se_ticks e)" using assms(2) by (simp_all add: l2_allowed_def Let_def)
  from syn_ok_set [OF assms(1) this(1) live_fits [OF assms(1) this(2)]] show ?thesis using EV_MODIFY by (simp add: l2_apply_def Let_def)
qed (use assms(1,2) in \<open>auto simp: l2_apply_def l2_allowed_def Let_def intro!: syn_ok_take\<close>)

section \<open>Every step is allowed\<close>

lemma best_tick_live:
  assumes "sb_side b sd \<noteq> []"
  shows "live b sd (best_tick b sd)"
proof -
  have "dom (dict_get (sb_side b sd)) \<noteq> {}" using assms by (cases "sb_side b sd") auto
  then show ?thesis using Max_in Min_in by (cases sd) (simp_all add: live_simps best_tick_def finite_dom_map_of)
qed

lemma best_tick_best:
  assumes "live b sd u"
  shows "if sd = BUY then u \<le> best_tick b sd else best_tick b sd \<le> u"
  using assms by (cases sd) (simp_all add: live_simps best_tick_def finite_dom_map_of)

lemma depth_size_ge_1: "depth_size env c r = (x, r1) \<Longrightarrow> 1 \<le> x"
  using pyround_mono [of 1 _ 2] pyround_of_int [of 1 2] by (auto simp: depth_size_def Let_def split: prod.splits)

lemma fl_hundredths: "fl (1/100) \<le> fl (2/100)" "1/64 \<le> fl (2/100)"
proof -
  show "fl (1/100) \<le> fl (2/100)" by (simp add: fl_mono)
  have "fl (1/64) \<le> fl (2/100)" by (rule fl_mono) simp
  moreover have "fl (1/64) = 1/64" by code_simp
  ultimately show "1/64 \<le> fl (2/100)" by simp
qed

lemma pyround_cent:
  assumes "1/64 < x"
  shows "fl (1/100) \<le> pyround x 2"
proof -
  have "(1::rat) \<le> x * 10 ^ 2" using assms by simp
  then have "1 \<le> round_half_even (x * 10 ^ 2)" using round_half_even_mono [of 1 "x * 10 ^ 2"] round_half_even_of_int [of 1] by simp
  then have "(1::rat) / 100 \<le> of_int (round_half_even (x * 10 ^ 2)) / 10 ^ 2" by (simp add: divide_right_mono)
  then show ?thesis unfolding pyround_def by (rule fl_mono)
qed

lemma fl_half_le:
  assumes "1/64 < x"
  shows "fl (x / 2) \<le> x"
proof -
  let ?k = "ilog 2 x"
  have lo: "2 powi ?k \<le> x" and hi: "x < 2 powi (?k + 1)" using ilog_bounds [of 2 x] assms by simp_all
  have "- 1074 \<le> ?k"
  proof (rule ccontr)
    assume "\<not> - 1074 \<le> ?k"
    then have "(2::rat) powi (?k + 1) \<le> 2 powi (- 6)" by (intro power_int_increasing) simp_all
    then show False using hi assms by (simp add: power_int_minus)
  qed
  then have "fl (2 powi ?k) = 2 powi ?k" using fl_exact [of 1 ?k] by simp
  moreover have "x / 2 \<le> 2 powi ?k" using hi by (simp add: power_int_add)
  ultimately show ?thesis using fl_mono [of "x / 2" "2 powi ?k"] lo by simp
qed

lemma keep_side_alive_bound:
  assumes "x \<le> pyround avail 2" "0 \<le> avail" "0 \<le> x"
  shows "keep_side_alive x avail \<le> pyround avail 2" "0 \<le> keep_side_alive x avail"
proof -
  have "pyround (fdiv avail 2) 2 \<le> pyround avail 2" if "fl (2/100) < avail"
    using that fl_half_le [of avail] fl_hundredths(2) by (simp add: fdiv_def pyround_mono)
  moreover have "fl (1/100) \<le> pyround avail 2" if "fl (2/100) < avail"
    using that fl_hundredths(2) by (intro pyround_cent) simp
  ultimately show "keep_side_alive x avail \<le> pyround avail 2"
    using assms pyround_nonneg [of avail 2] by (simp add: keep_side_alive_def)
  show "0 \<le> keep_side_alive x avail" using assms fl_nonneg [of "1/100"] by (simp add: keep_side_alive_def le_max_iff_disj)
qed

text \<open>What a step of the generator does: an allowed event, applied to the book.\<close>

definition good_step :: "syn_book \<Rightarrow> syn_event \<Rightarrow> syn_book \<Rightarrow> bool" where
  "good_step b e b' \<longleftrightarrow> l2_allowed e b \<and> b' = l2_apply e b
     \<and> (se_type e = EV_ADD \<longrightarrow> 1 \<le> se_size e \<and> (se_side e = SELL \<longrightarrow> 2 \<le> se_ticks e))"

lemma good_add:
  assumes "syn_ok b" "1 \<le> x" "1 \<le> t" "sd = SELL \<Longrightarrow> 2 \<le> t"
    and "\<And>u. live b (opposite sd) u \<Longrightarrow> if sd = BUY then t < u else u < t"
  shows "good_step b \<lparr>se_type = EV_ADD, se_side = sd, se_ticks = t, se_size = x\<rparr> (put_more sd t x b)"
  using assms by (simp add: good_step_def l2_allowed_def l2_apply_def Let_def live_key)

lemma good_take:
  assumes "syn_ok b" "live b sd t" "x \<le> pyround (level_size (sb_side b sd) t) 2"
  shows "0 \<le> x \<Longrightarrow> good_step b \<lparr>se_type = EV_CANCEL, se_side = sd, se_ticks = t, se_size = x\<rparr> (take_from sd t (level_size (sb_side b sd) t) x b)"
    "0 < x \<Longrightarrow> t = best_tick b sd
      \<Longrightarrow> good_step b \<lparr>se_type = EV_TRADE, se_side = opposite sd, se_ticks = t, se_size = x\<rparr> (take_from sd t (level_size (sb_side b sd) t) x b)"
  using assms live_fits(1) [OF assms(1,2)] by (simp_all add: good_step_def l2_allowed_def l2_apply_def Let_def split: if_splits)

lemma good_modify:
  assumes "syn_ok b" "live b sd t" "0 < x"
  shows "good_step b \<lparr>se_type = EV_MODIFY, se_side = sd, se_ticks = t, se_size = x\<rparr> (sb_put sd (dict_set t x (sb_side b sd)) b)"
  using assms live_fits(1) [OF assms(1,2)] by (simp add: good_step_def l2_allowed_def l2_apply_def Let_def split: if_splits)

lemma replenish_good:
  assumes "syn_ok b" "replenish env c width target b r = (e, b', r')" "sb_bids b = [] \<or> sb_asks b = []"
  shows "good_step b e b'"
proof -
  obtain x r1 where x: "depth_size env c r = (x, r1)" by fastforce
  show ?thesis
  proof (cases "sb_bids b = []")
    case True
    let ?t = "max 1 (if sb_asks b = [] then target - half_spread width else min (target - half_spread width) (best_tick b SELL - 1))"
    have "?t < u" if "live b SELL u" for u
      using that best_tick_best [OF that] live_fits(1) [OF assms(1) best_tick_live, of SELL] by (auto simp: live_simps)
    then have "good_step b \<lparr>se_type = EV_ADD, se_side = BUY, se_ticks = ?t, se_size = x\<rparr> (put_more BUY ?t x b)"
      by (intro good_add assms(1) depth_size_ge_1 [OF x]) simp_all
    then show ?thesis using assms(2) True x by (auto simp: replenish_def Let_def)
  next
    case False
    let ?t = "max 1 (max (target + half_spread width) (best_tick b BUY + 1))"
    have "u < ?t \<and> 2 \<le> ?t" if "live b BUY u" for u
      using that best_tick_best [OF that] live_fits(1) [OF assms(1) that] by (simp add: less_max_iff_disj le_max_iff_disj)
    moreover have "live b BUY (best_tick b BUY)" using best_tick_live [of b BUY] False by simp
    ultimately have "good_step b \<lparr>se_type = EV_ADD, se_side = SELL, se_ticks = ?t, se_size = x\<rparr> (put_more SELL ?t x b)"
      by (intro good_add assms(1) depth_size_ge_1 [OF x]) auto
    then show ?thesis using assms(2) False x by (auto simp: replenish_def Let_def)
  qed
qed

lemma syn_trade_good:
  assumes "syn_ok b" "syn_trade env c scale width drift b r = (e, b', r')" "sb_bids b \<noteq> []" "sb_asks b \<noteq> []"
  shows "good_step b e b'"
proof -
  obtain sd r1 where sd: "pick_side env (fadd (1/2) (lean_of width drift)) r = (sd, r1)" by fastforce
  let ?p = "opposite sd"
  let ?t = "best_tick b ?p"
  let ?avail = "level_size (sb_side b ?p) ?t"
  have live: "live b ?p ?t" using assms(3,4) by (intro best_tick_live) (cases sd; simp)
  have avail: "0 \<le> ?avail" by (rule level_size_nonneg [OF assms(1)])
  define drawn where "drawn = (if is_urgent width drift \<and> sd = toward_of drift then (pyround ?avail 2, r1)
                      else let (e, r') = rg_expo env (fdiv 1 scale) r1 in (pyround (min ?avail (max 1 e)) 2, r'))"
  obtain x0 r2 where x0: "drawn = (x0, r2)" by fastforce
  have "x0 \<le> pyround ?avail 2" "0 \<le> x0" using x0 avail
    by (auto simp: drawn_def Let_def pyround_mono pyround_nonneg split: if_splits prod.splits)
  define x where "x = (if length (sb_side b ?p) = 1 then keep_side_alive x0 ?avail else x0)"
  have x: "x \<le> pyround ?avail 2"
    using keep_side_alive_bound(1) [OF \<open>x0 \<le> pyround ?avail 2\<close> avail \<open>0 \<le> x0\<close>] \<open>x0 \<le> pyround ?avail 2\<close> by (simp add: x_def)
  show ?thesis
  proof (cases "x \<le> 0")
    case True
    obtain y r3 where y: "depth_size env c r2 = (y, r3)" by fastforce
    have "good_step b \<lparr>se_type = EV_ADD, se_side = ?p, se_ticks = ?t, se_size = y\<rparr> (put_more ?p ?t y b)"
      using live_fits [OF assms(1) live] by (intro good_add assms(1) depth_size_ge_1 [OF y]) (auto split: if_splits)
    moreover have "syn_trade env c scale width drift b r
        = (\<lparr>se_type = EV_ADD, se_side = ?p, se_ticks = ?t, se_size = y\<rparr>, put_more ?p ?t y b, r3)"
      unfolding syn_trade_def sd Let_def split_conv drawn_def [symmetric, unfolded Let_def] x0 x_def [symmetric] y
      using True by (simp add: put_more_def)
    ultimately show ?thesis using assms(2) by simp
  next
    case False
    then have "good_step b \<lparr>se_type = EV_TRADE, se_side = opposite ?p, se_ticks = ?t, se_size = x\<rparr> (take_from ?p ?t ?avail x b)"
      by (intro good_take(2) assms(1) live x) simp_all
    moreover have "syn_trade env c scale width drift b r
        = (\<lparr>se_type = EV_TRADE, se_side = sd, se_ticks = ?t, se_size = x\<rparr>, take_from ?p ?t ?avail x b, r2)"
      unfolding syn_trade_def sd Let_def split_conv drawn_def [symmetric, unfolded Let_def] x0 x_def [symmetric]
      using False by simp
    ultimately show ?thesis using assms(2) by simp
  qed
qed

lemma best_ticks_apart:
  assumes "syn_ok b" "sb_bids b \<noteq> []" "sb_asks b \<noteq> []"
  shows "1 \<le> best_tick b BUY" "best_tick b BUY < best_tick b SELL"
  using live_fits [OF assms(1) best_tick_live [of b BUY]] best_tick_live [of b SELL] assms(2,3) by simp_all

lemma quote_fits:
  assumes "syn_ok b" "sb_bids b \<noteq> []" "sb_asks b \<noteq> []"
    and "if sd = BUY then t < best_tick b SELL else best_tick b BUY < t" "1 \<le> x"
  shows "good_step b \<lparr>se_type = EV_ADD, se_side = sd, se_ticks = max 1 t, se_size = x\<rparr> (put_more sd (max 1 t) x b)"
proof (rule good_add [OF assms(1,5)])
  note apart = best_ticks_apart [OF assms(1-3)]
  show "1 \<le> max 1 t" by simp
  show "2 \<le> max 1 t" if "sd = SELL" using assms(4) apart that by simp
  show "if sd = BUY then max 1 t < u else u < max 1 t" if "live b (opposite sd) u" for u
    using assms(4) apart best_tick_best [OF that] that by (cases sd) auto
qed

lemma syn_add_good:
  assumes "syn_ok b" "syn_add env c target width drift b r = (e, b', r')" "sb_bids b \<noteq> []" "sb_asks b \<noteq> []"
    and "proper_source env" "1 \<le> sc_levels c"
  shows "good_step b e b'"
proof -
  let ?bb = "best_tick b BUY" and ?ba = "best_tick b SELL" and ?h = "half_spread width"
  note apart = best_ticks_apart [OF assms(1,3,4)]
  define side where "side = (if is_urgent width drift \<and> length (sb_side b (opposite (toward_of drift))) = 1
      then (opposite (toward_of drift), r) else pick_side env (fadd (1/2) (lean_of width drift)) r)"
  obtain sd r1 where sd: "side = (sd, r1)" by fastforce
  obtain x r2 where x: "rg_expo env (1/2) r1 = (x, r2)" by fastforce
  define off where "off = min (sc_levels c - 1) \<lfloor>x\<rfloor>"
  have off: "0 \<le> off" using assms(5,6) x unfolding proper_source_def off_def by (metis fst_conv min_def zero_le_floor diff_ge_0_iff_ge)
  define place where "place = (if is_urgent width drift \<and> sd = toward_of drift
             then (let q = (if sd = BUY then min (?ba - 1) (target - ?h) else max (?bb + 1) (target + ?h))
                   in (if sd = BUY \<and> q \<le> ?bb \<or> sd = SELL \<and> ?ba \<le> q then (if sd = BUY then ?bb else ?ba) else q, r2))
             else if is_urgent width drift
             then (if sd = BUY then min (?bb - off) (target - ?h) else max (?ba + off) (target + ?h), r2)
             else if 1 < ?ba - ?bb
             then (let (u, r') = rg_random env r2
                   in (if u < fl (3/10) then (if sd = BUY then ?bb + 1 else ?ba - 1)
                       else if sd = BUY then ?bb - off else ?ba + off, r'))
             else (if sd = BUY then ?bb - off else ?ba + off, r2))"
  obtain t0 r3 where t0: "place = (t0, r3)" by fastforce
  have fits: "if sd = BUY then t0 < ?ba else ?bb < t0"
    using t0 off apart unfolding place_def
    by (cases sd) (auto simp: Let_def less_max_iff_disj min_less_iff_disj split: if_splits prod.splits)
  obtain y r4 where y: "depth_size env c r3 = (y, r4)" by fastforce
  have "syn_add env c target width drift b r
      = (\<lparr>se_type = EV_ADD, se_side = sd, se_ticks = max 1 t0, se_size = y\<rparr>, put_more sd (max 1 t0) y b, r4)"
    unfolding syn_add_def Let_def side_def [symmetric] sd split_conv x off_def [symmetric] place_def [symmetric, unfolded Let_def] t0 y by (rule refl)
  then show ?thesis using assms(2) quote_fits [OF assms(1,3,4) fits depth_size_ge_1 [OF y]] by simp
qed

lemma syn_change_good:
  assumes "syn_ok b" "syn_change env cancel width drift b r = (e, b', r')" "sb_bids b \<noteq> []" "sb_asks b \<noteq> []" "proper_source env"
  shows "good_step b e b'"
proof -
  let ?way = "opposite (toward_of drift)"
  define side where "side = (if is_urgent width drift
      then (let (u, r') = rg_random env r in if u < fadd (1/2) \<bar>lean_of width drift\<bar> then (?way, r') else pick_side env (1/2) r')
      else pick_side env (1/2) r)"
  obtain sd r1 where sd: "side = (sd, r1)" by fastforce
  let ?d = "sb_side b sd" let ?ts = "sort (dict_keys ?d)"
  define pick where "pick = (if is_urgent width drift \<and> sd = ?way then (if sd = BUY then Max (set ?ts) else Min (set ?ts), r1)
      else let (i, r') = rg_choice env (map (level_size ?d) ?ts) r1 in (?ts ! i, r'))"
  obtain t r2 where t: "pick = (t, r2)" by fastforce
  have "length ?ts = length ?d" "?d \<noteq> []" using assms(3,4) by (cases sd; simp add: dict_keys_def)+
  then have ne: "?ts \<noteq> []" by (metis length_0_conv)
  have "t \<in> set ?ts"
  proof (cases "is_urgent width drift \<and> sd = ?way")
    case True
    then show ?thesis using t ne Max_in [of "set ?ts"] Min_in [of "set ?ts"] by (auto simp: pick_def simp del: set_sort set_dict_keys split: if_splits)
  next
    case False
    obtain i r' where i: "rg_choice env (map (level_size ?d) ?ts) r1 = (i, r')" by fastforce
    then have "i < length ?ts" using assms(5) ne unfolding proper_source_def by (metis fst_conv length_map map_is_Nil_conv)
    then show ?thesis using t i False by (auto simp: pick_def simp del: set_sort set_dict_keys)
  qed
  then have live: "live b sd t" by (simp add: live_key)
  let ?avail = "level_size ?d t"
  have avail: "0 \<le> ?avail" by (rule level_size_nonneg [OF assms(1)])
  show ?thesis
  proof (cases cancel)
    case True
    obtain u r3 where u: "rg_uniform env (if is_urgent width drift \<and> sd = ?way then 1 else fl (2/10)) 1 r2 = (u, r3)" by fastforce
    define x0 where "x0 = pyround (min ?avail (max (fl (1/100)) (fmul ?avail u))) 2"
    have x0: "x0 \<le> pyround ?avail 2" "0 \<le> x0"
      using avail fl_nonneg [of "1/100"] by (simp_all add: x0_def pyround_mono pyround_nonneg le_max_iff_disj)
    define x where "x = (if length ?d = 1 then keep_side_alive x0 ?avail else x0)"
    have "x \<le> pyround ?avail 2" "0 \<le> x" using keep_side_alive_bound [OF x0(1) avail x0(2)] x0 by (simp_all add: x_def)
    moreover have "syn_change env cancel width drift b r
        = (\<lparr>se_type = EV_CANCEL, se_side = sd, se_ticks = t, se_size = x\<rparr>, take_from sd t ?avail x b, r3)"
      unfolding syn_change_def Let_def side_def [symmetric, unfolded Let_def] sd split_conv pick_def [symmetric, unfolded Let_def] t
        u x0_def [symmetric] x_def [symmetric] using True by simp
    ultimately show ?thesis using assms(2) good_take(1) [OF assms(1) live] by simp
  next
    case False
    obtain u r3 where u: "rg_uniform env (1/2) (3/2) r2 = (u, r3)" by fastforce
    let ?x = "pyround (max 1 (fmul ?avail u)) 2"
    have "1 \<le> ?x" using pyround_mono [of 1 "max 1 (fmul ?avail u)" 2] pyround_of_int [of 1 2] by simp
    moreover have "syn_change env cancel width drift b r
        = (\<lparr>se_type = EV_MODIFY, se_side = sd, se_ticks = t, se_size = ?x\<rparr>, sb_put sd (dict_set t ?x ?d) b, r3)"
      unfolding syn_change_def Let_def side_def [symmetric, unfolded Let_def] sd split_conv pick_def [symmetric, unfolded Let_def] t u
      using False by simp
    ultimately show ?thesis using assms(2) good_modify [OF assms(1) live] by simp
  qed
qed

lemma syn_step_good:
  assumes "syn_ok b" "syn_step env c bar i (b, r) = (e, b', r')" "proper_source env" "1 \<le> sc_levels c"
  shows "good_step b e b'"
proof (cases "sb_bids b = [] \<or> sb_asks b = []")
  case True
  then show ?thesis using assms(2) replenish_good [OF assms(1)] by (auto simp: syn_step_def Let_def split: prod.splits)
next
  case False
  then have ne: "sb_bids b \<noteq> []" "sb_asks b \<noteq> []" by simp_all
  show ?thesis using assms(2) False
    by (auto simp: syn_step_def Let_def split: prod.splits if_splits
        intro: syn_add_good [OF assms(1) _ ne assms(3,4)] syn_change_good [OF assms(1) _ ne assms(3)] syn_trade_good [OF assms(1) _ ne])
qed

section \<open>The stream\<close>

lemma good_step_ok: "good_step b e b' \<Longrightarrow> syn_ok b \<Longrightarrow> l2_allowed e b \<and> b' = l2_apply e b \<and> syn_ok b'"
  by (auto simp: good_step_def intro: syn_ok_apply)

lemma valid_history_append: "valid_history b (xs @ ys) \<longleftrightarrow> valid_history b xs \<and> valid_history (fold l2_apply xs b) ys"
  by (induction xs arbitrary: b) auto

lemma syn_bar_valid:
  assumes "proper_source env" "1 \<le> sc_levels c"
  shows "syn_ok b \<Longrightarrow> syn_bar env c bar is (b, r) = (es, b', r')
    \<Longrightarrow> valid_history b (map snd es) \<and> b' = fold l2_apply (map snd es) b \<and> syn_ok b'"
proof (induction "is" arbitrary: b r es b' r')
  case (Cons i "is")
  obtain e b1 r1 where s: "syn_step env c bar i (b, r) = (e, b1, r1)" by (metis prod_cases3)
  obtain es1 b2 r2 where rest: "syn_bar env c bar is (b1, r1) = (es1, b2, r2)" by (metis prod_cases3)
  note e = good_step_ok [OF syn_step_good [OF Cons.prems(1) s assms] Cons.prems(1)]
  have "map snd es = e # map snd es1" "b' = b2" using Cons.prems(2) by (auto simp: s rest Let_def)
  moreover have "uncrossed (l2_apply e b)" using e by (metis syn_ok_def)
  ultimately show ?case using e Cons.IH [OF _ rest] by auto
qed simp

lemma syn_bars_valid:
  assumes "proper_source env" "1 \<le> sc_levels c"
  shows "syn_ok b \<Longrightarrow> valid_history b (map snd (syn_bars env c bars (b, r)))"
proof (induction bars arbitrary: b r)
  case (Cons bar bars)
  obtain es b1 r1 where s: "syn_bar env c bar [0..<sc_events c] (b, r) = (es, b1, r1)" by (metis prod_cases3)
  have "syn_ok b1" using syn_bar_valid [OF assms Cons.prems s] by blast
  then have "valid_history b1 (map snd (syn_bars env c bars (b1, r1)))" by (rule Cons.IH)
  then show ?case using syn_bar_valid [OF assms Cons.prems s] by (simp add: s valid_history_append)
qed simp

section \<open>Time\<close>

lemma event_time_mono:
  assumes "i \<le> j"
  shows "event_time c bar i \<le> event_time c bar j"
proof -
  let ?n = "of_nat (max (sc_events c - 1) 1) :: rat"
  have "fdiv (of_nat i) ?n \<le> fdiv (of_nat j) ?n" using assms by (simp add: fdiv_def fl_mono divide_right_mono)
  then have "fmul (fmul (fdiv (of_nat i) ?n) 86400) (fl (27/100)) \<le> fmul (fmul (fdiv (of_nat j) ?n) 86400) (fl (27/100))"
    unfolding fmul_def by (intro fl_mono mult_right_mono) (simp_all add: fl_nonneg)
  then show ?thesis unfolding event_time_def Let_def fadd_def by (intro pyround_mono fl_mono add_left_mono)
qed

lemma syn_bar_times: "syn_bar env c bar is st = (es, st') \<Longrightarrow> map fst es = map (event_time c bar) is"
  by (induction "is" arbitrary: st es) (auto simp: Let_def split: prod.splits)

lemma syn_bars_times: "map fst (syn_bars env c bars st) = concat (map (\<lambda>bar. map (event_time c bar) [0..<sc_events c]) bars)"
  by (induction bars arbitrary: st) (auto simp: Let_def dest: syn_bar_times split: prod.splits)

text \<open>Bars whose events do not overlap in time.\<close>

fun bars_apart :: "syn_config \<Rightarrow> ohlcv_bar list \<Rightarrow> bool" where
  "bars_apart c (x # y # bars) = (event_time c x (sc_events c - 1) \<le> event_time c y 0 \<and> bars_apart c (y # bars))"
| "bars_apart c _ = True"

lemma sorted_events: "sorted (map (event_time c bar) [0..<n])"
  by (rule sorted_wrt_mono_rel [of _ "\<lambda>x y. x \<le> y"]) (auto simp: sorted_map intro!: sorted_wrt_mono_rel [OF _ sorted_wrt_upt] event_time_mono)

lemma sorted_hd: "sorted xs \<Longrightarrow> v \<in> set xs \<Longrightarrow> hd xs \<le> v"
  by (cases xs) auto

lemma bars_apart_sorted:
  "bars_apart c bars \<Longrightarrow> sorted (concat (map (\<lambda>bar. map (event_time c bar) [0..<sc_events c]) bars))"
proof (induction c bars rule: bars_apart.induct)
  case (1 c x y bars)
  let ?rest = "concat (map (\<lambda>bar. map (event_time c bar) [0..<sc_events c]) (y # bars))"
  have "sorted ?rest" using 1 by simp
  have "u \<le> v" if "u \<in> set (map (event_time c x) [0..<sc_events c])" "v \<in> set ?rest" for u v
  proof -
    from that(1) obtain i where i: "i < sc_events c" "u = event_time c x i" by auto
    then have "u \<le> event_time c x (sc_events c - 1)" by (auto intro: event_time_mono)
    also have "\<dots> \<le> event_time c y 0" using "1.prems" by simp
    also have "event_time c y 0 = hd ?rest" using i by (simp add: hd_append upt_rec [of 0])
    also have "hd ?rest \<le> v" by (rule sorted_hd [OF \<open>sorted ?rest\<close> that(2)])
    finally show ?thesis .
  qed
  then show ?case using \<open>sorted ?rest\<close> sorted_events by (simp add: sorted_append)
qed (simp_all add: sorted_events)

section \<open>Properties\<close>

text \<open>
  C38: the synthetic generator produces a valid book history, and its output is that history sorted by time. With at
  least one level (every caller asks for one), for any bars and whatever the random source draws, the events in the order
  they are generated (\<open>raw\<close>) are each allowed by the book their predecessors left: added levels do not reach the
  other side, cancels and changes name live levels, trades execute at the best opposite price, cancels and trades take
  no more than rests there, rounded to the cent, and the book is never crossed or locked. There are exactly
  \<^verbatim>\<open>events_per_bar\<close> events a bar, at that bar's times. The stream is exactly these events with their prices and ids,
  sorted by time (stably); where the bars do not overlap in time the sort changes nothing, so the stream itself is the
  valid history. That bars which do overlap break it is shown below.
\<close>

theorem synthetic_stream_is_valid_history:
  assumes "proper_source env" "1 \<le> sc_levels c"
  shows "\<exists>raw. valid_history empty_syn_book (map snd raw) \<and> length raw = length bars * sc_events c
    \<and> map fst raw = concat (map (\<lambda>bar. map (event_time c bar) [0..<sc_events c]) bars)
    \<and> generate_synthetic_l2 env c bars r = sort_key ev_time (map2 (syn_market_event c) [0..<length raw] raw)
    \<and> (bars_apart c bars \<longrightarrow> generate_synthetic_l2 env c bars r = map2 (syn_market_event c) [0..<length raw] raw)"
proof (intro exI conjI impI)
  let ?raw = "syn_bars env c bars (empty_syn_book, r)"
  have "syn_ok empty_syn_book" by (simp add: syn_ok_def uncrossed_def empty_syn_book_def)
  then show "valid_history empty_syn_book (map snd ?raw)" by (rule syn_bars_valid [OF assms])
  show times: "map fst ?raw = concat (map (\<lambda>bar. map (event_time c bar) [0..<sc_events c]) bars)" by (rule syn_bars_times)
  have "length (map fst ?raw) = length bars * sc_events c"
    unfolding times by (induction bars) simp_all
  then show "length ?raw = length bars * sc_events c" by simp
  show out: "generate_synthetic_l2 env c bars r = sort_key ev_time (map2 (syn_market_event c) [0..<length ?raw] ?raw)"
    by (simp add: generate_synthetic_l2_def Let_def)
  have "map ev_time (map2 (syn_market_event c) [0..<length ?raw] ?raw) = map fst ?raw"
    by (rule nth_equalityI) (simp_all add: syn_market_event_def)
  then have "sorted (map ev_time (map2 (syn_market_event c) [0..<length ?raw] ?raw))" if "bars_apart c bars"
    using bars_apart_sorted [OF that] by (simp add: syn_bars_times)
  then show "generate_synthetic_l2 env c bars r = map2 (syn_market_event c) [0..<length ?raw] ?raw" if "bars_apart c bars"
    unfolding out using that by (intro sort_key_id_if_sorted) blast
qed

text \<open>A source that always trades, and bars of a given spacing.\<close>

definition steady_source :: "unit random_source" where
  "steady_source =
     \<lparr>rg_random = (\<lambda>r. (0, r)), rg_pareto = (\<lambda>a r. (1, r)), rg_gauss = (\<lambda>m s r. (0, r)), rg_expo = (\<lambda>l r. (0, r)),
      rg_uniform = (\<lambda>a b r. (1, r)), rg_choice = (\<lambda>ws r. (length ws - 1, r))\<rparr>"

definition sample_config :: syn_config where
  "sample_config = \<lparr>sc_levels = 10, sc_spread_bps = 0, sc_depth = 0, sc_events = 2, sc_seed = ''42'', sc_tick = 1, sc_digits = 0\<rparr>"

definition sample_bar :: "pyfloat \<Rightarrow> ohlcv_bar" where
  "sample_bar t = \<lparr>ob_time = t, ob_open = 8, ob_high = 8, ob_low = 8, ob_close = 8, ob_volume = 2\<rparr>"

lemma steady_source_proper: "proper_source steady_source"
  by (auto simp: proper_source_def steady_source_def)

lemma sample_times:
  "event_time sample_config (sample_bar 0) 1 \<le> event_time sample_config (sample_bar 86400) 0"
  "event_time sample_config (sample_bar 0) 0 \<le> event_time sample_config (sample_bar 3600) 0"
  "event_time sample_config (sample_bar 3600) 0 < event_time sample_config (sample_bar 0) 1"
  "event_time sample_config (sample_bar 0) 1 \<le> event_time sample_config (sample_bar 3600) 1"
proof -
  let ?y = "fmul 86400 (fl (27/100))"
  have first: "event_time sample_config (sample_bar t) 0 = pyround (fl t) 6" for t
    by (simp add: event_time_def sample_config_def sample_bar_def fadd_def fdiv_def fmul_def)
  have second: "event_time sample_config (sample_bar t) 1 = pyround (fadd t ?y) 6" for t
    by (simp add: event_time_def sample_config_def sample_bar_def fdiv_def fmul_def)
  have cut: "1/8 \<le> fl (27/100)" "fl (27/100) \<le> 1"
  proof -
    have "fl (1/8) = 1/8" by code_simp
    then show "1/8 \<le> fl (27/100)" using fl_mono [of "1/8" "27/100"] by simp
    show "fl (27/100) \<le> 1" using fl_mono [of "27/100" 1] by simp
  qed
  have y: "10800 \<le> ?y" "?y \<le> 86400"
    using fl_mono [of 10800 "86400 * fl (27/100)"] fl_mono [of "86400 * fl (27/100)" 86400] cut by (simp_all add: fmul_def)
  have z: "10800 \<le> fadd 0 ?y" "fadd 0 ?y \<le> 86400" using y fl_mono [of 10800 ?y] fl_mono [of ?y 86400] by (simp_all add: fadd_def)
  have r: "pyround 86400 6 = 86400" "pyround 10800 6 = 10800" "pyround 3600 6 = 3600"
    using pyround_of_int [of 86400 6] pyround_of_int [of 10800 6] pyround_of_int [of 3600 6] by simp_all
  show "event_time sample_config (sample_bar 0) 1 \<le> event_time sample_config (sample_bar 86400) 0"
    using pyround_mono [OF z(2), of 6] by (simp only: first second r) (simp add: r)
  show "event_time sample_config (sample_bar 3600) 0 < event_time sample_config (sample_bar 0) 1"
    using pyround_mono [OF z(1), of 6] by (simp only: first second r) (simp add: r)
  show "event_time sample_config (sample_bar 0) 0 \<le> event_time sample_config (sample_bar 3600) 0"
    by (simp add: first pyround_mono)
  show "event_time sample_config (sample_bar 0) 1 \<le> event_time sample_config (sample_bar 3600) 1"
    by (simp only: second fadd_def) (intro pyround_mono fl_mono, simp)
qed

theorem synthetic_stream_is_valid_history_witness:
  "\<exists>raw. generate_synthetic_l2 steady_source sample_config [sample_bar 0, sample_bar 86400] () = map2 (syn_market_event sample_config) [0..<length raw] raw
    \<and> valid_history empty_syn_book (map snd raw) \<and> length raw = 2 * 2"
proof -
  have "bars_apart sample_config [sample_bar 0, sample_bar 86400]" using sample_times(1) by (simp add: sample_config_def)
  then show ?thesis
    using synthetic_stream_is_valid_history [OF steady_source_proper, of sample_config "[sample_bar 0, sample_bar 86400]" "()"]
    by (auto simp: sample_config_def)
qed

text \<open>
  Bars an hour apart overlap: the final sort moves a trade of the second bar before the ask it executes against, and
  the stream is no longer a valid history.
\<close>

definition sample_event :: "book_event_type \<Rightarrow> trade_side \<Rightarrow> int \<Rightarrow> pyfloat \<Rightarrow> syn_event" where
  "sample_event ty sd t x = \<lparr>se_type = ty, se_side = sd, se_ticks = t, se_size = x\<rparr>"

lemma sample_pieces:
  "spread_ticks sample_config (sample_bar t) = 1"
  "target_ticks steady_source sample_config (sample_bar t) part () = (8, ())"
  "drift_of 8 \<lparr>sb_bids = [(7, 1)], sb_asks = [(9, 1)]\<rparr> = 0"
  "max 1 (fdiv (ob_volume (sample_bar t)) (of_nat (max (sc_events sample_config) (Suc 0)))) = 1"
  "rg_choice steady_source [40, 25, 15, 20] () = (3, ())"
proof -
  have 8: "price_ticks sample_config 8 = 8" using round_half_even_of_int [of 8] by (simp add: price_ticks_def sample_config_def fdiv_def)
  show "spread_ticks sample_config (sample_bar t) = 1"
    by (simp add: spread_ticks_def sample_config_def sample_bar_def fdiv_def fsub_def fmul_def price_ticks_def round_half_even_def)
  show "target_ticks steady_source sample_config (sample_bar t) part () = (8, ())"
    using 8 by (simp add: target_ticks_def sample_bar_def steady_source_def Let_def)
qed (simp_all add: drift_of_def best_tick_def dict_keys_def fdiv_def fsub_def sample_bar_def sample_config_def steady_source_def)

lemma sample_step_1:
  "syn_step steady_source sample_config (sample_bar t) i (empty_syn_book, ())
     = (sample_event EV_ADD BUY 7 1, \<lparr>sb_bids = [(7, 1)], sb_asks = []\<rparr>, ())"
proof -
  have "replenish steady_source sample_config 1 8 empty_syn_book () = (sample_event EV_ADD BUY 7 1, \<lparr>sb_bids = [(7, 1)], sb_asks = []\<rparr>, ())"
    by code_simp
  then show ?thesis by (simp add: syn_step_def sample_pieces empty_syn_book_def)
qed

lemma sample_step_2:
  "syn_step steady_source sample_config (sample_bar t) i (\<lparr>sb_bids = [(7, 1)], sb_asks = []\<rparr>, ())
     = (sample_event EV_ADD SELL 9 1, \<lparr>sb_bids = [(7, 1)], sb_asks = [(9, 1)]\<rparr>, ())"
proof -
  have "replenish steady_source sample_config 1 8 \<lparr>sb_bids = [(7, 1)], sb_asks = []\<rparr> ()
      = (sample_event EV_ADD SELL 9 1, \<lparr>sb_bids = [(7, 1)], sb_asks = [(9, 1)]\<rparr>, ())"
    by code_simp
  then show ?thesis by (simp add: syn_step_def sample_pieces)
qed

lemma sample_step_3:
  "syn_step steady_source sample_config (sample_bar t) i (\<lparr>sb_bids = [(7, 1)], sb_asks = [(9, 1)]\<rparr>, ())
     = (sample_event EV_TRADE BUY 9 (1/2), \<lparr>sb_bids = [(7, 1)], sb_asks = [(9, 1/2)]\<rparr>, ())"
proof -
  have "syn_trade steady_source sample_config 1 1 0 \<lparr>sb_bids = [(7, 1)], sb_asks = [(9, 1)]\<rparr> ()
      = (sample_event EV_TRADE BUY 9 (1/2), \<lparr>sb_bids = [(7, 1)], sb_asks = [(9, 1/2)]\<rparr>, ())"
    by code_simp
  then show ?thesis by (simp add: syn_step_def sample_pieces)
qed

lemma overlapping_bars_break_history:
  "\<not> valid_history empty_syn_book (map snd (sort_key fst (syn_bars steady_source sample_config [sample_bar 0, sample_bar 3600] (empty_syn_book, ()))))"
proof -
  obtain e b where e: "syn_step steady_source sample_config (sample_bar 3600) 1 (\<lparr>sb_bids = [(7, 1)], sb_asks = [(9, 1/2)]\<rparr>, ()) = (e, b, ())"
    by (metis old.unit.exhaust prod_cases3)
  let ?t = "event_time sample_config"
  have "sc_events sample_config = 2" by (simp add: sample_config_def)
  then have "syn_bars steady_source sample_config [sample_bar 0, sample_bar 3600] (empty_syn_book, ())
      = [(?t (sample_bar 0) 0, sample_event EV_ADD BUY 7 1), (?t (sample_bar 0) 1, sample_event EV_ADD SELL 9 1),
         (?t (sample_bar 3600) 0, sample_event EV_TRADE BUY 9 (1/2)), (?t (sample_bar 3600) 1, e)]"
    using e by (simp add: upt_rec numeral_2_eq_2 sample_step_1 sample_step_2 sample_step_3)
  then have "sort_key fst (syn_bars steady_source sample_config [sample_bar 0, sample_bar 3600] (empty_syn_book, ()))
      = [(?t (sample_bar 0) 0, sample_event EV_ADD BUY 7 1), (?t (sample_bar 3600) 0, sample_event EV_TRADE BUY 9 (1/2)),
         (?t (sample_bar 0) 1, sample_event EV_ADD SELL 9 1), (?t (sample_bar 3600) 1, e)]"
    using sample_times by (auto simp: sort_key_def)
  moreover have "\<not> l2_allowed (sample_event EV_TRADE BUY 9 (1/2)) (l2_apply (sample_event EV_ADD BUY 7 1) empty_syn_book)" by code_simp
  ultimately show ?thesis by simp
qed

end
