(* ===== verification/Execution_Analytics.thy ===== *)
theory Execution_Analytics
  imports Paper_Exchange Market_Microstructure
begin

text \<open>
  \<^verbatim>\<open>src/backend/services/execution_analytics.py\<close> and the reports of \<^verbatim>\<open>paper_exchange.py\<close> built from it: adverse
  selection, implementation shortfall, queue and execution metrics, capacity. Result dictionaries are records; the
  text of a horizon is an argument (\<open>label\<close>).
\<close>

section \<open>Adverse selection\<close>

record 'h fill_row =
  fr_order :: string
  fr_price :: pyfloat
  fr_side :: trade_side
  fr_mids :: "('h \<times> pyfloat) list"

record selection_row =
  sr_order :: string
  sr_price :: pyfloat
  sr_side :: trade_side
  sr_horizons :: "(string, pyfloat) dict"

text \<open>\<open>fr_mids\<close> is what \<^verbatim>\<open>mid_prices_after\<close> holds for the row's order.\<close>

definition compute_adverse_selection :: "('h \<Rightarrow> string) \<Rightarrow> 'h fill_row list \<Rightarrow> selection_row list" where
  "compute_adverse_selection label rows =
     map (\<lambda>f. \<lparr>sr_order = fr_order f, sr_price = fr_price f, sr_side = fr_side f,
               sr_horizons = fold (\<lambda>(h, m). dict_set (label h @ ''ms'')
                  (pyround (if fr_side f = BUY then fsub m (fr_price f) else fsub (fr_price f) m) 6)) (fr_mids f) []\<rparr>) rows"

record selection_summary =
  ss_mean :: pyfloat
  ss_fraction :: pyfloat
  ss_count :: nat

definition horizon_values :: "string \<Rightarrow> selection_row list \<Rightarrow> pyfloat list" where
  "horizon_values h rows = List.map_filter (\<lambda>r. dict_get (sr_horizons r) h) rows"

definition compute_adverse_selection_summary :: "selection_row list \<Rightarrow> (string, selection_summary) dict" where
  "compute_adverse_selection_summary rows =
     map (\<lambda>h. let vs = horizon_values h rows in
            (h, \<lparr>ss_mean = pyround (fdiv (fsum vs) (of_nat (length vs))) 6,
                 ss_fraction = pyround (fdiv (of_nat (length (filter (\<lambda>v. v < 0) vs))) (of_nat (length vs))) 4,
                 ss_count = length vs\<rparr>))
       (sorted_list_of_set (\<Union>r \<in> set rows. set (dict_keys (sr_horizons r))))"

section \<open>Implementation shortfall\<close>

record shortfall =
  is_delay :: pyfloat
  is_spread :: pyfloat
  is_impact :: pyfloat
  is_fees :: pyfloat
  is_sum :: pyfloat
  is_bps :: pyfloat

definition compute_implementation_shortfall ::
  "pyfloat \<Rightarrow> pyfloat \<Rightarrow> pyfloat \<Rightarrow> trade_side \<Rightarrow> pyfloat \<Rightarrow> pyfloat \<Rightarrow> pyfloat \<Rightarrow> shortfall" where
  "compute_implementation_shortfall decision arrival vwap sd qty half fees =
     (let sign = (if sd = BUY then 1 else - 1);
          delay = fmul (fmul sign (fsub arrival decision)) qty;
          spread_cost = fmul half qty;
          market_impact = fmul (fmul sign (fsub vwap arrival)) qty;
          whole = fadd (fadd (fadd delay spread_cost) market_impact) fees;
          notional = fmul decision qty;
          bps = (if 0 < notional then fmul (fdiv whole notional) 10000 else 0)
      in \<lparr>is_delay = pyround delay 4, is_spread = pyround spread_cost 4, is_impact = pyround market_impact 4,
          is_fees = pyround fees 4, is_sum = pyround whole 4, is_bps = pyround bps 2\<rparr>)"

section \<open>Outcomes\<close>

definition filled_quantity :: "order \<Rightarrow> pyfloat" where
  "filled_quantity o' = (if b_status o' = OFILLED \<and> b_filled o' \<le> 0 then b_quantity o' else b_filled o')"

definition is_partial :: "order \<Rightarrow> bool" where
  "is_partial o' \<longleftrightarrow> b_status o' = PARTIALLY_FILLED \<or> b_status o' \<noteq> OFILLED \<and> 0 < filled_quantity o'"

definition queue_time :: "order \<Rightarrow> pyfloat option" where
  "queue_time o' =
     (case (b_entered_at o', b_filled_at o') of
        (Some a, Some b) \<Rightarrow> let t = fsub b a in if 0 \<le> t then Some t else None
      | _ \<Rightarrow> None)"

definition share_of :: "nat \<Rightarrow> nat \<Rightarrow> pyfloat" where
  "share_of n m = pyround (fdiv (of_nat n) (of_nat m)) 4"

definition mean_of :: "pyfloat list \<Rightarrow> nat \<Rightarrow> pyfloat" where
  "mean_of xs d = pyround (fdiv (fsum xs) (of_nat (length xs))) d"

definition ratio_of :: "pyfloat \<Rightarrow> pyfloat \<Rightarrow> pyfloat" where
  "ratio_of x y = (if y = 0 then 0 else pyround (fdiv x y) 4)"

record queue_report =
  qr_orders :: nat
  qr_filled :: nat
  qr_full :: nat
  qr_partial :: nat
  qr_resting :: nat
  qr_fill_rate :: pyfloat
  qr_full_rate :: pyfloat
  qr_partial_rate :: pyfloat
  qr_ratio :: pyfloat
  qr_ahead_entry :: pyfloat
  qr_ahead_peak :: pyfloat
  qr_fill_time :: "pyfloat option"

text \<open>\<open>None\<close> is the answer for no orders, \<^verbatim>\<open>{"total_orders": 0}\<close>.\<close>

definition compute_queue_analytics :: "order list \<Rightarrow> queue_report option" where
  "compute_queue_analytics os =
     (let filled = filter (\<lambda>x. b_status x = OFILLED \<or> is_partial x) os;
          waiting = filter (\<lambda>x. b_status x = OQUEUED \<and> filled_quantity x \<le> 0) os;
          active = filled @ waiting;
          full = filter (\<lambda>x. b_status x = OFILLED) filled;
          part = filter is_partial filled;
          times = List.map_filter queue_time filled
      in if active = [] then None
         else Some \<lparr>qr_orders = length active, qr_filled = length filled, qr_full = length full, qr_partial = length part,
           qr_resting = length waiting, qr_fill_rate = share_of (length filled) (length active),
           qr_full_rate = share_of (length full) (length active),
           qr_partial_rate = (if filled = [] then 0 else share_of (length part) (length filled)),
           qr_ratio = ratio_of (fsum (map filled_quantity active)) (fsum (map b_quantity active)),
           qr_ahead_entry = mean_of (map b_ahead_entry active) 2, qr_ahead_peak = mean_of (map b_ahead_peak active) 2,
           qr_fill_time = (if times = [] then None else Some (mean_of times 4))\<rparr>)"

record execution_metrics =
  em_orders :: nat
  em_full :: nat
  em_partial :: nat
  em_cancelled :: nat
  em_expired :: nat
  em_rejected :: nat
  em_any_rate :: pyfloat
  em_full_rate :: pyfloat
  em_partial_rate :: pyfloat
  em_ratio :: pyfloat
  em_cancel_rate :: pyfloat
  em_expiry_rate :: pyfloat
  em_reject_rate :: pyfloat
  em_improvement :: pyfloat
  em_queue_time :: "pyfloat option"
  em_notional :: pyfloat
  em_fills :: nat

definition price_improvement :: "order \<Rightarrow> pyfloat option" where
  "price_improvement o' =
     (case b_limit o' of
        Some p \<Rightarrow> if p \<noteq> 0 \<and> b_avg o' \<noteq> 0
                  then Some (if b_side o' = BUY then fsub p (b_avg o') else fsub (b_avg o') p) else None
      | None \<Rightarrow> None)"

definition unfilled_in :: "order_status \<Rightarrow> order list \<Rightarrow> order list" where
  "unfilled_in st os = filter (\<lambda>x. b_status x = st) (filter (\<lambda>x. filled_quantity x \<le> 0) os)"

definition compute_execution_metrics :: "order list \<Rightarrow> (pyfloat \<times> pyfloat) list \<Rightarrow> execution_metrics option" where
  "compute_execution_metrics os fills =
     (let n = length os;
          full = filter (\<lambda>x. b_status x = OFILLED) os; part = filter is_partial os;
          cancelled = unfilled_in OCANCELLED os; expired = unfilled_in OEXPIRED os; rejected = unfilled_in OREJECTED os;
          submitted = fsum (map b_quantity (filter (\<lambda>x. b_status x \<noteq> OREJECTED) os));
          executed = fsum (map filled_quantity os);
          gains = List.map_filter price_improvement full;
          times = List.map_filter queue_time (filter (\<lambda>x. 0 < filled_quantity x) os);
          any = length full + length part
      in if n = 0 then None
         else Some \<lparr>em_orders = n, em_full = length full, em_partial = length part, em_cancelled = length cancelled,
           em_expired = length expired, em_rejected = length rejected, em_any_rate = share_of any n,
           em_full_rate = share_of (length full) n, em_partial_rate = share_of (length part) n,
           em_ratio = ratio_of executed submitted, em_cancel_rate = share_of (length cancelled) n,
           em_expiry_rate = share_of (length expired) n, em_reject_rate = share_of (length rejected) n,
           em_improvement = (if gains = [] then 0 else mean_of gains 6),
           em_queue_time = (if times = [] then None else Some (mean_of times 4)),
           em_notional = pyround (fsum (map (\<lambda>(p, q). fmul p q) fills)) 2, em_fills = length fills\<rparr>)"

section \<open>The report of a paper exchange\<close>

text \<open>\<^verbatim>\<open>bisect.bisect_right\<close> of a time among the recorded mids, with the loop's bounds.\<close>

function bisect_mids :: "(pyfloat \<times> pyfloat) list \<Rightarrow> pyfloat \<Rightarrow> nat \<Rightarrow> nat \<Rightarrow> nat" where
  "bisect_mids ms t lo hi =
     (if lo < hi
      then let mid = (lo + hi) div 2 in if t < fst (ms ! mid) then bisect_mids ms t lo mid else bisect_mids ms t (mid + 1) hi
      else lo)"
  by pat_completeness auto
termination by (relation "measure (\<lambda>(ms, t, lo, hi). hi - lo)") auto

declare bisect_mids.simps [simp del]

definition mid_at :: "pyfloat \<Rightarrow> exchange \<Rightarrow> pyfloat option" where
  "mid_at t ex =
     (let i = bisect_mids (pe_mids ex) t 0 (length (pe_mids ex))
      in if i = 0 then None else Some (snd (pe_mids ex ! (i - 1))))"

text \<open>Orders with an execution and both reference mids: decision mid, arrival mid, order.\<close>

definition shortfall_row :: "exchange \<Rightarrow> order \<Rightarrow> (string \<times> shortfall \<times> pyfloat) option" where
  "shortfall_row ex o' =
     (case (dict_get (pe_decision ex) (b_id o'), dict_get (pe_arrival ex) (b_id o')) of
        (Some (Some d), Some (Some a)) \<Rightarrow>
          if b_filled o' \<le> 0 then None
          else Some (b_id o', compute_implementation_shortfall d a (b_avg o') (b_side o') (b_filled o') 0 0, fmul d (b_filled o'))
      | _ \<Rightarrow> None)"

definition horizon_mids :: "exchange \<Rightarrow> pyfloat list \<Rightarrow> exchange_fill \<Rightarrow> (pyfloat \<times> pyfloat) list" where
  "horizon_mids ex hs f =
     List.map_filter (\<lambda>h. if pe_mids ex \<noteq> [] \<and> fadd (xf_time f) h \<le> fst (last (pe_mids ex))
                          then map_option (Pair (fmul h 1000)) (mid_at (fadd (xf_time f) h) ex) else None) hs"

definition fill_rows :: "exchange \<Rightarrow> pyfloat list \<Rightarrow> pyfloat fill_row list" where
  "fill_rows ex hs =
     map (\<lambda>(i, f). \<lparr>fr_order = xf_order f @ ''#'' @ int_text (int i), fr_price = xf_price f, fr_side = xf_side f,
                    fr_mids = horizon_mids ex hs f\<rparr>) (enumerate 0 (pe_fills ex))"

record execution_report =
  er_metrics :: "execution_metrics option"
  er_queue :: "queue_report option"
  er_rows :: "(string \<times> shortfall) list"
  er_sum :: pyfloat
  er_bps :: pyfloat
  er_selection :: "(string, selection_summary) dict"

definition build_execution_report :: "(pyfloat \<Rightarrow> string) \<Rightarrow> pyfloat list \<Rightarrow> exchange \<Rightarrow> execution_report" where
  "build_execution_report label hs ex =
     (let os = map (pe_order ex) (pe_orders ex);
          rows = List.map_filter (shortfall_row ex) os;
          whole = foldl (\<lambda>t r. fadd t (is_sum (fst (snd r)))) 0 rows;
          notional = foldl (\<lambda>t r. fadd t (snd (snd r))) 0 rows
      in \<lparr>er_metrics = compute_execution_metrics os (map (\<lambda>f. (xf_price f, xf_quantity f)) (pe_fills ex)),
          er_queue = compute_queue_analytics (filter (\<lambda>x. b_entered_at x \<noteq> None) os),
          er_rows = map (\<lambda>r. (fst r, fst (snd r))) rows, er_sum = pyround whole 4,
          er_bps = (if notional = 0 then 0 else pyround (fmul (fdiv whole notional) 10000) 2),
          er_selection = compute_adverse_selection_summary (compute_adverse_selection label (fill_rows ex hs))\<rparr>)"

section \<open>Capacity\<close>

record capacity_result =
  cr_sharpe :: pyfloat
  cr_return :: pyfloat
  cr_drawdown :: pyfloat
  cr_slippage :: pyfloat
  cr_fill_rate :: pyfloat

definition sharpe_degradation :: "pyfloat \<Rightarrow> pyfloat \<Rightarrow> pyfloat" where
  "sharpe_degradation baseline s = (if baseline = 0 then 0 else fmul (fdiv (fsub baseline s) \<bar>baseline\<bar>) 100)"

record capacity_report =
  ca_baseline :: pyfloat
  ca_baseline_sharpe :: pyfloat
  ca_estimate :: "pyfloat option"
  ca_profiles :: "(pyfloat \<times> capacity_result \<times> pyfloat) list"

definition compute_capacity_analysis :: "(pyfloat, capacity_result) dict \<Rightarrow> capacity_report option" where
  "compute_capacity_analysis results =
     (case sort (dict_keys results) of
        [] \<Rightarrow> None
      | c # cs \<Rightarrow>
          (let base = cr_sharpe (the (dict_get results c));
               rows = map (\<lambda>k. let r = the (dict_get results k) in
                   (k, \<lparr>cr_sharpe = pyround (cr_sharpe r) 4, cr_return = pyround (cr_return r) 4,
                        cr_drawdown = pyround (cr_drawdown r) 4, cr_slippage = pyround (cr_slippage r) 2,
                        cr_fill_rate = pyround (cr_fill_rate r) 4\<rparr>, pyround (sharpe_degradation base (cr_sharpe r)) 2)) (c # cs)
           in Some \<lparr>ca_baseline = c, ca_baseline_sharpe = pyround base 4,
                ca_estimate = map_option fst (find (\<lambda>(k, r, d). 50 < d) rows), ca_profiles = rows\<rparr>))"

section \<open>What the metrics mean\<close>

text \<open>The outcomes of the metrics are exclusive: no order is counted twice, whatever its status and quantities.\<close>

lemma outcomes_exclusive:
  assumes "compute_execution_metrics os fills = Some m"
  shows "em_full m + em_partial m + em_cancelled m + em_expired m + em_rejected m \<le> em_orders m"
proof -
  have "length (filter (\<lambda>x. b_status x = OFILLED) os) + length (filter is_partial os) + length (unfilled_in OCANCELLED os)
      + length (unfilled_in OEXPIRED os) + length (unfilled_in OREJECTED os) \<le> length os"
    by (induction os) (auto simp: unfilled_in_def is_partial_def)
  then show ?thesis using assms by (auto simp: compute_execution_metrics_def Let_def split: if_splits)
qed

lemma share_of_bounds:
  assumes "n \<le> m"
  shows "0 \<le> share_of n m" "share_of n m \<le> 1"
proof -
  have "(of_nat n :: rat) / of_nat m \<le> 1" using assms by (simp add: divide_le_eq)
  then have "fdiv (of_nat n) (of_nat m) \<le> 1" unfolding fdiv_def by (rule fl_le_iff_1)
  then show "share_of n m \<le> 1" unfolding share_of_def using pyround_mono [of _ 1 4] pyround_of_int [of 1 4] by force
  show "0 \<le> share_of n m" by (simp add: share_of_def pyround_nonneg fdiv_def fl_nonneg)
qed

lemma bisect_mids_right:
  assumes "sorted (map fst ms)" "lo \<le> hi" "hi \<le> length ms"
    and "\<forall>i < lo. fst (ms ! i) \<le> t" "\<forall>i. hi \<le> i \<longrightarrow> i < length ms \<longrightarrow> t < fst (ms ! i)"
  shows "bisect_mids ms t lo hi = length (takeWhile (\<lambda>p. fst p \<le> t) ms)"
  using assms
proof (induction ms t lo hi rule: bisect_mids.induct)
  case (1 ms t lo hi)
  have mono: "fst (ms ! i) \<le> fst (ms ! j)" if "i \<le> j" "j < length ms" for i j
    using "1.prems"(1) that by (metis (no_types, lifting) length_map nth_map order.strict_trans1 sorted_nth_mono)
  let ?mid = "(lo + hi) div 2"
  show ?case
  proof (cases "lo < hi")
    case False
    then have "lo = hi" using "1.prems"(2) by simp
    then have "takeWhile (\<lambda>p. fst p \<le> t) ms = take lo ms"
      using "1.prems"(4,5) by (intro takeWhile_eq_take_P_nth) (auto simp: not_le)
    then have "length (takeWhile (\<lambda>p. fst p \<le> t) ms) = lo" using "1.prems"(3) \<open>lo = hi\<close> by simp
    then show ?thesis using False by (subst bisect_mids.simps) simp
  next
    case True
    then have mid: "lo \<le> ?mid" "?mid < hi" "?mid < length ms" using "1.prems"(3) by auto
    show ?thesis
    proof (cases "t < fst (ms ! ?mid)")
      case True
      have "\<forall>i. ?mid \<le> i \<longrightarrow> i < length ms \<longrightarrow> t < fst (ms ! i)" using True mono by (meson less_le_trans)
      then have "bisect_mids ms t lo ?mid = length (takeWhile (\<lambda>p. fst p \<le> t) ms)"
        using "1.IH"(1) [OF \<open>lo < hi\<close> refl True] "1.prems" mid by simp
      then show ?thesis using \<open>lo < hi\<close> True by (subst bisect_mids.simps) (simp add: Let_def)
    next
      case False
      have "\<forall>i < ?mid + 1. fst (ms ! i) \<le> t" using False mono mid by (metis Suc_eq_plus1 less_Suc_eq_le not_le order_trans)
      then have "bisect_mids ms t (?mid + 1) hi = length (takeWhile (\<lambda>p. fst p \<le> t) ms)"
        using "1.IH"(2) [OF \<open>lo < hi\<close> refl False] "1.prems" mid by simp
      then show ?thesis using \<open>lo < hi\<close> False by (subst bisect_mids.simps) (simp add: Let_def)
    qed
  qed
qed

text \<open>
  The mid a fill is compared with is the last one recorded at or before the instant asked for, and none is
  extrapolated: a horizon beyond the replayed data gives no value.
\<close>

lemma mid_at_last_recorded:
  assumes "sorted (map fst (pe_mids ex))"
  shows "mid_at t ex = (case filter (\<lambda>p. fst p \<le> t) (pe_mids ex) of [] \<Rightarrow> None | ps \<Rightarrow> Some (snd (last ps)))"
proof -
  let ?ms = "pe_mids ex"
  have f: "filter (\<lambda>p. fst p \<le> t) ms = takeWhile (\<lambda>p. fst p \<le> t) ms" if "sorted (map fst ms)" for ms :: "(pyfloat \<times> pyfloat) list"
    using that
  proof (induction ms)
    case (Cons p ms)
    have "filter (\<lambda>p. fst p \<le> t) ms = []" if "\<not> fst p \<le> t" using that Cons.prems by (fastforce simp: filter_empty_conv)
    then show ?case using Cons by simp
  qed simp
  have i: "bisect_mids ?ms t 0 (length ?ms) = length (takeWhile (\<lambda>p. fst p \<le> t) ?ms)" by (rule bisect_mids_right [OF assms]) simp_all
  show ?thesis
  proof (cases "takeWhile (\<lambda>p. fst p \<le> t) ?ms")
    case (Cons p ps)
    let ?T = "takeWhile (\<lambda>p. fst p \<le> t) ?ms"
    have "last ?T = ?T ! (length ?T - 1)" by (rule last_conv_nth) (simp add: Cons)
    moreover have "?T ! (length ?T - 1) = ?ms ! (length ?T - 1)" by (rule takeWhile_nth) (simp add: Cons)
    ultimately have "last ?T = ?ms ! (length ?T - 1)" by (rule trans)
    then show ?thesis using Cons by (simp add: mid_at_def i f [OF assms] Let_def)
  qed (simp add: mid_at_def i f [OF assms])
qed

end
