(* ===== verification/L2_Replay.thy ===== *)
theory L2_Replay
  imports Execution_Analytics Exchange_Properties Synthetic_L2
begin

text \<open>
  \<^verbatim>\<open>src/backend/services/l2_event_replay.py\<close>, with \<^verbatim>\<open>validate_events\<close> and \<^verbatim>\<open>build_snapshot_from_events\<close> of
  \<^verbatim>\<open>market_microstructure.py\<close>: loading and validating a stream, the replay of a stream through a book or a paper exchange with
  a strategy, and the built-in strategy. \<^verbatim>\<open>float\<close> and \<^verbatim>\<open>str\<close> of a record's values and generated ids are
  arguments (\<open>ids i\<close> is the id drawn, if any, at the \<open>i\<close>-th event). The provenance hash is left out.
\<close>

section \<open>Validation\<close>

datatype l2_issue = BadPrice | BadSize | GoesBack | DuplicateId | CrossedBook

record validation =
  va_index :: nat
  va_book :: book
  va_seen :: "string set"
  va_last :: "pyfloat option"
  va_issues :: "(nat \<times> l2_issue) list"

definition crossed :: "book \<Rightarrow> bool" where
  "crossed b \<longleftrightarrow> (case (best_bid b, best_ask b) of (Some x, Some y) \<Rightarrow> y \<le> x | _ \<Rightarrow> False)"

definition named :: "book_event \<Rightarrow> string option" where
  "named ev = (case ev_order ev of Some i \<Rightarrow> if i \<noteq> [] then Some i else None | None \<Rightarrow> None)"

definition bad_size :: "book_event \<Rightarrow> bool" where
  "bad_size ev \<longleftrightarrow> ev_size ev < 0 \<or> ev_type ev = EV_TRADE \<and> ev_size ev \<le> 0"

definition validate_one :: "(nat \<Rightarrow> string) \<Rightarrow> book_event \<Rightarrow> validation \<Rightarrow> validation" where
  "validate_one ids ev v =
     (let i = va_index v; v1 = v\<lparr>va_index := Suc i\<rparr> in
      if ev_price ev \<le> 0 then v1\<lparr>va_issues := va_issues v @ [(i, BadPrice)]\<rparr>
      else if bad_size ev then v1\<lparr>va_issues := va_issues v @ [(i, BadSize)]\<rparr>
      else let back = (case va_last v of Some t \<Rightarrow> ev_time ev < t | None \<Rightarrow> False);
               again = (ev_type ev = EV_ADD \<and> (case named ev of Some n \<Rightarrow> n \<in> va_seen v | None \<Rightarrow> False));
               b = fst (apply_market_event (ids i) ev (va_book v))
           in v1\<lparr>va_book := b,
                 va_last := Some (case va_last v of Some t \<Rightarrow> max t (ev_time ev) | None \<Rightarrow> ev_time ev),
                 va_seen := (if ev_type ev = EV_ADD then (case named ev of Some n \<Rightarrow> insert n (va_seen v) | None \<Rightarrow> va_seen v)
                             else va_seen v),
                 va_issues := va_issues v @ (if back then [(i, GoesBack)] else []) @ (if again then [(i, DuplicateId)] else [])
                                @ (if crossed b then [(i, CrossedBook)] else [])\<rparr>)"

fun validate_all :: "(nat \<Rightarrow> string) \<Rightarrow> nat \<Rightarrow> book_event list \<Rightarrow> validation \<Rightarrow> validation" where
  "validate_all ids most [] v = v"
| "validate_all ids most (ev # evs) v =
     (if most \<le> length (va_issues v) then v else validate_all ids most evs (validate_one ids ev v))"

text \<open>\<open>None\<close>: the tick size is not positive and the book raises.\<close>

definition validate_events :: "(nat \<Rightarrow> string) \<Rightarrow> pyfloat \<Rightarrow> nat \<Rightarrow> nat \<Rightarrow> book_event list \<Rightarrow> (nat \<times> l2_issue) list option" where
  "validate_events ids tick digits most evs =
     map_option (\<lambda>b. va_issues (validate_all ids most evs
       \<lparr>va_index = 0, va_book = b, va_seen = {}, va_last = None, va_issues = []\<rparr>)) (new_book tick digits)"

text \<open>The book after the events, ids drawn from \<open>i\<close> on.\<close>

fun book_after :: "(nat \<Rightarrow> string) \<Rightarrow> nat \<Rightarrow> book_event list \<Rightarrow> book \<Rightarrow> book" where
  "book_after ids i [] b = b"
| "book_after ids i (ev # evs) b = book_after ids (Suc i) evs (fst (apply_market_event (ids i) ev b))"

definition build_snapshot_from_events :: "(nat \<Rightarrow> string) \<Rightarrow> nat \<Rightarrow> pyfloat \<Rightarrow> nat \<Rightarrow> book_event list \<Rightarrow> l2_snapshot option" where
  "build_snapshot_from_events ids n tick digits evs =
     map_option (\<lambda>b. snapshot_of n (book_after ids 0 evs b)) (new_book tick digits)"

section \<open>Loading records\<close>

datatype l2_error = BadRecord nat | BadStream "(nat \<times> l2_issue) list" | BadTick

definition event_type_of :: "string \<Rightarrow> book_event_type option" where
  "event_type_of s =
     (if s = ''ADD'' then Some EV_ADD else if s = ''CANCEL'' then Some EV_CANCEL else if s = ''MODIFY'' then Some EV_MODIFY
      else if s = ''TRADE'' then Some EV_TRADE else None)"

definition side_of :: "string \<Rightarrow> trade_side option" where
  "side_of s = (if s = ''BUY'' then Some BUY else if s = ''SELL'' then Some SELL else None)"

definition record_event :: "(json \<Rightarrow> pyfloat option) \<Rightarrow> (json \<Rightarrow> string) \<Rightarrow> (string, json) dict \<Rightarrow> book_event option" where
  "record_event to_float to_str r =
     (case (Option.bind (dict_get r ''timestamp'') to_float,
            Option.bind (dict_get r ''event_type'') (\<lambda>x. event_type_of (str_upper (to_str x))),
            Option.bind (dict_get r ''side'') (\<lambda>x. side_of (str_upper (to_str x))),
            Option.bind (dict_get r ''price'') to_float, Option.bind (dict_get r ''size'') to_float) of
        (Some t, Some ty, Some sd, Some p, Some x) \<Rightarrow>
          Some \<lparr>ev_time = t, ev_type = ty, ev_side = sd, ev_price = p, ev_size = x,
                ev_order = (case dict_get r ''order_id'' of
                              None \<Rightarrow> None | Some JNull \<Rightarrow> None
                            | Some v \<Rightarrow> if v = JStr [] then None else Some (to_str v))\<rparr>
      | _ \<Rightarrow> None)"

text \<open>The events, or the index of the first record that cannot be read.\<close>

fun read_records ::
  "(json \<Rightarrow> pyfloat option) \<Rightarrow> (json \<Rightarrow> string) \<Rightarrow> nat \<Rightarrow> (string, json) dict list \<Rightarrow> nat + book_event list" where
  "read_records to_float to_str i [] = Inr []"
| "read_records to_float to_str i (r # rs) =
     (case record_event to_float to_str r of
        None \<Rightarrow> Inl i
      | Some ev \<Rightarrow> (case read_records to_float to_str (Suc i) rs of Inl j \<Rightarrow> Inl j | Inr evs \<Rightarrow> Inr (ev # evs)))"

definition from_records ::
  "(json \<Rightarrow> pyfloat option) \<Rightarrow> (json \<Rightarrow> string) \<Rightarrow> (nat \<Rightarrow> string) \<Rightarrow> pyfloat \<Rightarrow> nat \<Rightarrow> bool \<Rightarrow> (string, json) dict list
     \<Rightarrow> l2_error + book_event list" where
  "from_records to_float to_str ids tick digits validate rs =
     (case read_records to_float to_str 0 rs of
        Inl i \<Rightarrow> Inl (BadRecord i)
      | Inr evs \<Rightarrow>
          (let sorted_evs = sort_key ev_time evs in
           if \<not> validate then Inr sorted_evs
           else (case validate_events ids tick digits 20 sorted_evs of
                   None \<Rightarrow> Inl BadTick
                 | Some [] \<Rightarrow> Inr sorted_evs
                 | Some issues \<Rightarrow> Inl (BadStream issues))))"

section \<open>The built-in strategy\<close>

record l2_signal =
  sg_side :: "trade_side option"
  sg_strength :: pyfloat
  sg_obi :: pyfloat
  sg_microprice :: "pyfloat option"
  sg_spread_bps :: "pyfloat option"
  sg_imbalance :: "pyfloat option"

text \<open>\<^verbatim>\<open>round(x, n) if x else None\<close>.\<close>

definition rounded_if :: "nat \<Rightarrow> pyfloat option \<Rightarrow> pyfloat option" where
  "rounded_if n x = (case x of Some v \<Rightarrow> if v \<noteq> 0 then Some (pyround v n) else None | None \<Rightarrow> None)"

definition obi_momentum_strategy :: "pyfloat \<Rightarrow> l2_snapshot \<Rightarrow> trade_event list \<Rightarrow> l2_signal option" where
  "obi_momentum_strategy threshold sn ts =
     (case compute_order_book_imbalance 5 sn of
        None \<Rightarrow> None
      | Some obi \<Rightarrow>
          if \<bar>obi\<bar> < threshold then None
          else Some \<lparr>sg_side = Some (if 0 < obi then BUY else SELL), sg_strength = pyround \<bar>obi\<bar> 4, sg_obi = pyround obi 4,
                     sg_microprice = rounded_if 4 (compute_microprice sn), sg_spread_bps = rounded_if 2 (compute_spread_bps sn),
                     sg_imbalance = map_option (\<lambda>x. pyround x 4) (compute_trade_imbalance 30 None ts)\<rparr>)"

section \<open>Replay\<close>

record replay_config =
  rc_interval :: nat
  rc_warmup :: nat
  rc_max :: "nat option"
  rc_levels :: nat
  rc_quantity :: pyfloat
  rc_passive :: bool
  rc_cancel_after :: "nat option"

datatype venue = JustBook book | Venue exchange

definition venue_book :: "venue \<Rightarrow> book" where
  "venue_book v = (case v of JustBook b \<Rightarrow> b | Venue ex \<Rightarrow> pe_book ex)"

record signal_row =
  sw_signal :: l2_signal
  sw_time :: pyfloat
  sw_order :: "(string \<times> order_status) option"

record replay =
  rp_venue :: venue
  rp_trades :: "trade_event list"
  rp_working :: "(string, nat) dict"
  rp_events :: nat
  rp_taken :: nat
  rp_observed :: nat
  rp_snapshots :: "snapshot_view list"
  rp_signals :: "signal_row list"

definition is_working :: "order \<Rightarrow> bool" where
  "is_working o' \<longleftrightarrow> b_status o' \<in> {SUBMITTED, OACCEPTED, OQUEUED, PARTIALLY_FILLED}"

text \<open>The exchange after the order, or \<open>None\<close> when no order is sent.\<close>

definition order_for_signal :: "replay_config \<Rightarrow> trade_side option \<Rightarrow> exchange \<Rightarrow> exchange option" where
  "order_for_signal c sig ex =
     (if \<exists>r \<in> set (pe_orders ex). is_working (pe_order ex r) then None
      else let held = position_quantity ex;
               want = (if sig = Some BUY \<and> held \<le> 0 then Some (BUY, rc_quantity c)
                       else if sig = Some SELL \<and> 0 < held then Some (SELL, held) else None)
           in (case want of
                 None \<Rightarrow> None
               | Some (sd, qty) \<Rightarrow>
                   if rc_passive c
                   then (case (if sd = BUY then best_bid (pe_book ex) else best_ask (pe_book ex)) of
                           None \<Rightarrow> None
                         | Some p \<Rightarrow> Some (exchange_submit sd qty OT_LIMIT (Some p) None TIF_GTC None ex))
                   else Some (exchange_submit sd qty OT_MARKET None None TIF_GTC None ex)))"

text \<open>Passive orders that rested too long are cancelled; finished ones are forgotten.\<close>

definition tend_order :: "nat \<Rightarrow> nat \<Rightarrow> string \<times> nat \<Rightarrow> exchange \<times> (string, nat) dict \<Rightarrow> exchange \<times> (string, nat) dict" where
  "tend_order n i p st =
     (case (p, st) of ((oid, at'), (ex, working')) \<Rightarrow>
        (case dict_get (pe_by_id ex) oid of
           None \<Rightarrow> (ex, dict_pop oid working')
         | Some r \<Rightarrow>
             if \<not> is_working (pe_order ex r) then (ex, dict_pop oid working')
             else if n \<le> i - at' then (exchange_cancel oid ex, dict_pop oid working')
             else (ex, working')))"

definition tend_working :: "replay_config \<Rightarrow> nat \<Rightarrow> replay \<Rightarrow> replay" where
  "tend_working c i s =
     (case (rp_venue s, rc_cancel_after c) of
        (Venue ex, Some n) \<Rightarrow>
          (case fold (tend_order n i) (rp_working s) (ex, rp_working s) of
             (ex1, w) \<Rightarrow> s\<lparr>rp_venue := Venue ex1, rp_working := w\<rparr>)
      | _ \<Rightarrow> s)"

definition take_event :: "string \<Rightarrow> book_event \<Rightarrow> replay \<Rightarrow> replay" where
  "take_event new_id ev s =
     (let v = (case rp_venue s of JustBook b \<Rightarrow> JustBook (fst (apply_market_event new_id ev b))
                                | Venue ex \<Rightarrow> Venue (exchange_event_in new_id ev ex));
          s1 = s\<lparr>rp_venue := v, rp_events := rp_events s + 1\<rparr>
      in if ev_type ev = EV_TRADE
         then let ts = rp_trades s @ [\<lparr>te_time = ev_time ev, te_price = ev_price ev, te_size = ev_size ev, te_side = ev_side ev\<rparr>]
              in s1\<lparr>rp_observed := rp_observed s + 1, rp_trades := (if 100 < length ts then drop (length ts - 100) ts else ts)\<rparr>
         else s1)"

text \<open>The snapshot shown, and the strategy's answer to it.\<close>

definition consult ::
  "(l2_snapshot \<Rightarrow> trade_event list \<Rightarrow> l2_signal option) option \<Rightarrow> replay_config \<Rightarrow> nat \<Rightarrow> book_event \<Rightarrow> replay \<Rightarrow> replay" where
  "consult strategy c i ev s =
     (let sn = snapshot_of (rc_levels c) (venue_book (rp_venue s));
          views = rp_snapshots s @ [snapshot_to_dict sn];
          s1 = s\<lparr>rp_taken := rp_taken s + 1, rp_snapshots := (if 500 < length views then drop (length views - 250) views else views)\<rparr>
      in case strategy of
           None \<Rightarrow> s1
         | Some f \<Rightarrow>
             if i < rc_warmup c then s1
             else (case f sn (rp_trades s) of
                     None \<Rightarrow> s1
                   | Some sig \<Rightarrow>
                       (case rp_venue s of
                          JustBook b \<Rightarrow> s1\<lparr>rp_signals := rp_signals s @ [\<lparr>sw_signal = sig, sw_time = ev_time ev, sw_order = None\<rparr>]\<rparr>
                        | Venue ex \<Rightarrow>
                            (case order_for_signal c (sg_side sig) ex of
                               None \<Rightarrow> s1\<lparr>rp_signals := rp_signals s @ [\<lparr>sw_signal = sig, sw_time = ev_time ev, sw_order = None\<rparr>]\<rparr>
                             | Some ex1 \<Rightarrow>
                                 (let o' = pe_order ex1 (last (pe_orders ex1))
                                  in s1\<lparr>rp_venue := Venue ex1,
                                        rp_working := (if rc_passive c then dict_set (b_id o') i (rp_working s) else rp_working s),
                                        rp_signals := rp_signals s @ [\<lparr>sw_signal = sig, sw_time = ev_time ev,
                                                                       sw_order = Some (b_id o', b_status o')\<rparr>]\<rparr>)))))"

definition replay_step ::
  "(l2_snapshot \<Rightarrow> trade_event list \<Rightarrow> l2_signal option) option \<Rightarrow> replay_config \<Rightarrow> (nat \<Rightarrow> string) \<Rightarrow> nat \<times> book_event \<Rightarrow> replay \<Rightarrow> replay" where
  "replay_step strategy c ids p s =
     (case p of (i, ev) \<Rightarrow>
        (let s1 = tend_working c i (take_event (ids i) ev s)
         in if Suc i mod rc_interval c \<noteq> 0 then s1 else consult strategy c i ev s1))"

definition fresh_replay :: "venue \<Rightarrow> replay" where
  "fresh_replay v = \<lparr>rp_venue = v, rp_trades = [], rp_working = [], rp_events = 0, rp_taken = 0, rp_observed = 0,
      rp_snapshots = [], rp_signals = []\<rparr>"

definition replay_session ::
  "(l2_snapshot \<Rightarrow> trade_event list \<Rightarrow> l2_signal option) option \<Rightarrow> replay_config \<Rightarrow> (nat \<Rightarrow> string) \<Rightarrow> venue \<Rightarrow> book_event list \<Rightarrow> replay" where
  "replay_session strategy c ids v evs =
     fold (replay_step strategy c ids) (enumerate 0 (case rc_max c of Some m \<Rightarrow> take m evs | None \<Rightarrow> evs)) (fresh_replay v)"

text \<open>The execution part of the result: the analytics of the exchange's own fills.\<close>

definition replay_execution :: "(pyfloat \<Rightarrow> string) \<Rightarrow> pyfloat list \<Rightarrow> replay \<Rightarrow> execution_report option" where
  "replay_execution label hs s =
     (case rp_venue s of JustBook b \<Rightarrow> None | Venue ex \<Rightarrow> Some (build_execution_report label hs ex))"

end
