(* ===== verification/L2_Properties.thy ===== *)
theory L2_Properties
  imports L2_Replay
begin

text \<open>
  What validation accepts, what a strategy replaying an accepted stream without a research exchange can see, and
  how the feed can rest below the exchange's own bid.
\<close>

section \<open>Validation is exact\<close>

definition added_name :: "book_event \<Rightarrow> string option" where
  "added_name ev = (if ev_type ev = EV_ADD then named ev else None)"

fun accepts :: "(nat \<Rightarrow> string) \<Rightarrow> nat \<Rightarrow> pyfloat option \<Rightarrow> string set \<Rightarrow> book \<Rightarrow> book_event list \<Rightarrow> bool" where
  "accepts ids i l seen b [] = True"
| "accepts ids i l seen b (ev # evs) =
     (0 < ev_price ev \<and> \<not> bad_size ev \<and> (\<forall>t. l = Some t \<longrightarrow> t \<le> ev_time ev) \<and> (\<forall>n. added_name ev = Some n \<longrightarrow> n \<notin> seen)
      \<and> \<not> crossed (fst (apply_market_event (ids i) ev b))
      \<and> accepts ids (Suc i) (Some (ev_time ev)) (seen \<union> set_option (added_name ev)) (fst (apply_market_event (ids i) ev b)) evs)"

lemma issues_kept: "va_issues v \<noteq> [] \<Longrightarrow> va_issues (validate_one ids ev v) \<noteq> []"
  unfolding validate_one_def Let_def by (cases "ev_price ev \<le> 0"; cases "bad_size ev"; simp)

lemma issues_stay: "va_issues v \<noteq> [] \<Longrightarrow> va_issues (validate_all ids most evs v) \<noteq> []"
proof (induction evs arbitrary: v)
  case (Cons ev evs)
  then show ?case using Cons.IH [OF issues_kept [OF Cons.prems]] by simp
qed simp

lemma validate_one_clean:
  assumes "va_issues v = []"
  shows "va_issues (validate_one ids ev v) = [] \<longleftrightarrow> 0 < ev_price ev \<and> \<not> bad_size ev \<and> (\<forall>t. va_last v = Some t \<longrightarrow> t \<le> ev_time ev)
      \<and> (\<forall>n. added_name ev = Some n \<longrightarrow> n \<notin> va_seen v) \<and> \<not> crossed (fst (apply_market_event (ids (va_index v)) ev (va_book v)))"
    "va_issues (validate_one ids ev v) = [] \<Longrightarrow> validate_one ids ev v = v\<lparr>va_index := Suc (va_index v),
      va_book := fst (apply_market_event (ids (va_index v)) ev (va_book v)), va_last := Some (ev_time ev),
      va_seen := va_seen v \<union> set_option (added_name ev)\<rparr>"
proof -
  show "va_issues (validate_one ids ev v) = [] \<longleftrightarrow> 0 < ev_price ev \<and> \<not> bad_size ev \<and> (\<forall>t. va_last v = Some t \<longrightarrow> t \<le> ev_time ev)
      \<and> (\<forall>n. added_name ev = Some n \<longrightarrow> n \<notin> va_seen v) \<and> \<not> crossed (fst (apply_market_event (ids (va_index v)) ev (va_book v)))"
    using assms by (auto simp: validate_one_def Let_def added_name_def not_less not_le split: option.splits)
  show "validate_one ids ev v = v\<lparr>va_index := Suc (va_index v),
      va_book := fst (apply_market_event (ids (va_index v)) ev (va_book v)), va_last := Some (ev_time ev),
      va_seen := va_seen v \<union> set_option (added_name ev)\<rparr>" if "va_issues (validate_one ids ev v) = []"
  proof -
    have ok: "\<not> ev_price ev \<le> 0" "\<not> bad_size ev" using that assms by (auto simp: validate_one_def Let_def split: if_splits)
    have "max t (ev_time ev) = ev_time ev" if "va_last v = Some t" for t
      using that \<open>va_issues (validate_one ids ev v) = []\<close> assms ok by (auto simp: validate_one_def Let_def split: if_splits)
    then show ?thesis using that assms ok unfolding validate_one_def Let_def
      by (cases "va_last v"; cases "named ev") (simp_all add: added_name_def)
  qed
qed

lemma validate_all_accepts:
  assumes "1 \<le> most" "va_issues v = []"
  shows "va_issues (validate_all ids most evs v) = [] \<longleftrightarrow> accepts ids (va_index v) (va_last v) (va_seen v) (va_book v) evs"
  using assms(2)
proof (induction evs arbitrary: v)
  case (Cons ev evs)
  show ?case
  proof (cases "va_issues (validate_one ids ev v) = []")
    case True
    then show ?thesis
      using Cons.IH [OF True] validate_one_clean [OF Cons.prems, of ids ev] assms(1) Cons.prems by simp
  next
    case False
    then show ?thesis
      using issues_stay [OF False] validate_one_clean(1) [OF Cons.prems, of ids ev] assms(1) Cons.prems by auto
  qed
qed simp

lemma book_after_append: "book_after ids i (xs @ ys) b = book_after ids (i + length xs) ys (book_after ids i xs b)"
  by (induction xs arbitrary: i b) simp_all

lemma accepts_iff:
  "accepts ids i l seen b evs \<longleftrightarrow>
     (\<forall>ev \<in> set evs. 0 < ev_price ev \<and> \<not> bad_size ev)
     \<and> sorted (map ev_time evs) \<and> (\<forall>t ev. l = Some t \<longrightarrow> ev \<in> set evs \<longrightarrow> t \<le> ev_time ev)
     \<and> distinct (List.map_filter added_name evs) \<and> seen \<inter> set (List.map_filter added_name evs) = {}
     \<and> (\<forall>n \<le> length evs. 0 < n \<longrightarrow> \<not> crossed (book_after ids i (take n evs) b))"
proof (induction evs arbitrary: i l seen b)
  case (Cons ev evs)
  let ?b = "fst (apply_market_event (ids i) ev b)"
  have "(\<forall>n \<le> length (ev # evs). 0 < n \<longrightarrow> \<not> crossed (book_after ids i (take n (ev # evs)) b))
      \<longleftrightarrow> \<not> crossed ?b \<and> (\<forall>n \<le> length evs. 0 < n \<longrightarrow> \<not> crossed (book_after ids (Suc i) (take n evs) ?b))" (is "?all \<longleftrightarrow> ?rest")
  proof
    assume ?all
    then have "\<not> crossed (book_after ids i (take (Suc n) (ev # evs)) b)" if "n \<le> length evs" for n using that by fastforce
    from this [of 0] this show ?rest by simp
  next
    assume rest: ?rest
    show ?all
    proof (intro allI impI)
      fix n assume "n \<le> length (ev # evs)" "0 < n"
      then obtain m where "n = Suc m" "m \<le> length evs" by (cases n) simp_all
      then show "\<not> crossed (book_after ids i (take n (ev # evs)) b)" using rest by (cases m) simp_all
    qed
  qed
  then show ?case by (cases "added_name ev") (auto simp: Cons.IH)
qed simp

text \<open>
  C39: validation accepts exactly the valid streams. It reports nothing if and only if every price and size is in range, times never go
  back, no added id repeats and no prefix of the stream leaves the book crossed or locked.
\<close>

theorem validation_is_exact:
  assumes "new_book tick digits = Some b" "1 \<le> most"
  shows "validate_events ids tick digits most evs = Some [] \<longleftrightarrow>
     (\<forall>ev \<in> set evs. 0 < ev_price ev \<and> \<not> bad_size ev) \<and> sorted (map ev_time evs)
     \<and> distinct (List.map_filter added_name evs)
     \<and> (\<forall>n \<le> length evs. 0 < n \<longrightarrow> \<not> crossed (book_after ids 0 (take n evs) b))"
  using assms(1) by (simp add: validate_events_def validate_all_accepts [OF assms(2)] accepts_iff)

definition demo_stream :: "book_event list" where
  "demo_stream =
     [\<lparr>ev_time = 0, ev_type = EV_ADD, ev_side = BUY, ev_price = 7, ev_size = 2, ev_order = Some ''a''\<rparr>,
      \<lparr>ev_time = 1, ev_type = EV_ADD, ev_side = SELL, ev_price = 9, ev_size = 2, ev_order = Some ''b''\<rparr>]"

definition demo_tick_book :: book where
  "demo_tick_book = the (new_book 1 0)"

lemma demo_tick_book: "new_book 1 0 = Some demo_tick_book"
  by (simp add: demo_tick_book_def new_book_def)

theorem validation_is_exact_witness:
  "validate_events (\<lambda>_. ''x'') 1 0 20 demo_stream = Some [] \<longleftrightarrow>
     (\<forall>ev \<in> set demo_stream. 0 < ev_price ev \<and> \<not> bad_size ev) \<and> sorted (map ev_time demo_stream)
     \<and> distinct (List.map_filter added_name demo_stream)
     \<and> (\<forall>n \<le> length demo_stream. 0 < n \<longrightarrow> \<not> crossed (book_after (\<lambda>_. ''x'') 0 (take n demo_stream) demo_tick_book))"
  by (rule validation_is_exact [OF demo_tick_book]) simp

section \<open>What a strategy sees\<close>













lemma demo_ticks:
  "round_half_even (fdiv 7 1) = 7" "round_half_even (fdiv 9 1) = 9"
  "pyround (fmul 7 1) 0 = 7" "pyround (fmul 9 1) 0 = 9"
  using round_half_even_of_int [of 7] round_half_even_of_int [of 9] pyround_of_int [of 7 0] pyround_of_int [of 9 0]
  by (simp_all add: fdiv_def fmul_def)

text \<open>The book after each of the two events.\<close>

definition demo_resting :: "string \<Rightarrow> trade_side \<Rightarrow> pyfloat \<Rightarrow> pyfloat \<Rightarrow> order" where
  "demo_resting i sd p t = (feed_order i sd p 2)\<lparr>b_entered_at := Some t, b_status := OQUEUED\<rparr>"



lemmas demo_defs = apply_market_event_def apply_add_def add_feed_def allocate_def add_order_def ensure_level_def level_at_def
  half_of_def set_half_def set_level_def to_ticks_def from_ticks_def total_size_def feed_order_def event_id_def Let_def
  demo_resting_def new_book_def demo_tick_book_def










text \<open>
  With an exchange in the session, the strategy's own orders rest in the same book, and a feed event that adds an ask
  below such a bid does not trade with it but is queued: the book is then crossed although each event of the stream
  was accepted (the ask alone crosses nothing).
\<close>

definition demo_paper_book :: book where
  "demo_paper_book = demo_tick_book\<lparr>bids := \<lparr>h_levels = [(9, \<lparr>l_price = 9, l_orders = [0]\<rparr>)], h_ticks = [9]\<rparr>,
     index := [(''p'', 0)], heap := (\<lambda>r. blank_order)(0 := (demo_resting ''p'' BUY 9 0)\<lparr>b_owner := PAPER\<rparr>), next_ref := 1\<rparr>"

definition demo_low_ask :: book_event where
  "demo_low_ask = \<lparr>ev_time = 1, ev_type = EV_ADD, ev_side = SELL, ev_price = 7, ev_size = 2, ev_order = Some ''b''\<rparr>"

lemma feed_rests_below_paper_bid:
  "\<not> crossed demo_paper_book \<and> \<not> crossed (fst (apply_market_event i demo_low_ask demo_tick_book))
   \<and> crossed (fst (apply_market_event i demo_low_ask demo_paper_book))"
  unfolding demo_paper_book_def demo_low_ask_def crossed_def best_bid_def best_ask_def
  by (simp add: demo_defs demo_ticks EPS_less)

end
