(* ===== verification/Spec2Isabelle.thy ===== *)
theory Spec2Isabelle
  imports Ledger_Properties Job_Starts Worker Exchange_Properties Auth_Properties Audit_Properties Message_Protocol Order_Security_Properties Kill_Switches Order_Placement_Properties Dataset_Registry Experiment_Properties Event_Properties Integration_Properties Gate_Properties Session_Properties Synthetic_Properties L2_Properties
begin

text \<open>
  Verification development of QuantumSentinel (\<^verbatim>\<open>src/backend\<close>): a FastAPI backend that
  takes simulated orders, keeps a cash ledger for them, runs research jobs in worker
  processes and keeps a signed audit trail.

  \<^bold>\<open>How the program is put together.\<close> \<^verbatim>\<open>main.py\<close> holds the HTTP handlers. An order passes the
  idempotency table, the signature and nonce check and the risk gate
  (\<^verbatim>\<open>order_security.py\<close>, \<^verbatim>\<open>redis_store.py\<close>), is priced with the quotes of
  \<^verbatim>\<open>trading_service.py\<close>, reserves cash and is filled or left open by \<^verbatim>\<open>paper_broker.py\<close>,
  from whose trades \<^verbatim>\<open>portfolio_service.py\<close> projects positions and equity. Sessions and
  tokens are the business of \<^verbatim>\<open>auth_service.py\<close>, encrypted messages of
  \<^verbatim>\<open>crypto/message_protocol.py\<close>, the audit chain of \<^verbatim>\<open>security_service.py\<close>. Research requests
  become rows of the job queue (\<^verbatim>\<open>research_jobs.py\<close>), claimed and run by \<^verbatim>\<open>worker.py\<close>, whose
  evaluations are counted by \<^verbatim>\<open>research_trials.py\<close>. The research exchange
  (\<^verbatim>\<open>order_book.py\<close>, \<^verbatim>\<open>matching_engine.py\<close>, \<^verbatim>\<open>paper_exchange.py\<close>) simulates a venue in memory.

  \<^bold>\<open>Conventions.\<close> A database table is the list of its rows and a SQLAlchemy session a pair of a
  committed and a working database (\<open>Prelude.session\<close>), so a commit, a rollback and the row
  count of a conditional \<^verbatim>\<open>UPDATE\<close> are explicit. A Python dict is an association list in
  insertion order. A float is the rational it denotes and every float operation the exact
  one followed by rounding to binary64 (\<open>Numerics.fl\<close>), \<^verbatim>\<open>sum\<close> is the compensated sum of
  Python 3.12; overflow and NaN are outside the model except where a text says otherwise.
  Instants are microseconds. Cryptographic primitives, clocks, random identifiers and the
  answers of other services are arguments. Exceptions are values of sum or option types.

  \<^bold>\<open>Theories, in the order of the program's parts.\<close>
  \<^item> \<open>Prelude\<close>, \<open>Numerics\<close>, \<open>Json_Values\<close>: dictionaries, sessions, tables, floats and
    Decimals, JSON values and their deterministic text. \<open>Prelude\<close> states the interfaces
    \<open>ordered_dict\<close> (what a dict promises its clients), \<open>guarded_machine\<close> (operations that keep
    an invariant) and \<open>sealed_machine\<close> (facts about single records no operation undoes).
    They are interpreted on the ledger, the job queue, the limiter, the refresh-token
    table, the message session, the nonce store (one process's memory and the shared Redis,
    \<open>shared_nonces\<close>), the kill switches (\<open>switches_on\<close>), the idempotency table, the order book,
    the matching engine and the research exchange.
  \<^item> \<open>Trading_Service\<close>, \<open>Portfolio_Service\<close>, \<open>Paper_Broker\<close>: \<^verbatim>\<open>trading_service.py\<close>,
    \<^verbatim>\<open>portfolio_service.py\<close>, \<^verbatim>\<open>paper_broker.py\<close> and the trading tables of \<^verbatim>\<open>models.py\<close>.
    \<open>Ledger_Invariants\<close>, \<open>Ledger_Properties\<close>: no account is overdrawn, cash is the net of
    fills, an order is filled once, a rejection is exact, the sweeper's SQL predicate agrees
    with its body, over every interleaving of the ledger's operations.
  \<^item> \<open>Research_Trials\<close>, \<open>Research_Jobs\<close>, \<open>Worker\<close>: the trial counter, every transaction of the
    job queue, and one worker iteration with its run loop. \<open>Job_Invariants\<close>, \<open>Job_Properties\<close>:
    a stale worker cannot write, a finished job is final, active jobs are bounded;
    \<open>Job_Starts\<close>: the claims that won a job, counted over a history, are at most
    \<open>max_attempts\<close> plus the times a worker handed the job back; \<open>Worker\<close>: the run loop ends
    by its deadline.
  \<^item> \<open>Order_Book\<close>, \<open>Matching_Engine\<close>, \<open>Paper_Exchange\<close> with \<open>Book_Properties\<close>,
    \<open>Matching_Properties\<close>, \<open>Exchange_Properties\<close>: the structure of the price grid,
    price-time priority (a taker's fills are the best-first queue taken in order), self-trade prevention, queue positions, the reporting of executions, the
    latency queue and the exchange's cash.
  \<^item> \<open>Market_Microstructure\<close>, \<open>Synthetic_L2\<close>, \<open>Synthetic_Properties\<close>: \<^verbatim>\<open>market_microstructure.py\<close>, its generator
    with the random source as an argument: the events a call generates are, in generation order, a valid history of
    an aggregated book, and the result is that history sorted by time, which is the history itself when the bars
    are far enough apart (\<open>bars_apart\<close>; hourly bars may overlap, and then it can differ). The reference semantics
    works in ticks and sizes, sizes to the cent; that a price reads back as its tick is outside the statement.
    \<open>Execution_Analytics\<close>, \<open>L2_Replay\<close>, \<open>L2_Properties\<close>: \<^verbatim>\<open>execution_analytics.py\<close> over the research exchange and
    \<^verbatim>\<open>l2_event_replay.py\<close>: validation is exact, and the replay of an accepted
    stream without a research exchange never shows a crossed book.
  \<^item> \<open>Auth_Service\<close>, \<open>Auth_Properties\<close>: password check, login limiter, token cache, refresh
    tokens: reuse revokes the family, one live token per family, absolute session limit,
    lockouts hold, the cache is transparent.
  \<^item> \<open>Audit_Chain\<close>, \<open>Audit_Properties\<close>: signing identity, group commit, verification: appends
    keep the chain valid, a bad append fails alone (the other appends of its group are
    answered and written, in order), the newest hash fixes the history.
  \<^item> \<open>Message_Protocol\<close>, \<open>Redis_Store\<close>, \<open>Order_Security\<close>, \<open>Order_Security_Properties\<close>: replay
    window, nonces, kill switches, canonical orders, signatures, idempotency, risk gate.
    \<open>Kill_Switches\<close>: the endpoint and the gate over several API processes that share Redis:
    an active switch stops every order it covers, in every process.
  \<^item> \<open>Order_Placement\<close>, \<open>Order_Placement_Properties\<close>: \<^verbatim>\<open>main.place_order\<close>, \<^verbatim>\<open>cancel_order\<close> and
    the kill-switch endpoint, composed of the above: no path overdraws an account, a
    refused order leaves nothing, a retry returns the stored response.
  \<^item> \<open>Json_Reader\<close>, \<open>Byte_Codec\<close>, \<open>Dataset_Format\<close>, \<open>Dataset_Encoding\<close>, \<open>Dataset_Tables\<close>,
    \<open>Dataset_Properties\<close>, \<open>Dataset_Store\<close>, \<open>Dataset_Registry\<close>: reading canonical JSON, little-endian words and
    UTF-8, then \<^verbatim>\<open>dataset_format.py\<close>, \<^verbatim>\<open>dataset_store.py\<close>, \<^verbatim>\<open>dataset_registry.py\<close>. A built table is well typed,
    a blob decodes to what was encoded, a substituted blob is refused, a stored dataset
    stays available (interpretation \<open>blob_files\<close>) and what a result names stays readable
    for its user (interpretation \<open>registry\<close>).
  \<^item> \<open>Latency_Model\<close>, \<open>Experiment_Registry\<close>, \<open>Experiment_Properties\<close>: \<^verbatim>\<open>latency_model.py\<close> and
    \<^verbatim>\<open>experiment_registry.py\<close> with the finalizers its jobs run: results are final, approval needs a second
    person and every gate, a signed manifest verifies for ever (interpretations \<open>experiments\<close>, \<open>signing_keys\<close>).
  \<^item> \<open>Strategy_Signals\<close>, \<open>Event_Simulator\<close>, \<open>Event_Properties\<close>: \<^verbatim>\<open>strategy_signals.py\<close> and the event loop of
    \<^verbatim>\<open>event_simulator.py\<close>: signals and backtests use only the past, long-only backtests stay long.
  \<^item> \<open>Python_Net\<close>, \<open>Integration_Service\<close>, \<open>Integration_Properties\<close>: addresses and URLs as Python reads them, then
    \<^verbatim>\<open>integration_service.py\<close> and its handlers in \<^verbatim>\<open>main.py\<close>: API keys and their revocation
    (interpretation \<open>api_keys\<close>), signed requests (accepted once by all processes that
    share Redis), webhooks with pinned name resolution, for URLs on whose host \<^verbatim>\<open>urlparse\<close> and the HTTP client
    agree (\<open>dials_plain\<close>).
  \<^item> \<open>Request_Gate\<close>, \<open>Gate_Properties\<close>: what a request passes in \<^verbatim>\<open>main.py\<close> before its handler: the limiter is a sliding
    window with bounded memory (it never counts more than the window holds, and exactly that while the active keys
    fit its table), a bucket belongs to a proven principal, browser writes need the user's own CSRF token.
  \<^item> \<open>Session_Handlers\<close>, \<open>Session_Properties\<close>: register, login, refresh, logout and settings of \<^verbatim>\<open>main.py\<close> over ASCII texts: a
    failed login is uniform, cookies need a proof, logging out everywhere is final (interpretation \<open>account_sessions\<close>).
    The Redis copy of refresh tokens, which nothing reads, is an output of the handlers.

  \<^bold>\<open>Bounds and fuel.\<close> The claim loop of the job queue tries five candidates, as the code does.
  The worker's run loop is a recursion on the ticks the clock gives; its theorem says that
  it returns once the clock has passed every limit. The sweep of a price level that is
  missing from the dictionary (a \<^verbatim>\<open>KeyError\<close>) cannot be reached under the book's invariant.

  \<^bold>\<open>Not modelled.\<close> Third-party code (liboqs, cryptography, PyJWT, argon2, Redis, PostgreSQL,
  numpy, pandas, scipy) is an argument or left out; so are HTTP fetches, PDF rendering,
  migrations, configuration, command-line tools and the declarative request schemas (the validators of
  \<^verbatim>\<open>RegisterRequest\<close> are in \<open>Session_Handlers\<close>). The
  numerical research engines are vectorised array code whose library semantics are not in
  the repository.
\<close>

end
